(* ===== verification/M365_Prelude.thy ===== *)
theory M365_Prelude
  imports Main "HOL-Library.AList" "HOL-Library.Char_ord" "HOL-Library.List_Lexorder"
    "HOL-Library.Product_Lexorder" "HOL-Library.Sublist" "HOL-Library.Multiset"
begin

text \<open>
  Shared vocabulary of the development.

  Errors: a raised Python exception is a value of \<open>exn\<close>; a fallible operation returns
  \<open>exn + 'a\<close>. An exception raised with an f-string keeps the literal template and the list of the
  interpolated strings, in order. A dataclass \<open>__post_init__\<close> is a list of checks in source
  order; \<open>first_error\<close> yields the exception of the first check that fails, and \<open>construct\<close>
  builds the object or raises.

  Strings: a Python string is a \<open>string\<close> (a list of \<open>char\<close>), one \<open>char\<close> for one code point, so
  the model covers the strings whose code points are below 256. \<open>strip\<close> and \<open>is_space\<close>
  follow \<open>str.strip\<close> and \<open>str.isspace\<close> on that range, \<open>utf8\<close> is \<open>str.encode("utf-8")\<close>.

  Dictionaries: an association list in insertion order; \<open>AList.update\<close> is item assignment (it
  overwrites in place or appends), \<open>map_of\<close> is lookup. Instants: a timezone-aware
  \<open>datetime\<close> is its UTC time in microseconds together with its offset.
\<close>

named_theorems checks \<open>validators reduced to the conditions they test\<close>

subsection \<open>Exceptions\<close>

datatype exn =
    ValueError string "string list"
  | KeyError
  | RuntimeError string "string list"
  | ConfigurationError string "string list"
  | IntegrityError
  | TypeError

type_synonym 'a result = "exn + 'a"

definition value_error :: "string \<Rightarrow> exn" where
  "value_error msg = ValueError msg []"

definition raise_if :: "bool \<Rightarrow> exn \<Rightarrow> exn option" where
  "raise_if b e = (if b then Some e else None)"

fun first_error :: "exn option list \<Rightarrow> exn option" where
  "first_error [] = None"
| "first_error (c # cs) = (case c of Some e \<Rightarrow> Some e | None \<Rightarrow> first_error cs)"

definition construct :: "('a \<Rightarrow> exn option) \<Rightarrow> 'a \<Rightarrow> 'a result" where
  "construct post_init x = (case post_init x of Some e \<Rightarrow> Inl e | None \<Rightarrow> Inr x)"

definition bindE :: "'a result \<Rightarrow> ('a \<Rightarrow> 'b result) \<Rightarrow> 'b result" where
  "bindE m f = (case m of Inl e \<Rightarrow> Inl e | Inr x \<Rightarrow> f x)"

fun mapE :: "('a \<Rightarrow> 'b result) \<Rightarrow> 'a list \<Rightarrow> 'b list result" where
  "mapE f [] = Inr []"
| "mapE f (x # xs) = bindE (f x) (\<lambda>y. bindE (mapE f xs) (\<lambda>ys. Inr (y # ys)))"

lemma raise_if_None [checks]: "raise_if b e = None \<longleftrightarrow> \<not> b"
  by (simp add: raise_if_def)

lemma raise_if_Some: "raise_if b e = Some e' \<longleftrightarrow> b \<and> e' = e"
  by (auto simp: raise_if_def)

lemma first_error_Cons_None [checks]:
  "first_error (c # cs) = None \<longleftrightarrow> c = None \<and> first_error cs = None"
  by (simp split: option.splits)

lemma first_error_append [checks]:
  "first_error (cs @ ds) = None \<longleftrightarrow> first_error cs = None \<and> first_error ds = None"
  by (induction cs) (auto split: option.splits)

lemma raise_if_simps [simp]: "raise_if True e = Some e" "raise_if False e = None"
  by (simp_all add: raise_if_def)

lemma first_error_None_iff: "first_error cs = None \<longleftrightarrow> (\<forall>c \<in> set cs. c = None)"
  by (induction cs) (auto split: option.splits)

lemma first_error_map_None [checks]:
  "first_error (map f xs) = None \<longleftrightarrow> (\<forall>x \<in> set xs. f x = None)"
  by (simp add: first_error_None_iff)

lemma construct_Inr_iff [checks]: "construct p x = Inr y \<longleftrightarrow> p x = None \<and> y = x"
  by (auto simp: construct_def split: option.splits)

lemma construct_Inl_iff: "construct p x = Inl e \<longleftrightarrow> p x = Some e"
  by (auto simp: construct_def split: option.splits)

lemma bindE_Inr_iff: "bindE m f = Inr y \<longleftrightarrow> (\<exists>x. m = Inr x \<and> f x = Inr y)"
  by (auto simp: bindE_def split: sum.splits)

lemma bindE_simps [simp]: "bindE (Inr x) f = f x" "bindE (Inl e) f = Inl e"
  by (simp_all add: bindE_def)

lemma Inr_caseD: "(case m of Inl e \<Rightarrow> False | Inr x \<Rightarrow> P x) \<Longrightarrow> \<exists>x. m = Inr x \<and> P x"
  by (cases m) auto

lemma mapE_Inr_iff: "mapE f xs = Inr ys \<longleftrightarrow> list_all2 (\<lambda>x y. f x = Inr y) xs ys"
  by (induction xs arbitrary: ys) (auto simp: bindE_Inr_iff list_all2_Cons1)

lemma mapE_Inr_set: "mapE f xs = Inr ys \<Longrightarrow> y \<in> set ys \<Longrightarrow> \<exists>x \<in> set xs. f x = Inr y"
  by (induction xs arbitrary: ys) (auto simp: bindE_Inr_iff)

declare first_error.simps(2) [simp del]

subsection \<open>Strings\<close>

definition is_space :: "char \<Rightarrow> bool" where
  "is_space c = (let n = (of_char c :: nat)
     in (9 \<le> n \<and> n \<le> 13) \<or> (28 \<le> n \<and> n \<le> 32) \<or> n = 133 \<or> n = 160)"

definition lstrip :: "string \<Rightarrow> string" where
  "lstrip s = dropWhile is_space s"

definition strip :: "string \<Rightarrow> string" where
  "strip s = rev (dropWhile is_space (rev (dropWhile is_space s)))"

definition has_space :: "string \<Rightarrow> bool" where
  "has_space s = list_ex is_space s"

text \<open>Checks that the modules repeat: a semantic token as it stands, a token once stripped, a
  lowercase SHA-256 digest.\<close>

definition bad_token :: "string \<Rightarrow> bool" where
  "bad_token v \<longleftrightarrow> v = [] \<or> v \<noteq> strip v \<or> has_space v"

definition is_url :: "string \<Rightarrow> bool" where
  "is_url v \<longleftrightarrow> sublist ''://'' v"

definition hex_digits :: string where
  "hex_digits = ''0123456789abcdef''"

definition is_digest :: "string \<Rightarrow> bool" where
  "is_digest v \<longleftrightarrow> length v = 64 \<and> list_all (\<lambda>c. c \<in> set hex_digits) v"

lemma strip_no_space: "\<not> has_space s \<Longrightarrow> strip s = s"
proof -
  assume "\<not> has_space s"
  then have h: "\<forall>c \<in> set s. \<not> is_space c" by (simp add: has_space_def list_ex_iff)
  have d: "dropWhile is_space t = t" if "\<forall>c \<in> set t. \<not> is_space c" for t
    using that by (cases t) auto
  show ?thesis using h d [of s] d [of "rev s"] by (simp add: strip_def)
qed

lemma bad_token_iff [checks]: "bad_token v \<longleftrightarrow> v = [] \<or> has_space v"
  by (auto simp: bad_token_def strip_no_space)

lemma set_strip: "set (strip s) \<subseteq> set s"
  by (auto simp: strip_def dest!: set_dropWhileD)

lemma dropWhile_idem: "dropWhile p (dropWhile p t) = dropWhile p t"
  by (induction t) auto

lemma strip_idem [simp]: "strip (strip s) = strip s"
proof -
  let ?a = "dropWhile is_space s"
  let ?b = "dropWhile is_space (rev ?a)"
  have "suffix ?b (rev ?a)" by (rule suffix_dropWhile)
  then have pre: "prefix (rev ?b) ?a" by (simp add: suffix_to_prefix)
  have lead: "dropWhile is_space (rev ?b) = rev ?b"
  proof (cases "rev ?b")
    case Nil then show ?thesis by (metis dropWhile.simps(1))
  next
    case (Cons c cs)
    with pre have "\<exists>ys. ?a = c # ys" by (auto simp: prefix_def)
    then have "\<not> is_space c" by (metis dropWhile_eq_Cons_conv)
    then show ?thesis unfolding Cons by simp
  qed
  show ?thesis unfolding strip_def lead by (simp add: dropWhile_idem)
qed

definition semantic_token :: "string \<Rightarrow> string \<Rightarrow> exn option" where
  "semantic_token field v = raise_if (bad_token v \<or> is_url v)
     (ValueError ''{} must be a non-empty semantic token'' [field])"

definition token_ok :: "string \<Rightarrow> bool" where
  "token_ok v \<longleftrightarrow> v \<noteq> [] \<and> \<not> has_space v \<and> \<not> is_url v"

lemma semantic_token_None [checks]: "semantic_token field v = None \<longleftrightarrow> token_ok v"
  by (auto simp: semantic_token_def token_ok_def checks)

text \<open>UTF-8 of a string of code points below 256, as byte values.\<close>

definition utf8_char :: "char \<Rightarrow> nat list" where
  "utf8_char c = (let n = of_char c in if n < 128 then [n] else [192 + n div 64, 128 + n mod 64])"

definition utf8 :: "string \<Rightarrow> nat list" where
  "utf8 s = concat (map utf8_char s)"

lemma of_char_nat_bound: "(of_char c :: nat) < 256"
  by simp

lemma utf8_Nil_iff: "utf8 s = [] \<longleftrightarrow> s = []"
  by (cases s) (auto simp: utf8_def utf8_char_def Let_def)

lemma utf8_char_Cons:
  "utf8_char c @ xs = utf8_char d @ ys \<Longrightarrow> c = d \<and> xs = ys"
proof -
  assume h: "utf8_char c @ xs = utf8_char d @ ys"
  have b: "(of_char c :: nat) < 256" "(of_char d :: nat) < 256"
    by (rule of_char_nat_bound)+
  have "(of_char c :: nat) = of_char d \<and> xs = ys"
  proof (cases "(of_char c :: nat) < 128"; cases "(of_char d :: nat) < 128")
    assume c: "\<not> (of_char c :: nat) < 128" and d: "\<not> (of_char d :: nat) < 128"
    with h have "(of_char c :: nat) div 64 = of_char d div 64"
      and "(of_char c :: nat) mod 64 = of_char d mod 64" and x: "xs = ys"
      by (auto simp: utf8_char_def Let_def)
    then have "(of_char c :: nat) = of_char d" by (metis div_mult_mod_eq)
    with x show ?thesis by simp
  qed (use h b in \<open>auto simp: utf8_char_def Let_def\<close>)
  then show ?thesis by simp
qed

lemma utf8_inj: "utf8 s = utf8 t \<Longrightarrow> s = t"
proof (induction s arbitrary: t)
  case Nil
  then show ?case by (metis utf8_Nil_iff)
next
  case (Cons c s)
  show ?case
  proof (cases t)
    case Nil
    with Cons.prems show ?thesis by (metis utf8_Nil_iff)
  next
    case (Cons d t')
    with Cons.prems have "utf8_char c @ utf8 s = utf8_char d @ utf8 t'" by (simp add: utf8_def)
    then have "c = d \<and> utf8 s = utf8 t'" by (rule utf8_char_Cons)
    with Cons.IH Cons show ?thesis by auto
  qed
qed

lemma utf8_bytes: "b \<in> set (utf8 s) \<Longrightarrow> b < 256"
proof -
  assume "b \<in> set (utf8 s)"
  then obtain c where c: "b \<in> set (utf8_char c)" by (auto simp: utf8_def)
  have "(of_char c :: nat) div 64 < 4" using of_char_nat_bound [of c] by linarith
  moreover have "(of_char c :: nat) mod 64 < 64" by simp
  ultimately show ?thesis using c
    by (auto simp: utf8_char_def Let_def simp del: mod_less_divisor split: if_splits)
qed

subsection \<open>Dictionaries in insertion order\<close>

text \<open>The registries of the code are filled by one loop: reject a key already present, else
  store. \<open>build_by_key\<close> is that loop.\<close>

fun build_by_key ::
  "('a \<Rightarrow> 'k) \<Rightarrow> ('a \<Rightarrow> exn) \<Rightarrow> 'a list \<Rightarrow> ('k \<times> 'a) list \<Rightarrow> ('k \<times> 'a) list result" where
  "build_by_key key dup [] d = Inr d"
| "build_by_key key dup (x # xs) d =
     (if map_of d (key x) \<noteq> None then Inl (dup x)
      else build_by_key key dup xs (AList.update (key x) x d))"

lemma update_new: "map_of d k = None \<Longrightarrow> AList.update k v d = d @ [(k, v)]"
  by (induction d) auto

lemma build_by_key_Inr_iff:
  "build_by_key key dup xs d = Inr r \<longleftrightarrow>
     r = d @ map (\<lambda>x. (key x, x)) xs \<and> distinct (map key xs) \<and>
     set (map key xs) \<inter> set (map fst d) = {}"
proof (induction xs arbitrary: d)
  case Nil
  then show ?case by auto
next
  case (Cons x xs)
  show ?case
  proof (cases "map_of d (key x)")
    case None
    then have "key x \<notin> fst ` set d" by (simp add: map_of_eq_None_iff)
    with None Cons.IH [of "d @ [(key x, x)]"] show ?thesis by (auto simp: update_new)
  next
    case (Some y)
    then have "key x \<in> fst ` set d" by (metis domI dom_map_of_conv_image_fst)
    with Some show ?thesis by auto
  qed
qed

lemma map_of_map_key:
  "distinct (map key xs) \<Longrightarrow> x \<in> set xs \<Longrightarrow> map_of (map (\<lambda>x. (key x, x)) xs) (key x) = Some x"
  by (induction xs) (auto intro: rev_image_eqI)

lemma map_of_map_key_SomeD:
  "map_of (map (\<lambda>x. (key x, x)) xs) k = Some x \<Longrightarrow> x \<in> set xs \<and> key x = k"
  by (induction xs) (auto split: if_splits)

lemma map_of_map_key_iff:
  "distinct (map key xs) \<Longrightarrow>
     map_of (map (\<lambda>x. (key x, x)) xs) k = Some x \<longleftrightarrow> x \<in> set xs \<and> key x = k"
  by (auto intro: map_of_map_key dest: map_of_map_key_SomeD)

subsection \<open>Instants\<close>

datatype datetime = Naive int | Aware int int

type_synonym utc = int

fun require_aware :: "exn \<Rightarrow> datetime \<Rightarrow> utc result" where
  "require_aware e (Naive t) = Inl e"
| "require_aware e (Aware u off) = Inr u"

lemma require_aware_Inr_iff [checks]:
  "require_aware e d = Inr u \<longleftrightarrow> (\<exists>off. d = Aware u off)"
  by (cases d) auto

fun is_naive :: "datetime \<Rightarrow> bool" where
  "is_naive (Naive t) = True"
| "is_naive (Aware u off) = False"

fun utc_of :: "datetime \<Rightarrow> utc" where
  "utc_of (Aware u off) = u"
| "utc_of (Naive t) = t"

subsection \<open>Selection of a maximum\<close>

text \<open>\<open>max(items, key=f)\<close> of a non-empty sequence: the first item with the greatest key.\<close>

fun max_by :: "('a \<Rightarrow> 'b::linorder) \<Rightarrow> 'a \<Rightarrow> 'a list \<Rightarrow> 'a" where
  "max_by f best [] = best"
| "max_by f best (x # xs) = max_by f (if f best < f x then x else best) xs"

lemma max_by_in: "max_by f b xs \<in> insert b (set xs)"
proof (induction xs arbitrary: b)
  case (Cons x xs)
  from Cons.IH [of "if f b < f x then x else b"] show ?case by (auto split: if_splits)
qed simp

lemma max_by_ge: "x \<in> insert b (set xs) \<Longrightarrow> f x \<le> f (max_by f b xs)"
proof (induction xs arbitrary: b x)
  case (Cons y xs)
  let ?b = "if f b < f y then y else b"
  have "f ?b \<le> f (max_by f ?b xs)" by (rule Cons.IH) simp
  moreover have "f b \<le> f ?b" "f y \<le> f ?b" by auto
  moreover have "f x \<le> f (max_by f ?b xs)" if "x \<in> set xs" using that by (intro Cons.IH) simp
  ultimately show ?case using Cons.prems by (auto simp del: max_by.simps simp: max_by.simps(2) intro: order_trans)
qed simp

subsection \<open>Slices\<close>

function chunks :: "nat \<Rightarrow> 'a list \<Rightarrow> 'a list list" where
  "chunks n xs = (if xs = [] \<or> n = 0 then [] else take n xs # chunks n (drop n xs))"
  by pat_completeness auto
termination
  by (relation "measure (\<lambda>(n, xs). length xs)") auto

declare chunks.simps [simp del]

lemma concat_chunks: "0 < n \<Longrightarrow> concat (chunks n xs) = xs"
  by (induction n xs rule: chunks.induct) (subst chunks.simps, auto)

lemma chunks_bounds: "w \<in> set (chunks n xs) \<Longrightarrow> w \<noteq> [] \<and> length w \<le> n"
proof (induction n xs rule: chunks.induct)
  case (1 n xs)
  show ?case
  proof (cases "xs = [] \<or> n = 0")
    case True
    with "1.prems" show ?thesis by (simp add: chunks.simps [of n xs])
  next
    case False
    with "1.prems" have "w = take n xs \<or> w \<in> set (chunks n (drop n xs))"
      by (simp add: chunks.simps [of n xs])
    with False "1.IH" show ?thesis by auto
  qed
qed

end
