(* ===== verification/Config.thy ===== *)
theory Config
  imports M365_Prelude
begin

text \<open>
  \<open>config.py\<close>: the fail-closed runtime configuration. An environment is the dictionary of its
  variables in iteration order. The parsing of \<open>pydantic_settings\<close> is a parameter: it turns the
  environment into the raw field values (\<open>parse\<close>) or reports issues; the validators and the model
  invariant of \<open>Settings\<close> are modelled here, as are the alias and credential checks that run before.
  The timeout is in microseconds, a path is its text, and \<open>urllib.parse.urlsplit\<close> is a parameter that
  returns scheme, host part and user information, or raises.
\<close>

subsection \<open>Environment\<close>

type_synonym environ = "(string \<times> string) list"

definition upper_char :: "char \<Rightarrow> string" where
  "upper_char c = (let n = (of_char c :: nat) in
     if n = 223 then ''SS''
     else if (97 \<le> n \<and> n \<le> 122) \<or> (224 \<le> n \<and> n \<le> 254 \<and> n \<noteq> 247) then [char_of (n - 32)] else [c])"

definition upper :: "string \<Rightarrow> string" where
  "upper s = concat (map upper_char s)"

definition lower_char :: "char \<Rightarrow> char" where
  "lower_char c = (let n = (of_char c :: nat) in
     if (65 \<le> n \<and> n \<le> 90) \<or> (192 \<le> n \<and> n \<le> 222 \<and> n \<noteq> 215) then char_of (n + 32) else c)"

definition lower :: "string \<Rightarrow> string" where
  "lower s = map lower_char s"

definition CANONICAL_CONFIG_PREFIX :: string where
  "CANONICAL_CONFIG_PREFIX = ''M365_''"

definition LEGACY_CONFIG_PREFIX :: string where
  "LEGACY_CONFIG_PREFIX = ''PLANNER_''"

definition CREDENTIAL_MARKERS :: "string list" where
  "CREDENTIAL_MARKERS = [''PASSWORD'', ''PASSWD'', ''TOKEN'', ''SECRET'', ''API_KEY'', ''APIKEY'',
     ''CREDENTIAL'', ''COOKIE'', ''PRIVATE_KEY'', ''ACCESS_KEY'']"

definition CONFIG_ALIAS_PAIRS :: "(string \<times> string) list" where
  "CONFIG_ALIAS_PAIRS = [
     (''M365_MODE'', ''PLANNER_MODE''), (''M365_MCP_HOST'', ''PLANNER_MCP_HOST''),
     (''M365_MCP_PORT'', ''PLANNER_MCP_PORT''), (''M365_WORKER_URL'', ''PLANNER_WORKER_URL''),
     (''M365_STATE_PATH'', ''PLANNER_STATE_PATH''),
     (''M365_REQUEST_TIMEOUT_S'', ''PLANNER_REQUEST_TIMEOUT_S''),
     (''M365_ALLOW_MUTATIONS'', ''PLANNER_ALLOW_MUTATIONS''),
     (''M365_REQUIRE_UI_ATTESTATION'', ''PLANNER_REQUIRE_UI_ATTESTATION''),
     (''M365_LOG_LEVEL'', ''PLANNER_LOG_LEVEL''), (''M365_WORKER_HOST'', ''PLANNER_WORKER_HOST''),
     (''M365_WORKER_PORT'', ''PLANNER_WORKER_PORT''),
     (''M365_BROWSER_PROFILE_DIR'', ''PLANNER_BROWSER_PROFILE_DIR''),
     (''M365_BROWSER_HEADLESS'', ''PLANNER_BROWSER_HEADLESS'')]"

definition LIVE_REQUIRED_PAIRS :: "(string \<times> string) list" where
  "LIVE_REQUIRED_PAIRS = [(''M365_WORKER_URL'', ''PLANNER_WORKER_URL''),
     (''M365_STATE_PATH'', ''PLANNER_STATE_PATH'')]"

definition normalized_environment :: "environ \<Rightarrow> environ" where
  "normalized_environment env = fold (\<lambda>(name, value). AList.update (upper name) value) env []"

definition environment_value ::
  "environ \<Rightarrow> string \<Rightarrow> string \<Rightarrow> string option \<Rightarrow> string option" where
  "environment_value env canonical legacy dflt =
     (let n = normalized_environment env in
      case map_of n canonical of Some v \<Rightarrow> Some v
      | None \<Rightarrow> (case map_of n legacy of Some v \<Rightarrow> Some v | None \<Rightarrow> dflt))"

definition credential_shaped :: "string \<Rightarrow> bool" where
  "credential_shaped name = (let u = upper name in
     (prefix CANONICAL_CONFIG_PREFIX u \<or> prefix LEGACY_CONFIG_PREFIX u) \<and>
     list_ex (\<lambda>marker. sublist marker u) CREDENTIAL_MARKERS)"

definition credential_shaped_variables :: "environ \<Rightarrow> string list" where
  "credential_shaped_variables env = sort_key upper (filter credential_shaped (map fst env))"

definition alias_conflicts :: "environ \<Rightarrow> (string \<times> string) list" where
  "alias_conflicts env = (let n = normalized_environment env in
     filter (\<lambda>(canonical, legacy). map_of n canonical \<noteq> None \<and> map_of n legacy \<noteq> None \<and>
        map_of n canonical \<noteq> map_of n legacy) CONFIG_ALIAS_PAIRS)"

text \<open>The conflict error carries the names only, never the values.\<close>

definition validate_environment :: "environ \<Rightarrow> exn option" where
  "validate_environment env = first_error [
     raise_if (credential_shaped_variables env \<noteq> [])
       (ConfigurationError ''credential-shaped environment variables are forbidden''
          (credential_shaped_variables env)),
     raise_if (alias_conflicts env \<noteq> [])
       (ConfigurationError ''canonical and legacy configuration values conflict''
          (concat (map (\<lambda>(c, l). [c, l]) (alias_conflicts env))))]"

subsection \<open>Settings\<close>

datatype mode = Mock | Live

datatype log_level = DEBUG | INFO | WARNING | ERROR | CRITICAL

record Settings =
  st_mode :: mode
  st_host :: string
  st_port :: int
  st_worker_base_url :: string
  st_state_path :: string
  st_request_timeout_us :: int
  st_allow_mutations :: bool
  st_require_ui_contract_attestation :: bool
  st_log_level :: log_level
  st_tool_profile :: string
  st_fields_set :: "string list"

record split_url =
  url_scheme :: string
  url_netloc :: string
  url_username :: "string option"
  url_password :: "string option"

definition truthy :: "string option \<Rightarrow> bool" where
  "truthy v \<longleftrightarrow> v \<noteq> None \<and> v \<noteq> Some []"

definition host_non_empty :: "string \<Rightarrow> string result" where
  "host_non_empty value = (let stripped = strip value in
     if stripped = [] \<or> has_space stripped
     then Inl (value_error ''host must be non-empty and contain no whitespace'') else Inr stripped)"

definition rstrip_char :: "char \<Rightarrow> string \<Rightarrow> string" where
  "rstrip_char c s = rev (dropWhile (\<lambda>x. x = c) (rev s))"

definition worker_url_http_only :: "(string \<Rightarrow> split_url result) \<Rightarrow> string \<Rightarrow> string result" where
  "worker_url_http_only urlsplit value = (let stripped = rstrip_char (CHR ''/'') (strip value) in
     bindE (urlsplit stripped) (\<lambda>parsed.
       if url_scheme parsed \<notin> {''http'', ''https''} \<or> url_netloc parsed = []
       then Inl (value_error ''worker URL must use http or https and include a host'')
       else if truthy (url_username parsed) \<or> truthy (url_password parsed)
       then Inl (value_error ''worker URL must not contain userinfo or credentials'')
       else Inr stripped))"

definition state_path_absolute :: "string \<Rightarrow> string result" where
  "state_path_absolute value =
     (if prefix ''/'' value then Inr value else Inl (value_error ''state path must be absolute''))"

definition runtime_invariants :: "Settings \<Rightarrow> exn option" where
  "runtime_invariants s = first_error [
     raise_if (st_allow_mutations s)
       (value_error ''public mutations are disabled in product version 0.1.0''),
     raise_if (st_mode s = Live \<and> filter (\<lambda>f. f \<notin> set (st_fields_set s)) [''worker_base_url'', ''state_path''] \<noteq> [])
       (value_error ''live mode requires explicit worker_base_url and state_path''),
     raise_if (st_mode s = Live \<and> \<not> st_require_ui_contract_attestation s)
       (value_error ''live mode requires UIContract attestation'')]"

text \<open>Field constraints and validators run in field order, then the model invariant.\<close>

definition validate_settings :: "(string \<Rightarrow> split_url result) \<Rightarrow> Settings \<Rightarrow> Settings result" where
  "validate_settings urlsplit s =
     bindE (host_non_empty (st_host s)) (\<lambda>host.
     bindE (if 1 \<le> st_port s \<and> st_port s \<le> 65535 then Inr () else Inl (value_error ''port'')) (\<lambda>_.
     bindE (worker_url_http_only urlsplit (st_worker_base_url s)) (\<lambda>url.
     bindE (state_path_absolute (st_state_path s)) (\<lambda>path.
     bindE (if 0 < st_request_timeout_us s \<and> st_request_timeout_us s \<le> 300000000
            then Inr () else Inl (value_error ''request_timeout_s'')) (\<lambda>_.
     construct runtime_invariants
       (s\<lparr>st_host := host, st_worker_base_url := url, st_state_path := path\<rparr>))))))"

definition missing_live_environment :: "environ \<Rightarrow> string list" where
  "missing_live_environment env = (let n = normalized_environment env in
     map (\<lambda>(c, l). if map_of n ''M365_MODE'' \<noteq> None then c else l)
       (filter (\<lambda>(c, l). \<not> list_ex (\<lambda>name. strip (case map_of n name of Some v \<Rightarrow> v | None \<Rightarrow> []) \<noteq> []) [c, l])
          LIVE_REQUIRED_PAIRS))"

definition or_default :: "string option \<Rightarrow> string \<Rightarrow> string" where
  "or_default v d = (case v of Some s \<Rightarrow> if s = [] then d else s | None \<Rightarrow> d)"

definition load_settings ::
  "(environ \<Rightarrow> Settings result) \<Rightarrow> (string \<Rightarrow> split_url result) \<Rightarrow> environ \<Rightarrow> Settings result" where
  "load_settings parse urlsplit env =
     (case validate_environment env of Some e \<Rightarrow> Inl e | None \<Rightarrow>
       (let mode = or_default (environment_value env ''M365_MODE'' ''PLANNER_MODE'' (Some ''mock'')) ''mock'' in
        if lower (strip mode) = ''live'' \<and> missing_live_environment env \<noteq> []
        then Inl (ConfigurationError ''required live configuration is missing'' (missing_live_environment env))
        else (case bindE (parse env) (validate_settings urlsplit) of
                Inr s \<Rightarrow> Inr s
              | Inl (ConfigurationError m args) \<Rightarrow> Inl (ConfigurationError m args)
              | Inl e \<Rightarrow> Inl (ConfigurationError ''invalid runtime configuration'' []))))"

subsection \<open>Worker and browser settings\<close>

text \<open>\<open>int(text)\<close>: surrounding white space, one sign, decimal digits with single underscores
  between digits.\<close>

fun digits_value :: "int \<Rightarrow> string \<Rightarrow> int option" where
  "digits_value acc [] = Some acc"
| "digits_value acc (c # cs) =
     (if 48 \<le> (of_char c :: int) \<and> (of_char c :: int) \<le> 57
      then (case cs of
          d # ds \<Rightarrow> (if d = CHR ''_'' \<and> ds \<noteq> [] then digits_value (10 * acc + (of_char c - 48)) ds
                     else digits_value (10 * acc + (of_char c - 48)) cs)
        | [] \<Rightarrow> Some (10 * acc + (of_char c - 48)))
      else None)"

definition py_parse_int :: "string \<Rightarrow> int option" where
  "py_parse_int s = (case strip s of
      [] \<Rightarrow> None
    | c # cs \<Rightarrow> if c = CHR ''-'' then (if cs = [] then None else map_option uminus (digits_value 0 cs))
               else if c = CHR ''+'' then (if cs = [] then None else digits_value 0 cs)
               else digits_value 0 (c # cs))"

definition worker_bind_settings :: "environ \<Rightarrow> (string \<times> int) result" where
  "worker_bind_settings env =
     (case validate_environment env of Some e \<Rightarrow> Inl e | None \<Rightarrow>
       (let host = strip (or_default (environment_value env ''M365_WORKER_HOST'' ''PLANNER_WORKER_HOST''
                     (Some ''127.0.0.1'')) ''127.0.0.1'') in
        if host = [] \<or> has_space host
        then Inl (ConfigurationError ''invalid worker bind configuration'' [''M365_WORKER_HOST'', ''invalid_host''])
        else case py_parse_int (or_default (environment_value env ''M365_WORKER_PORT'' ''PLANNER_WORKER_PORT''
                     (Some ''8090'')) ''8090'') of
            None \<Rightarrow> Inl (ConfigurationError ''invalid worker bind configuration'' [''M365_WORKER_PORT'', ''int_parsing''])
          | Some port \<Rightarrow>
              if \<not> (1 \<le> port \<and> port \<le> 65535)
              then Inl (ConfigurationError ''invalid worker bind configuration'' [''M365_WORKER_PORT'', ''range''])
              else Inr (host, port)))"

definition browser_runtime_settings :: "environ \<Rightarrow> (string \<times> bool \<times> string) result" where
  "browser_runtime_settings env =
     (case validate_environment env of Some e \<Rightarrow> Inl e | None \<Rightarrow>
       (let profile_raw = environment_value env ''M365_BROWSER_PROFILE_DIR'' ''PLANNER_BROWSER_PROFILE_DIR''
              (Some ''/var/lib/planner-worker/profile'');
            headless_raw = environment_value env ''M365_BROWSER_HEADLESS'' ''PLANNER_BROWSER_HEADLESS'' (Some ''1'');
            mode = or_default (environment_value env ''M365_MODE'' ''PLANNER_MODE'' (Some ''mock'')) ''mock''
        in Inr (or_default profile_raw ''/var/lib/planner-worker/profile'', headless_raw \<noteq> Some ''0'', mode)))"

subsection \<open>Lemmas\<close>

lemma validate_environment_None_iff:
  "validate_environment env = None \<longleftrightarrow>
     list_all (\<lambda>n. \<not> credential_shaped n) (map fst env) \<and> alias_conflicts env = []"
proof -
  have "credential_shaped_variables env = [] \<longleftrightarrow> filter credential_shaped (map fst env) = []"
    by (metis credential_shaped_variables_def set_sort set_empty)
  then show ?thesis
    by (auto simp: validate_environment_def checks list_all_iff filter_empty_conv)
qed

lemma validate_settings_Inr:
  "validate_settings urlsplit s = Inr s' \<Longrightarrow>
     runtime_invariants s' = None \<and> st_mode s' = st_mode s \<and> st_port s' = st_port s \<and>
     1 \<le> st_port s \<and> st_port s \<le> 65535 \<and>
     st_host s' \<noteq> [] \<and> \<not> has_space (st_host s') \<and> prefix ''/'' (st_state_path s')"
  by (auto simp: validate_settings_def bindE_Inr_iff construct_Inr_iff host_non_empty_def Let_def
      state_path_absolute_def split: if_splits)

lemma runtime_invariants_None_iff:
  "runtime_invariants s = None \<longleftrightarrow> \<not> st_allow_mutations s \<and>
     (st_mode s = Live \<longrightarrow> ''worker_base_url'' \<in> set (st_fields_set s) \<and>
        ''state_path'' \<in> set (st_fields_set s) \<and> st_require_ui_contract_attestation s)"
  by (auto simp: runtime_invariants_def checks)

lemma load_settings_Inr:
  assumes "load_settings parse urlsplit env = Inr s"
  shows "validate_environment env = None \<and> (\<exists>raw. parse env = Inr raw \<and> validate_settings urlsplit raw = Inr s)"
proof -
  have v: "validate_environment env = None"
    using assms by (auto simp: load_settings_def split: option.splits)
  with assms have "(case bindE (parse env) (validate_settings urlsplit) of
        Inr s \<Rightarrow> Inr s
      | Inl (ConfigurationError m args) \<Rightarrow> Inl (ConfigurationError m args)
      | Inl e \<Rightarrow> Inl (ConfigurationError ''invalid runtime configuration'' [])) = Inr s"
    by (auto simp: load_settings_def Let_def split: if_splits)
  then have "bindE (parse env) (validate_settings urlsplit) = Inr s"
    by (auto split: sum.splits exn.splits)
  with v show ?thesis by (auto simp: bindE_Inr_iff)
qed

lemma environment_value_cases:
  "map_of (normalized_environment env) c = None \<or> map_of (normalized_environment env) l = None \<or>
     map_of (normalized_environment env) c = map_of (normalized_environment env) l \<Longrightarrow>
   environment_value env c l d = environment_value env l c d"
  by (auto simp: environment_value_def Let_def split: option.splits)

subsection \<open>Properties\<close>

text \<open>Whatever the environment parser does, a configuration that loads never enables mutations;
  in live mode the worker URL and the state path were set explicitly and UI attestation is required;
  the port is in range and the state path absolute; and no variable of the environment under either
  prefix is credential-shaped.\<close>
theorem loaded_settings_fail_closed:
  assumes "load_settings parse urlsplit env = Inr s"
  shows "\<not> st_allow_mutations s \<and>
    (st_mode s = Live \<longrightarrow> ''worker_base_url'' \<in> set (st_fields_set s) \<and>
       ''state_path'' \<in> set (st_fields_set s) \<and> st_require_ui_contract_attestation s) \<and>
    1 \<le> st_port s \<and> st_port s \<le> 65535 \<and> prefix ''/'' (st_state_path s) \<and>
    \<not> has_space (st_host s) \<and> list_all (\<lambda>n. \<not> credential_shaped n) (map fst env)"
proof -
  obtain raw where v: "validate_environment env = None" and r: "validate_settings urlsplit raw = Inr s"
    using load_settings_Inr [OF assms] by blast
  from validate_settings_Inr [OF r] v show ?thesis
    by (auto simp: runtime_invariants_None_iff validate_environment_None_iff)
qed

definition sample_settings :: "bool \<Rightarrow> Settings" where
  "sample_settings mutations = \<lparr>st_mode = Mock, st_host = ''127.0.0.1'', st_port = 8080,
     st_worker_base_url = ''http://w'', st_state_path = ''/var/lib/state'', st_request_timeout_us = 30000000,
     st_allow_mutations = mutations, st_require_ui_contract_attestation = True, st_log_level = INFO,
     st_tool_profile = ''full'', st_fields_set = []\<rparr>"

definition sample_split :: "string \<Rightarrow> split_url result" where
  "sample_split u = Inr \<lparr>url_scheme = ''http'', url_netloc = ''w'', url_username = None, url_password = None\<rparr>"

theorem loaded_settings_fail_closed_witness:
  "\<exists>s. load_settings (\<lambda>env. Inr (sample_settings False)) sample_split [(''HOME'', ''/root'')] = Inr s
     \<and> \<not> st_allow_mutations s \<and> 1 \<le> st_port s"
proof -
  have "case load_settings (\<lambda>env. Inr (sample_settings False)) sample_split [(''HOME'', ''/root'')] of
      Inl e \<Rightarrow> False | Inr s \<Rightarrow> st_port s = 8080" by code_simp
  then obtain s where s: "load_settings (\<lambda>env. Inr (sample_settings False)) sample_split
      [(''HOME'', ''/root'')] = Inr s" by (blast dest: Inr_caseD)
  with loaded_settings_fail_closed [OF s] show ?thesis by blast
qed

text \<open>In an environment that passes validation the canonical name and its legacy alias are
  interchangeable for every configuration variable: looking the pair up in either order gives the
  same value, so no precedence rule can silently pick one of two divergent definitions.\<close>
theorem alias_order_irrelevant:
  assumes "validate_environment env = None" and "(canonical, legacy) \<in> set CONFIG_ALIAS_PAIRS"
  shows "environment_value env canonical legacy d = environment_value env legacy canonical d"
proof (rule environment_value_cases)
  from assms(1) have "alias_conflicts env = []" by (simp add: validate_environment_None_iff)
  with assms(2) show "map_of (normalized_environment env) canonical = None \<or>
      map_of (normalized_environment env) legacy = None \<or>
      map_of (normalized_environment env) canonical = map_of (normalized_environment env) legacy"
    by (auto simp: alias_conflicts_def Let_def filter_empty_conv)
qed

theorem alias_order_irrelevant_witness:
  "environment_value [(''planner_mode'', ''live'')] ''M365_MODE'' ''PLANNER_MODE'' None =
   environment_value [(''planner_mode'', ''live'')] ''PLANNER_MODE'' ''M365_MODE'' None"
proof (rule alias_order_irrelevant)
  show "validate_environment [(''planner_mode'', ''live'')] = None" by code_simp
  show "(''M365_MODE'', ''PLANNER_MODE'') \<in> set CONFIG_ALIAS_PAIRS" by (simp add: CONFIG_ALIAS_PAIRS_def)
qed

text \<open>The private worker binds only to a usable address: whenever the settings resolve, the host
  is non-empty without white space, the port is between 1 and 65535, and the port is the parsed value
  of the configured text or of the default.\<close>
theorem worker_bind_bounds:
  "worker_bind_settings env = Inr (host, port) \<Longrightarrow>
     host \<noteq> [] \<and> \<not> has_space host \<and> 1 \<le> port \<and> port \<le> 65535 \<and>
     py_parse_int (or_default (environment_value env ''M365_WORKER_PORT'' ''PLANNER_WORKER_PORT''
       (Some ''8090'')) ''8090'') = Some port"
  by (auto simp: worker_bind_settings_def Let_def split: option.splits if_splits)

theorem worker_bind_bounds_witness:
  "worker_bind_settings [(''M365_WORKER_PORT'', '' 9_000 '')] = Inr (''127.0.0.1'', 9000) \<and> (9000::int) \<le> 65535"
proof -
  have h: "worker_bind_settings [(''M365_WORKER_PORT'', '' 9_000 '')] = Inr (''127.0.0.1'', 9000)" by code_simp
  with worker_bind_bounds [OF h] show ?thesis by blast
qed

end
