(* ===== verification/Sha256.thy ===== *)
theory Sha256
  imports M365_Prelude "HOL-Library.Word"
begin

text \<open>
  \<open>hashlib.sha256(data).hexdigest()\<close> of the Python standard library, as FIPS 180-4 defines it,
  on 32-bit words: \<open>sha256_hex\<close> takes the bytes and returns 64 lowercase hexadecimal digits. The
  modules only use it as \<open>sha256(text.encode("utf-8")).hexdigest()\<close>, which is \<open>sha256_text\<close>.
  A digest identifies its text up to a collision: \<open>digest_collision\<close> says that two texts differ and
  have one digest, and every uniqueness statement of the development carries that explicit
  disjunct, never the (false) assumption that SHA-256 is injective.
\<close>

unbundle bit_operations_syntax

type_synonym u32 = "32 word"

type_synonym hash_state = "u32 \<times> u32 \<times> u32 \<times> u32 \<times> u32 \<times> u32 \<times> u32 \<times> u32"

definition round_constants :: "u32 list" where
  "round_constants = [
    1116352408, 1899447441, 3049323471, 3921009573, 961987163, 1508970993, 2453635748, 2870763221,
    3624381080, 310598401, 607225278, 1426881987, 1925078388, 2162078206, 2614888103, 3248222580,
    3835390401, 4022224774, 264347078, 604807628, 770255983, 1249150122, 1555081692, 1996064986,
    2554220882, 2821834349, 2952996808, 3210313671, 3336571891, 3584528711, 113926993, 338241895,
    666307205, 773529912, 1294757372, 1396182291, 1695183700, 1986661051, 2177026350, 2456956037,
    2730485921, 2820302411, 3259730800, 3345764771, 3516065817, 3600352804, 4094571909, 275423344,
    430227734, 506948616, 659060556, 883997877, 958139571, 1322822218, 1537002063, 1747873779,
    1955562222, 2024104815, 2227730452, 2361852424, 2428436474, 2756734187, 3204031479, 3329325298]"

definition initial_hash :: hash_state where
  "initial_hash = (1779033703, 3144134277, 1013904242, 2773480762,
     1359893119, 2600822924, 528734635, 1541459225)"

definition big_endian8 :: "64 word \<Rightarrow> nat list" where
  "big_endian8 n = map (\<lambda>i. unat (drop_bit i n AND 255)) [56, 48, 40, 32, 24, 16, 8, 0]"

definition pad_message :: "nat list \<Rightarrow> nat list" where
  "pad_message m = m @ [128] @ replicate ((119 - length m mod 64) mod 64) 0
     @ big_endian8 (8 * of_nat (length m))"

fun word_of_bytes :: "nat list \<Rightarrow> u32" where
  "word_of_bytes bs = foldl (\<lambda>acc b. 256 * acc + of_nat b) 0 bs"

definition block_words :: "nat list \<Rightarrow> u32 list" where
  "block_words block = map word_of_bytes (chunks 4 block)"

fun extend_schedule :: "nat \<Rightarrow> u32 list \<Rightarrow> u32 list" where
  "extend_schedule 0 ws = ws"
| "extend_schedule (Suc n) ws =
     (let t = length ws; x = ws ! (t - 15); y = ws ! (t - 2);
          s0 = word_rotr 7 x XOR word_rotr 18 x XOR drop_bit 3 x;
          s1 = word_rotr 17 y XOR word_rotr 19 y XOR drop_bit 10 y
      in extend_schedule n (ws @ [ws ! (t - 16) + s0 + ws ! (t - 7) + s1]))"

fun sha_round :: "hash_state \<Rightarrow> u32 \<times> u32 \<Rightarrow> hash_state" where
  "sha_round (a, b, c, d, e, f, g, h) (k, w) =
     (let s1 = word_rotr 6 e XOR word_rotr 11 e XOR word_rotr 25 e;
          ch = (e AND f) XOR (NOT e AND g);
          t1 = h + s1 + ch + k + w;
          s0 = word_rotr 2 a XOR word_rotr 13 a XOR word_rotr 22 a;
          maj = (a AND b) XOR (a AND c) XOR (b AND c);
          t2 = s0 + maj
      in (t1 + t2, a, b, c, d + t1, e, f, g))"

fun add_state :: "hash_state \<Rightarrow> hash_state \<Rightarrow> hash_state" where
  "add_state (a, b, c, d, e, f, g, h) (a', b', c', d', e', f', g', h') =
     (a + a', b + b', c + c', d + d', e + e', f + f', g + g', h + h')"

definition compress_block :: "hash_state \<Rightarrow> nat list \<Rightarrow> hash_state" where
  "compress_block st block =
     add_state st (foldl sha_round st
       (zip round_constants (extend_schedule 48 (block_words block))))"

definition hex_of_word :: "u32 \<Rightarrow> string" where
  "hex_of_word w = map (\<lambda>i. hex_digits ! unat (drop_bit i w AND 15)) [28, 24, 20, 16, 12, 8, 4, 0]"

fun hex_of_state :: "hash_state \<Rightarrow> string" where
  "hex_of_state (a, b, c, d, e, f, g, h) = concat (map hex_of_word [a, b, c, d, e, f, g, h])"

definition sha256_hex :: "nat list \<Rightarrow> string" where
  "sha256_hex m = hex_of_state (foldl compress_block initial_hash (chunks 64 (pad_message m)))"

definition sha256_text :: "string \<Rightarrow> string" where
  "sha256_text s = sha256_hex (utf8 s)"

definition digest_collision :: "string \<Rightarrow> string \<Rightarrow> bool" where
  "digest_collision s t \<longleftrightarrow> s \<noteq> t \<and> sha256_text s = sha256_text t"

lemma nibble_bound: "unat ((x :: u32) AND 15) < length hex_digits"
proof -
  have "x AND 15 \<le> 15" by (rule word_and_le1)
  then have "unat (x AND 15) \<le> unat (15 :: u32)" by (simp only: word_le_nat_alt)
  then show ?thesis by (simp add: hex_digits_def)
qed

lemma hex_of_word_digits: "set (hex_of_word w) \<subseteq> set hex_digits"
  by (auto simp: hex_of_word_def intro!: nth_mem nibble_bound)

lemma length_hex_of_word: "length (hex_of_word w) = 8"
  by (simp add: hex_of_word_def)

lemma is_digest_sha256_hex: "is_digest (sha256_hex m)"
proof -
  obtain a b c d e f g h where
    st: "foldl compress_block initial_hash (chunks 64 (pad_message m)) = (a, b, c, d, e, f, g, h)"
    by (cases "foldl compress_block initial_hash (chunks 64 (pad_message m))") auto
  have "length (hex_of_state (a, b, c, d, e, f, g, h)) = 64"
    by (simp add: length_hex_of_word)
  moreover have "set (hex_of_state (a, b, c, d, e, f, g, h)) \<subseteq> set hex_digits"
    using hex_of_word_digits by simp
  ultimately show ?thesis by (auto simp: is_digest_def sha256_hex_def st list_all_iff)
qed

lemma is_digest_sha256_text [simp, checks]: "is_digest (sha256_text s)"
  by (simp add: sha256_text_def is_digest_sha256_hex)

lemma digest_eqD: "sha256_text s = sha256_text t \<Longrightarrow> s = t \<or> digest_collision s t"
  by (simp add: digest_collision_def)

text \<open>The padded message is a whole number of 64-byte blocks.\<close>

lemma length_pad_message: "64 dvd length (pad_message m)"
proof -
  define r where "r = length m mod 64"
  define q where "q = length m div 64"
  have m: "length m = 64 * q + r" and r: "r < 64" by (simp_all add: r_def q_def)
  have "(119 - r) mod 64 = (if r \<le> 55 then 55 - r else 119 - r)"
  proof (cases "r \<le> 55")
    case True
    then obtain t where t: "55 = r + t" using le_Suc_ex by blast
    then have "119 - r = t + 64" and "55 - r = t" and "t < 64" by linarith+
    with True show ?thesis by (simp only: mod_add_self2 mod_less if_True)
  next
    case False
    then show ?thesis by simp
  qed
  then have "length (pad_message m) = 64 * (q + (if r \<le> 55 then 1 else 2))"
    using r by (simp add: pad_message_def big_endian8_def m flip: r_def)
  then show ?thesis by simp
qed

text \<open>Test vector of FIPS 180-4: the digest of \<open>abc\<close>.\<close>

lemma sha256_abc: "sha256_text ''abc'' =
  ''ba7816bf8f01cfea414140de5dae2223b00361a396177a9cb410ff61f20015ad''"
  by code_simp

end
