(* ===== verification/Canonical_Json.thy ===== *)
theory Canonical_Json
  imports Sha256
begin

text \<open>
  \<open>json.dumps(value, sort_keys=True, separators=(",", ":"))\<close> of the Python standard library on the
  values the digests are built from: null, booleans, integers, strings, lists and objects with
  string keys. \<open>dumps True\<close> escapes every character outside printable ASCII (\<open>ensure_ascii\<close>, the
  default); \<open>dumps False\<close> escapes only the quote, the backslash and the control characters.

  The encoding is uniquely readable: two values with one canonical text are equal up to the
  order of object keys (\<open>dumps_eqD\<close>). The locale \<open>content_address\<close> states what every digest of
  the control plane relies on: a payload from which the object can be read back gives a digest
  that determines the object up to an explicit SHA-256 collision.
\<close>

datatype json =
    JNull
  | JBool bool
  | JInt int
  | JStr string
  | JList "json list"
  | JObj "(string \<times> json) list"

subsection \<open>Text of a value\<close>

definition dec_digits :: string where
  "dec_digits = ''0123456789''"

fun decimal :: "nat \<Rightarrow> string" where
  "decimal n = (if n < 10 then [dec_digits ! n] else decimal (n div 10) @ [dec_digits ! (n mod 10)])"

declare decimal.simps [simp del]

definition py_int :: "int \<Rightarrow> string" where
  "py_int i = (if i < 0 then ''-'' @ decimal (nat (- i)) else decimal (nat i))"

definition hex2 :: "nat \<Rightarrow> string" where
  "hex2 n = [hex_digits ! (n div 16), hex_digits ! (n mod 16)]"

definition esc_char :: "bool \<Rightarrow> char \<Rightarrow> string" where
  "esc_char asc c = (let n = of_char c in
     if n = (34 :: nat) then [CHR 0x5C, CHR 0x22]
     else if n = 92 then [CHR 0x5C, CHR 0x5C]
     else if n = 10 then [CHR 0x5C, CHR ''n'']
     else if n = 13 then [CHR 0x5C, CHR ''r'']
     else if n = 9 then [CHR 0x5C, CHR ''t'']
     else if n = 12 then [CHR 0x5C, CHR ''f'']
     else if n = 8 then [CHR 0x5C, CHR ''b'']
     else if n < 32 \<or> (asc \<and> 127 \<le> n) then CHR 0x5C # ''u00'' @ hex2 n
     else [c])"

definition quoted :: "bool \<Rightarrow> string \<Rightarrow> string" where
  "quoted asc s = CHR 0x22 # concat (map (esc_char asc) s) @ [CHR 0x22]"

fun join :: "string \<Rightarrow> string list \<Rightarrow> string" where
  "join sep [] = []"
| "join sep [x] = x"
| "join sep (x # y # ys) = x @ sep @ join sep (y # ys)"

fun render :: "bool \<Rightarrow> json \<Rightarrow> string" where
  "render asc JNull = ''null''"
| "render asc (JBool b) = (if b then ''true'' else ''false'')"
| "render asc (JInt i) = py_int i"
| "render asc (JStr s) = quoted asc s"
| "render asc (JList vs) = ''['' @ join '','' (map (render asc) vs) @ '']''"
| "render asc (JObj kvs) =
     CHR 0x7B # join '','' (map (\<lambda>(k, v). quoted asc k @ '':'' @ render asc v) kvs) @ [CHR 0x7D]"

fun canon :: "json \<Rightarrow> json" where
  "canon (JList vs) = JList (map canon vs)"
| "canon (JObj kvs) = JObj (sort_key fst (map (\<lambda>(k, v). (k, canon v)) kvs))"
| "canon v = v"

definition dumps :: "bool \<Rightarrow> json \<Rightarrow> string" where
  "dumps asc v = render asc (canon v)"

subsection \<open>Unique readability\<close>

definition no_digit :: "string \<Rightarrow> bool" where
  "no_digit s \<longleftrightarrow> (\<forall>c cs. s = c # cs \<longrightarrow> c \<notin> set dec_digits)"

lemma no_digit_simps [simp]:
  "no_digit []" "no_digit (c # cs) \<longleftrightarrow> c \<notin> set dec_digits"
  by (auto simp: no_digit_def)

lemma hex_digits_nth_eq: "i < 16 \<Longrightarrow> j < 16 \<Longrightarrow> hex_digits ! i = hex_digits ! j \<longleftrightarrow> i = j"
  by (rule nth_eq_iff_index_eq) (simp_all add: hex_digits_def)

lemma dec_digits_nth [simp]: "i < 10 \<Longrightarrow> dec_digits ! i \<in> set dec_digits"
  by (rule nth_mem) (simp add: dec_digits_def)

lemma dec_digits_nth_eq: "i < 10 \<Longrightarrow> j < 10 \<Longrightarrow> dec_digits ! i = dec_digits ! j \<longleftrightarrow> i = j"
  by (rule nth_eq_iff_index_eq) (simp_all add: dec_digits_def)

lemma decimal_set: "set (decimal n) \<subseteq> set dec_digits"
proof (induction n rule: decimal.induct)
  case (1 n)
  then show ?case by (subst decimal.simps) simp
qed

lemma decimal_ne: "decimal n \<noteq> []"
  by (subst decimal.simps) simp

lemma decimal_inj: "decimal m = decimal n \<Longrightarrow> m = n"
proof (induction m arbitrary: n rule: decimal.induct)
  case (1 m)
  have n: "decimal n = (if n < 10 then [dec_digits ! n] else decimal (n div 10) @ [dec_digits ! (n mod 10)])"
    by (rule decimal.simps)
  have m: "decimal m = (if m < 10 then [dec_digits ! m] else decimal (m div 10) @ [dec_digits ! (m mod 10)])"
    by (rule decimal.simps)
  show ?case
  proof (cases "m < 10"; cases "n < 10")
    assume "\<not> m < 10" "\<not> n < 10"
    with "1.prems" m n have "decimal (m div 10) = decimal (n div 10)"
      and "dec_digits ! (m mod 10) = dec_digits ! (n mod 10)" by auto
    with "1.IH" \<open>\<not> m < 10\<close> have "m div 10 = n div 10" and "m mod 10 = n mod 10"
      by (simp_all add: dec_digits_nth_eq)
    then show ?thesis by (metis div_mult_mod_eq)
  qed (use "1.prems" m n in \<open>auto simp: dec_digits_nth_eq decimal_ne decimal_ne [symmetric]\<close>)
qed

lemma digits_prefix:
  assumes "set a \<subseteq> set dec_digits" "set b \<subseteq> set dec_digits" "no_digit s" "no_digit t"
    and "a @ s = b @ t"
  shows "a = b \<and> s = t"
proof -
  let ?p = "\<lambda>c. c \<in> set dec_digits"
  have tw: "takeWhile ?p (x @ y) = x" if "set x \<subseteq> set dec_digits" "no_digit y" for x y
    using that by (cases y) (auto simp: takeWhile_append2 subset_eq)
  from tw [OF assms(1,3)] tw [OF assms(2,4)] assms(5) have "a = b" by simp
  with assms(5) show ?thesis by simp
qed

lemma decimal_readable:
  "no_digit s \<Longrightarrow> no_digit t \<Longrightarrow> decimal m @ s = decimal n @ t \<Longrightarrow> m = n \<and> s = t"
  using digits_prefix [OF decimal_set decimal_set] decimal_inj by blast

lemma decimal_not_minus: "decimal n @ s \<noteq> CHR ''-'' # t"
proof
  assume "decimal n @ s = CHR ''-'' # t"
  then have "CHR ''-'' \<in> set (decimal n)" by (cases "decimal n") (auto simp: decimal_ne)
  then show False using decimal_set [of n] by (auto simp: dec_digits_def)
qed

lemma py_int_readable:
  assumes "no_digit s" "no_digit t" "py_int i @ s = py_int j @ t"
  shows "i = j \<and> s = t"
proof (cases "i < 0"; cases "j < 0")
  assume "i < 0" "j < 0"
  with assms decimal_readable [of s t "nat (- i)" "nat (- j)"] show ?thesis by (auto simp: py_int_def)
next
  assume "\<not> i < 0" "\<not> j < 0"
  with assms decimal_readable [of s t "nat i" "nat j"] show ?thesis by (auto simp: py_int_def)
qed (use assms decimal_not_minus in \<open>auto simp: py_int_def, metis+\<close>)

lemma hex2_inj: "m < 256 \<Longrightarrow> n < 256 \<Longrightarrow> hex2 m = hex2 n \<Longrightarrow> m = n"
proof -
  assume b: "m < 256" "n < 256" and h: "hex2 m = hex2 n"
  have "m div 16 < 16" "n div 16 < 16" "m mod 16 < 16" "n mod 16 < 16" using b by auto
  with h have "m div 16 = n div 16" "m mod 16 = n mod 16"
    by (simp_all add: hex2_def hex_digits_nth_eq)
  then show "m = n" by (metis div_mult_mod_eq)
qed

lemma esc_char_cases:
  obtains (plain) "esc_char asc c = [c]" "c \<noteq> CHR 0x22" "c \<noteq> CHR 0x5C"
    | (short) e where "esc_char asc c = [CHR 0x5C, e]" "e \<noteq> CHR ''u''"
        "(e, (of_char c :: nat)) \<in> {(CHR 0x22, 34), (CHR 0x5C, 92), (CHR ''n'', 10), (CHR ''r'', 13),
          (CHR ''t'', 9), (CHR ''f'', 12), (CHR ''b'', 8)}"
    | (hex) "esc_char asc c = CHR 0x5C # CHR ''u'' # CHR ''0'' # CHR ''0'' # hex2 (of_char c)"
proof (cases "of_char c \<in> {34 :: nat, 92, 10, 13, 9, 12, 8}")
  case True
  then show ?thesis by (auto simp: esc_char_def Let_def intro: short)
next
  case False
  then have c: "c \<noteq> CHR 0x22" "c \<noteq> CHR 0x5C" by auto
  show ?thesis
  proof (cases "(of_char c :: nat) < 32 \<or> (asc \<and> 127 \<le> (of_char c :: nat))")
    case True
    with False have "esc_char asc c = CHR 0x5C # CHR ''u'' # CHR ''0'' # CHR ''0'' # hex2 (of_char c)"
      by (simp add: esc_char_def Let_def)
    then show ?thesis by (rule hex)
  next
    case plain': False
    with False have "esc_char asc c = [c]" by (simp add: esc_char_def Let_def)
    then show ?thesis using c by (rule plain)
  qed
qed

lemma esc_char_readable:
  assumes eq: "esc_char asc c @ xs = esc_char asc d @ ys"
  shows "c = d \<and> xs = ys"
proof (cases asc c rule: esc_char_cases)
  case plain
  then show ?thesis using eq by (cases asc d rule: esc_char_cases) simp_all
next
  case (short e)
  show ?thesis
  proof (cases asc d rule: esc_char_cases)
    case short': (short e')
    have "e = e'" and x: "xs = ys" using eq short(1) short'(1) by simp_all
    then have "(of_char c :: nat) = of_char d" using short(3) short'(3)
      by (auto simp del: of_char_eq_iff)
    with x show ?thesis by simp
  qed (use eq short(1,2) in simp_all)
next
  case hex
  show ?thesis
  proof (cases asc d rule: esc_char_cases)
    case hex': hex
    have "hex2 (of_char c) = hex2 (of_char d)" and x: "xs = ys"
      using eq hex hex' by (simp_all add: hex2_def)
    then have "(of_char c :: nat) = of_char d" by (intro hex2_inj of_char_nat_bound)
    with x show ?thesis by simp
  qed (use eq hex in simp_all)
qed

lemma esc_char_first: "esc_char asc c @ xs \<noteq> CHR 0x22 # ys"
  by (cases asc c rule: esc_char_cases) auto

lemma quoted_readable: "quoted asc s @ xs = quoted asc t @ ys \<Longrightarrow> s = t \<and> xs = ys"
proof -
  have "concat (map (esc_char asc) s) @ CHR 0x22 # xs = concat (map (esc_char asc) t) @ CHR 0x22 # ys
      \<Longrightarrow> s = t \<and> xs = ys"
  proof (induction s arbitrary: t)
    case Nil
    then show ?case by (cases t) (auto simp: esc_char_first [symmetric])
  next
    case (Cons c s)
    show ?case
    proof (cases t)
      case Nil
      with Cons.prems show ?thesis by (simp add: esc_char_first)
    next
      case (Cons d t')
      with Cons.prems have "c = d \<and> concat (map (esc_char asc) s) @ CHR 0x22 # xs =
          concat (map (esc_char asc) t') @ CHR 0x22 # ys"
        by (intro esc_char_readable [of asc]) simp
      with Cons.IH Cons show ?thesis by blast
    qed
  qed
  then show "quoted asc s @ xs = quoted asc t @ ys \<Longrightarrow> s = t \<and> xs = ys"
    by (simp add: quoted_def)
qed

fun join_rest :: "char \<Rightarrow> string list \<Rightarrow> string" where
  "join_rest c [] = [c]"
| "join_rest c (x # xs) = CHR '','' # x @ join_rest c xs"

lemma join_Cons: "join '','' (x # xs) @ c # s = x @ join_rest c xs @ s"
  by (induction xs arbitrary: x) auto

lemma join_rest_no_digit: "c \<notin> set dec_digits \<Longrightarrow> no_digit (join_rest c xs @ s)"
  by (cases xs) (auto simp: dec_digits_def)

text \<open>\<open>readable f x\<close>: the text of \<open>x\<close> cannot be confused with that of another value, whatever
  follows, as long as no digit follows. It carries through bracketed, comma-separated lists.\<close>

definition readable :: "('a \<Rightarrow> string) \<Rightarrow> 'a \<Rightarrow> bool" where
  "readable f x \<longleftrightarrow> (\<forall>y s t. no_digit s \<longrightarrow> no_digit t \<longrightarrow> f x @ s = f y @ t \<longrightarrow> x = y \<and> s = t)"

lemma readableD:
  "readable f x \<Longrightarrow> no_digit s \<Longrightarrow> no_digit t \<Longrightarrow> f x @ s = f y @ t \<Longrightarrow> x = y \<and> s = t"
  unfolding readable_def by blast

lemma readableI:
  "(\<And>y s t. no_digit s \<Longrightarrow> no_digit t \<Longrightarrow> f x @ s = f y @ t \<Longrightarrow> x = y \<and> s = t) \<Longrightarrow> readable f x"
  unfolding readable_def by blast

lemma join_rest_readable:
  assumes "\<forall>x \<in> set xs. readable f x" and c: "c \<noteq> CHR '',''" "c \<notin> set dec_digits"
    and "join_rest c (map f xs) @ s = join_rest c (map f ys) @ t"
  shows "xs = ys \<and> s = t"
  using assms(1,4)
proof (induction xs arbitrary: ys)
  case Nil
  with c show ?case by (cases ys) auto
next
  case (Cons x xs)
  show ?case
  proof (cases ys)
    case Nil
    with Cons.prems c show ?thesis by simp
  next
    case (Cons y ys')
    have x: "readable f x" using Cons.prems(1) by simp
    have "f x @ (join_rest c (map f xs) @ s) = f y @ (join_rest c (map f ys') @ t)"
      using Cons.prems(2) Cons by simp
    from readableD [OF x join_rest_no_digit [OF c(2)] join_rest_no_digit [OF c(2)] this]
    have "x = y" and "join_rest c (map f xs) @ s = join_rest c (map f ys') @ t" by auto
    with Cons.IH [of ys'] Cons.prems(1) Cons show ?thesis by simp
  qed
qed

lemma join_readable:
  assumes r: "\<forall>x \<in> set xs. readable f x" and c: "c \<noteq> CHR '',''" "c \<notin> set dec_digits"
    and hd: "\<And>x u v. f x @ u \<noteq> c # v"
    and eq: "join '','' (map f xs) @ c # s = join '','' (map f ys) @ c # t"
  shows "xs = ys \<and> s = t"
proof (cases xs; cases ys)
  fix x xs' y ys'
  assume xs: "xs = x # xs'" and ys: "ys = y # ys'"
  have x: "readable f x" using r xs by simp
  have "f x @ (join_rest c (map f xs') @ s) = f y @ (join_rest c (map f ys') @ t)"
    using eq by (simp only: xs ys list.map join_Cons)
  from readableD [OF x join_rest_no_digit [OF c(2)] join_rest_no_digit [OF c(2)] this]
  have "x = y" and "join_rest c (map f xs') @ s = join_rest c (map f ys') @ t" by auto
  with join_rest_readable [OF _ c, of xs' f s ys' t] r xs ys show ?thesis by auto
qed (use eq hd hd [symmetric] in \<open>auto simp: join_Cons\<close>)

subsection \<open>The first character tells the kind of value\<close>

definition first_chars :: "json \<Rightarrow> string" where
  "first_chars v = (case v of JNull \<Rightarrow> ''n'' | JBool b \<Rightarrow> (if b then ''t'' else ''f'')
     | JInt i \<Rightarrow> CHR ''-'' # dec_digits | JStr s \<Rightarrow> [CHR 0x22] | JList vs \<Rightarrow> ''['' | JObj kvs \<Rightarrow> [CHR 0x7B])"

lemma render_first: "\<exists>c cs. render asc v = c # cs \<and> c \<in> set (first_chars v)"
proof (cases v)
  case (JInt i)
  have "\<exists>c cs. decimal n = c # cs \<and> c \<in> set dec_digits" for n
    using decimal_ne [of n] decimal_set [of n] by (cases "decimal n") auto
  from this [of "nat i"] JInt show ?thesis by (auto simp: py_int_def first_chars_def)
qed (auto simp: first_chars_def quoted_def)

lemma render_first_eq:
  "render asc v @ s = render asc w @ t \<Longrightarrow> set (first_chars v) \<inter> set (first_chars w) \<noteq> {}"
  using render_first [of asc v] render_first [of asc w] by auto

lemma quoted_entry_readable:
  "readable (render asc) v \<Longrightarrow> readable (\<lambda>(k, v). quoted asc k @ '':'' @ render asc v) (k, v)"
proof (rule readableI)
  fix y :: "string \<times> json" and s t
  assume v: "readable (render asc) v" and nd: "no_digit s" "no_digit t"
    and "(case (k, v) of (k, v) \<Rightarrow> quoted asc k @ '':'' @ render asc v) @ s =
      (case y of (k, v) \<Rightarrow> quoted asc k @ '':'' @ render asc v) @ t"
  then obtain k' v' where y: "y = (k', v')"
    and eq: "quoted asc k @ ('':'' @ render asc v @ s) = quoted asc k' @ ('':'' @ render asc v' @ t)"
    by (cases y) auto
  from quoted_readable [OF eq] have "k = k'" and "render asc v @ s = render asc v' @ t" by auto
  with readableD [OF v nd] y show "(k, v) = y \<and> s = t" by auto
qed

lemma first_chars_simps [simp]:
  "first_chars JNull = ''n''" "first_chars (JBool b) = (if b then ''t'' else ''f'')"
  "first_chars (JInt i) = CHR ''-'' # dec_digits" "first_chars (JStr u) = [CHR 0x22]"
  "first_chars (JList vs) = ''[''" "first_chars (JObj kvs) = [CHR 0x7B]"
  by (simp_all add: first_chars_def)

lemma render_not_close: "render asc v @ u \<noteq> CHR '']'' # w"
proof
  assume "render asc v @ u = CHR '']'' # w"
  with render_first [of asc v] have "CHR '']'' \<in> set (first_chars v)" by auto
  then show False by (cases v) (auto simp: dec_digits_def split: if_splits)
qed

lemma render_readable: "readable (render asc) v"
proof (induction v)
  case JNull
  show ?case
  proof (rule readableI)
    fix w s t assume "render asc JNull @ s = render asc w @ t"
    with render_first_eq [OF this] show "JNull = w \<and> s = t"
      by (cases w) (auto simp: dec_digits_def split: if_splits)
  qed
next
  case (JBool b)
  show ?case
  proof (rule readableI)
    fix w s t assume "render asc (JBool b) @ s = render asc w @ t"
    with render_first_eq [OF this] show "JBool b = w \<and> s = t"
      by (cases w) (auto simp: dec_digits_def split: if_splits)
  qed
next
  case (JInt i)
  show ?case
  proof (rule readableI)
    fix w s t assume nd: "no_digit s" "no_digit t" and "render asc (JInt i) @ s = render asc w @ t"
    with render_first_eq [OF this(3)] py_int_readable [OF nd, of i] show "JInt i = w \<and> s = t"
      by (cases w) (auto simp: dec_digits_def split: if_splits)
  qed
next
  case (JStr u)
  show ?case
  proof (rule readableI)
    fix w s t assume "render asc (JStr u) @ s = render asc w @ t"
    with render_first_eq [OF this] quoted_readable [of asc u s _ t] show "JStr u = w \<and> s = t"
      by (cases w) (auto simp: dec_digits_def split: if_splits)
  qed
next
  case (JList vs)
  show ?case
  proof (rule readableI)
    fix w s t assume eq: "render asc (JList vs) @ s = render asc w @ t"
    then obtain ws where w: "w = JList ws" using render_first_eq [OF eq]
      by (cases w) (auto simp: dec_digits_def split: if_splits)
    have "vs = ws \<and> s = t"
    proof (rule join_readable [of vs "render asc" "CHR '']''"])
      show "join '','' (map (render asc) vs) @ CHR '']'' # s =
        join '','' (map (render asc) ws) @ CHR '']'' # t" using eq w by simp
    qed (use JList render_not_close in \<open>auto simp: dec_digits_def\<close>)
    with w show "JList vs = w \<and> s = t" by simp
  qed
next
  case (JObj kvs)
  let ?f = "\<lambda>(k, v). quoted asc k @ '':'' @ render asc v"
  show ?case
  proof (rule readableI)
    fix w s t assume eq: "render asc (JObj kvs) @ s = render asc w @ t"
    then obtain ws where w: "w = JObj ws" using render_first_eq [OF eq]
      by (cases w) (auto simp: dec_digits_def split: if_splits)
    have "kvs = ws \<and> s = t"
    proof (rule join_readable [of kvs ?f "CHR 0x7D"])
      show "\<forall>x \<in> set kvs. readable ?f x"
        using JObj quoted_entry_readable by (fastforce simp: snds.simps)
      show "join '','' (map ?f kvs) @ CHR 0x7D # s = join '','' (map ?f ws) @ CHR 0x7D # t"
        using eq w by simp
      show "?f x @ u \<noteq> CHR 0x7D # v" for x u v by (cases x) (simp add: quoted_def)
    qed (simp_all add: dec_digits_def)
    with w show "JObj kvs = w \<and> s = t" by simp
  qed
qed

theorem render_inj: "render asc v = render asc w \<Longrightarrow> v = w"
  using readableD [OF render_readable, of "[]" "[]" asc v w] by simp

lemma dumps_eqD: "dumps asc v = dumps asc w \<Longrightarrow> canon v = canon w"
  unfolding dumps_def by (rule render_inj)

text \<open>Field access: equal canonical objects agree on every key.\<close>

lemma map_of_insort_key: "map_of (insort_key fst (k, v) xs) = (map_of xs)(k \<mapsto> v)"
  by (induction xs) (auto simp: fun_eq_iff)

lemma map_of_sort_fst: "map_of (sort_key fst xs) = map_of xs"
  by (induction xs) (auto simp: map_of_insort_key)

lemma map_of_canon_entries:
  "map_of (map (\<lambda>(k, v). (k, canon v)) kvs) k = map_option canon (map_of kvs k)"
  by (induction kvs) auto

lemma canon_JObj_eqD:
  "canon (JObj kvs) = canon (JObj ws) \<Longrightarrow>
     map_option canon (map_of kvs k) = map_option canon (map_of ws k)"
proof -
  assume "canon (JObj kvs) = canon (JObj ws)"
  then have "sort_key fst (map (\<lambda>(k, v). (k, canon v)) kvs) = sort_key fst (map (\<lambda>(k, v). (k, canon v)) ws)"
    by (simp only: canon.simps json.inject)
  from arg_cong [OF this, of "\<lambda>m. map_of m k"] show ?thesis
    by (simp only: map_of_sort_fst map_of_canon_entries)
qed

lemma canon_simps_iff [simp]:
  "canon v = JStr s \<longleftrightarrow> v = JStr s" "canon v = JInt i \<longleftrightarrow> v = JInt i"
  "canon v = JBool b \<longleftrightarrow> v = JBool b" "canon v = JNull \<longleftrightarrow> v = JNull"
  by (cases v; auto)+

text \<open>Entries written only when the value is present, as the payload builders do.\<close>

definition opt_field :: "string \<Rightarrow> string option \<Rightarrow> (string \<times> json) list" where
  "opt_field k v = (case v of None \<Rightarrow> [] | Some s \<Rightarrow> [(k, JStr s)])"

definition json_opt :: "string option \<Rightarrow> json" where
  "json_opt v = (case v of None \<Rightarrow> JNull | Some s \<Rightarrow> JStr s)"

definition or_else :: "'a option \<Rightarrow> 'a option \<Rightarrow> 'a option" where
  "or_else a b = (case a of None \<Rightarrow> b | Some x \<Rightarrow> Some x)"

lemma or_else_simps [simp]: "or_else a None = a" "or_else None b = b" "or_else (Some x) b = Some x"
  by (simp_all add: or_else_def split: option.splits)

lemma canon_json_opt [simp]: "canon (json_opt v) = json_opt v" "json_opt v = json_opt w \<longleftrightarrow> v = w"
  by (cases v; cases w; simp add: json_opt_def)+

lemma map_of_opt_field:
  "map_of (opt_field k v @ rest) k' =
     (if k = k' then or_else (map_option JStr v) (map_of rest k') else map_of rest k')"
  "map_of (opt_field k v) k' = (if k = k' then map_option JStr v else None)"
  by (auto simp: opt_field_def or_else_def map_add_def split: option.splits)

fun obj_fields :: "json \<Rightarrow> (string \<times> json) list" where
  "obj_fields (JObj kvs) = kvs"
| "obj_fields _ = []"

lemma map_option_JStr_eq [simp]:
  "map_option canon (map_option JStr v) = map_option canon (map_option JStr w) \<longleftrightarrow> v = w"
  by (cases v; cases w) auto

subsection \<open>Content addressing\<close>

locale content_address =
  fixes payload :: "'a \<Rightarrow> json"
    and ascii :: bool
    and digest :: "'a \<Rightarrow> string"
    and wf :: "'a \<Rightarrow> bool"
  assumes digest_def: "digest x = sha256_text (dumps ascii (payload x))"
    and payload_determines: "wf x \<Longrightarrow> wf y \<Longrightarrow> canon (payload x) = canon (payload y) \<Longrightarrow> x = y"
begin

lemma text_determines:
  "wf x \<Longrightarrow> wf y \<Longrightarrow> dumps ascii (payload x) = dumps ascii (payload y) \<Longrightarrow> x = y"
  by (blast intro: payload_determines dest: dumps_eqD)

lemma digest_determines:
  "wf x \<Longrightarrow> wf y \<Longrightarrow> digest x = digest y \<Longrightarrow>
     x = y \<or> digest_collision (dumps ascii (payload x)) (dumps ascii (payload y))"
  unfolding digest_def by (blast intro: text_determines dest: digest_eqD)

lemma digest_is_digest: "is_digest (digest x)"
  by (simp add: digest_def)

end

end
