(* ===== verification/Registries.thy ===== *)
theory Registries
  imports Canonical_Json
begin

text \<open>
  The closed registries of the control plane: \<open>application_registry.py\<close> (prefix \<open>ar_\<close>),
  \<open>tool_registry.py\<close> (\<open>td_\<close>), \<open>security_tiers.py\<close>, \<open>capability_registry.py\<close>
  (\<open>sc_\<close>), \<open>compensation_registry.py\<close> (\<open>cd_\<close>), \<open>tool_profiles.py\<close> and the
  Planner- and Outlook-owned definitions they are composed from
  (\<open>apps/planner/schemas.py\<close>, \<open>apps/planner/tool_registry.py\<close>,
  \<open>apps/planner/capability_registry.py\<close>, \<open>apps/outlook/capability_registry.py\<close>).

  A registry is its dictionary in insertion order. A JSON schema is the dictionary itself, a list of
  key and \<open>json\<close> value pairs. A registrar of the application registry (a callable that registers
  tools on a server) is modelled by the list of tool names it registers.
\<close>

subsection \<open>Applications\<close>

datatype ApplicationKey = PLANNER | OUTLOOK

fun app_value :: "ApplicationKey \<Rightarrow> string" where
  "app_value PLANNER = ''planner''"
| "app_value OUTLOOK = ''outlook''"

lemma app_value_inj [simp]: "app_value a = app_value b \<longleftrightarrow> a = b"
  by (cases a; cases b) simp_all

definition application_values :: "string list" where
  "application_values = [''planner'', ''outlook'']"

datatype ApplicationState = ENABLED | RESERVED

type_synonym registrar = "string list"

record ApplicationRegistration =
  ar_key :: ApplicationKey
  ar_state :: ApplicationState
  ar_capability_namespace :: string
  ar_registrar :: "registrar option"

definition application_registration_check :: "ApplicationRegistration \<Rightarrow> exn option" where
  "application_registration_check r = first_error [
     raise_if (strip (ar_capability_namespace r) = [])
       (value_error ''application capability namespace must not be empty''),
     raise_if (ar_state r = ENABLED \<and> ar_registrar r = None)
       (value_error ''enabled application requires a semantic registrar''),
     raise_if (ar_state r = RESERVED \<and> ar_registrar r \<noteq> None)
       (value_error ''reserved application must not expose a registrar'')]"

type_synonym ApplicationRegistry = "(ApplicationKey \<times> ApplicationRegistration) list"

definition application_registry_init :: "ApplicationRegistration list \<Rightarrow> ApplicationRegistry result" where
  "application_registry_init regs =
     bindE (build_by_key ar_key (\<lambda>r. ValueError ''duplicate application registration: {}'' [app_value (ar_key r)]) regs [])
       (\<lambda>d. if d = [] then Inl (value_error ''application registry must not be empty'') else Inr d)"

definition application_enabled :: "ApplicationRegistry \<Rightarrow> ApplicationRegistration list" where
  "application_enabled reg = filter (\<lambda>r. ar_state r = ENABLED) (map snd reg)"

text \<open>The server is the list of the tool names registered on it so far.\<close>

fun register_all :: "string list \<Rightarrow> ApplicationRegistration list \<Rightarrow> string list result" where
  "register_all server [] = Inr server"
| "register_all server (r # rs) = (case ar_registrar r of
      None \<Rightarrow> Inl (RuntimeError ''enabled application has no registrar: {}'' [app_value (ar_key r)])
    | Some tools \<Rightarrow> register_all (server @ tools) rs)"

definition register_enabled_tools :: "ApplicationRegistry \<Rightarrow> string list \<Rightarrow> string list result" where
  "register_enabled_tools reg server = register_all server (application_enabled reg)"

definition default_application_registry :: "registrar \<Rightarrow> ApplicationRegistry result" where
  "default_application_registry register_planner_tools =
     bindE (construct application_registration_check
        \<lparr>ar_key = PLANNER, ar_state = ENABLED, ar_capability_namespace = ''planner'',
         ar_registrar = Some register_planner_tools\<rparr>) (\<lambda>p.
     bindE (construct application_registration_check
        \<lparr>ar_key = OUTLOOK, ar_state = RESERVED, ar_capability_namespace = ''outlook'',
         ar_registrar = None\<rparr>) (\<lambda>o'.
     application_registry_init [p, o']))"

subsection \<open>Tools\<close>

datatype MutationClass = READ | CREATE | UPDATE | DELETE | HIGH_IMPACT

fun mutation_value :: "MutationClass \<Rightarrow> string" where
  "mutation_value READ = ''READ''"
| "mutation_value CREATE = ''CREATE''"
| "mutation_value UPDATE = ''UPDATE''"
| "mutation_value DELETE = ''DELETE''"
| "mutation_value HIGH_IMPACT = ''HIGH_IMPACT''"

datatype ImplementationState =
    IMPLEMENTED_LIVE | IMPLEMENTED_MOCK_ONLY | IMPLEMENTED_NOT_ATTESTED | SPECIFIED_ONLY | PLANNED_STATE
  | DEPRECATED | BLOCKED_STATE

datatype CompatibilityRequirement = PRESERVE | VERSION | DEPRECATE_LATER | INTERNAL_ONLY

type_synonym schema = "(string \<times> json) list"

record ToolDefinition =
  td_name :: string
  td_version :: string
  td_application :: string
  td_surface :: string
  td_domain :: string
  td_input_schema :: schema
  td_output_schema :: schema
  td_mutation_class :: MutationClass
  td_risk_class :: string
  td_implementation_state :: ImplementationState
  td_capability_keys :: "string list"
  td_ui_contract_dependencies :: "string list"
  td_read_back_strategy :: string
  td_idempotency_semantics :: string
  td_approval_requirement :: string
  td_compatibility_requirement :: CompatibilityRequirement

definition tool_prefix :: "ToolDefinition \<Rightarrow> string result" where
  "tool_prefix d =
     (if td_application d = ''core'' then Inr ''m365_''
      else if td_application d \<in> set application_values then Inr (td_application d @ ''_'')
      else Inl (ValueError ''unknown tool application: {}'' [td_application d]))"

definition tool_definition_check :: "ToolDefinition \<Rightarrow> exn option" where
  "tool_definition_check d = first_error [
     raise_if (td_name d = [] \<or> td_version d = []) (value_error ''tool name and version are required''),
     (case tool_prefix d of Inl e \<Rightarrow> Some e
      | Inr pre \<Rightarrow> raise_if (\<not> prefix pre (td_name d))
          (ValueError ''tool name {!r} does not match application prefix {!r}'' [td_name d, pre])),
     raise_if (strip (td_surface d) = [] \<or> strip (td_domain d) = [] \<or> strip (td_risk_class d) = [])
       (value_error ''tool surface, domain and risk class are required''),
     raise_if (map_of (td_input_schema d) ''type'' \<noteq> Some (JStr ''object''))
       (value_error ''tool input schema must be an object schema''),
     raise_if (map_of (td_output_schema d) ''type'' \<noteq> Some (JStr ''object''))
       (value_error ''tool output schema must be an object schema''),
     raise_if (td_read_back_strategy d = [] \<or> td_idempotency_semantics d = [])
       (value_error ''read-back and idempotency semantics are required''),
     raise_if (td_approval_requirement d = []) (value_error ''approval requirement is required'')]"

type_synonym ToolRegistry = "(string \<times> ToolDefinition) list"

definition tool_registry_init :: "ToolDefinition list \<Rightarrow> ToolRegistry result" where
  "tool_registry_init defs =
     bindE (build_by_key td_name (\<lambda>d. ValueError ''duplicate tool definition: {}'' [td_name d]) defs [])
       (\<lambda>d. if d = [] then Inl (value_error ''tool registry must not be empty'') else Inr d)"

definition tool_get :: "ToolRegistry \<Rightarrow> string \<Rightarrow> ToolDefinition result" where
  "tool_get reg name = (case map_of reg name of None \<Rightarrow> Inl KeyError | Some d \<Rightarrow> Inr d)"

definition tool_names :: "ToolRegistry \<Rightarrow> string list" where
  "tool_names reg = map fst reg"

definition tools_by_application :: "ToolRegistry \<Rightarrow> string \<Rightarrow> ToolDefinition list" where
  "tools_by_application reg app = filter (\<lambda>d. td_application d = app) (map snd reg)"

datatype ToolProfile = FULL | PLANNER_ONLY | OUTLOOK_ONLY | READ_ONLY

fun profile_of_string :: "string \<Rightarrow> ToolProfile result" where
  "profile_of_string s =
     (if s = ''full'' then Inr FULL else if s = ''planner'' then Inr PLANNER_ONLY
      else if s = ''outlook'' then Inr OUTLOOK_ONLY else if s = ''read-only'' then Inr READ_ONLY
      else Inl (ValueError ''{!r} is not a valid ToolProfile'' [s]))"

definition project_tool_definitions :: "ToolRegistry \<Rightarrow> ToolProfile \<Rightarrow> ToolDefinition list result" where
  "project_tool_definitions reg profile =
     bindE (mapE (tool_get reg) (tool_names reg)) (\<lambda>defs. Inr (case profile of
        FULL \<Rightarrow> defs
      | PLANNER_ONLY \<Rightarrow> filter (\<lambda>d. td_application d = ''planner'') defs
      | OUTLOOK_ONLY \<Rightarrow> filter (\<lambda>d. td_application d = ''outlook'') defs
      | READ_ONLY \<Rightarrow> filter (\<lambda>d. td_mutation_class d = READ) defs))"

subsection \<open>Security tiers\<close>

datatype SecurityTier = T0 | T1 | T2 | T3 | T4

fun tier_int :: "SecurityTier \<Rightarrow> int" where
  "tier_int T0 = 0" | "tier_int T1 = 1" | "tier_int T2 = 2" | "tier_int T3 = 3" | "tier_int T4 = 4"

fun tier_name :: "SecurityTier \<Rightarrow> string" where
  "tier_name T0 = ''T0''" | "tier_name T1 = ''T1''" | "tier_name T2 = ''T2''"
| "tier_name T3 = ''T3''" | "tier_name T4 = ''T4''"

lemma tier_int_inj [simp]: "tier_int a = tier_int b \<longleftrightarrow> a = b"
  by (cases a; cases b) simp_all

lemma tier_name_inj [simp]: "tier_name a = tier_name b \<longleftrightarrow> a = b"
  by (cases a; cases b) simp_all

text \<open>An \<open>IntEnum\<close> compares as its integer.\<close>

instantiation SecurityTier :: linorder
begin

definition less_eq_SecurityTier :: "SecurityTier \<Rightarrow> SecurityTier \<Rightarrow> bool" where
  "less_eq_SecurityTier a b \<longleftrightarrow> tier_int a \<le> tier_int b"

definition less_SecurityTier :: "SecurityTier \<Rightarrow> SecurityTier \<Rightarrow> bool" where
  "less_SecurityTier a b \<longleftrightarrow> tier_int a < tier_int b"

instance
  by standard (auto simp: less_eq_SecurityTier_def less_SecurityTier_def simp flip: tier_int_inj)

end

definition T1_risk_classes :: "string list" where
  "T1_risk_classes = [''SESSION_OBSERVATION'', ''SESSION_INTERACTION'', ''SESSION_METADATA'', ''ACCOUNT_CONTEXT_READ'']"

definition classify_security_tier :: "ToolDefinition \<Rightarrow> SecurityTier \<times> string" where
  "classify_security_tier d =
     (if td_mutation_class d \<in> {DELETE, HIGH_IMPACT} then (T4, ''DESTRUCTIVE_OR_HIGH_IMPACT_MUTATION'')
      else if td_mutation_class d \<in> {CREATE, UPDATE} then (T3, ''BOUNDED_MUTATION'')
      else if td_risk_class d = ''READ_ONLY'' then (T0, ''LOCAL_OR_PRODUCT_METADATA_READ'')
      else if td_risk_class d \<in> set T1_risk_classes then (T1, ''SESSION_OR_ACCOUNT_CONTEXT'')
      else if td_risk_class d = ''M365_CONTENT_READ'' then (T2, ''AUTHENTICATED_M365_CONTENT_READ'')
      else (T4, ''UNCLASSIFIED_RISK_FAIL_CLOSED''))"

subsection \<open>Scoped capabilities\<close>

record ScopedCapability =
  sc_application :: string
  sc_surface :: string
  sc_account_scope :: string
  sc_container_scope :: string
  sc_capability :: string

definition scoped_field_check :: "string \<Rightarrow> string \<Rightarrow> exn option" where
  "scoped_field_check field v =
     raise_if (bad_token v) (ValueError ''invalid capability {}: {!r}'' [field, v])"

definition scoped_capability_check :: "ScopedCapability \<Rightarrow> exn option" where
  "scoped_capability_check c = first_error [
     raise_if (sc_application c \<notin> set application_values)
       (ValueError ''unknown capability application: {}'' [sc_application c]),
     scoped_field_check ''surface'' (sc_surface c),
     scoped_field_check ''account_scope'' (sc_account_scope c),
     scoped_field_check ''container_scope'' (sc_container_scope c),
     scoped_field_check ''capability'' (sc_capability c),
     raise_if (CHR ''.'' \<notin> set (sc_capability c))
       (value_error ''capability key must be semantic namespace.action form'')]"

type_synonym identity5 = "string \<times> string \<times> string \<times> string \<times> string"

definition capability_identity :: "ScopedCapability \<Rightarrow> identity5" where
  "capability_identity c =
     (sc_application c, sc_surface c, sc_account_scope c, sc_container_scope c, sc_capability c)"

definition identity_strings :: "ScopedCapability \<Rightarrow> string list" where
  "identity_strings c =
     [sc_application c, sc_surface c, sc_account_scope c, sc_container_scope c, sc_capability c]"

record CapabilityRegistry =
  cr_definitions :: "(identity5 \<times> ScopedCapability) list"
  cr_declared :: "(identity5 \<times> ScopedCapability) list"

definition capability_registry_init ::
  "ScopedCapability list \<Rightarrow> ScopedCapability list \<Rightarrow> CapabilityRegistry result" where
  "capability_registry_init defs reserved =
     bindE (build_by_key capability_identity
        (\<lambda>d. ValueError ''duplicate scoped capability: {!r}'' (identity_strings d)) defs []) (\<lambda>active.
     if active = [] then Inl (value_error ''capability registry must not be empty'')
     else bindE (build_by_key capability_identity
        (\<lambda>d. ValueError ''duplicate declared scoped capability: {!r}'' (identity_strings d)) reserved active)
        (\<lambda>declared. Inr \<lparr>cr_definitions = active, cr_declared = declared\<rparr>))"

definition capability_definitions :: "CapabilityRegistry \<Rightarrow> ScopedCapability list" where
  "capability_definitions r = map snd (cr_definitions r)"

definition declared_definitions :: "CapabilityRegistry \<Rightarrow> ScopedCapability list" where
  "declared_definitions r = map snd (cr_declared r)"

definition capabilities_by_application :: "CapabilityRegistry \<Rightarrow> string \<Rightarrow> ScopedCapability list" where
  "capabilities_by_application r app =
     filter (\<lambda>c. sc_application c = app) (map snd (cr_definitions r))"

definition declared_by_application :: "CapabilityRegistry \<Rightarrow> string \<Rightarrow> ScopedCapability list" where
  "declared_by_application r app = filter (\<lambda>c. sc_application c = app) (map snd (cr_declared r))"

text \<open>\<open>dict.fromkeys\<close>: the first occurrence of every element, in order.\<close>

fun dedupe :: "'a list \<Rightarrow> 'a list \<Rightarrow> 'a list" where
  "dedupe seen [] = []"
| "dedupe seen (x # xs) = (if x \<in> set seen then dedupe seen xs else x # dedupe (x # seen) xs)"

definition capability_names :: "CapabilityRegistry \<Rightarrow> string \<Rightarrow> string list" where
  "capability_names r app = dedupe [] (map sc_capability (capabilities_by_application r app))"

definition declared_capability_names :: "CapabilityRegistry \<Rightarrow> string \<Rightarrow> string list" where
  "declared_capability_names r app = dedupe [] (map sc_capability (declared_by_application r app))"

definition has_capability :: "CapabilityRegistry \<Rightarrow> string \<Rightarrow> string \<Rightarrow> bool" where
  "has_capability r app cap = list_ex (\<lambda>c. sc_capability c = cap) (declared_by_application r app)"

definition get_scoped ::
  "CapabilityRegistry \<Rightarrow> string \<Rightarrow> string \<Rightarrow> string \<Rightarrow> string \<Rightarrow> string \<Rightarrow> ScopedCapability result" where
  "get_scoped r app surface acct container cap =
     (case map_of (cr_definitions r) (app, surface, acct, container, cap) of
        None \<Rightarrow> Inl KeyError | Some c \<Rightarrow> Inr c)"

subsection \<open>Compensation of mutations\<close>

datatype CompensationAvailability = AUTOMATIC | MANUAL_ONLY | UNAVAILABLE

datatype CompensationStrategy =
    DELETE_CREATED_RESOURCE | RESTORE_PREVIOUS_STATE | INVERSE_OPERATION | MANUAL_RECONCILIATION
  | NO_STRATEGY

record CompensationDefinition =
  cd_tool_name :: string
  cd_tool_version :: string
  cd_mutation_class :: MutationClass
  cd_availability :: CompensationAvailability
  cd_strategy :: CompensationStrategy
  cd_requires_checkpoint :: bool

definition compensation_definition_check :: "CompensationDefinition \<Rightarrow> exn option" where
  "compensation_definition_check c = first_error [
     raise_if (strip (cd_tool_name c) = [] \<or> has_space (cd_tool_name c))
       (value_error ''compensation tool_name must be a semantic token''),
     raise_if (strip (cd_tool_version c) = []) (value_error ''compensation tool_version must not be empty''),
     raise_if (cd_mutation_class c = READ)
       (value_error ''read-only tools cannot declare mutation compensation''),
     (case cd_availability c of
        AUTOMATIC \<Rightarrow> raise_if
          (cd_strategy c \<notin> {DELETE_CREATED_RESOURCE, RESTORE_PREVIOUS_STATE, INVERSE_OPERATION})
          (value_error ''automatic compensation requires an automatic strategy'')
      | MANUAL_ONLY \<Rightarrow> raise_if (cd_strategy c \<noteq> MANUAL_RECONCILIATION)
          (value_error ''manual-only compensation requires manual reconciliation'')
      | UNAVAILABLE \<Rightarrow> raise_if (cd_strategy c \<noteq> NO_STRATEGY)
          (value_error ''unavailable compensation must use NONE strategy''))]"

type_synonym CompensationRegistry = "((string \<times> string) \<times> CompensationDefinition) list"

definition compensation_identity :: "CompensationDefinition \<Rightarrow> string \<times> string" where
  "compensation_identity c = (cd_tool_name c, cd_tool_version c)"

definition compensation_registry_init :: "CompensationDefinition list \<Rightarrow> CompensationRegistry result" where
  "compensation_registry_init defs = build_by_key compensation_identity
     (\<lambda>c. ValueError ''duplicate compensation definition: {!r}'' [cd_tool_name c, cd_tool_version c]) defs []"

definition compensation_for_tool ::
  "CompensationRegistry \<Rightarrow> ToolDefinition \<Rightarrow> CompensationDefinition result" where
  "compensation_for_tool reg tool =
     (if td_mutation_class tool = READ
      then Inl (value_error ''read-only tool has no mutation compensation'')
      else case map_of reg (td_name tool, td_version tool) of
        None \<Rightarrow> Inl (value_error ''mutation compensation definition is missing'')
      | Some c \<Rightarrow>
          if cd_mutation_class c \<noteq> td_mutation_class tool
          then Inl (value_error ''compensation mutation class does not match Tool Registry'')
          else Inr c)"

definition tool_coverage_error :: "CompensationRegistry \<Rightarrow> ToolDefinition \<Rightarrow> exn option" where
  "tool_coverage_error reg tool =
     (if td_mutation_class tool \<noteq> READ
      then (case compensation_for_tool reg tool of Inl e \<Rightarrow> Some e | Inr c \<Rightarrow> None) else None)"

definition orphan_error ::
  "((string \<times> string) \<times> ToolDefinition) list \<Rightarrow> (string \<times> string) \<times> CompensationDefinition \<Rightarrow> exn option" where
  "orphan_error registered entry = (case map_of registered (fst entry) of
      None \<Rightarrow> Some (value_error ''orphan compensation definition'')
    | Some tool \<Rightarrow> first_error [
        raise_if (td_mutation_class tool = READ)
          (value_error ''compensation definition targets read-only tool''),
        raise_if (td_mutation_class tool \<noteq> cd_mutation_class (snd entry))
          (value_error ''compensation mutation class does not match Tool Registry'')])"

definition validate_tool_registry_coverage :: "CompensationRegistry \<Rightarrow> ToolRegistry \<Rightarrow> unit result" where
  "validate_tool_registry_coverage reg tools =
     bindE (mapE (tool_get tools) (tool_names tools)) (\<lambda>defs.
       let registered = fold (\<lambda>t. AList.update (td_name t, td_version t) t) defs []
       in case first_error (map (tool_coverage_error reg) defs @ map (orphan_error registered) reg) of
            Some e \<Rightarrow> Inl e | None \<Rightarrow> Inr ())"

subsection \<open>The shipped definitions\<close>

definition PRODUCT_VERSION :: string where
  "PRODUCT_VERSION = ''0.1.0''"

definition empty_input_schema :: schema where
  "empty_input_schema = [(''type'', JStr ''object''), (''properties'', JObj []), (''required'', JList []),
     (''additionalProperties'', JBool False)]"

definition id_input_schema :: "string \<Rightarrow> schema result" where
  "id_input_schema field =
     (if field \<notin> {''plan_id'', ''task_id''}
      then Inl (ValueError ''unsupported Planner identifier field: {}'' [field])
      else Inr [(''type'', JStr ''object''),
        (''properties'', JObj [(field, JObj [(''type'', JStr ''string''), (''minLength'', JInt 1)])]),
        (''required'', JList [JStr field]), (''additionalProperties'', JBool False)])"

definition common_read_output_schema :: schema where
  "common_read_output_schema = [(''type'', JStr ''object''),
     (''required'', JList (map JStr [''tool'', ''product_version'', ''contract_version'', ''schema_version'',
        ''read_only'', ''graph_api_used'', ''data''])),
     (''properties'', JObj [(''tool'', JObj [(''type'', JStr ''string'')]),
        (''product_version'', JObj [(''const'', JStr PRODUCT_VERSION)]),
        (''contract_version'', JObj [(''const'', JStr PRODUCT_VERSION)]),
        (''schema_version'', JObj [(''const'', JStr PRODUCT_VERSION)]),
        (''read_only'', JObj [(''const'', JBool True)]),
        (''graph_api_used'', JObj [(''const'', JBool False)]),
        (''data'', JObj [])]),
     (''additionalProperties'', JBool True)]"

definition planner_schema_order :: "(string \<times> string option) list" where
  "planner_schema_order = [
     (''planner_health'', None),
     (''planner_readiness'', None),
     (''planner_capabilities'', None),
     (''planner_agent_card'', None),
     (''planner_ui_contract_status'', None),
     (''planner_auth_status'', None),
     (''planner_auth_start'', None),
     (''planner_auth_resume'', None),
     (''planner_auth_session_info'', None),
     (''planner_plan_list'', None),
     (''planner_plan_get'', Some ''plan_id''),
     (''planner_task_list'', Some ''plan_id''),
     (''planner_task_get'', Some ''task_id''),
     (''planner_project_snapshot'', Some ''plan_id''),
     (''planner_account_context'', None),
     (''planner_license_capabilities'', None),
     (''planner_smoke_test'', None)]"

definition planner_semantic_schemas :: "(string \<times> schema \<times> schema) list result" where
  "planner_semantic_schemas =
     mapE (\<lambda>(name, field). bindE (case field of None \<Rightarrow> Inr empty_input_schema | Some f \<Rightarrow> id_input_schema f)
       (\<lambda>inp. Inr (name, inp, common_read_output_schema))) planner_schema_order"

definition planner_capability_keys :: "string list" where
  "planner_capability_keys = [
     ''plans.read'', ''tasks.read'', ''buckets.read'', ''dependencies.read'',
     ''scheduling.read'', ''goals.read'', ''sprints.read'', ''resources.read'',
     ''custom_fields.read'', ''portfolios.read'', ''project_snapshot.read'']"

definition read_tool ::
  "string \<Rightarrow> string \<Rightarrow> string \<Rightarrow> string \<Rightarrow> ImplementationState \<Rightarrow> string list \<Rightarrow> string list \<Rightarrow> string \<Rightarrow> string \<Rightarrow>
     (string \<times> schema \<times> schema) list \<Rightarrow> ToolDefinition result" where
  "read_tool name surface domain risk state caps deps readback idem schemas =
     (case map_of schemas name of None \<Rightarrow> Inl KeyError
      | Some (inp, out) \<Rightarrow> construct tool_definition_check
        \<lparr>td_name = name, td_version = PRODUCT_VERSION, td_application = app_value PLANNER,
         td_surface = surface, td_domain = domain, td_input_schema = inp, td_output_schema = out,
         td_mutation_class = READ, td_risk_class = risk, td_implementation_state = state,
         td_capability_keys = caps, td_ui_contract_dependencies = deps, td_read_back_strategy = readback,
         td_idempotency_semantics = idem, td_approval_requirement = ''none'',
         td_compatibility_requirement = PRESERVE\<rparr>)"

definition planner_tools :: "((string \<times> schema \<times> schema) list \<Rightarrow> ToolDefinition result) list" where
  "planner_tools = [
     read_tool ''planner_health'' ''control_plane'' ''system'' ''READ_ONLY'' IMPLEMENTED_NOT_ATTESTED []
       [] ''NONE_READ_ONLY'' ''naturally_idempotent'',
     read_tool ''planner_readiness'' ''control_plane'' ''system'' ''READ_ONLY'' IMPLEMENTED_NOT_ATTESTED []
       [''GLOBAL_UI_CONTRACT_ATTESTATION''] ''NONE_READ_ONLY'' ''naturally_idempotent'',
     read_tool ''planner_capabilities'' ''capability'' ''capability'' ''READ_ONLY'' IMPLEMENTED_MOCK_ONLY planner_capability_keys
       [''GLOBAL_UI_CONTRACT_ATTESTATION''] ''NONE_READ_ONLY'' ''naturally_idempotent'',
     read_tool ''planner_agent_card'' ''control_plane'' ''system'' ''READ_ONLY'' IMPLEMENTED_NOT_ATTESTED []
       [] ''NONE_READ_ONLY'' ''naturally_idempotent'',
     read_tool ''planner_ui_contract_status'' ''ui_contract'' ''ui_contract'' ''READ_ONLY'' IMPLEMENTED_NOT_ATTESTED []
       [''GLOBAL_UI_CONTRACT_ATTESTATION''] ''NONE_READ_ONLY'' ''naturally_idempotent'',
     read_tool ''planner_auth_status'' ''browser_auth'' ''auth'' ''SESSION_OBSERVATION'' IMPLEMENTED_MOCK_ONLY []
       [''auth.login_email_input''] ''NONE_READ_ONLY'' ''naturally_idempotent'',
     read_tool ''planner_auth_start'' ''browser_auth'' ''auth'' ''SESSION_INTERACTION'' IMPLEMENTED_MOCK_ONLY []
       [''auth.login_email_input'', ''auth.login_password_input''] ''AUTH_STATE_RE_READ'' ''key_required'',
     read_tool ''planner_auth_resume'' ''browser_auth'' ''auth'' ''SESSION_INTERACTION'' IMPLEMENTED_MOCK_ONLY []
       [''auth.login_password_input''] ''AUTH_STATE_RE_READ'' ''naturally_idempotent'',
     read_tool ''planner_auth_session_info'' ''browser_auth'' ''auth'' ''SESSION_METADATA'' IMPLEMENTED_NOT_ATTESTED []
       [] ''NONE_READ_ONLY'' ''naturally_idempotent'',
     read_tool ''planner_plan_list'' ''planner_web'' ''planner'' ''M365_CONTENT_READ'' IMPLEMENTED_MOCK_ONLY [''plans.read'']
       [''plan.list_container'', ''plan.list_item'', ''plan.title''] ''NONE_READ_ONLY'' ''naturally_idempotent'',
     read_tool ''planner_plan_get'' ''planner_web'' ''planner'' ''M365_CONTENT_READ'' IMPLEMENTED_MOCK_ONLY [''plans.read'']
       [''plan.list_item'', ''plan.title''] ''NONE_READ_ONLY'' ''naturally_idempotent'',
     read_tool ''planner_task_list'' ''planner_web'' ''planner'' ''M365_CONTENT_READ'' IMPLEMENTED_MOCK_ONLY [''tasks.read'']
       [''task.list_container'', ''task.list_item'', ''task.title'', ''task.bucket''] ''NONE_READ_ONLY'' ''naturally_idempotent'',
     read_tool ''planner_task_get'' ''planner_web'' ''planner'' ''M365_CONTENT_READ'' IMPLEMENTED_MOCK_ONLY [''tasks.read'']
       [''task.list_item'', ''task.title'', ''task.bucket''] ''NONE_READ_ONLY'' ''naturally_idempotent'',
     read_tool ''planner_project_snapshot'' ''planner_web'' ''planner'' ''M365_CONTENT_READ'' IMPLEMENTED_MOCK_ONLY [''project_snapshot.read'', ''plans.read'', ''tasks.read'']
       [''plan.title'', ''task.list_container'', ''task.list_item'', ''task.title'', ''task.bucket''] ''NONE_READ_ONLY'' ''naturally_idempotent'',
     read_tool ''planner_account_context'' ''browser_account'' ''auth'' ''ACCOUNT_CONTEXT_READ'' IMPLEMENTED_MOCK_ONLY []
       [''account.context_menu''] ''NONE_READ_ONLY'' ''naturally_idempotent'',
     read_tool ''planner_license_capabilities'' ''capability'' ''capability'' ''ACCOUNT_CONTEXT_READ'' IMPLEMENTED_MOCK_ONLY planner_capability_keys
       [''GLOBAL_UI_CONTRACT_ATTESTATION''] ''NONE_READ_ONLY'' ''naturally_idempotent'',
     read_tool ''planner_smoke_test'' ''control_plane'' ''system'' ''READ_ONLY'' IMPLEMENTED_MOCK_ONLY []
       [''GLOBAL_UI_CONTRACT_ATTESTATION''] ''NONE_READ_ONLY'' ''naturally_idempotent'']"

definition planner_tool_definitions :: "ToolDefinition list result" where
  "planner_tool_definitions =
     bindE planner_semantic_schemas (\<lambda>schemas. mapE (\<lambda>mk. mk schemas) planner_tools)"

definition default_tool_registry :: "ToolRegistry result" where
  "default_tool_registry = bindE planner_tool_definitions tool_registry_init"

definition planner_capability :: "string \<Rightarrow> string \<Rightarrow> ScopedCapability result" where
  "planner_capability capability container = construct scoped_capability_check
     \<lparr>sc_application = app_value PLANNER, sc_surface = ''planner_web'',
      sc_account_scope = ''professional_session'', sc_container_scope = container,
      sc_capability = capability\<rparr>"

definition planner_capability_definitions :: "ScopedCapability list result" where
  "planner_capability_definitions = mapE (\<lambda>(c, k). planner_capability c k) [
     (''plans.read'', ''account''), (''tasks.read'', ''plan''), (''buckets.read'', ''plan''),
     (''dependencies.read'', ''plan''), (''scheduling.read'', ''plan''), (''goals.read'', ''plan''),
     (''sprints.read'', ''plan''), (''resources.read'', ''plan''), (''custom_fields.read'', ''plan''),
     (''portfolios.read'', ''account''), (''project_snapshot.read'', ''plan'')]"

definition outlook_discovery_capability :: "string \<Rightarrow> ScopedCapability result" where
  "outlook_discovery_capability capability = construct scoped_capability_check
     \<lparr>sc_application = app_value OUTLOOK, sc_surface = ''outlook_web'',
      sc_account_scope = ''professional_session'', sc_container_scope = ''account'',
      sc_capability = capability\<rparr>"

definition outlook_capability_definitions :: "ScopedCapability list result" where
  "outlook_capability_definitions = mapE outlook_discovery_capability
     [''mail.read'', ''calendar.read'', ''people.read'', ''todo.read'', ''settings.read'']"

definition default_capability_registry :: "CapabilityRegistry result" where
  "default_capability_registry =
     bindE planner_capability_definitions (\<lambda>p. bindE outlook_capability_definitions (\<lambda>o'.
       capability_registry_init p o'))"

definition default_compensation_registry :: "CompensationRegistry result" where
  "default_compensation_registry = compensation_registry_init []"

subsection \<open>Lemmas\<close>

lemma tool_registry_init_Inr_iff:
  "tool_registry_init defs = Inr reg \<longleftrightarrow>
     defs \<noteq> [] \<and> distinct (map td_name defs) \<and> reg = map (\<lambda>d. (td_name d, d)) defs"
  by (auto simp: tool_registry_init_def bindE_Inr_iff build_by_key_Inr_iff split: if_splits)

lemma tool_get_Inr_iff: "tool_get reg n = Inr d \<longleftrightarrow> map_of reg n = Some d"
  by (auto simp: tool_get_def split: option.splits)

lemma tool_get_name:
  "tool_registry_init defs = Inr reg \<Longrightarrow> tool_get reg n = Inr d \<Longrightarrow> td_name d = n \<and> d \<in> set defs"
  by (auto simp: tool_registry_init_Inr_iff tool_get_Inr_iff dest: map_of_map_key_SomeD)

lemma mapE_tool_get:
  assumes "tool_registry_init defs = Inr reg"
  shows "mapE (tool_get reg) (tool_names reg) = Inr defs"
proof -
  from assms have reg: "reg = map (\<lambda>d. (td_name d, d)) defs" and d: "distinct (map td_name defs)"
    by (auto simp: tool_registry_init_Inr_iff)
  have "list_all2 (\<lambda>n d. tool_get reg n = Inr d) (map td_name defs) defs"
    using d by (auto simp: list_all2_conv_all_nth tool_get_Inr_iff reg intro!: map_of_map_key)
  then show ?thesis by (simp add: mapE_Inr_iff tool_names_def reg comp_def)
qed

lemma capability_registry_init_Inr_iff:
  "capability_registry_init defs res = Inr r \<longleftrightarrow>
     defs \<noteq> [] \<and> distinct (map capability_identity (defs @ res)) \<and>
     r = \<lparr>cr_definitions = map (\<lambda>c. (capability_identity c, c)) defs,
          cr_declared = map (\<lambda>c. (capability_identity c, c)) (defs @ res)\<rparr>"
  by (auto simp: capability_registry_init_def bindE_Inr_iff build_by_key_Inr_iff split: if_splits)

lemma capability_identity_inj [simp]: "capability_identity a = capability_identity b \<longleftrightarrow> a = b"
  by (cases a; cases b) (auto simp: capability_identity_def)

lemma application_registry_init_Inr_iff:
  "application_registry_init regs = Inr reg \<longleftrightarrow>
     regs \<noteq> [] \<and> distinct (map ar_key regs) \<and> reg = map (\<lambda>r. (ar_key r, r)) regs"
  by (auto simp: application_registry_init_def bindE_Inr_iff build_by_key_Inr_iff split: if_splits)

lemma application_check_None_iff:
  "application_registration_check r = None \<longleftrightarrow> strip (ar_capability_namespace r) \<noteq> [] \<and>
     (ar_state r = ENABLED \<longleftrightarrow> ar_registrar r \<noteq> None)"
  by (cases "ar_state r") (auto simp: application_registration_check_def checks)

lemma register_all_Inr:
  "list_all (\<lambda>r. ar_registrar r \<noteq> None) rs \<Longrightarrow>
     register_all server rs = Inr (server @ concat (map (\<lambda>r. the (ar_registrar r)) rs))"
  by (induction rs arbitrary: server) auto

lemma compensation_registry_init_Inr_iff:
  "compensation_registry_init defs = Inr reg \<longleftrightarrow>
     distinct (map compensation_identity defs) \<and> reg = map (\<lambda>c. (compensation_identity c, c)) defs"
  by (auto simp: compensation_registry_init_def build_by_key_Inr_iff)

lemma compensation_for_tool_Inr_iff:
  "compensation_for_tool reg t = Inr c \<longleftrightarrow> td_mutation_class t \<noteq> READ \<and>
     map_of reg (td_name t, td_version t) = Some c \<and> cd_mutation_class c = td_mutation_class t"
  by (auto simp: compensation_for_tool_def split: option.splits)

lemma tool_coverage_None_iff:
  "tool_coverage_error reg t = None \<longleftrightarrow>
     (td_mutation_class t \<noteq> READ \<longrightarrow> (\<exists>c. compensation_for_tool reg t = Inr c))"
  by (auto simp: tool_coverage_error_def split: sum.splits)

lemma map_of_fold_update:
  "distinct (map f xs) \<Longrightarrow>
     map_of (fold (\<lambda>t. AList.update (f t) t) xs d) k =
     (case map_of (map (\<lambda>t. (f t, t)) xs) k of Some t \<Rightarrow> Some t | None \<Rightarrow> map_of d k)"
proof (induction xs arbitrary: d)
  case Nil
  then show ?case by simp
next
  case (Cons x xs)
  then have "map_of (map (\<lambda>t. (f t, t)) xs) (f x) = None" by (auto simp: map_of_eq_None_iff)
  with Cons show ?case by (auto simp: update_conv' split: option.splits)
qed

lemma orphan_None_iff:
  "orphan_error registered ((n, v), c) = None \<longleftrightarrow>
     (\<exists>t. map_of registered (n, v) = Some t \<and> td_mutation_class t \<noteq> READ \<and>
        td_mutation_class t = cd_mutation_class c)"
  by (auto simp: orphan_error_def checks split: option.splits)

lemma default_tools_evaluated:
  "\<exists>reg. default_tool_registry = Inr reg \<and> length reg = 17 \<and>
     list_all (\<lambda>d. td_mutation_class d = READ \<and> td_approval_requirement d = ''none'' \<and>
        td_application d = ''planner'' \<and> fst (classify_security_tier d) \<le> T2 \<and>
        \<not> bad_token (td_surface d)) (map snd reg)"
proof (rule Inr_caseD)
  show "case default_tool_registry of Inl e \<Rightarrow> False | Inr reg \<Rightarrow> length reg = 17 \<and>
     list_all (\<lambda>d. td_mutation_class d = READ \<and> td_approval_requirement d = ''none'' \<and>
        td_application d = ''planner'' \<and> fst (classify_security_tier d) \<le> T2 \<and>
        \<not> bad_token (td_surface d)) (map snd reg)"
    by code_simp
qed

lemma default_capabilities_evaluated:
  "\<exists>r. default_capability_registry = Inr r \<and> length (cr_definitions r) = 11 \<and> length (cr_declared r) = 16 \<and>
     list_all (\<lambda>c. sc_account_scope c = ''professional_session'' \<and>
        sc_container_scope c \<in> {''account'', ''plan''} \<and> sc_application c = ''planner'') (capability_definitions r)"
proof (rule Inr_caseD)
  show "case default_capability_registry of Inl e \<Rightarrow> False | Inr r \<Rightarrow>
     length (cr_definitions r) = 11 \<and> length (cr_declared r) = 16 \<and>
     list_all (\<lambda>c. sc_account_scope c = ''professional_session'' \<and>
        sc_container_scope c \<in> {''account'', ''plan''} \<and> sc_application c = ''planner'') (capability_definitions r)"
    by code_simp
qed

subsection \<open>Properties\<close>

text \<open>The shipped Tool Registry is built without an error and is read-only: it holds 17 tools,
  every one has mutation class READ, needs no approval, belongs to the Planner application and has
  a security tier of at most T2.\<close>
theorem default_registry_read_only:
  "\<exists>reg. default_tool_registry = Inr reg \<and> length reg = 17 \<and>
     list_all (\<lambda>d. td_mutation_class d = READ \<and> td_approval_requirement d = ''none'' \<and>
        td_application d = ''planner'' \<and> fst (classify_security_tier d) \<le> T2) (map snd reg)"
  using default_tools_evaluated by (auto simp: list_all_iff)

text \<open>A Tool Registry resolves a name to a definition exactly when that definition was given to
  the constructor under that name; the constructor itself succeeds exactly on a non-empty list
  without duplicate names.\<close>
theorem tool_registry_lookup:
  "tool_registry_init defs = Inr reg \<Longrightarrow>
     (tool_get reg n = Inr d \<longleftrightarrow> d \<in> set defs \<and> td_name d = n) \<and>
     (tool_get reg n = Inl KeyError \<longleftrightarrow> n \<notin> set (tool_names reg)) \<and>
     defs \<noteq> [] \<and> distinct (map td_name defs) \<and> tool_names reg = map td_name defs"
proof -
  assume init: "tool_registry_init defs = Inr reg"
  then have reg: "reg = map (\<lambda>d. (td_name d, d)) defs" and d: "distinct (map td_name defs)"
    and ne: "defs \<noteq> []" by (auto simp: tool_registry_init_Inr_iff)
  have names: "tool_names reg = map td_name defs" by (simp add: tool_names_def reg)
  have hit: "tool_get reg n = Inr d \<longleftrightarrow> d \<in> set defs \<and> td_name d = n"
    using d by (auto simp: tool_get_Inr_iff reg intro: map_of_map_key dest: map_of_map_key_SomeD)
  have "tool_get reg n = Inl KeyError \<longleftrightarrow> map_of reg n = None"
    by (auto simp: tool_get_def split: option.splits)
  then have "tool_get reg n = Inl KeyError \<longleftrightarrow> n \<notin> set (tool_names reg)"
    by (simp add: map_of_eq_None_iff tool_names_def)
  with hit names ne d show ?thesis by blast
qed

text \<open>A reserved capability declaration is visible as a declaration but is never resolved as an
  active definition, and no application gains an active capability from it.\<close>
theorem reserved_never_active:
  assumes "capability_registry_init defs res = Inr r" and "c \<in> set res"
  shows "get_scoped r (sc_application c) (sc_surface c) (sc_account_scope c) (sc_container_scope c)
      (sc_capability c) = Inl KeyError
    \<and> c \<in> set (declared_definitions r) \<and> c \<notin> set (capability_definitions r)
    \<and> c \<notin> set (capabilities_by_application r app)"
proof -
  from assms(1) have r: "cr_definitions r = map (\<lambda>c. (capability_identity c, c)) defs"
    "cr_declared r = map (\<lambda>c. (capability_identity c, c)) (defs @ res)"
    and d: "distinct (map capability_identity (defs @ res))"
    by (auto simp: capability_registry_init_Inr_iff)
  from d assms(2) have new: "c \<notin> set defs" by auto
  then have "capability_identity c \<notin> fst ` set (cr_definitions r)"
    by (auto simp: r simp del: capability_identity_def)
  then have "map_of (cr_definitions r) (capability_identity c) = None"
    by (simp add: map_of_eq_None_iff)
  with new assms(2) show ?thesis
    by (auto simp: get_scoped_def capability_identity_def declared_definitions_def
        capability_definitions_def capabilities_by_application_def r)
qed

definition sample_schema :: schema where
  "sample_schema = [(''type'', JStr ''object'')]"

definition sample_tool :: "string \<Rightarrow> MutationClass \<Rightarrow> string \<Rightarrow> ToolDefinition" where
  "sample_tool name mc risk = \<lparr>td_name = name, td_version = ''0.1.0'', td_application = ''planner'',
     td_surface = ''planner_web'', td_domain = ''planner'', td_input_schema = sample_schema,
     td_output_schema = sample_schema, td_mutation_class = mc, td_risk_class = risk,
     td_implementation_state = IMPLEMENTED_MOCK_ONLY, td_capability_keys = [''tasks.read''],
     td_ui_contract_dependencies = [], td_read_back_strategy = ''NONE'',
     td_idempotency_semantics = ''key_required'', td_approval_requirement = ''none'',
     td_compatibility_requirement = PRESERVE\<rparr>"

definition sample_capability :: "string \<Rightarrow> string \<Rightarrow> ScopedCapability" where
  "sample_capability app cap = \<lparr>sc_application = app, sc_surface = ''planner_web'',
     sc_account_scope = ''professional_session'', sc_container_scope = ''plan'', sc_capability = cap\<rparr>"

theorem tool_registry_lookup_witness:
  "tool_registry_init [sample_tool ''planner_a'' READ ''READ_ONLY''] =
     Inr [(''planner_a'', sample_tool ''planner_a'' READ ''READ_ONLY'')]
   \<and> tool_get [(''planner_a'', sample_tool ''planner_a'' READ ''READ_ONLY'')] ''planner_b'' = Inl KeyError"
proof -
  let ?d = "sample_tool ''planner_a'' READ ''READ_ONLY''"
  have i: "tool_registry_init [?d] = Inr [(''planner_a'', ?d)]"
    by (simp add: tool_registry_init_Inr_iff sample_tool_def)
  with tool_registry_lookup [OF i, of "''planner_b''"] show ?thesis by (simp add: tool_names_def)
qed

theorem reserved_never_active_witness:
  "\<exists>r. capability_registry_init [sample_capability ''planner'' ''tasks.read'']
        [sample_capability ''outlook'' ''mail.read''] = Inr r
     \<and> sample_capability ''outlook'' ''mail.read'' \<notin> set (capability_definitions r)"
proof -
  let ?p = "sample_capability ''planner'' ''tasks.read''"
  let ?o = "sample_capability ''outlook'' ''mail.read''"
  have d: "distinct (map capability_identity ([?p] @ [?o]))" by (simp add: sample_capability_def)
  then obtain r where r: "capability_registry_init [?p] [?o] = Inr r"
    using capability_registry_init_Inr_iff [of "[?p]" "[?o]"] by blast
  with reserved_never_active [OF r, of ?o] show ?thesis by auto
qed

text \<open>A registry built from checked registrations registers tools for the enabled applications
  only: the loop never meets an enabled application without a registrar, and the server gains the
  tools of the enabled registrations, in order, and nothing from a reserved one.\<close>
theorem only_enabled_applications_register:
  assumes "list_all (\<lambda>r. application_registration_check r = None) regs"
    and "application_registry_init regs = Inr reg"
  shows "register_enabled_tools reg server =
      Inr (server @ concat (map (\<lambda>r. the (ar_registrar r)) (filter (\<lambda>r. ar_state r = ENABLED) regs)))
    \<and> list_all (\<lambda>r. ar_state r = RESERVED \<longleftrightarrow> ar_registrar r = None) (map snd reg)"
proof -
  have reg: "map snd reg = regs"
    using assms(2) by (auto simp: application_registry_init_Inr_iff comp_def)
  then have "list_all (\<lambda>r. ar_registrar r \<noteq> None) (application_enabled reg)"
    using assms(1) by (auto simp: application_enabled_def list_all_iff application_check_None_iff)
  moreover have "list_all (\<lambda>r. ar_state r = RESERVED \<longleftrightarrow> ar_registrar r = None) regs"
    using assms(1) by (auto simp: list_all_iff application_check_None_iff)
      (metis ApplicationState.exhaust option.distinct(1))+
  ultimately show ?thesis by (simp add: register_enabled_tools_def register_all_Inr application_enabled_def reg)
qed

theorem only_enabled_applications_register_witness:
  "\<exists>reg. default_application_registry [''planner_health''] = Inr reg \<and>
     register_enabled_tools reg [] = Inr [''planner_health'']"
proof -
  let ?p = "\<lparr>ar_key = PLANNER, ar_state = ENABLED, ar_capability_namespace = ''planner'',
     ar_registrar = Some [''planner_health'']\<rparr>"
  let ?o = "\<lparr>ar_key = OUTLOOK, ar_state = RESERVED, ar_capability_namespace = ''outlook'', ar_registrar = None\<rparr>"
  have ns: "strip ''planner'' \<noteq> []" "strip ''outlook'' \<noteq> []" by code_simp+
  then have ok: "list_all (\<lambda>r. application_registration_check r = None) [?p, ?o]"
    by (simp add: application_check_None_iff)
  obtain reg where reg: "application_registry_init [?p, ?o] = Inr reg"
    using application_registry_init_Inr_iff [of "[?p, ?o]"] by auto
  moreover have "default_application_registry [''planner_health''] = Inr reg"
    using ok reg by (simp add: default_application_registry_def construct_def)
  moreover have "register_enabled_tools reg [] = Inr [''planner_health'']"
    using only_enabled_applications_register [OF ok reg, of "[]"] by simp
  ultimately show ?thesis by blast
qed

text \<open>The security tier separates reads from mutations and fails closed: a tool is at T3 or above
  exactly when it mutates or its risk class is outside the reviewed read vocabulary, deletes and
  high-impact mutations are always T4, and no mutation is ever below T3.\<close>
theorem security_tier_fail_closed:
  "(T3 \<le> fst (classify_security_tier d) \<longleftrightarrow>
      \<not> (td_mutation_class d = READ \<and>
         td_risk_class d \<in> set (''READ_ONLY'' # ''M365_CONTENT_READ'' # T1_risk_classes)))
   \<and> (fst (classify_security_tier d) = T3 \<longleftrightarrow> td_mutation_class d \<in> {CREATE, UPDATE})
   \<and> (fst (classify_security_tier d) = T4 \<longleftrightarrow>
        td_mutation_class d \<in> {DELETE, HIGH_IMPACT} \<or>
        (td_mutation_class d = READ \<and>
         td_risk_class d \<notin> set (''READ_ONLY'' # ''M365_CONTENT_READ'' # T1_risk_classes)))"
  by (cases "td_mutation_class d") (auto simp: classify_security_tier_def less_eq_SecurityTier_def)

text \<open>Coverage validation accepts a compensation registry exactly when every mutating tool has a
  definition for its name and version with its own mutation class, and every definition targets a
  registered mutating tool of that class: nothing missing, nothing orphaned.\<close>
theorem compensation_coverage_exact:
  assumes "compensation_registry_init cs = Inr reg" and "tool_registry_init defs = Inr tools"
  shows "validate_tool_registry_coverage reg tools = Inr () \<longleftrightarrow>
     list_all (\<lambda>t. td_mutation_class t \<noteq> READ \<longrightarrow>
        list_ex (\<lambda>c. compensation_identity c = (td_name t, td_version t) \<and>
           cd_mutation_class c = td_mutation_class t) cs) defs \<and>
     list_all (\<lambda>c. list_ex (\<lambda>t. compensation_identity c = (td_name t, td_version t) \<and>
        td_mutation_class t \<noteq> READ \<and> td_mutation_class t = cd_mutation_class c) defs) cs"
proof -
  let ?id = "\<lambda>t. (td_name t, td_version t)"
  let ?registered = "fold (\<lambda>t. AList.update (?id t) t) defs []"
  have reg: "reg = map (\<lambda>c. (compensation_identity c, c)) cs" and dc: "distinct (map compensation_identity cs)"
    using assms(1) by (auto simp: compensation_registry_init_Inr_iff)
  have dn: "distinct (map td_name defs)" using assms(2) by (auto simp: tool_registry_init_Inr_iff)
  then have di: "distinct (map ?id defs)" by (auto simp: distinct_map inj_on_def)
  have reg_hit: "map_of reg k = Some c \<longleftrightarrow> c \<in> set cs \<and> compensation_identity c = k" for k c
    using dc by (auto simp: reg intro: map_of_map_key dest: map_of_map_key_SomeD)
  have tool_hit: "map_of ?registered k = Some t \<longleftrightarrow> t \<in> set defs \<and> ?id t = k" for k t
  proof -
    have "map_of ?registered k = map_of (map (\<lambda>t. (?id t, t)) defs) k"
      using map_of_fold_update [OF di, of "[]" k] by (simp split: option.splits)
    then show ?thesis by (simp only: map_of_map_key_iff [OF di])
  qed
  have "validate_tool_registry_coverage reg tools = Inr () \<longleftrightarrow>
     first_error (map (tool_coverage_error reg) defs @ map (orphan_error ?registered) reg) = None"
    by (simp add: validate_tool_registry_coverage_def mapE_tool_get [OF assms(2)] Let_def split: option.split)
  then have "validate_tool_registry_coverage reg tools = Inr () \<longleftrightarrow>
     (\<forall>t \<in> set defs. tool_coverage_error reg t = None) \<and> (\<forall>e \<in> set reg. orphan_error ?registered e = None)"
    by (simp only: first_error_append first_error_map_None)
  moreover have "orphan_error ?registered (k, c) = None \<longleftrightarrow>
      (\<exists>t \<in> set defs. k = ?id t \<and> td_mutation_class t \<noteq> READ \<and> td_mutation_class t = cd_mutation_class c)" for k c
    by (cases k) (auto simp: orphan_None_iff tool_hit)
  then have "(\<forall>e \<in> set reg. orphan_error ?registered e = None) \<longleftrightarrow>
      (\<forall>c \<in> set cs. \<exists>t \<in> set defs. compensation_identity c = ?id t \<and> td_mutation_class t \<noteq> READ \<and>
         td_mutation_class t = cd_mutation_class c)"
    unfolding reg by (simp only: set_map ball_simps)
  moreover have "(\<forall>t \<in> set defs. tool_coverage_error reg t = None) \<longleftrightarrow>
      (\<forall>t \<in> set defs. td_mutation_class t \<noteq> READ \<longrightarrow>
        (\<exists>c \<in> set cs. compensation_identity c = ?id t \<and> cd_mutation_class c = td_mutation_class t))"
    by (auto simp: tool_coverage_None_iff compensation_for_tool_Inr_iff reg_hit)
  ultimately show ?thesis by (simp only: list_all_iff list_ex_iff)
qed

theorem compensation_coverage_exact_witness:
  "\<exists>tools. tool_registry_init [sample_tool ''planner_a'' DELETE ''X''] = Inr tools \<and>
     compensation_registry_init [] = Inr [] \<and>
     validate_tool_registry_coverage [] tools \<noteq> Inr ()"
proof -
  let ?t = "sample_tool ''planner_a'' DELETE ''X''"
  have t: "tool_registry_init [?t] = Inr [(''planner_a'', ?t)]"
    by (simp add: tool_registry_init_Inr_iff sample_tool_def)
  have c: "compensation_registry_init [] = Inr []"
    by (simp add: compensation_registry_init_Inr_iff)
  show ?thesis using t c compensation_coverage_exact [OF c t] by (auto simp: sample_tool_def)
qed

end
