(* ===== verification/Policy.thy ===== *)
theory Policy
  imports Registries Config
begin

text \<open>
  The metadata-driven policy: \<open>policy_scope.py\<close> (\<open>ps_\<close>), \<open>policy.py\<close>
  (\<open>pr_\<close>), \<open>plan_policy.py\<close> (\<open>pn_\<close>, \<open>pp_\<close>), \<open>policy_simulation.py\<close>
  (\<open>so_\<close>), \<open>xapp_node_governance.py\<close> (\<open>ng_\<close>) and the regression test of
  \<open>apps/planner/policy_parity.py\<close>. The engine is the pair of its Tool and Capability Registry.
\<close>

subsection \<open>Scopes\<close>

datatype AccountScope = PRODUCT_CONTEXT | PROFESSIONAL_SESSION

datatype MailboxScope = NO_MAILBOX | PRIMARY | SHARED

datatype ResourceScope = ACCOUNT_RESOURCE | CONTAINER_RESOURCE | SINGLE_RESOURCE

fun account_scope_value :: "AccountScope \<Rightarrow> string" where
  "account_scope_value PRODUCT_CONTEXT = ''product_context''"
| "account_scope_value PROFESSIONAL_SESSION = ''professional_session''"

fun mailbox_scope_value :: "MailboxScope \<Rightarrow> string" where
  "mailbox_scope_value NO_MAILBOX = ''none''"
| "mailbox_scope_value PRIMARY = ''primary''"
| "mailbox_scope_value SHARED = ''shared''"

fun resource_scope_value :: "ResourceScope \<Rightarrow> string" where
  "resource_scope_value ACCOUNT_RESOURCE = ''account''"
| "resource_scope_value CONTAINER_RESOURCE = ''container''"
| "resource_scope_value SINGLE_RESOURCE = ''resource''"

definition ALLOWED_CONTAINER_SCOPES :: "string list" where
  "ALLOWED_CONTAINER_SCOPES = [''account'', ''plan'', ''mailbox'', ''folder'', ''calendar'', ''task_list'']"

definition container_specificity :: "string \<Rightarrow> int" where
  "container_specificity s =
     (if s = ''account'' then 0 else if s = ''mailbox'' then 1 else if s = ''plan'' then 1
      else if s = ''folder'' then 2 else if s = ''calendar'' then 2 else if s = ''task_list'' then 2 else - 1)"

record PolicyScope =
  ps_application :: string
  ps_surface :: string
  ps_account_scope :: AccountScope
  ps_container_scope :: "string option"
  ps_mailbox_scope :: MailboxScope
  ps_resource_scope :: "ResourceScope option"

definition policy_scope_check :: "PolicyScope \<Rightarrow> exn option" where
  "policy_scope_check s = first_error [
     raise_if (bad_token (ps_application s)) (ValueError ''invalid policy scope {}: {!r}'' [''application'', ps_application s]),
     raise_if (bad_token (ps_surface s)) (ValueError ''invalid policy scope {}: {!r}'' [''surface'', ps_surface s]),
     (case ps_container_scope s of None \<Rightarrow> None
      | Some c \<Rightarrow> raise_if (c \<notin> set ALLOWED_CONTAINER_SCOPES) (ValueError ''unknown policy container scope: {!r}'' [c])),
     raise_if (ps_application s \<noteq> ''outlook'' \<and> ps_mailbox_scope s \<noteq> NO_MAILBOX)
       (value_error ''mailbox scope is only valid for Outlook'')]"

record ScopeAssessment =
  sa_allowed :: bool
  sa_reason :: string
  sa_effective_scope :: PolicyScope
  sa_derived :: bool

definition matching_capabilities :: "ToolDefinition \<Rightarrow> CapabilityRegistry \<Rightarrow> ScopedCapability list" where
  "matching_capabilities d reg =
     filter (\<lambda>c. sc_capability c \<in> set (td_capability_keys d) \<and> sc_surface c = td_surface d)
       (capabilities_by_application reg (td_application d))"

definition required_fields :: "schema \<Rightarrow> string list" where
  "required_fields s = (case map_of s ''required'' of
      Some (JList vs) \<Rightarrow> concat (map (\<lambda>v. case v of JStr f \<Rightarrow> [f] | _ \<Rightarrow> []) vs) | _ \<Rightarrow> [])"

definition resource_scope_of :: "ToolDefinition \<Rightarrow> string option \<Rightarrow> ResourceScope option" where
  "resource_scope_of d container =
     (let required = required_fields (td_input_schema d) in
      if ''task_id'' \<in> set required then Some SINGLE_RESOURCE
      else if ''plan_id'' \<in> set required then Some CONTAINER_RESOURCE
      else if container = Some ''account'' then Some ACCOUNT_RESOURCE
      else if container \<noteq> None then Some CONTAINER_RESOURCE else None)"

definition canonical_policy_scope :: "ToolDefinition \<Rightarrow> CapabilityRegistry \<Rightarrow> PolicyScope result" where
  "canonical_policy_scope d reg = (case matching_capabilities d reg of
      [] \<Rightarrow> construct policy_scope_check
        \<lparr>ps_application = td_application d, ps_surface = td_surface d,
         ps_account_scope = PRODUCT_CONTEXT, ps_container_scope = None, ps_mailbox_scope = NO_MAILBOX,
         ps_resource_scope = resource_scope_of d None\<rparr>
    | c # cs \<Rightarrow>
        if \<not> list_all (\<lambda>x. sc_account_scope x = account_scope_value PROFESSIONAL_SESSION) (c # cs)
        then Inl (value_error ''capability metadata has incompatible account scopes'')
        else (let container = max_by container_specificity (sc_container_scope c) (map sc_container_scope cs) in
          construct policy_scope_check
            \<lparr>ps_application = td_application d, ps_surface = td_surface d,
             ps_account_scope = PROFESSIONAL_SESSION, ps_container_scope = Some container,
             ps_mailbox_scope = (if td_application d = ''outlook'' then PRIMARY else NO_MAILBOX),
             ps_resource_scope = resource_scope_of d (Some container)\<rparr>))"

text \<open>The first check that does not match names the reason.\<close>

fun first_mismatch :: "(bool \<times> string) list \<Rightarrow> string option" where
  "first_mismatch [] = None"
| "first_mismatch ((ok, reason) # cs) = (if ok then first_mismatch cs else Some reason)"

definition scope_checks :: "PolicyScope \<Rightarrow> PolicyScope \<Rightarrow> (bool \<times> string) list" where
  "scope_checks r c = [
     (ps_application r = ps_application c, ''SCOPE_APPLICATION_MISMATCH''),
     (ps_surface r = ps_surface c, ''SCOPE_SURFACE_MISMATCH''),
     (ps_account_scope r = ps_account_scope c, ''SCOPE_ACCOUNT_MISMATCH''),
     (ps_container_scope r = ps_container_scope c, ''SCOPE_CONTAINER_MISMATCH''),
     (ps_mailbox_scope r = ps_mailbox_scope c, ''SCOPE_MAILBOX_MISMATCH''),
     (ps_resource_scope r = ps_resource_scope c, ''SCOPE_RESOURCE_MISMATCH'')]"

definition assess_policy_scope ::
  "ToolDefinition \<Rightarrow> PolicyScope option \<Rightarrow> CapabilityRegistry \<Rightarrow> ScopeAssessment result" where
  "assess_policy_scope d requested reg =
     bindE (canonical_policy_scope d reg) (\<lambda>canonical. case requested of
        None \<Rightarrow> Inr \<lparr>sa_allowed = True, sa_reason = ''CANONICAL_SCOPE_DERIVED'',
                  sa_effective_scope = canonical, sa_derived = True\<rparr>
      | Some r \<Rightarrow> (case first_mismatch (scope_checks r canonical) of
            Some reason \<Rightarrow> Inr \<lparr>sa_allowed = False, sa_reason = reason, sa_effective_scope = r, sa_derived = False\<rparr>
          | None \<Rightarrow> Inr \<lparr>sa_allowed = True, sa_reason = ''SCOPE_VERIFIED'',
                  sa_effective_scope = r, sa_derived = False\<rparr>))"

subsection \<open>The engine\<close>

datatype Decision = ALLOW | DENY | REQUIRE_APPROVAL

fun decision_value :: "Decision \<Rightarrow> string" where
  "decision_value ALLOW = ''ALLOW''"
| "decision_value DENY = ''DENY''"
| "decision_value REQUIRE_APPROVAL = ''REQUIRE_APPROVAL''"

record PolicyResult =
  pr_decision :: Decision
  pr_reason :: string
  pr_tool :: "string option"
  pr_application :: "string option"
  pr_mutation_class :: "MutationClass option"
  pr_security_tier :: "SecurityTier option"
  pr_capability_keys :: "string list"
  pr_scope :: "PolicyScope option"
  pr_scope_reason :: "string option"
  pr_scope_derived :: bool

record engine =
  en_registry :: ToolRegistry
  en_capabilities :: CapabilityRegistry

definition policy_result ::
  "ToolDefinition \<Rightarrow> Decision \<Rightarrow> string \<Rightarrow> SecurityTier \<Rightarrow> PolicyScope option \<Rightarrow> string option \<Rightarrow> bool \<Rightarrow> PolicyResult" where
  "policy_result d decision reason tier scope scope_reason derived =
     \<lparr>pr_decision = decision, pr_reason = reason, pr_tool = Some (td_name d),
      pr_application = Some (td_application d), pr_mutation_class = Some (td_mutation_class d),
      pr_security_tier = Some tier, pr_capability_keys = td_capability_keys d, pr_scope = scope,
      pr_scope_reason = scope_reason, pr_scope_derived = derived\<rparr>"

definition policy_evaluate ::
  "engine \<Rightarrow> string \<Rightarrow> Settings \<Rightarrow> bool \<Rightarrow> PolicyScope option \<Rightarrow> PolicyResult" where
  "policy_evaluate en tool settings mutation scope = (case tool_get (en_registry en) tool of
      Inl _ \<Rightarrow> \<lparr>pr_decision = DENY, pr_reason = ''TOOL_NOT_REGISTERED'', pr_tool = Some tool,
               pr_application = None, pr_mutation_class = None, pr_security_tier = None,
               pr_capability_keys = [], pr_scope = None, pr_scope_reason = None, pr_scope_derived = False\<rparr>
    | Inr d \<Rightarrow> (let tier = fst (classify_security_tier d) in
        case assess_policy_scope d scope (en_capabilities en) of
          Inl _ \<Rightarrow> policy_result d DENY ''SCOPE_METADATA_INVALID'' tier None None False
        | Inr a \<Rightarrow>
            if \<not> sa_allowed a
            then policy_result d DENY (sa_reason a) tier (Some (sa_effective_scope a)) (Some (sa_reason a)) False
            else (let mutation_requested = td_mutation_class d \<noteq> READ \<or> mutation in
              if mutation_requested \<and> \<not> st_allow_mutations settings
              then policy_result d DENY ''MUTATIONS_DISABLED_IN_0_1_0'' tier (Some (sa_effective_scope a))
                     (Some (sa_reason a)) (sa_derived a)
              else if T3 \<le> tier \<or> mutation_requested \<or> td_approval_requirement d \<noteq> ''none''
              then policy_result d REQUIRE_APPROVAL ''MUTATION_REQUIRES_APPROVAL'' tier
                     (Some (sa_effective_scope a)) (Some (sa_reason a)) (sa_derived a)
              else policy_result d ALLOW ''REGISTERED_READ_TOOL'' tier (Some (sa_effective_scope a))
                     (Some (sa_reason a)) (sa_derived a))))"

definition READ_TOOLS :: "ToolRegistry \<Rightarrow> string list" where
  "READ_TOOLS reg = map td_name (filter (\<lambda>d. td_mutation_class d = READ) (tools_by_application reg ''planner''))"

subsection \<open>Composite plans\<close>

datatype PlanKind = BATCH | DAG | RUNBOOK

fun plan_kind_value :: "PlanKind \<Rightarrow> string" where
  "plan_kind_value BATCH = ''BATCH''" | "plan_kind_value DAG = ''DAG''" | "plan_kind_value RUNBOOK = ''RUNBOOK''"

record PolicyNode =
  pn_node_id :: string
  pn_tool :: string
  pn_scope :: "PolicyScope option"
  pn_mutation :: bool
  pn_depends_on :: "string list"

definition policy_node_check :: "PolicyNode \<Rightarrow> exn option" where
  "policy_node_check n = first_error [
     raise_if (pn_node_id n = [] \<or> pn_node_id n \<noteq> strip (pn_node_id n))
       (value_error ''plan policy node_id must be non-empty and trimmed''),
     raise_if (pn_tool n = [] \<or> pn_tool n \<noteq> strip (pn_tool n))
       (value_error ''plan policy tool must be non-empty and trimmed''),
     raise_if (pn_node_id n \<in> set (pn_depends_on n)) (value_error ''plan policy node cannot depend on itself''),
     raise_if (\<not> distinct (pn_depends_on n)) (value_error ''plan policy dependencies must be unique'')]"

record PolicyPlan =
  pp_kind :: PlanKind
  pp_nodes :: "PolicyNode list"

definition policy_plan_check :: "PolicyPlan \<Rightarrow> exn option" where
  "policy_plan_check p = (let ids = map pn_node_id (pp_nodes p) in first_error ([
     raise_if (pp_nodes p = []) (value_error ''plan policy requires at least one node''),
     raise_if (\<not> distinct ids) (value_error ''plan policy node ids must be unique'')] @
     map (\<lambda>n. raise_if (\<not> set (pn_depends_on n) \<subseteq> set ids)
        (value_error ''plan policy dependency references unknown node'')) (pp_nodes p)))"

record NodePolicyResult =
  nr_node_id :: string
  nr_tool :: string
  nr_result :: PolicyResult

record PlanPolicyResult =
  pl_kind :: PlanKind
  pl_decision :: Decision
  pl_nodes :: "NodePolicyResult list"

definition denied_node_ids :: "PlanPolicyResult \<Rightarrow> string list" where
  "denied_node_ids r = map nr_node_id (filter (\<lambda>n. pr_decision (nr_result n) = DENY) (pl_nodes r))"

definition approval_node_ids :: "PlanPolicyResult \<Rightarrow> string list" where
  "approval_node_ids r =
     map nr_node_id (filter (\<lambda>n. pr_decision (nr_result n) = REQUIRE_APPROVAL) (pl_nodes r))"

definition aggregate_decision :: "NodePolicyResult list \<Rightarrow> Decision" where
  "aggregate_decision rs =
     (if list_ex (\<lambda>n. pr_decision (nr_result n) = DENY) rs then DENY
      else if list_ex (\<lambda>n. pr_decision (nr_result n) = REQUIRE_APPROVAL) rs then REQUIRE_APPROVAL
      else ALLOW)"

definition evaluate_node :: "engine \<Rightarrow> Settings \<Rightarrow> PolicyNode \<Rightarrow> NodePolicyResult" where
  "evaluate_node en settings n =
     \<lparr>nr_node_id = pn_node_id n, nr_tool = pn_tool n,
      nr_result = policy_evaluate en (pn_tool n) settings (pn_mutation n) (pn_scope n)\<rparr>"

definition evaluate_plan_policy :: "engine \<Rightarrow> Settings \<Rightarrow> PolicyPlan \<Rightarrow> PlanPolicyResult" where
  "evaluate_plan_policy en settings plan =
     (let rs = map (evaluate_node en settings) (pp_nodes plan) in
      \<lparr>pl_kind = pp_kind plan, pl_decision = aggregate_decision rs, pl_nodes = rs\<rparr>)"

subsection \<open>Simulation\<close>

record SimulatedNodeOutcome =
  so_node_id :: string
  so_tool :: string
  so_decision :: Decision
  so_reason :: string
  so_application :: "string option"
  so_mutation_class :: "string option"
  so_security_tier :: "string option"
  so_capability_keys :: "string list"
  so_scope :: "PolicyScope option"
  so_scope_reason :: "string option"
  so_scope_derived :: bool
  so_depends_on :: "string list"
  so_mutation_requested :: bool
  so_mutation_performed :: bool

record PolicySimulation =
  sim_plan_kind :: string
  sim_aggregate_decision :: Decision
  sim_nodes :: "SimulatedNodeOutcome list"
  sim_dry_run :: bool
  sim_side_effects_performed :: bool

definition simulate_node ::
  "(string \<times> PolicyNode) list \<Rightarrow> NodePolicyResult \<Rightarrow> SimulatedNodeOutcome result" where
  "simulate_node by_id r = (case map_of by_id (nr_node_id r) of
      None \<Rightarrow> Inl KeyError
    | Some n \<Rightarrow> Inr \<lparr>so_node_id = nr_node_id r, so_tool = nr_tool r,
        so_decision = pr_decision (nr_result r), so_reason = pr_reason (nr_result r),
        so_application = pr_application (nr_result r),
        so_mutation_class = map_option mutation_value (pr_mutation_class (nr_result r)),
        so_security_tier = map_option tier_name (pr_security_tier (nr_result r)),
        so_capability_keys = pr_capability_keys (nr_result r), so_scope = pr_scope (nr_result r),
        so_scope_reason = pr_scope_reason (nr_result r), so_scope_derived = pr_scope_derived (nr_result r),
        so_depends_on = pn_depends_on n, so_mutation_requested = pn_mutation n,
        so_mutation_performed = False\<rparr>)"

definition simulate_policy_plan :: "engine \<Rightarrow> Settings \<Rightarrow> PolicyPlan \<Rightarrow> PolicySimulation result" where
  "simulate_policy_plan en settings plan =
     (let evaluated = evaluate_plan_policy en settings plan;
          by_id = fold (\<lambda>n. AList.update (pn_node_id n) n) (pp_nodes plan) []
      in bindE (mapE (simulate_node by_id) (pl_nodes evaluated)) (\<lambda>outcomes.
        Inr \<lparr>sim_plan_kind = plan_kind_value (pl_kind evaluated),
             sim_aggregate_decision = pl_decision evaluated, sim_nodes = outcomes,
             sim_dry_run = True, sim_side_effects_performed = False\<rparr>))"

subsection \<open>Governance of single nodes\<close>

record NodeEvidenceBinding =
  eb_node_id :: string
  eb_evidence_reference_id :: string

definition governance_token :: "string \<Rightarrow> string \<Rightarrow> exn option" where
  "governance_token field v = first_error [
     raise_if (bad_token v) (ValueError ''{} must be a non-empty semantic token'' [field]),
     raise_if (is_url v) (ValueError ''{} must not encode a URL'' [field])]"

definition evidence_binding_check :: "NodeEvidenceBinding \<Rightarrow> exn option" where
  "evidence_binding_check b = first_error [
     governance_token ''node_id'' (eb_node_id b),
     governance_token ''evidence_reference_id'' (eb_evidence_reference_id b)]"

record NodeGovernanceDisposition =
  ng_node_id :: string
  ng_decision :: Decision
  ng_approval_required :: bool
  ng_approval_bound :: bool
  ng_evidence_bound :: bool
  ng_executable :: bool
  ng_reason :: string

record GovernedPlanDisposition =
  gp_nodes :: "NodeGovernanceDisposition list"
  gp_aggregate_approval_available :: bool

definition governed_plan_check :: "GovernedPlanDisposition \<Rightarrow> exn option" where
  "governed_plan_check g = first_error [
     raise_if (gp_aggregate_approval_available g) (value_error ''aggregate plan approval is not available''),
     raise_if (\<not> distinct (map ng_node_id (gp_nodes g))) (value_error ''governance node ids must be unique'')]"

definition executable_node_ids :: "GovernedPlanDisposition \<Rightarrow> string list" where
  "executable_node_ids g = map ng_node_id (filter ng_executable (gp_nodes g))"

fun bind_evidence ::
  "string list \<Rightarrow> NodeEvidenceBinding list \<Rightarrow> (string \<times> string) list \<Rightarrow> (string \<times> string) list result" where
  "bind_evidence known [] d = Inr d"
| "bind_evidence known (b # bs) d =
     (if eb_node_id b \<notin> set known then Inl (value_error ''evidence references unknown plan node'')
      else if map_of d (eb_node_id b) \<noteq> None
      then Inl (value_error ''each plan node accepts one evidence binding'')
      else bind_evidence known bs (AList.update (eb_node_id b) (eb_evidence_reference_id b) d))"

definition govern_node ::
  "string list \<Rightarrow> (string \<times> string) list \<Rightarrow> NodePolicyResult \<Rightarrow> NodeGovernanceDisposition" where
  "govern_node approvals evidence n =
     (let decision = pr_decision (nr_result n);
          approval_required = (decision = REQUIRE_APPROVAL);
          approval_bound = (nr_node_id n \<in> set approvals);
          evidence_bound = (map_of evidence (nr_node_id n) \<noteq> None);
          executable = (decision \<noteq> DENY \<and> (\<not> approval_required \<or> approval_bound) \<and> evidence_bound);
          reason = (if decision = DENY then pr_reason (nr_result n)
             else if approval_required \<and> \<not> approval_bound then ''APPROVAL_NOT_BOUND''
             else if \<not> evidence_bound then ''EVIDENCE_NOT_BOUND'' else ''NODE_GOVERNANCE_SATISFIED'')
      in \<lparr>ng_node_id = nr_node_id n, ng_decision = decision, ng_approval_required = approval_required,
          ng_approval_bound = approval_bound, ng_evidence_bound = evidence_bound,
          ng_executable = executable, ng_reason = reason\<rparr>)"

definition bind_node_governance ::
  "PlanPolicyResult \<Rightarrow> string list \<Rightarrow> NodeEvidenceBinding list \<Rightarrow> GovernedPlanDisposition result" where
  "bind_node_governance result approvals bindings =
     (let known = map nr_node_id (pl_nodes result) in
      if length (pl_nodes result) > 100 then Inl (value_error ''plan governance exceeds bounded node count'')
      else if \<not> distinct approvals then Inl (value_error ''approval node ids must be unique'')
      else if \<not> set approvals \<subseteq> set known then Inl (value_error ''approval references unknown plan node'')
      else bindE (bind_evidence known bindings []) (\<lambda>evidence.
        construct governed_plan_check
          \<lparr>gp_nodes = map (govern_node approvals evidence) (pl_nodes result),
           gp_aggregate_approval_available = False\<rparr>))"

subsection \<open>Parity with a frozen baseline\<close>

fun decision_strength :: "Decision \<Rightarrow> int" where
  "decision_strength ALLOW = 0"
| "decision_strength REQUIRE_APPROVAL = 1"
| "decision_strength DENY = 2"

record PolicyProjection =
  pj_decision :: Decision
  pj_security_tier :: int
  pj_approval_requirement :: string
  pj_capability_keys :: "string list"

definition weaker_than :: "PolicyProjection \<Rightarrow> PolicyProjection \<Rightarrow> bool" where
  "weaker_than observed expected =
     (if decision_strength (pj_decision observed) < decision_strength (pj_decision expected) then True
      else if pj_security_tier observed < pj_security_tier expected then True
      else if pj_approval_requirement expected \<noteq> ''none'' \<and> pj_approval_requirement observed = ''none'' then True
      else \<not> set (pj_capability_keys expected) \<subseteq> set (pj_capability_keys observed))"

fun governance_regressions ::
  "(string \<times> PolicyProjection) list \<Rightarrow> (string \<times> PolicyProjection) list \<Rightarrow> string list" where
  "governance_regressions snapshot [] = []"
| "governance_regressions snapshot ((tool, expected) # baseline) =
     (case map_of snapshot tool of
        None \<Rightarrow> tool # governance_regressions snapshot baseline
      | Some observed \<Rightarrow>
          if weaker_than observed expected then tool # governance_regressions snapshot baseline
          else governance_regressions snapshot baseline)"

subsection \<open>Lemmas\<close>

lemma first_mismatch_None_iff: "first_mismatch cs = None \<longleftrightarrow> list_all fst cs"
  by (induction cs rule: first_mismatch.induct) auto

lemma scope_checks_None_iff: "first_mismatch (scope_checks r c) = None \<longleftrightarrow> r = c"
  by (cases r; cases c) (auto simp: first_mismatch_None_iff scope_checks_def)

lemma assess_Some:
  "assess_policy_scope d (Some r) reg = Inr a \<Longrightarrow>
     sa_effective_scope a = r \<and> \<not> sa_derived a \<and>
     (sa_allowed a \<longleftrightarrow> canonical_policy_scope d reg = Inr r)"
proof -
  assume h: "assess_policy_scope d (Some r) reg = Inr a"
  then obtain c where c: "canonical_policy_scope d reg = Inr c"
    by (auto simp: assess_policy_scope_def bindE_Inr_iff)
  show ?thesis
  proof (cases "first_mismatch (scope_checks r c)")
    case None
    then have "r = c" by (simp add: scope_checks_None_iff)
    with None c h show ?thesis by (auto simp: assess_policy_scope_def)
  next
    case (Some reason)
    then have "r \<noteq> c" using scope_checks_None_iff [of r c] by auto
    with Some c h show ?thesis by (auto simp: assess_policy_scope_def)
  qed
qed

lemma assess_None:
  "assess_policy_scope d None reg = Inr a \<Longrightarrow>
     sa_allowed a \<and> sa_derived a \<and> canonical_policy_scope d reg = Inr (sa_effective_scope a)"
  by (auto simp: assess_policy_scope_def bindE_Inr_iff)

lemma assess_allowed_canonical:
  "assess_policy_scope d s reg = Inr a \<Longrightarrow> sa_allowed a \<Longrightarrow>
     canonical_policy_scope d reg = Inr (sa_effective_scope a) \<and> (s = None \<or> s = Some (sa_effective_scope a))"
  by (cases s) (auto dest: assess_None assess_Some)

lemma policy_result_sel [simp]:
  "pr_decision (policy_result d dec rs t s sr b) = dec" "pr_reason (policy_result d dec rs t s sr b) = rs"
  "pr_scope (policy_result d dec rs t s sr b) = s"
  by (simp_all add: policy_result_def)

lemmas policy_evaluate_cases = policy_evaluate_def Let_def

lemma policy_allow_iff:
  "pr_decision (policy_evaluate en tool settings mutation scope) = ALLOW \<longleftrightarrow>
     (\<exists>d a. tool_get (en_registry en) tool = Inr d \<and>
        assess_policy_scope d scope (en_capabilities en) = Inr a \<and> sa_allowed a \<and>
        td_mutation_class d = READ \<and> \<not> mutation \<and> \<not> T3 \<le> fst (classify_security_tier d) \<and>
        td_approval_requirement d = ''none'')"
  by (auto simp: policy_evaluate_cases split: sum.splits)

lemma policy_mutation_denied:
  "\<not> st_allow_mutations settings \<Longrightarrow> mutation \<or> (\<forall>d. tool_get (en_registry en) tool = Inr d \<longrightarrow> td_mutation_class d \<noteq> READ) \<Longrightarrow>
     pr_decision (policy_evaluate en tool settings mutation scope) = DENY"
  by (auto simp: policy_evaluate_cases split: sum.splits)

lemma decision_strength_inj [simp]: "decision_strength a = decision_strength b \<longleftrightarrow> a = b"
  by (cases a; cases b) simp_all

lemma decision_strength_bounds: "0 \<le> decision_strength d" "decision_strength d \<le> 2"
  by (cases d; simp)+

lemma aggregate_strength:
  "decision_strength (aggregate_decision rs) =
     Max (insert 0 ((\<lambda>n. decision_strength (pr_decision (nr_result n))) ` set rs))"
proof (rule sym, rule Max_eqI)
  fix y assume "y \<in> insert 0 ((\<lambda>n. decision_strength (pr_decision (nr_result n))) ` set rs)"
  then consider "y = 0" | n where "n \<in> set rs" "y = decision_strength (pr_decision (nr_result n))" by auto
  then show "y \<le> decision_strength (aggregate_decision rs)"
  proof cases
    case 1 then show ?thesis by (simp add: decision_strength_bounds)
  next
    case (2 n)
    then show ?thesis
      by (cases "pr_decision (nr_result n)") (auto simp: aggregate_decision_def list_ex_iff)
  qed
next
  show "decision_strength (aggregate_decision rs)
      \<in> insert 0 ((\<lambda>n. decision_strength (pr_decision (nr_result n))) ` set rs)"
    by (auto simp: aggregate_decision_def list_ex_iff image_iff intro: bexI [rotated])
qed simp

lemma plan_nodes_results:
  "pl_nodes (evaluate_plan_policy en settings plan) = map (evaluate_node en settings) (pp_nodes plan)"
  "pl_decision (evaluate_plan_policy en settings plan) =
     aggregate_decision (map (evaluate_node en settings) (pp_nodes plan))"
  "pl_kind (evaluate_plan_policy en settings plan) = pp_kind plan"
  by (simp_all add: evaluate_plan_policy_def Let_def)

lemma policy_plan_check_None:
  "policy_plan_check p = None \<longleftrightarrow> pp_nodes p \<noteq> [] \<and> distinct (map pn_node_id (pp_nodes p)) \<and>
     (\<forall>n \<in> set (pp_nodes p). set (pn_depends_on n) \<subseteq> set (map pn_node_id (pp_nodes p)))"
  by (auto simp: policy_plan_check_def Let_def checks)

lemma bind_evidence_dom:
  "bind_evidence known bs d = Inr ev \<Longrightarrow>
     dom (map_of ev) = eb_node_id ` set bs \<union> dom (map_of d) \<and> eb_node_id ` set bs \<subseteq> set known"
  by (induction bs arbitrary: d) (auto simp: update_conv' dom_def split: if_splits)

lemma govern_node_executable:
  "ng_executable (govern_node approvals ev n) \<longleftrightarrow>
     pr_decision (nr_result n) \<noteq> DENY \<and>
     (pr_decision (nr_result n) = REQUIRE_APPROVAL \<longrightarrow> nr_node_id n \<in> set approvals) \<and>
     map_of ev (nr_node_id n) \<noteq> None"
  by (auto simp: govern_node_def Let_def)

lemma govern_node_sel [simp]:
  "ng_node_id (govern_node approvals ev n) = nr_node_id n"
  "ng_decision (govern_node approvals ev n) = pr_decision (nr_result n)"
  by (simp_all add: govern_node_def Let_def)

lemma governance_regressions_iff:
  "t \<in> set (governance_regressions snap base) \<longleftrightarrow>
     (\<exists>e. (t, e) \<in> set base \<and> (case map_of snap t of None \<Rightarrow> True | Some ob \<Rightarrow> weaker_than ob e))"
  by (induction snap base rule: governance_regressions.induct) (auto split: option.splits)

lemma canonical_scope_exists:
  assumes "list_all (\<lambda>c. sc_account_scope c = ''professional_session'' \<and>
      sc_container_scope c \<in> set ALLOWED_CONTAINER_SCOPES) (capability_definitions reg)"
    and "\<not> bad_token (td_application d)" "\<not> bad_token (td_surface d)"
  shows "\<exists>s. canonical_policy_scope d reg = Inr s"
proof (cases "matching_capabilities d reg")
  case Nil
  with assms(2,3) show ?thesis
    by (simp add: canonical_policy_scope_def construct_def policy_scope_check_def first_error.simps)
next
  case (Cons c cs)
  let ?k = "max_by container_specificity (sc_container_scope c) (map sc_container_scope cs)"
  have "set (c # cs) \<subseteq> set (capability_definitions reg)"
    unfolding Cons [symmetric]
    by (auto simp: matching_capabilities_def capabilities_by_application_def capability_definitions_def)
  with assms(1) have all: "x \<in> set (c # cs) \<Longrightarrow> sc_account_scope x = ''professional_session'' \<and>
      sc_container_scope x \<in> set ALLOWED_CONTAINER_SCOPES" for x by (auto simp: list_all_iff)
  have "?k \<in> sc_container_scope ` set (c # cs)"
    using max_by_in [of container_specificity "sc_container_scope c" "map sc_container_scope cs"] by auto
  then obtain x where "x \<in> set (c # cs)" "?k = sc_container_scope x" by (rule imageE)
  with all [of x] have k: "?k \<in> set ALLOWED_CONTAINER_SCOPES" by metis
  have acc: "list_all (\<lambda>x. sc_account_scope x = account_scope_value PROFESSIONAL_SESSION) (c # cs)"
    unfolding list_all_iff using all by simp
  have "policy_scope_check
      \<lparr>ps_application = td_application d, ps_surface = td_surface d,
       ps_account_scope = PROFESSIONAL_SESSION, ps_container_scope = Some ?k,
       ps_mailbox_scope = (if td_application d = ''outlook'' then PRIMARY else NO_MAILBOX),
       ps_resource_scope = resource_scope_of d (Some ?k)\<rparr> = None"
    using assms(2,3) k unfolding policy_scope_check_def by (simp add: checks del: bad_token_iff)
  then show ?thesis
    unfolding canonical_policy_scope_def Cons list.case Let_def construct_def
    by (simp only: acc not_True_eq_False if_False) simp
qed

lemma scope_allowed_iff:
  "(\<exists>a. assess_policy_scope d scope reg = Inr a \<and> sa_allowed a) \<longleftrightarrow>
     (\<exists>c. canonical_policy_scope d reg = Inr c \<and> scope \<in> {None, Some c})"
proof
  assume "\<exists>a. assess_policy_scope d scope reg = Inr a \<and> sa_allowed a"
  then show "\<exists>c. canonical_policy_scope d reg = Inr c \<and> scope \<in> {None, Some c}"
    using assess_allowed_canonical by blast
next
  assume "\<exists>c. canonical_policy_scope d reg = Inr c \<and> scope \<in> {None, Some c}"
  then obtain c where c: "canonical_policy_scope d reg = Inr c" "scope \<in> {None, Some c}" by blast
  moreover have "first_mismatch (scope_checks c c) = None" by (simp add: scope_checks_None_iff)
  ultimately show "\<exists>a. assess_policy_scope d scope reg = Inr a \<and> sa_allowed a"
    by (auto simp: assess_policy_scope_def)
qed

subsection \<open>Properties\<close>

text \<open>C32. The policy allows a call exactly when the tool is registered, the requested scope is absent
  or equal to the canonical one, the tool is a read that the caller does not flag as a mutation, its
  tier is below T3 and it needs no approval; every other call is denied or held for approval.\<close>
theorem policy_allow_exact:
  "pr_decision (policy_evaluate en tool settings mutation scope) = ALLOW \<longleftrightarrow>
     (\<exists>d c. tool_get (en_registry en) tool = Inr d \<and>
        canonical_policy_scope d (en_capabilities en) = Inr c \<and> scope \<in> {None, Some c} \<and>
        td_mutation_class d = READ \<and> \<not> mutation \<and> fst (classify_security_tier d) < T3 \<and>
        td_approval_requirement d = ''none'')"
proof -
  note allowed = scope_allowed_iff [of _ scope "en_capabilities en"]
  show ?thesis unfolding policy_allow_iff not_le using allowed by blast
qed

text \<open>Under any configuration that passed the runtime invariants (mutations are disabled), a
  mutating tool, and any tool called with the mutation flag, is denied whatever scope is presented;
  and even a configuration with mutations enabled never allows them outright.\<close>
theorem mutations_denied_when_disabled:
  assumes "runtime_invariants settings = None"
    and "mutation \<or> (\<exists>d. tool_get (en_registry en) tool = Inr d \<and> td_mutation_class d \<noteq> READ)"
  shows "pr_decision (policy_evaluate en tool settings mutation scope) = DENY
    \<and> pr_decision (policy_evaluate en tool (settings\<lparr>st_allow_mutations := True\<rparr>) mutation scope) \<noteq> ALLOW"
proof -
  have "\<not> st_allow_mutations settings" using assms(1) by (simp add: runtime_invariants_None_iff)
  moreover have "mutation \<or> (\<forall>d. tool_get (en_registry en) tool = Inr d \<longrightarrow> td_mutation_class d \<noteq> READ)"
    using assms(2) by auto
  ultimately have "pr_decision (policy_evaluate en tool settings mutation scope) = DENY"
    by (rule policy_mutation_denied)
  moreover have "pr_decision (policy_evaluate en tool (settings\<lparr>st_allow_mutations := True\<rparr>) mutation scope) \<noteq> ALLOW"
    using assms(2) by (auto simp: policy_allow_iff)
  ultimately show ?thesis by blast
qed

definition sample_engine :: "MutationClass \<Rightarrow> engine" where
  "sample_engine mc = \<lparr>en_registry = [(''planner_x'', sample_tool ''planner_x'' mc ''M365_CONTENT_READ'')],
     en_capabilities = \<lparr>cr_definitions = [], cr_declared = []\<rparr>\<rparr>"

theorem mutations_denied_when_disabled_witness:
  "runtime_invariants (sample_settings False) = None \<and>
   pr_decision (policy_evaluate (sample_engine UPDATE) ''planner_x'' (sample_settings False) False None) = DENY"
proof -
  have ok: "runtime_invariants (sample_settings False) = None"
    by (simp add: runtime_invariants_None_iff sample_settings_def)
  have mut: "False \<or> (\<exists>d. tool_get (en_registry (sample_engine UPDATE)) ''planner_x'' = Inr d \<and> td_mutation_class d \<noteq> READ)"
    by (simp add: sample_engine_def tool_get_def sample_tool_def)
  from ok mutations_denied_when_disabled [OF ok mut, of None] show ?thesis by blast
qed

text \<open>The mutation flag of a caller can only make a decision stricter: for every tool, scope and
  configuration, the decision with the flag is at least as strong as the decision without it.\<close>
theorem mutation_flag_only_stricter:
  "decision_strength (pr_decision (policy_evaluate en tool settings False scope))
     \<le> decision_strength (pr_decision (policy_evaluate en tool settings True scope))"
  by (auto simp: policy_evaluate_cases split: sum.splits)

text \<open>An explicit scope is accepted exactly when it equals the canonical scope of the tool in all
  six components; a rejected scope is reported with the first component that differs, and an accepted
  one is never changed.\<close>
theorem scope_accepted_iff_canonical:
  assumes "canonical_policy_scope d reg = Inr c"
  shows "assess_policy_scope d (Some r) reg = Inr \<lparr>sa_allowed = (r = c),
      sa_reason = (if ps_application r \<noteq> ps_application c then ''SCOPE_APPLICATION_MISMATCH''
        else if ps_surface r \<noteq> ps_surface c then ''SCOPE_SURFACE_MISMATCH''
        else if ps_account_scope r \<noteq> ps_account_scope c then ''SCOPE_ACCOUNT_MISMATCH''
        else if ps_container_scope r \<noteq> ps_container_scope c then ''SCOPE_CONTAINER_MISMATCH''
        else if ps_mailbox_scope r \<noteq> ps_mailbox_scope c then ''SCOPE_MAILBOX_MISMATCH''
        else if ps_resource_scope r \<noteq> ps_resource_scope c then ''SCOPE_RESOURCE_MISMATCH''
        else ''SCOPE_VERIFIED''),
      sa_effective_scope = r, sa_derived = False\<rparr>"
  using assms by (cases r; cases c) (auto simp: assess_policy_scope_def scope_checks_def)

theorem scope_accepted_iff_canonical_witness:
  "\<exists>c a. canonical_policy_scope (sample_tool ''planner_x'' READ ''READ_ONLY'') (en_capabilities (sample_engine READ)) = Inr c
     \<and> assess_policy_scope (sample_tool ''planner_x'' READ ''READ_ONLY'') (Some (c\<lparr>ps_surface := ''other''\<rparr>))
          (en_capabilities (sample_engine READ)) = Inr a
     \<and> \<not> sa_allowed a \<and> sa_reason a = ''SCOPE_SURFACE_MISMATCH''"
proof -
  let ?d = "sample_tool ''planner_x'' READ ''READ_ONLY''"
  let ?reg = "en_capabilities (sample_engine READ)"
  have "case canonical_policy_scope ?d ?reg of Inl e \<Rightarrow> False | Inr c \<Rightarrow> ps_surface c = ''planner_web''"
    by code_simp
  then obtain c where c: "canonical_policy_scope ?d ?reg = Inr c" "ps_surface c = ''planner_web''"
    by (blast dest: Inr_caseD)
  from scope_accepted_iff_canonical [OF c(1), of "c\<lparr>ps_surface := ''other''\<rparr>"] c
  show ?thesis by (cases c) simp
qed

text \<open>The scope derived for a tool is the narrowest the matching capabilities declare: its container
  is one of theirs and none of theirs is more specific, every matching capability is bound to the
  professional session, and a tool without matching capabilities gets a product-context scope
  without a container.\<close>
theorem canonical_scope_narrowest:
  assumes "canonical_policy_scope d reg = Inr s"
  shows "ps_application s = td_application d \<and> ps_surface s = td_surface d \<and>
    (case ps_container_scope s of
       None \<Rightarrow> matching_capabilities d reg = [] \<and> ps_account_scope s = PRODUCT_CONTEXT
     | Some k \<Rightarrow> k \<in> set (map sc_container_scope (matching_capabilities d reg)) \<and>
         list_all (\<lambda>c. container_specificity (sc_container_scope c) \<le> container_specificity k \<and>
            sc_account_scope c = ''professional_session'') (matching_capabilities d reg) \<and>
         ps_account_scope s = PROFESSIONAL_SESSION)"
proof (cases "matching_capabilities d reg")
  case Nil
  with assms show ?thesis by (auto simp: canonical_policy_scope_def checks)
next
  case (Cons c cs)
  let ?k = "max_by container_specificity (sc_container_scope c) (map sc_container_scope cs)"
  from assms Cons have s: "ps_container_scope s = Some ?k" "ps_account_scope s = PROFESSIONAL_SESSION"
      "ps_application s = td_application d" "ps_surface s = td_surface d"
    and acct: "list_all (\<lambda>x. sc_account_scope x = ''professional_session'') (c # cs)"
    by (auto simp: canonical_policy_scope_def Let_def checks split: if_splits)
  have "?k \<in> set (map sc_container_scope (c # cs))"
    using max_by_in [of container_specificity "sc_container_scope c" "map sc_container_scope cs"] by simp
  moreover have "container_specificity (sc_container_scope x) \<le> container_specificity ?k" if "x \<in> set (c # cs)" for x
    using that by (intro max_by_ge) auto
  ultimately show ?thesis using s acct Cons by (auto simp: list_all_iff)
qed

theorem canonical_scope_narrowest_witness:
  "\<exists>s. canonical_policy_scope (sample_tool ''planner_x'' READ ''READ_ONLY'')
      \<lparr>cr_definitions = [(capability_identity (sample_capability ''planner'' ''tasks.read''),
          sample_capability ''planner'' ''tasks.read'')], cr_declared = []\<rparr> = Inr s
    \<and> ps_surface s = ''planner_web'' \<and> ps_container_scope s = Some ''plan''"
proof -
  let ?reg = "\<lparr>cr_definitions = [(capability_identity (sample_capability ''planner'' ''tasks.read''),
          sample_capability ''planner'' ''tasks.read'')], cr_declared = []\<rparr>"
  let ?d = "sample_tool ''planner_x'' READ ''READ_ONLY''"
  have "case canonical_policy_scope ?d ?reg of Inl e \<Rightarrow> False | Inr s \<Rightarrow> ps_container_scope s = Some ''plan''"
    by code_simp
  then obtain s where s: "canonical_policy_scope ?d ?reg = Inr s" "ps_container_scope s = Some ''plan''"
    by (blast dest: Inr_caseD)
  with canonical_scope_narrowest [OF s(1)] show ?thesis by (auto simp: sample_tool_def)
qed

text \<open>A composite plan gives no authority to its nodes: every node carries exactly the decision the
  tool would get in a direct call, and the aggregate decision is the strongest of them.\<close>
theorem plan_decision_is_strongest_node:
  "map nr_result (pl_nodes (evaluate_plan_policy en settings plan)) =
     map (\<lambda>n. policy_evaluate en (pn_tool n) settings (pn_mutation n) (pn_scope n)) (pp_nodes plan) \<and>
   decision_strength (pl_decision (evaluate_plan_policy en settings plan)) =
     Max (insert 0 (set (map (\<lambda>n. decision_strength (pr_decision
       (policy_evaluate en (pn_tool n) settings (pn_mutation n) (pn_scope n)))) (pp_nodes plan)))) \<and>
   (pl_decision (evaluate_plan_policy en settings plan) = ALLOW \<longleftrightarrow>
      denied_node_ids (evaluate_plan_policy en settings plan) = [] \<and>
      approval_node_ids (evaluate_plan_policy en settings plan) = [])"
proof -
  let ?rs = "map (evaluate_node en settings) (pp_nodes plan)"
  have r: "nr_result (evaluate_node en settings n) =
      policy_evaluate en (pn_tool n) settings (pn_mutation n) (pn_scope n)" for n
    by (simp add: evaluate_node_def)
  have "pl_decision (evaluate_plan_policy en settings plan) = ALLOW \<longleftrightarrow>
      denied_node_ids (evaluate_plan_policy en settings plan) = [] \<and>
      approval_node_ids (evaluate_plan_policy en settings plan) = []"
    by (auto simp: plan_nodes_results denied_node_ids_def approval_node_ids_def aggregate_decision_def
        list_ex_iff filter_empty_conv)
  then show ?thesis
    by (simp add: plan_nodes_results aggregate_strength r image_image comp_def)
qed

text \<open>Simulating a valid plan always succeeds and is a dry run: its nodes are the nodes of the
  evaluation in order with their decisions, reasons and dependencies, the aggregate decision is that
  of the evaluation, and no mutation or side effect is reported as performed.\<close>
theorem simulation_is_dry_run:
  assumes "policy_plan_check plan = None"
  shows "\<exists>sim. simulate_policy_plan en settings plan = Inr sim \<and> sim_dry_run sim \<and>
    \<not> sim_side_effects_performed sim \<and> list_all (\<lambda>o'. \<not> so_mutation_performed o') (sim_nodes sim) \<and>
    sim_aggregate_decision sim = pl_decision (evaluate_plan_policy en settings plan) \<and>
    map so_decision (sim_nodes sim) =
      map (\<lambda>n. pr_decision (policy_evaluate en (pn_tool n) settings (pn_mutation n) (pn_scope n))) (pp_nodes plan) \<and>
    map so_depends_on (sim_nodes sim) = map pn_depends_on (pp_nodes plan) \<and>
    map so_node_id (sim_nodes sim) = map pn_node_id (pp_nodes plan)"
proof -
  let ?nodes = "pp_nodes plan"
  let ?by_id = "fold (\<lambda>n. AList.update (pn_node_id n) n) ?nodes []"
  let ?out = "\<lambda>n. case simulate_node ?by_id (evaluate_node en settings n) of Inr o' \<Rightarrow> o' | Inl e \<Rightarrow> undefined"
  have d: "distinct (map pn_node_id ?nodes)" using assms by (simp add: policy_plan_check_None)
  have hit: "map_of ?by_id (pn_node_id n) = Some n" if "n \<in> set ?nodes" for n
    using that map_of_fold_update [OF d, of "[]" "pn_node_id n"] map_of_map_key [OF d that] by simp
  have node: "\<exists>o'. simulate_node ?by_id (evaluate_node en settings n) = Inr o' \<and>
      so_decision o' = pr_decision (policy_evaluate en (pn_tool n) settings (pn_mutation n) (pn_scope n)) \<and>
      so_depends_on o' = pn_depends_on n \<and> so_node_id o' = pn_node_id n \<and> \<not> so_mutation_performed o'"
    if "n \<in> set ?nodes" for n
    using hit [OF that] by (simp add: simulate_node_def evaluate_node_def)
  then have out: "simulate_node ?by_id (evaluate_node en settings n) = Inr (?out n) \<and>
      so_decision (?out n) = pr_decision (policy_evaluate en (pn_tool n) settings (pn_mutation n) (pn_scope n)) \<and>
      so_depends_on (?out n) = pn_depends_on n \<and> so_node_id (?out n) = pn_node_id n \<and> \<not> so_mutation_performed (?out n)"
    if "n \<in> set ?nodes" for n using that by fastforce
  have "mapE (simulate_node ?by_id) (map (evaluate_node en settings) ?nodes) = Inr (map ?out ?nodes)"
    unfolding mapE_Inr_iff list_all2_map1 list_all2_map2 using out by (intro list.rel_refl_strong) auto
  then show ?thesis
    using out by (auto simp: simulate_policy_plan_def Let_def plan_nodes_results list_all_iff)
qed

definition sample_plan :: PolicyPlan where
  "sample_plan = \<lparr>pp_kind = DAG, pp_nodes = [
     \<lparr>pn_node_id = ''a'', pn_tool = ''planner_x'', pn_scope = None, pn_mutation = False, pn_depends_on = []\<rparr>,
     \<lparr>pn_node_id = ''b'', pn_tool = ''planner_y'', pn_scope = None, pn_mutation = True, pn_depends_on = [''a'']\<rparr>]\<rparr>"

theorem simulation_is_dry_run_witness:
  "\<exists>sim. simulate_policy_plan (sample_engine READ) (sample_settings False) sample_plan = Inr sim \<and>
     sim_dry_run sim \<and> map so_node_id (sim_nodes sim) = [''a'', ''b'']"
proof -
  have ok: "policy_plan_check sample_plan = None" by code_simp
  from simulation_is_dry_run [OF ok, of "sample_engine READ" "sample_settings False"] show ?thesis
    by (auto simp: sample_plan_def)
qed

text \<open>Governance binds approval and evidence to single nodes: when the binding succeeds, a node is
  executable exactly when the policy does not deny it, its own approval is bound if the policy asks
  for one, and evidence is bound to that node. No set of approvals makes a denied node executable, and
  nothing is approved in aggregate.\<close>
theorem governance_per_node:
  assumes "bind_node_governance result approvals bindings = Inr g"
  shows "map ng_node_id (gp_nodes g) = map nr_node_id (pl_nodes result) \<and>
    executable_node_ids g = map nr_node_id (filter (\<lambda>n. pr_decision (nr_result n) \<noteq> DENY \<and>
       (pr_decision (nr_result n) = REQUIRE_APPROVAL \<longrightarrow> nr_node_id n \<in> set approvals) \<and>
       nr_node_id n \<in> eb_node_id ` set bindings) (pl_nodes result)) \<and>
    set approvals \<subseteq> set (map nr_node_id (pl_nodes result)) \<and> \<not> gp_aggregate_approval_available g"
proof -
  obtain ev where ev: "bind_evidence (map nr_node_id (pl_nodes result)) bindings [] = Inr ev"
    and g: "g = \<lparr>gp_nodes = map (govern_node approvals ev) (pl_nodes result), gp_aggregate_approval_available = False\<rparr>"
    and sub: "set approvals \<subseteq> set (map nr_node_id (pl_nodes result))"
    using assms by (auto simp: bind_node_governance_def Let_def bindE_Inr_iff checks split: if_splits)
  have "map_of ev k \<noteq> None \<longleftrightarrow> k \<in> eb_node_id ` set bindings" for k
    using bind_evidence_dom [OF ev] by (auto simp: dom_def)
  then show ?thesis using sub
    by (simp add: g executable_node_ids_def filter_map comp_def govern_node_executable)
qed

theorem governance_per_node_witness:
  "\<exists>g. bind_node_governance (evaluate_plan_policy (sample_engine READ) (sample_settings False) sample_plan)
      [''a''] [\<lparr>eb_node_id = ''a'', eb_evidence_reference_id = ''e''\<rparr>, \<lparr>eb_node_id = ''b'', eb_evidence_reference_id = ''f''\<rparr>]
      = Inr g \<and> executable_node_ids g = [''a''] \<and> \<not> gp_aggregate_approval_available g"
proof -
  let ?r = "evaluate_plan_policy (sample_engine READ) (sample_settings False) sample_plan"
  let ?b = "[\<lparr>eb_node_id = ''a'', eb_evidence_reference_id = ''e''\<rparr>, \<lparr>eb_node_id = ''b'', eb_evidence_reference_id = ''f''\<rparr>]"
  have "case bind_node_governance ?r [''a''] ?b of Inl e \<Rightarrow> False | Inr g \<Rightarrow> executable_node_ids g = [''a'']"
    by code_simp
  then obtain g where g: "bind_node_governance ?r [''a''] ?b = Inr g" "executable_node_ids g = [''a'']"
    by (blast dest: Inr_caseD)
  with governance_per_node [OF g(1)] show ?thesis by blast
qed

text \<open>The parity check against a frozen baseline reports no regression exactly when every baseline
  tool is still present and is at least as strongly governed: decision no weaker, tier no lower, an
  approval requirement not dropped, and no capability constraint lost.\<close>
theorem no_regression_iff_no_weaker:
  "governance_regressions snapshot baseline = [] \<longleftrightarrow>
     list_all (\<lambda>(tool, e). \<exists>ob. map_of snapshot tool = Some ob \<and>
        decision_strength (pj_decision e) \<le> decision_strength (pj_decision ob) \<and>
        pj_security_tier e \<le> pj_security_tier ob \<and>
        \<not> (pj_approval_requirement e \<noteq> ''none'' \<and> pj_approval_requirement ob = ''none'') \<and>
        set (pj_capability_keys e) \<subseteq> set (pj_capability_keys ob)) baseline"
  by (induction snapshot baseline rule: governance_regressions.induct)
    (auto simp: weaker_than_def not_less split: option.splits)

text \<open>On the shipped registries and a mutation-free configuration, all 17 public tools are allowed
  as reads with a derived scope, and every one of them is denied as soon as the caller asks for a
  mutation.\<close>
theorem public_surface_is_read_only:
  "\<exists>reg caps. default_tool_registry = Inr reg \<and> default_capability_registry = Inr caps \<and>
     length (READ_TOOLS reg) = 17 \<and>
     list_all (\<lambda>t. let en = \<lparr>en_registry = reg, en_capabilities = caps\<rparr>; s = sample_settings False in
        pr_decision (policy_evaluate en t s False None) = ALLOW \<and>
        pr_scope_derived (policy_evaluate en t s False None) \<and>
        pr_decision (policy_evaluate en t s True None) = DENY) (READ_TOOLS reg)"
proof -
  obtain reg where reg: "default_tool_registry = Inr reg" "length reg = 17"
    and tools: "list_all (\<lambda>d. td_mutation_class d = READ \<and> td_approval_requirement d = ''none'' \<and>
        td_application d = ''planner'' \<and> fst (classify_security_tier d) \<le> T2 \<and>
        \<not> bad_token (td_surface d)) (map snd reg)" using default_tools_evaluated by blast
  obtain caps where caps: "default_capability_registry = Inr caps"
    and cs: "list_all (\<lambda>c. sc_account_scope c = ''professional_session'' \<and>
        sc_container_scope c \<in> {''account'', ''plan''} \<and> sc_application c = ''planner'') (capability_definitions caps)"
    using default_capabilities_evaluated by blast
  let ?en = "\<lparr>en_registry = reg, en_capabilities = caps\<rparr>"
  let ?s = "sample_settings False"
  have tok: "\<not> bad_token ''planner''" by code_simp
  obtain defs where "tool_registry_init defs = Inr reg"
    using reg(1) [unfolded default_tool_registry_def bindE_Inr_iff] by blast
  then have defs: "map snd reg = defs" and r: "reg = map (\<lambda>d. (td_name d, d)) defs"
    and dist: "distinct (map td_name defs)" by (auto simp: tool_registry_init_Inr_iff comp_def)
  have names: "READ_TOOLS reg = map td_name defs"
    using tools by (simp add: READ_TOOLS_def tools_by_application_def defs list_all_iff filter_id_conv)
  have "pr_decision (policy_evaluate ?en (td_name d) ?s False None) = ALLOW \<and>
      pr_scope_derived (policy_evaluate ?en (td_name d) ?s False None) \<and>
      pr_decision (policy_evaluate ?en (td_name d) ?s True None) = DENY" if d: "d \<in> set defs" for d
  proof -
    have get: "tool_get reg (td_name d) = Inr d"
      using d dist by (simp add: tool_get_Inr_iff r map_of_map_key)
    have f: "td_mutation_class d = READ" "td_approval_requirement d = ''none''"
      "td_application d = ''planner''" "fst (classify_security_tier d) \<le> T2" "\<not> bad_token (td_surface d)"
      using tools d by (auto simp: defs list_all_iff)
    have "\<not> T3 \<le> fst (classify_security_tier d)"
      using f(4) by (auto simp: less_eq_SecurityTier_def)
    moreover have "\<exists>s. canonical_policy_scope d caps = Inr s"
      using cs tok f by (intro canonical_scope_exists) (auto simp: list_all_iff ALLOWED_CONTAINER_SCOPES_def)
    then obtain s where "canonical_policy_scope d caps = Inr s" by blast
    ultimately show ?thesis using get f
      by (simp add: policy_evaluate_cases assess_policy_scope_def policy_result_def sample_settings_def)
  qed
  moreover have "length (READ_TOOLS reg) = 17" using reg(2) by (simp add: names flip: defs)
  ultimately show ?thesis
    by (intro exI [of _ reg] exI [of _ caps] conjI reg(1) caps) (simp_all add: names list_all_iff Let_def)
qed

end
