(* ===== verification/Approval.thy ===== *)
(*  Approval digests and the single-use approval store. *)

theory Approval
  imports Policy Canonical_Json
begin

text \<open>
  \<open>approval_digest.py\<close> and \<open>approval_store.py\<close>. A mutating multi-node plan is bound to a digest of
  what the policy sees of every node; a grant for that digest is a row of the approval table, and
  consuming it sets \<open>consumed_at\<close> once. The table is an association from approval ids to rows: the
  SQL statements the module uses on it are a guarded insert (primary key and CHECK violations are the
  \<open>IntegrityError\<close>), a select by key and an update with a WHERE clause. Timestamps are stored as
  microsecond UTC texts that parse back to the same instant, so a row holds the instant. The clock
  and the random token are arguments. \<open>consumer_step\<close> is the same consumption cut at its database
  calls, so that several consumers interleave under SQLite's documented rule for
  \<open>BEGIN IMMEDIATE\<close>: at most one connection holds the write lock.
\<close>

subsection \<open>Plan digests\<close>

definition DIGEST_SCHEMA_VERSION :: string where
  "DIGEST_SCHEMA_VERSION = ''approval-plan-v1''"

definition DIGEST_ALGORITHM :: string where
  "DIGEST_ALGORITHM = ''sha256''"

record ApprovalPlanDigest =
  ad_schema_version :: string
  ad_algorithm :: string
  ad_value :: string
  ad_node_count :: int

definition approval_plan_digest_check :: "ApprovalPlanDigest \<Rightarrow> exn option" where
  "approval_plan_digest_check d = first_error [
     raise_if (ad_schema_version d \<noteq> DIGEST_SCHEMA_VERSION) (value_error ''unsupported approval plan digest schema''),
     raise_if (ad_algorithm d \<noteq> DIGEST_ALGORITHM) (value_error ''unsupported approval plan digest algorithm''),
     raise_if (\<not> is_digest (ad_value d)) (value_error ''approval plan digest must be lowercase SHA-256 hex''),
     raise_if (ad_node_count d < 2) (value_error ''approval plan digest requires a multi-node plan'')]"

definition scope_payload :: "PolicyScope \<Rightarrow> json" where
  "scope_payload s = JObj [
     (''application'', JStr (ps_application s)), (''surface'', JStr (ps_surface s)),
     (''account_scope'', JStr (account_scope_value (ps_account_scope s))),
     (''container_scope'', json_opt (ps_container_scope s)),
     (''mailbox_scope'', JStr (mailbox_scope_value (ps_mailbox_scope s))),
     (''resource_scope'', json_opt (map_option resource_scope_value (ps_resource_scope s)))]"

text \<open>What the digest binds of a node.\<close>

record ApprovalNode =
  an_node_id :: string
  an_tool :: string
  an_tool_version :: string
  an_mutation_class :: MutationClass
  an_security_tier :: SecurityTier
  an_effective_mutation :: bool
  an_scope :: PolicyScope
  an_depends_on :: "string list"

definition approval_node :: "engine \<Rightarrow> PolicyNode \<Rightarrow> ApprovalNode result" where
  "approval_node en n = (case tool_get (en_registry en) (pn_tool n) of
      Inl _ \<Rightarrow> Inl (ValueError ''approval plan contains unregistered tool: {}'' [pn_tool n])
    | Inr d \<Rightarrow> bindE (assess_policy_scope d (pn_scope n) (en_capabilities en)) (\<lambda>a.
        if \<not> sa_allowed a
        then Inl (ValueError ''approval plan contains invalid node scope: {}'' [pn_node_id n])
        else Inr \<lparr>an_node_id = pn_node_id n, an_tool = td_name d, an_tool_version = td_version d,
          an_mutation_class = td_mutation_class d, an_security_tier = fst (classify_security_tier d),
          an_effective_mutation = (td_mutation_class d \<noteq> READ \<or> pn_mutation n),
          an_scope = sa_effective_scope a, an_depends_on = sort (pn_depends_on n)\<rparr>))"

definition approval_node_payload :: "ApprovalNode \<Rightarrow> json" where
  "approval_node_payload v = JObj [
     (''node_id'', JStr (an_node_id v)), (''tool'', JStr (an_tool v)),
     (''tool_version'', JStr (an_tool_version v)),
     (''mutation_class'', JStr (mutation_value (an_mutation_class v))),
     (''security_tier'', JStr (tier_name (an_security_tier v))),
     (''effective_mutation'', JBool (an_effective_mutation v)),
     (''scope'', scope_payload (an_scope v)),
     (''depends_on'', JList (map JStr (an_depends_on v)))]"

fun approval_payload :: "PlanKind \<times> ApprovalNode list \<Rightarrow> json" where
  "approval_payload (kind, nodes) = JObj [
     (''schema_version'', JStr DIGEST_SCHEMA_VERSION),
     (''plan_kind'', JStr (plan_kind_value kind)),
     (''nodes'', JList (map approval_node_payload nodes))]"

definition approval_digest_value :: "PlanKind \<times> ApprovalNode list \<Rightarrow> string" where
  "approval_digest_value p = sha256_text (dumps True (approval_payload p))"

definition build_approval_plan_digest :: "engine \<Rightarrow> PolicyPlan \<Rightarrow> ApprovalPlanDigest result" where
  "build_approval_plan_digest en plan =
     (if length (pp_nodes plan) < 2 then Inl (value_error ''approval plan digest requires a multi-node plan'')
      else bindE (mapE (approval_node en) (pp_nodes plan)) (\<lambda>nodes.
        if \<not> list_ex an_effective_mutation nodes
        then Inl (value_error ''approval plan digest requires at least one mutating node'')
        else construct approval_plan_digest_check
          \<lparr>ad_schema_version = DIGEST_SCHEMA_VERSION, ad_algorithm = DIGEST_ALGORITHM,
           ad_value = approval_digest_value (pp_kind plan, nodes),
           ad_node_count = int (length (pp_nodes plan))\<rparr>))"

subsection \<open>The approval table\<close>

datatype ConsumptionStatus = CONSUMED | NOT_FOUND | DIGEST_MISMATCH | ALREADY_CONSUMED | EXPIRED

record ApprovalGrant =
  ag_approval_id :: string
  ag_digest :: ApprovalPlanDigest
  ag_created_at :: utc
  ag_expires_at :: "utc option"

record ApprovalConsumption =
  ac_status :: ConsumptionStatus
  ac_approval_id :: string
  ac_consumed_at :: "utc option"

record approval_row =
  row_digest :: ApprovalPlanDigest
  row_created_at :: utc
  row_expires_at :: "utc option"
  row_consumed_at :: "utc option"

type_synonym approval_table = "string \<rightharpoonup> approval_row"

definition aware :: "string \<Rightarrow> datetime \<Rightarrow> utc result" where
  "aware field_name d = require_aware (ValueError ''{} must be timezone-aware'' [field_name]) d"

definition id_char :: "char \<Rightarrow> bool" where
  "id_char c = (let n = (of_char c :: nat)
     in (48 \<le> n \<and> n \<le> 57) \<or> (65 \<le> n \<and> n \<le> 90) \<or> (97 \<le> n \<and> n \<le> 122) \<or> n = 45 \<or> n = 95)"

definition validate_approval_id :: "string \<Rightarrow> exn option" where
  "validate_approval_id v = first_error [
     raise_if (\<not> (16 \<le> length v \<and> length v \<le> 128))
       (value_error ''approval_id must be between 16 and 128 characters''),
     raise_if (\<not> list_all id_char v) (value_error ''approval_id must be opaque URL-safe ASCII'')]"

text \<open>INSERT: a duplicate primary key or a violated CHECK is the integrity error.\<close>

definition insert_grant :: "string \<Rightarrow> approval_row \<Rightarrow> approval_table \<Rightarrow> approval_table result" where
  "insert_grant k row t =
     (if t k \<noteq> None \<or> ad_node_count (row_digest row) < 2 then Inl IntegrityError else Inr (t(k \<mapsto> row)))"

text \<open>UPDATE ... WHERE: the rows changed are counted.\<close>

definition update_consumed :: "utc \<Rightarrow> string \<Rightarrow> ApprovalPlanDigest \<Rightarrow> approval_table \<Rightarrow> nat \<times> approval_table" where
  "update_consumed now k digest t = (case t k of
      None \<Rightarrow> (0, t)
    | Some row \<Rightarrow>
        if row_consumed_at row = None \<and> row_digest row = digest
        then (1, t(k \<mapsto> row\<lparr>row_consumed_at := Some now\<rparr>)) else (0, t))"

definition issue ::
  "string \<Rightarrow> datetime \<Rightarrow> approval_table \<Rightarrow> ApprovalPlanDigest \<Rightarrow> string option \<Rightarrow> datetime option \<Rightarrow>
     datetime option \<Rightarrow> ApprovalGrant result \<times> approval_table" where
  "issue token clock t digest approval_id created_at expires_at =
     (let resolved = (case approval_id of None \<Rightarrow> token | Some i \<Rightarrow> if i = [] then token else i) in
      case validate_approval_id resolved of Some e \<Rightarrow> (Inl e, t) | None \<Rightarrow>
      case aware ''created_at'' (case created_at of None \<Rightarrow> clock | Some c \<Rightarrow> c) of Inl e \<Rightarrow> (Inl e, t) | Inr created \<Rightarrow>
      case (case expires_at of None \<Rightarrow> Inr None | Some x \<Rightarrow> bindE (aware ''expires_at'' x) (\<lambda>u. Inr (Some u))) of
        Inl e \<Rightarrow> (Inl e, t) | Inr expires \<Rightarrow>
      if (case expires of None \<Rightarrow> False | Some x \<Rightarrow> x \<le> created)
      then (Inl (value_error ''expires_at must be later than created_at''), t)
      else case insert_grant resolved \<lparr>row_digest = digest, row_created_at = created,
                row_expires_at = expires, row_consumed_at = None\<rparr> t of
          Inl _ \<Rightarrow> (Inl (value_error ''approval_id already exists''), t)
        | Inr t' \<Rightarrow> (Inr \<lparr>ag_approval_id = resolved, ag_digest = digest, ag_created_at = created,
                        ag_expires_at = expires\<rparr>, t'))"

text \<open>What the transaction does with the row it fetched; the flag says whether it reached the commit.\<close>

definition decide ::
  "string \<Rightarrow> ApprovalPlanDigest \<Rightarrow> utc \<Rightarrow> approval_row option \<Rightarrow> approval_table \<Rightarrow>
     ApprovalConsumption \<times> approval_table" where
  "decide k digest consumed fetched t = (case fetched of
      None \<Rightarrow> (\<lparr>ac_status = NOT_FOUND, ac_approval_id = k, ac_consumed_at = None\<rparr>, t)
    | Some row \<Rightarrow>
        if row_digest row \<noteq> digest
        then (\<lparr>ac_status = DIGEST_MISMATCH, ac_approval_id = k, ac_consumed_at = None\<rparr>, t)
        else if row_consumed_at row \<noteq> None
        then (\<lparr>ac_status = ALREADY_CONSUMED, ac_approval_id = k, ac_consumed_at = row_consumed_at row\<rparr>, t)
        else if (case row_expires_at row of None \<Rightarrow> False | Some x \<Rightarrow> x \<le> consumed)
        then (\<lparr>ac_status = EXPIRED, ac_approval_id = k, ac_consumed_at = None\<rparr>, t)
        else (let (n, t') = update_consumed consumed k digest t in
          if n \<noteq> 1
          then (\<lparr>ac_status = ALREADY_CONSUMED, ac_approval_id = k, ac_consumed_at = None\<rparr>, t)
          else (\<lparr>ac_status = CONSUMED, ac_approval_id = k, ac_consumed_at = Some consumed\<rparr>, t')))"

definition consume ::
  "datetime \<Rightarrow> approval_table \<Rightarrow> string \<Rightarrow> ApprovalPlanDigest \<Rightarrow> datetime option \<Rightarrow>
     ApprovalConsumption result \<times> approval_table" where
  "consume clock t approval_id digest consumed_at =
     (case validate_approval_id approval_id of Some e \<Rightarrow> (Inl e, t) | None \<Rightarrow>
      case aware ''consumed_at'' (case consumed_at of None \<Rightarrow> clock | Some c \<Rightarrow> c) of Inl e \<Rightarrow> (Inl e, t)
      | Inr consumed \<Rightarrow> (let (c, t') = decide approval_id digest consumed (t approval_id) t in (Inr c, t')))"

subsection \<open>Sequences of store calls\<close>

datatype store_call =
    IssueCall string datetime ApprovalPlanDigest "string option" "datetime option" "datetime option"
  | ConsumeCall datetime string ApprovalPlanDigest "datetime option"

datatype store_reply = Issued "ApprovalGrant result" | Answered "ApprovalConsumption result"

fun store_step :: "store_call \<Rightarrow> approval_table \<Rightarrow> store_reply \<times> approval_table" where
  "store_step (IssueCall token clock digest i c x) t = (let (r, t') = issue token clock t digest i c x in (Issued r, t'))"
| "store_step (ConsumeCall clock i digest c) t = (let (r, t') = consume clock t i digest c in (Answered r, t'))"

fun run_calls :: "('c \<Rightarrow> 's \<Rightarrow> 'r \<times> 's) \<Rightarrow> 'c list \<Rightarrow> 's \<Rightarrow> 'r list \<times> 's" where
  "run_calls step [] s = ([], s)"
| "run_calls step (c # cs) s = (let (r, s') = step c s; (rs, s'') = run_calls step cs s' in (r # rs, s''))"

fun spends :: "store_reply \<Rightarrow> string \<Rightarrow> bool" where
  "spends (Issued _) k = False"
| "spends (Answered (Inl _)) k = False"
| "spends (Answered (Inr c)) k = (ac_status c = CONSUMED \<and> ac_approval_id c = k)"

definition spent :: "approval_table \<Rightarrow> string \<Rightarrow> bool" where
  "spent t k = (case t k of None \<Rightarrow> False | Some row \<Rightarrow> row_consumed_at row \<noteq> None)"

subsection \<open>Interleaved consumers\<close>

text \<open>Each consumer \<open>p\<close> runs \<open>consume\<close> for its own validated request, cut at the database calls:
  take the write lock, fetch the row, then decide, update and commit or roll back.\<close>

record consume_request =
  cq_approval_id :: string
  cq_digest :: ApprovalPlanDigest
  cq_consumed :: utc

datatype consumer_phase = Waiting | Began | Fetched "approval_row option" | Finished ApprovalConsumption

record store_state =
  ss_table :: approval_table
  ss_lock :: "nat option"
  ss_phase :: "nat \<Rightarrow> consumer_phase"

inductive consumer_step :: "(nat \<Rightarrow> consume_request) \<Rightarrow> store_state \<Rightarrow> store_state \<Rightarrow> bool"
  for req :: "nat \<Rightarrow> consume_request" where
  begin_immediate: "ss_phase s p = Waiting \<Longrightarrow> ss_lock s = None \<Longrightarrow>
     consumer_step req s (s\<lparr>ss_lock := Some p, ss_phase := (ss_phase s)(p := Began)\<rparr>)"
| fetch: "ss_phase s p = Began \<Longrightarrow>
     consumer_step req s (s\<lparr>ss_phase := (ss_phase s)(p := Fetched (ss_table s (cq_approval_id (req p))))\<rparr>)"
| finish: "ss_phase s p = Fetched row \<Longrightarrow>
     decide (cq_approval_id (req p)) (cq_digest (req p)) (cq_consumed (req p)) row (ss_table s) = (c, t') \<Longrightarrow>
     consumer_step req s
       (s\<lparr>ss_table := t', ss_lock := None, ss_phase := (ss_phase s)(p := Finished c)\<rparr>)"

definition initial_store :: "approval_table \<Rightarrow> store_state" where
  "initial_store t = \<lparr>ss_table = t, ss_lock = None, ss_phase = (\<lambda>_. Waiting)\<rparr>"

definition serve :: "(nat \<Rightarrow> consume_request) \<Rightarrow> nat \<Rightarrow> approval_table \<Rightarrow> ApprovalConsumption \<times> approval_table" where
  "serve req p t = decide (cq_approval_id (req p)) (cq_digest (req p)) (cq_consumed (req p))
     (t (cq_approval_id (req p))) t"

subsection \<open>Lemmas\<close>

lemma mutation_value_inj [simp]: "mutation_value m = mutation_value m' \<longleftrightarrow> m = m'"
  by (cases m; cases m') simp_all

lemma account_scope_value_inj [simp]: "account_scope_value a = account_scope_value a' \<longleftrightarrow> a = a'"
  by (cases a; cases a') simp_all

lemma mailbox_scope_value_inj [simp]: "mailbox_scope_value b = mailbox_scope_value b' \<longleftrightarrow> b = b'"
  by (cases b; cases b') simp_all

lemma resource_scope_value_inj [simp]: "resource_scope_value r = resource_scope_value r' \<longleftrightarrow> r = r'"
  by (cases r; cases r') simp_all

lemma plan_kind_value_inj [simp]: "plan_kind_value k = plan_kind_value k' \<longleftrightarrow> k = k'"
  by (cases k; cases k') simp_all

lemma map_option_resource_inj [simp]:
  "map_option resource_scope_value r = map_option resource_scope_value r' \<longleftrightarrow> r = r'"
  by (cases r; cases r') auto

lemma scope_payload_determines: "canon (scope_payload x) = canon (scope_payload y) \<Longrightarrow> x = y"
proof -
  assume h: "canon (scope_payload x) = canon (scope_payload y)"
  note f = canon_JObj_eqD [OF h [unfolded scope_payload_def]]
  show ?thesis
    using f [of "''application''"] f [of "''surface''"] f [of "''account_scope''"]
      f [of "''container_scope''"] f [of "''mailbox_scope''"] f [of "''resource_scope''"]
    by (cases x; cases y) simp
qed

lemma map_canon_JStr [simp]: "map canon (map JStr xs) = map JStr xs"
  by (induction xs) simp_all

lemma inj_JStr: "map JStr xs = map JStr ys \<longleftrightarrow> xs = ys"
  by (rule inj_map_eq_map) (simp add: inj_def)

lemma node_payload_determines: "canon (approval_node_payload x) = canon (approval_node_payload y) \<Longrightarrow> x = y"
proof -
  assume h: "canon (approval_node_payload x) = canon (approval_node_payload y)"
  note f = canon_JObj_eqD [OF h [unfolded approval_node_payload_def]]
  show ?thesis
    using f [of "''node_id''"] f [of "''tool''"] f [of "''tool_version''"] f [of "''mutation_class''"]
      f [of "''security_tier''"] f [of "''effective_mutation''"] f [of "''scope''"] f [of "''depends_on''"]
    by (cases x; cases y) (simp add: scope_payload_determines inj_JStr del: map_map)
qed

lemma approval_payload_determines: "canon (approval_payload x) = canon (approval_payload y) \<Longrightarrow> x = y"
proof -
  assume h: "canon (approval_payload x) = canon (approval_payload y)"
  obtain k ns k' ns' where xy: "x = (k, ns)" "y = (k', ns')" by fastforce
  note f = canon_JObj_eqD [OF h [unfolded xy approval_payload.simps]]
  have "map (\<lambda>v. canon (approval_node_payload v)) ns = map (\<lambda>v. canon (approval_node_payload v)) ns'"
    using f [of "''nodes''"] by (simp add: comp_def)
  then have "ns = ns'" by (rule map_injective) (auto simp: inj_def intro: node_payload_determines)
  then show ?thesis using f [of "''plan_kind''"] by (simp add: xy)
qed

interpretation approval: content_address approval_payload True approval_digest_value "\<lambda>_. True"
  by unfold_locales (simp_all add: approval_digest_value_def approval_payload_determines)

lemma build_digest_Inr_iff:
  "build_approval_plan_digest en plan = Inr d \<longleftrightarrow>
     (\<exists>nodes. 2 \<le> length (pp_nodes plan) \<and> mapE (approval_node en) (pp_nodes plan) = Inr nodes \<and>
        list_ex an_effective_mutation nodes \<and>
        d = \<lparr>ad_schema_version = DIGEST_SCHEMA_VERSION, ad_algorithm = DIGEST_ALGORITHM,
             ad_value = approval_digest_value (pp_kind plan, nodes), ad_node_count = int (length (pp_nodes plan))\<rparr>)"
  by (auto simp: build_approval_plan_digest_def bindE_Inr_iff construct_Inr_iff approval_plan_digest_check_def
      checks approval.digest_is_digest split: if_splits)

lemma approval_node_Inr_iff:
  "approval_node en n = Inr v \<longleftrightarrow>
     (\<exists>d a. tool_get (en_registry en) (pn_tool n) = Inr d \<and>
        assess_policy_scope d (pn_scope n) (en_capabilities en) = Inr a \<and> sa_allowed a \<and>
        v = \<lparr>an_node_id = pn_node_id n, an_tool = td_name d, an_tool_version = td_version d,
          an_mutation_class = td_mutation_class d, an_security_tier = fst (classify_security_tier d),
          an_effective_mutation = (td_mutation_class d \<noteq> READ \<or> pn_mutation n),
          an_scope = sa_effective_scope a, an_depends_on = sort (pn_depends_on n)\<rparr>)"
  by (auto simp: approval_node_def bindE_Inr_iff split: sum.splits if_splits)

text \<open>A store in which spending is final: whoever spends a key found it unspent and leaves it spent.\<close>

locale single_use =
  fixes step :: "'c \<Rightarrow> 's \<Rightarrow> 'r \<times> 's"
    and spends_key :: "'r \<Rightarrow> 'k \<Rightarrow> bool"
    and spent_key :: "'s \<Rightarrow> 'k \<Rightarrow> bool"
  assumes spending: "step c s = (r, s') \<Longrightarrow> spends_key r k \<Longrightarrow> \<not> spent_key s k \<and> spent_key s' k"
    and final: "step c s = (r, s') \<Longrightarrow> spent_key s k \<Longrightarrow> spent_key s' k"
begin

lemma run_spends:
  "run_calls step cs s = (rs, s') \<Longrightarrow>
     length (filter (\<lambda>r. spends_key r k) rs) \<le> (if spent_key s k then 0 else 1) \<and>
     (spent_key s k \<or> list_ex (\<lambda>r. spends_key r k) rs \<longrightarrow> spent_key s' k)"
proof (induction cs arbitrary: s rs)
  case (Cons c cs)
  obtain r s1 where r: "step c s = (r, s1)" by fastforce
  obtain rs1 where rs1: "run_calls step cs s1 = (rs1, s')" "rs = r # rs1"
    using Cons.prems r by (auto split: prod.splits)
  note IH = Cons.IH [OF rs1(1)]
  show ?case
  proof (cases "spends_key r k")
    case True
    with spending [OF r] IH show ?thesis by (simp add: rs1(2))
  next
    case False
    with final [OF r] IH show ?thesis by (auto simp: rs1(2) split: if_splits)
  qed
qed simp

lemma at_most_once: "run_calls step cs s = (rs, s') \<Longrightarrow> length (filter (\<lambda>r. spends_key r k) rs) \<le> 1"
  using run_spends [of cs s rs s' k] by (auto split: if_splits)

lemma two_spenders:
  assumes "run_calls step cs s = (rs, s')" "i < length rs" "j < length rs"
    and "spends_key (rs ! i) k" "spends_key (rs ! j) k"
  shows "i = j"
proof (rule ccontr)
  assume "i \<noteq> j"
  have "{i, j} \<subseteq> {n. n < length rs \<and> spends_key (rs ! n) k}" using assms by simp
  moreover have "finite {n. n < length rs \<and> spends_key (rs ! n) k}" by simp
  ultimately have "card {i, j} \<le> length (filter (\<lambda>r. spends_key r k) rs)"
    unfolding length_filter_conv_card by (rule card_mono [rotated])
  with \<open>i \<noteq> j\<close> at_most_once [OF assms(1), of k] show False by simp
qed

end

lemma decide_cases:
  "decide k d now (t k) t = (case t k of
      None \<Rightarrow> (\<lparr>ac_status = NOT_FOUND, ac_approval_id = k, ac_consumed_at = None\<rparr>, t)
    | Some row \<Rightarrow>
        if row_digest row \<noteq> d then (\<lparr>ac_status = DIGEST_MISMATCH, ac_approval_id = k, ac_consumed_at = None\<rparr>, t)
        else if row_consumed_at row \<noteq> None
        then (\<lparr>ac_status = ALREADY_CONSUMED, ac_approval_id = k, ac_consumed_at = row_consumed_at row\<rparr>, t)
        else if (case row_expires_at row of None \<Rightarrow> False | Some x \<Rightarrow> x \<le> now)
        then (\<lparr>ac_status = EXPIRED, ac_approval_id = k, ac_consumed_at = None\<rparr>, t)
        else (\<lparr>ac_status = CONSUMED, ac_approval_id = k, ac_consumed_at = Some now\<rparr>,
              t(k \<mapsto> row\<lparr>row_consumed_at := Some now\<rparr>)))"
  by (simp add: decide_def update_consumed_def split: option.splits)

lemma decide_spending:
  assumes "decide k d now (t k) t = (c, t')"
  shows "ac_approval_id c = k" "ac_status c = CONSUMED \<Longrightarrow> ac_approval_id c = i \<Longrightarrow> \<not> spent t i \<and> spent t' i"
    "spent t j \<Longrightarrow> spent t' j" "ac_status c \<noteq> CONSUMED \<Longrightarrow> t' = t"
  using assms by (auto simp: decide_cases spent_def split: option.splits if_splits)

lemma issue_spent: "issue token clock t d i c x = (r, t') \<Longrightarrow> spent t' j = spent t j"
  by (auto simp: issue_def Let_def insert_grant_def spent_def split: option.splits sum.splits if_splits)

lemma consume_table:
  "consume clock t k d at = (r, t') \<Longrightarrow>
     (\<exists>e. r = Inl e \<and> t' = t) \<or> (\<exists>c now. r = Inr c \<and> decide k d now (t k) t = (c, t'))"
  by (auto simp: consume_def split: option.splits sum.splits prod.splits)

interpretation store: single_use store_step spends spent
proof
  fix call s r s' k
  assume h: "store_step call s = (r, s')" and sp: "spends r k"
  then obtain clock i d at x where "call = ConsumeCall clock i d at" "consume clock s i d at = (x, s')" "r = Answered x"
    by (cases call) (auto split: prod.splits)
  with consume_table [of clock s i d at x s'] sp show "\<not> spent s k \<and> spent s' k"
    by (auto dest: decide_spending)
next
  fix call s r s' k
  assume h: "store_step call s = (r, s')" and sp: "spent s k"
  then show "spent s' k"
    by (cases call) (auto split: prod.splits dest!: consume_table dest: issue_spent decide_spending(3))
qed

interpretation served: single_use "serve req" "\<lambda>c k. ac_status c = CONSUMED \<and> ac_approval_id c = k" spent
  for req
  by unfold_locales (auto simp: serve_def dest: decide_spending)

text \<open>The lock protects the transaction: only its holder is inside one, and what the holder fetched is
  still in the table.\<close>

definition lock_invariant :: "(nat \<Rightarrow> consume_request) \<Rightarrow> store_state \<Rightarrow> bool" where
  "lock_invariant req s \<longleftrightarrow> (\<forall>p.
     (ss_phase s p = Began \<or> (\<exists>row. ss_phase s p = Fetched row) \<longleftrightarrow> ss_lock s = Some p) \<and>
     (\<forall>row. ss_phase s p = Fetched row \<longrightarrow> row = ss_table s (cq_approval_id (req p))))"

lemma lock_invariantD:
  "lock_invariant req s \<Longrightarrow> ss_phase s p = Began \<Longrightarrow> ss_lock s = Some p"
  "lock_invariant req s \<Longrightarrow> ss_phase s p = Fetched row \<Longrightarrow> ss_lock s = Some p"
  "lock_invariant req s \<Longrightarrow> ss_phase s p = Fetched row \<Longrightarrow> row = ss_table s (cq_approval_id (req p))"
  by (auto simp: lock_invariant_def)

lemma lock_invariant_initial: "lock_invariant req (initial_store t)"
  by (simp add: lock_invariant_def initial_store_def)

lemma lock_invariant_step:
  assumes "consumer_step req s s'" "lock_invariant req s"
  shows "lock_invariant req s'"
  using assms
proof (cases rule: consumer_step.cases)
  case (begin_immediate p)
  with assms(2) show ?thesis by (auto simp: lock_invariant_def)
next
  case (fetch p)
  with assms(2) have "ss_lock s = Some p" by (auto dest: lock_invariantD)
  with fetch assms(2) show ?thesis by (auto simp: lock_invariant_def)
next
  case (finish p row c t')
  with assms(2) have "ss_lock s = Some p" by (auto dest: lock_invariantD)
  then have "q \<noteq> p \<Longrightarrow> ss_phase s q \<noteq> Began \<and> (\<forall>r. ss_phase s q \<noteq> Fetched r)" for q
    using assms(2) by (auto dest: lock_invariantD)
  with finish show ?thesis by (auto simp: lock_invariant_def)
qed

lemma run_calls_snoc:
  "run_calls step (cs @ [c]) s = (let (rs, s') = run_calls step cs s; (r, s'') = step c s' in (rs @ [r], s''))"
  by (induction cs arbitrary: s) (auto split: prod.splits)

lemma run_calls_length: "run_calls step cs s = (rs, s') \<Longrightarrow> length rs = length cs"
  by (induction cs arbitrary: s rs) (auto split: prod.splits)

text \<open>\<open>served_in_order\<close>: the finished consumers, in the order of their commits, with the replies and
  the table that serving them one after the other gives.\<close>

definition served_in_order ::
  "(nat \<Rightarrow> consume_request) \<Rightarrow> approval_table \<Rightarrow> store_state \<Rightarrow> nat list \<Rightarrow> ApprovalConsumption list \<Rightarrow> bool" where
  "served_in_order req t s ps cs \<longleftrightarrow> distinct ps \<and>
     (\<forall>p c. (p, c) \<in> set (zip ps cs) \<longleftrightarrow> ss_phase s p = Finished c) \<and>
     run_calls (serve req) ps t = (cs, ss_table s)"

lemma consumers_serial:
  "(consumer_step req)\<^sup>*\<^sup>* (initial_store t) s \<Longrightarrow>
     lock_invariant req s \<and> (\<exists>ps cs. served_in_order req t s ps cs)"
proof (induction rule: rtranclp_induct)
  case base
  have "served_in_order req t (initial_store t) [] []" by (simp add: served_in_order_def initial_store_def)
  then show ?case using lock_invariant_initial by blast
next
  case (step s s')
  then obtain ps cs where inv: "lock_invariant req s" and o: "served_in_order req t s ps cs" by blast
  have inv': "lock_invariant req s'" using step.hyps(2) inv by (rule lock_invariant_step)
  have "\<exists>ps cs. served_in_order req t s' ps cs"
    using step.hyps(2)
  proof (cases rule: consumer_step.cases)
    case (begin_immediate p)
    then have "served_in_order req t s' ps cs" using o by (auto simp: served_in_order_def)
    then show ?thesis by blast
  next
    case (fetch p)
    then have "served_in_order req t s' ps cs" using o by (auto simp: served_in_order_def)
    then show ?thesis by blast
  next
    case (finish p row c t')
    have row: "row = ss_table s (cq_approval_id (req p))" using inv finish(2) by (rule lock_invariantD(3))
    have len: "length cs = length ps" using o by (auto simp: served_in_order_def dest: run_calls_length)
    have new: "p \<notin> set ps"
    proof
      assume "p \<in> set ps"
      then obtain d where "(p, d) \<in> set (zip ps cs)" using len by (metis in_set_impl_in_set_zip1)
      then have "ss_phase s p = Finished d" using o by (simp add: served_in_order_def)
      with finish(2) show False by simp
    qed
    have "serve req p (ss_table s) = (c, t')" using finish(3) by (simp add: serve_def row)
    then have "run_calls (serve req) (ps @ [p]) t = (cs @ [c], t')"
      using o by (simp add: run_calls_snoc served_in_order_def)
    moreover have "set (zip (ps @ [p]) (cs @ [c])) = insert (p, c) (set (zip ps cs))" using len by simp
    moreover have "(p, d) \<notin> set (zip ps cs)" for d using new by (auto dest: set_zip_leftD)
    ultimately have "served_in_order req t s' (ps @ [p]) (cs @ [c])"
      using o finish(1) new by (auto simp: served_in_order_def)
    then show ?thesis by blast
  qed
  with inv' show ?case by blast
qed

lemma served_once:
  assumes o: "served_in_order req t s ps cs"
    and p: "ss_phase s p = Finished c" "ac_status c = CONSUMED" "ac_approval_id c = k"
    and q: "ss_phase s q = Finished d" "ac_status d = CONSUMED" "ac_approval_id d = k"
  shows "p = q"
proof -
  have z: "(p, c) \<in> set (zip ps cs)" "(q, d) \<in> set (zip ps cs)" and run: "run_calls (serve req) ps t = (cs, ss_table s)"
    using o p(1) q(1) by (auto simp: served_in_order_def)
  obtain i where i: "i < length ps" "i < length cs" "ps ! i = p" "cs ! i = c" using z(1) by (auto simp: in_set_zip)
  obtain j where j: "j < length ps" "j < length cs" "ps ! j = q" "cs ! j = d" using z(2) by (auto simp: in_set_zip)
  have "i = j"
    using served.two_spenders [OF run i(2) j(2), of k] p q i j by simp
  with i j show ?thesis by simp
qed

lemma never_stuck:
  assumes inv: "lock_invariant req s" and unfinished: "\<not> (\<exists>c. ss_phase s p = Finished c)"
  shows "\<exists>s'. consumer_step req s s'"
proof (cases "ss_lock s")
  case None
  with inv have "ss_phase s p = Waiting"
    using unfinished by (cases "ss_phase s p") (auto dest: lock_invariantD)
  then show ?thesis using None by (blast intro: consumer_step.begin_immediate)
next
  case (Some q)
  with inv have "ss_phase s q = Began \<or> (\<exists>row. ss_phase s q = Fetched row)" by (simp add: lock_invariant_def)
  then show ?thesis
  proof
    assume "ss_phase s q = Began"
    then show ?thesis by (blast intro: consumer_step.fetch)
  next
    assume "\<exists>row. ss_phase s q = Fetched row"
    then obtain row where "ss_phase s q = Fetched row" by blast
    moreover obtain c t' where "decide (cq_approval_id (req q)) (cq_digest (req q)) (cq_consumed (req q)) row (ss_table s) = (c, t')"
      by fastforce
    ultimately show ?thesis by (blast intro: consumer_step.finish)
  qed
qed

definition sample_digest :: ApprovalPlanDigest where
  "sample_digest = \<lparr>ad_schema_version = DIGEST_SCHEMA_VERSION, ad_algorithm = DIGEST_ALGORITHM,
     ad_value = replicate 64 CHR ''0'', ad_node_count = 2\<rparr>"

definition sample_id :: string where
  "sample_id = replicate 16 CHR ''a''"

definition sample_row :: approval_row where
  "sample_row = \<lparr>row_digest = sample_digest, row_created_at = 0, row_expires_at = Some 10, row_consumed_at = None\<rparr>"

lemma sample_id_valid: "validate_approval_id sample_id = None"
  by code_simp

subsection \<open>Properties\<close>

text \<open>C33. An approval digest binds the plan it was built for: when two plans, each built against its own
  registries, have one digest value, they are of one kind and agree node by node on everything the
  policy decides on (node id, tool name and version, mutation class, tier, effective mutation,
  effective scope and sorted dependencies), unless their canonical texts collide under SHA-256. So a
  tool changed after the approval was given invalidates it.\<close>
theorem approval_digest_binds_plan:
  assumes "build_approval_plan_digest en plan = Inr d" and "build_approval_plan_digest en' plan' = Inr d'"
    and "ad_value d = ad_value d'"
  shows "\<exists>ns ns'. mapE (approval_node en) (pp_nodes plan) = Inr ns \<and>
    mapE (approval_node en') (pp_nodes plan') = Inr ns' \<and>
    (pp_kind plan = pp_kind plan' \<and> ns = ns' \<or>
     digest_collision (dumps True (approval_payload (pp_kind plan, ns)))
       (dumps True (approval_payload (pp_kind plan', ns'))))"
  using assms approval.digest_determines by (fastforce simp: build_digest_Inr_iff)

definition sample_mutating_plan :: PolicyPlan where
  "sample_mutating_plan = \<lparr>pp_kind = DAG, pp_nodes = [
     \<lparr>pn_node_id = ''a'', pn_tool = ''planner_x'', pn_scope = None, pn_mutation = False, pn_depends_on = []\<rparr>,
     \<lparr>pn_node_id = ''b'', pn_tool = ''planner_x'', pn_scope = None, pn_mutation = True, pn_depends_on = [''a'']\<rparr>]\<rparr>"

lemma sample_plan_nodes:
  "\<exists>ns. mapE (approval_node (sample_engine UPDATE)) (pp_nodes sample_mutating_plan) = Inr ns \<and> list_ex an_effective_mutation ns"
proof (rule Inr_caseD)
  show "case mapE (approval_node (sample_engine UPDATE)) (pp_nodes sample_mutating_plan) of
      Inl e \<Rightarrow> False | Inr ns \<Rightarrow> list_ex an_effective_mutation ns"
    by code_simp
qed

theorem approval_digest_binds_plan_witness:
  "\<exists>d ns. build_approval_plan_digest (sample_engine UPDATE) sample_mutating_plan = Inr d \<and>
     mapE (approval_node (sample_engine UPDATE)) (pp_nodes sample_mutating_plan) = Inr ns \<and> length ns = 2"
proof -
  have n: "length (pp_nodes sample_mutating_plan) = 2" by (simp add: sample_mutating_plan_def)
  obtain d where d: "build_approval_plan_digest (sample_engine UPDATE) sample_mutating_plan = Inr d"
    using sample_plan_nodes n by (auto simp: build_digest_Inr_iff)
  from approval_digest_binds_plan [OF d d refl] obtain ns where
    ns: "mapE (approval_node (sample_engine UPDATE)) (pp_nodes sample_mutating_plan) = Inr ns" by blast
  then have "length ns = 2" using n by (auto simp: mapE_Inr_iff dest: list_all2_lengthD)
  with d ns show ?thesis by blast
qed

text \<open>A digest is built exactly for the plans that may be approved: at least two nodes, every tool
  registered, every node scope absent or canonical, and at least one node that mutates by its tool or
  by its flag. The digest then counts the nodes and is well-formed.\<close>
theorem approval_digest_exists_iff:
  "(\<exists>d. build_approval_plan_digest en plan = Inr d \<and> approval_plan_digest_check d = None \<and>
      ad_node_count d = int (length (pp_nodes plan))) \<longleftrightarrow>
     2 \<le> length (pp_nodes plan) \<and>
     list_all (\<lambda>n. \<exists>t c. tool_get (en_registry en) (pn_tool n) = Inr t \<and>
        canonical_policy_scope t (en_capabilities en) = Inr c \<and> pn_scope n \<in> {None, Some c}) (pp_nodes plan) \<and>
     list_ex (\<lambda>n. pn_mutation n \<or> (\<exists>t. tool_get (en_registry en) (pn_tool n) = Inr t \<and>
        td_mutation_class t \<noteq> READ)) (pp_nodes plan)"
proof -
  have node: "(\<exists>v. approval_node en n = Inr v) \<longleftrightarrow>
      (\<exists>t c. tool_get (en_registry en) (pn_tool n) = Inr t \<and>
        canonical_policy_scope t (en_capabilities en) = Inr c \<and> pn_scope n \<in> {None, Some c})" for n
    using scope_allowed_iff [of _ "pn_scope n" "en_capabilities en"] unfolding approval_node_Inr_iff by blast
  have eff: "an_effective_mutation v \<longleftrightarrow> pn_mutation n \<or>
      (\<exists>t. tool_get (en_registry en) (pn_tool n) = Inr t \<and> td_mutation_class t \<noteq> READ)"
    if "approval_node en n = Inr v" for n v
    using that by (auto simp: approval_node_Inr_iff)
  have ex: "list_ex an_effective_mutation vs \<longleftrightarrow> list_ex (\<lambda>n. pn_mutation n \<or>
      (\<exists>t. tool_get (en_registry en) (pn_tool n) = Inr t \<and> td_mutation_class t \<noteq> READ)) ns"
    if "list_all2 (\<lambda>n v. approval_node en n = Inr v) ns vs" for ns vs
    using that by (induction rule: list_all2_induct) (simp_all add: eff)
  have all: "(\<exists>vs. list_all2 (\<lambda>n v. approval_node en n = Inr v) ns vs) \<longleftrightarrow>
      list_all (\<lambda>n. \<exists>v. approval_node en n = Inr v) ns" for ns
    by (induction ns) (auto simp: list_all2_Cons1)
  have "(\<exists>d. build_approval_plan_digest en plan = Inr d \<and> approval_plan_digest_check d = None \<and>
      ad_node_count d = int (length (pp_nodes plan))) \<longleftrightarrow> (\<exists>d. build_approval_plan_digest en plan = Inr d)"
    by (auto simp: build_digest_Inr_iff approval_plan_digest_check_def checks approval.digest_is_digest)
  also have "\<dots> \<longleftrightarrow> 2 \<le> length (pp_nodes plan) \<and>
      (\<exists>vs. list_all2 (\<lambda>n v. approval_node en n = Inr v) (pp_nodes plan) vs) \<and>
      list_ex (\<lambda>n. pn_mutation n \<or> (\<exists>t. tool_get (en_registry en) (pn_tool n) = Inr t \<and>
        td_mutation_class t \<noteq> READ)) (pp_nodes plan)"
    unfolding build_digest_Inr_iff mapE_Inr_iff using ex by blast
  finally show ?thesis unfolding all node .
qed

text \<open>One consumption is decided by the stored row alone and changes at most that row: with a valid
  id and an aware time it reports consumed exactly when the row exists, carries the presented digest,
  was never consumed and has not expired; then exactly its \<open>consumed_at\<close> is set. In every other case
  the table is unchanged.\<close>
theorem consume_exact:
  assumes "validate_approval_id k = None"
  shows "\<exists>c. fst (consume clock t k d (Some (Aware now off))) = Inr c \<and>
    (ac_status c = CONSUMED \<longleftrightarrow> (\<exists>row. t k = Some row \<and> row_digest row = d \<and> row_consumed_at row = None \<and>
        (case row_expires_at row of None \<Rightarrow> True | Some x \<Rightarrow> now < x))) \<and>
    (ac_status c = NOT_FOUND \<longleftrightarrow> t k = None) \<and>
    (ac_status c = ALREADY_CONSUMED \<longleftrightarrow>
        (\<exists>row. t k = Some row \<and> row_digest row = d \<and> row_consumed_at row \<noteq> None)) \<and>
    snd (consume clock t k d (Some (Aware now off))) =
      (if ac_status c = CONSUMED then t(k \<mapsto> (the (t k))\<lparr>row_consumed_at := Some now\<rparr>) else t)"
proof -
  obtain c t' where dc: "decide k d now (t k) t = (c, t')" by fastforce
  then have e: "consume clock t k d (Some (Aware now off)) = (Inr c, t')"
    using assms by (simp add: consume_def aware_def)
  show ?thesis unfolding e fst_conv snd_conv
    by (rule exI [of _ c]) (use dc in \<open>auto simp: decide_cases not_le split: option.splits if_splits\<close>)
qed

theorem consume_exact_witness:
  "validate_approval_id sample_id = None \<and>
   (\<exists>c. fst (consume (Naive 0) [sample_id \<mapsto> sample_row] sample_id sample_digest (Some (Aware 9 0))) = Inr c \<and>
      ac_status c = CONSUMED) \<and>
   (\<exists>c. fst (consume (Naive 0) [sample_id \<mapsto> sample_row] sample_id sample_digest (Some (Aware 10 0))) = Inr c \<and>
      ac_status c \<noteq> CONSUMED)"
  using consume_exact [OF sample_id_valid, of "Naive 0" "[sample_id \<mapsto> sample_row]" sample_digest 9 0]
    consume_exact [OF sample_id_valid, of "Naive 0" "[sample_id \<mapsto> sample_row]" sample_digest 10 0]
    sample_id_valid by (auto simp: sample_row_def)

text \<open>C14. An approval is spent at most once: in any sequence of issue and consume calls on any table, at
  most one reply reports an approval id as consumed, none does when the row was consumed before, and
  afterwards the row is consumed for good; issuing again never revives it.\<close>
theorem approvals_single_use:
  assumes "run_calls store_step calls t = (replies, t')"
  shows "length (filter (\<lambda>r. spends r k) replies) \<le> (if spent t k then 0 else 1) \<and>
    (spent t k \<or> list_ex (\<lambda>r. spends r k) replies \<longrightarrow> spent t' k)"
  using assms by (rule store.run_spends)

theorem approvals_single_use_witness:
  "\<exists>rs t'. run_calls store_step
      [ConsumeCall (Aware 1 0) sample_id sample_digest None, ConsumeCall (Aware 2 0) sample_id sample_digest None]
      [sample_id \<mapsto> sample_row] = (rs, t') \<and>
     map (\<lambda>r. spends r sample_id) rs = [True, False] \<and> spent t' sample_id"
proof -
  let ?calls = "[ConsumeCall (Aware 1 0) sample_id sample_digest None, ConsumeCall (Aware 2 0) sample_id sample_digest None]"
  let ?t = "[sample_id \<mapsto> sample_row]"
  obtain rs t' where r: "run_calls store_step ?calls ?t = (rs, t')" by fastforce
  then have m: "map (\<lambda>r. spends r sample_id) rs = [True, False]"
    by (auto simp: consume_def sample_id_valid aware_def decide_def update_consumed_def sample_row_def split: prod.splits)
  then have "list_ex (\<lambda>r. spends r sample_id) rs" by (auto simp: Cons_eq_map_conv map_eq_Cons_conv)
  then have "spent t' sample_id" using approvals_single_use [OF r, of sample_id] by simp
  with r m show ?thesis by (intro exI [of _ rs] exI [of _ t'] conjI)
qed

text \<open>C8. Concurrent consumers cannot spend an approval twice: however any number of consumers interleave
  their lock, fetch and commit steps, the replies and the table are those of serving the finished
  ones one after the other in some order; no two of them consume one approval; and as long as some
  consumer has not finished, some step is possible.\<close>
theorem concurrent_consumers_serialize:
  assumes "(consumer_step req)\<^sup>*\<^sup>* (initial_store t) s"
  shows "(\<exists>ps cs. served_in_order req t s ps cs) \<and>
    (ss_phase s p = Finished c \<and> ac_status c = CONSUMED \<and> ss_phase s q = Finished d \<and> ac_status d = CONSUMED \<and>
       ac_approval_id c = ac_approval_id d \<longrightarrow> p = q) \<and>
    ((\<exists>r. ss_phase s p = Finished r) \<or> (\<exists>s'. consumer_step req s s'))"
  using consumers_serial [OF assms] served_once [of req t s _ _ p c _ q d] never_stuck [of req s p] by blast

theorem concurrent_consumers_serialize_witness:
  "\<exists>s c. (consumer_step (\<lambda>_. \<lparr>cq_approval_id = sample_id, cq_digest = sample_digest, cq_consumed = 1\<rparr>))\<^sup>*\<^sup>*
       (initial_store [sample_id \<mapsto> sample_row]) s \<and>
     ss_phase s 7 = Finished c \<and> ac_status c = CONSUMED \<and>
     \<not> (\<exists>d. ss_phase s 8 = Finished d \<and> ac_status d = CONSUMED \<and> ac_approval_id d = ac_approval_id c)"
proof -
  let ?req = "\<lambda>_::nat. \<lparr>cq_approval_id = sample_id, cq_digest = sample_digest, cq_consumed = 1\<rparr>"
  let ?s0 = "initial_store [sample_id \<mapsto> sample_row]"
  let ?s1 = "?s0\<lparr>ss_lock := Some 7, ss_phase := (ss_phase ?s0)(7 := Began)\<rparr>"
  let ?s2 = "?s1\<lparr>ss_phase := (ss_phase ?s1)(7 := Fetched (Some sample_row))\<rparr>"
  obtain c t' where d: "decide sample_id sample_digest 1 (Some sample_row) [sample_id \<mapsto> sample_row] = (c, t')"
    "ac_status c = CONSUMED"
    by (simp add: decide_def update_consumed_def sample_row_def)
  let ?s3 = "?s2\<lparr>ss_table := t', ss_lock := None, ss_phase := (ss_phase ?s2)(7 := Finished c)\<rparr>"
  have s01: "consumer_step ?req ?s0 ?s1"
    by (rule consumer_step.begin_immediate) (simp_all add: initial_store_def)
  have s12: "consumer_step ?req ?s1 ?s2"
    using consumer_step.fetch [of ?s1 7 ?req] by (simp add: initial_store_def)
  have s23: "consumer_step ?req ?s2 ?s3"
    using consumer_step.finish [of ?s2 7 "Some sample_row" ?req c t'] d(1) by (simp add: initial_store_def)
  have run: "(consumer_step ?req)\<^sup>*\<^sup>* ?s0 ?s3" 
    by (rule converse_rtranclp_into_rtranclp [of "consumer_step ?req", OF s01 converse_rtranclp_into_rtranclp [of "consumer_step ?req", OF s12 r_into_rtranclp [of "consumer_step ?req", OF s23]]])
  have ph: "ss_phase ?s3 7 = Finished c" by simp
  have "\<not> (\<exists>e. ss_phase ?s3 8 = Finished e \<and> ac_status e = CONSUMED \<and> ac_approval_id e = ac_approval_id c)"
  proof (rule notI, elim exE conjE)
    fix e assume "ss_phase ?s3 8 = Finished e" "ac_status e = CONSUMED" "ac_approval_id e = ac_approval_id c"
    with concurrent_consumers_serialize [OF run, of 7 c 8 e] ph d(2) have "(7::nat) = 8" by metis
    then show False by simp
  qed
  with run ph d(2) show ?thesis by (intro exI [of _ ?s3] exI [of _ c] conjI)
qed

end
