(* ===== verification/State_Identity.thy ===== *)
(*  State identities of m365_mcp/state_identity.py. *)

theory State_Identity
  imports Registries Canonical_Json
begin

text \<open>
  \<open>state_identity.py\<close>: the identity of an account, container or resource. \<open>StateIdentity\<close> is the
  dataclass, \<open>state_identity_check\<close> its \<open>__post_init__\<close>, \<open>identity_digest\<close> the digest of its
  canonical payload. The constructors discard the raw external identifier and keep its SHA-256.
  The results: which objects construct, and that the digest determines the identity, and with it
  the external identifiers it was built from, up to an explicit SHA-256 collision.
\<close>

subsection \<open>Definitions\<close>

datatype StateIdentityLevel = ACCOUNT_LEVEL | CONTAINER_LEVEL | RESOURCE_LEVEL

fun level_value :: "StateIdentityLevel \<Rightarrow> string" where
  "level_value ACCOUNT_LEVEL = ''ACCOUNT''"
| "level_value CONTAINER_LEVEL = ''CONTAINER''"
| "level_value RESOURCE_LEVEL = ''RESOURCE''"

definition digest_external_id :: "string \<Rightarrow> string result" where
  "digest_external_id value =
     (if strip value = [] then Inl (value_error ''external identity must not be empty'')
      else Inr (sha256_text (strip value)))"

definition semantic_kind_check :: "string \<Rightarrow> string \<Rightarrow> exn option" where
  "semantic_kind_check field_name value =
     raise_if (strip value = [] \<or> has_space (strip value))
       (ValueError ''{} must be a non-empty semantic token'' [field_name])"

definition hex_digest_check :: "string \<Rightarrow> string \<Rightarrow> exn option" where
  "hex_digest_check field_name value =
     raise_if (\<not> is_digest value) (ValueError ''{} must be lowercase SHA-256 hex'' [field_name])"

record StateIdentity =
  si_application :: ApplicationKey
  si_account_scope :: string
  si_level :: StateIdentityLevel
  si_container_kind :: "string option"
  si_container_id_digest :: "string option"
  si_resource_kind :: "string option"
  si_resource_id_digest :: "string option"

definition state_identity_check :: "StateIdentity \<Rightarrow> exn option" where
  "state_identity_check s =
     first_error [semantic_kind_check ''account_scope'' (si_account_scope s),
        if si_level s = ACCOUNT_LEVEL then
          raise_if (si_container_kind s \<noteq> None \<or> si_container_id_digest s \<noteq> None \<or>
              si_resource_kind s \<noteq> None \<or> si_resource_id_digest s \<noteq> None)
            (value_error ''account identity cannot carry container/resource fields'')
        else (case (si_container_kind s, si_container_id_digest s) of
            (Some ck, Some cd) \<Rightarrow>
              first_error [semantic_kind_check ''container_kind'' ck, hex_digest_check ''container_id_digest'' cd,
                (if si_level s = CONTAINER_LEVEL then
                   raise_if (si_resource_kind s \<noteq> None \<or> si_resource_id_digest s \<noteq> None)
                     (value_error ''container identity cannot carry resource fields'')
                 else (case (si_resource_kind s, si_resource_id_digest s) of
                     (Some rk, Some rd) \<Rightarrow>
                       first_error [semantic_kind_check ''resource_kind'' rk, hex_digest_check ''resource_id_digest'' rd]
                   | _ \<Rightarrow> Some (value_error ''resource identity requires resource identity fields'')))]
          | _ \<Rightarrow> Some (value_error ''container/resource identity requires container identity''))]"

definition identity_payload :: "StateIdentity \<Rightarrow> json" where
  "identity_payload s = JObj ([
      (''application'', JStr (app_value (si_application s))),
      (''account_scope'', JStr (si_account_scope s)),
      (''level'', JStr (level_value (si_level s)))]
    @ opt_field ''container_kind'' (si_container_kind s)
    @ opt_field ''container_id_digest'' (si_container_id_digest s)
    @ opt_field ''resource_kind'' (si_resource_kind s)
    @ opt_field ''resource_id_digest'' (si_resource_id_digest s))"

definition identity_digest :: "StateIdentity \<Rightarrow> string" where
  "identity_digest s = sha256_text (dumps True (identity_payload s))"

definition account_state_identity :: "ApplicationKey \<Rightarrow> string \<Rightarrow> StateIdentity result" where
  "account_state_identity application account_scope = construct state_identity_check
     \<lparr>si_application = application, si_account_scope = account_scope, si_level = ACCOUNT_LEVEL,
      si_container_kind = None, si_container_id_digest = None,
      si_resource_kind = None, si_resource_id_digest = None\<rparr>"

definition container_state_identity ::
  "ApplicationKey \<Rightarrow> string \<Rightarrow> string \<Rightarrow> string \<Rightarrow> StateIdentity result" where
  "container_state_identity application account_scope container_kind external_container_id =
     bindE (digest_external_id external_container_id) (\<lambda>cd. construct state_identity_check
       \<lparr>si_application = application, si_account_scope = account_scope, si_level = CONTAINER_LEVEL,
        si_container_kind = Some container_kind, si_container_id_digest = Some cd,
        si_resource_kind = None, si_resource_id_digest = None\<rparr>)"

definition resource_state_identity ::
  "ApplicationKey \<Rightarrow> string \<Rightarrow> string \<Rightarrow> string \<Rightarrow> string \<Rightarrow> string \<Rightarrow> StateIdentity result" where
  "resource_state_identity application account_scope container_kind external_container_id
     resource_kind external_resource_id =
     bindE (digest_external_id external_container_id) (\<lambda>cd.
     bindE (digest_external_id external_resource_id) (\<lambda>rd. construct state_identity_check
       \<lparr>si_application = application, si_account_scope = account_scope, si_level = RESOURCE_LEVEL,
        si_container_kind = Some container_kind, si_container_id_digest = Some cd,
        si_resource_kind = Some resource_kind, si_resource_id_digest = Some rd\<rparr>))"

definition planner_external_id_identity ::
  "string \<Rightarrow> string \<Rightarrow> string option \<Rightarrow> StateIdentity result" where
  "planner_external_id_identity external_id resource_kind container_id =
     (case container_id of
        None \<Rightarrow> container_state_identity PLANNER ''professional_session'' resource_kind external_id
      | Some c \<Rightarrow> resource_state_identity PLANNER ''professional_session'' ''plan'' c resource_kind external_id)"

subsection \<open>Lemmas\<close>

lemma level_value_inj [simp]: "level_value a = level_value b \<longleftrightarrow> a = b"
  by (cases a; cases b) simp_all

lemma semantic_kind_check_None [checks]:
  "semantic_kind_check f v = None \<longleftrightarrow> strip v \<noteq> [] \<and> \<not> has_space (strip v)"
  by (auto simp: semantic_kind_check_def checks)

lemma hex_digest_check_None [checks]: "hex_digest_check f v = None \<longleftrightarrow> is_digest v"
  by (simp add: hex_digest_check_def checks)

lemma digest_external_id_Inr_iff:
  "digest_external_id v = Inr d \<longleftrightarrow> strip v \<noteq> [] \<and> d = sha256_text (strip v)"
  by (auto simp: digest_external_id_def)

definition semantic_kind :: "string \<Rightarrow> bool" where
  "semantic_kind v \<longleftrightarrow> strip v \<noteq> [] \<and> \<not> has_space (strip v)"

lemma state_identity_check_None:
  "state_identity_check s = None \<longleftrightarrow> semantic_kind (si_account_scope s) \<and>
     (case si_level s of
        ACCOUNT_LEVEL \<Rightarrow> si_container_kind s = None \<and> si_container_id_digest s = None \<and>
          si_resource_kind s = None \<and> si_resource_id_digest s = None
      | CONTAINER_LEVEL \<Rightarrow> pred_option semantic_kind (si_container_kind s) \<and> si_container_kind s \<noteq> None \<and>
          pred_option is_digest (si_container_id_digest s) \<and> si_container_id_digest s \<noteq> None \<and>
          si_resource_kind s = None \<and> si_resource_id_digest s = None
      | RESOURCE_LEVEL \<Rightarrow> pred_option semantic_kind (si_container_kind s) \<and> si_container_kind s \<noteq> None \<and>
          pred_option is_digest (si_container_id_digest s) \<and> si_container_id_digest s \<noteq> None \<and>
          pred_option semantic_kind (si_resource_kind s) \<and> si_resource_kind s \<noteq> None \<and>
          pred_option is_digest (si_resource_id_digest s) \<and> si_resource_id_digest s \<noteq> None)"
  unfolding state_identity_check_def
  by (cases "si_level s"; cases "si_container_kind s"; cases "si_container_id_digest s";
      cases "si_resource_kind s"; cases "si_resource_id_digest s")
    (simp_all add: checks semantic_kind_def)

lemma identity_payload_determines:
  "canon (identity_payload x) = canon (identity_payload y) \<Longrightarrow> x = y"
proof -
  assume "canon (identity_payload x) = canon (identity_payload y)"
  then have f: "map_option canon (map_of (obj_fields (identity_payload x)) k) =
      map_option canon (map_of (obj_fields (identity_payload y)) k)" for k
    unfolding identity_payload_def obj_fields.simps by (rule canon_JObj_eqD)
  show ?thesis
    using f [of "''application''"] f [of "''account_scope''"] f [of "''level''"]
      f [of "''container_kind''"] f [of "''container_id_digest''"]
      f [of "''resource_kind''"] f [of "''resource_id_digest''"]
    by (cases x; cases y) (simp add: identity_payload_def map_of_opt_field del: map_of_append)
qed

interpretation identity: content_address identity_payload True identity_digest "\<lambda>_. True"
  by unfold_locales (simp_all add: identity_digest_def identity_payload_determines)

lemma resource_state_identity_Inr_iff:
  "resource_state_identity app acc ck cid rk rid = Inr s \<longleftrightarrow>
     list_all semantic_kind [acc, ck, rk] \<and> strip cid \<noteq> [] \<and> strip rid \<noteq> [] \<and>
     s = \<lparr>si_application = app, si_account_scope = acc, si_level = RESOURCE_LEVEL,
          si_container_kind = Some ck, si_container_id_digest = Some (sha256_text (strip cid)),
          si_resource_kind = Some rk, si_resource_id_digest = Some (sha256_text (strip rid))\<rparr>"
  by (auto simp: resource_state_identity_def bindE_Inr_iff digest_external_id_Inr_iff checks
      state_identity_check_None)

lemma container_state_identity_Inr_iff:
  "container_state_identity app acc ck cid = Inr s \<longleftrightarrow>
     list_all semantic_kind [acc, ck] \<and> strip cid \<noteq> [] \<and>
     s = \<lparr>si_application = app, si_account_scope = acc, si_level = CONTAINER_LEVEL,
          si_container_kind = Some ck, si_container_id_digest = Some (sha256_text (strip cid)),
          si_resource_kind = None, si_resource_id_digest = None\<rparr>"
  by (auto simp: container_state_identity_def bindE_Inr_iff digest_external_id_Inr_iff checks
      state_identity_check_None)

subsection \<open>Properties\<close>

text \<open>Two resource identities with one digest name the same target: the same application, account
  scope and kinds, and external identifiers that agree up to surrounding white space; otherwise the
  two payload texts, the two container identifiers or the two resource identifiers exhibit a SHA-256
  collision. The same holds across levels: a container identity never shares a digest with a resource
  identity unless their payload texts collide.\<close>
theorem identity_digest_determines_target:
  assumes "resource_state_identity app acc ck cid rk rid = Inr x"
    and "resource_state_identity app' acc' ck' cid' rk' rid' = Inr y"
    and "container_state_identity app'' acc'' ck'' cid'' = Inr z"
  shows "(identity_digest x = identity_digest y \<longrightarrow>
       app = app' \<and> acc = acc' \<and> ck = ck' \<and> rk = rk' \<and> strip cid = strip cid' \<and> strip rid = strip rid'
     \<or> digest_collision (dumps True (identity_payload x)) (dumps True (identity_payload y))
     \<or> digest_collision (strip cid) (strip cid') \<or> digest_collision (strip rid) (strip rid'))
   \<and> (identity_digest x = identity_digest z \<longrightarrow>
       digest_collision (dumps True (identity_payload x)) (dumps True (identity_payload z)))"
proof -
  have x: "si_application x = app" "si_account_scope x = acc" "si_container_kind x = Some ck"
      "si_resource_kind x = Some rk" "si_container_id_digest x = Some (sha256_text (strip cid))"
      "si_resource_id_digest x = Some (sha256_text (strip rid))" "si_level x = RESOURCE_LEVEL"
    and y: "si_application y = app'" "si_account_scope y = acc'" "si_container_kind y = Some ck'"
      "si_resource_kind y = Some rk'" "si_container_id_digest y = Some (sha256_text (strip cid'))"
      "si_resource_id_digest y = Some (sha256_text (strip rid'))"
    using assms(1,2) by (simp_all add: resource_state_identity_Inr_iff)
  have z: "si_level z = CONTAINER_LEVEL" using assms(3) by (simp add: container_state_identity_Inr_iff)
  have "x = y \<Longrightarrow> strip cid = strip cid' \<or> digest_collision (strip cid) (strip cid')"
    and "x = y \<Longrightarrow> strip rid = strip rid' \<or> digest_collision (strip rid) (strip rid')"
    using x y by (auto simp: digest_collision_def)
  moreover have "x = y \<Longrightarrow> app = app' \<and> acc = acc' \<and> ck = ck' \<and> rk = rk'" using x y by simp
  moreover have "x \<noteq> z" using x z by auto
  ultimately show ?thesis
    using identity.digest_determines [of x y] identity.digest_determines [of x z] by blast
qed

theorem identity_digest_determines_target_witness:
  "\<exists>x y z. resource_state_identity PLANNER ''a'' ''plan'' ''p1'' ''task'' '' t1'' = Inr x \<and>
     resource_state_identity PLANNER ''a'' ''plan'' ''p1 '' ''task'' ''t2'' = Inr y \<and>
     container_state_identity PLANNER ''a'' ''plan'' ''p1'' = Inr z \<and>
     \<not> (identity_digest x = identity_digest y \<and>
        \<not> digest_collision (dumps True (identity_payload x)) (dumps True (identity_payload y)) \<and>
        \<not> digest_collision ''t1'' ''t2'')"
proof -
  have kinds: "list_all semantic_kind [''a'', ''plan'', ''task'']" by code_simp
  have ids: "strip '' t1'' = ''t1''" "strip ''p1 '' = ''p1''" "strip ''t2'' = ''t2''" "strip ''p1'' = ''p1''"
    by code_simp+
  obtain x y z where h: "resource_state_identity PLANNER ''a'' ''plan'' ''p1'' ''task'' '' t1'' = Inr x"
    "resource_state_identity PLANNER ''a'' ''plan'' ''p1 '' ''task'' ''t2'' = Inr y"
    "container_state_identity PLANNER ''a'' ''plan'' ''p1'' = Inr z"
    unfolding resource_state_identity_Inr_iff container_state_identity_Inr_iff
    using kinds ids by auto
  have "\<not> digest_collision ''p1'' ''p1''" by (simp add: digest_collision_def)
  with identity_digest_determines_target [OF h] h show ?thesis by (auto simp: ids)
qed

end
