(* ===== verification/Idempotency.thy ===== *)
(*  Idempotency and replay protection of m365_mcp/idempotency_v2.py. *)

theory Idempotency
  imports State_Identity
begin

text \<open>
  \<open>idempotency_v2.py\<close>: one reservation binds an operation, a state identity and a request digest;
  its phase moves once, to completed, failed before effect or effect unverified; \<open>resolve_retry\<close>
  decides what a repeated call may do. Requests and results are JSON values. The results: the retry
  decision on every branch, the replay of a result for the same request only, and that the outcome of
  a reservation is recorded at most once.
\<close>

subsection \<open>Definitions\<close>

datatype OperationPhase = RESERVED_PHASE | COMPLETED_PHASE | FAILED_PRE_EFFECT | EFFECT_UNVERIFIED

datatype ReadBackOutcome = NOT_RUN | EFFECT_PRESENT | EFFECT_ABSENT | AMBIGUOUS

datatype RetryAction =
  EXECUTE | REPLAY_RESULT | RETRY_SAFE | READ_BACK_REQUIRED | DO_NOT_RETRY | DENY_BINDING_MISMATCH

definition sha256_payload :: "json \<Rightarrow> string" where
  "sha256_payload v = sha256_text (dumps True v)"

definition request_digest :: "json \<Rightarrow> string" where
  "request_digest payload = sha256_payload payload"

definition result_digest :: "json \<Rightarrow> string" where
  "result_digest r = sha256_payload r"

fun key_payload :: "string \<times> string \<times> string \<Rightarrow> json" where
  "key_payload (operation, identity, request) = JObj [
     (''operation'', JStr operation), (''identity_digest'', JStr identity), (''request_digest'', JStr request)]"

definition make_idempotency_key :: "string \<Rightarrow> StateIdentity \<Rightarrow> string \<Rightarrow> string result" where
  "make_idempotency_key operation i request_hash =
     (if strip operation = [] \<or> has_space (strip operation)
      then Inl (value_error ''operation must be a non-empty semantic token'')
      else case hex_digest_check ''request_hash'' request_hash of
          Some e \<Rightarrow> Inl e
        | None \<Rightarrow> Inr (sha256_payload (key_payload (strip operation, identity_digest i, request_hash))))"

record IdempotencyRecord =
  ir_key :: string
  ir_operation :: string
  ir_identity_digest :: string
  ir_request_digest :: string
  ir_phase :: OperationPhase
  ir_read_back_required :: bool
  ir_result_digest :: "string option"

definition idempotency_record_check :: "IdempotencyRecord \<Rightarrow> exn option" where
  "idempotency_record_check r = first_error [
     hex_digest_check ''key'' (ir_key r),
     hex_digest_check ''identity_digest'' (ir_identity_digest r),
     hex_digest_check ''request_digest'' (ir_request_digest r),
     raise_if (strip (ir_operation r) = [] \<or> has_space (ir_operation r))
       (value_error ''operation must be a non-empty semantic token''),
     (case ir_result_digest r of None \<Rightarrow> None | Some d \<Rightarrow> hex_digest_check ''result_digest'' d),
     raise_if (ir_phase r = COMPLETED_PHASE \<and> ir_result_digest r = None)
       (value_error ''completed record requires result_digest''),
     raise_if (ir_phase r \<noteq> COMPLETED_PHASE \<and> ir_result_digest r \<noteq> None)
       (value_error ''only completed record may carry result_digest'')]"

text \<open>The conjunction short-circuits: the key is only computed when the three fields agree.\<close>

definition binding_matches :: "IdempotencyRecord \<Rightarrow> string \<Rightarrow> StateIdentity \<Rightarrow> string \<Rightarrow> bool result" where
  "binding_matches r operation i request_hash =
     (if ir_operation r = operation \<and> ir_identity_digest r = identity_digest i \<and>
         ir_request_digest r = request_hash
      then bindE (make_idempotency_key operation i request_hash) (\<lambda>k. Inr (ir_key r = k))
      else Inr False)"

definition reserve_operation ::
  "string \<Rightarrow> StateIdentity \<Rightarrow> json \<Rightarrow> bool \<Rightarrow> IdempotencyRecord result" where
  "reserve_operation operation i payload read_back_required =
     bindE (make_idempotency_key operation i (request_digest payload)) (\<lambda>k.
       construct idempotency_record_check
         \<lparr>ir_key = k, ir_operation = operation, ir_identity_digest = identity_digest i,
          ir_request_digest = request_digest payload, ir_phase = RESERVED_PHASE,
          ir_read_back_required = read_back_required, ir_result_digest = None\<rparr>)"

definition associate_result :: "IdempotencyRecord \<Rightarrow> json \<Rightarrow> IdempotencyRecord result" where
  "associate_result r v =
     (if ir_phase r \<noteq> RESERVED_PHASE
      then Inl (value_error ''only reserved operation can associate a result'')
      else construct idempotency_record_check
        (r\<lparr>ir_phase := COMPLETED_PHASE, ir_result_digest := Some (result_digest v)\<rparr>))"

definition mark_failed_pre_effect :: "IdempotencyRecord \<Rightarrow> IdempotencyRecord result" where
  "mark_failed_pre_effect r =
     (if ir_phase r \<noteq> RESERVED_PHASE
      then Inl (value_error ''only reserved operation can fail before effect'')
      else construct idempotency_record_check (r\<lparr>ir_phase := FAILED_PRE_EFFECT\<rparr>))"

definition mark_effect_unverified :: "IdempotencyRecord \<Rightarrow> IdempotencyRecord result" where
  "mark_effect_unverified r =
     (if ir_phase r \<noteq> RESERVED_PHASE
      then Inl (value_error ''only reserved operation can become effect-unverified'')
      else construct idempotency_record_check (r\<lparr>ir_phase := EFFECT_UNVERIFIED\<rparr>))"

definition resolve_retry ::
  "IdempotencyRecord option \<Rightarrow> string \<Rightarrow> StateIdentity \<Rightarrow> json \<Rightarrow> ReadBackOutcome \<Rightarrow> RetryAction result" where
  "resolve_retry record_opt operation i payload read_back =
     (case record_opt of
        None \<Rightarrow> Inr EXECUTE
      | Some r \<Rightarrow> bindE (binding_matches r operation i (request_digest payload)) (\<lambda>matches. Inr (
          if \<not> matches then DENY_BINDING_MISMATCH
          else if ir_phase r = COMPLETED_PHASE then REPLAY_RESULT
          else if ir_phase r = FAILED_PRE_EFFECT then RETRY_SAFE
          else if \<not> ir_read_back_required r then
            (if ir_phase r = RESERVED_PHASE then RETRY_SAFE else DO_NOT_RETRY)
          else if read_back = EFFECT_PRESENT then DO_NOT_RETRY
          else if read_back = EFFECT_ABSENT then RETRY_SAFE
          else READ_BACK_REQUIRED)))"

text \<open>The life of a record: any of the three outcome operations that returns.\<close>

inductive record_step :: "IdempotencyRecord \<Rightarrow> IdempotencyRecord \<Rightarrow> bool" where
  completed: "associate_result r v = Inr r' \<Longrightarrow> record_step r r'"
| failed: "mark_failed_pre_effect r = Inr r' \<Longrightarrow> record_step r r'"
| unverified: "mark_effect_unverified r = Inr r' \<Longrightarrow> record_step r r'"

inductive_cases record_stepE: "record_step r r'"

subsection \<open>Lemmas\<close>

lemma key_payload_determines: "canon (key_payload x) = canon (key_payload y) \<Longrightarrow> x = y"
proof -
  assume h: "canon (key_payload x) = canon (key_payload y)"
  obtain a b c a' b' c' where xy: "x = (a, b, c)" "y = (a', b', c')" by (metis prod_cases3)
  note f = canon_JObj_eqD [OF h [unfolded xy key_payload.simps]]
  show ?thesis
    using f [of "''operation''"] f [of "''identity_digest''"] f [of "''request_digest''"] by (simp add: xy)
qed

interpretation idempotency_key: content_address key_payload True "\<lambda>x. sha256_payload (key_payload x)" "\<lambda>_. True"
  by unfold_locales (simp_all add: sha256_payload_def key_payload_determines)

lemma is_digest_payload [simp]: "is_digest (sha256_payload v)"
  by (simp add: sha256_payload_def)

lemma is_digest_request [simp]: "is_digest (request_digest p)"
  by (simp add: request_digest_def)

lemma request_digest_cong: "canon p = canon q \<Longrightarrow> request_digest p = request_digest q"
  by (simp add: request_digest_def sha256_payload_def dumps_def)

lemma request_digest_eqD:
  "request_digest p = request_digest q \<Longrightarrow> canon p = canon q \<or> digest_collision (dumps True p) (dumps True q)"
  by (auto simp: request_digest_def sha256_payload_def dest!: digest_eqD intro: dumps_eqD)

lemma record_check_None:
  "idempotency_record_check r = None \<longleftrightarrow>
     is_digest (ir_key r) \<and> is_digest (ir_identity_digest r) \<and> is_digest (ir_request_digest r) \<and>
     strip (ir_operation r) \<noteq> [] \<and> \<not> has_space (ir_operation r) \<and>
     pred_option is_digest (ir_result_digest r) \<and>
     (ir_phase r = COMPLETED_PHASE \<longleftrightarrow> ir_result_digest r \<noteq> None)"
  by (cases "ir_result_digest r") (auto simp: idempotency_record_check_def checks)

lemma make_key_Inr_iff:
  "make_idempotency_key op i h = Inr k \<longleftrightarrow> strip op \<noteq> [] \<and> \<not> has_space (strip op) \<and> is_digest h \<and>
     k = sha256_payload (key_payload (strip op, identity_digest i, h))"
  by (auto simp: make_idempotency_key_def hex_digest_check_def raise_if_def)

definition bound_to :: "IdempotencyRecord \<Rightarrow> string \<Rightarrow> StateIdentity \<Rightarrow> json \<Rightarrow> bool" where
  "bound_to r op i p \<longleftrightarrow> ir_operation r = op \<and> ir_identity_digest r = identity_digest i \<and>
     ir_request_digest r = request_digest p \<and>
     ir_key r = sha256_payload (key_payload (op, identity_digest i, request_digest p))"

lemma binding_matches_valid:
  "idempotency_record_check r = None \<Longrightarrow> binding_matches r op i (request_digest p) = Inr (bound_to r op i p)"
  by (auto simp: binding_matches_def bound_to_def record_check_None strip_no_space
      make_idempotency_key_def hex_digest_check_def raise_if_def)

lemma reserve_operation_Inr_iff:
  "reserve_operation op i p rb = Inr r \<longleftrightarrow> strip op \<noteq> [] \<and> \<not> has_space op \<and>
     r = \<lparr>ir_key = sha256_payload (key_payload (op, identity_digest i, request_digest p)),
          ir_operation = op, ir_identity_digest = identity_digest i, ir_request_digest = request_digest p,
          ir_phase = RESERVED_PHASE, ir_read_back_required = rb, ir_result_digest = None\<rparr>"
  by (auto simp: reserve_operation_def bindE_Inr_iff make_key_Inr_iff construct_Inr_iff record_check_None
      strip_no_space identity.digest_is_digest)

lemma record_step_iff:
  "record_step r r' \<longleftrightarrow> ir_phase r = RESERVED_PHASE \<and> idempotency_record_check r' = None \<and>
     ((\<exists>v. r' = r\<lparr>ir_phase := COMPLETED_PHASE, ir_result_digest := Some (result_digest v)\<rparr>) \<or>
      r' = r\<lparr>ir_phase := FAILED_PRE_EFFECT\<rparr> \<or> r' = r\<lparr>ir_phase := EFFECT_UNVERIFIED\<rparr>)"
  by (auto simp: associate_result_def mark_failed_pre_effect_def mark_effect_unverified_def construct_Inr_iff
      elim!: record_stepE split: if_splits intro: record_step.intros)

lemma record_step_props:
  assumes "record_step r r'"
  shows "idempotency_record_check r' = None" "ir_phase r = RESERVED_PHASE" "ir_phase r' \<noteq> RESERVED_PHASE"
    "ir_key r' = ir_key r" "ir_operation r' = ir_operation r" "ir_identity_digest r' = ir_identity_digest r"
    "ir_request_digest r' = ir_request_digest r" "ir_read_back_required r' = ir_read_back_required r"
    "bound_to r' op i p = bound_to r op i p"
  using assms by (auto simp: record_step_iff bound_to_def)

lemma resolve_retry_valid:
  "idempotency_record_check r = None \<Longrightarrow> resolve_retry (Some r) op i p rb = Inr (
     if \<not> bound_to r op i p then DENY_BINDING_MISMATCH
     else case ir_phase r of COMPLETED_PHASE \<Rightarrow> REPLAY_RESULT | FAILED_PRE_EFFECT \<Rightarrow> RETRY_SAFE
       | RESERVED_PHASE \<Rightarrow> if \<not> ir_read_back_required r \<or> rb = EFFECT_ABSENT then RETRY_SAFE
           else if rb = EFFECT_PRESENT then DO_NOT_RETRY else READ_BACK_REQUIRED
       | EFFECT_UNVERIFIED \<Rightarrow> if \<not> ir_read_back_required r \<or> rb = EFFECT_PRESENT then DO_NOT_RETRY
           else if rb = EFFECT_ABSENT then RETRY_SAFE else READ_BACK_REQUIRED)"
  by (simp add: resolve_retry_def binding_matches_valid split: OperationPhase.split)

subsection \<open>Properties\<close>


definition sample_identity :: StateIdentity where
  "sample_identity = \<lparr>si_application = PLANNER, si_account_scope = ''s'', si_level = ACCOUNT_LEVEL,
     si_container_kind = None, si_container_id_digest = None,
     si_resource_kind = None, si_resource_id_digest = None\<rparr>"

lemma sample_reservation:
  "\<exists>r. reserve_operation ''op'' sample_identity (JObj []) True = Inr r \<and>
     idempotency_record_check r = None \<and> bound_to r ''op'' sample_identity (JObj []) \<and>
     ir_phase r = RESERVED_PHASE \<and> ir_read_back_required r"
proof -
  have "strip ''op'' \<noteq> []" "\<not> has_space ''op''" by code_simp+
  then show ?thesis
    by (simp add: reserve_operation_Inr_iff record_check_None bound_to_def identity.digest_is_digest)
qed


text \<open>A stored result is replayed for the same request and for no other: after a reservation has been
  completed, a call is answered by replay when it has the operation, the identity and the canonical
  request of the reservation; and whenever a call is answered by replay it has them, unless the
  identity texts or the request texts exhibit a SHA-256 collision.\<close>
theorem replay_only_same_request:
  assumes "reserve_operation op i p rr = Inr r" and "associate_result r v = Inr c"
  shows "(op = op' \<and> i = i' \<and> canon p = canon p' \<longrightarrow> resolve_retry (Some c) op' i' p' rb = Inr REPLAY_RESULT)
    \<and> (resolve_retry (Some c) op' i' p' rb = Inr REPLAY_RESULT \<longrightarrow>
         op = op' \<and> i = i' \<and> canon p = canon p'
       \<or> digest_collision (dumps True (identity_payload i)) (dumps True (identity_payload i'))
       \<or> digest_collision (dumps True p) (dumps True p'))"
proof -
  have st: "record_step r c" using assms(2) by (rule record_step.completed)
  have "ir_phase c = COMPLETED_PHASE"
    using assms(2) by (auto simp: associate_result_def construct_Inr_iff split: if_splits)
  then have "resolve_retry (Some c) op' i' p' rb = Inr REPLAY_RESULT \<longleftrightarrow> bound_to r op' i' p'"
    using record_step_props [OF st] by (simp add: resolve_retry_valid)
  also have "\<dots> \<longleftrightarrow> op = op' \<and> identity_digest i = identity_digest i' \<and> request_digest p = request_digest p'"
    using assms(1) by (auto simp: bound_to_def reserve_operation_Inr_iff)
  finally show ?thesis
    using identity.digest_determines [of i i'] request_digest_eqD [of p p'] request_digest_cong [of p p']
    by blast
qed

theorem replay_only_same_request_witness:
  "\<exists>r c. reserve_operation ''op'' sample_identity (JObj []) True = Inr r \<and>
     associate_result r JNull = Inr c \<and>
     resolve_retry (Some c) ''op'' sample_identity (JObj []) NOT_RUN = Inr REPLAY_RESULT"
proof -
  obtain r where r: "reserve_operation ''op'' sample_identity (JObj []) True = Inr r"
    "idempotency_record_check r = None" "ir_phase r = RESERVED_PHASE"
    using sample_reservation by blast
  then have "\<exists>c. associate_result r JNull = Inr c"
    by (simp add: associate_result_def construct_Inr_iff record_check_None result_digest_def)
  then obtain c where c: "associate_result r JNull = Inr c" by blast
  with r replay_only_same_request [OF r(1) c, of "''op''" sample_identity "JObj []" NOT_RUN] show ?thesis by auto
qed

text \<open>The outcome of a reservation is recorded at most once: whatever sequence of outcome operations
  succeeds on a reserved record, at most one of them does; the record stays valid and keeps its key,
  operation, identity, request and read-back requirement.\<close>
theorem outcome_recorded_once:
  assumes "reserve_operation op i p rr = Inr r" and "record_step\<^sup>*\<^sup>* r r'"
  shows "idempotency_record_check r' = None \<and> bound_to r' op i p \<and> ir_read_back_required r' = rr \<and>
    (r' = r \<or> (record_step r r' \<and> ir_phase r' \<noteq> RESERVED_PHASE \<and> \<not> (\<exists>s. record_step r' s)))"
  using assms(2)
proof (induction rule: rtranclp_induct)
  case base
  then show ?case
    using assms(1) by (auto simp: reserve_operation_Inr_iff record_check_None bound_to_def identity.digest_is_digest)
next
  case (step s t)
  have "s = r" using step.IH step.hyps(2) record_step_props(2) by blast
  with step record_step_props [OF step.hyps(2)] show ?case by (auto dest: record_step_props(2))
qed

theorem outcome_recorded_once_witness:
  "\<exists>r c. reserve_operation ''op'' sample_identity (JObj []) True = Inr r \<and>
     associate_result r JNull = Inr c \<and> \<not> (\<exists>s. record_step c s)"
proof -
  obtain r where r: "reserve_operation ''op'' sample_identity (JObj []) True = Inr r"
    "idempotency_record_check r = None" "ir_phase r = RESERVED_PHASE"
    using sample_reservation by blast
  then have "\<exists>c. associate_result r JNull = Inr c"
    by (simp add: associate_result_def construct_Inr_iff record_check_None result_digest_def)
  then obtain c where c: "associate_result r JNull = Inr c" by blast
  then have st: "record_step r c" by (rule record_step.completed)
  then have "c \<noteq> r" using record_step_props(2,3) by blast
  with r c outcome_recorded_once [OF r(1) r_into_rtranclp [of record_step, OF st]] show ?thesis by blast
qed

end
