(* ===== verification/Typed_Locks.thy ===== *)
(*  Typed locks of m365_mcp/typed_locks.py. *)

theory Typed_Locks
  imports State_Identity
begin

text \<open>
  \<open>typed_locks.py\<close>: lock targets for profiles, accounts, applications, containers and resources, and
  the one global acquisition order. \<open>TypedLock\<close> is the dataclass, \<open>typed_lock_check\<close> its
  \<open>__post_init__\<close>, \<open>lock_key\<close> the digest under which a lock map stores it and \<open>canonical_lock_order\<close>
  the deduplicated, sorted sequence in which a request takes its locks. The results: the shape of the
  sequence, its independence of the order of the request, the absence of circular waiting among
  requests that take their locks in it, and that a state lock separates targets.
\<close>

subsection \<open>Definitions\<close>

datatype LockScope = PROFILE_SCOPE | ACCOUNT_SCOPE | APPLICATION_SCOPE | CONTAINER_SCOPE | RESOURCE_SCOPE

fun scope_int :: "LockScope \<Rightarrow> int" where
  "scope_int PROFILE_SCOPE = 0"
| "scope_int ACCOUNT_SCOPE = 1"
| "scope_int APPLICATION_SCOPE = 2"
| "scope_int CONTAINER_SCOPE = 3"
| "scope_int RESOURCE_SCOPE = 4"

fun scope_name :: "LockScope \<Rightarrow> string" where
  "scope_name PROFILE_SCOPE = ''PROFILE''"
| "scope_name ACCOUNT_SCOPE = ''ACCOUNT''"
| "scope_name APPLICATION_SCOPE = ''APPLICATION''"
| "scope_name CONTAINER_SCOPE = ''CONTAINER''"
| "scope_name RESOURCE_SCOPE = ''RESOURCE''"

definition opaque_digest :: "string \<Rightarrow> string \<Rightarrow> string result" where
  "opaque_digest field_name value =
     (if strip value = [] then Inl (ValueError ''{} must not be empty'' [field_name])
      else Inr (sha256_text (strip value)))"

definition opt_digest_check :: "string \<Rightarrow> string option \<Rightarrow> exn option" where
  "opt_digest_check field_name v = (case v of None \<Rightarrow> None | Some d \<Rightarrow> hex_digest_check field_name d)"

record TypedLock =
  tl_scope :: LockScope
  tl_account_key_digest :: "string option"
  tl_profile_key_digest :: "string option"
  tl_application :: "ApplicationKey option"
  tl_state_identity_digest :: "string option"

definition typed_lock_check :: "TypedLock \<Rightarrow> exn option" where
  "typed_lock_check l = first_error [
     opt_digest_check ''account_key_digest'' (tl_account_key_digest l),
     opt_digest_check ''profile_key_digest'' (tl_profile_key_digest l),
     opt_digest_check ''state_identity_digest'' (tl_state_identity_digest l),
     (if tl_scope l = PROFILE_SCOPE then first_error [
        raise_if (tl_profile_key_digest l = None) (value_error ''profile lock requires profile_key_digest''),
        raise_if (tl_account_key_digest l \<noteq> None \<or> tl_application l \<noteq> None \<or> tl_state_identity_digest l \<noteq> None)
          (value_error ''profile lock cannot carry narrower lock fields'')]
      else first_error [
        raise_if (tl_account_key_digest l = None)
          (value_error ''account/application/resource lock requires account_key_digest''),
        (if tl_scope l = ACCOUNT_SCOPE then
           raise_if (tl_profile_key_digest l \<noteq> None \<or> tl_application l \<noteq> None \<or> tl_state_identity_digest l \<noteq> None)
             (value_error ''account lock cannot carry narrower lock fields'')
         else first_error [
           raise_if (tl_application l = None)
             (value_error ''application/container/resource lock requires application''),
           raise_if (tl_profile_key_digest l \<noteq> None)
             (value_error ''non-profile lock cannot carry profile_key_digest''),
           (if tl_scope l = APPLICATION_SCOPE then
              raise_if (tl_state_identity_digest l \<noteq> None)
                (value_error ''application lock cannot carry state identity'')
            else raise_if (tl_state_identity_digest l = None)
                (value_error ''container/resource lock requires state identity''))])])]"

definition lock_payload :: "TypedLock \<Rightarrow> json" where
  "lock_payload l = JObj ([(''scope'', JStr (scope_name (tl_scope l)))]
     @ opt_field ''profile_key_digest'' (tl_profile_key_digest l)
     @ opt_field ''account_key_digest'' (tl_account_key_digest l)
     @ opt_field ''application'' (map_option app_value (tl_application l))
     @ opt_field ''state_identity_digest'' (tl_state_identity_digest l))"

definition lock_text :: "TypedLock \<Rightarrow> string" where
  "lock_text l = dumps True (lock_payload l)"

definition lock_key :: "TypedLock \<Rightarrow> string" where
  "lock_key l = sha256_text (lock_text l)"

definition order_key :: "TypedLock \<Rightarrow> int \<times> string" where
  "order_key l = (scope_int (tl_scope l), lock_key l)"

definition profile_lock :: "string \<Rightarrow> TypedLock result" where
  "profile_lock profile_key = bindE (opaque_digest ''profile_key'' profile_key) (\<lambda>d. construct typed_lock_check
     \<lparr>tl_scope = PROFILE_SCOPE, tl_account_key_digest = None, tl_profile_key_digest = Some d,
      tl_application = None, tl_state_identity_digest = None\<rparr>)"

definition account_lock :: "string \<Rightarrow> TypedLock result" where
  "account_lock account_key = bindE (opaque_digest ''account_key'' account_key) (\<lambda>d. construct typed_lock_check
     \<lparr>tl_scope = ACCOUNT_SCOPE, tl_account_key_digest = Some d, tl_profile_key_digest = None,
      tl_application = None, tl_state_identity_digest = None\<rparr>)"

definition application_lock :: "string \<Rightarrow> ApplicationKey \<Rightarrow> TypedLock result" where
  "application_lock account_key application =
     bindE (opaque_digest ''account_key'' account_key) (\<lambda>d. construct typed_lock_check
     \<lparr>tl_scope = APPLICATION_SCOPE, tl_account_key_digest = Some d, tl_profile_key_digest = None,
      tl_application = Some application, tl_state_identity_digest = None\<rparr>)"

definition state_lock :: "string \<Rightarrow> StateIdentity \<Rightarrow> TypedLock result" where
  "state_lock account_key i =
     (if si_level i = ACCOUNT_LEVEL
      then Inl (value_error ''account-level StateIdentity cannot create container/resource lock'')
      else bindE (opaque_digest ''account_key'' account_key) (\<lambda>d. construct typed_lock_check
        \<lparr>tl_scope = (if si_level i = CONTAINER_LEVEL then CONTAINER_SCOPE else RESOURCE_SCOPE),
         tl_account_key_digest = Some d, tl_profile_key_digest = None,
         tl_application = Some (si_application i), tl_state_identity_digest = Some (identity_digest i)\<rparr>))"

definition locks_by_key :: "TypedLock list \<Rightarrow> (string \<times> TypedLock) list" where
  "locks_by_key locks = fold (\<lambda>l. AList.update (lock_key l) l) locks []"

definition canonical_lock_order :: "TypedLock list \<Rightarrow> TypedLock list" where
  "canonical_lock_order locks = sort_key order_key (map snd (locks_by_key locks))"

definition legacy_planner_lock_scope :: "string \<Rightarrow> LockScope result" where
  "legacy_planner_lock_scope lock_type =
     (case map_of [(''browser_profile'', PROFILE_SCOPE), (''session'', ACCOUNT_SCOPE),
         (''plan'', CONTAINER_SCOPE), (''bucket'', RESOURCE_SCOPE), (''task'', RESOURCE_SCOPE)] lock_type of
        None \<Rightarrow> Inl (value_error ''unknown legacy Planner lock type'') | Some s \<Rightarrow> Inr s)"

text \<open>A request part-way through its acquisition: the locks it asked for and how many of the ordered
  sequence it already holds. It waits for another request when the next lock it needs is one the
  other holds; locks are compared by the key under which a lock map stores them.\<close>

type_synonym acquisition = "TypedLock list \<times> nat"

definition held :: "acquisition \<Rightarrow> TypedLock list" where
  "held p = take (snd p) (canonical_lock_order (fst p))"

definition wanted :: "acquisition \<Rightarrow> TypedLock option" where
  "wanted p = (case drop (snd p) (canonical_lock_order (fst p)) of [] \<Rightarrow> None | l # _ \<Rightarrow> Some l)"

definition waits_for :: "acquisition \<Rightarrow> acquisition \<Rightarrow> bool" where
  "waits_for p q = (case wanted p of None \<Rightarrow> False | Some l \<Rightarrow> list_ex (\<lambda>m. lock_key m = lock_key l) (held q))"

subsection \<open>Lemmas\<close>

lemma scope_name_inj [simp]: "scope_name a = scope_name b \<longleftrightarrow> a = b"
  by (cases a; cases b) simp_all

lemma scope_int_inj [simp]: "scope_int a = scope_int b \<longleftrightarrow> a = b"
  by (cases a; cases b) simp_all

lemma map_option_app_value [simp]: "map_option app_value a = map_option app_value b \<longleftrightarrow> a = b"
  by (cases a; cases b) auto

lemma opaque_digest_Inr_iff: "opaque_digest f v = Inr d \<longleftrightarrow> strip v \<noteq> [] \<and> d = sha256_text (strip v)"
  by (auto simp: opaque_digest_def)

lemma lock_payload_determines: "canon (lock_payload x) = canon (lock_payload y) \<Longrightarrow> x = y"
proof -
  assume "canon (lock_payload x) = canon (lock_payload y)"
  then have f: "map_option canon (map_of (obj_fields (lock_payload x)) k) =
      map_option canon (map_of (obj_fields (lock_payload y)) k)" for k
    unfolding lock_payload_def obj_fields.simps by (rule canon_JObj_eqD)
  show ?thesis
    using f [of "''scope''"] f [of "''profile_key_digest''"] f [of "''account_key_digest''"]
      f [of "''application''"] f [of "''state_identity_digest''"]
    by (cases x; cases y) (simp add: lock_payload_def map_of_opt_field del: map_of_append option.map_comp)
qed

interpretation lock: content_address lock_payload True lock_key "\<lambda>_. True"
  by unfold_locales (simp_all add: lock_key_def lock_text_def lock_payload_determines)

lemma lock_key_eqD: "lock_key x = lock_key y \<Longrightarrow> x = y \<or> digest_collision (lock_text x) (lock_text y)"
  using lock.digest_determines [of x y] by (simp add: lock_text_def)

lemma order_key_eqD: "order_key x = order_key y \<Longrightarrow> x = y \<or> digest_collision (lock_text x) (lock_text y)"
  by (auto simp: order_key_def dest: lock_key_eqD)

lemma update_keys: "(k, l) \<in> set (AList.update k' l' d) \<Longrightarrow> (k, l) = (k', l') \<or> (k, l) \<in> set d"
  by (induction d) (auto split: if_splits)

lemma fold_update_distinct:
  "distinct (map fst d) \<Longrightarrow> distinct (map fst (fold (\<lambda>l. AList.update (key l) l) xs d))"
  by (induction xs arbitrary: d) (simp_all add: distinct_update)

lemma fold_update_entries:
  "(k, l) \<in> set (fold (\<lambda>l. AList.update (key l) l) xs d) \<Longrightarrow> (k = key l \<and> l \<in> set xs) \<or> (k, l) \<in> set d"
  by (induction xs arbitrary: d) (fastforce dest: update_keys)+

lemma fold_update_dom:
  "fst ` set (fold (\<lambda>l. AList.update (key l) l) xs d) = fst ` set d \<union> key ` set xs"
proof (induction xs arbitrary: d)
  case (Cons x xs)
  have "fst ` set (AList.update (key x) x d) = insert (key x) (fst ` set d)"
    using dom_update [of "key x" x d] by simp
  then show ?case by (simp add: Cons.IH)
qed simp

lemma locks_by_key_props:
  "distinct (map fst (locks_by_key ls))"
  "(k, l) \<in> set (locks_by_key ls) \<Longrightarrow> k = lock_key l"
  "snd ` set (locks_by_key ls) \<subseteq> set ls"
  "fst ` set (locks_by_key ls) = lock_key ` set ls"
  by (auto simp: locks_by_key_def fold_update_distinct fold_update_dom dest: fold_update_entries)

lemma locks_by_key_fst: "map lock_key (map snd (locks_by_key ls)) = map fst (locks_by_key ls)"
  by (auto dest: locks_by_key_props(2))

lemma set_canonical_lock_order:
  "set (canonical_lock_order ls) \<subseteq> set ls"
  "lock_key ` set (canonical_lock_order ls) = lock_key ` set ls"
proof -
  show "set (canonical_lock_order ls) \<subseteq> set ls"
    using locks_by_key_props(3) [of ls] by (auto simp: canonical_lock_order_def)
  have "lock_key ` set (canonical_lock_order ls) = set (map lock_key (map snd (locks_by_key ls)))"
    by (simp add: canonical_lock_order_def image_image)
  then show "lock_key ` set (canonical_lock_order ls) = lock_key ` set ls"
    unfolding locks_by_key_fst using locks_by_key_props(4) [of ls] by simp
qed

lemma canonical_keys_distinct: "distinct (map lock_key (canonical_lock_order ls))"
proof -
  have "mset (map lock_key (canonical_lock_order ls)) = mset (map fst (locks_by_key ls))"
    by (metis canonical_lock_order_def locks_by_key_fst mset_map mset_sort)
  then show ?thesis using locks_by_key_props(1) mset_eq_imp_distinct_iff by blast
qed

lemma canonical_order_strict: "sorted_wrt (<) (map order_key (canonical_lock_order ls))"
proof -
  have "distinct (map order_key (canonical_lock_order ls))"
    using canonical_keys_distinct [of ls]
    by (auto simp: distinct_map order_key_def inj_on_def)
  moreover have "sorted (map order_key (canonical_lock_order ls))" by (simp add: canonical_lock_order_def)
  ultimately show ?thesis by (simp add: strict_sorted_iff)
qed

text \<open>Lock requests: the locks of a set of requests are separated when no two of their payload texts
  collide under SHA-256.\<close>

definition separated :: "TypedLock list \<Rightarrow> bool" where
  "separated ls \<longleftrightarrow> list_all (\<lambda>x. list_all (\<lambda>y. \<not> digest_collision (lock_text x) (lock_text y)) ls) ls"

lemma separatedD: "separated ls \<Longrightarrow> x \<in> set ls \<Longrightarrow> y \<in> set ls \<Longrightarrow> lock_key x = lock_key y \<Longrightarrow> x = y"
  by (auto simp: separated_def list_all_iff dest!: lock_key_eqD)

lemma set_canonical_separated: "separated ls \<Longrightarrow> set (canonical_lock_order ls) = set ls"
proof
  assume "separated ls"
  show "set ls \<subseteq> set (canonical_lock_order ls)"
  proof
    fix x assume x: "x \<in> set ls"
    then have "lock_key x \<in> lock_key ` set (canonical_lock_order ls)"
      by (simp add: set_canonical_lock_order(2))
    then obtain y where "y \<in> set (canonical_lock_order ls)" "lock_key y = lock_key x" by auto
    with \<open>separated ls\<close> x show "x \<in> set (canonical_lock_order ls)"
      using set_canonical_lock_order(1) [of ls] separatedD by blast
  qed
qed (rule set_canonical_lock_order(1))

lemma wanted_above_held:
  assumes "wanted p = Some l" "m \<in> set (held p)"
  shows "order_key m < order_key l"
proof -
  let ?ls = "canonical_lock_order (fst p)"
  have "take (snd p) ?ls @ drop (snd p) ?ls = ?ls" by simp
  then have "sorted_wrt (<) (map order_key (take (snd p) ?ls @ drop (snd p) ?ls))"
    using canonical_order_strict [of "fst p"] by simp
  moreover have "l \<in> set (drop (snd p) ?ls)"
    using assms(1) by (auto simp: wanted_def split: list.splits)
  ultimately show ?thesis
    using assms(2) unfolding held_def map_append sorted_wrt_append by (auto simp: list_all_iff)
qed

lemma wanted_held_members:
  "wanted p = Some l \<Longrightarrow> l \<in> set (fst p)" "m \<in> set (held p) \<Longrightarrow> m \<in> set (fst p)"
  using set_canonical_lock_order(1) [of "fst p"]
  by (auto simp: wanted_def held_def dest: in_set_takeD in_set_dropD split: list.splits)
    (metis in_set_dropD list.set_intros(1) subsetD)+

text \<open>A contract for resources taken in one global order: whoever waits for a holder wants something
  below everything the holder itself still wants, so waiting cannot run in a circle.\<close>

locale ordered_acquisition =
  fixes waits :: "'p \<Rightarrow> 'p \<Rightarrow> bool"
    and needs :: "'p \<Rightarrow> 'k::order option"
    and members :: "'p set"
  assumes waits_needs: "p \<in> members \<Longrightarrow> waits p q \<Longrightarrow> needs p \<noteq> None"
    and waits_below: "p \<in> members \<Longrightarrow> q \<in> members \<Longrightarrow> waits p q \<Longrightarrow>
       needs p = Some k \<Longrightarrow> needs q = Some k' \<Longrightarrow> k < k'"
begin

lemma waiting_increases:
  assumes "(p, q) \<in> {(p, q). p \<in> members \<and> q \<in> members \<and> waits p q}\<^sup>+"
  shows "p \<in> members \<and> q \<in> members \<and> (\<forall>k k'. needs p = Some k \<longrightarrow> needs q = Some k' \<longrightarrow> k < k')"
  using assms
proof (induction rule: trancl_induct)
  case (base q)
  then show ?case by (auto intro: waits_below)
next
  case (step q r)
  then have m: "q \<in> members" "r \<in> members" "waits q r" by auto
  then obtain j where j: "needs q = Some j" using waits_needs by blast
  with m have "needs r = Some k' \<Longrightarrow> j < k'" for k' by (blast intro: waits_below)
  with step.IH j m(2) show ?case by (blast intro: less_trans)
qed

lemma no_circular_wait: "acyclic {(p, q). p \<in> members \<and> q \<in> members \<and> waits p q}"
proof (rule acyclicI, rule allI, rule notI)
  fix p assume c: "(p, p) \<in> {(p, q). p \<in> members \<and> q \<in> members \<and> waits p q}\<^sup>+"
  then obtain q where "p \<in> members" "waits p q" by (blast elim: converse_tranclE)
  then obtain k where "needs p = Some k" using waits_needs by blast
  with waiting_increases [OF c] show False by blast
qed

end

definition needed_key :: "acquisition \<Rightarrow> (int \<times> string) option" where
  "needed_key p = map_option order_key (wanted p)"

interpretation requests: ordered_acquisition waits_for needed_key "{p. set (fst p) \<subseteq> set ls \<and> separated ls}"
  for ls
proof
  fix p q
  assume "waits_for p q"
  then show "needed_key p \<noteq> None" by (auto simp: waits_for_def needed_key_def split: option.splits)
next
  fix p q k k'
  assume m: "p \<in> {p. set (fst p) \<subseteq> set ls \<and> separated ls}" "q \<in> {p. set (fst p) \<subseteq> set ls \<and> separated ls}"
    and w: "waits_for p q" and k: "needed_key p = Some k" "needed_key q = Some k'"
  from k obtain l l' where l: "wanted p = Some l" "k = order_key l" "wanted q = Some l'" "k' = order_key l'"
    by (auto simp: needed_key_def)
  with w obtain h where h: "h \<in> set (held q)" "lock_key h = lock_key l"
    by (auto simp: waits_for_def list_ex_iff)
  have "h = l"
    using m l(1) h wanted_held_members separatedD [of ls h l] by blast
  with wanted_above_held [OF l(3) h(1)] l show "k < k'" by simp
qed

subsection \<open>Properties\<close>

text \<open>The acquisition sequence of a request takes only locks that were requested, takes every
  requested lock key exactly once, and is strictly increasing in (scope, key): broadest scope first.\<close>
theorem lock_order_canonical:
  "sorted_wrt (<) (map order_key (canonical_lock_order ls)) \<and>
   sorted (map (\<lambda>l. scope_int (tl_scope l)) (canonical_lock_order ls)) \<and>
   set (canonical_lock_order ls) \<subseteq> set ls \<and>
   distinct (map lock_key (canonical_lock_order ls)) \<and>
   set (map lock_key (canonical_lock_order ls)) = set (map lock_key ls)"
proof -
  have "sorted_wrt (\<lambda>a b. scope_int (tl_scope a) \<le> scope_int (tl_scope b)) (canonical_lock_order ls)"
    using canonical_order_strict [of ls, unfolded sorted_wrt_map]
    by (rule sorted_wrt_mono_rel [rotated]) (auto simp: order_key_def less_prod_def)
  then show ?thesis
    using canonical_order_strict [of ls] set_canonical_lock_order [of ls] canonical_keys_distinct [of ls]
    by (simp add: sorted_wrt_map)
qed

text \<open>Two requests for the same set of locks, in any order and with any repetition, acquire them in
  the same sequence, provided no two requested payload texts collide under SHA-256.\<close>
theorem lock_order_request_independent:
  assumes "separated ls" and "set ls = set ls'"
  shows "canonical_lock_order ls = canonical_lock_order ls'"
proof -
  have sep: "separated ls'" using assms by (simp add: separated_def list_all_iff)
  let ?a = "canonical_lock_order ls" and ?b = "canonical_lock_order ls'"
  have sets: "set ?a = set ls" "set ?b = set ls"
    using set_canonical_separated assms sep by blast+
  then have "set (map order_key ?a) = set (map order_key ?b)" by simp
  then have "map order_key ?a = map order_key ?b"
    using canonical_order_strict by (blast intro: strict_sorted_equal)
  then show ?thesis
  proof (rule map_inj_on)
    show "inj_on order_key (set ?a \<union> set ?b)"
      using separatedD [OF assms(1)] by (auto simp: inj_on_def order_key_def sets)
  qed
qed

theorem lock_order_request_independent_witness:
  "\<exists>a b. profile_lock ''p'' = Inr a \<and> account_lock ''k'' = Inr b \<and>
     (\<not> digest_collision (lock_text a) (lock_text b) \<and> \<not> digest_collision (lock_text b) (lock_text a)
       \<longleftrightarrow> separated [a, b]) \<and>
     canonical_lock_order [a] = canonical_lock_order [a, a]"
proof -
  have "strip ''p'' = ''p''" "strip ''k'' = ''k''" by code_simp+
  then obtain a b where ab: "profile_lock ''p'' = Inr a" "account_lock ''k'' = Inr b"
    by (simp add: profile_lock_def account_lock_def opaque_digest_def construct_def typed_lock_check_def
        opt_digest_check_def hex_digest_check_def raise_if_def first_error.simps)
  have "\<not> digest_collision (lock_text a) (lock_text a)" "\<not> digest_collision (lock_text b) (lock_text b)"
    by (simp_all add: digest_collision_def)
  then have "separated [a]"
    and "\<not> digest_collision (lock_text a) (lock_text b) \<and> \<not> digest_collision (lock_text b) (lock_text a)
       \<longleftrightarrow> separated [a, b]" by (auto simp: separated_def)
  with ab lock_order_request_independent [of "[a]" "[a, a]"] show ?thesis by auto
qed

text \<open>C34. Requests that acquire in the canonical order never wait in a circle: among all partial
  acquisitions of requests over one set of locks without colliding texts, the waits-for relation is
  acyclic, whatever each of them already holds.\<close>
theorem canonical_order_no_deadlock:
  assumes "separated ls"
  shows "acyclic {(p, q). set (fst p) \<subseteq> set ls \<and> set (fst q) \<subseteq> set ls \<and> waits_for p q}"
  using requests.no_circular_wait [of ls] assms by simp

theorem canonical_order_no_deadlock_witness:
  "\<exists>a. profile_lock ''p'' = Inr a \<and> waits_for ([a], 0) ([a, a], 1) \<and>
     acyclic {(p, q). set (fst p) \<subseteq> {a} \<and> set (fst q) \<subseteq> {a} \<and> waits_for p q}"
proof -
  have "strip ''p'' = ''p''" by code_simp
  then obtain a where a: "profile_lock ''p'' = Inr a"
    by (simp add: profile_lock_def opaque_digest_def construct_def typed_lock_check_def
        opt_digest_check_def hex_digest_check_def raise_if_def first_error.simps)
  have "separated [a]" by (simp add: separated_def digest_collision_def)
  then have "acyclic {(p, q). set (fst p) \<subseteq> {a} \<and> set (fst q) \<subseteq> {a} \<and> waits_for p q}"
    using canonical_order_no_deadlock [of "[a]"] by simp
  moreover have "waits_for ([a], 0) ([a, a], 1)"
    by (simp add: waits_for_def wanted_def held_def canonical_lock_order_def locks_by_key_def)
  ultimately show ?thesis using a by blast
qed

text \<open>A state lock separates targets: two state locks with one key were built for the same account
  key up to surrounding white space and the same identity, at the scope of that identity's level,
  unless the lock texts, the account keys or the identity texts collide under SHA-256.\<close>
theorem state_lock_exclusive:
  assumes "state_lock k i = Inr a" and "state_lock k' j = Inr b" and "lock_key a = lock_key b"
  shows "(strip k = strip k' \<and> i = j \<and>
      (tl_scope a = RESOURCE_SCOPE \<longleftrightarrow> si_level i = RESOURCE_LEVEL))
    \<or> digest_collision (lock_text a) (lock_text b) \<or> digest_collision (strip k) (strip k')
    \<or> digest_collision (dumps True (identity_payload i)) (dumps True (identity_payload j))"
proof -
  have "tl_account_key_digest a = Some (sha256_text (strip k))"
    and "tl_account_key_digest b = Some (sha256_text (strip k'))"
    and ids: "tl_state_identity_digest a = Some (identity_digest i)"
      "tl_state_identity_digest b = Some (identity_digest j)"
    and sc: "tl_scope a = RESOURCE_SCOPE \<longleftrightarrow> si_level i = RESOURCE_LEVEL"
    using assms(1,2)
    by (cases "si_level i"; cases "si_level j";
        auto simp: state_lock_def bindE_Inr_iff opaque_digest_Inr_iff construct_Inr_iff split: if_splits)+
  moreover have "a = b \<or> digest_collision (lock_text a) (lock_text b)"
    using lock_key_eqD [OF assms(3)] .
  ultimately show ?thesis
    using identity.digest_determines [of i j] by (auto simp: digest_collision_def)
qed

theorem state_lock_exclusive_witness:
  "\<exists>i a b. container_state_identity PLANNER ''s'' ''plan'' ''p1'' = Inr i \<and>
     state_lock ''k'' i = Inr a \<and> state_lock '' k '' i = Inr b \<and> lock_key a = lock_key b \<and>
     tl_scope a = CONTAINER_SCOPE"
proof -
  have t: "strip ''p1'' = ''p1''" "strip ''k'' = ''k''" "strip '' k '' = ''k''"
    "list_all semantic_kind [''s'', ''plan'']" by code_simp+
  then obtain i where i: "container_state_identity PLANNER ''s'' ''plan'' ''p1'' = Inr i"
    "si_level i = CONTAINER_LEVEL"
    by (simp add: container_state_identity_Inr_iff)
  obtain a where a: "state_lock ''k'' i = Inr a" "state_lock '' k '' i = Inr a" "tl_scope a = CONTAINER_SCOPE"
    using i(2) t by (simp add: state_lock_def opaque_digest_def construct_def typed_lock_check_def
        opt_digest_check_def hex_digest_check_def raise_if_def first_error.simps identity.digest_is_digest)
  with state_lock_exclusive [OF a(1) a(2) refl] i show ?thesis by blast
qed

end
