(* ===== verification/Lifecycle.thy ===== *)
(*  Checkpoint lifecycle, resume planning and dead letters. *)

theory Lifecycle
  imports Typed_Locks
begin

text \<open>
  \<open>execution_lifecycle.py\<close>, \<open>xapp_checkpoint_resume.py\<close> and \<open>xapp_dead_letter.py\<close>: checkpoints of one
  saga node, the closed lifecycle they move through, the validation of an append-only chain, resume
  planning and the manual handling of dead letters. The results: a chain validates exactly when it is
  a trace of the lifecycle from a planned checkpoint, a terminal checkpoint is never continued,
  resuming extends the chain it was planned from, and a checkpoint digest determines the checkpoint.
\<close>

subsection \<open>Closed lifecycles\<close>

fun path_of :: "('s \<Rightarrow> 's list) \<Rightarrow> 's list \<Rightarrow> bool" where
  "path_of allowed [] = True"
| "path_of allowed [s] = True"
| "path_of allowed (s # t # ss) = (t \<in> set (allowed s) \<and> path_of allowed (t # ss))"

lemma path_of_snoc:
  "path_of allowed (ss @ [t]) \<longleftrightarrow> path_of allowed ss \<and> (ss = [] \<or> t \<in> set (allowed (last ss)))"
  by (induction allowed ss rule: path_of.induct) auto

text \<open>The contract of a lifecycle table: the terminal states are exactly those without successor.\<close>

locale closed_lifecycle =
  fixes allowed :: "'s \<Rightarrow> 's list"
    and terminal :: "'s \<Rightarrow> bool"
  assumes terminal_iff: "terminal s \<longleftrightarrow> allowed s = []"
begin

lemma path_open: "path_of allowed (ss @ [t]) \<Longrightarrow> s \<in> set ss \<Longrightarrow> \<not> terminal s"
proof (induction ss arbitrary: t rule: rev_induct)
  case (snoc u ss)
  from snoc.prems(1) have p: "path_of allowed (ss @ [u])" "t \<in> set (allowed u)"
    unfolding path_of_snoc [of allowed "ss @ [u]" t] by simp_all
  from snoc.prems(2) consider "s = u" | "s \<in> set ss" by auto
  then show ?case
  proof cases
    case 1 with p(2) show ?thesis by (auto simp: terminal_iff)
  next
    case 2 with snoc.IH [OF p(1)] show ?thesis .
  qed
qed simp

lemma terminal_stops: "terminal (last ss) \<Longrightarrow> ss \<noteq> [] \<Longrightarrow> \<not> path_of allowed (ss @ [t])"
  by (simp add: path_of_snoc terminal_iff)

lemma open_continues: "path_of allowed ss \<Longrightarrow> ss \<noteq> [] \<Longrightarrow> \<not> terminal (last ss) \<Longrightarrow>
    \<exists>t. path_of allowed (ss @ [t])"
  by (auto simp: path_of_snoc terminal_iff neq_Nil_conv intro: exI [of _ "hd (allowed (last ss))"])

end

subsection \<open>Checkpoints\<close>

datatype ExecutionLifecycleState = PLANNED | ACTIVE | CHECKPOINTED | COMPLETED | FAILED | INDETERMINATE

fun lifecycle_value :: "ExecutionLifecycleState \<Rightarrow> string" where
  "lifecycle_value PLANNED = ''PLANNED''"
| "lifecycle_value ACTIVE = ''ACTIVE''"
| "lifecycle_value CHECKPOINTED = ''CHECKPOINTED''"
| "lifecycle_value COMPLETED = ''COMPLETED''"
| "lifecycle_value FAILED = ''FAILED''"
| "lifecycle_value INDETERMINATE = ''INDETERMINATE''"

definition TERMINAL_STATES :: "ExecutionLifecycleState list" where
  "TERMINAL_STATES = [COMPLETED, FAILED, INDETERMINATE]"

fun ALLOWED_TRANSITIONS :: "ExecutionLifecycleState \<Rightarrow> ExecutionLifecycleState list" where
  "ALLOWED_TRANSITIONS PLANNED = [ACTIVE, FAILED]"
| "ALLOWED_TRANSITIONS ACTIVE = [CHECKPOINTED, COMPLETED, FAILED, INDETERMINATE]"
| "ALLOWED_TRANSITIONS CHECKPOINTED = [ACTIVE, CHECKPOINTED, COMPLETED, FAILED, INDETERMINATE]"
| "ALLOWED_TRANSITIONS COMPLETED = []"
| "ALLOWED_TRANSITIONS FAILED = []"
| "ALLOWED_TRANSITIONS INDETERMINATE = []"

record ExecutionCheckpoint =
  ec_saga_id_digest :: string
  ec_checkpoint_index :: int
  ec_node_id :: string
  ec_application :: ApplicationKey
  ec_state :: ExecutionLifecycleState
  ec_idempotency_key :: string
  ec_lock_keys :: "string list"
  ec_state_identity_digest :: "string option"
  ec_result_digest :: "string option"
  ec_uncertainty_code :: "string option"

definition execution_checkpoint_check :: "ExecutionCheckpoint \<Rightarrow> exn option" where
  "execution_checkpoint_check c = first_error ([
     hex_digest_check ''saga_id_digest'' (ec_saga_id_digest c),
     raise_if (ec_checkpoint_index c < 0) (value_error ''checkpoint_index must be non-negative''),
     semantic_kind_check ''node_id'' (ec_node_id c),
     hex_digest_check ''idempotency_key'' (ec_idempotency_key c)]
   @ map (hex_digest_check ''lock_key'') (ec_lock_keys c)
   @ [raise_if (\<not> distinct (ec_lock_keys c)) (value_error ''lock_keys must be unique''),
     opt_digest_check ''state_identity_digest'' (ec_state_identity_digest c),
     opt_digest_check ''result_digest'' (ec_result_digest c),
     (if ec_state c = COMPLETED then
        raise_if (ec_result_digest c = None) (value_error ''completed checkpoint requires result_digest'')
      else raise_if (ec_result_digest c \<noteq> None) (value_error ''only completed checkpoint may carry result_digest'')),
     (if ec_state c = INDETERMINATE then
        (case ec_uncertainty_code c of
           None \<Rightarrow> Some (value_error ''indeterminate checkpoint requires uncertainty_code'')
         | Some u \<Rightarrow> semantic_kind_check ''uncertainty_code'' u)
      else raise_if (ec_uncertainty_code c \<noteq> None)
        (value_error ''only indeterminate checkpoint may carry uncertainty_code''))])"

definition checkpoint_terminal :: "ExecutionCheckpoint \<Rightarrow> bool" where
  "checkpoint_terminal c \<longleftrightarrow> ec_state c \<in> set TERMINAL_STATES"

definition checkpoint_payload :: "ExecutionCheckpoint \<Rightarrow> json" where
  "checkpoint_payload c = JObj ([
      (''saga_id_digest'', JStr (ec_saga_id_digest c)),
      (''checkpoint_index'', JInt (ec_checkpoint_index c)),
      (''node_id'', JStr (ec_node_id c)),
      (''application'', JStr (app_value (ec_application c))),
      (''state'', JStr (lifecycle_value (ec_state c))),
      (''idempotency_key'', JStr (ec_idempotency_key c)),
      (''lock_keys'', JList (map JStr (ec_lock_keys c)))]
    @ opt_field ''state_identity_digest'' (ec_state_identity_digest c)
    @ opt_field ''result_digest'' (ec_result_digest c)
    @ opt_field ''uncertainty_code'' (ec_uncertainty_code c))"

definition checkpoint_digest :: "ExecutionCheckpoint \<Rightarrow> string" where
  "checkpoint_digest c = sha256_text (dumps True (checkpoint_payload c))"

definition start_checkpoint ::
  "string \<Rightarrow> string \<Rightarrow> ApplicationKey \<Rightarrow> string \<Rightarrow> TypedLock list \<Rightarrow> StateIdentity option \<Rightarrow>
     ExecutionCheckpoint result" where
  "start_checkpoint saga_id node_id application key locks si =
     (case first_error (
          raise_if (case si of None \<Rightarrow> False | Some i \<Rightarrow> si_application i \<noteq> application)
            (value_error ''state identity application does not match checkpoint application'')
          # map (\<lambda>l. raise_if (tl_application l \<noteq> None \<and> tl_application l \<noteq> Some application)
              (value_error ''typed lock application does not match checkpoint application'')) locks) of
        Some e \<Rightarrow> Inl e
      | None \<Rightarrow> bindE (opaque_digest ''saga_id'' saga_id) (\<lambda>saga.
          case semantic_kind_check ''node_id'' node_id of
            Some e \<Rightarrow> Inl e
          | None \<Rightarrow> construct execution_checkpoint_check
              \<lparr>ec_saga_id_digest = saga, ec_checkpoint_index = 0, ec_node_id = strip node_id,
               ec_application = application, ec_state = PLANNED, ec_idempotency_key = key,
               ec_lock_keys = map lock_key (canonical_lock_order locks),
               ec_state_identity_digest = map_option identity_digest si,
               ec_result_digest = None, ec_uncertainty_code = None\<rparr>))"

definition transition_checkpoint ::
  "ExecutionCheckpoint \<Rightarrow> ExecutionLifecycleState \<Rightarrow> string option \<Rightarrow> string option \<Rightarrow>
     ExecutionCheckpoint result" where
  "transition_checkpoint c next_state result uncertainty =
     (if next_state \<notin> set (ALLOWED_TRANSITIONS (ec_state c))
      then Inl (ValueError ''invalid lifecycle transition: {}->{}''
        [lifecycle_value (ec_state c), lifecycle_value next_state])
      else construct execution_checkpoint_check
        (c\<lparr>ec_checkpoint_index := ec_checkpoint_index c + 1, ec_state := next_state,
           ec_result_digest := result, ec_uncertainty_code := uncertainty\<rparr>))"

definition same_bindings :: "ExecutionCheckpoint \<Rightarrow> ExecutionCheckpoint \<Rightarrow> bool" where
  "same_bindings c first \<longleftrightarrow>
     ec_saga_id_digest c = ec_saga_id_digest first \<and> ec_node_id c = ec_node_id first \<and>
     ec_application c = ec_application first \<and> ec_idempotency_key c = ec_idempotency_key first \<and>
     ec_lock_keys c = ec_lock_keys first \<and> ec_state_identity_digest c = ec_state_identity_digest first"

fun chain_check ::
  "ExecutionCheckpoint \<Rightarrow> int \<Rightarrow> ExecutionCheckpoint option \<Rightarrow> ExecutionCheckpoint list \<Rightarrow> exn option" where
  "chain_check first expected_index previous [] = None"
| "chain_check first expected_index previous (c # cs) =
     (if ec_checkpoint_index c \<noteq> expected_index
      then Some (value_error ''checkpoint indices must be contiguous and monotonic'')
      else if \<not> same_bindings c first
      then Some (value_error ''checkpoint identity/bindings cannot change within a chain'')
      else case (case previous of
             None \<Rightarrow> None
           | Some p \<Rightarrow>
               if ec_state c \<notin> set (ALLOWED_TRANSITIONS (ec_state p))
               then Some (value_error ''checkpoint chain contains invalid lifecycle transition'')
               else raise_if (checkpoint_terminal p) (value_error ''terminal checkpoint cannot have successors'')) of
          Some e \<Rightarrow> Some e
        | None \<Rightarrow> chain_check first (expected_index + 1) (Some c) cs)"

definition validate_checkpoint_chain :: "ExecutionCheckpoint list \<Rightarrow> exn option" where
  "validate_checkpoint_chain cs = (case cs of
      [] \<Rightarrow> Some (value_error ''checkpoint chain must not be empty'')
    | first # _ \<Rightarrow>
        if ec_checkpoint_index first \<noteq> 0 \<or> ec_state first \<noteq> PLANNED
        then Some (value_error ''checkpoint chain must start at PLANNED index zero'')
        else chain_check first 0 None cs)"

subsection \<open>Resume planning\<close>

datatype ResumeState = RESUMABLE | TERMINAL | NOT_CHECKPOINTED

record ResumePlan =
  rp_state :: ResumeState
  rp_node_id :: string
  rp_checkpoint_index :: int
  rp_checkpoint_digest :: string
  rp_next_checkpoint_index :: "int option"
  rp_execution_performed :: bool

definition resume_plan_check :: "ResumePlan \<Rightarrow> exn option" where
  "resume_plan_check p = first_error [
     raise_if (rp_checkpoint_index p < 0) (value_error ''checkpoint_index must be non-negative''),
     raise_if (rp_next_checkpoint_index p \<noteq> None \<and>
         rp_next_checkpoint_index p \<noteq> Some (rp_checkpoint_index p + 1))
       (value_error ''next checkpoint index must advance exactly once''),
     raise_if (rp_execution_performed p) (value_error ''resume planner must not execute work'')]"

definition prepare_checkpoint_resume :: "ExecutionCheckpoint list \<Rightarrow> ResumePlan result" where
  "prepare_checkpoint_resume cs =
     (case validate_checkpoint_chain cs of
        Some e \<Rightarrow> Inl e
      | None \<Rightarrow>
          let latest = last cs;
              (st, next) = (if ec_state latest = CHECKPOINTED then (RESUMABLE, Some (ec_checkpoint_index latest + 1))
                else if checkpoint_terminal latest then (TERMINAL, None) else (NOT_CHECKPOINTED, None))
          in construct resume_plan_check
            \<lparr>rp_state = st, rp_node_id = ec_node_id latest, rp_checkpoint_index = ec_checkpoint_index latest,
             rp_checkpoint_digest = checkpoint_digest latest, rp_next_checkpoint_index = next,
             rp_execution_performed = False\<rparr>)"

subsection \<open>Dead letters\<close>

datatype DeadLetterState = WAITING_MANUAL | RESOLUTION_PREPARED | CLOSED

datatype ManualInterventionAction = RETRY | SKIP | ABORT

definition MAX_ATTEMPTS :: int where
  "MAX_ATTEMPTS = 100"

definition dead_letter_token :: "string \<Rightarrow> string \<Rightarrow> exn option" where
  "dead_letter_token field v =
     raise_if (bad_token v \<or> is_url v) (ValueError ''{} must be a non-empty semantic token'' [field])"

definition dead_letter_digest :: "string \<Rightarrow> exn option" where
  "dead_letter_digest v = raise_if (\<not> is_digest v) (value_error ''checkpoint_digest must be lowercase SHA-256 hex'')"

record DeadLetterRecord =
  dl_node_id :: string
  dl_checkpoint_digest :: string
  dl_reason_code :: string
  dl_attempt_count :: int
  dl_state :: DeadLetterState

definition dead_letter_check :: "DeadLetterRecord \<Rightarrow> exn option" where
  "dead_letter_check r = first_error [
     dead_letter_token ''node_id'' (dl_node_id r),
     dead_letter_digest (dl_checkpoint_digest r),
     dead_letter_token ''reason_code'' (dl_reason_code r),
     raise_if (\<not> (1 \<le> dl_attempt_count r \<and> dl_attempt_count r \<le> MAX_ATTEMPTS))
       (value_error ''attempt_count must be between 1 and 100'')]"

record ManualInterventionPlan =
  mi_node_id :: string
  mi_checkpoint_digest :: string
  mi_action :: ManualInterventionAction
  mi_state :: DeadLetterState
  mi_execution_performed :: bool

definition manual_intervention_check :: "ManualInterventionPlan \<Rightarrow> exn option" where
  "manual_intervention_check p = first_error [
     dead_letter_token ''node_id'' (mi_node_id p),
     dead_letter_digest (mi_checkpoint_digest p),
     raise_if (mi_execution_performed p) (value_error ''manual-intervention plan must not execute an action'')]"

definition prepare_manual_intervention ::
  "DeadLetterRecord \<Rightarrow> ManualInterventionAction \<Rightarrow> ManualInterventionPlan result" where
  "prepare_manual_intervention r action =
     (if dl_state r \<noteq> WAITING_MANUAL
      then Inl (value_error ''dead-letter record is not waiting for manual intervention'')
      else construct manual_intervention_check
        \<lparr>mi_node_id = dl_node_id r, mi_checkpoint_digest = dl_checkpoint_digest r, mi_action = action,
         mi_state = RESOLUTION_PREPARED, mi_execution_performed = False\<rparr>)"

subsection \<open>Lemmas\<close>

interpretation lifecycle: closed_lifecycle ALLOWED_TRANSITIONS "\<lambda>s. s \<in> set TERMINAL_STATES"
proof
  show "s \<in> set TERMINAL_STATES \<longleftrightarrow> ALLOWED_TRANSITIONS s = []" for s
    by (cases s) (simp_all add: TERMINAL_STATES_def)
qed

lemma lifecycle_value_inj [simp]: "lifecycle_value a = lifecycle_value b \<longleftrightarrow> a = b"
  by (cases a; cases b) simp_all

lemma map_JStr_canon [simp]: "map (canon \<circ> JStr) xs = map JStr xs"
  by (induction xs) simp_all

lemma map_JStr_inj [simp]: "map JStr xs = map JStr ys \<longleftrightarrow> xs = ys"
  by (rule inj_map_eq_map) (simp add: inj_def)

lemma checkpoint_payload_determines:
  "canon (checkpoint_payload x) = canon (checkpoint_payload y) \<Longrightarrow> x = y"
proof -
  assume h: "canon (checkpoint_payload x) = canon (checkpoint_payload y)"
  note f = canon_JObj_eqD [OF h [unfolded checkpoint_payload_def]]
  show ?thesis
    using f [of "''saga_id_digest''"] f [of "''checkpoint_index''"] f [of "''node_id''"]
      f [of "''application''"] f [of "''state''"] f [of "''idempotency_key''"] f [of "''lock_keys''"]
      f [of "''state_identity_digest''"] f [of "''result_digest''"] f [of "''uncertainty_code''"]
    by (cases x; cases y) (simp add: map_of_opt_field del: map_of_append)
qed

interpretation checkpoint: content_address checkpoint_payload True checkpoint_digest "\<lambda>_. True"
  by unfold_locales (simp_all add: checkpoint_digest_def checkpoint_payload_determines)

lemma opt_digest_check_None [checks]: "opt_digest_check f v = None \<longleftrightarrow> pred_option is_digest v"
  by (cases v) (simp_all add: opt_digest_check_def checks)

lemma checkpoint_check_None:
  "execution_checkpoint_check c = None \<longleftrightarrow>
     is_digest (ec_saga_id_digest c) \<and> 0 \<le> ec_checkpoint_index c \<and> semantic_kind (ec_node_id c) \<and>
     is_digest (ec_idempotency_key c) \<and> list_all is_digest (ec_lock_keys c) \<and> distinct (ec_lock_keys c) \<and>
     pred_option is_digest (ec_state_identity_digest c) \<and> pred_option is_digest (ec_result_digest c) \<and>
     (ec_state c = COMPLETED \<longleftrightarrow> ec_result_digest c \<noteq> None) \<and>
     (ec_state c = INDETERMINATE \<longleftrightarrow> ec_uncertainty_code c \<noteq> None) \<and>
     pred_option semantic_kind (ec_uncertainty_code c)"
  by (cases "ec_uncertainty_code c"; cases "ec_result_digest c")
    (auto simp: execution_checkpoint_check_def checks semantic_kind_def list_all_iff)

lemma transition_Inr_iff:
  "transition_checkpoint c st res unc = Inr d \<longleftrightarrow>
     st \<in> set (ALLOWED_TRANSITIONS (ec_state c)) \<and> execution_checkpoint_check d = None \<and>
     d = c\<lparr>ec_checkpoint_index := ec_checkpoint_index c + 1, ec_state := st,
            ec_result_digest := res, ec_uncertainty_code := unc\<rparr>"
  by (auto simp: transition_checkpoint_def construct_Inr_iff)

lemma transition_valid: "transition_checkpoint c st res unc = Inr d \<Longrightarrow> execution_checkpoint_check d = None"
  unfolding transition_Inr_iff by (elim conjE)

lemma same_bindings_update:
  "same_bindings c f \<Longrightarrow> same_bindings (c\<lparr>ec_checkpoint_index := i, ec_state := st,
      ec_result_digest := res, ec_uncertainty_code := unc\<rparr>) f"
  by (simp add: same_bindings_def)

lemma same_bindings_record:
  "same_bindings c f \<Longrightarrow> same_bindings d f \<Longrightarrow>
     d = c\<lparr>ec_checkpoint_index := ec_checkpoint_index d, ec_state := ec_state d,
       ec_result_digest := ec_result_digest d, ec_uncertainty_code := ec_uncertainty_code d\<rparr>"
  by (cases c; cases d) (simp add: same_bindings_def)

lemma allowed_open: "s \<in> set (ALLOWED_TRANSITIONS (ec_state c)) \<Longrightarrow> \<not> checkpoint_terminal c"
  using lifecycle.terminal_iff [of "ec_state c"] by (auto simp: checkpoint_terminal_def)

text \<open>A chain that is accepted up to its last checkpoint accepts exactly the direct successors of it.\<close>

lemma chain_check_snoc:
  "chain_check f i prev (cs @ [d]) = None \<longleftrightarrow>
     chain_check f i prev cs = None \<and> ec_checkpoint_index d = i + int (length cs) \<and> same_bindings d f \<and>
     (case (if cs = [] then prev else Some (last cs)) of None \<Rightarrow> True
      | Some p \<Rightarrow> ec_state d \<in> set (ALLOWED_TRANSITIONS (ec_state p)))"
proof (induction cs arbitrary: i prev)
  case Nil
  show ?case by (auto simp: raise_if_def dest: allowed_open split: option.splits)
next
  case (Cons c cs)
  show ?case by (auto simp: Cons.IH raise_if_def algebra_simps dest: allowed_open split: option.splits if_splits)
qed

lemma validate_chain_snoc:
  assumes "cs \<noteq> []"
  shows "validate_checkpoint_chain (cs @ [d]) = None \<longleftrightarrow>
     validate_checkpoint_chain cs = None \<and> ec_checkpoint_index d = int (length cs) \<and>
     same_bindings d (hd cs) \<and> ec_state d \<in> set (ALLOWED_TRANSITIONS (ec_state (last cs)))"
proof -
  obtain c cs' where cs: "cs = c # cs'" using assms by (cases cs) auto
  have "validate_checkpoint_chain (cs @ [d]) = None \<longleftrightarrow> ec_checkpoint_index c = 0 \<and> ec_state c = PLANNED \<and>
      chain_check c 0 None (cs @ [d]) = None"
    by (auto simp: validate_checkpoint_chain_def cs)
  also have "\<dots> \<longleftrightarrow> ec_checkpoint_index c = 0 \<and> ec_state c = PLANNED \<and> chain_check c 0 None cs = None \<and>
      ec_checkpoint_index d = int (length cs) \<and> same_bindings d c \<and>
      ec_state d \<in> set (ALLOWED_TRANSITIONS (ec_state (last cs)))"
    unfolding chain_check_snoc using assms by auto
  finally show ?thesis by (auto simp: validate_checkpoint_chain_def cs)
qed

lemma validate_single: "validate_checkpoint_chain [c] = None \<longleftrightarrow> ec_checkpoint_index c = 0 \<and> ec_state c = PLANNED"
  by (simp add: validate_checkpoint_chain_def same_bindings_def)

lemma valid_chain_last:
  "validate_checkpoint_chain cs = None \<Longrightarrow>
     cs \<noteq> [] \<and> ec_checkpoint_index (last cs) = int (length cs) - 1 \<and> same_bindings (last cs) (hd cs) \<and>
     path_of ALLOWED_TRANSITIONS (map ec_state cs) \<and> ec_state (hd cs) = PLANNED"
proof (induction cs rule: rev_induct)
  case Nil
  then show ?case by (simp add: validate_checkpoint_chain_def)
next
  case (snoc d cs)
  show ?case
  proof (cases "cs = []")
    case True
    with snoc.prems show ?thesis by (simp add: validate_single same_bindings_def)
  next
    case False
    with snoc show ?thesis by (auto simp: validate_chain_snoc path_of_snoc last_map)
  qed
qed

text \<open>A trace: a valid planned checkpoint at index zero, extended only by \<open>transition_checkpoint\<close>.\<close>

inductive checkpoint_trace :: "ExecutionCheckpoint list \<Rightarrow> bool" where
  planned: "execution_checkpoint_check c = None \<Longrightarrow> ec_checkpoint_index c = 0 \<Longrightarrow> ec_state c = PLANNED \<Longrightarrow>
     checkpoint_trace [c]"
| advanced: "checkpoint_trace cs \<Longrightarrow> transition_checkpoint (last cs) st res unc = Inr d \<Longrightarrow>
     checkpoint_trace (cs @ [d])"

lemma trace_valid:
  "checkpoint_trace cs \<Longrightarrow> validate_checkpoint_chain cs = None \<and> list_all (\<lambda>c. execution_checkpoint_check c = None) cs"
proof (induction rule: checkpoint_trace.induct)
  case (planned c)
  then show ?case by (simp add: validate_single)
next
  case (advanced cs st res unc d)
  with valid_chain_last [of cs] show ?case
    by (auto simp: validate_chain_snoc transition_Inr_iff intro: same_bindings_update)
qed

lemma valid_trace:
  "validate_checkpoint_chain cs = None \<Longrightarrow> list_all (\<lambda>c. execution_checkpoint_check c = None) cs \<Longrightarrow> checkpoint_trace cs"
proof (induction cs rule: rev_induct)
  case Nil
  then show ?case by (simp add: validate_checkpoint_chain_def)
next
  case (snoc d cs)
  show ?case
  proof (cases "cs = []")
    case True
    with snoc.prems show ?thesis by (auto simp: validate_single intro: checkpoint_trace.planned)
  next
    case False
    with snoc.prems have v: "validate_checkpoint_chain cs = None" and d: "ec_checkpoint_index d = int (length cs)"
      "same_bindings d (hd cs)" "ec_state d \<in> set (ALLOWED_TRANSITIONS (ec_state (last cs)))"
      by (auto simp: validate_chain_snoc)
    note l = valid_chain_last [OF v]
    have "transition_checkpoint (last cs) (ec_state d) (ec_result_digest d) (ec_uncertainty_code d) = Inr d"
      using same_bindings_record [of "last cs" "hd cs" d] l d snoc.prems(2) by (simp add: transition_Inr_iff)
    with snoc.IH [OF v] snoc.prems(2) show ?thesis by (auto intro: checkpoint_trace.advanced)
  qed
qed

lemma checkpoint_check_update:
  "execution_checkpoint_check c = None \<Longrightarrow> st \<in> set (ALLOWED_TRANSITIONS (ec_state c)) \<Longrightarrow>
     st \<noteq> COMPLETED \<Longrightarrow> st \<noteq> INDETERMINATE \<Longrightarrow>
     \<exists>d. transition_checkpoint c st None None = Inr d \<and> ec_state d = st \<and>
       ec_checkpoint_index d = ec_checkpoint_index c + 1"
  by (simp add: transition_Inr_iff checkpoint_check_None)

lemma transition_extends:
  assumes "validate_checkpoint_chain cs = None" "transition_checkpoint (last cs) st res unc = Inr d"
  shows "validate_checkpoint_chain (cs @ [d]) = None"
  using valid_chain_last [OF assms(1)] assms
  by (auto simp: validate_chain_snoc transition_Inr_iff intro: same_bindings_update)

lemma failing_possible: "\<not> checkpoint_terminal c \<Longrightarrow> FAILED \<in> set (ALLOWED_TRANSITIONS (ec_state c))"
  by (cases "ec_state c") (simp_all add: checkpoint_terminal_def TERMINAL_STATES_def)

lemma app_mismatch_None:
  "first_error (map (\<lambda>l. raise_if (tl_application l \<noteq> None \<and> tl_application l \<noteq> Some app) e) locks) = None \<longleftrightarrow>
     list_all (\<lambda>l. tl_application l \<in> {None, Some app}) locks"
  by (auto simp: checks list_all_iff)

definition sample_checkpoint :: "string \<Rightarrow> ExecutionCheckpoint" where
  "sample_checkpoint key = \<lparr>ec_saga_id_digest = key, ec_checkpoint_index = 0, ec_node_id = ''n'',
     ec_application = PLANNER, ec_state = PLANNED, ec_idempotency_key = key, ec_lock_keys = [],
     ec_state_identity_digest = None, ec_result_digest = None, ec_uncertainty_code = None\<rparr>"

lemma sample_checkpoint_valid:
  "execution_checkpoint_check (sample_checkpoint (replicate 64 CHR ''0'')) = None"
proof -
  have "is_digest (replicate 64 CHR ''0'')" "semantic_kind ''n''" by code_simp+
  then show ?thesis by (simp add: checkpoint_check_None sample_checkpoint_def)
qed

subsection \<open>Properties\<close>

text \<open>C15. The validator of checkpoint chains accepts exactly the histories the lifecycle can produce: a
  list of well-formed checkpoints validates if and only if it is a trace, that is, it starts with a
  planned checkpoint at index zero and every further one is what \<open>transition_checkpoint\<close> returns
  for its predecessor.\<close>
theorem chain_valid_iff_trace:
  assumes "list_all (\<lambda>c. execution_checkpoint_check c = None) cs"
  shows "validate_checkpoint_chain cs = None \<longleftrightarrow> checkpoint_trace cs"
  using assms valid_trace trace_valid by blast

theorem chain_valid_iff_trace_witness:
  "\<exists>c d. transition_checkpoint c ACTIVE None None = Inr d \<and>
     validate_checkpoint_chain [c, d] = None \<and> checkpoint_trace [c, d] \<and> \<not> checkpoint_trace [d]"
proof -
  let ?c = "sample_checkpoint (replicate 64 CHR ''0'')"
  have c: "execution_checkpoint_check ?c = None" "ec_state ?c = PLANNED" "ec_checkpoint_index ?c = 0"
    by (rule sample_checkpoint_valid) (simp_all add: sample_checkpoint_def)
  obtain d where d: "transition_checkpoint ?c ACTIVE None None = Inr d" "ec_state d = ACTIVE"
    using checkpoint_check_update [OF c(1), of ACTIVE] c(2) by auto
  then have dv: "execution_checkpoint_check d = None" by (blast dest: transition_valid)
  have v: "validate_checkpoint_chain [?c, d] = None"
    using transition_extends [of "[?c]" ACTIVE None None d] c d(1) by (simp add: validate_single)
  have "\<not> checkpoint_trace [d]"
    using chain_valid_iff_trace [of "[d]"] dv d(2) by (simp add: validate_single)
  moreover have "checkpoint_trace [?c, d]"
    using chain_valid_iff_trace [of "[?c, d]"] c(1) dv v by simp
  ultimately show ?thesis using d v by blast
qed

text \<open>A terminal checkpoint ends its chain and an open one never gets stuck: in a valid chain only the
  last checkpoint can be terminal, no checkpoint at all can be appended to a chain that ends in one,
  and a chain of well-formed checkpoints that ends in an open state can always be closed by the
  transition to failed.\<close>
theorem terminal_ends_chain:
  assumes "validate_checkpoint_chain cs = None"
    and "list_all (\<lambda>c. execution_checkpoint_check c = None) cs"
  shows "list_all (\<lambda>c. \<not> checkpoint_terminal c) (butlast cs) \<and>
    (if checkpoint_terminal (last cs) then \<not> (\<exists>d. validate_checkpoint_chain (cs @ [d]) = None)
     else \<exists>d. transition_checkpoint (last cs) FAILED None None = Inr d \<and>
            validate_checkpoint_chain (cs @ [d]) = None \<and> checkpoint_terminal d)"
proof -
  note l = valid_chain_last [OF assms(1)]
  have snoc: "cs = butlast cs @ [last cs]" using l by simp
  have "path_of ALLOWED_TRANSITIONS (map ec_state (butlast cs) @ [ec_state (last cs)])"
    using l snoc by (metis list.simps(8,9) map_append)
  from lifecycle.path_open [OF this] have "list_all (\<lambda>c. \<not> checkpoint_terminal c) (butlast cs)"
    by (auto simp: list_all_iff checkpoint_terminal_def)
  moreover have "\<not> (\<exists>d. validate_checkpoint_chain (cs @ [d]) = None)" if "checkpoint_terminal (last cs)"
    using that l by (auto simp: validate_chain_snoc dest: allowed_open)
  moreover have "\<exists>d. transition_checkpoint (last cs) FAILED None None = Inr d \<and>
      validate_checkpoint_chain (cs @ [d]) = None \<and> checkpoint_terminal d" if o: "\<not> checkpoint_terminal (last cs)"
  proof -
    have "execution_checkpoint_check (last cs) = None" using assms(2) l by (simp add: list_all_iff)
    from checkpoint_check_update [OF this failing_possible [OF o]] obtain d where
      "transition_checkpoint (last cs) FAILED None None = Inr d" "ec_state d = FAILED" by auto
    with transition_extends [OF assms(1)] show ?thesis by (auto simp: checkpoint_terminal_def TERMINAL_STATES_def)
  qed
  ultimately show ?thesis by simp
qed

theorem terminal_ends_chain_witness:
  "\<exists>c d. transition_checkpoint c FAILED None None = Inr d \<and> validate_checkpoint_chain [c, d] = None \<and>
     checkpoint_terminal d \<and> \<not> (\<exists>e. validate_checkpoint_chain [c, d, e] = None)"
proof -
  let ?c = "sample_checkpoint (replicate 64 CHR ''0'')"
  have c: "execution_checkpoint_check ?c = None" "\<not> checkpoint_terminal ?c" "validate_checkpoint_chain [?c] = None"
    by (rule sample_checkpoint_valid)
      (simp_all add: sample_checkpoint_def checkpoint_terminal_def TERMINAL_STATES_def validate_single)
  with terminal_ends_chain [of "[?c]"] obtain d where
    d: "transition_checkpoint ?c FAILED None None = Inr d" "validate_checkpoint_chain [?c, d] = None" "checkpoint_terminal d"
    by auto
  then have "execution_checkpoint_check d = None" by (blast dest: transition_valid)
  with terminal_ends_chain [OF d(2)] c(1) d show ?thesis by auto
qed

text \<open>A resume plan is sound for the chain it was made from: planning succeeds exactly on valid
  chains, names the last checkpoint and performs nothing; when it says resumable, reactivating that
  checkpoint yields a valid longer chain whose new index is the planned one; when it says terminal,
  nothing can be appended.\<close>
theorem resume_plan_sound:
  assumes "list_all (\<lambda>c. execution_checkpoint_check c = None) cs"
    and "prepare_checkpoint_resume cs = Inr plan"
  shows "validate_checkpoint_chain cs = None \<and> rp_checkpoint_digest plan = checkpoint_digest (last cs) \<and>
    \<not> rp_execution_performed plan \<and>
    (case rp_state plan of
       RESUMABLE \<Rightarrow> \<exists>d. transition_checkpoint (last cs) ACTIVE None None = Inr d \<and>
         validate_checkpoint_chain (cs @ [d]) = None \<and> rp_next_checkpoint_index plan = Some (ec_checkpoint_index d)
     | TERMINAL \<Rightarrow> \<not> (\<exists>d. validate_checkpoint_chain (cs @ [d]) = None)
     | NOT_CHECKPOINTED \<Rightarrow> ec_state (last cs) \<in> {PLANNED, ACTIVE} \<and> rp_next_checkpoint_index plan = None)"
proof -
  have v: "validate_checkpoint_chain cs = None"
    using assms(2) by (simp add: prepare_checkpoint_resume_def split: option.splits)
  note l = valid_chain_last [OF v]
  have lv: "execution_checkpoint_check (last cs) = None" using assms(1) l by (simp add: list_all_iff)
  have stop: "\<not> (\<exists>d. validate_checkpoint_chain (cs @ [d]) = None)" if "checkpoint_terminal (last cs)"
    using that l by (auto simp: validate_chain_snoc dest: allowed_open)
  have act: "\<exists>d. transition_checkpoint (last cs) ACTIVE None None = Inr d \<and>
      validate_checkpoint_chain (cs @ [d]) = None \<and> ec_checkpoint_index d = ec_checkpoint_index (last cs) + 1"
    if "ec_state (last cs) = CHECKPOINTED"
    using checkpoint_check_update [OF lv, of ACTIVE] that transition_extends [OF v] by auto
  show ?thesis
    using assms(2) stop act
    by (cases "ec_state (last cs)")
      (auto simp: prepare_checkpoint_resume_def v construct_Inr_iff Let_def checkpoint_terminal_def TERMINAL_STATES_def)
qed

theorem resume_plan_sound_witness:
  "\<exists>c plan. prepare_checkpoint_resume [c] = Inr plan \<and> rp_state plan = NOT_CHECKPOINTED \<and>
     \<not> rp_execution_performed plan"
proof -
  let ?c = "sample_checkpoint (replicate 64 CHR ''0'')"
  have "validate_checkpoint_chain [?c] = None" by (simp add: validate_single sample_checkpoint_def)
  then obtain plan where p: "prepare_checkpoint_resume [?c] = Inr plan" "rp_state plan = NOT_CHECKPOINTED"
    by (simp add: prepare_checkpoint_resume_def construct_def resume_plan_check_def raise_if_def
        first_error.simps sample_checkpoint_def checkpoint_terminal_def TERMINAL_STATES_def)
  with resume_plan_sound [OF _ p(1)] sample_checkpoint_valid show ?thesis by auto
qed

text \<open>Starting a checkpoint fails only for the documented reasons: it succeeds exactly when the state
  identity and every scoped lock belong to the checkpoint's application, the saga id is not blank, the
  node id is a semantic token and the idempotency key is a digest. The lock keys it stores never make
  it fail: they are the canonical acquisition sequence.\<close>
theorem start_checkpoint_exact:
  "(\<exists>c. start_checkpoint saga node app key locks si = Inr c \<and> checkpoint_trace [c] \<and>
      ec_lock_keys c = map lock_key (canonical_lock_order locks) \<and> ec_saga_id_digest c = sha256_text (strip saga))
   \<longleftrightarrow> pred_option (\<lambda>i. si_application i = app) si \<and>
     list_all (\<lambda>l. tl_application l \<in> {None, Some app}) locks \<and>
     strip saga \<noteq> [] \<and> semantic_kind node \<and> is_digest key"
proof -
  let ?c = "\<lparr>ec_saga_id_digest = sha256_text (strip saga), ec_checkpoint_index = 0, ec_node_id = strip node,
     ec_application = app, ec_state = PLANNED, ec_idempotency_key = key,
     ec_lock_keys = map lock_key (canonical_lock_order locks),
     ec_state_identity_digest = map_option identity_digest si, ec_result_digest = None, ec_uncertainty_code = None\<rparr>"
  have "list_all is_digest (map lock_key ls)" for ls
    by (simp add: list_all_iff lock.digest_is_digest)
  then have valid: "execution_checkpoint_check ?c = None \<longleftrightarrow> semantic_kind (strip node) \<and> is_digest key"
    using canonical_keys_distinct [of locks]
    by (cases si) (simp_all add: checkpoint_check_None identity.digest_is_digest)
  have "start_checkpoint saga node app key locks si = Inr c \<longleftrightarrow>
      pred_option (\<lambda>i. si_application i = app) si \<and> list_all (\<lambda>l. tl_application l \<in> {None, Some app}) locks \<and>
      strip saga \<noteq> [] \<and> semantic_kind node \<and> is_digest key \<and> c = ?c" for c
  proof -
    have "first_error (raise_if (case si of None \<Rightarrow> False | Some i \<Rightarrow> si_application i \<noteq> app) e #
        map (\<lambda>l. raise_if (tl_application l \<noteq> None \<and> tl_application l \<noteq> Some app) e') locks) = None \<longleftrightarrow>
      pred_option (\<lambda>i. si_application i = app) si \<and> list_all (\<lambda>l. tl_application l \<in> {None, Some app}) locks" for e e'
      unfolding first_error_Cons_None app_mismatch_None by (cases si) (simp_all add: checks)
    moreover have "semantic_kind_check f node = None \<longleftrightarrow> semantic_kind node" for f
      by (simp add: checks semantic_kind_def)
    moreover have "semantic_kind (strip node) \<longleftrightarrow> semantic_kind node" by (simp add: semantic_kind_def)
    ultimately show ?thesis
      using valid by (auto simp: start_checkpoint_def bindE_Inr_iff opaque_digest_Inr_iff construct_Inr_iff
          split: option.splits)
  qed
  moreover have "checkpoint_trace [?c]" if "semantic_kind node" "is_digest key"
    using valid that by (intro checkpoint_trace.planned) (simp_all add: semantic_kind_def)
  ultimately show ?thesis by auto
qed

end
