(* ===== verification/Scheduling.thy ===== *)
(*  Batch and DAG contracts, schedulers, cancellation and deadline propagation. *)

theory Scheduling
  imports Registries
begin

text \<open>
  The cross-application planners that order work without executing it: \<open>xapp_batch_contract.py\<close>,
  \<open>xapp_batch_scheduler.py\<close>, \<open>xapp_dag_contract.py\<close>, \<open>xapp_dag_scheduler.py\<close>,
  \<open>xapp_m365_batch.py\<close>, \<open>xapp_m365_dag.py\<close> and \<open>xapp_cancellation_deadlines.py\<close>. A Python set of
  node ids that the code only reads through \<open>sorted\<close> is the sorted list of its elements. The results:
  a DAG is scheduled exactly when it is acyclic, into bounded waves that respect every dependency;
  a batch is cut into full waves; cancellation reaches exactly the dependents; a deadline is the
  tightest of its ancestors.
\<close>

subsection \<open>Contracts\<close>

definition MAX_BATCH_NODES :: nat where "MAX_BATCH_NODES = 50"
definition MAX_DAG_NODES :: nat where "MAX_DAG_NODES = 100"
definition MAX_REFERENCES :: nat where "MAX_REFERENCES = 32"
definition MAX_PARALLEL :: int where "MAX_PARALLEL = 6"

definition plain_token :: "string \<Rightarrow> string \<Rightarrow> exn option" where
  "plain_token field v = raise_if (bad_token v) (ValueError ''{} must be a non-empty semantic token'' [field])"

definition contract_token :: "string \<Rightarrow> string \<Rightarrow> exn option" where
  "contract_token field v = first_error [plain_token field v,
     raise_if (is_url v) (ValueError ''{} must not encode a URL'' [field])]"

record BatchOperationRequest =
  bo_node_id :: string
  bo_application :: ApplicationKey
  bo_tool_name :: string
  bo_mutation :: bool
  bo_input_reference_ids :: "string list"

definition batch_operation_check :: "BatchOperationRequest \<Rightarrow> exn option" where
  "batch_operation_check n = first_error ([
     contract_token ''node_id'' (bo_node_id n), contract_token ''tool_name'' (bo_tool_name n),
     raise_if (MAX_REFERENCES < length (bo_input_reference_ids n))
       (value_error ''BATCH input references exceed bounded size''),
     raise_if (\<not> distinct (bo_input_reference_ids n)) (value_error ''BATCH input references must be unique'')]
   @ map (contract_token ''input_reference_id'') (bo_input_reference_ids n))"

record BatchRequest =
  br_batch_key :: string
  br_nodes :: "BatchOperationRequest list"
  br_aggregate_authorization_available :: bool

definition batch_request_check :: "BatchRequest \<Rightarrow> exn option" where
  "batch_request_check r = first_error [
     contract_token ''batch_key'' (br_batch_key r),
     raise_if (br_nodes r = []) (value_error ''BATCH requires at least one node''),
     raise_if (MAX_BATCH_NODES < length (br_nodes r)) (value_error ''BATCH exceeds bounded node count''),
     raise_if (\<not> distinct (map bo_node_id (br_nodes r))) (value_error ''BATCH node ids must be unique''),
     raise_if (br_aggregate_authorization_available r) (value_error ''BATCH cannot use aggregate authorization'')]"

record DagOperationNode =
  do_node_id :: string
  do_application :: ApplicationKey
  do_tool_name :: string
  do_depends_on :: "string list"
  do_mutation :: bool

definition dag_operation_check :: "DagOperationNode \<Rightarrow> exn option" where
  "dag_operation_check n = first_error ([
     contract_token ''node_id'' (do_node_id n), contract_token ''tool_name'' (do_tool_name n),
     raise_if (do_node_id n \<in> set (do_depends_on n)) (value_error ''DAG node cannot depend on itself''),
     raise_if (\<not> distinct (do_depends_on n)) (value_error ''DAG dependencies must be unique'')]
   @ map (contract_token ''dependency'') (do_depends_on n))"

record DagRequest =
  dr_dag_key :: string
  dr_nodes :: "DagOperationNode list"
  dr_aggregate_authorization_available :: bool

definition dag_request_check :: "DagRequest \<Rightarrow> exn option" where
  "dag_request_check r = (let ids = map do_node_id (dr_nodes r) in first_error ([
     contract_token ''dag_key'' (dr_dag_key r),
     raise_if (dr_nodes r = []) (value_error ''DAG requires at least one node''),
     raise_if (MAX_DAG_NODES < length (dr_nodes r)) (value_error ''DAG exceeds bounded node count''),
     raise_if (\<not> distinct ids) (value_error ''DAG node ids must be unique'')]
   @ map (\<lambda>n. raise_if (\<not> set (do_depends_on n) \<subseteq> set ids)
       (value_error ''DAG dependency references unknown node'')) (dr_nodes r)
   @ [raise_if (dr_aggregate_authorization_available r) (value_error ''DAG cannot use aggregate authorization'')]))"

subsection \<open>Batch schedules\<close>

definition bounded_wave :: "int \<Rightarrow> 'a list \<Rightarrow> bool" where
  "bounded_wave max_parallel wave \<longleftrightarrow> wave \<noteq> [] \<and> int (length wave) \<le> max_parallel"

record BatchSchedule =
  bs_waves :: "string list list"
  bs_max_parallel :: int
  bs_execution_performed :: bool

definition batch_schedule_check :: "BatchSchedule \<Rightarrow> exn option" where
  "batch_schedule_check s = first_error [
     raise_if (\<not> (1 \<le> bs_max_parallel s \<and> bs_max_parallel s \<le> MAX_PARALLEL))
       (value_error ''max_parallel must be between 1 and 6''),
     raise_if (\<not> distinct (concat (bs_waves s))) (value_error ''scheduled node ids must be unique''),
     raise_if (\<not> list_all (bounded_wave (bs_max_parallel s)) (bs_waves s))
       (value_error ''each BATCH wave must be non-empty and bounded''),
     raise_if (bs_execution_performed s) (value_error ''BATCH scheduler must not execute nodes'')]"

definition batch_input_check :: "string list \<Rightarrow> int \<Rightarrow> exn option" where
  "batch_input_check node_ids max_parallel = first_error [
      raise_if (node_ids = []) (value_error ''BATCH scheduler requires at least one node''),
      raise_if (MAX_BATCH_NODES < length node_ids) (value_error ''BATCH scheduler exceeds bounded node count''),
      raise_if (\<not> (1 \<le> max_parallel \<and> max_parallel \<le> MAX_PARALLEL))
        (value_error ''max_parallel must be between 1 and 6''),
      raise_if (\<not> distinct node_ids) (value_error ''BATCH scheduler node ids must be unique'')]"

definition schedule_bounded_batch :: "string list \<Rightarrow> int \<Rightarrow> BatchSchedule result" where
  "schedule_bounded_batch node_ids max_parallel = (case batch_input_check node_ids max_parallel of
      Some e \<Rightarrow> Inl e
    | None \<Rightarrow> construct batch_schedule_check
        \<lparr>bs_waves = chunks (nat max_parallel) (sort node_ids), bs_max_parallel = max_parallel,
         bs_execution_performed = False\<rparr>)"

subsection \<open>DAG schedules\<close>

record DagScheduleNode =
  dn_node_id :: string
  dn_depends_on :: "string list"

definition dag_node_check :: "DagScheduleNode \<Rightarrow> exn option" where
  "dag_node_check n = first_error ([
     plain_token ''node_id'' (dn_node_id n),
     raise_if (dn_node_id n \<in> set (dn_depends_on n)) (value_error ''DAG node cannot depend on itself''),
     raise_if (\<not> distinct (dn_depends_on n)) (value_error ''DAG dependencies must be unique'')]
   @ map (plain_token ''dependency'') (dn_depends_on n))"

record DagSchedule =
  ds_waves :: "string list list"
  ds_max_parallel :: int
  ds_acyclic :: bool
  ds_execution_performed :: bool

definition dag_schedule_check :: "DagSchedule \<Rightarrow> exn option" where
  "dag_schedule_check s = first_error [
     raise_if (\<not> (1 \<le> ds_max_parallel s \<and> ds_max_parallel s \<le> MAX_PARALLEL))
       (value_error ''max_parallel must be between 1 and 6''),
     raise_if (\<not> ds_acyclic s) (value_error ''DAG schedule must be acyclic''),
     raise_if (ds_execution_performed s) (value_error ''DAG scheduler must not execute nodes''),
     raise_if (\<not> distinct (concat (ds_waves s))) (value_error ''DAG schedule node ids must be unique''),
     raise_if (\<not> list_all (bounded_wave (ds_max_parallel s)) (ds_waves s))
       (value_error ''DAG schedule waves must be non-empty and bounded'')]"

definition ready_nodes :: "('n \<Rightarrow> 'n list) \<Rightarrow> 'n list \<Rightarrow> 'n list" where
  "ready_nodes deps remaining = filter (\<lambda>n. list_all (\<lambda>d. d \<notin> set remaining) (deps n)) remaining"

text \<open>The loop of the schedulers: take the ready nodes, at most \<open>limit\<close> of them, until none is left;
  \<open>None\<close> is the raised cycle error. A limit of zero is rejected before the loop, so an empty selection
  is an empty ready set.\<close>

definition select :: "nat option \<Rightarrow> 'n list \<Rightarrow> 'n list" where
  "select limit ready = (case limit of None \<Rightarrow> ready | Some k \<Rightarrow> take k ready)"

lemma select_subset: "set (select limit xs) \<subseteq> set xs"
  by (auto simp: select_def dest: in_set_takeD split: option.splits)

lemma ready_subset: "set (ready_nodes deps remaining) \<subseteq> set remaining"
  by (auto simp: ready_nodes_def)

function rounds :: "nat option \<Rightarrow> ('n \<Rightarrow> 'n list) \<Rightarrow> 'n list \<Rightarrow> 'n list list option" where
  "rounds limit deps remaining =
     (if remaining = [] then Some []
      else let selected = select limit (ready_nodes deps remaining) in
        if selected = [] then None
        else map_option (Cons selected) (rounds limit deps (filter (\<lambda>n. n \<notin> set selected) remaining)))"
  by pat_completeness auto
termination
proof (relation "measure (\<lambda>(limit, deps, remaining). length remaining)")
  fix limit :: "nat option" and deps :: "'n \<Rightarrow> 'n list" and remaining selected :: "'n list"
  assume sel: "selected = select limit (ready_nodes deps remaining)" "selected \<noteq> []"
  define n where "n = hd selected"
  with sel(2) have "n \<in> set selected" by simp
  then have "n \<in> set remaining"
    using select_subset [of limit "ready_nodes deps remaining"] ready_subset [of deps remaining] sel(1) by auto
  then have "length (filter (\<lambda>n. n \<notin> set selected) remaining) < length remaining"
    using \<open>n \<in> set selected\<close> by (intro length_filter_less) auto
  then show "((limit, deps, filter (\<lambda>n. n \<notin> set selected) remaining), limit, deps, remaining)
      \<in> measure (\<lambda>(limit, deps, remaining). length remaining)" by simp
qed simp

declare rounds.simps [simp del]

definition dag_dependencies :: "DagScheduleNode list \<Rightarrow> string \<Rightarrow> string list" where
  "dag_dependencies nodes i =
     (case map_of (map (\<lambda>n. (dn_node_id n, dn_depends_on n)) nodes) i of None \<Rightarrow> [] | Some ds \<Rightarrow> ds)"

definition dag_input_check :: "DagScheduleNode list \<Rightarrow> int \<Rightarrow> exn option" where
  "dag_input_check nodes max_parallel = (let ids = map dn_node_id nodes in first_error ([
         raise_if (nodes = []) (value_error ''DAG scheduler requires at least one node''),
         raise_if (MAX_DAG_NODES < length nodes) (value_error ''DAG scheduler exceeds bounded node count''),
         raise_if (\<not> (1 \<le> max_parallel \<and> max_parallel \<le> MAX_PARALLEL))
           (value_error ''max_parallel must be between 1 and 6''),
         raise_if (\<not> distinct ids) (value_error ''DAG scheduler node ids must be unique'')]
       @ map (\<lambda>n. raise_if (\<not> set (dn_depends_on n) \<subseteq> set ids)
           (value_error ''DAG dependency references unknown node'')) nodes))"

definition schedule_dag :: "DagScheduleNode list \<Rightarrow> int \<Rightarrow> DagSchedule result" where
  "schedule_dag nodes max_parallel = (case dag_input_check nodes max_parallel of
       Some e \<Rightarrow> Inl e
     | None \<Rightarrow> (case rounds (Some (nat max_parallel)) (dag_dependencies nodes) (sort (map dn_node_id nodes)) of
           None \<Rightarrow> Inl (value_error ''DAG contains a dependency cycle'')
         | Some waves \<Rightarrow> construct dag_schedule_check
             \<lparr>ds_waves = waves, ds_max_parallel = max_parallel, ds_acyclic = True,
              ds_execution_performed = False\<rparr>))"

subsection \<open>Planner and Outlook compositions\<close>

record M365BatchPlan =
  mb_request :: BatchRequest
  mb_schedule :: BatchSchedule
  mb_planner_node_count :: nat
  mb_outlook_node_count :: nat
  mb_execution_performed :: bool

definition m365_batch_plan_check :: "M365BatchPlan \<Rightarrow> exn option" where
  "m365_batch_plan_check p = first_error [
     raise_if (mb_execution_performed p \<or> bs_execution_performed (mb_schedule p))
       (value_error ''M365 BATCH plan must not execute nodes''),
     raise_if (mb_planner_node_count p < 1 \<or> mb_outlook_node_count p < 1)
       (value_error ''M365 BATCH requires Planner and Outlook nodes''),
     raise_if (mb_planner_node_count p + mb_outlook_node_count p \<noteq> length (br_nodes (mb_request p)))
       (value_error ''M365 BATCH application counts are inconsistent'')]"

definition build_m365_batch_plan :: "string \<Rightarrow> BatchOperationRequest list \<Rightarrow> int \<Rightarrow> M365BatchPlan result" where
  "build_m365_batch_plan batch_key nodes max_parallel =
     (let planner_count = length (filter (\<lambda>n. bo_application n = PLANNER) nodes);
          outlook_count = length (filter (\<lambda>n. bo_application n = OUTLOOK) nodes) in
      if planner_count < 1 \<or> outlook_count < 1
      then Inl (value_error ''XAPP-024 requires at least one Planner and one Outlook node'')
      else if list_ex (\<lambda>n. bo_application n = OUTLOOK \<and> bo_mutation n) nodes
      then Inl (value_error ''Outlook BATCH nodes must remain non-mutating while RESERVED'')
      else bindE (construct batch_request_check \<lparr>br_batch_key = batch_key, br_nodes = nodes,
                    br_aggregate_authorization_available = False\<rparr>) (\<lambda>request.
        bindE (mapE (\<lambda>n. case plain_token ''node_id'' (bo_node_id n) of None \<Rightarrow> Inr (bo_node_id n) | Some e \<Rightarrow> Inl e)
                 (br_nodes request)) (\<lambda>ids.
        bindE (schedule_bounded_batch ids max_parallel) (\<lambda>schedule.
        construct m365_batch_plan_check \<lparr>mb_request = request, mb_schedule = schedule,
          mb_planner_node_count = planner_count, mb_outlook_node_count = outlook_count,
          mb_execution_performed = False\<rparr>))))"

record M365DagPlan =
  md_request :: DagRequest
  md_schedule :: DagSchedule
  md_planner_node_count :: nat
  md_outlook_node_count :: nat
  md_execution_performed :: bool

definition m365_dag_plan_check :: "M365DagPlan \<Rightarrow> exn option" where
  "m365_dag_plan_check p = first_error [
     raise_if (md_execution_performed p \<or> ds_execution_performed (md_schedule p))
       (value_error ''M365 DAG plan must not execute nodes''),
     raise_if (md_planner_node_count p < 1 \<or> md_outlook_node_count p < 1)
       (value_error ''M365 DAG requires Planner and Outlook nodes''),
     raise_if (md_planner_node_count p + md_outlook_node_count p \<noteq> length (dr_nodes (md_request p)))
       (value_error ''M365 DAG application counts are inconsistent'')]"

definition build_m365_dag_plan :: "string \<Rightarrow> DagOperationNode list \<Rightarrow> int \<Rightarrow> M365DagPlan result" where
  "build_m365_dag_plan dag_key nodes max_parallel =
     (let planner_count = length (filter (\<lambda>n. do_application n = PLANNER) nodes);
          outlook_count = length (filter (\<lambda>n. do_application n = OUTLOOK) nodes) in
      if planner_count < 1 \<or> outlook_count < 1
      then Inl (value_error ''XAPP-025 requires at least one Planner and one Outlook node'')
      else if list_ex (\<lambda>n. do_application n = OUTLOOK \<and> do_mutation n) nodes
      then Inl (value_error ''Outlook DAG nodes must remain non-mutating while RESERVED'')
      else bindE (construct dag_request_check \<lparr>dr_dag_key = dag_key, dr_nodes = nodes,
                    dr_aggregate_authorization_available = False\<rparr>) (\<lambda>request.
        bindE (mapE (\<lambda>n. construct dag_node_check \<lparr>dn_node_id = do_node_id n, dn_depends_on = do_depends_on n\<rparr>)
                 (dr_nodes request)) (\<lambda>schedule_nodes.
        bindE (schedule_dag schedule_nodes max_parallel) (\<lambda>schedule.
        construct m365_dag_plan_check \<lparr>md_request = request, md_schedule = schedule,
          md_planner_node_count = planner_count, md_outlook_node_count = outlook_count,
          md_execution_performed = False\<rparr>))))"

subsection \<open>Cancellation and deadlines\<close>

record PropagationNode =
  pg_node_id :: string
  pg_depends_on :: "string list"
  pg_deadline :: "int option"

definition propagation_node_check :: "PropagationNode \<Rightarrow> exn option" where
  "propagation_node_check n = first_error ([
     plain_token ''node_id'' (pg_node_id n),
     raise_if (pg_node_id n \<in> set (pg_depends_on n)) (value_error ''propagation node cannot depend on itself''),
     raise_if (\<not> distinct (pg_depends_on n)) (value_error ''propagation dependencies must be unique'')]
   @ map (plain_token ''dependency'') (pg_depends_on n)
   @ [raise_if (case pg_deadline n of None \<Rightarrow> False | Some d \<Rightarrow> d \<le> 0)
        (value_error ''deadline must be a positive relative duration'')])"

record NodeDisposition =
  nd_node_id :: string
  nd_cancellation_requested :: bool
  nd_effective_deadline :: "int option"

record CancellationDeadlinePlan =
  cp_nodes :: "NodeDisposition list"
  cp_execution_performed :: bool

definition cancellation_plan_check :: "CancellationDeadlinePlan \<Rightarrow> exn option" where
  "cancellation_plan_check p = first_error [
     raise_if (\<not> distinct (map nd_node_id (cp_nodes p)))
       (value_error ''propagation dispositions must have unique node ids''),
     raise_if (cp_execution_performed p) (value_error ''propagation planner must not execute nodes'')]"

text \<open>One pass of the cancellation loop, and the loop until a pass changes nothing.\<close>

fun cancel_pass :: "PropagationNode list \<Rightarrow> string list \<Rightarrow> string list" where
  "cancel_pass [] cancelled = cancelled"
| "cancel_pass (n # ns) cancelled =
     (if pg_node_id n \<notin> set cancelled \<and> list_ex (\<lambda>d. d \<in> set cancelled) (pg_depends_on n)
      then cancel_pass ns (pg_node_id n # cancelled) else cancel_pass ns cancelled)"

lemma cancel_pass_grows: "set cancelled \<subseteq> set (cancel_pass ns cancelled)"
  by (induction ns arbitrary: cancelled) (auto simp: subset_iff)

lemma cancel_pass_changed:
  "cancel_pass ns cancelled \<noteq> cancelled \<Longrightarrow>
     \<exists>n \<in> set ns. pg_node_id n \<notin> set cancelled \<and> pg_node_id n \<in> set (cancel_pass ns cancelled)"
proof (induction ns arbitrary: cancelled)
  case (Cons n ns)
  then show ?case
    using cancel_pass_grows [of "pg_node_id n # cancelled" ns] by (auto split: if_splits)
qed simp

function cancel_closure :: "PropagationNode list \<Rightarrow> string list \<Rightarrow> string list" where
  "cancel_closure nodes cancelled = (let next = cancel_pass nodes cancelled in
     if next = cancelled then cancelled else cancel_closure nodes next)"
  by pat_completeness auto
termination
proof (relation "measure (\<lambda>(nodes, cancelled). card (pg_node_id ` set nodes - set cancelled))")
  fix nodes :: "PropagationNode list" and cancelled after :: "string list"
  assume n: "after = cancel_pass nodes cancelled" "after \<noteq> cancelled"
  with cancel_pass_grows [of cancelled nodes] cancel_pass_changed [of nodes cancelled] have
    "pg_node_id ` set nodes - set after \<subset> pg_node_id ` set nodes - set cancelled" by blast
  then show "((nodes, after), nodes, cancelled)
      \<in> measure (\<lambda>(nodes, cancelled). card (pg_node_id ` set nodes - set cancelled))"
    by (simp add: psubset_card_mono)
qed simp

declare cancel_closure.simps [simp del]

definition tightest :: "int option list \<Rightarrow> int option" where
  "tightest ds = (let present = concat (map (\<lambda>d. case d of None \<Rightarrow> [] | Some x \<Rightarrow> [x]) ds) in
     if present = [] then None else Some (Min (set present)))"

definition propagation_dependencies :: "PropagationNode list \<Rightarrow> string \<Rightarrow> string list" where
  "propagation_dependencies nodes i =
     (case map_of (map (\<lambda>n. (pg_node_id n, n)) nodes) i of None \<Rightarrow> [] | Some n \<Rightarrow> pg_depends_on n)"

definition own_deadline :: "PropagationNode list \<Rightarrow> string \<Rightarrow> int option" where
  "own_deadline nodes i =
     (case map_of (map (\<lambda>n. (pg_node_id n, n)) nodes) i of None \<Rightarrow> None | Some n \<Rightarrow> pg_deadline n)"

definition visit_deadline ::
  "PropagationNode list \<Rightarrow> int option \<Rightarrow> string \<Rightarrow> (string \<rightharpoonup> int option) \<Rightarrow> (string \<rightharpoonup> int option) result" where
  "visit_deadline nodes root i deadlines =
     bindE (mapE (\<lambda>d. case deadlines d of None \<Rightarrow> Inl KeyError | Some v \<Rightarrow> Inr v)
              (propagation_dependencies nodes i)) (\<lambda>vs.
       Inr (deadlines(i \<mapsto> tightest (root # own_deadline nodes i # vs))))"

fun visit_all ::
  "PropagationNode list \<Rightarrow> int option \<Rightarrow> string list \<Rightarrow> (string \<rightharpoonup> int option) \<Rightarrow> (string \<rightharpoonup> int option) result" where
  "visit_all nodes root [] deadlines = Inr deadlines"
| "visit_all nodes root (i # is) deadlines =
     bindE (visit_deadline nodes root i deadlines) (visit_all nodes root is)"

function deadline_loop ::
  "PropagationNode list \<Rightarrow> int option \<Rightarrow> string list \<Rightarrow> (string \<rightharpoonup> int option) \<Rightarrow> (string \<rightharpoonup> int option) result" where
  "deadline_loop nodes root remaining deadlines =
     (if remaining = [] then Inr deadlines
      else let ready = ready_nodes (propagation_dependencies nodes) remaining in
        if ready = [] then Inl (value_error ''propagation graph contains a dependency cycle'')
        else (case visit_all nodes root ready deadlines of Inl e \<Rightarrow> Inl e
          | Inr deadlines' \<Rightarrow> deadline_loop nodes root (filter (\<lambda>n. n \<notin> set ready) remaining) deadlines'))"
  by pat_completeness auto
termination
proof (relation "measure (\<lambda>(nodes, root, remaining, deadlines). length remaining)")
  fix nodes root remaining deadlines' ready and deadlines :: "string \<rightharpoonup> int option"
  assume r: "ready = ready_nodes (propagation_dependencies nodes) remaining" "ready \<noteq> []"
  then have "hd ready \<in> set ready" by simp
  moreover have "hd ready \<in> set remaining"
    using ready_subset [of "propagation_dependencies nodes" remaining] calculation r(1) by auto
  ultimately have "length (filter (\<lambda>n. n \<notin> set ready) remaining) < length remaining"
    by (intro length_filter_less) auto
  then show "((nodes, root, filter (\<lambda>n. n \<notin> set ready) remaining, deadlines'), nodes, root, remaining, deadlines)
      \<in> measure (\<lambda>(nodes, root, remaining, deadlines). length remaining)" by simp
qed simp

declare deadline_loop.simps [simp del]

definition propagation_input_check :: "PropagationNode list \<Rightarrow> string list \<Rightarrow> int option \<Rightarrow> exn option" where
  "propagation_input_check nodes cancellation root = (let ids = map pg_node_id nodes in first_error ([
         raise_if (nodes = []) (value_error ''propagation planner requires at least one node''),
         raise_if (MAX_DAG_NODES < length nodes) (value_error ''propagation planner exceeds bounded node count''),
         raise_if (case root of None \<Rightarrow> False | Some d \<Rightarrow> d \<le> 0)
           (value_error ''root deadline must be a positive relative duration''),
         raise_if (\<not> distinct ids) (value_error ''propagation node ids must be unique'')]
       @ map (\<lambda>n. raise_if (\<not> set (pg_depends_on n) \<subseteq> set ids)
           (value_error ''propagation dependency references unknown node'')) nodes
       @ [raise_if (\<not> distinct cancellation) (value_error ''cancellation node ids must be unique''),
          raise_if (\<not> set cancellation \<subseteq> set ids) (value_error ''cancellation references unknown node'')]))"

definition disposition ::
  "string list \<Rightarrow> (string \<rightharpoonup> int option) \<Rightarrow> string \<Rightarrow> NodeDisposition result" where
  "disposition cancelled deadlines i = (case deadlines i of None \<Rightarrow> Inl KeyError
     | Some d \<Rightarrow> Inr \<lparr>nd_node_id = i, nd_cancellation_requested = (i \<in> set cancelled), nd_effective_deadline = d\<rparr>)"

definition plan_cancellation_deadline_propagation ::
  "PropagationNode list \<Rightarrow> string list \<Rightarrow> int option \<Rightarrow> CancellationDeadlinePlan result" where
  "plan_cancellation_deadline_propagation nodes cancellation root =
     (case propagation_input_check nodes cancellation root of
       Some e \<Rightarrow> Inl e
     | None \<Rightarrow>
         let cancelled = cancel_closure nodes cancellation; ids = sort (map pg_node_id nodes) in
         bindE (deadline_loop nodes root ids Map.empty) (\<lambda>deadlines.
         bindE (mapE (disposition cancelled deadlines) ids) (\<lambda>dispositions.
           construct cancellation_plan_check \<lparr>cp_nodes = dispositions, cp_execution_performed = False\<rparr>)))"

subsection \<open>Rounds over a dependency relation\<close>

definition edges :: "('n \<Rightarrow> 'n list) \<Rightarrow> 'n list \<Rightarrow> ('n \<times> 'n) set" where
  "edges deps ns = {(d, n). n \<in> set ns \<and> d \<in> set (deps n) \<and> d \<in> set ns}"

text \<open>\<open>in_order\<close>: no node depends on a node of its own or a later wave.\<close>

fun in_order :: "('n \<Rightarrow> 'n list) \<Rightarrow> 'n list list \<Rightarrow> bool" where
  "in_order deps [] = True"
| "in_order deps (w # ws) =
     (list_all (\<lambda>n. list_all (\<lambda>d. d \<notin> set (concat (w # ws))) (deps n)) w \<and> in_order deps ws)"

fun wave_index :: "'n list list \<Rightarrow> 'n \<Rightarrow> nat" where
  "wave_index [] n = 0"
| "wave_index (w # ws) n = (if n \<in> set w then 0 else Suc (wave_index ws n))"

lemma in_order_index:
  "in_order deps ws \<Longrightarrow> n \<in> set (concat ws) \<Longrightarrow> d \<in> set (concat ws) \<Longrightarrow> d \<in> set (deps n) \<Longrightarrow>
     wave_index ws d < wave_index ws n"
proof (induction ws)
  case (Cons w ws)
  have n: "n \<notin> set w"
    using Cons.prems(1,3,4) unfolding in_order.simps list_all_iff by blast
  show ?case
  proof (cases "d \<in> set w")
    case True with n show ?thesis by simp
  next
    case False
    with n Cons.prems have "n \<in> set (concat ws)" "d \<in> set (concat ws)" "in_order deps ws" by simp_all
    from Cons.IH [OF this(3,1,2) Cons.prems(4)] n False show ?thesis by simp
  qed
qed simp

lemma finite_edges: "finite (edges deps ns)"
  by (rule finite_subset [of _ "set ns \<times> set ns"]) (auto simp: edges_def)

text \<open>The contract of a scheduler that works in rounds: its waves list the nodes and respect the
  dependencies, and it only gives up on a set of nodes that all wait for one another.\<close>

locale round_scheduler =
  fixes run :: "('n \<Rightarrow> 'n list) \<Rightarrow> 'n list \<Rightarrow> 'n list list option"
  assumes run_waves: "run deps ns = Some ws \<Longrightarrow> distinct ns \<Longrightarrow>
      distinct (concat ws) \<and> set (concat ws) = set ns \<and> in_order deps ws"
    and run_stuck: "run deps ns = None \<Longrightarrow>
      \<exists>S. S \<noteq> {} \<and> S \<subseteq> set ns \<and> (\<forall>n \<in> S. \<exists>d \<in> set (deps n). d \<in> S)"
begin

lemma run_index:
  assumes "run deps ns = Some ws" "distinct ns" "(d, n) \<in> edges deps ns"
  shows "wave_index ws d < wave_index ws n"
  using run_waves [OF assms(1,2)] assms(3) by (intro in_order_index) (auto simp: edges_def)

lemma run_acyclic: "run deps ns = Some ws \<Longrightarrow> distinct ns \<Longrightarrow> acyclic (edges deps ns)"
proof -
  assume h: "run deps ns = Some ws" "distinct ns"
  have "(a, b) \<in> edges deps ns \<Longrightarrow> (- int (wave_index ws b)) < - int (wave_index ws a)" for a b
    using run_index [OF h, of a b] by simp
  then show ?thesis by (rule acyclicI_order)
qed

lemma run_stuck_cyclic: "run deps ns = None \<Longrightarrow> \<not> acyclic (edges deps ns)"
proof
  assume h: "run deps ns = None" and ac: "acyclic (edges deps ns)"
  obtain S where S: "S \<noteq> {}" "S \<subseteq> set ns" "\<forall>n \<in> S. \<exists>d \<in> set (deps n). d \<in> S"
    using run_stuck [OF h] by blast
  have "wf (edges deps ns)" using finite_edges ac by (rule finite_acyclic_wf)
  then obtain z where z: "z \<in> S" "\<And>y. (y, z) \<in> edges deps ns \<Longrightarrow> y \<notin> S"
    using S(1) by (meson wfE_min ex_in_conv)
  then obtain d where "d \<in> set (deps z)" "d \<in> S" using S(3) by blast
  with z S(2) show False by (auto simp: edges_def)
qed

lemma run_iff_acyclic: "distinct ns \<Longrightarrow> (\<exists>ws. run deps ns = Some ws) \<longleftrightarrow> acyclic (edges deps ns)"
  using run_acyclic run_stuck_cyclic by (metis not_Some_eq)

end

lemma rounds_Nil [simp]: "rounds limit deps [] = Some []"
  by (simp add: rounds.simps)

lemma rounds_Some:
  "rounds limit deps ns = Some ws \<Longrightarrow> distinct ns \<Longrightarrow>
     distinct (concat ws) \<and> set (concat ws) = set ns \<and> in_order deps ws \<and>
     list_all (\<lambda>w. w \<noteq> [] \<and> (case limit of None \<Rightarrow> True | Some k \<Rightarrow> length w \<le> k)) ws"
proof (induction limit deps ns arbitrary: ws rule: rounds.induct)
  case (1 limit deps ns)
  show ?case
  proof (cases "ns = []")
    case True
    with 1 show ?thesis by simp
  next
    case False
    let ?sel = "select limit (ready_nodes deps ns)"
    let ?rest = "filter (\<lambda>n. n \<notin> set ?sel) ns"
    from False "1.prems"(1) obtain vs where ne: "?sel \<noteq> []" and vs: "rounds limit deps ?rest = Some vs" "ws = ?sel # vs"
      by (auto simp: rounds.simps [of limit deps ns] Let_def split: if_splits)
    have IH: "distinct (concat vs)" "set (concat vs) = set ?rest" "in_order deps vs"
      "list_all (\<lambda>w. w \<noteq> [] \<and> (case limit of None \<Rightarrow> True | Some k \<Rightarrow> length w \<le> k)) vs"
      using "1.IH" [OF False refl ne vs(1)] "1.prems"(2) by auto
    have sub: "set ?sel \<subseteq> set ns" using select_subset ready_subset by (metis subset_trans)
    then have all: "set (concat ws) = set ns" using IH(2) by (auto simp: vs(2))
    have "distinct (ready_nodes deps ns)" using "1.prems"(2) by (simp add: ready_nodes_def)
    then have "distinct ?sel" by (simp add: select_def split: option.splits)
    then have "distinct (concat ws)" using IH(1,2) by (auto simp: vs(2))
    moreover have "list_all (\<lambda>n. list_all (\<lambda>d. d \<notin> set ns) (deps n)) ?sel"
      using select_subset [of limit "ready_nodes deps ns"] by (auto simp: list_all_iff ready_nodes_def)
    then have "in_order deps ws"
      unfolding vs(2) in_order.simps all [unfolded vs(2)] using IH(3) by (rule conjI)
    moreover have "list_all (\<lambda>w. w \<noteq> [] \<and> (case limit of None \<Rightarrow> True | Some k \<Rightarrow> length w \<le> k)) ws"
      using ne IH(4) by (auto simp: vs(2) select_def split: option.splits)
    ultimately show ?thesis using all by (intro conjI)
  qed
qed

lemma rounds_None:
  "rounds limit deps ns = None \<Longrightarrow> limit \<noteq> Some 0 \<Longrightarrow>
     \<exists>S. S \<noteq> {} \<and> S \<subseteq> set ns \<and> (\<forall>n \<in> S. \<exists>d \<in> set (deps n). d \<in> S)"
proof (induction limit deps ns rule: rounds.induct)
  case (1 limit deps ns)
  let ?sel = "select limit (ready_nodes deps ns)"
  from "1.prems"(1) have ne: "ns \<noteq> []" by (auto simp: rounds.simps [of limit deps ns])
  show ?case
  proof (cases "?sel = []")
    case True
    with "1.prems"(2) have "ready_nodes deps ns = []"
      by (auto simp: select_def split: option.splits)
    then have "\<forall>n \<in> set ns. \<exists>d \<in> set (deps n). d \<in> set ns"
      by (auto simp: ready_nodes_def filter_empty_conv list_all_iff)
    with ne show ?thesis by (intro exI [of _ "set ns"]) simp
  next
    case False
    with "1.prems"(1) ne have "rounds limit deps (filter (\<lambda>n. n \<notin> set ?sel) ns) = None"
      by (simp add: rounds.simps [of limit deps ns] Let_def)
    from "1.IH" [OF ne refl False this "1.prems"(2)] show ?thesis by auto
  qed
qed

interpretation bounded_rounds: round_scheduler "rounds (Some (Suc k))" for k
  by unfold_locales (blast dest: rounds_Some, (erule rounds_None, simp)+)

interpretation full_rounds: round_scheduler "rounds None"
  by unfold_locales (blast dest: rounds_Some, (erule rounds_None, simp)+)

lemma rounds_sorted: "rounds limit deps ns = Some ws \<Longrightarrow> sorted ns \<Longrightarrow> list_all sorted ws"
  for ns :: "'n::linorder list"
proof (induction limit deps ns arbitrary: ws rule: rounds.induct)
  case (1 limit deps ns)
  show ?case
  proof (cases "ns = []")
    case True
    with 1 show ?thesis by simp
  next
    case False
    let ?sel = "select limit (ready_nodes deps ns)"
    from False "1.prems"(1) obtain vs where ne: "?sel \<noteq> []"
      and vs: "rounds limit deps (filter (\<lambda>n. n \<notin> set ?sel) ns) = Some vs" "ws = ?sel # vs"
      by (auto simp: rounds.simps [of limit deps ns] Let_def split: if_splits)
    have "list_all sorted vs"
      using "1.IH" [OF False refl ne vs(1)] "1.prems"(2) by (simp add: sorted_wrt_filter)
    moreover have "sorted ?sel"
      using "1.prems"(2) by (auto simp: select_def ready_nodes_def sorted_wrt_filter sorted_wrt_take split: option.splits)
    ultimately show ?thesis by (simp add: vs(2))
  qed
qed

subsection \<open>Cancellation\<close>

lemma cancel_pass_bound:
  "set cancelled \<subseteq> R \<Longrightarrow> (\<And>n d. n \<in> set ns \<Longrightarrow> d \<in> set (pg_depends_on n) \<Longrightarrow> d \<in> R \<Longrightarrow> pg_node_id n \<in> R) \<Longrightarrow>
     set (cancel_pass ns cancelled) \<subseteq> R"
proof (induction ns arbitrary: cancelled)
  case (Cons n ns)
  have ns: "\<And>m d. m \<in> set ns \<Longrightarrow> d \<in> set (pg_depends_on m) \<Longrightarrow> d \<in> R \<Longrightarrow> pg_node_id m \<in> R"
    using Cons.prems(2) by simp
  show ?case
  proof (cases "pg_node_id n \<notin> set cancelled \<and> list_ex (\<lambda>d. d \<in> set cancelled) (pg_depends_on n)")
    case True
    then obtain d where "d \<in> set (pg_depends_on n)" "d \<in> set cancelled" by (auto simp: list_ex_iff)
    then have "set (pg_node_id n # cancelled) \<subseteq> R" using Cons.prems(1) Cons.prems(2) [of n d] by auto
    from Cons.IH [OF this ns] True show ?thesis by simp
  next
    case False
    with Cons.IH [OF Cons.prems(1) ns] show ?thesis by auto
  qed
qed simp

lemma cancel_pass_fixed:
  "cancel_pass ns cancelled = cancelled \<Longrightarrow> n \<in> set ns \<Longrightarrow> d \<in> set (pg_depends_on n) \<Longrightarrow> d \<in> set cancelled \<Longrightarrow>
     pg_node_id n \<in> set cancelled"
proof (induction ns)
  case (Cons m ns)
  have no: "pg_node_id m \<in> set cancelled \<or> \<not> list_ex (\<lambda>d. d \<in> set cancelled) (pg_depends_on m)"
  proof (rule ccontr)
    assume c: "\<not> ?thesis"
    with Cons.prems(1) have "cancel_pass ns (pg_node_id m # cancelled) = cancelled" by simp
    with cancel_pass_grows [of "pg_node_id m # cancelled" ns] c show False by auto
  qed
  with Cons.prems(1) have "cancel_pass ns cancelled = cancelled" by auto
  with Cons no show ?case by (auto simp: list_ex_iff)
qed simp

lemma cancel_closure_props:
  "set cancelled \<subseteq> set (cancel_closure nodes cancelled)"
  "cancel_pass nodes (cancel_closure nodes cancelled) = cancel_closure nodes cancelled"
  "set cancelled \<subseteq> R \<Longrightarrow> (\<And>n d. n \<in> set nodes \<Longrightarrow> d \<in> set (pg_depends_on n) \<Longrightarrow> d \<in> R \<Longrightarrow> pg_node_id n \<in> R) \<Longrightarrow>
     set (cancel_closure nodes cancelled) \<subseteq> R"
proof (induction nodes cancelled rule: cancel_closure.induct)
  case (1 nodes cancelled)
  note unfold = cancel_closure.simps [of nodes cancelled]
  { case 1
    with "1.IH"(1) [OF refl] cancel_pass_grows [of cancelled nodes] show ?case
      by (cases "cancel_pass nodes cancelled = cancelled") (auto simp: unfold Let_def) }
  { case 2
    with "1.IH"(2) [OF refl] show ?case
      by (cases "cancel_pass nodes cancelled = cancelled") (auto simp: unfold Let_def) }
  { case 3
    with "1.IH"(3) [OF refl] cancel_pass_bound [of cancelled R nodes] show ?case
      by (cases "cancel_pass nodes cancelled = cancelled") (auto simp: unfold Let_def) }
qed

lemma map_of_ids:
  "distinct (map pg_node_id nodes) \<Longrightarrow> n \<in> set nodes \<Longrightarrow> map_of (map (\<lambda>n. (pg_node_id n, n)) nodes) (pg_node_id n) = Some n"
  by (rule map_of_map_key)

lemma propagation_edges_iff:
  assumes "distinct (map pg_node_id nodes)"
  shows "(d, i) \<in> edges (propagation_dependencies nodes) (map pg_node_id nodes) \<longleftrightarrow>
    (\<exists>n \<in> set nodes. pg_node_id n = i \<and> d \<in> set (pg_depends_on n)) \<and> d \<in> pg_node_id ` set nodes"
  using assms by (auto simp: edges_def propagation_dependencies_def map_of_ids split: option.splits
      dest: map_of_map_key_SomeD)

lemma cancel_closure_set:
  assumes "distinct (map pg_node_id nodes)" "set cancelled \<subseteq> pg_node_id ` set nodes"
  shows "set (cancel_closure nodes cancelled) =
    (edges (propagation_dependencies nodes) (map pg_node_id nodes))\<^sup>* `` set cancelled"
proof
  let ?E = "edges (propagation_dependencies nodes) (map pg_node_id nodes)"
  have inside: "?E\<^sup>* `` set cancelled \<subseteq> pg_node_id ` set nodes"
  proof
    fix x assume "x \<in> ?E\<^sup>* `` set cancelled"
    then obtain c where "c \<in> set cancelled" "(c, x) \<in> ?E\<^sup>*" by blast
    with assms(2) show "x \<in> pg_node_id ` set nodes" by (auto elim!: rtranclE simp: edges_def)
  qed
  show "set (cancel_closure nodes cancelled) \<subseteq> ?E\<^sup>* `` set cancelled"
  proof (rule cancel_closure_props(3))
    fix n d assume n: "n \<in> set nodes" "d \<in> set (pg_depends_on n)" and d: "d \<in> ?E\<^sup>* `` set cancelled"
    then have "(d, pg_node_id n) \<in> ?E" using inside by (auto simp: propagation_edges_iff [OF assms(1)])
    with d show "pg_node_id n \<in> ?E\<^sup>* `` set cancelled" by (blast intro: rtrancl_into_rtrancl)
  qed auto
  show "?E\<^sup>* `` set cancelled \<subseteq> set (cancel_closure nodes cancelled)"
  proof
    fix x assume "x \<in> ?E\<^sup>* `` set cancelled"
    then obtain c where "(c, x) \<in> ?E\<^sup>*" "c \<in> set cancelled" by blast
    then show "x \<in> set (cancel_closure nodes cancelled)"
    proof (induction rule: rtrancl_induct)
      case base
      then show ?case using cancel_closure_props(1) by blast
    next
      case (step y z)
      then obtain n where "n \<in> set nodes" "pg_node_id n = z" "y \<in> set (pg_depends_on n)"
        by (auto simp: propagation_edges_iff [OF assms(1)])
      with step cancel_pass_fixed [OF cancel_closure_props(2)] show ?case by blast
    qed
  qed
qed

subsection \<open>Deadlines\<close>

definition least_of :: "int set \<Rightarrow> int option" where
  "least_of S = (if S = {} then None else Some (Min S))"

lemma tightest_least_of: "tightest ds = least_of {x. Some x \<in> set ds}"
proof -
  have "set (concat (map (\<lambda>d. case d of None \<Rightarrow> [] | Some x \<Rightarrow> [x]) ds)) = {x. Some x \<in> set ds}"
    by (induction ds) (auto split: option.splits)
  note present = this
  have "concat (map (\<lambda>d. case d of None \<Rightarrow> [] | Some x \<Rightarrow> [x]) ds) = [] \<longleftrightarrow> {x. Some x \<in> set ds} = {}"
    unfolding present [symmetric] by (rule set_empty [symmetric])
  then show ?thesis unfolding tightest_def Let_def least_of_def present by simp
qed

lemma least_of_least_of:
  assumes "finite A" "finite I" "\<And>i. i \<in> I \<Longrightarrow> finite (S i)"
  shows "least_of (A \<union> {x. \<exists>i \<in> I. least_of (S i) = Some x}) = least_of (A \<union> \<Union> (S ` I))"
proof (cases "A \<union> \<Union> (S ` I) = {}")
  case True
  then show ?thesis by (auto simp: least_of_def)
next
  case False
  let ?L = "A \<union> {x. \<exists>i \<in> I. least_of (S i) = Some x}" and ?R = "A \<union> \<Union> (S ` I)"
  have fin: "finite ?R" using assms by blast
  have L: "?L \<subseteq> ?R" using assms(3) by (auto simp: least_of_def split: if_splits intro: Min_in)
  have "Min ?R \<in> ?L"
  proof -
    have "Min ?R \<in> ?R" using fin False by (rule Min_in)
    then consider "Min ?R \<in> A" | i where "i \<in> I" "Min ?R \<in> S i" by blast
    then show ?thesis
    proof cases
      case (2 i)
      have "Min (S i) = Min ?R"
        using 2 assms(3) fin by (intro Min_eqI) (auto intro!: Min_le)
      with 2 show ?thesis by (auto simp: least_of_def)
    qed simp
  qed
  moreover have "y \<in> ?L \<Longrightarrow> Min ?R \<le> y" for y using Min_le [OF fin subsetD [OF L]] .
  ultimately have "Min ?L = Min ?R" using fin L by (intro Min_eqI) (auto dest: finite_subset)
  then show ?thesis using \<open>Min ?R \<in> ?L\<close> False by (auto simp: least_of_def)
qed

text \<open>The deadlines that reach a node: the root's, its own and those of the nodes it depends on.\<close>

definition reaching_deadlines :: "PropagationNode list \<Rightarrow> int option \<Rightarrow> string \<Rightarrow> int set" where
  "reaching_deadlines nodes root i = {x. root = Some x \<or>
     (\<exists>m. (m, i) \<in> (edges (propagation_dependencies nodes) (map pg_node_id nodes))\<^sup>* \<and> own_deadline nodes m = Some x)}"

lemma own_deadline_SomeD:
  "own_deadline nodes m = Some x \<Longrightarrow> \<exists>n \<in> set nodes. pg_node_id n = m \<and> pg_deadline n = Some x"
  by (auto simp: own_deadline_def split: option.splits dest: map_of_map_key_SomeD)

lemma finite_reaching: "finite (reaching_deadlines nodes root i)"
proof (rule finite_subset)
  show "reaching_deadlines nodes root i \<subseteq> set_option root \<union> (\<Union>n \<in> set nodes. set_option (pg_deadline n))"
    by (auto simp: reaching_deadlines_def dest!: own_deadline_SomeD)
qed auto

lemma reaching_unfold:
  assumes "i \<in> pg_node_id ` set nodes" "set (propagation_dependencies nodes i) \<subseteq> pg_node_id ` set nodes"
  shows "reaching_deadlines nodes root i = {x. root = Some x \<or> own_deadline nodes i = Some x} \<union>
    \<Union> (reaching_deadlines nodes root ` set (propagation_dependencies nodes i))"
proof -
  let ?E = "edges (propagation_dependencies nodes) (map pg_node_id nodes)"
  have "(m, i) \<in> ?E\<^sup>* \<longleftrightarrow> m = i \<or> (\<exists>d \<in> set (propagation_dependencies nodes i). (m, d) \<in> ?E\<^sup>*)" for m
  proof -
    have "(d, i) \<in> ?E \<longleftrightarrow> d \<in> set (propagation_dependencies nodes i)" for d
      using assms by (auto simp: edges_def)
    then show ?thesis by (auto elim: rtranclE intro: rtrancl_into_rtrancl)
  qed
  then show ?thesis by (auto simp: reaching_deadlines_def)
qed

definition known_dependencies :: "PropagationNode list \<Rightarrow> bool" where
  "known_dependencies nodes \<longleftrightarrow> list_all (\<lambda>n. set (pg_depends_on n) \<subseteq> set (map pg_node_id nodes)) nodes"

lemma known_dependencies_of:
  "known_dependencies nodes \<Longrightarrow> set (propagation_dependencies nodes i) \<subseteq> pg_node_id ` set nodes"
proof (cases "map_of (map (\<lambda>n. (pg_node_id n, n)) nodes) i")
  case (Some n)
  then have "n \<in> set nodes" by (blast dest: map_of_map_key_SomeD)
  moreover assume "known_dependencies nodes"
  ultimately show ?thesis by (simp add: propagation_dependencies_def Some known_dependencies_def list_all_iff)
qed (simp add: propagation_dependencies_def)

definition final_deadline :: "PropagationNode list \<Rightarrow> int option \<Rightarrow> string \<Rightarrow> int option" where
  "final_deadline nodes root i = least_of (reaching_deadlines nodes root i)"

lemma visit_deadline_final:
  assumes "known_dependencies nodes" "i \<in> pg_node_id ` set nodes"
    and "\<And>d. d \<in> set (propagation_dependencies nodes i) \<Longrightarrow> ds d = Some (final_deadline nodes root d)"
  shows "visit_deadline nodes root i ds = Inr (ds(i \<mapsto> final_deadline nodes root i))"
proof -
  let ?deps = "propagation_dependencies nodes i"
  have m: "mapE (\<lambda>d. case ds d of None \<Rightarrow> Inl KeyError | Some v \<Rightarrow> Inr v) ?deps = Inr (map (final_deadline nodes root) ?deps)"
    using assms(3) by (simp add: mapE_Inr_iff list_all2_conv_all_nth)
  have "{x. Some x \<in> set (root # own_deadline nodes i # map (final_deadline nodes root) ?deps)} =
      {x. root = Some x \<or> own_deadline nodes i = Some x} \<union>
      {x. \<exists>d \<in> set ?deps. least_of (reaching_deadlines nodes root d) = Some x}"
    by (auto simp: final_deadline_def image_iff dest: sym)
  moreover have "finite {x. root = Some x \<or> own_deadline nodes i = Some x}"
    by (rule finite_subset [of _ "set_option root \<union> set_option (own_deadline nodes i)"]) auto
  ultimately have "tightest (root # own_deadline nodes i # map (final_deadline nodes root) ?deps) =
      final_deadline nodes root i"
    unfolding tightest_least_of final_deadline_def
      reaching_unfold [OF assms(2) known_dependencies_of [OF assms(1)]]
    by (simp add: least_of_least_of finite_reaching)
  then show ?thesis by (simp add: visit_deadline_def m)
qed

lemma visit_all_final:
  assumes "known_dependencies nodes"
  shows "set is \<subseteq> pg_node_id ` set nodes \<Longrightarrow>
    (\<And>i d. i \<in> set is \<Longrightarrow> d \<in> set (propagation_dependencies nodes i) \<Longrightarrow> ds d = Some (final_deadline nodes root d)) \<Longrightarrow>
    visit_all nodes root is ds = Inr (\<lambda>i. if i \<in> set is then Some (final_deadline nodes root i) else ds i)"
proof (induction "is" arbitrary: ds)
  case (Cons i "is")
  have "visit_deadline nodes root i ds = Inr (ds(i \<mapsto> final_deadline nodes root i))"
    using Cons.prems by (intro visit_deadline_final assms) auto
  moreover have "visit_all nodes root is (ds(i \<mapsto> final_deadline nodes root i)) =
      Inr (\<lambda>j. if j \<in> set is then Some (final_deadline nodes root j) else (ds(i \<mapsto> final_deadline nodes root i)) j)"
    using Cons.prems by (intro Cons.IH) auto
  ultimately show ?case by (auto simp: fun_eq_iff)
qed simp

lemma deadline_loop_final:
  "known_dependencies nodes \<Longrightarrow> set remaining \<subseteq> pg_node_id ` set nodes \<Longrightarrow>
    (\<And>i. i \<in> pg_node_id ` set nodes - set remaining \<Longrightarrow> ds i = Some (final_deadline nodes root i)) \<Longrightarrow>
    deadline_loop nodes root remaining ds =
      (case rounds None (propagation_dependencies nodes) remaining of
         None \<Rightarrow> Inl (value_error ''propagation graph contains a dependency cycle'')
       | Some _ \<Rightarrow> Inr (\<lambda>i. if i \<in> set remaining then Some (final_deadline nodes root i) else ds i))"
proof (induction nodes root remaining ds rule: deadline_loop.induct)
  case (1 nodes root remaining ds)
  let ?D = "propagation_dependencies nodes"
  let ?ready = "ready_nodes ?D remaining"
  show ?case
  proof (cases "remaining = [] \<or> ?ready = []")
    case True
    then show ?thesis
      by (auto simp: deadline_loop.simps [of nodes root remaining] rounds.simps [of None ?D remaining] select_def)
  next
    case False
    let ?rest = "filter (\<lambda>n. n \<notin> set ?ready) remaining"
    have "set ?ready \<subseteq> pg_node_id ` set nodes" using ready_subset "1.prems"(2) by (metis subset_trans)
    moreover have "ds d = Some (final_deadline nodes root d)" if "i \<in> set ?ready" "d \<in> set (?D i)" for i d
      using that "1.prems"(3) known_dependencies_of [OF "1.prems"(1), of i] by (auto simp: ready_nodes_def list_all_iff)
    ultimately have v: "visit_all nodes root ?ready ds =
        Inr (\<lambda>i. if i \<in> set ?ready then Some (final_deadline nodes root i) else ds i)" (is "_ = Inr ?ds")
      by (rule visit_all_final [OF "1.prems"(1)])
    have r: "rounds None ?D remaining = map_option (Cons ?ready) (rounds None ?D ?rest)"
      using False by (simp add: rounds.simps [of None ?D remaining] select_def Let_def)
    have "deadline_loop nodes root remaining ds = deadline_loop nodes root ?rest ?ds"
      using False v by (simp add: deadline_loop.simps [of nodes root remaining] Let_def)
    also have "\<dots> = (case rounds None ?D ?rest of
         None \<Rightarrow> Inl (value_error ''propagation graph contains a dependency cycle'')
       | Some _ \<Rightarrow> Inr (\<lambda>i. if i \<in> set ?rest then Some (final_deadline nodes root i) else ?ds i))"
      using False "1.prems" by (intro "1.IH" [OF _ refl _ v]) auto
    also have "(\<lambda>i. if i \<in> set ?rest then Some (final_deadline nodes root i) else ?ds i) =
        (\<lambda>i. if i \<in> set remaining then Some (final_deadline nodes root i) else ds i)"
      using ready_subset [of ?D remaining] by (auto simp: fun_eq_iff)
    finally show ?thesis by (simp add: r split: option.splits)
  qed
qed

subsection \<open>Schedules and plans\<close>

lemma full_chunks: "0 < n \<Longrightarrow> list_all (\<lambda>w. length w = n) (butlast (chunks n xs))"
proof (induction n xs rule: chunks.induct)
  case (1 n xs)
  show ?case
  proof (cases "length xs \<le> n")
    case True
    then have "butlast (chunks n xs) = []" by (simp add: chunks.simps [of n xs] chunks.simps [of n "[]"])
    then show ?thesis by simp
  next
    case False
    then have "xs \<noteq> []" by auto
    with "1.IH" "1.prems" False show ?thesis by (simp add: chunks.simps [of n xs] min_def)
  qed
qed

definition valid_dag_input :: "DagScheduleNode list \<Rightarrow> int \<Rightarrow> bool" where
  "valid_dag_input nodes max_parallel \<longleftrightarrow> nodes \<noteq> [] \<and> length nodes \<le> 100 \<and> 1 \<le> max_parallel \<and> max_parallel \<le> 6 \<and>
     distinct (map dn_node_id nodes) \<and>
     list_all (\<lambda>n. set (dn_depends_on n) \<subseteq> set (map dn_node_id nodes)) nodes"

definition dag_relation :: "DagScheduleNode list \<Rightarrow> (string \<times> string) set" where
  "dag_relation nodes = edges (dag_dependencies nodes) (map dn_node_id nodes)"

lemma dag_dependencies_of:
  "distinct (map dn_node_id nodes) \<Longrightarrow> n \<in> set nodes \<Longrightarrow> dag_dependencies nodes (dn_node_id n) = dn_depends_on n"
proof -
  assume "distinct (map dn_node_id nodes)" "n \<in> set nodes"
  then have "map_of (map (\<lambda>n. (dn_node_id n, dn_depends_on n)) nodes) (dn_node_id n) = Some (dn_depends_on n)"
    by (intro map_of_is_SomeI) (auto simp: comp_def)
  then show ?thesis by (simp add: dag_dependencies_def)
qed

lemma edges_sort: "edges deps (sort ns) = edges deps ns"
  by (simp add: edges_def)

lemma dag_input_check_None: "dag_input_check nodes mp = None \<longleftrightarrow> valid_dag_input nodes mp"
  unfolding dag_input_check_def Let_def first_error_append first_error_map_None valid_dag_input_def list_all_iff
  by (simp add: checks MAX_DAG_NODES_def MAX_PARALLEL_def not_less)

lemma schedule_dag_cases:
  "schedule_dag nodes mp = Inr s \<longleftrightarrow> valid_dag_input nodes mp \<and>
     (\<exists>ws. rounds (Some (nat mp)) (dag_dependencies nodes) (sort (map dn_node_id nodes)) = Some ws \<and>
        s = \<lparr>ds_waves = ws, ds_max_parallel = mp, ds_acyclic = True, ds_execution_performed = False\<rparr>)"
proof -
  have "dag_schedule_check \<lparr>ds_waves = ws, ds_max_parallel = mp, ds_acyclic = True,
      ds_execution_performed = False\<rparr> = None" if v: "valid_dag_input nodes mp"
    and r: "rounds (Some (nat mp)) (dag_dependencies nodes) (sort (map dn_node_id nodes)) = Some ws" for ws
    using rounds_Some [OF r] v
    by (simp add: dag_schedule_check_def checks valid_dag_input_def MAX_PARALLEL_def list_all_iff bounded_wave_def)
      (auto simp: le_nat_iff)
  then show ?thesis
    unfolding schedule_dag_def dag_input_check_None [symmetric]
    by (auto simp: construct_Inr_iff split: option.splits)
qed

lemma schedule_dag_sound:
  assumes "schedule_dag nodes mp = Inr s"
  shows "acyclic (dag_relation nodes)" "distinct (concat (ds_waves s))"
    "set (concat (ds_waves s)) = set (map dn_node_id nodes)"
    "list_all (bounded_wave mp) (ds_waves s)"
    "list_all (\<lambda>n. list_all (\<lambda>d. wave_index (ds_waves s) d < wave_index (ds_waves s) (dn_node_id n)) (dn_depends_on n)) nodes"
proof -
  let ?ids = "sort (map dn_node_id nodes)"
  from assms obtain ws where v: "valid_dag_input nodes mp" and s: "ds_waves s = ws"
    and r: "rounds (Some (nat mp)) (dag_dependencies nodes) ?ids = Some ws"
    by (auto simp: schedule_dag_cases)
  obtain k where mp: "nat mp = Suc k" using v by (cases "nat mp") (auto simp: valid_dag_input_def)
  have d: "distinct ?ids" using v by (auto simp: valid_dag_input_def)
  note r' = r [unfolded mp]
  from bounded_rounds.run_acyclic [OF r' d] show "acyclic (dag_relation nodes)"
    by (simp add: dag_relation_def edges_sort)
  from rounds_Some [OF r d] v show "distinct (concat (ds_waves s))"
    "set (concat (ds_waves s)) = set (map dn_node_id nodes)" "list_all (bounded_wave mp) (ds_waves s)"
    by (auto simp: s list_all_iff bounded_wave_def valid_dag_input_def le_nat_iff)
  have "wave_index ws e < wave_index ws (dn_node_id n)" if "n \<in> set nodes" "e \<in> set (dn_depends_on n)" for n e
  proof -
    have "(e, dn_node_id n) \<in> edges (dag_dependencies nodes) ?ids"
      using that v by (auto simp: edges_def valid_dag_input_def dag_dependencies_of list_all_iff)
    with bounded_rounds.run_index [OF r' d] show ?thesis by blast
  qed
  then show "list_all (\<lambda>n. list_all (\<lambda>d. wave_index (ds_waves s) d < wave_index (ds_waves s) (dn_node_id n)) (dn_depends_on n)) nodes"
    by (simp add: s list_all_iff)
qed

lemma schedule_dag_complete:
  assumes "valid_dag_input nodes mp" "acyclic (dag_relation nodes)"
  shows "\<exists>s. schedule_dag nodes mp = Inr s"
proof -
  obtain k where mp: "nat mp = Suc k" using assms(1) by (cases "nat mp") (auto simp: valid_dag_input_def)
  have d: "distinct (sort (map dn_node_id nodes))" using assms(1) by (auto simp: valid_dag_input_def)
  have "\<exists>ws. rounds (Some (nat mp)) (dag_dependencies nodes) (sort (map dn_node_id nodes)) = Some ws"
    unfolding mp bounded_rounds.run_iff_acyclic [OF d] edges_sort using assms(2) by (simp add: dag_relation_def)
  with assms(1) show ?thesis by (auto simp: schedule_dag_cases)
qed

definition valid_propagation_input :: "PropagationNode list \<Rightarrow> string list \<Rightarrow> int option \<Rightarrow> bool" where
  "valid_propagation_input nodes cancellation root \<longleftrightarrow> nodes \<noteq> [] \<and> length nodes \<le> 100 \<and>
     pred_option (\<lambda>d. 0 < d) root \<and> distinct (map pg_node_id nodes) \<and> known_dependencies nodes \<and>
     distinct cancellation \<and> set cancellation \<subseteq> set (map pg_node_id nodes)"

definition propagation_relation :: "PropagationNode list \<Rightarrow> (string \<times> string) set" where
  "propagation_relation nodes = edges (propagation_dependencies nodes) (map pg_node_id nodes)"

lemma propagation_input_check_None:
  "propagation_input_check nodes cancellation root = None \<longleftrightarrow> valid_propagation_input nodes cancellation root"
  unfolding propagation_input_check_def Let_def first_error_append first_error_map_None
    valid_propagation_input_def known_dependencies_def list_all_iff
  by (cases root) (auto simp: checks MAX_DAG_NODES_def not_less not_le)

lemma deadline_loop_acyclic:
  assumes v: "valid_propagation_input nodes cancellation root"
  shows "deadline_loop nodes root (sort (map pg_node_id nodes)) Map.empty =
    (if acyclic (propagation_relation nodes)
     then Inr (\<lambda>i. if i \<in> pg_node_id ` set nodes then Some (final_deadline nodes root i) else None)
     else Inl (value_error ''propagation graph contains a dependency cycle''))"
proof -
  let ?ids = "sort (map pg_node_id nodes)"
  have "known_dependencies nodes" and d: "distinct ?ids" using v by (auto simp: valid_propagation_input_def)
  then have "deadline_loop nodes root ?ids Map.empty =
    (case rounds None (propagation_dependencies nodes) ?ids of
       None \<Rightarrow> Inl (value_error ''propagation graph contains a dependency cycle'')
     | Some _ \<Rightarrow> Inr (\<lambda>i. if i \<in> set ?ids then Some (final_deadline nodes root i) else Map.empty i))"
    by (intro deadline_loop_final) auto
  then show ?thesis
    using full_rounds.run_iff_acyclic [OF d, of "propagation_dependencies nodes"]
    by (auto simp: edges_sort propagation_relation_def split: option.splits)
qed

definition final_disposition :: "PropagationNode list \<Rightarrow> string list \<Rightarrow> int option \<Rightarrow> string \<Rightarrow> NodeDisposition" where
  "final_disposition nodes cancellation root i =
     \<lparr>nd_node_id = i, nd_cancellation_requested = (i \<in> set (cancel_closure nodes cancellation)),
      nd_effective_deadline = final_deadline nodes root i\<rparr>"

lemma propagation_plan_Inr_iff:
  "plan_cancellation_deadline_propagation nodes cancellation root = Inr plan \<longleftrightarrow>
     valid_propagation_input nodes cancellation root \<and> acyclic (propagation_relation nodes) \<and>
     plan = \<lparr>cp_nodes = map (final_disposition nodes cancellation root) (sort (map pg_node_id nodes)),
             cp_execution_performed = False\<rparr>"
proof (cases "valid_propagation_input nodes cancellation root")
  case False
  then show ?thesis
    unfolding plan_cancellation_deadline_propagation_def
    by (auto simp: propagation_input_check_None [symmetric] split: option.splits)
next
  case True
  let ?ids = "sort (map pg_node_id nodes)"
  have m: "mapE (disposition (cancel_closure nodes cancellation)
      (\<lambda>i. if i \<in> pg_node_id ` set nodes then Some (final_deadline nodes root i) else None)) ?ids =
      Inr (map (final_disposition nodes cancellation root) ?ids)"
    by (simp add: mapE_Inr_iff list_all2_map2 list_all2_same disposition_def final_disposition_def)
  have "cancellation_plan_check \<lparr>cp_nodes = map (final_disposition nodes cancellation root) ?ids,
      cp_execution_performed = False\<rparr> = None"
    using True by (simp add: cancellation_plan_check_def checks comp_def valid_propagation_input_def final_disposition_def)
  then show ?thesis
    unfolding plan_cancellation_deadline_propagation_def Let_def deadline_loop_acyclic [OF True]
      propagation_input_check_None [THEN iffD2, OF True]
    using True by (auto simp: m construct_Inr_iff)
qed

subsection \<open>Properties\<close>

text \<open>C10. The DAG scheduler is exact: it returns a schedule precisely for inputs within the bounds, with
  unique ids and known dependencies, whose dependency relation is acyclic. The waves then hold every
  node exactly once, none is empty or larger than \<open>max_parallel\<close>, and every dependency of a node is
  in a strictly earlier wave.\<close>
theorem dag_schedule_exact:
  "case schedule_dag nodes mp of
     Inl _ \<Rightarrow> \<not> (valid_dag_input nodes mp \<and> acyclic (dag_relation nodes))
   | Inr s \<Rightarrow> valid_dag_input nodes mp \<and> acyclic (dag_relation nodes) \<and>
       distinct (concat (ds_waves s)) \<and> set (concat (ds_waves s)) = set (map dn_node_id nodes) \<and>
       list_all (bounded_wave mp) (ds_waves s) \<and>
       list_all (\<lambda>n. list_all (\<lambda>d. wave_index (ds_waves s) d < wave_index (ds_waves s) (dn_node_id n))
         (dn_depends_on n)) nodes"
proof (cases "schedule_dag nodes mp")
  case (Inl e)
  with schedule_dag_complete [of nodes mp] show ?thesis by auto
next
  case (Inr s)
  then have "valid_dag_input nodes mp" by (simp add: schedule_dag_cases)
  with schedule_dag_sound [OF Inr] Inr show ?thesis by simp
qed

text \<open>The batch scheduler returns a schedule precisely for 1 to 50 distinct ids and a parallelism of
  1 to 6; its waves are then the sorted ids cut in order, every wave but the last is full, and no wave
  is empty or too large.\<close>
theorem batch_schedule_exact:
  "case schedule_bounded_batch ids mp of
     Inl _ \<Rightarrow> \<not> (ids \<noteq> [] \<and> length ids \<le> 50 \<and> 1 \<le> mp \<and> mp \<le> 6 \<and> distinct ids)
   | Inr s \<Rightarrow> ids \<noteq> [] \<and> length ids \<le> 50 \<and> 1 \<le> mp \<and> mp \<le> 6 \<and> distinct ids \<and>
       concat (bs_waves s) = sort ids \<and> list_all (bounded_wave mp) (bs_waves s) \<and>
       list_all (\<lambda>w. int (length w) = mp) (butlast (bs_waves s))"
proof -
  let ?s = "\<lparr>bs_waves = chunks (nat mp) (sort ids), bs_max_parallel = mp, bs_execution_performed = False\<rparr>"
  let ?valid = "ids \<noteq> [] \<and> length ids \<le> 50 \<and> 1 \<le> mp \<and> mp \<le> 6 \<and> distinct ids"
  have good: "concat (bs_waves ?s) = sort ids" "list_all (bounded_wave mp) (bs_waves ?s)"
    "list_all (\<lambda>w. int (length w) = mp) (butlast (bs_waves ?s))" if v: ?valid
  proof -
    have p: "0 < nat mp" using v by simp
    show "concat (bs_waves ?s) = sort ids" by (simp add: concat_chunks [OF p])
    show "list_all (bounded_wave mp) (bs_waves ?s)"
      using v by (auto simp: list_all_iff bounded_wave_def dest!: chunks_bounds)
    show "list_all (\<lambda>w. int (length w) = mp) (butlast (bs_waves ?s))"
      using full_chunks [OF p, of "sort ids"] v by (auto simp: list_all_iff)
  qed
  have valid: "batch_input_check ids mp = None \<longleftrightarrow> ?valid"
    by (auto simp: batch_input_check_def checks MAX_BATCH_NODES_def MAX_PARALLEL_def)
  have "batch_schedule_check ?s = None" if ?valid
    using good [OF that] that by (simp add: batch_schedule_check_def checks MAX_PARALLEL_def)
  then have exact: "schedule_bounded_batch ids mp = Inr s \<longleftrightarrow> ?valid \<and> s = ?s" for s
    unfolding schedule_bounded_batch_def valid [symmetric] by (auto simp: construct_Inr_iff split: option.splits)
  show ?thesis
  proof (cases "schedule_bounded_batch ids mp")
    case (Inl e)
    with exact [of ?s] show ?thesis by simp
  next
    case (Inr s)
    with exact [of s] have "?valid" "s = ?s" by simp_all
    with good show ?thesis unfolding Inr sum.case by (intro conjI) simp_all
  qed
qed

text \<open>A composed Planner and Outlook DAG plan is safe to hand on: when it is built, no Outlook node
  mutates, both applications occur, the node dependencies are acyclic, every node of the request is
  scheduled exactly once after its dependencies, and nothing was executed.\<close>
theorem m365_dag_plan_safe:
  assumes "build_m365_dag_plan key nodes mp = Inr p"
  shows "dr_nodes (md_request p) = nodes \<and> \<not> md_execution_performed p \<and>
    list_all (\<lambda>n. do_application n = OUTLOOK \<longrightarrow> \<not> do_mutation n) nodes \<and>
    list_ex (\<lambda>n. do_application n = PLANNER) nodes \<and> list_ex (\<lambda>n. do_application n = OUTLOOK) nodes \<and>
    distinct (concat (ds_waves (md_schedule p))) \<and>
    set (concat (ds_waves (md_schedule p))) = set (map do_node_id nodes) \<and>
    list_all (\<lambda>n. list_all (\<lambda>d. wave_index (ds_waves (md_schedule p)) d
        < wave_index (ds_waves (md_schedule p)) (do_node_id n)) (do_depends_on n)) nodes"
proof -
  let ?node = "\<lambda>n. \<lparr>dn_node_id = do_node_id n, dn_depends_on = do_depends_on n\<rparr>"
  from assms obtain sn where sn: "mapE (\<lambda>n. construct dag_node_check (?node n)) nodes = Inr sn"
    and sch: "schedule_dag sn mp = Inr (md_schedule p)"
    and apps: "0 < length (filter (\<lambda>n. do_application n = PLANNER) nodes)"
      "0 < length (filter (\<lambda>n. do_application n = OUTLOOK) nodes)"
    and safe: "\<not> list_ex (\<lambda>n. do_application n = OUTLOOK \<and> do_mutation n) nodes"
    and p: "dr_nodes (md_request p) = nodes" "\<not> md_execution_performed p"
    by (auto simp: build_m365_dag_plan_def Let_def bindE_Inr_iff construct_Inr_iff split: if_splits)
  have "list_all2 (\<lambda>n v. v = ?node n) nodes sn"
    using sn unfolding mapE_Inr_iff by (rule list_all2_mono) (simp add: construct_Inr_iff)
  then have "sn = map ?node nodes" by (induction rule: list_all2_induct) simp_all
  with schedule_dag_sound [OF sch] apps safe p show ?thesis
    by (auto simp: list_all_iff list_ex_iff comp_def filter_empty_conv)
qed

definition sample_dag :: "DagOperationNode list" where
  "sample_dag = [
     \<lparr>do_node_id = ''b'', do_application = OUTLOOK, do_tool_name = ''t'', do_depends_on = [''a''], do_mutation = False\<rparr>,
     \<lparr>do_node_id = ''a'', do_application = PLANNER, do_tool_name = ''t'', do_depends_on = [], do_mutation = True\<rparr>]"

theorem m365_dag_plan_safe_witness:
  "\<exists>p. build_m365_dag_plan ''k'' sample_dag 2 = Inr p \<and> ds_waves (md_schedule p) = [[''a''], [''b'']] \<and>
     \<not> md_execution_performed p"
proof -
  have "case build_m365_dag_plan ''k'' sample_dag 2 of Inl e \<Rightarrow> False
      | Inr p \<Rightarrow> ds_waves (md_schedule p) = [[''a''], [''b'']]"
    by code_simp
  then obtain p where p: "build_m365_dag_plan ''k'' sample_dag 2 = Inr p" "ds_waves (md_schedule p) = [[''a''], [''b'']]"
    by (blast dest: Inr_caseD)
  with m365_dag_plan_safe [OF p(1)] show ?thesis by blast
qed

text \<open>C16. Cancellation and deadlines propagate exactly along the dependencies: the planner returns a plan
  precisely for valid inputs with an acyclic relation; the plan has one disposition per node in sorted
  order, a node is cancelled exactly when it is or transitively depends on a requested node, and its
  effective deadline is the least of the root's deadline and those of the node and all its
  ancestors (none if there is none).\<close>
theorem propagation_exact:
  "case plan_cancellation_deadline_propagation nodes cancellation root of
     Inl _ \<Rightarrow> \<not> (valid_propagation_input nodes cancellation root \<and> acyclic (propagation_relation nodes))
   | Inr plan \<Rightarrow> valid_propagation_input nodes cancellation root \<and> acyclic (propagation_relation nodes) \<and>
       map nd_node_id (cp_nodes plan) = sort (map pg_node_id nodes) \<and>
       list_all (\<lambda>d. (nd_cancellation_requested d \<longleftrightarrow>
             (\<exists>c. c \<in> set cancellation \<and> (c, nd_node_id d) \<in> (propagation_relation nodes)\<^sup>*)) \<and>
           nd_effective_deadline d = least_of {x. root = Some x \<or>
             (\<exists>m. (m, nd_node_id d) \<in> (propagation_relation nodes)\<^sup>* \<and> own_deadline nodes m = Some x)})
         (cp_nodes plan)"
proof (cases "plan_cancellation_deadline_propagation nodes cancellation root")
  case (Inl e)
  with propagation_plan_Inr_iff [of nodes cancellation root] show ?thesis by auto
next
  case (Inr pl)
  then have v: "valid_propagation_input nodes cancellation root" and ac: "acyclic (propagation_relation nodes)"
    and pl: "cp_nodes pl = map (final_disposition nodes cancellation root) (sort (map pg_node_id nodes))"
    by (auto simp: propagation_plan_Inr_iff)
  have "set (cancel_closure nodes cancellation) = (propagation_relation nodes)\<^sup>* `` set cancellation"
    unfolding propagation_relation_def using v by (intro cancel_closure_set) (auto simp: valid_propagation_input_def)
  then show ?thesis
    using v ac by (auto simp: Inr pl comp_def list_all_iff final_disposition_def final_deadline_def
        reaching_deadlines_def propagation_relation_def)
qed

end
