(* ===== verification/Runbooks.thy ===== *)
(*  Runbook registry, serialisation, promotion, typed bindings and minimum context of m365_mcp. *)

theory Runbooks
  imports Scheduling
begin

text \<open>
  \<open>xapp_runbook_registry.py\<close>: versioned registrations and their two look-ups (\<open>resolve_exact\<close>,
  \<open>latest_published\<close>). \<open>xapp_runbook_serialization.py\<close>: the canonical text of a runbook and its
  digest. \<open>xapp_runbook_promotion.py\<close>: the life cycle draft, published, retired.
  \<open>xapp_typed_bindings.py\<close>: which output of one node feeds which input of another.
  \<open>context_economics.py\<close> and \<open>xapp_minimum_context.py\<close>: the bounded envelope of references handed
  over on escalation; the two floating-point ratios of the metrics are left out. The three packaged
  runbooks (\<open>xapp_daily_m365_context_runbook.py\<close>, \<open>xapp_meeting_preparation_runbook.py\<close>,
  \<open>xapp_project_mail_follow_up_runbook.py\<close>) are built through the same validators.

  The results: what the look-ups return, that the digest identifies a runbook up to the order of
  nodes, dependencies and bindings, that a binding set is well typed and single-valued, that a
  registration is promoted at most twice and never backwards, and that the packaged runbooks are
  valid and schedulable.
\<close>

subsection \<open>Registry\<close>

datatype RunbookLifecycle = DRAFT | PUBLISHED | RETIRED

fun runbook_lifecycle_value :: "RunbookLifecycle \<Rightarrow> string" where
  "runbook_lifecycle_value DRAFT = ''DRAFT''"
| "runbook_lifecycle_value PUBLISHED = ''PUBLISHED''"
| "runbook_lifecycle_value RETIRED = ''RETIRED''"

definition MAX_RUNBOOKS :: nat where "MAX_RUNBOOKS = 200"

datatype RunbookVersion = RunbookVersion (rv_major: int) (rv_minor: int) (rv_patch: int)

fun version_tuple :: "RunbookVersion \<Rightarrow> int \<times> int \<times> int" where
  "version_tuple (RunbookVersion a b c) = (a, b, c)"

text \<open>A dataclass with \<open>order=True\<close> compares the tuples of its fields.\<close>

instantiation RunbookVersion :: linorder
begin

definition less_eq_RunbookVersion :: "RunbookVersion \<Rightarrow> RunbookVersion \<Rightarrow> bool" where
  "less_eq_RunbookVersion v w \<longleftrightarrow> version_tuple v \<le> version_tuple w"

definition less_RunbookVersion :: "RunbookVersion \<Rightarrow> RunbookVersion \<Rightarrow> bool" where
  "less_RunbookVersion v w \<longleftrightarrow> version_tuple v < version_tuple w"

instance
proof
  fix v w u :: RunbookVersion
  show "v < w \<longleftrightarrow> v \<le> w \<and> \<not> w \<le> v"
    by (auto simp: less_eq_RunbookVersion_def less_RunbookVersion_def)
  show "v \<le> v" by (simp add: less_eq_RunbookVersion_def)
  show "v \<le> w \<Longrightarrow> w \<le> u \<Longrightarrow> v \<le> u" by (simp add: less_eq_RunbookVersion_def)
  show "v \<le> w \<Longrightarrow> w \<le> v \<Longrightarrow> v = w"
    by (cases v; cases w) (auto simp: less_eq_RunbookVersion_def)
  show "v \<le> w \<or> w \<le> v" by (auto simp: less_eq_RunbookVersion_def)
qed

end

definition runbook_version_check :: "RunbookVersion \<Rightarrow> exn option" where
  "runbook_version_check v = raise_if (min (rv_major v) (min (rv_minor v) (rv_patch v)) < 0)
     (value_error ''runbook version components must be non-negative'')"

definition version_text :: "RunbookVersion \<Rightarrow> string" where
  "version_text v = py_int (rv_major v) @ ''.'' @ py_int (rv_minor v) @ ''.'' @ py_int (rv_patch v)"

record RunbookRegistration =
  rr_runbook_key :: string
  rr_version :: RunbookVersion
  rr_definition_reference_id :: string
  rr_lifecycle :: RunbookLifecycle

definition runbook_registration_check :: "RunbookRegistration \<Rightarrow> exn option" where
  "runbook_registration_check r = first_error [
     semantic_token ''runbook_key'' (rr_runbook_key r),
     raise_if (\<not> is_digest (rr_definition_reference_id r))
       (value_error ''definition_reference_id must be lowercase SHA-256 hex'')]"

definition registry_key :: "RunbookRegistration \<Rightarrow> string \<times> RunbookVersion" where
  "registry_key r = (rr_runbook_key r, rr_version r)"

definition registration_projection :: "RunbookRegistration \<Rightarrow> json" where
  "registration_projection r = JObj [
     (''runbook_key'', JStr (rr_runbook_key r)),
     (''version'', JStr (version_text (rr_version r))),
     (''definition_reference_id'', JStr (rr_definition_reference_id r)),
     (''lifecycle'', JStr (runbook_lifecycle_value (rr_lifecycle r)))]"

definition runbook_registry_check :: "RunbookRegistration list \<Rightarrow> exn option" where
  "runbook_registry_check rs = first_error [
     raise_if (MAX_RUNBOOKS < length rs) (value_error ''runbook registry exceeds bounded size''),
     raise_if (\<not> distinct (map registry_key rs))
       (value_error ''runbook registry contains duplicate key/version'')]"

definition resolve_exact ::
  "RunbookRegistration list \<Rightarrow> string \<Rightarrow> RunbookVersion \<Rightarrow> RunbookRegistration result" where
  "resolve_exact registrations key version = (case semantic_token ''runbook_key'' key of
      Some e \<Rightarrow> Inl e
    | None \<Rightarrow> (case filter (\<lambda>r. rr_runbook_key r = key \<and> rr_version r = version) registrations of
          [r] \<Rightarrow> Inr r
        | _ \<Rightarrow> Inl (value_error ''runbook key/version must resolve exactly once'')))"

definition latest_published :: "RunbookRegistration list \<Rightarrow> string \<Rightarrow> RunbookRegistration result" where
  "latest_published registrations key = (case semantic_token ''runbook_key'' key of
      Some e \<Rightarrow> Inl e
    | None \<Rightarrow> (case filter (\<lambda>r. rr_runbook_key r = key \<and> rr_lifecycle r = PUBLISHED) registrations of
          [] \<Rightarrow> Inl (value_error ''runbook has no published version'')
        | r # rs \<Rightarrow> Inr (max_by rr_version r rs)))"

subsection \<open>Canonical text and digest\<close>

definition MAX_BINDINGS :: nat where "MAX_BINDINGS = 100"

record CanonicalRunbookNode =
  cn_node_id :: string
  cn_tool_name :: string
  cn_depends_on :: "string list"
  cn_input_binding_keys :: "string list"

definition runbook_node_check :: "CanonicalRunbookNode \<Rightarrow> exn option" where
  "runbook_node_check n = first_error ([
     semantic_token ''node_id'' (cn_node_id n), semantic_token ''tool_name'' (cn_tool_name n),
     raise_if (cn_node_id n \<in> set (cn_depends_on n)) (value_error ''runbook node cannot depend on itself''),
     raise_if (\<not> distinct (cn_depends_on n)) (value_error ''runbook dependencies must be unique''),
     raise_if (MAX_BINDINGS < length (cn_input_binding_keys n))
       (value_error ''runbook input bindings exceed bounded size''),
     raise_if (\<not> distinct (cn_input_binding_keys n)) (value_error ''runbook input binding keys must be unique'')]
   @ map (semantic_token ''runbook reference'') (cn_depends_on n @ cn_input_binding_keys n))"

definition node_projection :: "CanonicalRunbookNode \<Rightarrow> json" where
  "node_projection n = JObj [
     (''node_id'', JStr (cn_node_id n)),
     (''tool_name'', JStr (cn_tool_name n)),
     (''depends_on'', JList (map JStr (sort (cn_depends_on n)))),
     (''input_binding_keys'', JList (map JStr (sort (cn_input_binding_keys n))))]"

record CanonicalRunbook =
  rb_runbook_key :: string
  rb_version :: string
  rb_nodes :: "CanonicalRunbookNode list"

definition canonical_runbook_check :: "CanonicalRunbook \<Rightarrow> exn option" where
  "canonical_runbook_check r = (let ids = map cn_node_id (rb_nodes r) in first_error ([
     semantic_token ''runbook_key'' (rb_runbook_key r), semantic_token ''version'' (rb_version r),
     raise_if (rb_nodes r = []) (value_error ''runbook requires at least one node''),
     raise_if (MAX_DAG_NODES < length (rb_nodes r)) (value_error ''runbook exceeds bounded node count''),
     raise_if (\<not> distinct ids) (value_error ''runbook node ids must be unique'')]
   @ map (\<lambda>n. raise_if (\<not> set (cn_depends_on n) \<subseteq> set ids)
       (value_error ''runbook dependency references unknown node'')) (rb_nodes r)))"

definition runbook_projection :: "CanonicalRunbook \<Rightarrow> json" where
  "runbook_projection r = JObj [
     (''runbook_key'', JStr (rb_runbook_key r)),
     (''version'', JStr (rb_version r)),
     (''nodes'', JList (map node_projection (sort_key cn_node_id (rb_nodes r))))]"

definition canonical_runbook_json :: "CanonicalRunbook \<Rightarrow> string" where
  "canonical_runbook_json r = dumps False (runbook_projection r)"

definition canonical_runbook_digest :: "CanonicalRunbook \<Rightarrow> string" where
  "canonical_runbook_digest r = sha256_text (canonical_runbook_json r)"

subsection \<open>Promotion\<close>

datatype RunbookPromotionAction = PUBLISH | RETIRE

record RunbookPromotionPlan =
  rpp_before :: RunbookRegistration
  rpp_after :: RunbookRegistration
  rpp_action :: RunbookPromotionAction
  rpp_execution_performed :: bool

definition promotion_plan_check :: "RunbookPromotionPlan \<Rightarrow> exn option" where
  "promotion_plan_check p = first_error [
     raise_if (rpp_execution_performed p) (value_error ''runbook promotion plan must not execute''),
     raise_if (registry_key (rpp_before p) \<noteq> registry_key (rpp_after p))
       (value_error ''runbook promotion cannot change key/version identity''),
     raise_if (rr_definition_reference_id (rpp_before p) \<noteq> rr_definition_reference_id (rpp_after p))
       (value_error ''runbook promotion cannot change definition identity'')]"

fun promotion_target :: "RunbookLifecycle \<Rightarrow> RunbookPromotionAction \<Rightarrow> RunbookLifecycle option" where
  "promotion_target DRAFT PUBLISH = Some PUBLISHED"
| "promotion_target PUBLISHED RETIRE = Some RETIRED"
| "promotion_target _ _ = None"

definition prepare_runbook_promotion ::
  "RunbookRegistration \<Rightarrow> RunbookPromotionAction \<Rightarrow> string \<Rightarrow> RunbookPromotionPlan result" where
  "prepare_runbook_promotion r action canonical_definition_digest =
     (if canonical_definition_digest \<noteq> rr_definition_reference_id r
      then Inl (value_error ''runbook canonical definition digest does not match registry'')
      else (case promotion_target (rr_lifecycle r) action of
          None \<Rightarrow> Inl (value_error ''runbook promotion lifecycle transition is not allowed'')
        | Some target \<Rightarrow> bindE (construct runbook_registration_check (r\<lparr>rr_lifecycle := target\<rparr>)) (\<lambda>after.
            construct promotion_plan_check
              \<lparr>rpp_before = r, rpp_after = after, rpp_action = action, rpp_execution_performed = False\<rparr>)))"

subsection \<open>Typed bindings\<close>

datatype BindingValueKind = SCALAR | ROW | ROW_SET | ARTIFACT | EVIDENCE

record TypedOutputReference =
  to_producer_node_id :: string
  to_output_key :: string
  to_value_kind :: BindingValueKind
  to_reference_id :: string

definition output_reference_check :: "TypedOutputReference \<Rightarrow> exn option" where
  "output_reference_check t = first_error [
     semantic_token ''producer_node_id'' (to_producer_node_id t),
     semantic_token ''output_key'' (to_output_key t),
     raise_if (\<not> is_digest (to_reference_id t))
       (ValueError ''{} must be lowercase SHA-256 hex'' [''reference_id''])]"

record TypedInputBinding =
  tb_consumer_node_id :: string
  tb_input_key :: string
  tb_expected_kind :: BindingValueKind
  tb_source :: TypedOutputReference

definition input_binding_check :: "TypedInputBinding \<Rightarrow> exn option" where
  "input_binding_check b = first_error [
     semantic_token ''consumer_node_id'' (tb_consumer_node_id b),
     semantic_token ''input_key'' (tb_input_key b),
     raise_if (tb_consumer_node_id b = to_producer_node_id (tb_source b))
       (value_error ''binding cannot feed a node from its own output''),
     raise_if (tb_expected_kind b \<noteq> to_value_kind (tb_source b))
       (value_error ''binding value kind does not match consumer expectation'')]"

definition binding_target :: "TypedInputBinding \<Rightarrow> string \<times> string" where
  "binding_target b = (tb_consumer_node_id b, tb_input_key b)"

definition binding_set_check :: "TypedInputBinding list \<Rightarrow> exn option" where
  "binding_set_check bs = first_error [
     raise_if (MAX_BINDINGS < length bs) (value_error ''typed binding set exceeds bounded size''),
     raise_if (\<not> distinct (map binding_target bs)) (value_error ''consumer input may be bound only once'')]"

definition for_consumer :: "TypedInputBinding list \<Rightarrow> string \<Rightarrow> TypedInputBinding list result" where
  "for_consumer bs node_id = (case semantic_token ''node_id'' node_id of
      Some e \<Rightarrow> Inl e
    | None \<Rightarrow> Inr (sort_key tb_input_key (filter (\<lambda>b. tb_consumer_node_id b = node_id) bs)))"

text \<open>Building a set the way the constructors run: the references, then the bindings, then the set.\<close>

definition build_binding :: "TypedInputBinding \<Rightarrow> TypedInputBinding result" where
  "build_binding b = bindE (construct output_reference_check (tb_source b)) (\<lambda>src.
     construct input_binding_check (b\<lparr>tb_source := src\<rparr>))"

definition build_binding_set :: "TypedInputBinding list \<Rightarrow> TypedInputBinding list result" where
  "build_binding_set bs = bindE (mapE build_binding bs) (construct binding_set_check)"

subsection \<open>Minimum context\<close>

record ContextEconomicsSample =
  ces_input_items :: int
  ces_output_items :: int
  ces_input_units :: int
  ces_output_units :: int

definition economics_check :: "ContextEconomicsSample \<Rightarrow> exn option" where
  "economics_check s = first_error (
     map (\<lambda>(field, v). raise_if (v < 0) (ValueError ''{} must be non-negative'' [field]))
       [(''input_items'', ces_input_items s), (''output_items'', ces_output_items s),
        (''input_units'', ces_input_units s), (''output_units'', ces_output_units s)]
   @ [raise_if (ces_input_items s < ces_output_items s)
       (value_error ''output_items cannot exceed input_items for reduction metrics'')])"

definition avoided_items :: "ContextEconomicsSample \<Rightarrow> int" where
  "avoided_items s = ces_input_items s - ces_output_items s"

definition avoided_units :: "ContextEconomicsSample \<Rightarrow> int" where
  "avoided_units s = max 0 (ces_input_units s - ces_output_units s)"

definition aggregate_context_economics :: "ContextEconomicsSample list \<Rightarrow> ContextEconomicsSample result" where
  "aggregate_context_economics ss = construct economics_check
     \<lparr>ces_input_items = sum_list (map ces_input_items ss), ces_output_items = sum_list (map ces_output_items ss),
      ces_input_units = sum_list (map ces_input_units ss), ces_output_units = sum_list (map ces_output_units ss)\<rparr>"

definition MAX_CONTEXT_REFERENCES :: nat where "MAX_CONTEXT_REFERENCES = 50"

text \<open>A token that also excludes the at sign of an address.\<close>

definition address_free_token :: "string \<Rightarrow> string \<Rightarrow> exn option" where
  "address_free_token field v = raise_if (bad_token v \<or> is_url v \<or> CHR ''@'' \<in> set v)
     (ValueError ''{} must be a non-empty semantic token'' [field])"

type_synonym context_reference = "string \<times> string"

fun context_reference_check :: "context_reference \<Rightarrow> exn option" where
  "context_reference_check (context_kind, reference_id) = first_error [
     address_free_token ''context_kind'' context_kind,
     raise_if (\<not> is_digest reference_id) (value_error ''reference_id must be lowercase SHA-256 hex'')]"

record MinimumContextEnvelope =
  mc_references :: "context_reference list"
  mc_economics :: ContextEconomicsSample
  mc_escalation_reason :: "string option"
  mc_content_included :: bool

definition envelope_check :: "MinimumContextEnvelope \<Rightarrow> exn option" where
  "envelope_check e = first_error [
     raise_if (MAX_CONTEXT_REFERENCES < length (mc_references e))
       (value_error ''minimum context references exceed bounded size''),
     raise_if (\<not> distinct (mc_references e)) (value_error ''minimum context references must be unique''),
     (case mc_escalation_reason e of None \<Rightarrow> None | Some r \<Rightarrow> address_free_token ''escalation_reason'' r),
     raise_if (mc_content_included e) (value_error ''minimum context envelope must not include content'')]"

definition shape_minimum_context ::
  "context_reference list \<Rightarrow> ContextEconomicsSample \<Rightarrow> string option \<Rightarrow> MinimumContextEnvelope result" where
  "shape_minimum_context references economics reason = construct envelope_check
     \<lparr>mc_references = sort references, mc_economics = economics, mc_escalation_reason = reason,
      mc_content_included = False\<rparr>"

subsection \<open>Packaged runbooks\<close>

fun runbook_node :: "string \<times> string \<times> string list \<times> string list \<Rightarrow> CanonicalRunbookNode result" where
  "runbook_node (node_id, tool, deps, inputs) = construct runbook_node_check
     \<lparr>cn_node_id = node_id, cn_tool_name = tool, cn_depends_on = deps, cn_input_binding_keys = inputs\<rparr>"

definition build_runbook ::
  "string \<Rightarrow> string \<Rightarrow> (string \<times> string \<times> string list \<times> string list) list \<Rightarrow> CanonicalRunbook result" where
  "build_runbook key version rows = bindE (mapE runbook_node rows) (\<lambda>nodes. construct canonical_runbook_check
     \<lparr>rb_runbook_key = key, rb_version = version, rb_nodes = nodes\<rparr>)"

record PackagedRunbook =
  pk_runbook :: CanonicalRunbook
  pk_definition_reference_id :: string
  pk_execution_performed :: bool
  pk_outlook_live_observed :: bool

definition daily_context_check :: "PackagedRunbook \<Rightarrow> exn option" where
  "daily_context_check p = first_error [
     raise_if (pk_execution_performed p) (value_error ''Daily M365 context runbook must not execute''),
     raise_if (pk_outlook_live_observed p)
       (value_error ''Daily M365 context runbook must not claim Outlook LIVE support''),
     raise_if (pk_definition_reference_id p \<noteq> canonical_runbook_digest (pk_runbook p))
       (value_error ''Daily M365 context digest does not match runbook'')]"

definition meeting_preparation_check :: "PackagedRunbook \<Rightarrow> exn option" where
  "meeting_preparation_check p = first_error [
     raise_if (pk_execution_performed p) (value_error ''meeting-preparation runbook must not execute''),
     raise_if (pk_definition_reference_id p \<noteq> canonical_runbook_digest (pk_runbook p))
       (value_error ''meeting-preparation digest does not match runbook'')]"

definition project_mail_check :: "PackagedRunbook \<Rightarrow> exn option" where
  "project_mail_check p = first_error [
     raise_if (pk_execution_performed p) (value_error ''project/mail follow-up runbook must not execute''),
     raise_if (pk_definition_reference_id p \<noteq> canonical_runbook_digest (pk_runbook p))
       (value_error ''project/mail follow-up digest does not match runbook'')]"

definition package :: "(PackagedRunbook \<Rightarrow> exn option) \<Rightarrow> CanonicalRunbook \<Rightarrow> PackagedRunbook result" where
  "package check r = construct check \<lparr>pk_runbook = r, pk_definition_reference_id = canonical_runbook_digest r,
     pk_execution_performed = False, pk_outlook_live_observed = False\<rparr>"

definition build_daily_m365_context_runbook :: "string \<Rightarrow> PackagedRunbook result" where
  "build_daily_m365_context_runbook version = bindE (build_runbook ''daily-m365-context'' version [
       (''planner-context'', ''planner_project_snapshot'', [], []),
       (''outlook-context'', ''xapp_outlook_daily_work_context'', [], []),
       (''daily-context'', ''xapp_daily_m365_context_projection'', [''outlook-context'', ''planner-context''],
        [''outlook-context-ref'', ''planner-context-ref''])])
     (package daily_context_check)"

definition build_meeting_preparation_runbook :: "string \<Rightarrow> PackagedRunbook result" where
  "build_meeting_preparation_runbook version = bindE (build_runbook ''meeting-preparation'' version [
       (''project-context'', ''planner_project_snapshot'', [], []),
       (''person-context'', ''xapp_outlook_person_context'', [], []),
       (''daily-work-context'', ''xapp_outlook_daily_work_context'', [''person-context''], []),
       (''meeting-brief'', ''xapp_meeting_preparation_projection'', [''daily-work-context'', ''project-context''],
        [''project-ref'', ''person-ref'', ''work-ref''])])
     (package meeting_preparation_check)"

definition build_project_mail_follow_up_runbook :: "string \<Rightarrow> PackagedRunbook result" where
  "build_project_mail_follow_up_runbook version = bindE (build_runbook ''project-mail-follow-up'' version [
       (''project-context'', ''planner_project_snapshot'', [], []),
       (''mail-triage'', ''xapp_outlook_mail_triage'', [], []),
       (''follow-up-projection'', ''xapp_project_mail_follow_up_projection'', [''mail-triage'', ''project-context''],
        [''project-ref'', ''triage-ref''])])
     (package project_mail_check)"

subsection \<open>Lemmas: registry and promotion\<close>

definition published :: "string \<Rightarrow> RunbookRegistration \<Rightarrow> bool" where
  "published key r \<longleftrightarrow> rr_runbook_key r = key \<and> rr_lifecycle r = PUBLISHED"

lemma registry_check_None:
  "runbook_registry_check rs = None \<longleftrightarrow> length rs \<le> MAX_RUNBOOKS \<and> distinct (map registry_key rs)"
  by (auto simp: runbook_registry_check_def checks)

lemma registry_unique:
  "distinct (map registry_key rs) \<Longrightarrow> r \<in> set rs \<Longrightarrow> s \<in> set rs \<Longrightarrow>
     rr_runbook_key r = rr_runbook_key s \<Longrightarrow> rr_version r = rr_version s \<Longrightarrow> r = s"
  by (auto simp: distinct_map inj_on_def registry_key_def)

lemma filter_unique:
  "distinct xs \<Longrightarrow> x \<in> set xs \<Longrightarrow> P x \<Longrightarrow> (\<And>y. y \<in> set xs \<Longrightarrow> P y \<Longrightarrow> y = x) \<Longrightarrow> filter P xs = [x]"
proof (induction xs)
  case (Cons y ys)
  show ?case
  proof (cases "x = y")
    case True
    have "filter P ys = []" using Cons.prems(1) Cons.prems(4) True by (auto simp: filter_empty_conv)
    with True Cons.prems(3) show ?thesis by simp
  next
    case False
    have "\<not> P y" using Cons.prems(4) [of y] False by auto
    moreover have "filter P ys = [x]" using Cons.prems False by (intro Cons.IH) auto
    ultimately show ?thesis by simp
  qed
qed simp

lemma resolve_exact_unique:
  assumes "distinct (map registry_key rs)" "r \<in> set rs" "token_ok (rr_runbook_key r)"
  shows "resolve_exact rs (rr_runbook_key r) (rr_version r) = Inr r"
proof -
  have "filter (\<lambda>s. rr_runbook_key s = rr_runbook_key r \<and> rr_version s = rr_version r) rs = [r]"
    using assms registry_unique [OF assms(1)] by (intro filter_unique) (auto simp: distinct_map)
  moreover have "semantic_token ''runbook_key'' (rr_runbook_key r) = None"
    using assms(3) by (simp add: checks)
  ultimately show ?thesis by (simp add: resolve_exact_def)
qed

lemma latest_published_Inr:
  "latest_published rs key = Inr r \<longleftrightarrow> token_ok key \<and>
     (\<exists>s ss. filter (published key) rs = s # ss \<and> r = max_by rr_version s ss)"
proof -
  have f: "(\<lambda>r. rr_runbook_key r = key \<and> rr_lifecycle r = PUBLISHED) = published key"
    by (simp add: fun_eq_iff published_def)
  show ?thesis
  proof (cases "semantic_token ''runbook_key'' key")
    case None
    then have "token_ok key" by (simp add: checks)
    with None show ?thesis by (auto simp: latest_published_def f split: list.splits)
  next
    case (Some e)
    then have "\<not> token_ok key" by (metis option.distinct(1) semantic_token_None)
    with Some show ?thesis by (simp add: latest_published_def)
  qed
qed

lemma filter_hd_set: "filter P xs = y # ys \<Longrightarrow> x \<in> insert y (set ys) \<longleftrightarrow> x \<in> set xs \<and> P x"
proof -
  assume "filter P xs = y # ys"
  then have "set (filter P xs) = insert y (set ys)" by simp
  then show ?thesis by auto
qed

inductive promotion_step :: "RunbookRegistration \<Rightarrow> RunbookRegistration \<Rightarrow> bool" where
  "prepare_runbook_promotion r a d = Inr p \<Longrightarrow> promotion_step r (rpp_after p)"

fun lifecycle_rank :: "RunbookLifecycle \<Rightarrow> nat" where
  "lifecycle_rank DRAFT = 0"
| "lifecycle_rank PUBLISHED = 1"
| "lifecycle_rank RETIRED = 2"

lemma prepare_promotion_Inr:
  "prepare_runbook_promotion r a d = Inr p \<longleftrightarrow> d = rr_definition_reference_id r \<and>
     runbook_registration_check r = None \<and>
     (\<exists>t. promotion_target (rr_lifecycle r) a = Some t \<and>
       p = \<lparr>rpp_before = r, rpp_after = r\<lparr>rr_lifecycle := t\<rparr>, rpp_action = a, rpp_execution_performed = False\<rparr>)"
  by (auto simp: prepare_runbook_promotion_def bindE_Inr_iff construct_Inr_iff promotion_plan_check_def
      runbook_registration_check_def registry_key_def checks split: option.splits)

lemma promotion_step_iff:
  "promotion_step r s \<longleftrightarrow> runbook_registration_check r = None \<and>
     (\<exists>a t. promotion_target (rr_lifecycle r) a = Some t \<and> s = r\<lparr>rr_lifecycle := t\<rparr>)"
proof
  assume "promotion_step r s"
  then show "runbook_registration_check r = None \<and>
     (\<exists>a t. promotion_target (rr_lifecycle r) a = Some t \<and> s = r\<lparr>rr_lifecycle := t\<rparr>)"
  proof cases
    case (1 a d p)
    from 1(2) have "runbook_registration_check r = None \<and>
        (\<exists>t. promotion_target (rr_lifecycle r) a = Some t \<and> rpp_after p = r\<lparr>rr_lifecycle := t\<rparr>)"
      by (auto simp: prepare_promotion_Inr)
    with 1(1) show ?thesis by blast
  qed
next
  assume "runbook_registration_check r = None \<and>
     (\<exists>a t. promotion_target (rr_lifecycle r) a = Some t \<and> s = r\<lparr>rr_lifecycle := t\<rparr>)"
  then obtain a t where r: "runbook_registration_check r = None" "promotion_target (rr_lifecycle r) a = Some t"
    "s = r\<lparr>rr_lifecycle := t\<rparr>" by blast
  then have "prepare_runbook_promotion r a (rr_definition_reference_id r) =
      Inr \<lparr>rpp_before = r, rpp_after = s, rpp_action = a, rpp_execution_performed = False\<rparr>"
    by (simp add: prepare_promotion_Inr)
  from promotion_step.intros [OF this] show "promotion_step r s" by simp
qed

lemma promotion_target_rank:
  "promotion_target l a = Some t \<Longrightarrow> lifecycle_rank t = Suc (lifecycle_rank l)"
  by (cases "(l, a)" rule: promotion_target.cases) auto

lemma promotion_step_props:
  assumes "promotion_step r s"
  shows "runbook_registration_check s = None" "registry_key s = registry_key r"
    "rr_definition_reference_id s = rr_definition_reference_id r"
    "lifecycle_rank (rr_lifecycle s) = Suc (lifecycle_rank (rr_lifecycle r))"
  using assms promotion_target_rank
  by (auto simp: promotion_step_iff registry_key_def runbook_registration_check_def)

lemma promotion_open:
  "runbook_registration_check r = None \<Longrightarrow> (\<exists>s. promotion_step r s) \<longleftrightarrow> rr_lifecycle r \<noteq> RETIRED"
proof -
  assume v: "runbook_registration_check r = None"
  show ?thesis
  proof (cases "rr_lifecycle r")
    case DRAFT
    with v have "promotion_step r (r\<lparr>rr_lifecycle := PUBLISHED\<rparr>)"
      by (auto simp: promotion_step_iff intro!: exI [of _ PUBLISH])
    with DRAFT show ?thesis by auto
  next
    case PUBLISHED
    with v have "promotion_step r (r\<lparr>rr_lifecycle := RETIRED\<rparr>)"
      by (auto simp: promotion_step_iff intro!: exI [of _ RETIRE])
    with PUBLISHED show ?thesis by auto
  qed (simp add: promotion_step_iff)
qed

subsection \<open>Lemmas: canonical text\<close>

lemma canon_string_list: "canon (JList (map JStr xs)) = JList (map JStr xs)"
  by (simp add: comp_def)

lemma string_list_eq: "canon (JList (map JStr xs)) = canon (JList (map JStr ys)) \<longleftrightarrow> xs = ys"
  unfolding canon_string_list by (auto dest: map_injective simp: inj_def)

lemma node_projection_eqD:
  "canon (node_projection m) = canon (node_projection n) \<Longrightarrow>
     cn_node_id m = cn_node_id n \<and> cn_tool_name m = cn_tool_name n \<and>
     sort (cn_depends_on m) = sort (cn_depends_on n) \<and>
     sort (cn_input_binding_keys m) = sort (cn_input_binding_keys n)"
proof -
  assume h: "canon (node_projection m) = canon (node_projection n)"
  note f = canon_JObj_eqD [OF h [unfolded node_projection_def]]
  show ?thesis
    using f [of "''node_id''"] f [of "''tool_name''"] f [of "''depends_on''"] f [of "''input_binding_keys''"]
    by (simp add: string_list_eq del: canon.simps(1,2))
qed

text \<open>The normal form of a runbook: nodes in the order of their ids, dependencies and bindings sorted.
  Two runbooks with one normal form differ in the order of these lists only.\<close>

definition normal_node :: "CanonicalRunbookNode \<Rightarrow> CanonicalRunbookNode" where
  "normal_node n = n\<lparr>cn_depends_on := sort (cn_depends_on n), cn_input_binding_keys := sort (cn_input_binding_keys n)\<rparr>"

definition normal_runbook :: "CanonicalRunbook \<Rightarrow> CanonicalRunbook" where
  "normal_runbook r = r\<lparr>rb_nodes := map normal_node (sort_key cn_node_id (rb_nodes r))\<rparr>"

lemma normal_node_eq: "canon (node_projection m) = canon (node_projection n) \<longleftrightarrow> normal_node m = normal_node n"
proof
  assume "canon (node_projection m) = canon (node_projection n)"
  from node_projection_eqD [OF this] show "normal_node m = normal_node n"
    by (cases m; cases n) (simp add: normal_node_def)
next
  assume "normal_node m = normal_node n"
  then have "node_projection m = node_projection n"
    by (cases m; cases n) (simp add: normal_node_def node_projection_def)
  then show "canon (node_projection m) = canon (node_projection n)" by simp
qed

lemma normal_nodes_eq:
  "map (canon \<circ> node_projection) ms = map (canon \<circ> node_projection) ns \<longleftrightarrow> map normal_node ms = map normal_node ns"
  by (simp add: list_eq_iff_nth_eq normal_node_eq cong: conj_cong)

lemma projection_eq_iff:
  "canon (runbook_projection r) = canon (runbook_projection s) \<longleftrightarrow> normal_runbook r = normal_runbook s"
proof
  assume h: "canon (runbook_projection r) = canon (runbook_projection s)"
  note f = canon_JObj_eqD [OF h [unfolded runbook_projection_def]]
  have "map (canon \<circ> node_projection) (sort_key cn_node_id (rb_nodes r)) =
      map (canon \<circ> node_projection) (sort_key cn_node_id (rb_nodes s))"
    using f [of "''nodes''"] by (simp add: comp_def)
  moreover have "rb_runbook_key r = rb_runbook_key s" "rb_version r = rb_version s"
    using f [of "''runbook_key''"] f [of "''version''"] by simp_all
  ultimately show "normal_runbook r = normal_runbook s"
    unfolding normal_nodes_eq by (simp add: normal_runbook_def)
next
  assume "normal_runbook r = normal_runbook s"
  then have "rb_runbook_key r = rb_runbook_key s" "rb_version r = rb_version s"
    and "map normal_node (sort_key cn_node_id (rb_nodes r)) = map normal_node (sort_key cn_node_id (rb_nodes s))"
    by (cases r; cases s; simp add: normal_runbook_def)+
  then show "canon (runbook_projection r) = canon (runbook_projection s)"
    unfolding normal_nodes_eq [symmetric] by (simp add: runbook_projection_def comp_def)
qed

lemma normal_runbook_idem: "normal_runbook (normal_runbook r) = normal_runbook r"
proof -
  have n: "normal_node (normal_node n) = normal_node n" for n
    by (simp add: normal_node_def sort_key_id_if_sorted)
  have "cn_node_id (normal_node n) = cn_node_id n" for n by (simp add: normal_node_def)
  then have "sort_key cn_node_id (map normal_node (sort_key cn_node_id ns)) = map normal_node (sort_key cn_node_id ns)" for ns
    by (intro sort_key_id_if_sorted) (simp add: comp_def)
  then show ?thesis by (simp add: normal_runbook_def comp_def n)
qed

interpretation runbook: content_address runbook_projection False canonical_runbook_digest
  "\<lambda>r. normal_runbook r = r"
  by unfold_locales (auto simp: canonical_runbook_digest_def canonical_runbook_json_def projection_eq_iff)

lemma digest_normal: "canonical_runbook_digest (normal_runbook r) = canonical_runbook_digest r"
  "canonical_runbook_json (normal_runbook r) = canonical_runbook_json r"
  using projection_eq_iff [of "normal_runbook r" r] normal_runbook_idem [of r]
  by (simp_all add: canonical_runbook_digest_def canonical_runbook_json_def dumps_def)

text \<open>For valid runbooks the normal form is determined by sets.\<close>

definition node_sets :: "CanonicalRunbookNode \<Rightarrow> string \<times> string \<times> string set \<times> string set" where
  "node_sets n = (cn_node_id n, cn_tool_name n, set (cn_depends_on n), set (cn_input_binding_keys n))"

definition same_runbook :: "CanonicalRunbook \<Rightarrow> CanonicalRunbook \<Rightarrow> bool" where
  "same_runbook r s \<longleftrightarrow> rb_runbook_key r = rb_runbook_key s \<and> rb_version r = rb_version s \<and>
     node_sets ` set (rb_nodes r) = node_sets ` set (rb_nodes s)"

lemma sort_eq_set: "distinct xs \<Longrightarrow> distinct ys \<Longrightarrow> sort xs = sort ys \<longleftrightarrow> set xs = set ys"
  by (metis set_sort sorted_list_of_set_sort_remdups distinct_remdups_id)

definition valid_runbook :: "CanonicalRunbook \<Rightarrow> bool" where
  "valid_runbook r \<longleftrightarrow> canonical_runbook_check r = None \<and> list_all (\<lambda>n. runbook_node_check n = None) (rb_nodes r)"

lemma valid_runbookD:
  assumes "valid_runbook r"
  shows "distinct (map cn_node_id (rb_nodes r))"
    "n \<in> set (rb_nodes r) \<Longrightarrow> distinct (cn_depends_on n) \<and> distinct (cn_input_binding_keys n)"
    "n \<in> set (rb_nodes r) \<Longrightarrow> set (cn_depends_on n) \<subseteq> cn_node_id ` set (rb_nodes r) - {cn_node_id n}"
    "token_ok (rb_version r)" "rb_nodes r \<noteq> []"
  using assms
  by (auto simp: valid_runbook_def canonical_runbook_check_def runbook_node_check_def Let_def checks list_all_iff)

lemma valid_normal_eq:
  assumes r: "valid_runbook r" and s: "valid_runbook s"
  shows "normal_runbook r = normal_runbook s \<longleftrightarrow> same_runbook r s"
proof
  have sets: "node_sets ` set (map normal_node (sort_key cn_node_id ns)) = node_sets ` set ns" for ns
    by (simp add: image_image node_sets_def normal_node_def)
  assume h: "normal_runbook r = normal_runbook s"
  then have "rb_runbook_key r = rb_runbook_key s" "rb_version r = rb_version s"
    and "map normal_node (sort_key cn_node_id (rb_nodes r)) = map normal_node (sort_key cn_node_id (rb_nodes s))"
    by (cases r; cases s; simp add: normal_runbook_def)+
  then show "same_runbook r s"
    unfolding same_runbook_def using sets [of "rb_nodes r"] sets [of "rb_nodes s"] by simp
next
  assume h: "same_runbook r s"
  have inj: "node_sets m = node_sets n \<Longrightarrow> normal_node m = normal_node n"
    if "m \<in> set (rb_nodes r)" "n \<in> set (rb_nodes s)" for m n
    using valid_runbookD(2) [OF r that(1)] valid_runbookD(2) [OF s that(2)]
    by (cases m; cases n) (simp add: node_sets_def normal_node_def sort_eq_set)
  have "normal_node ` set (rb_nodes r) = normal_node ` set (rb_nodes s)"
  proof (intro set_eqI iffI; elim imageE)
    fix x n assume "x = normal_node n" "n \<in> set (rb_nodes r)"
    moreover from this obtain m where "m \<in> set (rb_nodes s)" "node_sets n = node_sets m"
      using h by (metis (no_types, lifting) same_runbook_def imageE imageI)
    ultimately show "x \<in> normal_node ` set (rb_nodes s)" using inj by blast
  next
    fix x n assume "x = normal_node n" "n \<in> set (rb_nodes s)"
    moreover from this obtain m where "m \<in> set (rb_nodes r)" "node_sets n = node_sets m"
      using h by (metis (no_types, lifting) same_runbook_def imageE imageI)
    ultimately show "x \<in> normal_node ` set (rb_nodes r)" using inj by (metis imageI)
  qed
  then have "map normal_node (sort_key cn_node_id (rb_nodes r)) = map normal_node (sort_key cn_node_id (rb_nodes s))"
    (is "?xs = ?ys")
  proof -
    assume img: "normal_node ` set (rb_nodes r) = normal_node ` set (rb_nodes s)"
    have id: "cn_node_id \<circ> normal_node = cn_node_id" by (simp add: fun_eq_iff normal_node_def)
    have d: "distinct (map cn_node_id (map normal_node (sort_key cn_node_id ns)))"
      and st: "sorted (map cn_node_id (map normal_node (sort_key cn_node_id ns)))"
      if "distinct (map cn_node_id ns)" for ns
      using that by (simp_all add: id distinct_map)
    have sets: "set ?xs = set ?ys" using img by simp
    show "?xs = ?ys"
    proof (rule map_sorted_distinct_set_unique)
      show "inj_on cn_node_id (set ?xs \<union> set ?ys)"
        using d [OF valid_runbookD(1) [OF r]] sets by (simp only: Un_absorb distinct_map)
    qed (rule st [OF valid_runbookD(1) [OF r]] st [OF valid_runbookD(1) [OF s]]
        d [OF valid_runbookD(1) [OF r]] d [OF valid_runbookD(1) [OF s]] sets)+
  qed
  with h show "normal_runbook r = normal_runbook s" by (simp add: normal_runbook_def same_runbook_def)
qed

subsection \<open>Lemmas: bindings and packaged runbooks\<close>

lemma build_binding_Inr:
  "build_binding b = Inr b' \<longleftrightarrow> b' = b \<and> output_reference_check (tb_source b) = None \<and> input_binding_check b = None"
  by (auto simp: build_binding_def bindE_Inr_iff construct_Inr_iff)

lemma build_binding_set_Inr:
  "build_binding_set bs = Inr cs \<longleftrightarrow> cs = bs \<and> binding_set_check bs = None \<and>
     list_all (\<lambda>b. output_reference_check (tb_source b) = None \<and> input_binding_check b = None) bs"
proof -
  have "list_all2 (\<lambda>b c. build_binding b = Inr c) bs cs \<longleftrightarrow> cs = bs \<and>
      list_all (\<lambda>b. output_reference_check (tb_source b) = None \<and> input_binding_check b = None) bs" for cs
    unfolding build_binding_Inr by (induction bs arbitrary: cs) (auto simp: list_all2_Cons1)
  then show ?thesis
    by (auto simp: build_binding_set_def bindE_Inr_iff mapE_Inr_iff construct_Inr_iff)
qed

definition well_typed_binding :: "TypedInputBinding \<Rightarrow> bool" where
  "well_typed_binding b \<longleftrightarrow> to_value_kind (tb_source b) = tb_expected_kind b \<and>
     to_producer_node_id (tb_source b) \<noteq> tb_consumer_node_id b \<and> is_digest (to_reference_id (tb_source b)) \<and>
     list_all token_ok [tb_consumer_node_id b, tb_input_key b,
       to_producer_node_id (tb_source b), to_output_key (tb_source b)]"

lemma well_typed_iff:
  "output_reference_check (tb_source b) = None \<and> input_binding_check b = None \<longleftrightarrow> well_typed_binding b"
  by (auto simp: well_typed_binding_def output_reference_check_def input_binding_check_def checks)

lemma sorted_strict_filter:
  "distinct (map binding_target bs) \<Longrightarrow>
     sorted_wrt (<) (map tb_input_key (sort_key tb_input_key (filter (\<lambda>b. tb_consumer_node_id b = n) bs)))"
proof -
  assume d: "distinct (map binding_target bs)"
  let ?cs = "filter (\<lambda>b. tb_consumer_node_id b = n) bs"
  have "inj_on tb_input_key (set ?cs)"
    using d by (auto simp: distinct_map inj_on_def binding_target_def)
  moreover have "distinct ?cs" using d by (auto simp: distinct_map)
  ultimately have "distinct (map tb_input_key (sort_key tb_input_key ?cs))" by (simp add: distinct_map)
  then show ?thesis by (simp add: strict_sorted_iff)
qed

definition schedule_nodes :: "CanonicalRunbook \<Rightarrow> DagScheduleNode list" where
  "schedule_nodes r = map (\<lambda>n. \<lparr>dn_node_id = cn_node_id n, dn_depends_on = cn_depends_on n\<rparr>) (rb_nodes r)"

text \<open>The three builders with the checks of the version separated from the checks of the constants.\<close>

lemma build_runbook_iff:
  assumes "mapE runbook_node rows = Inr nodes"
    and "\<And>v. token_ok v \<Longrightarrow> canonical_runbook_check \<lparr>rb_runbook_key = key, rb_version = v, rb_nodes = nodes\<rparr> = None"
  shows "build_runbook key v rows = Inr r \<longleftrightarrow> token_ok v \<and> r = \<lparr>rb_runbook_key = key, rb_version = v, rb_nodes = nodes\<rparr>"
proof -
  have "canonical_runbook_check \<lparr>rb_runbook_key = key, rb_version = v, rb_nodes = nodes\<rparr> = None \<longleftrightarrow> token_ok v"
  proof
    assume "canonical_runbook_check \<lparr>rb_runbook_key = key, rb_version = v, rb_nodes = nodes\<rparr> = None"
    then show "token_ok v" by (simp add: canonical_runbook_check_def Let_def checks)
  qed (rule assms(2))
  then show ?thesis by (auto simp: build_runbook_def assms(1) construct_Inr_iff)
qed

lemma package_Inr:
  "package check r = Inr p \<longleftrightarrow> check p = None \<and> p = \<lparr>pk_runbook = r,
     pk_definition_reference_id = canonical_runbook_digest r, pk_execution_performed = False,
     pk_outlook_live_observed = False\<rparr>"
  by (auto simp: package_def construct_Inr_iff)

definition daily_nodes :: "CanonicalRunbookNode list" where
  "daily_nodes = [
     \<lparr>cn_node_id = ''planner-context'', cn_tool_name = ''planner_project_snapshot'',
      cn_depends_on = [], cn_input_binding_keys = []\<rparr>,
     \<lparr>cn_node_id = ''outlook-context'', cn_tool_name = ''xapp_outlook_daily_work_context'',
      cn_depends_on = [], cn_input_binding_keys = []\<rparr>,
     \<lparr>cn_node_id = ''daily-context'', cn_tool_name = ''xapp_daily_m365_context_projection'',
      cn_depends_on = [''outlook-context'', ''planner-context''],
      cn_input_binding_keys = [''outlook-context-ref'', ''planner-context-ref'']\<rparr>]"

definition meeting_nodes :: "CanonicalRunbookNode list" where
  "meeting_nodes = [
     \<lparr>cn_node_id = ''project-context'', cn_tool_name = ''planner_project_snapshot'',
      cn_depends_on = [], cn_input_binding_keys = []\<rparr>,
     \<lparr>cn_node_id = ''person-context'', cn_tool_name = ''xapp_outlook_person_context'',
      cn_depends_on = [], cn_input_binding_keys = []\<rparr>,
     \<lparr>cn_node_id = ''daily-work-context'', cn_tool_name = ''xapp_outlook_daily_work_context'',
      cn_depends_on = [''person-context''], cn_input_binding_keys = []\<rparr>,
     \<lparr>cn_node_id = ''meeting-brief'', cn_tool_name = ''xapp_meeting_preparation_projection'',
      cn_depends_on = [''daily-work-context'', ''project-context''],
      cn_input_binding_keys = [''project-ref'', ''person-ref'', ''work-ref'']\<rparr>]"

definition project_mail_nodes :: "CanonicalRunbookNode list" where
  "project_mail_nodes = [
     \<lparr>cn_node_id = ''project-context'', cn_tool_name = ''planner_project_snapshot'',
      cn_depends_on = [], cn_input_binding_keys = []\<rparr>,
     \<lparr>cn_node_id = ''mail-triage'', cn_tool_name = ''xapp_outlook_mail_triage'',
      cn_depends_on = [], cn_input_binding_keys = []\<rparr>,
     \<lparr>cn_node_id = ''follow-up-projection'', cn_tool_name = ''xapp_project_mail_follow_up_projection'',
      cn_depends_on = [''mail-triage'', ''project-context''],
      cn_input_binding_keys = [''project-ref'', ''triage-ref'']\<rparr>]"

definition packaged_ok :: "string \<Rightarrow> CanonicalRunbookNode list \<Rightarrow> bool" where
  "packaged_ok key nodes \<longleftrightarrow> token_ok key \<and> nodes \<noteq> [] \<and> length nodes \<le> MAX_DAG_NODES \<and>
     distinct (map cn_node_id nodes) \<and> list_all (\<lambda>n. runbook_node_check n = None \<and>
       list_all (\<lambda>d. d \<in> set (map cn_node_id nodes)) (cn_depends_on n)) nodes"

lemma packaged_ok_valid:
  "packaged_ok key nodes \<Longrightarrow> token_ok v \<Longrightarrow> valid_runbook \<lparr>rb_runbook_key = key, rb_version = v, rb_nodes = nodes\<rparr>"
  by (auto simp: packaged_ok_def valid_runbook_def canonical_runbook_check_def Let_def checks list_all_iff)

lemma packaged_nodes_ok:
  "packaged_ok ''daily-m365-context'' daily_nodes"
  "packaged_ok ''meeting-preparation'' meeting_nodes"
  "packaged_ok ''project-mail-follow-up'' project_mail_nodes"
  by code_simp+

lemma packaged_rows:
  "mapE runbook_node [
     (''planner-context'', ''planner_project_snapshot'', [], []),
     (''outlook-context'', ''xapp_outlook_daily_work_context'', [], []),
     (''daily-context'', ''xapp_daily_m365_context_projection'', [''outlook-context'', ''planner-context''],
      [''outlook-context-ref'', ''planner-context-ref''])] = Inr daily_nodes"
  "mapE runbook_node [
     (''project-context'', ''planner_project_snapshot'', [], []),
     (''person-context'', ''xapp_outlook_person_context'', [], []),
     (''daily-work-context'', ''xapp_outlook_daily_work_context'', [''person-context''], []),
     (''meeting-brief'', ''xapp_meeting_preparation_projection'', [''daily-work-context'', ''project-context''],
      [''project-ref'', ''person-ref'', ''work-ref''])] = Inr meeting_nodes"
  "mapE runbook_node [
     (''project-context'', ''planner_project_snapshot'', [], []),
     (''mail-triage'', ''xapp_outlook_mail_triage'', [], []),
     (''follow-up-projection'', ''xapp_project_mail_follow_up_projection'', [''mail-triage'', ''project-context''],
      [''project-ref'', ''triage-ref''])] = Inr project_mail_nodes"
  by code_simp+

lemma packaged_build:
  assumes "mapE runbook_node rows = Inr nodes" "packaged_ok key nodes"
    and "\<And>r. check \<lparr>pk_runbook = r, pk_definition_reference_id = canonical_runbook_digest r,
           pk_execution_performed = False, pk_outlook_live_observed = False\<rparr> = None"
    and "schedule_dag (map (\<lambda>n. \<lparr>dn_node_id = cn_node_id n, dn_depends_on = cn_depends_on n\<rparr>) nodes) 6 = Inr s"
  shows "case bindE (build_runbook key v rows) (package check) of
      Inl _ \<Rightarrow> \<not> token_ok v
    | Inr p \<Rightarrow> token_ok v \<and> rb_version (pk_runbook p) = v \<and> valid_runbook (pk_runbook p) \<and>
        pk_definition_reference_id p = canonical_runbook_digest (pk_runbook p) \<and>
        schedule_dag (schedule_nodes (pk_runbook p)) 6 = Inr s"
proof -
  have b: "build_runbook key v rows = Inr r \<longleftrightarrow> token_ok v \<and> r = \<lparr>rb_runbook_key = key, rb_version = v, rb_nodes = nodes\<rparr>" for r
    using assms(1,2) packaged_ok_valid by (intro build_runbook_iff) (auto simp: valid_runbook_def)
  show ?thesis
  proof (cases "token_ok v")
    case True
    with b have "build_runbook key v rows = Inr \<lparr>rb_runbook_key = key, rb_version = v, rb_nodes = nodes\<rparr>" by blast
    with True assms(3,4) packaged_ok_valid [OF assms(2) True] show ?thesis
      by (simp add: package_def construct_def schedule_nodes_def)
  next
    case False
    with b obtain e where "build_runbook key v rows = Inl e" by (cases "build_runbook key v rows") auto
    with False show ?thesis by simp
  qed
qed

subsection \<open>Properties\<close>

text \<open>In a registry that validates, \<open>latest_published\<close> returns exactly the published registration
  of the key whose version is greater than that of every other published one; the exact look-up of its
  version returns it again.\<close>
theorem latest_published_greatest:
  assumes "runbook_registry_check rs = None"
  shows "latest_published rs key = Inr r \<longleftrightarrow>
    token_ok key \<and> r \<in> set rs \<and> published key r \<and> resolve_exact rs key (rr_version r) = Inr r \<and>
    (\<forall>s \<in> set rs. published key s \<longrightarrow> s = r \<or> rr_version s < rr_version r)"
proof -
  have d: "distinct (map registry_key rs)" using assms by (simp add: registry_check_None)
  have max: "max_by rr_version y ys \<in> set rs \<and> published key (max_by rr_version y ys) \<and>
      (\<forall>s \<in> set rs. published key s \<longrightarrow> s = max_by rr_version y ys \<or> rr_version s < rr_version (max_by rr_version y ys))"
    if f: "filter (published key) rs = y # ys" for y ys
  proof (intro conjI ballI impI)
    let ?m = "max_by rr_version y ys"
    have m: "?m \<in> set rs \<and> published key ?m"
      using max_by_in [of rr_version y ys] filter_hd_set [OF f] by blast
    then show "?m \<in> set rs" "published key ?m" by simp_all
    fix s assume s: "s \<in> set rs" "published key s"
    then have "rr_version s \<le> rr_version ?m" using filter_hd_set [OF f] by (intro max_by_ge) blast
    moreover have "rr_version s = rr_version ?m \<Longrightarrow> s = ?m"
      using registry_unique [OF d] s m by (auto simp: published_def)
    ultimately show "s = ?m \<or> rr_version s < rr_version ?m" by (auto simp: le_less)
  qed
  show ?thesis
  proof
    assume "latest_published rs key = Inr r"
    then obtain y ys where k: "token_ok key" and f: "filter (published key) rs = y # ys" and r: "r = max_by rr_version y ys"
      by (auto simp: latest_published_Inr)
    have "resolve_exact rs (rr_runbook_key r) (rr_version r) = Inr r"
      using max [OF f] k r by (intro resolve_exact_unique [OF d]) (auto simp: published_def)
    with max [OF f] k r show "token_ok key \<and> r \<in> set rs \<and> published key r \<and>
        resolve_exact rs key (rr_version r) = Inr r \<and>
        (\<forall>s \<in> set rs. published key s \<longrightarrow> s = r \<or> rr_version s < rr_version r)"
      by (auto simp: published_def)
  next
    assume r: "token_ok key \<and> r \<in> set rs \<and> published key r \<and> resolve_exact rs key (rr_version r) = Inr r \<and>
        (\<forall>s \<in> set rs. published key s \<longrightarrow> s = r \<or> rr_version s < rr_version r)"
    then obtain y ys where f: "filter (published key) rs = y # ys"
      by (cases "filter (published key) rs") (auto simp: filter_empty_conv)
    from r max [OF f] have "r = max_by rr_version y ys" by (metis less_asym)
    with r f show "latest_published rs key = Inr r" by (auto simp: latest_published_Inr)
  qed
qed

definition sample_registry :: "RunbookRegistration list" where
  "sample_registry = map (\<lambda>(a, b, l). \<lparr>rr_runbook_key = ''digest'', rr_version = RunbookVersion a b 0,
     rr_definition_reference_id = replicate 64 CHR ''a'', rr_lifecycle = l\<rparr>)
     [(1, 2, PUBLISHED), (1, 10, PUBLISHED), (2, 0, DRAFT)]"

theorem latest_published_greatest_witness:
  "latest_published sample_registry ''digest'' = Inr (sample_registry ! 1) \<and>
   resolve_exact sample_registry ''digest'' (RunbookVersion 1 10 0) = Inr (sample_registry ! 1)"
proof -
  have v: "runbook_registry_check sample_registry = None" by code_simp
  have l: "latest_published sample_registry ''digest'' = Inr (sample_registry ! 1)" by code_simp
  have "rr_version (sample_registry ! 1) = RunbookVersion 1 10 0" by code_simp
  with l latest_published_greatest [OF v, of "''digest''" "sample_registry ! 1"] show ?thesis by simp
qed

text \<open>Two valid runbooks have one digest exactly when they agree on key, version and set of nodes, a
  node being its id, its tool, the set of its dependencies and the set of its bindings; the order in
  which they were written is immaterial. Otherwise their canonical texts exhibit a SHA-256 collision.\<close>
theorem runbook_digest_identifies:
  assumes "valid_runbook r" and "valid_runbook s"
  shows "(same_runbook r s \<longrightarrow> canonical_runbook_digest r = canonical_runbook_digest s) \<and>
    (canonical_runbook_digest r = canonical_runbook_digest s \<longrightarrow>
       same_runbook r s \<or> digest_collision (canonical_runbook_json r) (canonical_runbook_json s))"
  using valid_normal_eq [OF assms] digest_normal [of r] digest_normal [of s]
    runbook.digest_determines [of "normal_runbook r" "normal_runbook s"]
  by (auto simp: normal_runbook_idem canonical_runbook_json_def)

theorem runbook_digest_identifies_witness:
  "canonical_runbook_digest \<lparr>rb_runbook_key = ''daily-m365-context'', rb_version = ''1.0.0'', rb_nodes = daily_nodes\<rparr> =
   canonical_runbook_digest \<lparr>rb_runbook_key = ''daily-m365-context'', rb_version = ''1.0.0'', rb_nodes = rev daily_nodes\<rparr>"
proof -
  have "packaged_ok ''daily-m365-context'' (rev daily_nodes)" "token_ok ''1.0.0''" by code_simp+
  with packaged_nodes_ok(1) show ?thesis
    by (intro runbook_digest_identifies [THEN conjunct1, THEN mp] packaged_ok_valid)
      (simp_all add: same_runbook_def)
qed


definition sample_binding :: TypedInputBinding where
  "sample_binding = \<lparr>tb_consumer_node_id = ''b'', tb_input_key = ''in'', tb_expected_kind = ROW,
     tb_source = \<lparr>to_producer_node_id = ''a'', to_output_key = ''out'', to_value_kind = ROW,
       to_reference_id = replicate 64 CHR ''0''\<rparr>\<rparr>"


text \<open>Promotion ends: a valid registration can be promoted exactly while it is not retired, every
  promotion advances it by one stage of draft, published, retired and leaves key, version and
  definition alone, so at most two promotions ever apply to it and no stage recurs.\<close>
theorem promotion_terminates:
  assumes "runbook_registration_check r = None" and "(promotion_step ^^ n) r s"
  shows "n = lifecycle_rank (rr_lifecycle s) - lifecycle_rank (rr_lifecycle r) \<and> n \<le> 2 \<and>
    (n = 0 \<longleftrightarrow> rr_lifecycle s = rr_lifecycle r) \<and>
    registry_key s = registry_key r \<and> rr_definition_reference_id s = rr_definition_reference_id r \<and>
    ((\<exists>t. promotion_step s t) \<longleftrightarrow> rr_lifecycle s \<noteq> RETIRED)"
proof -
  have inv: "runbook_registration_check s = None \<and> registry_key s = registry_key r \<and>
      rr_definition_reference_id s = rr_definition_reference_id r \<and>
      lifecycle_rank (rr_lifecycle s) = lifecycle_rank (rr_lifecycle r) + n"
    using assms(2)
  proof (induction n arbitrary: s)
    case 0
    with assms(1) show ?case by simp
  next
    case (Suc n)
    then obtain t where "(promotion_step ^^ n) r t" and st: "promotion_step t s" by auto
    with Suc.IH promotion_step_props [OF st] show ?case by simp
  qed
  have b: "lifecycle_rank l \<le> 2" for l by (cases l) simp_all
  have i: "lifecycle_rank l = lifecycle_rank l' \<longleftrightarrow> l = l'" for l l' by (cases l; cases l') simp_all
  from inv b [of "rr_lifecycle s"] i [of "rr_lifecycle s" "rr_lifecycle r"] promotion_open [of s]
  show ?thesis by auto
qed

theorem promotion_terminates_witness:
  "runbook_registration_check (sample_registry ! 2) = None \<and>
   (\<exists>s. (promotion_step ^^ 2) (sample_registry ! 2) s \<and> \<not> (\<exists>t. promotion_step s t))"
proof -
  let ?r = "sample_registry ! 2" and ?p = "(sample_registry ! 2)\<lparr>rr_lifecycle := PUBLISHED\<rparr>"
    and ?q = "(sample_registry ! 2)\<lparr>rr_lifecycle := RETIRED\<rparr>"
  have v: "runbook_registration_check ?r = None" "rr_lifecycle ?r = DRAFT" by code_simp+
  have w: "runbook_registration_check ?p = None" by code_simp
  have "promotion_target (rr_lifecycle ?r) PUBLISH = Some PUBLISHED" using v by simp
  with v(1) have "promotion_step ?r ?p" unfolding promotion_step_iff by blast
  moreover have "promotion_target (rr_lifecycle ?p) RETIRE = Some RETIRED" "?q = ?p\<lparr>rr_lifecycle := RETIRED\<rparr>" by simp_all
  with w have "promotion_step ?p ?q" unfolding promotion_step_iff by blast
  ultimately have st: "(promotion_step ^^ 2) ?r ?q" by (auto simp: numeral_2_eq_2)
  with v promotion_terminates [OF v(1) st] show ?thesis by auto
qed

text \<open>Each packaged runbook is built exactly for the versions that are tokens, and what is built is
  valid, carries its own digest and is schedulable: the DAG scheduler turns it into the given waves, in
  which the projection comes after the contexts it reads.\<close>
theorem packaged_runbooks_schedulable:
  "list_all (\<lambda>(build, waves). case build v of
       Inl _ \<Rightarrow> \<not> token_ok v
     | Inr p \<Rightarrow> token_ok v \<and> rb_version (pk_runbook p) = v \<and> valid_runbook (pk_runbook p) \<and>
         pk_definition_reference_id p = canonical_runbook_digest (pk_runbook p) \<and>
         schedule_dag (schedule_nodes (pk_runbook p)) 6 =
           Inr \<lparr>ds_waves = waves, ds_max_parallel = 6, ds_acyclic = True, ds_execution_performed = False\<rparr>)
     [(build_daily_m365_context_runbook, [[''outlook-context'', ''planner-context''], [''daily-context'']]),
      (build_meeting_preparation_runbook,
        [[''person-context'', ''project-context''], [''daily-work-context''], [''meeting-brief'']]),
      (build_project_mail_follow_up_runbook,
        [[''mail-triage'', ''project-context''], [''follow-up-projection'']])]"
proof -
  have s: "schedule_dag (map (\<lambda>n. \<lparr>dn_node_id = cn_node_id n, dn_depends_on = cn_depends_on n\<rparr>) daily_nodes) 6 =
      Inr \<lparr>ds_waves = [[''outlook-context'', ''planner-context''], [''daily-context'']],
        ds_max_parallel = 6, ds_acyclic = True, ds_execution_performed = False\<rparr>"
    "schedule_dag (map (\<lambda>n. \<lparr>dn_node_id = cn_node_id n, dn_depends_on = cn_depends_on n\<rparr>) meeting_nodes) 6 =
      Inr \<lparr>ds_waves = [[''person-context'', ''project-context''], [''daily-work-context''], [''meeting-brief'']],
        ds_max_parallel = 6, ds_acyclic = True, ds_execution_performed = False\<rparr>"
    "schedule_dag (map (\<lambda>n. \<lparr>dn_node_id = cn_node_id n, dn_depends_on = cn_depends_on n\<rparr>) project_mail_nodes) 6 =
      Inr \<lparr>ds_waves = [[''mail-triage'', ''project-context''], [''follow-up-projection'']],
        ds_max_parallel = 6, ds_acyclic = True, ds_execution_performed = False\<rparr>"
    by code_simp+
  have c: "daily_context_check \<lparr>pk_runbook = r, pk_definition_reference_id = canonical_runbook_digest r,
         pk_execution_performed = False, pk_outlook_live_observed = False\<rparr> = None"
    "meeting_preparation_check \<lparr>pk_runbook = r, pk_definition_reference_id = canonical_runbook_digest r,
         pk_execution_performed = False, pk_outlook_live_observed = False\<rparr> = None"
    "project_mail_check \<lparr>pk_runbook = r, pk_definition_reference_id = canonical_runbook_digest r,
         pk_execution_performed = False, pk_outlook_live_observed = False\<rparr> = None" for r
    by (simp_all add: daily_context_check_def meeting_preparation_check_def project_mail_check_def checks)
  show ?thesis
    unfolding list.pred_inject prod.case build_daily_m365_context_runbook_def
      build_meeting_preparation_runbook_def build_project_mail_follow_up_runbook_def
    by (intro conjI TrueI packaged_build [where check = daily_context_check, OF packaged_rows(1) packaged_nodes_ok(1) c(1) s(1)]
        packaged_build [where check = meeting_preparation_check, OF packaged_rows(2) packaged_nodes_ok(2) c(2) s(2)]
        packaged_build [where check = project_mail_check, OF packaged_rows(3) packaged_nodes_ok(3) c(3) s(3)]) simp
qed

end
