(* ===== verification/Execution_Modes.thy ===== *)
(*  Agentic budgets, hybrid escalation and direct execution of m365_mcp. *)

theory Execution_Modes
  imports Scheduling
begin

text \<open>
  The three ways a plan leaves the deterministic path. \<open>xapp_agentic_budgets.py\<close>: token, step and
  run-time limits and their assessment. \<open>xapp_hybrid_escalation.py\<close>: which reviewer a signal leads to.
  \<open>xapp_direct_contract.py\<close>: the envelope of one direct operation, which is never executable. Python's
  integers are unbounded, so the counters are \<open>int\<close>.
\<close>

subsection \<open>Budgets\<close>

datatype AgenticBudgetDecision = CONTINUE | EXHAUSTED

definition MAX_TOKENS :: int where "MAX_TOKENS = 1000000"
definition MAX_STEPS :: int where "MAX_STEPS = 1000"
definition MAX_RUNTIME_MS :: int where "MAX_RUNTIME_MS = 86400000"

record AgenticBudget =
  ab_max_tokens :: int
  ab_max_steps :: int
  ab_max_runtime_ms :: int

definition limit_error :: "string \<times> int \<times> int \<Rightarrow> exn option" where
  "limit_error l = (case l of (field_name, v, maximum) \<Rightarrow>
     raise_if (\<not> (1 \<le> v \<and> v \<le> maximum))
       (ValueError ''{} must be between 1 and {}'' [field_name, py_int maximum]))"

definition agentic_budget_check :: "AgenticBudget \<Rightarrow> exn option" where
  "agentic_budget_check b = first_error (map limit_error
     [(''max_tokens'', ab_max_tokens b, MAX_TOKENS), (''max_steps'', ab_max_steps b, MAX_STEPS),
      (''max_runtime_ms'', ab_max_runtime_ms b, MAX_RUNTIME_MS)])"

record AgenticBudgetUsage =
  au_tokens_used :: int
  au_steps_used :: int
  au_runtime_ms :: int

definition agentic_usage_check :: "AgenticBudgetUsage \<Rightarrow> exn option" where
  "agentic_usage_check u = first_error
     (map (\<lambda>(field_name, v). raise_if (v < 0) (ValueError ''{} must be non-negative'' [field_name]))
       [(''tokens_used'', au_tokens_used u), (''steps_used'', au_steps_used u), (''runtime_ms'', au_runtime_ms u)])"

record AgenticBudgetAssessment =
  aa_decision :: AgenticBudgetDecision
  aa_remaining_tokens :: int
  aa_remaining_steps :: int
  aa_remaining_runtime_ms :: int
  aa_exhausted_dimensions :: "string list"

definition assess_agentic_budget :: "AgenticBudget \<Rightarrow> AgenticBudgetUsage \<Rightarrow> AgenticBudgetAssessment" where
  "assess_agentic_budget b u =
     (let tokens = max 0 (ab_max_tokens b - au_tokens_used u);
          steps = max 0 (ab_max_steps b - au_steps_used u);
          runtime = max 0 (ab_max_runtime_ms b - au_runtime_ms u);
          exhausted = map fst (filter (\<lambda>(name, v). v = 0)
            [(''tokens'', tokens), (''steps'', steps), (''runtime_ms'', runtime)])
      in \<lparr>aa_decision = (if exhausted \<noteq> [] then EXHAUSTED else CONTINUE),
          aa_remaining_tokens = tokens, aa_remaining_steps = steps, aa_remaining_runtime_ms = runtime,
          aa_exhausted_dimensions = exhausted\<rparr>)"

subsection \<open>Escalation\<close>

datatype HybridExecutionPath = DETERMINISTIC | AGENTIC_REVIEW | HUMAN_REVIEW

datatype HybridEscalationReason =
    NO_REASON | UNSUPPORTED_BRANCH | AMBIGUOUS_RESULT | MANUAL_INTERVENTION_REQUIRED | POLICY_APPROVAL_REQUIRED

record HybridEscalationSignal =
  hs_deterministic_supported :: bool
  hs_ambiguous_result :: bool
  hs_manual_intervention_required :: bool
  hs_policy_approval_required :: bool

record HybridEscalationDecision =
  hd_path :: HybridExecutionPath
  hd_reason :: HybridEscalationReason
  hd_execution_performed :: bool

definition hybrid_decision_check :: "HybridEscalationDecision \<Rightarrow> exn option" where
  "hybrid_decision_check d = first_error [
     raise_if (hd_execution_performed d) (value_error ''HYBRID escalation decision must not execute''),
     (if hd_path d = DETERMINISTIC
      then raise_if (hd_reason d \<noteq> NO_REASON) (value_error ''deterministic path requires NONE escalation reason'')
      else raise_if (hd_reason d = NO_REASON) (value_error ''escalated path requires an explicit reason''))]"

definition hybrid_decision ::
  "HybridExecutionPath \<Rightarrow> HybridEscalationReason \<Rightarrow> HybridEscalationDecision result" where
  "hybrid_decision path reason = construct hybrid_decision_check
     \<lparr>hd_path = path, hd_reason = reason, hd_execution_performed = False\<rparr>"

definition select_hybrid_escalation :: "HybridEscalationSignal \<Rightarrow> HybridEscalationDecision result" where
  "select_hybrid_escalation s =
     (if hs_manual_intervention_required s then hybrid_decision HUMAN_REVIEW MANUAL_INTERVENTION_REQUIRED
      else if hs_policy_approval_required s then hybrid_decision HUMAN_REVIEW POLICY_APPROVAL_REQUIRED
      else if hs_ambiguous_result s then hybrid_decision AGENTIC_REVIEW AMBIGUOUS_RESULT
      else if \<not> hs_deterministic_supported s then hybrid_decision AGENTIC_REVIEW UNSUPPORTED_BRANCH
      else hybrid_decision DETERMINISTIC NO_REASON)"

subsection \<open>Direct execution\<close>

datatype DirectContractState = PREPARED | REJECTED

record DirectExecutionRequest =
  dx_operation_key :: string
  dx_application :: ApplicationKey
  dx_tool_name :: string
  dx_mutation :: bool
  dx_input_reference_ids :: "string list"

definition direct_request_check :: "DirectExecutionRequest \<Rightarrow> exn option" where
  "direct_request_check r = first_error ([
     contract_token ''operation_key'' (dx_operation_key r), contract_token ''tool_name'' (dx_tool_name r),
     raise_if (MAX_REFERENCES < length (dx_input_reference_ids r))
       (value_error ''DIRECT input references exceed bounded size''),
     raise_if (\<not> distinct (dx_input_reference_ids r)) (value_error ''DIRECT input references must be unique'')]
   @ map (contract_token ''input_reference_id'') (dx_input_reference_ids r))"

record DirectExecutionContract =
  dc_request :: DirectExecutionRequest
  dc_state :: DirectContractState
  dc_policy_required :: bool
  dc_evidence_required :: bool
  dc_generic_executor_available :: bool

definition direct_contract_check :: "DirectExecutionContract \<Rightarrow> exn option" where
  "direct_contract_check c = first_error [
     raise_if (dc_generic_executor_available c) (value_error ''generic DIRECT execution is not available''),
     raise_if (\<not> dc_policy_required c \<or> \<not> dc_evidence_required c)
       (value_error ''DIRECT contract cannot bypass policy or evidence'')]"

definition direct_executable :: "DirectExecutionContract \<Rightarrow> bool" where
  "direct_executable c = False"

definition prepare_direct_execution :: "DirectExecutionRequest \<Rightarrow> DirectExecutionContract result" where
  "prepare_direct_execution r = construct direct_contract_check
     \<lparr>dc_request = r, dc_state = PREPARED, dc_policy_required = True, dc_evidence_required = True,
      dc_generic_executor_available = False\<rparr>"

subsection \<open>Properties\<close>

text \<open>Spending: usage only grows. An exhausted budget stays exhausted, and the assessment never reports
  more than what is left.\<close>

definition usage_le :: "AgenticBudgetUsage \<Rightarrow> AgenticBudgetUsage \<Rightarrow> bool" where
  "usage_le u v \<longleftrightarrow> au_tokens_used u \<le> au_tokens_used v \<and> au_steps_used u \<le> au_steps_used v \<and>
     au_runtime_ms u \<le> au_runtime_ms v"

lemma budget_check_None:
  "agentic_budget_check b = None \<longleftrightarrow> ab_max_tokens b \<in> {1..MAX_TOKENS} \<and> ab_max_steps b \<in> {1..MAX_STEPS} \<and>
     ab_max_runtime_ms b \<in> {1..MAX_RUNTIME_MS}"
  by (auto simp: agentic_budget_check_def limit_error_def checks)

lemma usage_check_None:
  "agentic_usage_check u = None \<longleftrightarrow> 0 \<le> au_tokens_used u \<and> 0 \<le> au_steps_used u \<and> 0 \<le> au_runtime_ms u"
  by (auto simp: agentic_usage_check_def checks)

lemma assessment_exhausted_iff:
  "aa_decision (assess_agentic_budget b u) = EXHAUSTED \<longleftrightarrow>
     ab_max_tokens b \<le> au_tokens_used u \<or> ab_max_steps b \<le> au_steps_used u \<or> ab_max_runtime_ms b \<le> au_runtime_ms u"
  by (auto simp: assess_agentic_budget_def Let_def max_def)

text \<open>A budget is exhausted exactly when one of its limits is reached, the dimensions named are those,
  whatever is left stays within the limits that a valid budget has, and further use never turns
  exhaustion back into permission to go on.\<close>
theorem budget_exhaustion_exact:
  assumes "agentic_budget_check b = None" and "agentic_usage_check u = None" and "usage_le u v"
  shows "(aa_decision (assess_agentic_budget b u) = CONTINUE \<longleftrightarrow>
      au_tokens_used u < ab_max_tokens b \<and> au_steps_used u < ab_max_steps b \<and> au_runtime_ms u < ab_max_runtime_ms b) \<and>
    aa_remaining_tokens (assess_agentic_budget b u) \<in> {0..ab_max_tokens b} \<and>
    aa_remaining_steps (assess_agentic_budget b u) \<in> {0..ab_max_steps b} \<and>
    aa_remaining_runtime_ms (assess_agentic_budget b u) \<in> {0..ab_max_runtime_ms b} \<and>
    (aa_decision (assess_agentic_budget b u) = EXHAUSTED \<longrightarrow> aa_decision (assess_agentic_budget b v) = EXHAUSTED) \<and>
    set (aa_exhausted_dimensions (assess_agentic_budget b u)) \<subseteq> set (aa_exhausted_dimensions (assess_agentic_budget b v))"
proof (intro conjI)
  have d: "d = CONTINUE \<longleftrightarrow> d \<noteq> EXHAUSTED" for d by (cases d) simp_all
  show "aa_decision (assess_agentic_budget b u) = CONTINUE \<longleftrightarrow>
      au_tokens_used u < ab_max_tokens b \<and> au_steps_used u < ab_max_steps b \<and> au_runtime_ms u < ab_max_runtime_ms b"
    unfolding d assessment_exhausted_iff by auto
  show "aa_decision (assess_agentic_budget b u) = EXHAUSTED \<longrightarrow> aa_decision (assess_agentic_budget b v) = EXHAUSTED"
    using assms(3) by (auto simp: assessment_exhausted_iff usage_le_def)
qed (use assms in \<open>auto simp: assess_agentic_budget_def Let_def budget_check_None usage_check_None usage_le_def
      MAX_TOKENS_def MAX_STEPS_def MAX_RUNTIME_MS_def\<close>)

theorem budget_exhaustion_exact_witness:
  "aa_decision (assess_agentic_budget \<lparr>ab_max_tokens = 10, ab_max_steps = 2, ab_max_runtime_ms = 5\<rparr>
     \<lparr>au_tokens_used = 3, au_steps_used = 2, au_runtime_ms = 1\<rparr>) = EXHAUSTED"
  using budget_exhaustion_exact [of "\<lparr>ab_max_tokens = 10, ab_max_steps = 2, ab_max_runtime_ms = 5\<rparr>"
      "\<lparr>au_tokens_used = 3, au_steps_used = 2, au_runtime_ms = 1\<rparr>" "\<lparr>au_tokens_used = 3, au_steps_used = 2, au_runtime_ms = 1\<rparr>"]
  by (cases "aa_decision (assess_agentic_budget \<lparr>ab_max_tokens = 10, ab_max_steps = 2, ab_max_runtime_ms = 5\<rparr>
     \<lparr>au_tokens_used = 3, au_steps_used = 2, au_runtime_ms = 1\<rparr>)")
    (simp_all add: budget_check_None usage_check_None usage_le_def MAX_TOKENS_def MAX_STEPS_def MAX_RUNTIME_MS_def)

lemma hybrid_decision_Inr:
  "hybrid_decision p r = Inr d \<longleftrightarrow> (p = DETERMINISTIC \<longleftrightarrow> r = NO_REASON) \<and>
     d = \<lparr>hd_path = p, hd_reason = r, hd_execution_performed = False\<rparr>"
  by (auto simp: hybrid_decision_def construct_Inr_iff hybrid_decision_check_def checks)

text \<open>How far from the deterministic path a review is.\<close>

fun path_rank :: "HybridExecutionPath \<Rightarrow> nat" where
  "path_rank DETERMINISTIC = 0"
| "path_rank AGENTIC_REVIEW = 1"
| "path_rank HUMAN_REVIEW = 2"

definition signal_le :: "HybridEscalationSignal \<Rightarrow> HybridEscalationSignal \<Rightarrow> bool" where
  "signal_le s t \<longleftrightarrow> (hs_deterministic_supported t \<le> hs_deterministic_supported s) \<and>
     hs_ambiguous_result s \<le> hs_ambiguous_result t \<and>
     hs_manual_intervention_required s \<le> hs_manual_intervention_required t \<and>
     hs_policy_approval_required s \<le> hs_policy_approval_required t"

text \<open>Escalation always yields a decision, the deterministic path only when nothing asks for a
  review, a human whenever intervention or approval is required, and raising further signals never
  leads to a weaker review.\<close>
theorem escalation_monotone:
  "\<exists>d. select_hybrid_escalation s = Inr d \<and> \<not> hd_execution_performed d \<and>
     (hd_path d = HUMAN_REVIEW \<longleftrightarrow> hs_manual_intervention_required s \<or> hs_policy_approval_required s) \<and>
     (hd_path d = DETERMINISTIC \<longleftrightarrow> hs_deterministic_supported s \<and>
        \<not> (hs_ambiguous_result s \<or> hs_manual_intervention_required s \<or> hs_policy_approval_required s)) \<and>
     (signal_le s t \<longrightarrow> (\<exists>e. select_hybrid_escalation t = Inr e \<and> path_rank (hd_path d) \<le> path_rank (hd_path e)))"
  by (cases "hs_manual_intervention_required s"; cases "hs_policy_approval_required s"; cases "hs_ambiguous_result s";
      cases "hs_deterministic_supported s"; cases "hs_manual_intervention_required t"; cases "hs_policy_approval_required t";
      cases "hs_ambiguous_result t"; cases "hs_deterministic_supported t";
      simp add: select_hybrid_escalation_def hybrid_decision_Inr signal_le_def)

definition sample_signal :: "bool \<Rightarrow> HybridEscalationSignal" where
  "sample_signal b = \<lparr>hs_deterministic_supported = True, hs_ambiguous_result = b,
     hs_manual_intervention_required = False, hs_policy_approval_required = False\<rparr>"

theorem escalation_monotone_witness:
  "\<exists>d e. select_hybrid_escalation (sample_signal False) = Inr d \<and> hd_path d = DETERMINISTIC \<and>
     select_hybrid_escalation (sample_signal True) = Inr e \<and> path_rank (hd_path d) \<le> path_rank (hd_path e)"
  using escalation_monotone [of "sample_signal False" "sample_signal True"]
  by (auto simp: sample_signal_def signal_le_def)

lemma direct_never_executes:
  "\<exists>c. prepare_direct_execution r = Inr c \<and> dc_request c = r \<and> dc_policy_required c \<and> dc_evidence_required c \<and>
     \<not> dc_generic_executor_available c \<and> \<not> direct_executable c"
  by (simp add: prepare_direct_execution_def construct_def direct_contract_check_def direct_executable_def
      raise_if_def first_error.simps)

end
