(* ===== verification/Timestamps.thy ===== *)
(*  UTC timestamps as text. *)

theory Timestamps
  imports Canonical_Json
begin

text \<open>
  \<open>value.astimezone(UTC).isoformat(timespec="microseconds").replace("+00:00", "Z")\<close>, the form in which
  \<open>capability_evidence.py\<close>, \<open>evidence_freshness.py\<close> and \<open>attestation.py\<close> write an instant. An
  instant is here the number of microseconds since the first instant a \<open>datetime\<close> has, the start of
  0001-01-01 UTC. The calendar is that of Python's \<open>datetime\<close> (proleptic Gregorian, its algorithm
  for turning an ordinal into year, month and day).

  The evidence store sorts its rows by this text. \<open>timestamp_text_less\<close> shows that the order of the
  texts is the order of the instants up to the end of the year 9999, which is the last a \<open>datetime\<close>
  has; so the text also determines the instant.
\<close>

subsection \<open>Definitions\<close>

definition days_before_year :: "nat \<Rightarrow> nat" where
  "days_before_year y = (let z = y - 1 in z * 365 + z div 4 - z div 100 + z div 400)"

definition leap_year :: "nat \<Rightarrow> bool" where
  "leap_year y \<longleftrightarrow> y mod 4 = 0 \<and> (y mod 100 \<noteq> 0 \<or> y mod 400 = 0)"

text \<open>Year and zero-based day of the year of a zero-based day number.\<close>

definition year_day :: "nat \<Rightarrow> nat \<times> nat" where
  "year_day n =
     (let a = n div 146097; r = n mod 146097; b = min 3 (r div 36524); s = r - b * 36524;
          c = s div 1461; u = s mod 1461; d = min 3 (u div 365)
      in (400 * a + 100 * b + 4 * c + d + 1, u - d * 365))"

definition month_lengths :: "bool \<Rightarrow> nat list" where
  "month_lengths leap = [31, if leap then 29 else 28, 31, 30, 31, 30, 31, 31, 30, 31, 30, 31]"

fun month_from :: "nat list \<Rightarrow> nat \<Rightarrow> nat \<Rightarrow> nat \<times> nat" where
  "month_from [] m k = (m, k + 1)"
| "month_from (l # ls) m k = (if k < l then (m, k + 1) else month_from ls (m + 1) (k - l))"

definition month_day :: "bool \<Rightarrow> nat \<Rightarrow> nat \<times> nat" where
  "month_day leap k = month_from (month_lengths leap) 1 k"

fun fixed :: "nat \<Rightarrow> nat \<Rightarrow> string" where
  "fixed 0 n = []"
| "fixed (Suc w) n = fixed w (n div 10) @ [dec_digits ! (n mod 10)]"

definition day_microseconds :: nat where
  "day_microseconds = 86400000000"

definition timestamp_text :: "nat \<Rightarrow> string" where
  "timestamp_text t =
     (let (y, k) = year_day (t div day_microseconds); (m, d) = month_day (leap_year y) k;
          u = t mod day_microseconds
      in fixed 4 y @ ''-'' @ fixed 2 m @ ''-'' @ fixed 2 d @ ''T'' @ fixed 2 (u div 3600000000) @ '':''
         @ fixed 2 (u div 60000000 mod 60) @ '':'' @ fixed 2 (u div 1000000 mod 60) @ ''.''
         @ fixed 6 (u mod 1000000) @ ''Z'')"

text \<open>The first instant of the year 10000.\<close>

definition end_of_time :: nat where
  "end_of_time = 3652059 * day_microseconds"

subsection \<open>Fixed-width numbers and text order\<close>

lemma length_fixed [simp]: "length (fixed w n) = w"
  by (induction w arbitrary: n) simp_all

lemma append_less_iff:
  fixes a b c d :: "'a::linorder list"
  shows "length a = length b \<Longrightarrow> a @ c < b @ d \<longleftrightarrow> a < b \<or> (a = b \<and> c < d)"
  by (induction a b rule: list_induct2) auto

lemma dec_digits_code: "i < 10 \<Longrightarrow> (of_char (dec_digits ! i) :: nat) = 48 + i"
proof -
  have "list_all (\<lambda>i. (of_char (dec_digits ! i) :: nat) = 48 + i) [0..<10]" by code_simp
  then show "i < 10 \<Longrightarrow> ?thesis" by (simp add: list_all_iff)
qed

lemma dec_digits_less: "i < 10 \<Longrightarrow> j < 10 \<Longrightarrow> dec_digits ! i < dec_digits ! j \<longleftrightarrow> i < j"
  by (simp add: less_char_def dec_digits_code)

lemma less_by_digit: "(m :: nat) < n \<longleftrightarrow> m div 10 < n div 10 \<or> (m div 10 = n div 10 \<and> m mod 10 < n mod 10)"
proof -
  have "m = 10 * (m div 10) + m mod 10" "m mod 10 < 10" "n = 10 * (n div 10) + n mod 10" "n mod 10 < 10"
    by simp_all
  then show ?thesis by linarith
qed

lemma fixed_less: "m < 10 ^ w \<Longrightarrow> n < 10 ^ w \<Longrightarrow> fixed w m < fixed w n \<longleftrightarrow> m < n"
proof (induction w arbitrary: m n)
  case (Suc w)
  have IH: "fixed w (m div 10) < fixed w (n div 10) \<longleftrightarrow> m div 10 < n div 10"
    "fixed w (n div 10) < fixed w (m div 10) \<longleftrightarrow> n div 10 < m div 10"
    using Suc by (simp_all add: less_mult_imp_div_less)
  then have "fixed w (m div 10) = fixed w (n div 10) \<longleftrightarrow> m div 10 = n div 10"
    by (metis less_irrefl linorder_neqE_nat)
  with IH(1) dec_digits_less [of "m mod 10" "n mod 10"]
  have "fixed (Suc w) m < fixed (Suc w) n \<longleftrightarrow> m div 10 < n div 10 \<or> (m div 10 = n div 10 \<and> m mod 10 < n mod 10)"
    by (simp add: append_less_iff)
  with less_by_digit [of m n] show ?case by simp
qed simp

lemma fixed_eq: "m < 10 ^ w \<Longrightarrow> n < 10 ^ w \<Longrightarrow> fixed w m = fixed w n \<longleftrightarrow> m = n"
  using fixed_less [of m w n] fixed_less [of n w m] by (metis less_irrefl linorder_neqE_nat)

subsection \<open>Years\<close>

lemma days_before_year_cycles:
  "b \<le> 3 \<Longrightarrow> c \<le> 24 \<Longrightarrow> d \<le> 3 \<Longrightarrow>
     days_before_year (Suc (400 * a + 100 * b + 4 * c + d)) = 146097 * a + 36524 * b + 1461 * c + 365 * d"
proof -
  assume h: "b \<le> 3" "c \<le> 24" "d \<le> (3 :: nat)"
  let ?z = "400 * a + 100 * b + 4 * c + d"
  have "?z div 4 = 100 * a + 25 * b + c" using h by (intro div_nat_eqI) simp_all
  moreover have "?z div 100 = 4 * a + b" using h by (intro div_nat_eqI) simp_all
  moreover have "?z div 400 = a" using h by (intro div_nat_eqI) simp_all
  ultimately show ?thesis unfolding days_before_year_def Let_def diff_Suc_1 by simp
qed

lemma days_before_year_Suc: "days_before_year (Suc z) + z div 100 = z * 365 + z div 4 + z div 400"
proof -
  have "z div 100 \<le> z * 365" by (rule order_trans [of _ z]) simp_all
  then show ?thesis by (simp add: days_before_year_def)
qed

lemma days_before_year_mono: "y \<le> z \<Longrightarrow> days_before_year y \<le> days_before_year z"
proof -
  have step: "days_before_year y \<le> days_before_year (Suc y)" for y
  proof (cases y)
    case (Suc z)
    have "Suc z div 100 \<le> Suc (z div 100)" "z div 4 \<le> Suc z div 4" "z div 400 \<le> Suc z div 400"
      by (simp_all add: div_le_mono div_Suc)
    then show ?thesis
      using days_before_year_Suc [of z] days_before_year_Suc [of "Suc z"] mult_Suc [of z 365] unfolding Suc by linarith
  qed (simp add: days_before_year_def)
  show "y \<le> z \<Longrightarrow> ?thesis" by (rule lift_Suc_mono_le [where f = days_before_year, OF step])
qed

lemma year_day_bounds:
  assumes "year_day n = (y, k)"
  shows "1 \<le> y" "n = days_before_year y + k" "n < days_before_year (Suc y)"
proof -
  define a r where "a = n div 146097" and "r = n mod 146097"
  define b s where "b = min 3 (r div 36524)" and "s = r - b * 36524"
  define c u where "c = s div 1461" and "u = s mod 1461"
  define d where "d = min 3 (u div 365)"
  have yk: "y = Suc (400 * a + 100 * b + 4 * c + d)" "k = u - d * 365"
    using assms unfolding year_day_def Let_def prod.inject
      a_def [symmetric] r_def [symmetric] b_def [symmetric] s_def [symmetric] c_def [symmetric]
      u_def [symmetric] d_def [symmetric] by linarith+
  have n: "n = 146097 * a + r" "r < 146097" by (simp_all add: a_def r_def)
  have bs: "b \<le> 3" "r = b * 36524 + s" "b < 3 \<Longrightarrow> s < 36524"
  proof -
    have q: "r = 36524 * (r div 36524) + r mod 36524" "r mod 36524 < 36524" by simp_all
    show "b \<le> 3" by (simp add: b_def)
    have "b * 36524 \<le> r" using q unfolding b_def by (cases "r div 36524 \<le> 3") auto
    then show "r = b * 36524 + s" by (simp add: s_def)
    show "b < 3 \<Longrightarrow> s < 36524" using q unfolding s_def b_def by (simp add: min_def split: if_splits)
  qed
  have s: "s \<le> 36524" using bs n(2) by (cases "b < 3") auto
  have cu: "s = 1461 * c + u" "u < 1461" by (simp_all add: c_def u_def)
  have c: "c \<le> 24" using s cu by linarith
  have du: "d \<le> 3" "u = d * 365 + k" "d < 3 \<Longrightarrow> k < 365"
  proof -
    have q: "u = 365 * (u div 365) + u mod 365" "u mod 365 < 365" by simp_all
    show "d \<le> 3" by (simp add: d_def)
    have "d * 365 \<le> u" using q unfolding d_def by (cases "u div 365 \<le> 3") auto
    then show "u = d * 365 + k" by (simp add: yk(2))
    show "d < 3 \<Longrightarrow> k < 365" using q unfolding yk(2) d_def by (simp add: min_def split: if_splits)
  qed
  show "1 \<le> y" by (simp add: yk(1))
  show "n = days_before_year y + k"
    unfolding yk(1) days_before_year_cycles [OF bs(1) c du(1)] using n bs(2) cu(1) du(2) by linarith
  show "n < days_before_year (Suc y)"
  proof (cases "d < 3")
    case True
    then have "Suc y = Suc (400 * a + 100 * b + 4 * c + Suc d)" by (simp add: yk(1))
    moreover have "Suc d \<le> 3" using True by simp
    ultimately show ?thesis
      using days_before_year_cycles [OF bs(1) c, of "Suc d" a] n bs(2) cu(1) du(2) du(3) [OF True] by simp
  next
    case d: False
    then have d3: "d = 3" using du(1) by simp
    show ?thesis
    proof (cases "c < 24")
      case True
      then have "Suc y = Suc (400 * a + 100 * b + 4 * Suc c + 0)" by (simp add: yk(1) d3)
      then show ?thesis using days_before_year_cycles [OF bs(1), of "Suc c" 0 a] True n bs(2) cu by simp
    next
      case False
      then have c24: "c = 24" using c by simp
      show ?thesis
      proof (cases "b < 3")
        case True
        then have "Suc y = Suc (400 * a + 100 * Suc b + 4 * 0 + 0)" by (simp add: yk(1) d3 c24)
        then show ?thesis
          using days_before_year_cycles [of "Suc b" 0 0 a] True n bs(2) bs(3) [OF True] by simp
      next
        case False
        then have "b = 3" using bs(1) by simp
        then have "Suc y = Suc (400 * Suc a + 100 * 0 + 4 * 0 + 0)" by (simp add: yk(1) d3 c24)
        then show ?thesis using days_before_year_cycles [of 0 0 0 "Suc a"] n by simp
      qed
    qed
  qed
qed

lemma year_day_less:
  assumes "m < n"
  shows "fst (year_day m) < fst (year_day n) \<or>
    (fst (year_day m) = fst (year_day n) \<and> snd (year_day m) < snd (year_day n))"
proof -
  obtain y k z l where yd: "year_day m = (y, k)" "year_day n = (z, l)" by fastforce
  have "\<not> z < y"
  proof
    assume "z < y"
    then have "days_before_year (Suc z) \<le> days_before_year y" by (intro days_before_year_mono) simp
    then show False using assms year_day_bounds [OF yd(1)] year_day_bounds [OF yd(2)] by linarith
  qed
  moreover have "k < l" if "y = z"
    using assms year_day_bounds(2) [OF yd(1)] year_day_bounds(2) [OF yd(2)] unfolding that by linarith
  ultimately show ?thesis unfolding yd by (auto simp: not_less)
qed

lemma year_day_length: "snd (year_day n) \<le> 365"
proof -
  define u where "u = (n mod 146097 - min 3 (n mod 146097 div 36524) * 36524) mod 1461"
  have "u < 1461" by (simp add: u_def)
  then have "u - min 3 (u div 365) * 365 \<le> 365" by (cases "u div 365 \<le> 3") auto
  moreover have "snd (year_day n) = u - min 3 (u div 365) * 365"
    unfolding year_day_def Let_def snd_conv u_def by (rule refl)
  ultimately show ?thesis by simp
qed

subsection \<open>Months\<close>

lemma month_from_fst: "m \<le> fst (month_from ls m k) \<and> fst (month_from ls m k) \<le> m + length ls"
proof (induction ls arbitrary: m k)
  case (Cons l ls)
  show ?case using Cons.IH [of "m + 1" "k - l"] by simp
qed simp

lemma month_from_snd:
  "list_all (\<lambda>l. l \<le> 31) ls \<Longrightarrow> k < sum_list ls + 31 \<Longrightarrow> snd (month_from ls m k) \<le> 31"
  by (induction ls arbitrary: m k) auto

lemma month_from_less: "k < l \<Longrightarrow> month_from ls m k < month_from ls m l"
proof (induction ls arbitrary: m k l)
  case (Cons n ls)
  show ?case
  proof (cases "k < n \<and> \<not> l < n")
    case True
    then show ?thesis using month_from_fst [of "m + 1" ls "l - n"]
      by (cases "month_from ls (m + 1) (l - n)") simp
  next
    case False
    with Cons show ?thesis by simp
  qed
qed simp

lemma month_day_bounds: "k \<le> 365 \<Longrightarrow> fst (month_day leap k) < 100 \<and> snd (month_day leap k) < 100"
  using month_from_fst [of 1 "month_lengths leap" k] month_from_snd [of "month_lengths leap" k 1]
  by (simp add: month_day_def month_lengths_def split: if_splits)

lemma month_day_less: "k < l \<Longrightarrow> month_day leap k < month_day leap l"
  by (simp add: month_day_def month_from_less)

subsection \<open>Text order\<close>

lemma block_less:
  assumes "m < 10 ^ w" "n < 10 ^ w"
  shows "fixed w m @ c # xs < fixed w n @ c # ys \<longleftrightarrow> m < n \<or> (m = n \<and> xs < ys)"
proof -
  have "fixed w m @ (c # xs) < fixed w n @ (c # ys) \<longleftrightarrow>
      fixed w m < fixed w n \<or> (fixed w m = fixed w n \<and> c # xs < c # ys)"
    by (intro append_less_iff) simp
  then show ?thesis by (simp add: fixed_less [OF assms] fixed_eq [OF assms])
qed

definition fields :: "nat \<Rightarrow> nat \<times> nat \<times> nat \<times> nat \<times> nat \<times> nat \<times> nat" where
  "fields t = (let (y, k) = year_day (t div day_microseconds); (m, d) = month_day (leap_year y) k;
      u = t mod day_microseconds in
     (y, m, d, u div 3600000000, u div 60000000 mod 60, u div 1000000 mod 60, u mod 1000000))"

fun fields_text :: "nat \<times> nat \<times> nat \<times> nat \<times> nat \<times> nat \<times> nat \<Rightarrow> string" where
  "fields_text (y, m, d, h, i, s, u) = fixed 4 y @ CHR ''-'' # fixed 2 m @ CHR ''-'' # fixed 2 d @ CHR ''T'' #
     fixed 2 h @ CHR '':'' # fixed 2 i @ CHR '':'' # fixed 2 s @ CHR ''.'' # fixed 6 u @ CHR ''Z'' # []"

fun fields_ok :: "nat \<times> nat \<times> nat \<times> nat \<times> nat \<times> nat \<times> nat \<Rightarrow> bool" where
  "fields_ok (y, m, d, h, i, s, u) \<longleftrightarrow> y < 10 ^ 4 \<and> m < 10 ^ 2 \<and> d < 10 ^ 2 \<and> h < 10 ^ 2 \<and> i < 10 ^ 2 \<and>
     s < 10 ^ 2 \<and> u < 10 ^ 6"

lemma timestamp_fields: "timestamp_text t = fields_text (fields t)"
  by (simp add: timestamp_text_def fields_def Let_def split: prod.splits)

lemma fields_text_less: "fields_ok f \<Longrightarrow> fields_ok g \<Longrightarrow> fields_text f < fields_text g \<longleftrightarrow> f < g"
proof -
  assume h: "fields_ok f" "fields_ok g"
  obtain y m d h i s u where f: "f = (y, m, d, h, i, s, u)" by (rule prod_cases7)
  obtain y' m' d' h' i' s' u' where g: "g = (y', m', d', h', i', s', u')" by (rule prod_cases7)
  have d: "y < 10 ^ 4" "y' < 10 ^ 4" "m < 10 ^ 2" "m' < 10 ^ 2" "d < 10 ^ 2" "d' < 10 ^ 2" "h < 10 ^ 2" "h' < 10 ^ 2"
    "i < 10 ^ 2" "i' < 10 ^ 2" "s < 10 ^ 2" "s' < 10 ^ 2" "u < 10 ^ 6" "u' < 10 ^ 6"
    using h unfolding f g fields_ok.simps by blast+
  show ?thesis
    unfolding f g fields_text.simps less_prod_simp
      block_less [OF d(1,2)] block_less [OF d(3,4)] block_less [OF d(5,6)] block_less [OF d(7,8)]
      block_less [OF d(9,10)] block_less [OF d(11,12)] block_less [OF d(13,14)]
    by auto
qed

lemma year_bound: "n < 3652059 \<Longrightarrow> fst (year_day n) < 10000"
proof (rule ccontr)
  assume n: "n < 3652059" and "\<not> fst (year_day n) < 10000"
  obtain y k where yk: "year_day n = (y, k)" by fastforce
  with \<open>\<not> fst (year_day n) < 10000\<close> have "days_before_year 10000 \<le> days_before_year y"
    by (intro days_before_year_mono) simp
  moreover have "days_before_year 10000 = 3652059" by (simp add: days_before_year_def)
  ultimately show False using n year_day_bounds(2) [OF yk] by linarith
qed

lemma fields_ok: "t < end_of_time \<Longrightarrow> fields_ok (fields t)"
proof -
  assume t: "t < end_of_time"
  obtain y k where yk: "year_day (t div day_microseconds) = (y, k)" by fastforce
  obtain m d where md: "month_day (leap_year y) k = (m, d)" by fastforce
  have "t div day_microseconds < 3652059"
    using t by (simp add: end_of_time_def less_mult_imp_div_less)
  with year_bound yk have "y < 10000" by (metis fst_conv)
  moreover have "m < 100" "d < 100"
    using month_day_bounds [of k "leap_year y"] year_day_length [of "t div day_microseconds"] yk md by simp_all
  moreover have "t mod day_microseconds < day_microseconds" by (simp add: day_microseconds_def)
  then have "t mod day_microseconds div 3600000000 < 100"
    by (simp add: day_microseconds_def less_mult_imp_div_less)
  moreover have "x mod 60 < 100" "x mod 1000000 < 10 ^ 6" for x :: nat
    using mod_less_divisor [of 60 x] mod_less_divisor [of 1000000 x] by simp_all
  ultimately show "fields_ok (fields t)" by (simp add: fields_def yk md Let_def)
qed

lemma mixed_less:
  fixes a b n :: nat
  assumes "a < b" "0 < n"
  shows "a div n < b div n \<or> (a div n = b div n \<and> a mod n < b mod n)"
proof -
  have "a div n \<le> b div n" using assms(1) by (simp add: div_le_mono)
  moreover have "a mod n < b mod n" if "a div n = b div n"
    using assms(1) that by (metis div_mult_mod_eq nat_add_left_cancel_less)
  ultimately show ?thesis by linarith
qed

lemma clock_less:
  fixes u v :: nat
  assumes "u < v"
  shows "(u div 3600000000, u div 60000000 mod 60, u div 1000000 mod 60, u mod 1000000) <
    (v div 3600000000, v div 60000000 mod 60, v div 1000000 mod 60, v mod 1000000)"
proof -
  have m: "x div 60000000 = x div 1000000 div 60" "x div 3600000000 = x div 1000000 div 60 div 60" for x :: nat
    by (simp_all add: div_mult2_eq [symmetric])
  define a b where "a = u div 1000000" and "b = v div 1000000"
  define c d where "c = a div 60" and "d = b div 60"
  note fold = m a_def [symmetric] b_def [symmetric] c_def [symmetric] d_def [symmetric]
  from mixed_less [OF assms, of 1000000] have "a < b \<or> (a = b \<and> u mod 1000000 < v mod 1000000)"
    by (simp add: a_def b_def)
  moreover have "c < d \<or> (c = d \<and> a mod 60 < b mod 60)" if "a < b"
    using mixed_less [OF that, of 60] by (simp add: c_def d_def)
  moreover have "c div 60 < d div 60 \<or> (c div 60 = d div 60 \<and> c mod 60 < d mod 60)" if "c < d"
    using mixed_less [OF that, of 60] by simp
  moreover have "a = b \<Longrightarrow> c = d" by (simp add: c_def d_def)
  ultimately show ?thesis unfolding fold less_prod_simp by (metis le_refl less_imp_le)
qed

lemma fields_less: "t < t' \<Longrightarrow> fields t < fields t'"
proof -
  assume lt: "t < t'"
  let ?D = day_microseconds
  obtain y k where yk: "year_day (t div ?D) = (y, k)" by fastforce
  obtain y' k' where yk': "year_day (t' div ?D) = (y', k')" by fastforce
  obtain m d where md: "month_day (leap_year y) k = (m, d)" by fastforce
  obtain m' d' where md': "month_day (leap_year y') k' = (m', d')" by fastforce
  note f = fields_def yk yk' md md' Let_def prod.case
  show ?thesis
  proof (cases "t div ?D = t' div ?D")
    case True
    then have same: "y = y'" "k = k'" "m = m'" "d = d'" using yk yk' md md' by simp_all
    have "t mod ?D < t' mod ?D"
      using lt True by (metis div_mult_mod_eq nat_add_left_cancel_less)
    from clock_less [OF this] show ?thesis unfolding f same by (simp only: less_prod_simp) simp
  next
    case False
    then have "t div ?D < t' div ?D" using lt by (meson div_le_mono le_neq_implies_less less_imp_le)
    from year_day_less [OF this] have "y < y' \<or> (y = y' \<and> k < k')" by (simp add: yk yk')
    then show ?thesis
    proof
      assume "y < y'"
      then show ?thesis unfolding f by simp
    next
      assume "y = y' \<and> k < k'"
      then have "(m, d) < (m', d')" using month_day_less [of k k' "leap_year y"] md md' by simp
      with \<open>y = y' \<and> k < k'\<close> show ?thesis unfolding f by auto
    qed
  qed
qed

lemma timestamp_less:
  "t < end_of_time \<Longrightarrow> t' < end_of_time \<Longrightarrow> timestamp_text t < timestamp_text t' \<longleftrightarrow> t < t'"
proof -
  assume t: "t < end_of_time" "t' < end_of_time"
  have "timestamp_text t < timestamp_text t' \<longleftrightarrow> fields t < fields t'"
    using t by (simp add: timestamp_fields fields_text_less fields_ok)
  also have "\<dots> \<longleftrightarrow> t < t'"
    using fields_less [of t t'] fields_less [of t' t] by (metis less_asym linorder_neqE_nat)
  finally show ?thesis .
qed

lemma timestamp_eq:
  "t < end_of_time \<Longrightarrow> t' < end_of_time \<Longrightarrow> timestamp_text t = timestamp_text t' \<longleftrightarrow> t = t'"
  using timestamp_less [of t t'] timestamp_less [of t' t] by (metis less_irrefl linorder_neqE_nat)

subsection \<open>Properties\<close>

text \<open>The stored text of an instant sorts as the instant does: up to the end of the year 9999 one
  text precedes another in code-point order exactly when its instant is earlier, and two instants with
  one text are the same.\<close>
theorem timestamp_text_less:
  assumes "t < end_of_time" and "t' < end_of_time"
  shows "(timestamp_text t < timestamp_text t' \<longleftrightarrow> t < t') \<and> (timestamp_text t = timestamp_text t' \<longleftrightarrow> t = t')"
  using timestamp_less [OF assms] timestamp_eq [OF assms] by simp

lemma fixed_numeral: "fixed (numeral w) n = fixed (pred_numeral w) (n div 10) @ [dec_digits ! (n mod 10)]"
  using fixed.simps(2) [of "pred_numeral w" n] by (simp only: numeral_eq_Suc [of w, symmetric])

lemma sample_fields: "fields 63842687999999999 = (2024, 2, 4, 23, 59, 59, 999999)"
proof -
  have "year_day 738919 = (2024, 34)" by (simp add: year_day_def)
  moreover have "month_day (leap_year 2024) 34 = (2, 4)" by (simp add: month_day_def month_lengths_def)
  ultimately show ?thesis by (simp add: fields_def day_microseconds_def)
qed

theorem timestamp_text_less_witness:
  "timestamp_text 63842687999999999 = ''2024-02-04T23:59:59.999999Z'' \<and>
   timestamp_text 0 < timestamp_text 63842687999999999"
proof
  show "timestamp_text 63842687999999999 = ''2024-02-04T23:59:59.999999Z''"
    by (simp add: timestamp_fields sample_fields fixed_numeral dec_digits_def)
  show "timestamp_text 0 < timestamp_text 63842687999999999"
    by (subst timestamp_text_less [THEN conjunct1]) (simp_all add: end_of_time_def day_microseconds_def)
qed

end
