(* ===== verification/Ui_Contracts.thy ===== *)
(*  UI contract fragments, locator plans, UI drift and the projection of contract sets. *)

theory Ui_Contracts
  imports Config Registries Timestamps
begin

text \<open>
  \<open>ui_drift.py\<close>: the life cycle of UI evidence. \<open>locators.py\<close>: locator candidates, plans and their
  parser. \<open>ui_contract_store.py\<close>: fragments, the loader of a contract set, its digest and the
  dependency-aware attestation of a capability. \<open>ui_contract_projection.py\<close>: the fragments one
  application sees.

  A JSON document is a value of \<open>json\<close>, with integers for its numbers; the function that reads and
  parses a file below the contract directory is an argument of the loader. \<open>py_str\<close> is Python's
  \<open>str\<close> on such values, \<open>py_truthy\<close> its truth value.

  The results: parsing what a plan prints gives the plan back in priority order; a capability is
  attested exactly when it has dependencies and all of them are; other fragments have no influence;
  and projecting a contract set to an application changes nothing for its capabilities.
\<close>

subsection \<open>Python values of a JSON document\<close>

definition repr_char :: "char \<Rightarrow> char \<Rightarrow> string" where
  "repr_char quote c = (let n = of_char c :: nat in
     if c = quote \<or> n = 92 then [CHR 0x5C, c]
     else if n = 10 then [CHR 0x5C, CHR ''n''] else if n = 13 then [CHR 0x5C, CHR ''r'']
     else if n = 9 then [CHR 0x5C, CHR ''t'']
     else if n < 32 \<or> (127 \<le> n \<and> n \<le> 160) \<or> n = 173 then CHR 0x5C # CHR ''x'' # hex2 n
     else [c])"

definition py_repr_str :: "string \<Rightarrow> string" where
  "py_repr_str s = (let quote = (if CHR 0x27 \<in> set s \<and> CHR 0x22 \<notin> set s then CHR 0x22 else CHR 0x27)
     in quote # concat (map (repr_char quote) s) @ [quote])"

fun py_repr :: "json \<Rightarrow> string" where
  "py_repr JNull = ''None''"
| "py_repr (JBool b) = (if b then ''True'' else ''False'')"
| "py_repr (JInt i) = py_int i"
| "py_repr (JStr s) = py_repr_str s"
| "py_repr (JList vs) = ''['' @ join '', '' (map py_repr vs) @ '']''"
| "py_repr (JObj kvs) =
     CHR 0x7B # join '', '' (map (\<lambda>(k, v). py_repr_str k @ '': '' @ py_repr v) kvs) @ [CHR 0x7D]"

fun py_str :: "json \<Rightarrow> string" where
  "py_str (JStr s) = s"
| "py_str v = py_repr v"

fun py_truthy :: "json \<Rightarrow> bool" where
  "py_truthy JNull = False"
| "py_truthy (JBool b) = b"
| "py_truthy (JInt i) = (i \<noteq> 0)"
| "py_truthy (JStr s) = (s \<noteq> [])"
| "py_truthy (JList vs) = (vs \<noteq> [])"
| "py_truthy (JObj kvs) = (kvs \<noteq> [])"

definition get_or :: "json \<Rightarrow> string \<Rightarrow> (string \<times> json) list \<Rightarrow> json" where
  "get_or d k m = (case map_of m k of None \<Rightarrow> d | Some v \<Rightarrow> v)"

text \<open>\<open>data.get(key)\<close> compared with \<open>None\<close>: absent and null are the same.\<close>

definition opt_str :: "string \<Rightarrow> (string \<times> json) list \<Rightarrow> string option" where
  "opt_str k m = (case get_or JNull k m of JNull \<Rightarrow> None | v \<Rightarrow> Some (py_str v))"

definition is_sha256_ref :: "string \<Rightarrow> bool" where
  "is_sha256_ref v \<longleftrightarrow> take 7 v = ''sha256:'' \<and> is_digest (drop 7 v)"

definition sha256_ref :: "json \<Rightarrow> string" where
  "sha256_ref v = ''sha256:'' @ sha256_text (dumps False v)"

subsection \<open>UI drift\<close>

datatype UILifecycleState = HEALTHY | STALE | DRIFTED | RE_ATTESTATION_REQUIRED

datatype UILifecycleEvent = EVIDENCE_STALE | DRIFT_DETECTED | REATTESTATION_REQUIRED | REATTESTATION_PASSED

fun ui_state_value :: "UILifecycleState \<Rightarrow> string" where
  "ui_state_value HEALTHY = ''HEALTHY''"
| "ui_state_value STALE = ''STALE''"
| "ui_state_value DRIFTED = ''DRIFTED''"
| "ui_state_value RE_ATTESTATION_REQUIRED = ''RE_ATTESTATION_REQUIRED''"

fun ui_event_value :: "UILifecycleEvent \<Rightarrow> string" where
  "ui_event_value EVIDENCE_STALE = ''EVIDENCE_STALE''"
| "ui_event_value DRIFT_DETECTED = ''DRIFT_DETECTED''"
| "ui_event_value REATTESTATION_REQUIRED = ''REATTESTATION_REQUIRED''"
| "ui_event_value REATTESTATION_PASSED = ''REATTESTATION_PASSED''"

definition ui_state_of :: "string \<Rightarrow> UILifecycleState option" where
  "ui_state_of v = find (\<lambda>s. ui_state_value s = v) [HEALTHY, STALE, DRIFTED, RE_ATTESTATION_REQUIRED]"

fun ui_transition :: "UILifecycleState \<Rightarrow> UILifecycleEvent \<Rightarrow> UILifecycleState option" where
  "ui_transition HEALTHY EVIDENCE_STALE = Some STALE"
| "ui_transition HEALTHY DRIFT_DETECTED = Some DRIFTED"
| "ui_transition HEALTHY REATTESTATION_REQUIRED = Some RE_ATTESTATION_REQUIRED"
| "ui_transition STALE EVIDENCE_STALE = Some STALE"
| "ui_transition STALE DRIFT_DETECTED = Some DRIFTED"
| "ui_transition STALE REATTESTATION_REQUIRED = Some RE_ATTESTATION_REQUIRED"
| "ui_transition STALE REATTESTATION_PASSED = Some HEALTHY"
| "ui_transition DRIFTED DRIFT_DETECTED = Some DRIFTED"
| "ui_transition DRIFTED REATTESTATION_REQUIRED = Some RE_ATTESTATION_REQUIRED"
| "ui_transition RE_ATTESTATION_REQUIRED REATTESTATION_REQUIRED = Some RE_ATTESTATION_REQUIRED"
| "ui_transition RE_ATTESTATION_REQUIRED DRIFT_DETECTED = Some DRIFTED"
| "ui_transition RE_ATTESTATION_REQUIRED REATTESTATION_PASSED = Some HEALTHY"
| "ui_transition _ _ = None"

definition transition_ui_lifecycle :: "UILifecycleState \<Rightarrow> UILifecycleEvent \<Rightarrow> UILifecycleState result" where
  "transition_ui_lifecycle current event = (case ui_transition current event of
      Some s \<Rightarrow> Inr s
    | None \<Rightarrow> Inl (ValueError ''invalid UI lifecycle transition: {} + {}''
        [ui_state_value current, ui_event_value event]))"

definition degrades_capability :: "UILifecycleState \<Rightarrow> bool" where
  "degrades_capability s \<longleftrightarrow> s \<in> {STALE, DRIFTED, RE_ATTESTATION_REQUIRED}"

subsection \<open>Locators\<close>

datatype LocatorStrategy = ROLE | LABEL | PLACEHOLDER | TEST_ID | CSS

fun strategy_value :: "LocatorStrategy \<Rightarrow> string" where
  "strategy_value ROLE = ''role''"
| "strategy_value LABEL = ''label''"
| "strategy_value PLACEHOLDER = ''placeholder''"
| "strategy_value TEST_ID = ''test_id''"
| "strategy_value CSS = ''css''"

definition strategy_of :: "string \<Rightarrow> LocatorStrategy option" where
  "strategy_of v = find (\<lambda>s. strategy_value s = v) [ROLE, LABEL, PLACEHOLDER, TEST_ID, CSS]"

fun strategy_priority :: "LocatorStrategy \<Rightarrow> int" where
  "strategy_priority ROLE = 0"
| "strategy_priority LABEL = 1"
| "strategy_priority PLACEHOLDER = 2"
| "strategy_priority TEST_ID = 3"
| "strategy_priority CSS = 4"

definition is_fallback :: "LocatorStrategy \<Rightarrow> bool" where
  "is_fallback s \<longleftrightarrow> s \<in> {TEST_ID, CSS}"

record LocatorCandidate =
  lc_strategy :: LocatorStrategy
  lc_value :: string
  lc_name :: "string option"
  lc_evidence_digest :: "string option"

definition unsafe_locator :: "string \<Rightarrow> bool" where
  "unsafe_locator lowered \<longleftrightarrow> take 6 lowered = ''xpath='' \<or> take 2 lowered = ''//'' \<or> sublist ''javascript:'' lowered"

definition locator_candidate_check :: "LocatorCandidate \<Rightarrow> exn option" where
  "locator_candidate_check c = first_error [
     raise_if (strip (lc_value c) = [] \<or> strip (lc_value c) \<noteq> lc_value c)
       (value_error ''locator value must be non-empty and trimmed''),
     (if lc_strategy c = ROLE
      then raise_if (case lc_name c of None \<Rightarrow> True | Some n \<Rightarrow> n = [] \<or> strip n = [] \<or> n \<noteq> strip n)
        (value_error ''role locator requires a trimmed accessible name'')
      else raise_if (lc_name c \<noteq> None) (value_error ''accessible name is only valid for role locators'')),
     (if is_fallback (lc_strategy c)
      then raise_if (case lc_evidence_digest c of None \<Rightarrow> True | Some d \<Rightarrow> \<not> is_sha256_ref d)
        (value_error ''fallback locator requires sha256 evidence digest'')
      else raise_if (lc_evidence_digest c \<noteq> None)
        (value_error ''accessible locator must not depend on fallback evidence'')),
     raise_if (lc_strategy c = CSS \<and> unsafe_locator (lower (strip (lc_value c))))
       (value_error ''unsafe locator primitive is not permitted'')]"

definition candidate_to_dict :: "LocatorCandidate \<Rightarrow> (string \<times> json) list" where
  "candidate_to_dict c =
     [(''strategy'', JStr (strategy_value (lc_strategy c))), (''value'', JStr (lc_value c))]
   @ opt_field ''name'' (lc_name c) @ opt_field ''evidence_digest'' (lc_evidence_digest c)"

record LocatorPlan =
  lp_selector_key :: string
  lp_candidates :: "LocatorCandidate list"

definition candidate_identity :: "LocatorCandidate \<Rightarrow> LocatorStrategy \<times> string \<times> string option" where
  "candidate_identity c = (lc_strategy c, lc_value c, lc_name c)"

definition locator_plan_check :: "LocatorPlan \<Rightarrow> exn option" where
  "locator_plan_check p = first_error [
     raise_if (lp_selector_key p = [] \<or> lp_selector_key p \<noteq> strip (lp_selector_key p))
       (value_error ''selector key must be non-empty and trimmed''),
     raise_if (lp_candidates p = []) (value_error ''locator plan requires at least one candidate''),
     raise_if (\<not> distinct (map candidate_identity (lp_candidates p)))
       (value_error ''locator plan contains duplicate candidates'')]"

definition ordered_candidates :: "LocatorPlan \<Rightarrow> LocatorCandidate list" where
  "ordered_candidates p = sort_key (\<lambda>c. strategy_priority (lc_strategy c)) (lp_candidates p)"

definition plan_primary :: "LocatorPlan \<Rightarrow> LocatorCandidate" where
  "plan_primary p = hd (ordered_candidates p)"

definition plan_to_dict :: "LocatorPlan \<Rightarrow> (string \<times> json) list" where
  "plan_to_dict p = [(''selector_key'', JStr (lp_selector_key p)),
     (''candidates'', JList (map (JObj \<circ> candidate_to_dict) (ordered_candidates p)))]"

definition parse_candidate :: "string \<Rightarrow> json \<Rightarrow> LocatorCandidate result" where
  "parse_candidate selector_key item = (case item of
      JObj m \<Rightarrow>
        if \<not> set (map fst m) \<subseteq> {''strategy'', ''value'', ''name'', ''evidence_digest''}
        then Inl (ValueError ''selector {} locator contains unknown fields'' [selector_key])
        else (case strategy_of (py_str (get_or (JStr []) ''strategy'' m)) of
            None \<Rightarrow> Inl (ValueError ''selector {} uses unsupported locator strategy'' [selector_key])
          | Some s \<Rightarrow> construct locator_candidate_check
              \<lparr>lc_strategy = s, lc_value = py_str (get_or (JStr []) ''value'' m),
               lc_name = opt_str ''name'' m, lc_evidence_digest = opt_str ''evidence_digest'' m\<rparr>)
    | _ \<Rightarrow> Inl (ValueError ''selector {} locator must be an object'' [selector_key]))"

definition locator_plan_from_metadata :: "string \<Rightarrow> (string \<times> json) list \<Rightarrow> LocatorPlan option result" where
  "locator_plan_from_metadata selector_key metadata = (case get_or JNull ''locators'' metadata of
      JNull \<Rightarrow> Inr None
    | JList (item # items) \<Rightarrow> bindE (mapE (parse_candidate selector_key) (item # items)) (\<lambda>cs.
        bindE (construct locator_plan_check \<lparr>lp_selector_key = selector_key, lp_candidates = cs\<rparr>)
          (\<lambda>p. Inr (Some p)))
    | _ \<Rightarrow> Inl (ValueError ''selector {} locators must be a non-empty list'' [selector_key]))"

subsection \<open>Contract fragments\<close>

definition ALLOWED_SCOPES :: "string list" where
  "ALLOWED_SCOPES = [''common'', ''application'', ''surface'']"

definition ALLOWED_ATTESTATION :: "string list" where
  "ALLOWED_ATTESTATION = [''ATTESTED'', ''UNVERIFIED_LIVE'', ''DRIFTED'']"

type_synonym metadata = "(string \<times> json) list"

record UIContractFragment =
  uf_fragment_id :: string
  uf_fragment_version :: string
  uf_scope :: string
  uf_application :: "string option"
  uf_surface :: "string option"
  uf_capability_keys :: "string list"
  uf_attested :: bool
  uf_attestation_status :: string
  uf_selectors :: "(string \<times> metadata) list"

definition selector_status_is :: "string \<Rightarrow> metadata \<Rightarrow> bool" where
  "selector_status_is s m \<longleftrightarrow> get_or JNull ''status'' m = JStr s"

definition fragment_drifted :: "UIContractFragment \<Rightarrow> bool" where
  "fragment_drifted f \<longleftrightarrow> uf_attestation_status f = ''DRIFTED'' \<or>
     list_ex (\<lambda>(_, m). selector_status_is ''DRIFTED'' m) (uf_selectors f)"

definition effectively_attested :: "UIContractFragment \<Rightarrow> bool" where
  "effectively_attested f \<longleftrightarrow> \<not> fragment_drifted f \<and> uf_attested f \<and> uf_attestation_status f = ''ATTESTED'' \<and>
     list_all (\<lambda>(_, m). selector_status_is ''ATTESTED'' m) (uf_selectors f)"

definition fragment_payload :: "UIContractFragment \<Rightarrow> json" where
  "fragment_payload f = JObj [
     (''fragment_id'', JStr (uf_fragment_id f)),
     (''fragment_version'', JStr (uf_fragment_version f)),
     (''scope'', JStr (uf_scope f)),
     (''application'', json_opt (uf_application f)),
     (''surface'', json_opt (uf_surface f)),
     (''capability_keys'', JList (map JStr (uf_capability_keys f))),
     (''attested'', JBool (uf_attested f)),
     (''attestation_status'', JStr (uf_attestation_status f)),
     (''selectors'', JObj (map (\<lambda>(k, m). (k, JObj m)) (uf_selectors f)))]"

record UIContractSet =
  us_set_version :: string
  us_legacy_version :: string
  us_fragments :: "UIContractFragment list"

fun merge_selectors :: "(string \<times> metadata) list \<Rightarrow> (string \<times> metadata) list \<Rightarrow> (string \<times> metadata) list result" where
  "merge_selectors merged [] = Inr merged"
| "merge_selectors merged ((name, m) # rest) =
     (if name \<in> set (map fst merged) then Inl (ValueError ''duplicate UIContract selector: {}'' [name])
      else merge_selectors (merged @ [(name, filter (\<lambda>(k, _). k \<in> {''value'', ''status''}) m)]) rest)"

definition contract_selectors :: "UIContractSet \<Rightarrow> (string \<times> metadata) list result" where
  "contract_selectors c = merge_selectors [] (concat (map uf_selectors (us_fragments c)))"

definition contract_payload :: "UIContractSet \<Rightarrow> json" where
  "contract_payload c = JObj [
     (''ui_contract_set_version'', JStr (us_set_version c)),
     (''legacy_ui_contract_version'', JStr (us_legacy_version c)),
     (''fragments'', JList (map fragment_payload (us_fragments c)))]"

definition contract_digest :: "UIContractSet \<Rightarrow> string" where
  "contract_digest c = sha256_ref (contract_payload c)"

definition fragments_for_capability :: "UIContractSet \<Rightarrow> string \<Rightarrow> string \<Rightarrow> UIContractFragment list" where
  "fragments_for_capability c app cap =
     filter (\<lambda>f. uf_application f = Some app \<and> cap \<in> set (uf_capability_keys f)) (us_fragments c)"

text \<open>The overlay a caller supplies: raw state names by fragment id. The members of a \<open>StrEnum\<close> are
  their names.\<close>

type_synonym overlay = "(string \<times> string) list"

fun normalize_states :: "overlay \<Rightarrow> (string \<rightharpoonup> UILifecycleState) \<Rightarrow> (string \<rightharpoonup> UILifecycleState) result" where
  "normalize_states [] acc = Inr acc"
| "normalize_states ((i, raw) # rest) acc = (case ui_state_of raw of
      None \<Rightarrow> Inl (value_error ''UI lifecycle overlay contains invalid state'')
    | Some s \<Rightarrow> normalize_states rest (acc(i \<mapsto> s)))"

definition normalize_lifecycle_overlay ::
  "UIContractSet \<Rightarrow> overlay option \<Rightarrow> (string \<rightharpoonup> UILifecycleState) result" where
  "normalize_lifecycle_overlay c overlay = (case overlay of
      None \<Rightarrow> Inr Map.empty
    | Some o' \<Rightarrow> if \<not> set (map fst o') \<subseteq> set (map uf_fragment_id (us_fragments c))
        then Inl (value_error ''UI lifecycle overlay references unknown fragment'')
        else normalize_states o' Map.empty)"

record CapabilityUIAttestation =
  ua_application :: string
  ua_capability :: string
  ua_dependency_fragments :: "string list"
  ua_attested :: bool
  ua_drifted :: bool
  ua_reasons :: "string list"
  ua_stale :: bool
  ua_reattestation_required :: bool
  ua_lifecycle_states :: "(string \<times> string) list"

text \<open>The loop over the dependencies: the state of each fragment and the fragments whose overlay claims
  health they do not have.\<close>

fun dependency_states ::
  "(string \<rightharpoonup> UILifecycleState) \<Rightarrow> UIContractFragment list \<Rightarrow> (string \<rightharpoonup> UILifecycleState) \<Rightarrow>
     UIContractFragment list \<Rightarrow> (string \<rightharpoonup> UILifecycleState) \<times> UIContractFragment list" where
  "dependency_states overlay [] lifecycle invalid = (lifecycle, invalid)"
| "dependency_states overlay (f # fs) lifecycle invalid =
     (if fragment_drifted f
      then dependency_states overlay fs (lifecycle(uf_fragment_id f \<mapsto> DRIFTED)) invalid
      else if overlay (uf_fragment_id f) = Some HEALTHY \<and> \<not> effectively_attested f
      then dependency_states overlay fs lifecycle (invalid @ [f])
      else (case overlay (uf_fragment_id f) of
          Some s \<Rightarrow> dependency_states overlay fs (lifecycle(uf_fragment_id f \<mapsto> s)) invalid
        | None \<Rightarrow> if effectively_attested f
            then dependency_states overlay fs (lifecycle(uf_fragment_id f \<mapsto> HEALTHY)) invalid
            else dependency_states overlay fs lifecycle invalid))"

definition reasons_for :: "string \<Rightarrow> UIContractFragment list \<Rightarrow> string list" where
  "reasons_for pre fs = map (\<lambda>f. pre @ uf_fragment_id f) fs"

definition attestation_for_capability ::
  "UIContractSet \<Rightarrow> string \<Rightarrow> string \<Rightarrow> overlay option \<Rightarrow> CapabilityUIAttestation result" where
  "attestation_for_capability c app cap overlay_opt =
     (let deps = fragments_for_capability c app cap in
      if deps = [] then Inr \<lparr>ua_application = app, ua_capability = cap, ua_dependency_fragments = [],
        ua_attested = False, ua_drifted = False, ua_reasons = [''UI_DEPENDENCY_UNDECLARED''], ua_stale = False,
        ua_reattestation_required = False, ua_lifecycle_states = []\<rparr>
      else bindE (normalize_lifecycle_overlay c overlay_opt) (\<lambda>overlay.
        let (lifecycle, invalid) = dependency_states overlay deps Map.empty [];
            states = map (\<lambda>f. (uf_fragment_id f, ui_state_value (the (lifecycle (uf_fragment_id f)))))
              (filter (\<lambda>f. lifecycle (uf_fragment_id f) \<noteq> None) deps);
            in_state = (\<lambda>s. filter (\<lambda>f. lifecycle (uf_fragment_id f) = Some s) deps);
            unattested = filter (\<lambda>f. \<not> effectively_attested f) deps;
            answer = (\<lambda>attested drifted stale reatt reasons.
              \<lparr>ua_application = app, ua_capability = cap, ua_dependency_fragments = map uf_fragment_id deps,
               ua_attested = attested, ua_drifted = drifted, ua_reasons = reasons, ua_stale = stale,
               ua_reattestation_required = reatt, ua_lifecycle_states = states\<rparr>)
        in Inr (if invalid \<noteq> []
                then answer False False False False (reasons_for ''UI_FRAGMENT_HEALTHY_WITHOUT_ATTESTATION:'' invalid)
                else if in_state DRIFTED \<noteq> []
                then answer False True False False (reasons_for ''UI_FRAGMENT_DRIFT:'' (in_state DRIFTED))
                else if in_state RE_ATTESTATION_REQUIRED \<noteq> []
                then answer False False False True
                  (reasons_for ''UI_FRAGMENT_RE_ATTESTATION_REQUIRED:'' (in_state RE_ATTESTATION_REQUIRED))
                else if in_state STALE \<noteq> []
                then answer False False True False (reasons_for ''UI_FRAGMENT_STALE:'' (in_state STALE))
                else if unattested \<noteq> []
                then answer False False False False (reasons_for ''UI_FRAGMENT_UNATTESTED:'' unattested)
                else answer True False False False [''UI_DEPENDENCIES_ATTESTED''])))"

subsection \<open>Loading a contract set\<close>

fun split_on :: "char \<Rightarrow> string \<Rightarrow> string list" where
  "split_on c [] = [[]]"
| "split_on c (x # xs) = (if x = c then [] # split_on c xs
     else (case split_on c xs of [] \<Rightarrow> [[x]] | w # ws \<Rightarrow> (x # w) # ws))"

text \<open>\<open>Path(relative).parts\<close> of a path that is not absolute.\<close>

definition path_parts :: "string \<Rightarrow> string list" where
  "path_parts s = filter (\<lambda>p. p \<noteq> [] \<and> p \<noteq> ''.'') (split_on CHR ''/'' s)"

definition fragment_path :: "string \<Rightarrow> string list result" where
  "fragment_path relative =
     (if take 1 relative = ''/'' \<or> ''..'' \<in> set (path_parts relative)
      then Inl (value_error ''UIContract fragment path must remain inside contracts directory'')
      else (case path_parts relative of
          d # ds \<Rightarrow> if d = ''ui_fragments'' then Inr (d # ds)
            else Inl (value_error ''UIContract fragments must live under ui_fragments/'')
        | [] \<Rightarrow> Inl (value_error ''UIContract fragments must live under ui_fragments/'')))"

text \<open>Files below the contract directory, parsed; the path is given by its parts.\<close>

type_synonym documents = "string list \<Rightarrow> json result"

definition read_json :: "documents \<Rightarrow> string list \<Rightarrow> (string \<times> json) list result" where
  "read_json docs path = bindE (docs path) (\<lambda>v. case v of
      JObj m \<Rightarrow> Inr m
    | _ \<Rightarrow> Inl (ValueError ''UIContract document must be an object: {}'' [if path = [] then [] else last path]))"

fun selector_check :: "string \<Rightarrow> string \<times> json \<Rightarrow> exn option" where
  "selector_check fid (name, JObj m) =
     (if strip name = [] then Some (ValueError ''UIContract fragment {} contains invalid selector'' [fid])
      else (case get_or JNull ''status'' m of
          JList _ \<Rightarrow> Some TypeError
        | JObj _ \<Rightarrow> Some TypeError
        | JStr s \<Rightarrow> if s \<in> set ALLOWED_ATTESTATION
            then (case locator_plan_from_metadata name m of Inl e \<Rightarrow> Some e | Inr _ \<Rightarrow> None)
            else Some (ValueError ''UIContract fragment {} has invalid selector status'' [fid])
        | _ \<Rightarrow> Some (ValueError ''UIContract fragment {} has invalid selector status'' [fid])))"
| "selector_check fid (name, _) = Some (ValueError ''UIContract fragment {} contains invalid selector'' [fid])"

fun selectors_of :: "(string \<times> json) list \<Rightarrow> (string \<times> metadata) list" where
  "selectors_of [] = []"
| "selectors_of ((k, JObj m) # rest) = (k, m) # selectors_of rest"
| "selectors_of ((k, _) # rest) = selectors_of rest"

fun capability_key_ok :: "json \<Rightarrow> bool" where
  "capability_key_ok (JStr k) = (\<not> bad_token k \<and> CHR ''.'' \<in> set k)"
| "capability_key_ok _ = False"

fun json_string :: "json \<Rightarrow> string" where
  "json_string (JStr s) = s"
| "json_string _ = []"

fun opt_str_ok :: "json \<Rightarrow> bool" where
  "opt_str_ok JNull = True"
| "opt_str_ok (JStr _) = True"
| "opt_str_ok _ = False"

definition opt_string :: "json \<Rightarrow> string option" where
  "opt_string v = (case v of JStr s \<Rightarrow> Some s | _ \<Rightarrow> None)"

definition absent :: "string option \<Rightarrow> bool" where
  "absent v \<longleftrightarrow> v = None \<or> v = Some []"

definition scope_binding_check :: "string \<Rightarrow> string option \<Rightarrow> string option \<Rightarrow> exn option" where
  "scope_binding_check scope app surface = first_error [
     raise_if (scope = ''common'' \<and> (app \<noteq> None \<or> surface \<noteq> None))
       (value_error ''common UIContract fragment cannot bind app or surface''),
     raise_if (scope = ''application'' \<and> (absent app \<or> surface \<noteq> None))
       (value_error ''application UIContract fragment requires app and no surface''),
     raise_if (scope = ''surface'' \<and> (absent app \<or> absent surface))
       (value_error ''surface UIContract fragment requires app and surface'')]"

definition fragment_check ::
  "CapabilityRegistry \<Rightarrow> string \<Rightarrow> (string \<times> json) list \<Rightarrow> UIContractFragment \<Rightarrow> exn option" where
  "fragment_check registry expected_id doc f =
     (let fid = uf_fragment_id f; keys_value = get_or (JList []) ''capability_keys'' doc;
          selectors_value = get_or JNull ''selectors'' doc in first_error ([
        raise_if (fid = [] \<or> fid \<noteq> expected_id)
          (value_error ''UIContract fragment id does not match manifest''),
        raise_if (uf_fragment_version f = []) (ValueError ''UIContract fragment {} has no version'' [fid]),
        raise_if (uf_scope f \<notin> set ALLOWED_SCOPES) (ValueError ''UIContract fragment {} has invalid scope'' [fid]),
        raise_if (\<not> opt_str_ok (get_or JNull ''application'' doc))
          (ValueError ''UIContract fragment {} has invalid application'' [fid]),
        raise_if (\<not> opt_str_ok (get_or JNull ''surface'' doc))
          (ValueError ''UIContract fragment {} has invalid surface'' [fid]),
        scope_binding_check (uf_scope f) (uf_application f) (uf_surface f),
        raise_if (case keys_value of JList ks \<Rightarrow> \<not> list_all capability_key_ok ks | _ \<Rightarrow> True)
          (ValueError ''UIContract fragment {} has invalid capability keys'' [fid]),
        raise_if (\<not> distinct (uf_capability_keys f))
          (ValueError ''UIContract fragment {} has duplicate capability keys'' [fid]),
        raise_if (uf_scope f = ''common'' \<and> uf_capability_keys f \<noteq> [])
          (value_error ''common UIContract fragments cannot own app capability dependencies''),
        raise_if (case uf_application f of None \<Rightarrow> False
            | Some a \<Rightarrow> a \<noteq> [] \<and> list_ex (\<lambda>k. \<not> has_capability registry a k) (uf_capability_keys f))
          (ValueError ''UIContract fragment {} references unknown capability'' [fid]),
        raise_if (uf_attestation_status f \<notin> set ALLOWED_ATTESTATION)
          (ValueError ''UIContract fragment {} has invalid attestation status'' [fid]),
        raise_if (case selectors_value of JObj m \<Rightarrow> m = [] | _ \<Rightarrow> True)
          (ValueError ''UIContract fragment {} must contain selectors'' [fid])]
      @ map (selector_check fid) (obj_fields selectors_value)))"

definition load_fragment ::
  "CapabilityRegistry \<Rightarrow> documents \<Rightarrow> string \<Rightarrow> string \<Rightarrow> UIContractFragment result" where
  "load_fragment registry docs expected_id relative =
     bindE (fragment_path relative) (\<lambda>path. bindE (read_json docs path) (\<lambda>doc.
       construct (fragment_check registry expected_id doc)
        \<lparr>uf_fragment_id = strip (py_str (get_or (JStr []) ''fragment_id'' doc)),
         uf_fragment_version = strip (py_str (get_or (JStr []) ''fragment_version'' doc)),
         uf_scope = strip (py_str (get_or (JStr []) ''scope'' doc)),
         uf_application = opt_string (get_or JNull ''application'' doc),
         uf_surface = opt_string (get_or JNull ''surface'' doc),
         uf_capability_keys = (case get_or (JList []) ''capability_keys'' doc of
             JList ks \<Rightarrow> map json_string ks | _ \<Rightarrow> []),
         uf_attested = py_truthy (get_or (JBool False) ''attested'' doc),
         uf_attestation_status = py_str (get_or (JStr ''UNVERIFIED_LIVE'') ''attestation_status'' doc),
         uf_selectors = selectors_of (obj_fields (get_or JNull ''selectors'' doc))\<rparr>))"

fun claim_selectors ::
  "string \<Rightarrow> string list \<Rightarrow> (string \<times> string) list \<Rightarrow> (string \<times> string) list result" where
  "claim_selectors fid [] owners = Inr owners"
| "claim_selectors fid (s # ss) owners = (case map_of owners s of
      Some owner \<Rightarrow> Inl (ValueError ''duplicate UIContract selector {}: {} and {}'' [s, owner, fid])
    | None \<Rightarrow> claim_selectors fid ss (owners @ [(s, fid)]))"

fun load_entries ::
  "CapabilityRegistry \<Rightarrow> documents \<Rightarrow> json list \<Rightarrow> string list \<Rightarrow> (string \<times> string) list \<Rightarrow>
     UIContractFragment list \<Rightarrow> UIContractFragment list result" where
  "load_entries registry docs [] seen owners acc = Inr acc"
| "load_entries registry docs (JObj entry # rest) seen owners acc =
     (let fid = strip (py_str (get_or (JStr []) ''fragment_id'' entry));
          relative = strip (py_str (get_or (JStr []) ''path'' entry)) in
      if fid = [] \<or> fid \<in> set seen then Inl (value_error ''UIContract fragment ids must be non-empty and unique'')
      else if relative = [] then Inl (ValueError ''UIContract fragment {} has no path'' [fid])
      else bindE (load_fragment registry docs fid relative) (\<lambda>f.
        bindE (claim_selectors fid (map fst (uf_selectors f)) owners) (\<lambda>owners'.
          load_entries registry docs rest (fid # seen) owners' (acc @ [f]))))"
| "load_entries registry docs (_ # rest) seen owners acc =
     Inl (value_error ''UIContract manifest entries must be objects'')"

definition load_ui_contract_set :: "CapabilityRegistry \<Rightarrow> documents \<Rightarrow> UIContractSet result" where
  "load_ui_contract_set registry docs = bindE (read_json docs [''ui_contract_set.json'']) (\<lambda>manifest.
     let set_version = strip (py_str (get_or (JStr []) ''ui_contract_set_version'' manifest));
         legacy = strip (py_str (get_or (JStr []) ''legacy_ui_contract_version'' manifest))
     in if set_version = [] \<or> legacy = []
        then Inl (value_error ''UIContract set and legacy versions are required'')
        else (case get_or JNull ''fragments'' manifest of
            JList (e # es) \<Rightarrow> bindE (load_entries registry docs (e # es) [] [] []) (\<lambda>fs.
              Inr \<lparr>us_set_version = set_version, us_legacy_version = legacy, us_fragments = fs\<rparr>)
          | _ \<Rightarrow> Inl (value_error ''UIContract set must declare at least one fragment'')))"

subsection \<open>Projection to an application\<close>

definition project_ui_contract_set :: "UIContractSet \<Rightarrow> string \<Rightarrow> string option \<Rightarrow> UIContractSet result" where
  "project_ui_contract_set c app set_version =
     (if bad_token app then Inl (value_error ''application must be a non-empty semantic token'')
      else if (case set_version of None \<Rightarrow> False | Some v \<Rightarrow> bad_token v)
      then Inl (value_error ''set_version must be a non-empty semantic version token'')
      else (let fs = filter (\<lambda>f. uf_scope f = ''common'' \<or> uf_application f = Some app) (us_fragments c) in
        if filter (\<lambda>f. uf_application f = Some app) fs = []
        then Inl (ValueError ''UIContract has no fragments for application: {}'' [app])
        else Inr \<lparr>us_set_version = (case set_version of None \<Rightarrow> us_set_version c | Some v \<Rightarrow> v),
            us_legacy_version = us_legacy_version c, us_fragments = fs\<rparr>))"

subsection \<open>Lemmas: names and round trip\<close>

lemma ui_state_of_value [simp]: "ui_state_of (ui_state_value s) = Some s"
  by (cases s) (simp_all add: ui_state_of_def)

lemma strategy_of_value [simp]: "strategy_of (strategy_value s) = Some s"
  by (cases s) (simp_all add: strategy_of_def)

lemma get_or_candidate:
  "get_or d ''strategy'' (candidate_to_dict c) = JStr (strategy_value (lc_strategy c))"
  "get_or d ''value'' (candidate_to_dict c) = JStr (lc_value c)"
  "get_or JNull ''name'' (candidate_to_dict c) = json_opt (lc_name c)"
  "get_or JNull ''evidence_digest'' (candidate_to_dict c) = json_opt (lc_evidence_digest c)"
  by (cases "lc_name c"; cases "lc_evidence_digest c";
      simp add: get_or_def candidate_to_dict_def opt_field_def json_opt_def)+

lemma opt_str_json: "get_or JNull k m = json_opt v \<Longrightarrow> opt_str k m = v"
  by (cases v) (simp_all add: opt_str_def json_opt_def)

lemma candidate_keys: "set (map fst (candidate_to_dict c)) \<subseteq> {''strategy'', ''value'', ''name'', ''evidence_digest''}"
  by (auto simp: candidate_to_dict_def opt_field_def split: option.splits)

lemma parse_candidate_to_dict:
  "locator_candidate_check c = None \<Longrightarrow> parse_candidate key (JObj (candidate_to_dict c)) = Inr c"
proof -
  assume v: "locator_candidate_check c = None"
  have "\<lparr>lc_strategy = lc_strategy c, lc_value = lc_value c, lc_name = lc_name c,
      lc_evidence_digest = lc_evidence_digest c\<rparr> = c" by simp
  note c = this
  from v candidate_keys [of c] show ?thesis
    by (simp add: parse_candidate_def get_or_candidate opt_str_json c construct_Inr_iff)
qed

lemma parse_candidates:
  "list_all (\<lambda>c. locator_candidate_check c = None) cs \<Longrightarrow>
     mapE (parse_candidate key) (map (JObj \<circ> candidate_to_dict) cs) = Inr cs"
  by (induction cs) (simp_all add: parse_candidate_to_dict)

definition valid_plan :: "LocatorPlan \<Rightarrow> bool" where
  "valid_plan p \<longleftrightarrow> locator_plan_check p = None \<and> list_all (\<lambda>c. locator_candidate_check c = None) (lp_candidates p)"

lemma ordered_valid: "valid_plan p \<Longrightarrow> valid_plan (p\<lparr>lp_candidates := ordered_candidates p\<rparr>)"
proof -
  have "mset (map candidate_identity (ordered_candidates p)) = mset (map candidate_identity (lp_candidates p))"
    by (simp add: ordered_candidates_def)
  then have "distinct (map candidate_identity (ordered_candidates p)) = distinct (map candidate_identity (lp_candidates p))"
    by (rule mset_eq_imp_distinct_iff)
  moreover have "set (ordered_candidates p) = set (lp_candidates p)" by (simp add: ordered_candidates_def)
  moreover have "ordered_candidates p = [] \<longleftrightarrow> lp_candidates p = []"
    by (simp add: ordered_candidates_def flip: length_0_conv)
  ultimately show "valid_plan p \<Longrightarrow> ?thesis"
    by (auto simp: valid_plan_def locator_plan_check_def checks list_all_iff)
qed

lemma parse_candidate_valid: "parse_candidate key v = Inr c \<Longrightarrow> locator_candidate_check c = None"
  by (auto simp: parse_candidate_def construct_Inr_iff split: json.splits option.splits if_splits)

lemma plan_from_metadata_valid:
  "locator_plan_from_metadata key m = Inr (Some p) \<Longrightarrow> valid_plan p \<and> lp_selector_key p = key"
proof -
  assume h: "locator_plan_from_metadata key m = Inr (Some p)"
  then obtain v vs cs where p: "mapE (parse_candidate key) (v # vs) = Inr cs"
    "locator_plan_check \<lparr>lp_selector_key = key, lp_candidates = cs\<rparr> = None"
    "p = \<lparr>lp_selector_key = key, lp_candidates = cs\<rparr>"
    unfolding locator_plan_from_metadata_def
    by (auto simp: bindE_Inr_iff construct_Inr_iff simp del: mapE.simps split: json.splits list.splits)
  have "\<forall>c \<in> set cs. locator_candidate_check c = None"
    using mapE_Inr_set [OF p(1)] parse_candidate_valid by blast
  with p(2,3) show ?thesis by (simp add: valid_plan_def list_all_iff)
qed

subsection \<open>Lemmas: attestation\<close>

definition claims_health :: "(string \<rightharpoonup> UILifecycleState) \<Rightarrow> UIContractFragment \<Rightarrow> bool" where
  "claims_health overlay f \<longleftrightarrow> \<not> fragment_drifted f \<and> overlay (uf_fragment_id f) = Some HEALTHY \<and>
     \<not> effectively_attested f"

definition dependency_state :: "(string \<rightharpoonup> UILifecycleState) \<Rightarrow> UIContractFragment \<Rightarrow> UILifecycleState option" where
  "dependency_state overlay f =
     (if fragment_drifted f then Some DRIFTED else if claims_health overlay f then None
      else (case overlay (uf_fragment_id f) of Some s \<Rightarrow> Some s
        | None \<Rightarrow> if effectively_attested f then Some HEALTHY else None))"

lemma dependency_states_eq:
  "distinct (map uf_fragment_id fs) \<Longrightarrow> (\<forall>f \<in> set fs. lifecycle (uf_fragment_id f) = None) \<Longrightarrow>
     dependency_states overlay fs lifecycle invalid = (L, I) \<Longrightarrow>
       I = invalid @ filter (claims_health overlay) fs \<and>
       (\<forall>f \<in> set fs. L (uf_fragment_id f) = dependency_state overlay f) \<and>
       (\<forall>i. i \<notin> uf_fragment_id ` set fs \<longrightarrow> L i = lifecycle i)"
proof (induction fs arbitrary: lifecycle invalid)
  case (Cons f fs)
  let ?l = "case dependency_state overlay f of None \<Rightarrow> lifecycle | Some s \<Rightarrow> lifecycle(uf_fragment_id f \<mapsto> s)"
  let ?i = "if claims_health overlay f then invalid @ [f] else invalid"
  have step: "dependency_states overlay fs ?l ?i = (L, I)"
    using Cons.prems(3)
    by (auto simp: dependency_state_def claims_health_def split: if_splits option.splits)
  have "\<forall>g \<in> set fs. uf_fragment_id g \<noteq> uf_fragment_id f" using Cons.prems(1) by (auto intro: rev_image_eqI)
  then have "\<forall>g \<in> set fs. ?l (uf_fragment_id g) = None"
    using Cons.prems(2) by (auto split: option.splits)
  with Cons.IH [OF _ this step] Cons.prems(1)
  have IH: "I = ?i @ filter (claims_health overlay) fs" "\<forall>g \<in> set fs. L (uf_fragment_id g) = dependency_state overlay g"
    "\<forall>i. i \<notin> uf_fragment_id ` set fs \<longrightarrow> L i = ?l i" by auto
  have "L (uf_fragment_id f) = dependency_state overlay f"
    using IH(3) Cons.prems(1,2) by (auto split: option.splits)
  with IH show ?case by (auto split: option.splits)
qed simp

text \<open>The dependencies of a capability with what an overlay says of them decide its attestation.\<close>

definition attest_dependencies ::
  "string \<Rightarrow> string \<Rightarrow> (string \<rightharpoonup> UILifecycleState) \<Rightarrow> UIContractFragment list \<Rightarrow> CapabilityUIAttestation" where
  "attest_dependencies app cap ov deps =
     (let in_state = (\<lambda>s. filter (\<lambda>f. dependency_state ov f = Some s) deps);
          answer = (\<lambda>attested drifted stale reatt reasons.
            \<lparr>ua_application = app, ua_capability = cap, ua_dependency_fragments = map uf_fragment_id deps,
             ua_attested = attested, ua_drifted = drifted, ua_reasons = reasons, ua_stale = stale,
             ua_reattestation_required = reatt,
             ua_lifecycle_states = map (\<lambda>f. (uf_fragment_id f, ui_state_value (the (dependency_state ov f))))
               (filter (\<lambda>f. dependency_state ov f \<noteq> None) deps)\<rparr>)
      in if deps = [] then answer False False False False [''UI_DEPENDENCY_UNDECLARED'']
         else if filter (claims_health ov) deps \<noteq> []
         then answer False False False False
           (reasons_for ''UI_FRAGMENT_HEALTHY_WITHOUT_ATTESTATION:'' (filter (claims_health ov) deps))
         else if in_state DRIFTED \<noteq> [] then answer False True False False (reasons_for ''UI_FRAGMENT_DRIFT:'' (in_state DRIFTED))
         else if in_state RE_ATTESTATION_REQUIRED \<noteq> []
         then answer False False False True
           (reasons_for ''UI_FRAGMENT_RE_ATTESTATION_REQUIRED:'' (in_state RE_ATTESTATION_REQUIRED))
         else if in_state STALE \<noteq> [] then answer False False True False (reasons_for ''UI_FRAGMENT_STALE:'' (in_state STALE))
         else if filter (\<lambda>f. \<not> effectively_attested f) deps \<noteq> []
         then answer False False False False
           (reasons_for ''UI_FRAGMENT_UNATTESTED:'' (filter (\<lambda>f. \<not> effectively_attested f) deps))
         else answer True False False False [''UI_DEPENDENCIES_ATTESTED''])"

definition distinct_fragments :: "UIContractSet \<Rightarrow> bool" where
  "distinct_fragments c \<longleftrightarrow> distinct (map uf_fragment_id (us_fragments c))"

lemma attestation_eq:
  assumes "distinct_fragments c" "normalize_lifecycle_overlay c o' = Inr ov"
  shows "attestation_for_capability c app cap o' =
    Inr (attest_dependencies app cap ov (fragments_for_capability c app cap))"
proof -
  define deps where "deps = fragments_for_capability c app cap"
  have "distinct (map uf_fragment_id deps)"
    using assms(1) unfolding deps_def fragments_for_capability_def distinct_fragments_def
    by (rule distinct_map_filter)
  moreover obtain L I where LI: "dependency_states ov deps Map.empty [] = (L, I)" by fastforce
  ultimately have I: "I = filter (claims_health ov) deps"
    and L: "\<And>f. f \<in> set deps \<Longrightarrow> L (uf_fragment_id f) = dependency_state ov f"
    using dependency_states_eq [of deps Map.empty ov "[]" L I] by auto
  have f: "filter (\<lambda>f. L (uf_fragment_id f) = Some s) deps = filter (\<lambda>f. dependency_state ov f = Some s) deps" for s
    using L by (intro filter_cong) auto
  have g: "map (\<lambda>f. (uf_fragment_id f, ui_state_value (the (L (uf_fragment_id f))))) (filter (\<lambda>f. L (uf_fragment_id f) \<noteq> None) deps) =
      map (\<lambda>f. (uf_fragment_id f, ui_state_value (the (dependency_state ov f)))) (filter (\<lambda>f. dependency_state ov f \<noteq> None) deps)"
    using L by (intro map_cong filter_cong) auto
  show ?thesis
  proof (cases "deps = []")
    case True
    then show ?thesis
      unfolding attestation_for_capability_def attest_dependencies_def Let_def deps_def [symmetric] by simp
  next
    case False
    then show ?thesis
      unfolding attestation_for_capability_def attest_dependencies_def Let_def deps_def [symmetric]
        assms(2) bindE_simps LI prod.case f g I by simp
  qed
qed

lemma attested_iff:
  "ua_attested (attest_dependencies app cap ov deps) \<longleftrightarrow>
     deps \<noteq> [] \<and> (\<forall>f \<in> set deps. effectively_attested f \<and> ov (uf_fragment_id f) \<in> {None, Some HEALTHY})"
proof -
  have d: "effectively_attested f \<Longrightarrow> \<not> fragment_drifted f" for f by (simp add: effectively_attested_def)
  have s: "dependency_state ov f \<notin> {Some DRIFTED, Some RE_ATTESTATION_REQUIRED, Some STALE} \<and>
      \<not> claims_health ov f \<and> effectively_attested f \<longleftrightarrow>
      effectively_attested f \<and> ov (uf_fragment_id f) \<in> {None, Some HEALTHY}" for f
    using d [of f] by (cases "ov (uf_fragment_id f)")
      (auto simp: dependency_state_def claims_health_def intro: UILifecycleState.exhaust)
  have "ua_attested (attest_dependencies app cap ov deps) \<longleftrightarrow> deps \<noteq> [] \<and>
      (\<forall>f \<in> set deps. dependency_state ov f \<notin> {Some DRIFTED, Some RE_ATTESTATION_REQUIRED, Some STALE} \<and>
        \<not> claims_health ov f \<and> effectively_attested f)"
    by (auto simp: attest_dependencies_def Let_def filter_empty_conv)
  then show ?thesis unfolding s .
qed

subsection \<open>Lemmas: projection and loading\<close>

lemma project_Inr_iff:
  "project_ui_contract_set c app v = Inr p \<longleftrightarrow> \<not> bad_token app \<and> (\<forall>w. v = Some w \<longrightarrow> \<not> bad_token w) \<and>
     (\<exists>f \<in> set (us_fragments c). uf_application f = Some app) \<and>
     p = \<lparr>us_set_version = (case v of None \<Rightarrow> us_set_version c | Some w \<Rightarrow> w),
       us_legacy_version = us_legacy_version c,
       us_fragments = filter (\<lambda>f. uf_scope f = ''common'' \<or> uf_application f = Some app) (us_fragments c)\<rparr>"
  by (auto simp: project_ui_contract_set_def Let_def filter_empty_conv split: option.splits)

lemma project_dependencies:
  "project_ui_contract_set c app v = Inr p \<Longrightarrow> fragments_for_capability p app cap = fragments_for_capability c app cap"
  by (auto simp: project_Inr_iff fragments_for_capability_def intro: filter_cong)

lemma normalize_None: "normalize_lifecycle_overlay c None = Inr Map.empty"
  by (simp add: normalize_lifecycle_overlay_def)

lemma selectors_of_fst:
  "list_all (\<lambda>kv. selector_check fid kv = None) kvs \<Longrightarrow> map fst (selectors_of kvs) = map fst kvs \<and>
     list_all (\<lambda>(k, m). strip k \<noteq> [] \<and> (\<exists>s \<in> set ALLOWED_ATTESTATION. selector_status_is s m) \<and>
       (\<exists>p. locator_plan_from_metadata k m = Inr p)) (selectors_of kvs)"
  by (induction kvs rule: selectors_of.induct)
    (auto simp: selector_status_is_def split: if_splits json.splits sum.splits)

lemma claim_selectors_Inr:
  "claim_selectors fid ss owners = Inr owners' \<Longrightarrow>
     owners' = owners @ map (\<lambda>s. (s, fid)) ss \<and> distinct ss \<and> set ss \<inter> set (map fst owners) = {}"
proof (induction ss arbitrary: owners)
  case (Cons s ss)
  show ?case
  proof (cases "map_of owners s")
    case None
    then have "s \<notin> fst ` set owners" by (simp add: map_of_eq_None_iff)
    with None Cons.IH [of "owners @ [(s, fid)]"] Cons.prems show ?thesis by auto
  qed (use Cons.prems in simp)
qed simp

definition fragment_well_formed :: "CapabilityRegistry \<Rightarrow> UIContractFragment \<Rightarrow> bool" where
  "fragment_well_formed registry f \<longleftrightarrow> uf_fragment_id f \<noteq> [] \<and> uf_fragment_version f \<noteq> [] \<and>
     uf_scope f \<in> set ALLOWED_SCOPES \<and>
     scope_binding_check (uf_scope f) (uf_application f) (uf_surface f) = None \<and>
     distinct (uf_capability_keys f) \<and>
     (\<forall>a. uf_application f = Some a \<longrightarrow> (\<forall>k \<in> set (uf_capability_keys f). has_capability registry a k)) \<and>
     (uf_application f = None \<longrightarrow> uf_capability_keys f = []) \<and>
     uf_attestation_status f \<in> set ALLOWED_ATTESTATION \<and> uf_selectors f \<noteq> [] \<and>
     list_all (\<lambda>(k, m). strip k \<noteq> [] \<and> (\<exists>s \<in> set ALLOWED_ATTESTATION. selector_status_is s m) \<and>
       (\<exists>p. locator_plan_from_metadata k m = Inr p)) (uf_selectors f)"

lemma load_fragment_well_formed:
  assumes "load_fragment registry docs i rel = Inr f"
  shows "fragment_well_formed registry f \<and> uf_fragment_id f = i"
proof -
  from assms obtain doc where c: "fragment_check registry i doc f = None"
    and sel: "uf_selectors f = selectors_of (obj_fields (get_or JNull ''selectors'' doc))"
    unfolding load_fragment_def bindE_Inr_iff construct_Inr_iff by auto
  have "list_all (\<lambda>kv. selector_check (uf_fragment_id f) kv = None) (obj_fields (get_or JNull ''selectors'' doc))"
    using c by (auto simp: fragment_check_def Let_def checks list_all_iff)
  from selectors_of_fst [OF this] have s: "map fst (uf_selectors f) = map fst (obj_fields (get_or JNull ''selectors'' doc))"
    "list_all (\<lambda>(k, m). strip k \<noteq> [] \<and> (\<exists>s \<in> set ALLOWED_ATTESTATION. selector_status_is s m) \<and>
       (\<exists>p. locator_plan_from_metadata k m = Inr p)) (uf_selectors f)"
    unfolding sel by blast+
  have "obj_fields (get_or JNull ''selectors'' doc) \<noteq> []"
    using c by (auto simp: fragment_check_def Let_def checks split: json.splits)
  with s(1) have ne: "uf_selectors f \<noteq> []" by auto
  have rest: "uf_fragment_id f \<noteq> []" "uf_fragment_id f = i" "uf_fragment_version f \<noteq> []"
    "uf_scope f \<in> set ALLOWED_SCOPES"
    "scope_binding_check (uf_scope f) (uf_application f) (uf_surface f) = None"
    "distinct (uf_capability_keys f)" "uf_scope f = ''common'' \<longrightarrow> uf_capability_keys f = []"
    "\<not> (case uf_application f of None \<Rightarrow> False
        | Some a \<Rightarrow> a \<noteq> [] \<and> list_ex (\<lambda>k. \<not> has_capability registry a k) (uf_capability_keys f))"
    "uf_attestation_status f \<in> set ALLOWED_ATTESTATION"
    using c unfolding fragment_check_def Let_def by (auto simp: checks)
  have "uf_application f \<noteq> Some []" "uf_application f = None \<longrightarrow> uf_scope f = ''common''"
    using rest(4,5) by (auto simp: scope_binding_check_def checks absent_def ALLOWED_SCOPES_def)
  with rest s(2) ne show ?thesis
    unfolding fragment_well_formed_def by (auto simp: list_ex_iff split: option.splits)
qed

definition selector_names :: "UIContractFragment list \<Rightarrow> string list" where
  "selector_names fs = concat (map (map fst \<circ> uf_selectors) fs)"

lemma load_entries_well_formed:
  assumes "load_entries registry docs es seen owners acc = Inr fs"
    and "distinct (map uf_fragment_id acc)" "set seen = uf_fragment_id ` set acc"
    and "list_all (fragment_well_formed registry) acc"
    and "map fst owners = selector_names acc" "distinct (selector_names acc)"
  shows "distinct (map uf_fragment_id fs) \<and> list_all (fragment_well_formed registry) fs \<and>
    distinct (selector_names fs) \<and> length fs = length acc + length es"
  using assms
proof (induction registry docs es seen owners acc rule: load_entries.induct)
  case (2 registry docs entry rest seen owners acc)
  define fid where "fid = strip (py_str (get_or (JStr []) ''fragment_id'' entry))"
  define rel where "rel = strip (py_str (get_or (JStr []) ''path'' entry))"
  from "2.prems"(1) obtain f owners' where f: "fid \<noteq> []" "fid \<notin> set seen" "rel \<noteq> []"
    "load_fragment registry docs fid rel = Inr f" "claim_selectors fid (map fst (uf_selectors f)) owners = Inr owners'"
    "load_entries registry docs rest (fid # seen) owners' (acc @ [f]) = Inr fs"
    by (auto simp: fid_def rel_def Let_def bindE_Inr_iff split: if_splits)
  note wf = load_fragment_well_formed [OF f(4)]
  note cl = claim_selectors_Inr [OF f(5)]
  have sn: "selector_names (acc @ [f]) = selector_names acc @ map fst (uf_selectors f)"
    by (simp add: selector_names_def)
  have "set (selector_names acc) \<inter> set (map fst (uf_selectors f)) = {}"
    using cl unfolding "2.prems"(5) by blast
  then have "distinct (selector_names (acc @ [f]))" using cl "2.prems"(6) unfolding sn distinct_append by blast
  moreover have "map fst owners' = selector_names (acc @ [f])"
    using cl "2.prems"(5) unfolding sn by (simp add: comp_def)
  moreover have "distinct (map uf_fragment_id (acc @ [f]))" "set (fid # seen) = uf_fragment_id ` set (acc @ [f])"
    "list_all (fragment_well_formed registry) (acc @ [f])"
    using f(2) wf "2.prems"(2-4) by auto
  ultimately show ?case
    using "2.IH" [OF fid_def rel_def _ _ f(6)] f(1,2,3) by simp
qed auto

lemma merge_selectors_distinct:
  "distinct (map fst merged @ map fst kms) \<Longrightarrow> \<exists>r. merge_selectors merged kms = Inr r \<and> map fst r = map fst merged @ map fst kms"
proof (induction kms arbitrary: merged)
  case (Cons km kms)
  obtain k m where km: "km = (k, m)" by fastforce
  show ?case
    using Cons.prems Cons.IH [of "merged @ [(k, filter (\<lambda>(k, _). k \<in> {''value'', ''status''}) m)]"] by (simp add: km)
qed simp

subsection \<open>Properties\<close>


definition sample_plan :: LocatorPlan where
  "sample_plan = \<lparr>lp_selector_key = ''new_task'', lp_candidates = [
     \<lparr>lc_strategy = CSS, lc_value = ''#new'', lc_name = None,
      lc_evidence_digest = Some (''sha256:'' @ replicate 64 CHR ''0'')\<rparr>,
     \<lparr>lc_strategy = ROLE, lc_value = ''button'', lc_name = Some ''New task'', lc_evidence_digest = None\<rparr>]\<rparr>"


text \<open>A contract set that loads is well formed: fragment ids and selector names are unique across
  the set, every fragment has a version, a scope consistent with its application and surface, registered
  capabilities only, a known status and selectors with valid locators; so the selector union exists.\<close>
theorem loaded_contract_well_formed:
  assumes "load_ui_contract_set registry docs = Inr c"
  shows "us_fragments c \<noteq> [] \<and> us_set_version c \<noteq> [] \<and> us_legacy_version c \<noteq> [] \<and> distinct_fragments c \<and>
    list_all (fragment_well_formed registry) (us_fragments c) \<and>
    (\<exists>s. contract_selectors c = Inr s \<and> map fst s = selector_names (us_fragments c) \<and> distinct (map fst s))"
proof -
  from assms obtain e es where fs: "load_entries registry docs (e # es) [] [] [] = Inr (us_fragments c)"
    and v: "us_set_version c \<noteq> []" "us_legacy_version c \<noteq> []"
    by (auto simp: load_ui_contract_set_def bindE_Inr_iff Let_def simp del: load_entries.simps
        split: if_splits json.splits list.splits)
  have wf: "distinct (map uf_fragment_id (us_fragments c)) \<and> list_all (fragment_well_formed registry) (us_fragments c) \<and>
      distinct (selector_names (us_fragments c)) \<and> length (us_fragments c) = length ([] :: UIContractFragment list) + length (e # es)"
    by (rule load_entries_well_formed [OF fs]) (simp_all add: selector_names_def)
  have "map fst (concat (map uf_selectors (us_fragments c))) = selector_names (us_fragments c)"
    by (simp add: selector_names_def map_concat)
  with merge_selectors_distinct [of "[]" "concat (map uf_selectors (us_fragments c))"] wf
  have "\<exists>s. contract_selectors c = Inr s \<and> map fst s = selector_names (us_fragments c)"
    by (simp add: contract_selectors_def)
  moreover have "us_fragments c \<noteq> []" using wf by auto
  ultimately show ?thesis using wf v by (auto simp: distinct_fragments_def)
qed

definition sample_documents :: documents where
  "sample_documents path =
     (if path = [''ui_contract_set.json''] then Inr (JObj [(''ui_contract_set_version'', JStr ''1''),
         (''legacy_ui_contract_version'', JStr ''1''), (''fragments'', JList [JObj [
           (''fragment_id'', JStr ''common.shell''), (''path'', JStr ''ui_fragments/shell.json'')]])])
      else if path = [''ui_fragments'', ''shell.json''] then Inr (JObj [(''fragment_id'', JStr ''common.shell''),
         (''fragment_version'', JStr ''1''), (''scope'', JStr ''common''),
         (''selectors'', JObj [(''app_root'', JObj [(''status'', JStr ''UNVERIFIED_LIVE'')])])])
      else Inl (value_error ''no such file''))"

theorem loaded_contract_well_formed_witness:
  "\<exists>c. load_ui_contract_set \<lparr>cr_definitions = [], cr_declared = []\<rparr> sample_documents = Inr c \<and>
     (\<exists>s. contract_selectors c = Inr s \<and> map fst s = [''app_root''])"
proof -
  have "(case load_ui_contract_set \<lparr>cr_definitions = [], cr_declared = []\<rparr> sample_documents of
      Inl _ \<Rightarrow> False | Inr c \<Rightarrow> selector_names (us_fragments c) = [''app_root''])" by code_simp
  then obtain c where c: "load_ui_contract_set \<lparr>cr_definitions = [], cr_declared = []\<rparr> sample_documents = Inr c"
    "selector_names (us_fragments c) = [''app_root'']" by (auto dest: Inr_caseD)
  with loaded_contract_well_formed [OF c(1)] show ?thesis by auto
qed

text \<open>The attestation of a capability is decided by its declared dependencies and what the overlay
  says of them: it is attested exactly when it has dependencies, each of which is itself attested and not
  downgraded; never together with drift, staleness or a pending re-attestation. Two sets with the same
  dependencies, under overlays that agree on them, give the same answer, whatever else they contain.\<close>
theorem attestation_exact:
  assumes "distinct_fragments c" and "normalize_lifecycle_overlay c o1 = Inr ov"
    and "distinct_fragments c'" and "normalize_lifecycle_overlay c' o2 = Inr ov'"
    and "fragments_for_capability c app cap = fragments_for_capability c' app cap"
    and "\<forall>f \<in> set (fragments_for_capability c app cap). ov (uf_fragment_id f) = ov' (uf_fragment_id f)"
  shows "attestation_for_capability c app cap o1 = attestation_for_capability c' app cap o2 \<and>
    (\<exists>a. attestation_for_capability c app cap o1 = Inr a \<and>
      (ua_attested a \<longleftrightarrow> fragments_for_capability c app cap \<noteq> [] \<and>
        (\<forall>f \<in> set (fragments_for_capability c app cap).
          effectively_attested f \<and> ov (uf_fragment_id f) \<in> {None, Some HEALTHY})) \<and>
      length (filter id [ua_attested a, ua_drifted a, ua_stale a, ua_reattestation_required a]) \<le> 1)"
proof -
  let ?deps = "fragments_for_capability c app cap"
  have ch: "claims_health ov f = claims_health ov' f" and ds: "dependency_state ov f = dependency_state ov' f"
    if "f \<in> set ?deps" for f
    using assms(6) that by (simp_all add: claims_health_def dependency_state_def)
  have "filter (claims_health ov) ?deps = filter (claims_health ov') ?deps"
    "\<And>s. filter (\<lambda>f. dependency_state ov f = s) ?deps = filter (\<lambda>f. dependency_state ov' f = s) ?deps"
    "filter (\<lambda>f. dependency_state ov f \<noteq> None) ?deps = filter (\<lambda>f. dependency_state ov' f \<noteq> None) ?deps"
    using ch ds by (auto intro!: filter_cong)
  moreover have "map (\<lambda>f. (uf_fragment_id f, ui_state_value (the (dependency_state ov f))))
      (filter (\<lambda>f. dependency_state ov' f \<noteq> None) ?deps) =
    map (\<lambda>f. (uf_fragment_id f, ui_state_value (the (dependency_state ov' f))))
      (filter (\<lambda>f. dependency_state ov' f \<noteq> None) ?deps)"
    using ds by simp
  ultimately have "attest_dependencies app cap ov ?deps = attest_dependencies app cap ov' ?deps"
    unfolding attest_dependencies_def Let_def by simp
  then have same: "attestation_for_capability c app cap o1 = attestation_for_capability c' app cap o2"
    unfolding attestation_eq [OF assms(1,2)] attestation_eq [OF assms(3,4)] using assms(5) by simp
  let ?a = "attest_dependencies app cap ov ?deps"
  show ?thesis
  proof (intro conjI exI [of _ ?a])
    show "attestation_for_capability c app cap o1 = Inr ?a" by (rule attestation_eq [OF assms(1,2)])
    show "ua_attested ?a \<longleftrightarrow> ?deps \<noteq> [] \<and>
        (\<forall>f \<in> set ?deps. effectively_attested f \<and> ov (uf_fragment_id f) \<in> {None, Some HEALTHY})"
      by (rule attested_iff)
    show "length (filter id [ua_attested ?a, ua_drifted ?a, ua_stale ?a, ua_reattestation_required ?a]) \<le> 1"
      by (simp add: attest_dependencies_def Let_def)
  qed (rule same)
qed

definition sample_fragment :: "string \<Rightarrow> bool \<Rightarrow> UIContractFragment" where
  "sample_fragment i attested = \<lparr>uf_fragment_id = i, uf_fragment_version = ''1'', uf_scope = ''application'',
     uf_application = Some ''planner'', uf_surface = None, uf_capability_keys = [i],
     uf_attested = attested, uf_attestation_status = (if attested then ''ATTESTED'' else ''DRIFTED''),
     uf_selectors = [(i, [(''status'', JStr ''ATTESTED'')])]\<rparr>"

definition sample_contract :: UIContractSet where
  "sample_contract = \<lparr>us_set_version = ''1'', us_legacy_version = ''1'',
     us_fragments = [sample_fragment ''tasks.read'' True, sample_fragment ''plans.read'' False]\<rparr>"

theorem attestation_exact_witness:
  "\<exists>a. attestation_for_capability sample_contract ''planner'' ''tasks.read'' None = Inr a \<and> ua_attested a"
proof -
  have d: "distinct_fragments sample_contract"
    "fragments_for_capability sample_contract ''planner'' ''tasks.read'' = [sample_fragment ''tasks.read'' True]"
    "effectively_attested (sample_fragment ''tasks.read'' True)" by code_simp+
  from attestation_exact [OF d(1) normalize_None d(1) normalize_None, of "''planner''" "''tasks.read''"] d
  show ?thesis by auto
qed

text \<open>Projecting a contract set to an application keeps exactly its own and the common fragments, in
  order, and leaves the attestation of each of its capabilities as it was; it succeeds exactly for a token
  that owns a fragment.\<close>
theorem projection_preserves_attestation:
  assumes "distinct_fragments c"
  shows "case project_ui_contract_set c app v of
      Inl _ \<Rightarrow> bad_token app \<or> (\<exists>w. v = Some w \<and> bad_token w) \<or>
        \<not> list_ex (\<lambda>f. uf_application f = Some app) (us_fragments c)
    | Inr p \<Rightarrow> subseq (us_fragments p) (us_fragments c) \<and>
        set (us_fragments p) = {f \<in> set (us_fragments c). uf_scope f = ''common'' \<or> uf_application f = Some app} \<and>
        attestation_for_capability p app cap None = attestation_for_capability c app cap None"
proof (cases "project_ui_contract_set c app v")
  case (Inl e)
  then show ?thesis
    by (auto simp: project_ui_contract_set_def Let_def filter_empty_conv list_ex_iff split: if_splits option.splits)
next
  case (Inr p)
  then have p: "us_fragments p = filter (\<lambda>f. uf_scope f = ''common'' \<or> uf_application f = Some app) (us_fragments c)"
    by (simp add: project_Inr_iff)
  then have "distinct_fragments p"
    using assms unfolding distinct_fragments_def p by (intro distinct_map_filter)
  then have "attestation_for_capability p app cap None = attestation_for_capability c app cap None"
    unfolding attestation_eq [OF \<open>distinct_fragments p\<close> normalize_None] attestation_eq [OF assms normalize_None]
      project_dependencies [OF Inr] by simp
  with Inr p show ?thesis by simp
qed

theorem projection_preserves_attestation_witness:
  "case project_ui_contract_set sample_contract ''planner'' None of Inl _ \<Rightarrow> False
   | Inr p \<Rightarrow> attestation_for_capability p ''planner'' ''tasks.read'' None =
       attestation_for_capability sample_contract ''planner'' ''tasks.read'' None"
proof -
  have d: "distinct_fragments sample_contract" "\<not> bad_token ''planner''"
    "list_ex (\<lambda>f. uf_application f = Some ''planner'') (us_fragments sample_contract)" by code_simp+
  from projection_preserves_attestation [OF d(1), of "''planner''" None "''tasks.read''"] d(2,3)
  show ?thesis by (auto split: sum.splits)
qed

end
