(* ===== verification/Evidence.thy ===== *)
(*  Capability evidence records, their store and their lifetime. *)

theory Evidence
  imports Ui_Contracts
begin

text \<open>
  \<open>capability_evidence.py\<close>: the sanitized record of one observation of a contract fragment, its
  identity, and the append-only store. \<open>evidence_freshness.py\<close>: the policy that lets healthy evidence
  age out, and the assessment of every fragment of a contract set.

  The store is the table \<open>capability_ui_evidence\<close> as the list of its rows in the order of their
  sequence numbers, each with its unique \<open>evidence_id\<close>; \<open>INSERT OR IGNORE\<close> drops a row whose id is
  present. A row holds the validated fields of the record, so reading it back gives the record. Instants
  are UTC microseconds from the start of the year 1; rows are sorted by \<open>timestamp_text\<close>, as the query
  does. Opening the database file is input/output and not modelled.

  The results: records are identified by their digest, the store keeps everything that was accepted,
  the latest record of a fragment is the one with the latest instant among those bound to the very
  contract set, and an assessment is healthy only for healthy evidence within its lifetime.
\<close>

subsection \<open>Records\<close>

definition ident_start :: "char \<Rightarrow> bool" where
  "ident_start c = (let n = of_char c :: nat in (97 \<le> n \<and> n \<le> 122) \<or> (48 \<le> n \<and> n \<le> 57))"

definition ident_rest :: "char \<Rightarrow> bool" where
  "ident_rest c \<longleftrightarrow> ident_start c \<or> c \<in> {CHR ''.'', CHR ''_'', CHR ''-''}"

definition evidence_identifier :: "string \<Rightarrow> bool" where
  "evidence_identifier s = (case s of [] \<Rightarrow> False
     | c # cs \<Rightarrow> ident_start c \<and> list_all ident_rest cs \<and> length cs \<le> 127)"

record CapabilityEvidenceRecord =
  er_fragment_id :: string
  er_fragment_version :: string
  er_scope :: string
  er_application :: "string option"
  er_surface :: "string option"
  er_contract_set_digest :: string
  er_evidence_digest :: string
  er_lifecycle_state :: UILifecycleState
  er_recorded_at :: utc

definition evidence_fields_check :: "CapabilityEvidenceRecord \<Rightarrow> exn option" where
  "evidence_fields_check r = first_error [
     raise_if (\<not> evidence_identifier (er_fragment_id r)) (value_error ''invalid evidence fragment id''),
     raise_if (strip (er_fragment_version r) = [] \<or> has_space (er_fragment_version r))
       (value_error ''invalid evidence fragment version''),
     raise_if (er_scope r \<notin> set ALLOWED_SCOPES) (value_error ''invalid evidence scope''),
     raise_if (case er_application r of None \<Rightarrow> False | Some a \<Rightarrow> \<not> evidence_identifier a)
       (value_error ''invalid evidence application''),
     raise_if (case er_surface r of None \<Rightarrow> False | Some a \<Rightarrow> \<not> evidence_identifier a)
       (value_error ''invalid evidence surface''),
     raise_if (er_scope r = ''common'' \<and> (er_application r \<noteq> None \<or> er_surface r \<noteq> None))
       (value_error ''common evidence cannot bind application or surface''),
     raise_if (er_scope r = ''application'' \<and> (absent (er_application r) \<or> er_surface r \<noteq> None))
       (value_error ''application evidence requires application and no surface''),
     raise_if (er_scope r = ''surface'' \<and> (absent (er_application r) \<or> absent (er_surface r)))
       (value_error ''surface evidence requires application and surface''),
     raise_if (\<not> is_sha256_ref (er_contract_set_digest r)) (value_error ''invalid contract-set evidence digest''),
     raise_if (\<not> is_sha256_ref (er_evidence_digest r)) (value_error ''invalid capability evidence digest'')]"

text \<open>The constructor: state and instant are given raw, the state by name and the instant as a
  \<open>datetime\<close>; the dataclass stores them converted.\<close>

definition evidence_record ::
  "(UILifecycleState \<Rightarrow> utc \<Rightarrow> CapabilityEvidenceRecord) \<Rightarrow> string \<Rightarrow> datetime \<Rightarrow> CapabilityEvidenceRecord result" where
  "evidence_record build raw_state recorded_at = (case evidence_fields_check (build HEALTHY 0) of
      Some e \<Rightarrow> Inl e
    | None \<Rightarrow> (case ui_state_of raw_state of
          None \<Rightarrow> Inl (value_error ''invalid capability evidence lifecycle state'')
        | Some s \<Rightarrow> bindE (require_aware (value_error ''capability evidence timestamp must be timezone-aware'') recorded_at)
            (\<lambda>u. Inr (build s u))))"

definition evidence_payload :: "CapabilityEvidenceRecord \<Rightarrow> json" where
  "evidence_payload r = JObj [
     (''fragment_id'', JStr (er_fragment_id r)),
     (''fragment_version'', JStr (er_fragment_version r)),
     (''scope'', JStr (er_scope r)),
     (''application'', json_opt (er_application r)),
     (''surface'', json_opt (er_surface r)),
     (''contract_set_digest'', JStr (er_contract_set_digest r)),
     (''evidence_digest'', JStr (er_evidence_digest r)),
     (''lifecycle_state'', JStr (ui_state_value (er_lifecycle_state r))),
     (''recorded_at'', JStr (timestamp_text (nat (er_recorded_at r))))]"

definition evidence_id :: "CapabilityEvidenceRecord \<Rightarrow> string" where
  "evidence_id r = sha256_ref (evidence_payload r)"

subsection \<open>Store\<close>

type_synonym evidence_store = "(string \<times> CapabilityEvidenceRecord) list"

definition fragment_metadata :: "UIContractFragment \<Rightarrow> string \<times> string \<times> string option \<times> string option" where
  "fragment_metadata f = (uf_fragment_version f, uf_scope f, uf_application f, uf_surface f)"

definition record_metadata :: "CapabilityEvidenceRecord \<Rightarrow> string \<times> string \<times> string option \<times> string option" where
  "record_metadata r = (er_fragment_version r, er_scope r, er_application r, er_surface r)"

definition validate_contract_binding :: "CapabilityEvidenceRecord \<Rightarrow> UIContractSet \<Rightarrow> exn option" where
  "validate_contract_binding r c =
     (if er_contract_set_digest r \<noteq> contract_digest c
      then Some (value_error ''capability evidence contract-set digest mismatch'')
      else (case filter (\<lambda>f. uf_fragment_id f = er_fragment_id r) (us_fragments c) of
          [f] \<Rightarrow> raise_if (record_metadata r \<noteq> fragment_metadata f)
            (value_error ''capability evidence fragment metadata mismatch'')
        | _ \<Rightarrow> Some (value_error ''capability evidence references unknown contract fragment'')))"

definition append_evidence ::
  "evidence_store \<Rightarrow> CapabilityEvidenceRecord \<Rightarrow> UIContractSet \<Rightarrow> string result \<times> evidence_store" where
  "append_evidence store r c = (case validate_contract_binding r c of
      Some e \<Rightarrow> (Inl e, store)
    | None \<Rightarrow> (Inr (evidence_id r),
        if evidence_id r \<in> set (map fst store) then store else store @ [(evidence_id r, r)]))"

text \<open>The query: the rows of the contract set, latest text first, later rows first among equal texts.\<close>

definition evidence_rows :: "evidence_store \<Rightarrow> string \<Rightarrow> CapabilityEvidenceRecord list" where
  "evidence_rows store digest = rev (sort_key (\<lambda>r. timestamp_text (nat (er_recorded_at r)))
     (map snd (filter (\<lambda>(_, r). er_contract_set_digest r = digest) store)))"

fun first_per_fragment ::
  "string list \<Rightarrow> CapabilityEvidenceRecord list \<Rightarrow> (string \<rightharpoonup> CapabilityEvidenceRecord) \<Rightarrow> (string \<rightharpoonup> CapabilityEvidenceRecord)" where
  "first_per_fragment ids [] latest = latest"
| "first_per_fragment ids (r # rs) latest =
     (if er_fragment_id r \<notin> set ids \<or> latest (er_fragment_id r) \<noteq> None then first_per_fragment ids rs latest
      else first_per_fragment ids rs (latest(er_fragment_id r \<mapsto> r)))"

definition latest_records :: "evidence_store \<Rightarrow> UIContractSet \<Rightarrow> CapabilityEvidenceRecord list" where
  "latest_records store c =
     (let ids = map uf_fragment_id (us_fragments c);
          latest = first_per_fragment ids (evidence_rows store (contract_digest c)) Map.empty
      in if ids = [] then [] else List.map_filter latest ids)"

definition evidence_overlay :: "evidence_store \<Rightarrow> UIContractSet \<Rightarrow> overlay" where
  "evidence_overlay store c = map (\<lambda>r. (er_fragment_id r, ui_state_value (er_lifecycle_state r))) (latest_records store c)"

subsection \<open>Lifetime\<close>

datatype EvidenceFreshnessReason =
    EVIDENCE_FRESH | EVIDENCE_EXPIRED | EVIDENCE_MISSING | EVIDENCE_TIMESTAMP_IN_FUTURE
  | SOURCE_STALE | SOURCE_DRIFTED | SOURCE_RE_ATTESTATION_REQUIRED

record EvidenceLifetimePolicy =
  ep_schema_version :: string
  ep_policy_id :: string
  ep_max_age_seconds :: int
  ep_expiry_state :: string
  ep_missing_evidence_state :: string
  ep_future_timestamp_state :: string

definition allowed_policy_state :: "UILifecycleState \<Rightarrow> bool" where
  "allowed_policy_state s \<longleftrightarrow> s \<in> {STALE, RE_ATTESTATION_REQUIRED}"

definition policy_state_check :: "string \<times> string \<Rightarrow> exn option" where
  "policy_state_check f = (case ui_state_of (snd f) of
      None \<Rightarrow> Some (ValueError ''invalid evidence lifetime {}'' [fst f])
    | Some s \<Rightarrow> raise_if (\<not> allowed_policy_state s) (ValueError ''unsafe evidence lifetime {}'' [fst f]))"

definition lifetime_policy_check :: "EvidenceLifetimePolicy \<Rightarrow> exn option" where
  "lifetime_policy_check p = first_error ([
     raise_if (ep_schema_version p = [] \<or> has_space (ep_schema_version p))
       (value_error ''evidence lifetime policy schema version is invalid''),
     raise_if (ep_policy_id p = [] \<or> ep_policy_id p \<noteq> strip (ep_policy_id p))
       (value_error ''evidence lifetime policy id is invalid''),
     raise_if (\<not> (60 \<le> ep_max_age_seconds p \<and> ep_max_age_seconds p \<le> 2592000))
       (value_error ''evidence lifetime max age is outside bounded range'')]
   @ map policy_state_check [(''expiry_state'', ep_expiry_state p),
       (''missing_evidence_state'', ep_missing_evidence_state p),
       (''future_timestamp_state'', ep_future_timestamp_state p)])"

definition policy_max_age :: "EvidenceLifetimePolicy \<Rightarrow> int" where
  "policy_max_age p = ep_max_age_seconds p * 1000000"

definition policy_payload :: "EvidenceLifetimePolicy \<Rightarrow> json" where
  "policy_payload p = JObj [
     (''schema_version'', JStr (ep_schema_version p)),
     (''policy_id'', JStr (ep_policy_id p)),
     (''max_age_seconds'', JInt (ep_max_age_seconds p)),
     (''expiry_state'', JStr (ep_expiry_state p)),
     (''missing_evidence_state'', JStr (ep_missing_evidence_state p)),
     (''future_timestamp_state'', JStr (ep_future_timestamp_state p))]"

definition policy_digest :: "EvidenceLifetimePolicy \<Rightarrow> string" where
  "policy_digest p = sha256_ref (policy_payload p)"

definition policy_fields :: "string list" where
  "policy_fields = [''schema_version'', ''policy_id'', ''max_age_seconds'', ''expiry_state'',
     ''missing_evidence_state'', ''future_timestamp_state'']"

definition load_evidence_lifetime_policy :: "json \<Rightarrow> EvidenceLifetimePolicy result" where
  "load_evidence_lifetime_policy v = (case v of
      JObj m \<Rightarrow>
        if set (map fst m) \<noteq> set policy_fields
        then Inl (value_error ''evidence lifetime policy fields do not match the closed schema'')
        else (case get_or JNull ''max_age_seconds'' m of
            JInt age \<Rightarrow> construct lifetime_policy_check
              \<lparr>ep_schema_version = py_str (get_or JNull ''schema_version'' m),
               ep_policy_id = py_str (get_or JNull ''policy_id'' m), ep_max_age_seconds = age,
               ep_expiry_state = py_str (get_or JNull ''expiry_state'' m),
               ep_missing_evidence_state = py_str (get_or JNull ''missing_evidence_state'' m),
               ep_future_timestamp_state = py_str (get_or JNull ''future_timestamp_state'' m)\<rparr>
          | _ \<Rightarrow> Inl (value_error ''evidence lifetime max age must be an integer''))
    | _ \<Rightarrow> Inl (value_error ''evidence lifetime policy must be a JSON object''))"

record EvidenceFreshnessAssessment =
  ef_fragment_id :: string
  ef_effective_state :: UILifecycleState
  ef_reason :: EvidenceFreshnessReason
  ef_policy_digest :: string
  ef_evidence_id :: "string option"
  ef_recorded_at :: "utc option"
  ef_expires_at :: "utc option"

definition revalidation_required :: "EvidenceFreshnessAssessment \<Rightarrow> bool" where
  "revalidation_required a \<longleftrightarrow> ef_effective_state a \<noteq> HEALTHY"

definition assessment_of ::
  "EvidenceLifetimePolicy \<Rightarrow> CapabilityEvidenceRecord \<Rightarrow> UILifecycleState \<Rightarrow> EvidenceFreshnessReason \<Rightarrow>
     EvidenceFreshnessAssessment" where
  "assessment_of p r s reason = \<lparr>ef_fragment_id = er_fragment_id r, ef_effective_state = s, ef_reason = reason,
     ef_policy_digest = policy_digest p, ef_evidence_id = Some (evidence_id r),
     ef_recorded_at = Some (er_recorded_at r), ef_expires_at = Some (er_recorded_at r + policy_max_age p)\<rparr>"

text \<open>A policy's states are known to convert: its constructor has checked them.\<close>

definition policy_state :: "string \<Rightarrow> UILifecycleState" where
  "policy_state v = (case ui_state_of v of Some s \<Rightarrow> s | None \<Rightarrow> STALE)"

definition assess_fragment ::
  "UIContractFragment \<Rightarrow> CapabilityEvidenceRecord option \<Rightarrow> EvidenceLifetimePolicy \<Rightarrow> utc \<Rightarrow>
     EvidenceFreshnessAssessment" where
  "assess_fragment f record_opt p now = (case record_opt of
      None \<Rightarrow> \<lparr>ef_fragment_id = uf_fragment_id f, ef_effective_state = policy_state (ep_missing_evidence_state p),
        ef_reason = EVIDENCE_MISSING, ef_policy_digest = policy_digest p, ef_evidence_id = None,
        ef_recorded_at = None, ef_expires_at = None\<rparr>
    | Some r \<Rightarrow>
        if er_lifecycle_state r = DRIFTED then assessment_of p r DRIFTED SOURCE_DRIFTED
        else if er_lifecycle_state r = RE_ATTESTATION_REQUIRED
        then assessment_of p r RE_ATTESTATION_REQUIRED SOURCE_RE_ATTESTATION_REQUIRED
        else if er_lifecycle_state r = STALE then assessment_of p r STALE SOURCE_STALE
        else if now < er_recorded_at r
        then assessment_of p r (policy_state (ep_future_timestamp_state p)) EVIDENCE_TIMESTAMP_IN_FUTURE
        else if er_recorded_at r + policy_max_age p \<le> now
        then assessment_of p r (policy_state (ep_expiry_state p)) EVIDENCE_EXPIRED
        else assessment_of p r HEALTHY EVIDENCE_FRESH)"

definition validate_record_binding ::
  "CapabilityEvidenceRecord \<Rightarrow> UIContractFragment \<Rightarrow> string \<Rightarrow> exn option" where
  "validate_record_binding r f digest = first_error [
     raise_if (er_contract_set_digest r \<noteq> digest)
       (value_error ''evidence freshness record contract-set digest mismatch''),
     raise_if (record_metadata r \<noteq> fragment_metadata f)
       (value_error ''evidence freshness record fragment metadata mismatch'')]"

text \<open>A dictionary built from a sequence keeps the last entry of a key.\<close>

definition last_by_id :: "UIContractFragment list \<Rightarrow> (string \<rightharpoonup> UIContractFragment)" where
  "last_by_id fs = map_of (rev (map (\<lambda>f. (uf_fragment_id f, f)) fs))"

fun bind_records ::
  "UIContractFragment list \<Rightarrow> string \<Rightarrow> CapabilityEvidenceRecord list \<Rightarrow>
     (string \<rightharpoonup> CapabilityEvidenceRecord) \<Rightarrow> (string \<rightharpoonup> CapabilityEvidenceRecord) result" where
  "bind_records fs digest [] acc = Inr acc"
| "bind_records fs digest (r # rs) acc =
     (if acc (er_fragment_id r) \<noteq> None
      then Inl (value_error ''evidence freshness input contains duplicate fragment records'')
      else (case last_by_id fs (er_fragment_id r) of
          None \<Rightarrow> Inl (value_error ''evidence freshness input references unknown fragment'')
        | Some f \<Rightarrow> (case validate_record_binding r f digest of
              Some e \<Rightarrow> Inl e
            | None \<Rightarrow> bind_records fs digest rs (acc(er_fragment_id r \<mapsto> r)))))"

definition assess_contract_evidence_freshness ::
  "UIContractSet \<Rightarrow> CapabilityEvidenceRecord list \<Rightarrow> EvidenceLifetimePolicy \<Rightarrow> datetime \<Rightarrow>
     EvidenceFreshnessAssessment list result" where
  "assess_contract_evidence_freshness c records p now =
     bindE (require_aware (value_error ''evidence freshness evaluation time must be timezone-aware'') now) (\<lambda>now_utc.
     bindE (bind_records (us_fragments c) (contract_digest c) records Map.empty) (\<lambda>by_fragment.
       Inr (map (\<lambda>f. assess_fragment f (by_fragment (uf_fragment_id f)) p now_utc) (us_fragments c))))"

definition lifecycle_overlay_from_freshness :: "EvidenceFreshnessAssessment list \<Rightarrow> overlay result" where
  "lifecycle_overlay_from_freshness as =
     (if \<not> distinct (map ef_fragment_id as)
      then Inl (value_error ''freshness assessments contain duplicate fragments'')
      else Inr (map (\<lambda>a. (ef_fragment_id a, ui_state_value (ef_effective_state a))) as))"

subsection \<open>Lemmas\<close>

lemma is_sha256_ref_sha256 [simp]: "is_sha256_ref (sha256_ref v)"
  by (simp add: is_sha256_ref_def sha256_ref_def)

lemma sha256_ref_eqD:
  "sha256_ref v = sha256_ref w \<Longrightarrow> canon v = canon w \<or> digest_collision (dumps False v) (dumps False w)"
  by (auto simp: sha256_ref_def dest!: digest_eqD intro: dumps_eqD)

lemma ui_state_value_inj [simp]: "ui_state_value s = ui_state_value t \<longleftrightarrow> s = t"
  by (cases s; cases t) simp_all

definition storable :: "CapabilityEvidenceRecord \<Rightarrow> bool" where
  "storable r \<longleftrightarrow> evidence_fields_check r = None \<and> 0 \<le> er_recorded_at r \<and> er_recorded_at r < int end_of_time"

lemma storable_text:
  "storable r \<Longrightarrow> storable s \<Longrightarrow>
     timestamp_text (nat (er_recorded_at r)) < timestamp_text (nat (er_recorded_at s)) \<longleftrightarrow> er_recorded_at r < er_recorded_at s"
  "storable r \<Longrightarrow> storable s \<Longrightarrow>
     timestamp_text (nat (er_recorded_at r)) = timestamp_text (nat (er_recorded_at s)) \<longleftrightarrow> er_recorded_at r = er_recorded_at s"
  by (auto simp: storable_def timestamp_less timestamp_eq nat_less_iff)

lemma evidence_payload_determines:
  assumes "storable x" "storable y" "canon (evidence_payload x) = canon (evidence_payload y)"
  shows "x = y"
proof -
  note f = canon_JObj_eqD [OF assms(3) [unfolded evidence_payload_def]]
  have "er_fragment_id x = er_fragment_id y" using f [of "''fragment_id''"] by simp
  moreover have "er_fragment_version x = er_fragment_version y" using f [of "''fragment_version''"] by simp
  moreover have "er_scope x = er_scope y" using f [of "''scope''"] by simp
  moreover have "er_application x = er_application y" using f [of "''application''"] by simp
  moreover have "er_surface x = er_surface y" using f [of "''surface''"] by simp
  moreover have "er_contract_set_digest x = er_contract_set_digest y" using f [of "''contract_set_digest''"] by simp
  moreover have "er_evidence_digest x = er_evidence_digest y" using f [of "''evidence_digest''"] by simp
  moreover have "er_lifecycle_state x = er_lifecycle_state y" using f [of "''lifecycle_state''"] by simp
  moreover have "timestamp_text (nat (er_recorded_at x)) = timestamp_text (nat (er_recorded_at y))"
    using f [of "''recorded_at''"] by simp
  then have "er_recorded_at x = er_recorded_at y" using storable_text(2) [OF assms(1,2)] by blast
  ultimately show ?thesis by (rule CapabilityEvidenceRecord.equality) simp
qed

interpretation evidence: content_address evidence_payload False "\<lambda>r. sha256_text (dumps False (evidence_payload r))" storable
  by unfold_locales (simp_all add: evidence_payload_determines)

lemma evidence_id_eqD:
  "storable r \<Longrightarrow> storable s \<Longrightarrow> evidence_id r = evidence_id s \<Longrightarrow>
     r = s \<or> digest_collision (dumps False (evidence_payload r)) (dumps False (evidence_payload s))"
  using evidence.digest_determines [of r s] by (simp add: evidence_id_def sha256_ref_def)

text \<open>The stores that calls of \<open>append\<close> on constructed records lead to.\<close>

inductive evidence_reachable :: "evidence_store \<Rightarrow> bool" where
  empty: "evidence_reachable []"
| append: "evidence_reachable store \<Longrightarrow> storable r \<Longrightarrow> append_evidence store r c = (answer, store') \<Longrightarrow>
     evidence_reachable store'"

lemma append_evidence_iff:
  "append_evidence store r c = (answer, store') \<longleftrightarrow> (case validate_contract_binding r c of
      Some e \<Rightarrow> answer = Inl e \<and> store' = store
    | None \<Rightarrow> answer = Inr (evidence_id r) \<and>
        store' = (if evidence_id r \<in> set (map fst store) then store else store @ [(evidence_id r, r)]))"
  by (cases "validate_contract_binding r c") (auto simp: append_evidence_def)

definition store_invariant :: "evidence_store \<Rightarrow> bool" where
  "store_invariant store \<longleftrightarrow> distinct (map fst store) \<and> list_all (\<lambda>(i, r). i = evidence_id r \<and> storable r) store"

lemma reachable_invariant: "evidence_reachable store \<Longrightarrow> store_invariant store"
proof (induction rule: evidence_reachable.induct)
  case (append store r c answer store')
  have "store' = store \<or> (evidence_id r \<notin> set (map fst store) \<and> store' = store @ [(evidence_id r, r)])"
    using append.hyps(3) unfolding append_evidence_iff by (auto split: option.splits if_splits)
  with append.IH append.hyps(2) show ?case by (auto simp: store_invariant_def)
qed (simp add: store_invariant_def)

lemma first_per_fragment_eq:
  "first_per_fragment ids rs latest i =
     (case latest i of Some r \<Rightarrow> Some r
      | None \<Rightarrow> if i \<in> set ids then find (\<lambda>r. er_fragment_id r = i) rs else None)"
  by (induction rs arbitrary: latest) (auto split: option.splits)

lemma latest_records_eq:
  "latest_records store c = List.map_filter
     (\<lambda>i. find (\<lambda>r. er_fragment_id r = i) (evidence_rows store (contract_digest c))) (map uf_fragment_id (us_fragments c))"
  by (auto simp: latest_records_def Let_def first_per_fragment_eq map_filter_def intro!: map_cong filter_cong)

definition rows_for :: "evidence_store \<Rightarrow> string \<Rightarrow> string \<Rightarrow> CapabilityEvidenceRecord list" where
  "rows_for store digest i = filter (\<lambda>r. er_contract_set_digest r = digest \<and> er_fragment_id r = i) (map snd store)"

lemma set_evidence_rows: "set (evidence_rows store digest) = {r \<in> snd ` set store. er_contract_set_digest r = digest}"
  by (auto simp: evidence_rows_def image_iff)

lemma find_SomeD: "find P xs = Some x \<Longrightarrow> x \<in> set xs \<and> P x"
  by (auto simp: find_Some_iff)

lemma find_sorted:
  assumes "sorted (map g (rev xs))" "find P xs = Some x" "y \<in> set xs" "P y"
  shows "g y \<le> g x"
  using assms
proof (induction xs)
  case (Cons z zs)
  then show ?case by (auto simp: sorted_append split: if_splits)
qed simp

lemma latest_bound:
  assumes "store_invariant store" and "find (\<lambda>r. er_fragment_id r = i) (evidence_rows store digest) = Some r"
  shows "r \<in> set (rows_for store digest i) \<and> (\<forall>s \<in> set (rows_for store digest i). er_recorded_at s \<le> er_recorded_at r)"
proof
  have st: "\<forall>s \<in> snd ` set store. storable s"
    using assms(1) by (auto simp: store_invariant_def list_all_iff)
  note r = find_SomeD [OF assms(2)]
  then show "r \<in> set (rows_for store digest i)" by (auto simp: rows_for_def set_evidence_rows)
  show "\<forall>s \<in> set (rows_for store digest i). er_recorded_at s \<le> er_recorded_at r"
  proof
    fix s assume s: "s \<in> set (rows_for store digest i)"
    then have "s \<in> set (evidence_rows store digest)" "er_fragment_id s = i"
      by (auto simp: rows_for_def set_evidence_rows)
    then have "timestamp_text (nat (er_recorded_at s)) \<le> timestamp_text (nat (er_recorded_at r))"
      by (intro find_sorted [OF _ assms(2)]) (simp_all add: evidence_rows_def)
    moreover have "storable s" "storable r" using st s r by (auto simp: rows_for_def set_evidence_rows)
    ultimately show "er_recorded_at s \<le> er_recorded_at r"
      using storable_text(1) [of r s] by (auto simp: not_less)
  qed
qed

lemma find_rows_None: "find (\<lambda>r. er_fragment_id r = i) (evidence_rows store digest) = None \<longleftrightarrow> rows_for store digest i = []"
  by (auto simp: find_None_iff rows_for_def filter_empty_conv set_evidence_rows)

text \<open>A record appended last with an instant no earlier than the others comes first in the query.\<close>


lemma sort_key_snoc_max:
  assumes "\<forall>x \<in> set xs. g x \<le> g y"
  shows "sort_key g (xs @ [y]) = sort_key g xs @ [y]"
proof (rule properties_for_sort_key)
  show "filter (\<lambda>x. g k = g x) (sort_key g xs @ [y]) = filter (\<lambda>x. g k = g x) (xs @ [y])" for k
    using sort_key_stable [of g "g k" xs] by (simp add: eq_commute [of "g k"])
qed (use assms in \<open>auto simp: sorted_append\<close>)

lemma new_record_first:
  assumes "store_invariant store" "storable r" "er_contract_set_digest r = digest"
    and "\<forall>s \<in> set (rows_for store digest (er_fragment_id r)). er_recorded_at s \<le> er_recorded_at r"
  shows "find (\<lambda>s. er_fragment_id s = er_fragment_id r) (evidence_rows (store @ [(i, r)]) digest) = Some r"
proof -
  let ?P = "\<lambda>s. er_fragment_id s = er_fragment_id r" and ?g = "\<lambda>r. timestamp_text (nat (er_recorded_at r))"
  let ?xs = "map snd (filter (\<lambda>(_, r). er_contract_set_digest r = digest) store)"
  have filter_rows: "filter ?P (evidence_rows st digest) =
      rev (sort_key ?g (filter ?P (map snd (filter (\<lambda>(_, r). er_contract_set_digest r = digest) st))))" for st
    by (simp only: evidence_rows_def rev_filter [symmetric] filter_sort)
  have rows: "filter ?P ?xs = rows_for store digest (er_fragment_id r)"
    by (simp add: rows_for_def filter_map comp_def case_prod_unfold conj_commute)
  have "\<forall>s \<in> set (filter ?P ?xs). ?g s \<le> ?g r"
  proof
    fix s assume "s \<in> set (filter ?P ?xs)"
    then have s: "s \<in> set (rows_for store digest (er_fragment_id r))" unfolding rows .
    then have "storable s" using assms(1) by (auto simp: rows_for_def store_invariant_def list_all_iff)
    with s assms(2,4) storable_text(1) [of r s] show "?g s \<le> ?g r" by (auto simp: not_less [symmetric])
  qed
  from sort_key_snoc_max [OF this] have "filter ?P (evidence_rows (store @ [(i, r)]) digest) =
      r # rev (sort_key ?g (filter ?P ?xs))"
    unfolding filter_rows using assms(3) by simp
  note first = this
  have hd: "find ?P xs = Some (hd (filter ?P xs))" if "filter ?P xs \<noteq> []" for xs
    using that by (induction xs) auto
  show ?thesis using hd [of "evidence_rows (store @ [(i, r)]) digest"] unfolding first by simp
qed

lemma map_filter_set: "r \<in> set (List.map_filter f xs) \<longleftrightarrow> (\<exists>x \<in> set xs. f x = Some r)"
  by (induction xs) (auto simp: map_filter_simps split: option.splits)

lemma latest_in:
  "r \<in> set (latest_records store c) \<longleftrightarrow> er_fragment_id r \<in> set (map uf_fragment_id (us_fragments c)) \<and>
     find (\<lambda>s. er_fragment_id s = er_fragment_id r) (evidence_rows store (contract_digest c)) = Some r"
proof -
  have "find (\<lambda>s. er_fragment_id s = i) xs = Some r \<Longrightarrow> er_fragment_id r = i" for i xs
    using find_SomeD [of "\<lambda>s. er_fragment_id s = i" xs r] by simp
  then show ?thesis unfolding latest_records_eq map_filter_set by blast
qed

lemma validate_digest: "validate_contract_binding r c = None \<Longrightarrow> er_contract_set_digest r = contract_digest c"
  "validate_contract_binding r c = None \<Longrightarrow> er_fragment_id r \<in> set (map uf_fragment_id (us_fragments c))"
proof -
  show "validate_contract_binding r c = None \<Longrightarrow> er_contract_set_digest r = contract_digest c"
    by (auto simp: validate_contract_binding_def split: if_splits)
  assume "validate_contract_binding r c = None"
  then have "filter (\<lambda>f. uf_fragment_id f = er_fragment_id r) (us_fragments c) \<noteq> []"
    by (auto simp: validate_contract_binding_def split: if_splits)
  then show "er_fragment_id r \<in> set (map uf_fragment_id (us_fragments c))"
    by (auto simp: filter_empty_conv intro: rev_image_eqI)
qed

subsection \<open>Properties\<close>

text \<open>Evidence is kept and found. In every store reached by appending, each record has its own id
  and the id determines the record up to a SHA-256 collision. A call of \<open>append\<close> never removes a row, and
  appending an accepted record again changes nothing. The latest records of a contract set are stored
  under its digest, no stored record of the same fragment and set is later, and a fragment has one exactly
  when it has any; an accepted new record that is no earlier than the others becomes the latest.\<close>
theorem evidence_store_latest:
  assumes "evidence_reachable store" and "storable r" and "append_evidence store r c = (answer, store')"
  shows "prefix store store' \<and> distinct (map fst store') \<and>
    list_all (\<lambda>(i, s). i = evidence_id s) store' \<and>
    (answer = Inr (evidence_id r) \<longrightarrow> append_evidence store' r c = (answer, store')) \<and>
    (\<forall>s \<in> set (latest_records store' c). s \<in> set (rows_for store' (contract_digest c) (er_fragment_id s)) \<and>
       (\<forall>t \<in> set (rows_for store' (contract_digest c) (er_fragment_id s)). er_recorded_at t \<le> er_recorded_at s)) \<and>
    (\<forall>f \<in> set (us_fragments c). (\<exists>s \<in> set (latest_records store' c). er_fragment_id s = uf_fragment_id f) \<longleftrightarrow>
       rows_for store' (contract_digest c) (uf_fragment_id f) \<noteq> []) \<and>
    (answer = Inr (evidence_id r) \<and> store' \<noteq> store \<and>
       (\<forall>s \<in> set (rows_for store (contract_digest c) (er_fragment_id r)). er_recorded_at s \<le> er_recorded_at r) \<longrightarrow>
       r \<in> set (latest_records store' c)) \<and>
    (storable s \<and> evidence_id r = evidence_id s \<longrightarrow>
       r = s \<or> digest_collision (dumps False (evidence_payload r)) (dumps False (evidence_payload s)))"
proof (intro conjI)
  have inv: "store_invariant store" using assms(1) by (rule reachable_invariant)
  have inv': "store_invariant store'"
    using evidence_reachable.append [OF assms] by (rule reachable_invariant)
  show "storable s \<and> evidence_id r = evidence_id s \<longrightarrow>
       r = s \<or> digest_collision (dumps False (evidence_payload r)) (dumps False (evidence_payload s))"
    using evidence_id_eqD [OF assms(2)] by blast
  show "prefix store store'"
    using assms(3) unfolding append_evidence_iff by (auto split: option.splits if_splits)
  show "distinct (map fst store')" "list_all (\<lambda>(i, s). i = evidence_id s) store'"
    using inv' by (auto simp: store_invariant_def list_all_iff)
  show "answer = Inr (evidence_id r) \<longrightarrow> append_evidence store' r c = (answer, store')"
    using assms(3) unfolding append_evidence_iff by (auto split: option.splits if_splits)
  show "\<forall>s \<in> set (latest_records store' c). s \<in> set (rows_for store' (contract_digest c) (er_fragment_id s)) \<and>
       (\<forall>t \<in> set (rows_for store' (contract_digest c) (er_fragment_id s)). er_recorded_at t \<le> er_recorded_at s)"
    using latest_bound [OF inv'] by (auto simp: latest_in)
  show "\<forall>f \<in> set (us_fragments c). (\<exists>s \<in> set (latest_records store' c). er_fragment_id s = uf_fragment_id f) \<longleftrightarrow>
       rows_for store' (contract_digest c) (uf_fragment_id f) \<noteq> []"
  proof
    fix f assume f: "f \<in> set (us_fragments c)"
    let ?find = "find (\<lambda>s. er_fragment_id s = uf_fragment_id f) (evidence_rows store' (contract_digest c))"
    have "(\<exists>s \<in> set (latest_records store' c). er_fragment_id s = uf_fragment_id f) \<longleftrightarrow> ?find \<noteq> None"
    proof
      assume "?find \<noteq> None"
      then obtain s where s: "?find = Some s" by blast
      with find_SomeD [OF s] f show "\<exists>s \<in> set (latest_records store' c). er_fragment_id s = uf_fragment_id f"
        by (auto simp: latest_in)
    qed (auto simp: latest_in)
    then show "(\<exists>s \<in> set (latest_records store' c). er_fragment_id s = uf_fragment_id f) \<longleftrightarrow>
        rows_for store' (contract_digest c) (uf_fragment_id f) \<noteq> []"
      by (simp add: find_rows_None)
  qed
  show "answer = Inr (evidence_id r) \<and> store' \<noteq> store \<and>
      (\<forall>s \<in> set (rows_for store (contract_digest c) (er_fragment_id r)). er_recorded_at s \<le> er_recorded_at r) \<longrightarrow>
      r \<in> set (latest_records store' c)"
  proof
    assume h: "answer = Inr (evidence_id r) \<and> store' \<noteq> store \<and>
      (\<forall>s \<in> set (rows_for store (contract_digest c) (er_fragment_id r)). er_recorded_at s \<le> er_recorded_at r)"
    then have v: "validate_contract_binding r c = None" and st: "store' = store @ [(evidence_id r, r)]"
      using assms(3) unfolding append_evidence_iff by (auto split: option.splits if_splits)
    with h new_record_first [OF inv assms(2) validate_digest(1) [OF v]] validate_digest(2) [OF v]
    show "r \<in> set (latest_records store' c)" by (simp add: latest_in)
  qed
qed

definition sample_evidence :: "UILifecycleState \<Rightarrow> utc \<Rightarrow> CapabilityEvidenceRecord" where
  "sample_evidence s t = \<lparr>er_fragment_id = ''tasks.read'', er_fragment_version = ''1'', er_scope = ''application'',
     er_application = Some ''planner'', er_surface = None, er_contract_set_digest = contract_digest sample_contract,
     er_evidence_digest = ''sha256:'' @ replicate 64 CHR ''0'', er_lifecycle_state = s, er_recorded_at = t\<rparr>"

lemma sample_evidence_storable: "0 \<le> t \<Longrightarrow> t < int end_of_time \<Longrightarrow> storable (sample_evidence s t)"
proof -
  have "evidence_identifier ''tasks.read''" "evidence_identifier ''planner''"
    "strip ''1'' \<noteq> []" "\<not> has_space ''1''" "is_sha256_ref (''sha256:'' @ replicate 64 CHR ''0'')" by code_simp+
  then show "0 \<le> t \<Longrightarrow> t < int end_of_time \<Longrightarrow> ?thesis"
    by (simp add: storable_def evidence_fields_check_def sample_evidence_def contract_digest_def
        ALLOWED_SCOPES_def absent_def checks)
qed

lemma sample_evidence_bound: "validate_contract_binding (sample_evidence s t) sample_contract = None"
proof -
  have "filter (\<lambda>f. uf_fragment_id f = ''tasks.read'') (us_fragments sample_contract) = [sample_fragment ''tasks.read'' True]"
    by code_simp
  then show ?thesis
    by (simp add: validate_contract_binding_def sample_evidence_def record_metadata_def fragment_metadata_def
        sample_fragment_def)
qed

theorem evidence_store_latest_witness:
  "\<exists>store. append_evidence [] (sample_evidence HEALTHY 5) sample_contract = (Inr (evidence_id (sample_evidence HEALTHY 5)), store) \<and>
     sample_evidence HEALTHY 5 \<in> set (latest_records store sample_contract)"
proof -
  let ?r = "sample_evidence HEALTHY 5"
  have st: "storable ?r" by (rule sample_evidence_storable) (simp_all add: end_of_time_def day_microseconds_def)
  have a: "append_evidence [] ?r sample_contract = (Inr (evidence_id ?r), [(evidence_id ?r, ?r)])"
    by (simp add: append_evidence_iff sample_evidence_bound)
  from evidence_store_latest [OF evidence_reachable.empty st a] a show ?thesis by (simp add: rows_for_def)
qed

subsection \<open>Freshness\<close>

definition fresh :: "EvidenceLifetimePolicy \<Rightarrow> utc \<Rightarrow> CapabilityEvidenceRecord \<Rightarrow> bool" where
  "fresh p now r \<longleftrightarrow> er_lifecycle_state r = HEALTHY \<and> er_recorded_at r \<le> now \<and> now < er_recorded_at r + policy_max_age p"

lemma policy_states:
  assumes "lifetime_policy_check p = None"
  shows "policy_state (ep_expiry_state p) \<noteq> HEALTHY" "policy_state (ep_missing_evidence_state p) \<noteq> HEALTHY"
    "policy_state (ep_future_timestamp_state p) \<noteq> HEALTHY"
  using assms
  by (auto simp: lifetime_policy_check_def policy_state_check_def policy_state_def allowed_policy_state_def checks
      split: option.splits)

lemma assess_healthy_iff:
  "lifetime_policy_check p = None \<Longrightarrow>
     ef_effective_state (assess_fragment f ro p now) = HEALTHY \<longleftrightarrow> (\<exists>r. ro = Some r \<and> fresh p now r)"
  using policy_states [of p]
  by (cases ro) (auto simp: assess_fragment_def assessment_of_def fresh_def intro: UILifecycleState.exhaust)

lemma bind_records_Inr:
  "bind_records fs digest rs acc = Inr m \<Longrightarrow>
     (\<forall>i. m i = (case acc i of Some r \<Rightarrow> Some r | None \<Rightarrow> find (\<lambda>r. er_fragment_id r = i) rs)) \<and>
     (\<forall>r \<in> set rs. \<exists>f \<in> set fs. uf_fragment_id f = er_fragment_id r \<and> last_by_id fs (er_fragment_id r) = Some f \<and>
        er_contract_set_digest r = digest \<and> record_metadata r = fragment_metadata f)"
proof (induction rs arbitrary: acc)
  case (Cons r rs)
  from Cons.prems obtain f where new: "acc (er_fragment_id r) = None"
    and f: "last_by_id fs (er_fragment_id r) = Some f" "validate_record_binding r f digest = None"
    and rest: "bind_records fs digest rs (acc(er_fragment_id r \<mapsto> r)) = Inr m"
    by (auto split: if_splits option.splits)
  from f(1) have "f \<in> set fs \<and> uf_fragment_id f = er_fragment_id r"
    unfolding last_by_id_def by (auto dest!: map_of_SomeD)
  with Cons.IH [OF rest] new f show ?case
    by (auto simp: validate_record_binding_def checks split: option.splits)
qed (simp split: option.splits)

lemma assess_Inr_iff:
  "assess_contract_evidence_freshness c rs p now = Inr as \<longleftrightarrow>
     (\<exists>u off m. now = Aware u off \<and> bind_records (us_fragments c) (contract_digest c) rs Map.empty = Inr m \<and>
       as = map (\<lambda>f. assess_fragment f (m (uf_fragment_id f)) p u) (us_fragments c))"
  by (auto simp: assess_contract_evidence_freshness_def bindE_Inr_iff require_aware_Inr_iff)

lemma normalize_states_map:
  "list_all (\<lambda>(i, v). ui_state_of v \<noteq> None) ov \<Longrightarrow> distinct (map fst ov) \<Longrightarrow>
     normalize_states ov acc = Inr m \<Longrightarrow>
     m i = (case map_of ov i of Some v \<Rightarrow> ui_state_of v | None \<Rightarrow> acc i)"
proof (induction ov arbitrary: acc)
  case (Cons kv ov)
  obtain k v where kv: "kv = (k, v)" by fastforce
  with Cons.prems obtain s where s: "ui_state_of v = Some s" by auto
  with Cons.prems kv have rest: "normalize_states ov (acc(k \<mapsto> s)) = Inr m" by simp
  have "map_of ov k = None" using Cons.prems(2) kv by (simp add: map_of_eq_None_iff)
  moreover have "m i = (case map_of ov i of Some v \<Rightarrow> ui_state_of v | None \<Rightarrow> (acc(k \<mapsto> s)) i)"
    using Cons.IH [OF _ _ rest] Cons.prems kv by simp
  ultimately show ?case using s by (cases "i = k") (simp_all add: kv split: option.splits)
qed simp

lemma map_filter_find_ids:
  "distinct ids \<Longrightarrow> i \<in> set ids \<Longrightarrow>
     find (\<lambda>r. er_fragment_id r = i) (List.map_filter (\<lambda>j. find (\<lambda>r. er_fragment_id r = j) rows) ids) =
     find (\<lambda>r. er_fragment_id r = i) rows"
proof (induction ids)
  case (Cons j ids)
  let ?look = "\<lambda>j. find (\<lambda>r. er_fragment_id r = j) rows"
  have look: "?look j = Some r \<Longrightarrow> er_fragment_id r = j" for j r
    using find_SomeD [of "\<lambda>r. er_fragment_id r = j" rows r] by simp
  show ?case
  proof (cases "?look j")
    case None
    show ?thesis
    proof (cases "i \<in> set ids")
      case True
      with None Cons.IH Cons.prems(1) show ?thesis by (simp add: map_filter_simps)
    next
      case False
      then have "i = j" using Cons.prems(2) by simp
      have "find (\<lambda>r. er_fragment_id r = i) (List.map_filter ?look ids) = None"
        using False look unfolding find_None_iff map_filter_set by blast
      with None \<open>i = j\<close> show ?thesis by (simp add: map_filter_simps)
    qed
  next
    case (Some r)
    show ?thesis
    proof (cases "i = j")
      case True
      with Some look [OF Some] show ?thesis by (simp add: map_filter_simps)
    next
      case False
      then have "i \<in> set ids" using Cons.prems(2) by simp
      with False Some look [OF Some] Cons.IH Cons.prems(1) show ?thesis by (simp add: map_filter_simps)
    qed
  qed
qed simp

lemma assess_fragment_id:
  "(\<And>r. ro = Some r \<Longrightarrow> er_fragment_id r = uf_fragment_id f) \<Longrightarrow> ef_fragment_id (assess_fragment f ro p now) = uf_fragment_id f"
  by (cases ro) (auto simp: assess_fragment_def assessment_of_def)

text \<open>What the overlay made from an assessment of the latest records says of a fragment.\<close>

lemma freshness_overlay:
  assumes "distinct_fragments c"
    and "assess_contract_evidence_freshness c (latest_records store c) p (Aware now off) = Inr as"
    and "lifecycle_overlay_from_freshness as = Inr ov"
  shows "\<exists>n. normalize_lifecycle_overlay c (Some ov) = Inr n \<and> (\<forall>f \<in> set (us_fragments c).
    n (uf_fragment_id f) = Some (ef_effective_state (assess_fragment f
      (find (\<lambda>r. er_fragment_id r = uf_fragment_id f) (evidence_rows store (contract_digest c))) p now)))"
proof -
  have dist: "distinct (map uf_fragment_id (us_fragments c))" using assms(1) by (simp add: distinct_fragments_def)
  let ?look = "\<lambda>i. find (\<lambda>r. er_fragment_id r = i) (evidence_rows store (contract_digest c))"
  let ?st = "\<lambda>f. ef_effective_state (assess_fragment f (?look (uf_fragment_id f)) p now)"
  from assms(2) obtain m where m: "bind_records (us_fragments c) (contract_digest c) (latest_records store c) Map.empty = Inr m"
    and as: "as = map (\<lambda>f. assess_fragment f (m (uf_fragment_id f)) p now) (us_fragments c)"
    by (auto simp: assess_Inr_iff)
  have look: "m (uf_fragment_id f) = ?look (uf_fragment_id f)" if "f \<in> set (us_fragments c)" for f
    using bind_records_Inr [OF m] map_filter_find_ids [OF dist, of "uf_fragment_id f"] that
    by (simp add: latest_records_eq)
  have as': "as = map (\<lambda>f. assess_fragment f (?look (uf_fragment_id f)) p now) (us_fragments c)"
    unfolding as by (intro map_cong) (simp_all add: look)
  have id: "ef_fragment_id (assess_fragment f (?look (uf_fragment_id f)) p now) = uf_fragment_id f" for f
    by (intro assess_fragment_id) (auto dest: find_SomeD)
  have ov: "ov = map (\<lambda>f. (uf_fragment_id f, ui_state_value (?st f))) (us_fragments c)"
    using assms(3) by (auto simp: lifecycle_overlay_from_freshness_def as' id comp_def split: if_splits)
  have ex: "\<exists>n. normalize_states (map (\<lambda>f. (uf_fragment_id f, ui_state_value (?st f))) fs) acc = Inr n" for fs acc
    by (induction fs arbitrary: acc) simp_all
  then obtain n where n: "normalize_states ov Map.empty = Inr n" unfolding ov by blast
  have "n (uf_fragment_id f) = Some (?st f)" if f: "f \<in> set (us_fragments c)" for f
  proof -
    have "map_of ov (uf_fragment_id f) = Some (ui_state_value (?st f))"
      using f dist by (intro map_of_is_SomeI) (auto simp: ov comp_def)
    then show ?thesis
      using normalize_states_map [OF _ _ n, of "uf_fragment_id f"] dist by (simp add: ov list_all_iff comp_def)
  qed
  moreover have "normalize_lifecycle_overlay c (Some ov) = Inr n"
    using n by (auto simp: normalize_lifecycle_overlay_def ov)
  ultimately show ?thesis by blast
qed

lemma latest_bound_to_fragment:
  assumes "distinct_fragments c" "f \<in> set (us_fragments c)"
    and "assess_contract_evidence_freshness c (latest_records store c) p t = Inr as"
    and "r \<in> set (latest_records store c)" "er_fragment_id r = uf_fragment_id f"
  shows "record_metadata r = fragment_metadata f"
proof -
  obtain m where m: "bind_records (us_fragments c) (contract_digest c) (latest_records store c) Map.empty = Inr m"
    using assms(3) by (auto simp: assess_Inr_iff)
  then obtain g where g: "g \<in> set (us_fragments c)" "uf_fragment_id g = er_fragment_id r" "record_metadata r = fragment_metadata g"
    using bind_records_Inr [OF m] assms(4) by blast
  have "g = f" using g(1,2) assms(1,2,5) by (auto simp: distinct_fragments_def distinct_map dest: inj_onD)
  with g(3) show ?thesis by simp
qed

definition supporting :: "evidence_store \<Rightarrow> UIContractSet \<Rightarrow> EvidenceLifetimePolicy \<Rightarrow> utc \<Rightarrow> UIContractFragment \<Rightarrow> bool" where
  "supporting store c p now f \<longleftrightarrow>
     (\<exists>r \<in> set (rows_for store (contract_digest c) (uf_fragment_id f)).
        record_metadata r = fragment_metadata f \<and> fresh p now r \<and> r \<in> set (latest_records store c) \<and>
        (\<forall>s \<in> set (rows_for store (contract_digest c) (uf_fragment_id f)). er_recorded_at s \<le> er_recorded_at r))"

lemma supporting_iff:
  assumes "store_invariant store" "distinct_fragments c" "f \<in> set (us_fragments c)"
    and "assess_contract_evidence_freshness c (latest_records store c) p t = Inr as"
  shows "supporting store c p now f \<longleftrightarrow>
    (\<exists>r. find (\<lambda>r. er_fragment_id r = uf_fragment_id f) (evidence_rows store (contract_digest c)) = Some r \<and> fresh p now r)"
proof
  assume "\<exists>r. find (\<lambda>r. er_fragment_id r = uf_fragment_id f) (evidence_rows store (contract_digest c)) = Some r \<and> fresh p now r"
  then obtain r where r: "find (\<lambda>r. er_fragment_id r = uf_fragment_id f) (evidence_rows store (contract_digest c)) = Some r"
    "fresh p now r" by blast
  have i: "er_fragment_id r = uf_fragment_id f" using find_SomeD [OF r(1)] by simp
  then have l: "r \<in> set (latest_records store c)" using r(1) assms(3) by (simp add: latest_in)
  show "supporting store c p now f"
    unfolding supporting_def
    using latest_bound [OF assms(1) r(1)] l r(2) latest_bound_to_fragment [OF assms(2,3,4) l i] by blast
qed (auto simp: supporting_def latest_in rows_for_def)

text \<open>Freshness never promotes: for a valid policy an assessment is healthy exactly for a healthy
  record that is not in the future and younger than the policy's maximum age; a degraded record keeps its
  state whatever its age, a missing one is never healthy, and what has expired is not healthy later.\<close>
theorem freshness_never_promotes:
  assumes "lifetime_policy_check p = None"
  shows "(ef_effective_state (assess_fragment f ro p now) = HEALTHY \<longleftrightarrow> (\<exists>r. ro = Some r \<and> fresh p now r)) \<and>
    (\<forall>r. ro = Some r \<and> er_lifecycle_state r \<noteq> HEALTHY \<longrightarrow>
       ef_effective_state (assess_fragment f ro p now) = er_lifecycle_state r) \<and>
    (ef_effective_state (assess_fragment f ro p now) = HEALTHY \<and> now \<le> later \<longrightarrow>
       (ef_effective_state (assess_fragment f ro p later) = HEALTHY \<longleftrightarrow>
          (case ef_expires_at (assess_fragment f ro p now) of None \<Rightarrow> False | Some x \<Rightarrow> later < x)))"
proof (intro conjI)
  show "ef_effective_state (assess_fragment f ro p now) = HEALTHY \<longleftrightarrow> (\<exists>r. ro = Some r \<and> fresh p now r)"
    by (rule assess_healthy_iff [OF assms])
  show "\<forall>r. ro = Some r \<and> er_lifecycle_state r \<noteq> HEALTHY \<longrightarrow>
       ef_effective_state (assess_fragment f ro p now) = er_lifecycle_state r"
    by (auto simp: assess_fragment_def assessment_of_def intro: UILifecycleState.exhaust)
  show "ef_effective_state (assess_fragment f ro p now) = HEALTHY \<and> now \<le> later \<longrightarrow>
       (ef_effective_state (assess_fragment f ro p later) = HEALTHY \<longleftrightarrow>
          (case ef_expires_at (assess_fragment f ro p now) of None \<Rightarrow> False | Some x \<Rightarrow> later < x))"
    unfolding assess_healthy_iff [OF assms]
    by (auto simp: fresh_def assess_fragment_def assessment_of_def)
qed

definition sample_lifetime :: EvidenceLifetimePolicy where
  "sample_lifetime = \<lparr>ep_schema_version = ''1.0.0'', ep_policy_id = ''ui-evidence-lifetime-v1'',
     ep_max_age_seconds = 604800, ep_expiry_state = ''STALE'',
     ep_missing_evidence_state = ''RE_ATTESTATION_REQUIRED'', ep_future_timestamp_state = ''RE_ATTESTATION_REQUIRED''\<rparr>"

theorem freshness_never_promotes_witness:
  "ef_effective_state (assess_fragment (sample_fragment ''tasks.read'' True) (Some (sample_evidence HEALTHY 5)) sample_lifetime 10) = HEALTHY"
proof -
  have "lifetime_policy_check sample_lifetime = None" by code_simp
  from freshness_never_promotes [OF this, of "sample_fragment ''tasks.read'' True" "Some (sample_evidence HEALTHY 5)" 10]
  show ?thesis by (simp add: fresh_def sample_evidence_def sample_lifetime_def policy_max_age_def)
qed

text \<open>C9. The whole chain from stored evidence to support: take any reachable store, read the latest records
  of a contract set, assess them under a valid policy and attest a capability with the resulting overlay.
  Then the capability is attested exactly when it has dependencies, each of which is attested in its
  contract and has a stored record, bound to this very contract set and fragment, that is healthy, within
  its lifetime and not superseded by a later one.\<close>
theorem attested_from_stored_evidence:
  assumes "evidence_reachable store" and "distinct_fragments c" and "lifetime_policy_check p = None"
    and "assess_contract_evidence_freshness c (latest_records store c) p (Aware now off) = Inr as"
    and "lifecycle_overlay_from_freshness as = Inr ov"
    and "attestation_for_capability c app cap (Some ov) = Inr a"
  shows "ua_attested a \<longleftrightarrow> fragments_for_capability c app cap \<noteq> [] \<and>
    (\<forall>f \<in> set (fragments_for_capability c app cap). effectively_attested f \<and> supporting store c p now f)"
proof -
  have inv: "store_invariant store" using assms(1) by (rule reachable_invariant)
  obtain n where n: "normalize_lifecycle_overlay c (Some ov) = Inr n"
    and nf: "\<And>f. f \<in> set (us_fragments c) \<Longrightarrow> n (uf_fragment_id f) = Some (ef_effective_state (assess_fragment f
      (find (\<lambda>r. er_fragment_id r = uf_fragment_id f) (evidence_rows store (contract_digest c))) p now))"
    using freshness_overlay [OF assms(2,4,5)] by blast
  have step: "n (uf_fragment_id f) \<in> {None, Some HEALTHY} \<longleftrightarrow> supporting store c p now f"
    if "f \<in> set (fragments_for_capability c app cap)" for f
  proof -
    have f: "f \<in> set (us_fragments c)" using that by (simp add: fragments_for_capability_def)
    show ?thesis
      unfolding supporting_iff [OF inv assms(2) f assms(4)] using nf [OF f] by (simp add: assess_healthy_iff [OF assms(3)])
  qed
  have "a = attest_dependencies app cap n (fragments_for_capability c app cap)"
    using assms(6) attestation_eq [OF assms(2) n] by simp
  then show ?thesis using attested_iff [of app cap n "fragments_for_capability c app cap"] step by blast
qed

lemma sample_chain:
  fixes r store now
  defines "r \<equiv> sample_evidence HEALTHY 5"
  defines "store \<equiv> [(evidence_id r, r)]"
  shows "evidence_reachable store" and "latest_records store sample_contract = [r]"
    and "bind_records (us_fragments sample_contract) (contract_digest sample_contract) [r] Map.empty = Inr [''tasks.read'' \<mapsto> r]"
proof -
  have st: "storable r" unfolding r_def
    by (rule sample_evidence_storable) (simp_all add: end_of_time_def day_microseconds_def)
  have v: "validate_contract_binding r sample_contract = None" unfolding r_def by (rule sample_evidence_bound)
  have a: "append_evidence [] r sample_contract = (Inr (evidence_id r), store)"
    by (simp add: append_evidence_iff v store_def)
  show "evidence_reachable store" by (rule evidence_reachable.append [OF evidence_reachable.empty st a])
  have rf: "er_fragment_id r = ''tasks.read''" "er_contract_set_digest r = contract_digest sample_contract"
    by (simp_all add: r_def sample_evidence_def)
  have ids: "map uf_fragment_id (us_fragments sample_contract) = [''tasks.read'', ''plans.read'']" by code_simp
  have "evidence_rows store (contract_digest sample_contract) = [r]" by (simp add: evidence_rows_def store_def rf)
  then show "latest_records store sample_contract = [r]"
    by (simp add: latest_records_eq ids rf map_filter_simps)
  have "last_by_id (us_fragments sample_contract) ''tasks.read'' = Some (sample_fragment ''tasks.read'' True)" by code_simp
  then show "bind_records (us_fragments sample_contract) (contract_digest sample_contract) [r] Map.empty = Inr [''tasks.read'' \<mapsto> r]"
    by (simp add: rf validate_record_binding_def checks record_metadata_def fragment_metadata_def r_def
        sample_evidence_def sample_fragment_def first_error.simps)
qed

theorem attested_from_stored_evidence_witness:
  "\<exists>store as ov a. evidence_reachable store \<and>
     assess_contract_evidence_freshness sample_contract (latest_records store sample_contract) sample_lifetime (Aware 10 0) = Inr as \<and>
     lifecycle_overlay_from_freshness as = Inr ov \<and>
     attestation_for_capability sample_contract ''planner'' ''tasks.read'' (Some ov) = Inr a \<and>
     (ua_attested a \<longleftrightarrow> supporting store sample_contract sample_lifetime 10 (sample_fragment ''tasks.read'' True))"
proof -
  define r where "r = sample_evidence HEALTHY 5"
  define store where "store = [(evidence_id r, r)]"
  note ch = sample_chain [folded r_def, folded store_def]
  have d: "distinct_fragments sample_contract" "lifetime_policy_check sample_lifetime = None"
    "fragments_for_capability sample_contract ''planner'' ''tasks.read'' = [sample_fragment ''tasks.read'' True]"
    "effectively_attested (sample_fragment ''tasks.read'' True)"
    "us_fragments sample_contract = [sample_fragment ''tasks.read'' True, sample_fragment ''plans.read'' False]"
    by code_simp+
  let ?m = "[''tasks.read'' \<mapsto> r]"
  define as where "as = map (\<lambda>f. assess_fragment f (?m (uf_fragment_id f)) sample_lifetime 10) (us_fragments sample_contract)"
  have a: "assess_contract_evidence_freshness sample_contract (latest_records store sample_contract) sample_lifetime (Aware 10 0) = Inr as"
    by (simp only: assess_contract_evidence_freshness_def ch(2,3) require_aware.simps bindE_simps as_def)
  have "map ef_fragment_id as = [''tasks.read'', ''plans.read'']"
    by (simp add: as_def d(5) sample_fragment_def assess_fragment_def assessment_of_def r_def sample_evidence_def)
  then obtain ov where ov: "lifecycle_overlay_from_freshness as = Inr ov"
    by (simp add: lifecycle_overlay_from_freshness_def)
  obtain n where "normalize_lifecycle_overlay sample_contract (Some ov) = Inr n"
    using freshness_overlay [OF d(1) a ov] by blast
  then obtain at where at: "attestation_for_capability sample_contract ''planner'' ''tasks.read'' (Some ov) = Inr at"
    using attestation_eq [OF d(1)] by blast
  from attested_from_stored_evidence [OF ch(1) d(1,2) a ov at] d(3,4) ch(1) a ov at show ?thesis by auto
qed

end
