(* ===== verification/Attestation.thy ===== *)
(*  Attestation campaigns, observations, their evaluation and collection. *)

theory Attestation
  imports Evidence
begin

text \<open>
  \<open>attestation.py\<close>: campaigns over a contract set, sanitized observations and their evaluation into a
  decision with an evidence record. \<open>attestation_collection.py\<close>: the observation built from match
  counts. The browser probe is an argument (a count for each selector), as is the clock. Parsing an
  observation document is not modelled: it rests on \<open>datetime.fromisoformat\<close>.

  The results: when an observation passes, that only a passing one yields healthy evidence, that its
  record is accepted by the evidence store for the contract set it was made for, and that what the
  collector builds is bound to that set.
\<close>

subsection \<open>Campaigns\<close>

datatype AttestationLevel = DISCOVERY_LEVEL | UI_LEVEL | READ_LEVEL | MUTATION_LEVEL

fun attestation_level_value :: "AttestationLevel \<Rightarrow> string" where
  "attestation_level_value DISCOVERY_LEVEL = ''DISCOVERY''"
| "attestation_level_value UI_LEVEL = ''UI''"
| "attestation_level_value READ_LEVEL = ''READ''"
| "attestation_level_value MUTATION_LEVEL = ''MUTATION''"

datatype ObservationSource = LIVE_UI | MOCK

fun observation_source_value :: "ObservationSource \<Rightarrow> string" where
  "observation_source_value LIVE_UI = ''LIVE_UI''"
| "observation_source_value MOCK = ''MOCK''"

datatype SelectorObservationResult = UNIQUE_MATCH | NO_MATCH | AMBIGUOUS | STRUCTURE_MISMATCH

fun selector_result_value :: "SelectorObservationResult \<Rightarrow> string" where
  "selector_result_value UNIQUE_MATCH = ''UNIQUE_MATCH''"
| "selector_result_value NO_MATCH = ''NO_MATCH''"
| "selector_result_value AMBIGUOUS = ''AMBIGUOUS''"
| "selector_result_value STRUCTURE_MISMATCH = ''STRUCTURE_MISMATCH''"

datatype AttestationDecisionState = PASSED | REVIEW_REQUIRED | FAILED

record AttestationCampaignStep =
  as_fragment_id :: string
  as_selector_key :: string
  as_contract_status :: string
  as_locator_strategies :: "string list"
  as_discovery_required :: bool

definition step_to_dict :: "AttestationCampaignStep \<Rightarrow> json" where
  "step_to_dict s = JObj [
     (''fragment_id'', JStr (as_fragment_id s)),
     (''selector_key'', JStr (as_selector_key s)),
     (''contract_status'', JStr (as_contract_status s)),
     (''locator_strategies'', JList (map JStr (as_locator_strategies s))),
     (''discovery_required'', JBool (as_discovery_required s))]"

record AttestationCampaign =
  cg_contract_set_digest :: string
  cg_target_level :: AttestationLevel
  cg_fragment_ids :: "string list"
  cg_steps :: "AttestationCampaignStep list"

definition campaign_payload :: "AttestationCampaign \<Rightarrow> json" where
  "campaign_payload c = JObj [
     (''contract_set_digest'', JStr (cg_contract_set_digest c)),
     (''target_level'', JStr (attestation_level_value (cg_target_level c))),
     (''fragment_ids'', JList (map JStr (cg_fragment_ids c))),
     (''steps'', JList (map step_to_dict (cg_steps c)))]"

definition campaign_id :: "AttestationCampaign \<Rightarrow> string" where
  "campaign_id c = sha256_ref (campaign_payload c)"

definition campaign_step :: "string \<Rightarrow> string \<times> metadata \<Rightarrow> AttestationCampaignStep result" where
  "campaign_step fid selector = (case selector of (key, m) \<Rightarrow>
     bindE (locator_plan_from_metadata key m) (\<lambda>plan. Inr
       \<lparr>as_fragment_id = fid, as_selector_key = key,
        as_contract_status = py_str (get_or (JStr ''UNVERIFIED_LIVE'') ''status'' m),
        as_locator_strategies = (case plan of None \<Rightarrow> []
          | Some p \<Rightarrow> map (\<lambda>c. strategy_value (lc_strategy c)) (ordered_candidates p)),
        as_discovery_required = (plan = None)\<rparr>))"

definition fragment_steps :: "UIContractFragment \<Rightarrow> AttestationCampaignStep list result" where
  "fragment_steps f = mapE (campaign_step (uf_fragment_id f)) (uf_selectors f)"

definition build_attestation_campaign ::
  "UIContractSet \<Rightarrow> AttestationLevel \<Rightarrow> string list option \<Rightarrow> AttestationCampaign result" where
  "build_attestation_campaign c level fragment_ids =
     (let requested = (case fragment_ids of None \<Rightarrow> [] | Some is \<Rightarrow> is);
          selected = filter (\<lambda>f. fragment_ids = None \<or> uf_fragment_id f \<in> set requested) (us_fragments c) in
      if \<not> set requested \<subseteq> set (map uf_fragment_id (us_fragments c))
      then Inl (value_error ''attestation campaign references unknown fragment'')
      else if selected = [] then Inl (value_error ''attestation campaign must target at least one fragment'')
      else bindE (mapE fragment_steps selected) (\<lambda>steps. Inr
        \<lparr>cg_contract_set_digest = contract_digest c, cg_target_level = level,
         cg_fragment_ids = map uf_fragment_id selected, cg_steps = concat steps\<rparr>))"

subsection \<open>Observations\<close>

record SelectorObservation =
  so_selector_key :: string
  so_result :: SelectorObservationResult
  so_structural_digest :: "string option"

definition bad_ref :: "string option \<Rightarrow> bool" where
  "bad_ref d \<longleftrightarrow> (case d of None \<Rightarrow> False | Some v \<Rightarrow> \<not> is_sha256_ref v)"

definition selector_observation_check :: "SelectorObservation \<Rightarrow> exn option" where
  "selector_observation_check s = first_error [
     raise_if (so_selector_key s = [] \<or> so_selector_key s \<noteq> strip (so_selector_key s))
       (value_error ''selector observation key must be non-empty and trimmed''),
     raise_if (bad_ref (so_structural_digest s)) (value_error ''selector structural digest must be sha256''),
     raise_if (so_result s = UNIQUE_MATCH \<and> so_structural_digest s = None)
       (value_error ''unique selector observation requires structural digest'')]"

definition selector_observation_dict :: "SelectorObservation \<Rightarrow> json" where
  "selector_observation_dict s = JObj [
     (''selector_key'', JStr (so_selector_key s)),
     (''result'', JStr (selector_result_value (so_result s))),
     (''structural_digest'', json_opt (so_structural_digest s))]"

record AttestationObservation =
  ao_campaign_id :: string
  ao_contract_set_digest :: string
  ao_fragment_id :: string
  ao_fragment_version :: string
  ao_target_level :: AttestationLevel
  ao_source :: ObservationSource
  ao_observed_at :: datetime
  ao_selector_observations :: "SelectorObservation list"
  ao_locale :: "string option"
  ao_ui_surface_signal_digest :: "string option"
  ao_read_probe_ok :: "bool option"
  ao_mutation_applied :: "bool option"
  ao_read_back_ok :: "bool option"
  ao_compensation_proven :: "bool option"
  ao_approval_digest :: "string option"

definition is_letter :: "char \<Rightarrow> bool" where
  "is_letter c = (let n = of_char c :: nat in (65 \<le> n \<and> n \<le> 90) \<or> (97 \<le> n \<and> n \<le> 122))"

definition is_letter_or_digit :: "char \<Rightarrow> bool" where
  "is_letter_or_digit c = (let n = of_char c :: nat in is_letter c \<or> (48 \<le> n \<and> n \<le> 57))"

definition is_locale :: "string \<Rightarrow> bool" where
  "is_locale s = (case split_on CHR ''-'' s of [] \<Rightarrow> False
     | w # ws \<Rightarrow> list_all is_letter w \<and> 2 \<le> length w \<and> length w \<le> 3 \<and>
         list_all (\<lambda>v. list_all is_letter_or_digit v \<and> 2 \<le> length v \<and> length v \<le> 8) ws)"

definition observation_check :: "AttestationObservation \<Rightarrow> exn option" where
  "observation_check o' = first_error [
     raise_if (\<not> is_sha256_ref (ao_campaign_id o')) (ValueError ''{} digest must be sha256'' [''campaign'']),
     raise_if (\<not> is_sha256_ref (ao_contract_set_digest o')) (ValueError ''{} digest must be sha256'' [''contract-set'']),
     raise_if (ao_fragment_id o' = [] \<or> ao_fragment_id o' \<noteq> strip (ao_fragment_id o'))
       (value_error ''attestation fragment id must be non-empty and trimmed''),
     raise_if (ao_fragment_version o' = [] \<or> has_space (ao_fragment_version o'))
       (value_error ''attestation fragment version is invalid''),
     raise_if (is_naive (ao_observed_at o')) (value_error ''attestation timestamp must be timezone-aware''),
     raise_if (ao_selector_observations o' = [])
       (value_error ''attestation observation requires selector observations''),
     raise_if (\<not> distinct (map so_selector_key (ao_selector_observations o')))
       (value_error ''attestation observation contains duplicate selectors''),
     raise_if (case ao_locale o' of None \<Rightarrow> False | Some l \<Rightarrow> \<not> is_locale l)
       (value_error ''attestation locale is invalid''),
     raise_if (bad_ref (ao_ui_surface_signal_digest o'))
       (ValueError ''{} digest must be sha256'' [''UI surface signal'']),
     raise_if (bad_ref (ao_approval_digest o')) (ValueError ''{} digest must be sha256'' [''approval''])]"

text \<open>The constructor stores the instant converted to UTC.\<close>

definition attestation_observation :: "AttestationObservation \<Rightarrow> AttestationObservation result" where
  "attestation_observation o' = bindE (construct observation_check o')
     (\<lambda>o'. Inr (o'\<lparr>ao_observed_at := Aware (utc_of (ao_observed_at o')) 0\<rparr>))"

definition json_opt_bool :: "bool option \<Rightarrow> json" where
  "json_opt_bool v = (case v of None \<Rightarrow> JNull | Some b \<Rightarrow> JBool b)"

definition observation_payload :: "AttestationObservation \<Rightarrow> json" where
  "observation_payload o' = JObj [
     (''campaign_id'', JStr (ao_campaign_id o')),
     (''contract_set_digest'', JStr (ao_contract_set_digest o')),
     (''fragment_id'', JStr (ao_fragment_id o')),
     (''fragment_version'', JStr (ao_fragment_version o')),
     (''target_level'', JStr (attestation_level_value (ao_target_level o'))),
     (''source'', JStr (observation_source_value (ao_source o'))),
     (''observed_at'', JStr (timestamp_text (nat (utc_of (ao_observed_at o'))))),
     (''selector_observations'', JList (map selector_observation_dict (ao_selector_observations o'))),
     (''locale'', json_opt (ao_locale o')),
     (''ui_surface_signal_digest'', json_opt (ao_ui_surface_signal_digest o')),
     (''read_probe_ok'', json_opt_bool (ao_read_probe_ok o')),
     (''mutation_applied'', json_opt_bool (ao_mutation_applied o')),
     (''read_back_ok'', json_opt_bool (ao_read_back_ok o')),
     (''compensation_proven'', json_opt_bool (ao_compensation_proven o')),
     (''approval_digest'', json_opt (ao_approval_digest o'))]"

definition observation_digest :: "AttestationObservation \<Rightarrow> string" where
  "observation_digest o' = sha256_ref (observation_payload o')"

subsection \<open>Evaluation\<close>

record AttestationDecision =
  adn_state :: AttestationDecisionState
  adn_reasons :: "string list"
  adn_evidence_record :: CapabilityEvidenceRecord

definition attestation_decision ::
  "UIContractFragment \<Rightarrow> AttestationObservation \<Rightarrow> AttestationDecisionState \<Rightarrow> string list \<Rightarrow> UILifecycleState \<Rightarrow>
     AttestationDecision result" where
  "attestation_decision f o' state reasons lifecycle =
     bindE (evidence_record (\<lambda>s u. \<lparr>er_fragment_id = uf_fragment_id f, er_fragment_version = uf_fragment_version f,
         er_scope = uf_scope f, er_application = uf_application f, er_surface = uf_surface f,
         er_contract_set_digest = ao_contract_set_digest o', er_evidence_digest = observation_digest o',
         er_lifecycle_state = s, er_recorded_at = u\<rparr>) (ui_state_value lifecycle) (ao_observed_at o'))
       (\<lambda>r. Inr \<lparr>adn_state = state, adn_reasons = reasons, adn_evidence_record = r\<rparr>)"

definition contract_fragment :: "UIContractSet \<Rightarrow> string \<Rightarrow> UIContractFragment result" where
  "contract_fragment c i = (case filter (\<lambda>f. uf_fragment_id f = i) (us_fragments c) of
      [f] \<Rightarrow> Inr f
    | _ \<Rightarrow> Inl (value_error ''attestation references unknown contract fragment''))"

definition validate_observation_binding ::
  "AttestationCampaign \<Rightarrow> UIContractFragment \<Rightarrow> AttestationObservation \<Rightarrow> string list" where
  "validate_observation_binding g f o' = concat [
     (if ao_contract_set_digest o' \<noteq> cg_contract_set_digest g then [''CONTRACT_SET_DIGEST_MISMATCH''] else []),
     (if ao_campaign_id o' \<noteq> campaign_id g then [''CAMPAIGN_ID_MISMATCH''] else []),
     (if ao_fragment_version o' \<noteq> uf_fragment_version f then [''FRAGMENT_VERSION_MISMATCH''] else []),
     (if map so_selector_key (ao_selector_observations o') \<noteq> map fst (uf_selectors f)
      then [''SELECTOR_SET_OR_ORDER_MISMATCH''] else [])]"

definition mutation_failures :: "AttestationObservation \<Rightarrow> string list" where
  "mutation_failures o' = concat [
     (if ao_approval_digest o' = None then [''MUTATION_APPROVAL_EVIDENCE_REQUIRED''] else []),
     (if ao_mutation_applied o' \<noteq> Some True then [''MUTATION_NOT_CONFIRMED''] else []),
     (if ao_read_back_ok o' \<noteq> Some True then [''MUTATION_READ_BACK_NOT_CONFIRMED''] else []),
     (if ao_compensation_proven o' \<noteq> Some True then [''MUTATION_COMPENSATION_NOT_PROVEN''] else [])]"

text \<open>The decision procedure, given the campaign and the fragment of the observation.\<close>

definition judge ::
  "AttestationCampaign \<Rightarrow> UIContractFragment \<Rightarrow> AttestationObservation \<Rightarrow>
     AttestationDecisionState \<times> string list \<times> UILifecycleState" where
  "judge g f o' =
     (let errors = validate_observation_binding g f o';
          failures = filter (\<lambda>s. so_result s \<noteq> UNIQUE_MATCH) (ao_selector_observations o');
          discovery = map as_selector_key
            (filter (\<lambda>s. as_fragment_id s = uf_fragment_id f \<and> as_discovery_required s) (cg_steps g));
          level = ao_target_level o' in
      if errors \<noteq> [] then (FAILED, errors, RE_ATTESTATION_REQUIRED)
      else if ao_source o' \<noteq> LIVE_UI
      then (REVIEW_REQUIRED, [''NON_LIVE_EVIDENCE_CANNOT_PROMOTE''], RE_ATTESTATION_REQUIRED)
      else if failures \<noteq> []
      then (FAILED, map (\<lambda>s. ''SELECTOR_'' @ selector_result_value (so_result s) @ '':'' @ so_selector_key s) failures,
        if effectively_attested f then DRIFTED else RE_ATTESTATION_REQUIRED)
      else if level \<noteq> DISCOVERY_LEVEL \<and> discovery \<noteq> []
      then (REVIEW_REQUIRED, map (\<lambda>k. ''LOCATOR_DISCOVERY_REQUIRED:'' @ k) discovery, RE_ATTESTATION_REQUIRED)
      else if level = DISCOVERY_LEVEL
      then (REVIEW_REQUIRED, [''DISCOVERY_EVIDENCE_RECORDED_CONTRACT_REVIEW_REQUIRED''], RE_ATTESTATION_REQUIRED)
      else if level \<in> {READ_LEVEL, MUTATION_LEVEL} \<and> \<not> effectively_attested f
      then (REVIEW_REQUIRED, [''UI_CONTRACT_MUST_BE_ATTESTED_BEFORE_SEMANTIC_PROBE''], RE_ATTESTATION_REQUIRED)
      else if level \<in> {READ_LEVEL, MUTATION_LEVEL} \<and> ao_read_probe_ok o' \<noteq> Some True
      then (FAILED, [''READ_PROBE_NOT_CONFIRMED''], DRIFTED)
      else if level = MUTATION_LEVEL \<and> mutation_failures o' \<noteq> []
      then (FAILED, mutation_failures o', RE_ATTESTATION_REQUIRED)
      else if \<not> effectively_attested f
      then (REVIEW_REQUIRED, [''UI_OBSERVATION_PASSED_CONTRACT_ATTESTATION_REVIEW_REQUIRED''], RE_ATTESTATION_REQUIRED)
      else (PASSED, [attestation_level_value level @ ''_ATTESTATION_PASSED''], HEALTHY))"

definition evaluate_attestation_observation ::
  "UIContractSet \<Rightarrow> AttestationObservation \<Rightarrow> AttestationDecision result" where
  "evaluate_attestation_observation c o' =
     bindE (build_attestation_campaign c (ao_target_level o') (Some [ao_fragment_id o'])) (\<lambda>g.
     bindE (contract_fragment c (ao_fragment_id o')) (\<lambda>f.
     (case judge g f o' of (state, reasons, lifecycle) \<Rightarrow> attestation_decision f o' state reasons lifecycle)))"

subsection \<open>Collection\<close>

definition selector_structural_shape :: "string \<Rightarrow> metadata \<Rightarrow> int \<Rightarrow> int \<Rightarrow> json result" where
  "selector_structural_shape key m match_index match_count =
     bindE (locator_plan_from_metadata key m) (\<lambda>plan. Inr (JObj [
       (''selector_key'', JStr key),
       (''strategy'', JStr (case plan of None \<Rightarrow> ''undeclared'' | Some p \<Rightarrow> strategy_value (lc_strategy (plan_primary p)))),
       (''match_index'', JInt match_index),
       (''match_count'', JInt match_count)]))"

definition observe_selector ::
  "(string \<Rightarrow> metadata \<Rightarrow> int) \<Rightarrow> string \<times> metadata \<Rightarrow> SelectorObservation result" where
  "observe_selector probe selector = (case selector of (key, m) \<Rightarrow>
     if probe key m = 1
     then bindE (selector_structural_shape key m 0 1) (\<lambda>shape. construct selector_observation_check
       \<lparr>so_selector_key = key, so_result = UNIQUE_MATCH, so_structural_digest = Some (sha256_ref shape)\<rparr>)
     else construct selector_observation_check
       \<lparr>so_selector_key = key, so_result = (if probe key m = 0 then NO_MATCH else AMBIGUOUS), so_structural_digest = None\<rparr>)"

text \<open>The steps of a campaign for one fragment are its selectors in order, and the code looks each one
  up again by its key.\<close>

definition collect_structural_observation ::
  "UIContractSet \<Rightarrow> string \<Rightarrow> AttestationLevel \<Rightarrow> (string \<Rightarrow> metadata \<Rightarrow> int) \<Rightarrow> utc \<Rightarrow> AttestationObservation result" where
  "collect_structural_observation c i level probe now =
     bindE (build_attestation_campaign c level (Some [i])) (\<lambda>g.
     (case find (\<lambda>f. uf_fragment_id f = i) (us_fragments c) of
        None \<Rightarrow> Inl KeyError
      | Some f \<Rightarrow> bindE (mapE (\<lambda>s. case map_of (uf_selectors f) (as_selector_key s) of
            None \<Rightarrow> Inl KeyError
          | Some m \<Rightarrow> observe_selector probe (as_selector_key s, m)) (cg_steps g)) (\<lambda>observations.
          attestation_observation
            \<lparr>ao_campaign_id = campaign_id g, ao_contract_set_digest = cg_contract_set_digest g,
             ao_fragment_id = uf_fragment_id f, ao_fragment_version = uf_fragment_version f,
             ao_target_level = level, ao_source = LIVE_UI, ao_observed_at = Aware now 0,
             ao_selector_observations = observations, ao_locale = None, ao_ui_surface_signal_digest = None,
             ao_read_probe_ok = None, ao_mutation_applied = None, ao_read_back_ok = None,
             ao_compensation_proven = None, ao_approval_digest = None\<rparr>)))"

subsection \<open>Lemmas\<close>

lemma filter_distinct_key:
  "distinct (map k xs) \<Longrightarrow> x \<in> set xs \<Longrightarrow> filter (\<lambda>y. k y = k x) xs = [x]"
proof (induction xs)
  case (Cons z zs)
  then show ?case by (cases "z = x") (auto simp: filter_empty_conv image_iff)
qed simp

lemma find_distinct_key:
  "distinct (map k xs) \<Longrightarrow> x \<in> set xs \<Longrightarrow> find (\<lambda>y. k y = k x) xs = Some x"
  by (induction xs) auto

lemma campaign_step_Inr:
  "campaign_step i (k, m) = Inr s \<Longrightarrow> as_fragment_id s = i \<and> as_selector_key s = k \<and>
     (as_discovery_required s \<longleftrightarrow> locator_plan_from_metadata k m = Inr None)"
  by (auto simp: campaign_step_def bindE_Inr_iff)

lemma fragment_steps_Inr:
  assumes "fragment_steps f = Inr steps"
  shows "map as_selector_key steps = map fst (uf_selectors f)"
    and "\<forall>s \<in> set steps. as_fragment_id s = uf_fragment_id f"
    and "list_ex as_discovery_required steps \<longleftrightarrow>
      list_ex (\<lambda>(k, m). locator_plan_from_metadata k m = Inr None) (uf_selectors f)"
proof -
  have "list_all2 (\<lambda>x y. campaign_step (uf_fragment_id f) x = Inr y) (uf_selectors f) steps"
    using assms by (simp add: fragment_steps_def mapE_Inr_iff)
  then have "map as_selector_key steps = map fst (uf_selectors f) \<and> (\<forall>s \<in> set steps. as_fragment_id s = uf_fragment_id f) \<and>
    (list_ex as_discovery_required steps \<longleftrightarrow>
      list_ex (\<lambda>(k, m). locator_plan_from_metadata k m = Inr None) (uf_selectors f))"
    by (induction rule: list_all2_induct) (auto dest: campaign_step_Inr)
  then show "map as_selector_key steps = map fst (uf_selectors f)"
    and "\<forall>s \<in> set steps. as_fragment_id s = uf_fragment_id f"
    and "list_ex as_discovery_required steps \<longleftrightarrow>
      list_ex (\<lambda>(k, m). locator_plan_from_metadata k m = Inr None) (uf_selectors f)" by blast+
qed

lemma campaign_of_fragment:
  assumes "distinct_fragments c" "f \<in> set (us_fragments c)" "uf_fragment_id f = i"
  shows "build_attestation_campaign c level (Some [i]) = Inr g \<longleftrightarrow> (\<exists>steps. fragment_steps f = Inr steps \<and>
    g = \<lparr>cg_contract_set_digest = contract_digest c, cg_target_level = level, cg_fragment_ids = [i], cg_steps = steps\<rparr>)"
proof -
  have "filter (\<lambda>h. uf_fragment_id h = i) (us_fragments c) = [f]"
    using filter_distinct_key [of uf_fragment_id "us_fragments c" f] assms by (simp add: distinct_fragments_def)
  then show ?thesis
    using assms(2,3) by (auto simp: build_attestation_campaign_def bindE_Inr_iff Let_def)
qed

lemma campaign_known:
  "build_attestation_campaign c level (Some [i]) = Inr g \<Longrightarrow> i \<in> set (map uf_fragment_id (us_fragments c))"
  by (auto simp: build_attestation_campaign_def Let_def split: if_splits)

lemma contract_fragment_Inr:
  "contract_fragment c i = Inr f \<longleftrightarrow> filter (\<lambda>f. uf_fragment_id f = i) (us_fragments c) = [f]"
  by (auto simp: contract_fragment_def split: list.splits)

lemma filter_singletonD: "filter P xs = [x] \<Longrightarrow> x \<in> set xs \<and> P x"
  by (metis filter_eq_ConsD in_set_conv_decomp)

text \<open>What a passing observation has.\<close>

definition passes :: "AttestationCampaign \<Rightarrow> UIContractFragment \<Rightarrow> AttestationObservation \<Rightarrow> bool" where
  "passes g f o' \<longleftrightarrow> validate_observation_binding g f o' = [] \<and> ao_source o' = LIVE_UI \<and>
     (\<forall>s \<in> set (ao_selector_observations o'). so_result s = UNIQUE_MATCH) \<and>
     ao_target_level o' \<noteq> DISCOVERY_LEVEL \<and>
     \<not> list_ex (\<lambda>s. as_fragment_id s = uf_fragment_id f \<and> as_discovery_required s) (cg_steps g) \<and>
     effectively_attested f \<and>
     (ao_target_level o' \<in> {READ_LEVEL, MUTATION_LEVEL} \<longrightarrow> ao_read_probe_ok o' = Some True) \<and>
     (ao_target_level o' = MUTATION_LEVEL \<longrightarrow> ao_approval_digest o' \<noteq> None \<and> ao_mutation_applied o' = Some True \<and>
        ao_read_back_ok o' = Some True \<and> ao_compensation_proven o' = Some True)"

lemma mutation_failures_Nil:
  "mutation_failures o' = [] \<longleftrightarrow> ao_approval_digest o' \<noteq> None \<and> ao_mutation_applied o' = Some True \<and>
     ao_read_back_ok o' = Some True \<and> ao_compensation_proven o' = Some True"
  by (auto simp: mutation_failures_def)

lemma passes_eq:
  "passes g f o' \<longleftrightarrow> validate_observation_binding g f o' = [] \<and> ao_source o' = LIVE_UI \<and>
     filter (\<lambda>s. so_result s \<noteq> UNIQUE_MATCH) (ao_selector_observations o') = [] \<and>
     ao_target_level o' \<noteq> DISCOVERY_LEVEL \<and>
     map as_selector_key (filter (\<lambda>s. as_fragment_id s = uf_fragment_id f \<and> as_discovery_required s) (cg_steps g)) = [] \<and>
     effectively_attested f \<and>
     (ao_target_level o' \<in> {READ_LEVEL, MUTATION_LEVEL} \<longrightarrow> ao_read_probe_ok o' = Some True) \<and>
     (ao_target_level o' = MUTATION_LEVEL \<longrightarrow> mutation_failures o' = [])"
  by (simp add: passes_def filter_empty_conv list_ex_iff mutation_failures_Nil)

lemma judge_passes:
  "fst (judge g f o') = PASSED \<longleftrightarrow> passes g f o'"
  "snd (snd (judge g f o')) = HEALTHY \<longleftrightarrow> passes g f o'"
  unfolding judge_def Let_def passes_eq if_distrib [of fst] if_distrib [of snd] fst_conv snd_conv
  by (cases "ao_target_level o'"; simp del: filter_empty_conv map_is_Nil_conv)+

lemma binding_Nil:
  "validate_observation_binding g f o' = [] \<longleftrightarrow> ao_contract_set_digest o' = cg_contract_set_digest g \<and>
     ao_campaign_id o' = campaign_id g \<and> ao_fragment_version o' = uf_fragment_version f \<and>
     map so_selector_key (ao_selector_observations o') = map fst (uf_selectors f)"
  by (auto simp: validate_observation_binding_def)

lemma evidence_fields_state:
  "evidence_fields_check (r\<lparr>er_lifecycle_state := s, er_recorded_at := u\<rparr>) = evidence_fields_check r"
  by (simp add: evidence_fields_check_def)

lemma evidence_record_Inr:
  assumes "evidence_record (\<lambda>s u. r\<lparr>er_lifecycle_state := s, er_recorded_at := u\<rparr>) (ui_state_value l) t = Inr e"
  shows "e = r\<lparr>er_lifecycle_state := l, er_recorded_at := utc_of t\<rparr> \<and> evidence_fields_check e = None"
  using assms
  by (auto simp: evidence_record_def evidence_fields_state bindE_Inr_iff require_aware_Inr_iff split: option.splits)

lemma decision_Inr:
  assumes "attestation_decision f o' st rs l = Inr d"
  shows "adn_state d = st \<and> adn_reasons d = rs \<and> record_metadata (adn_evidence_record d) = fragment_metadata f \<and>
    er_fragment_id (adn_evidence_record d) = uf_fragment_id f \<and>
    er_contract_set_digest (adn_evidence_record d) = ao_contract_set_digest o' \<and>
    er_evidence_digest (adn_evidence_record d) = observation_digest o' \<and>
    er_lifecycle_state (adn_evidence_record d) = l \<and> er_recorded_at (adn_evidence_record d) = utc_of (ao_observed_at o') \<and>
    evidence_fields_check (adn_evidence_record d) = None"
proof -
  let ?r = "\<lparr>er_fragment_id = uf_fragment_id f, er_fragment_version = uf_fragment_version f,
         er_scope = uf_scope f, er_application = uf_application f, er_surface = uf_surface f,
         er_contract_set_digest = ao_contract_set_digest o', er_evidence_digest = observation_digest o',
         er_lifecycle_state = HEALTHY, er_recorded_at = 0\<rparr>"
  from assms obtain e where "evidence_record (\<lambda>s u. ?r\<lparr>er_lifecycle_state := s, er_recorded_at := u\<rparr>)
      (ui_state_value l) (ao_observed_at o') = Inr e"
    and d: "d = \<lparr>adn_state = st, adn_reasons = rs, adn_evidence_record = e\<rparr>"
    by (auto simp: attestation_decision_def bindE_Inr_iff)
  from evidence_record_Inr [OF this(1)] d show ?thesis by (auto simp: record_metadata_def fragment_metadata_def)
qed

lemma evaluate_Inr:
  assumes "evaluate_attestation_observation c o' = Inr d"
  shows "\<exists>g f. build_attestation_campaign c (ao_target_level o') (Some [ao_fragment_id o']) = Inr g \<and>
    contract_fragment c (ao_fragment_id o') = Inr f \<and>
    attestation_decision f o' (fst (judge g f o')) (fst (snd (judge g f o'))) (snd (snd (judge g f o'))) = Inr d"
  using assms by (auto simp: evaluate_attestation_observation_def bindE_Inr_iff case_prod_beta)


lemma construct_selector_Inr: "construct selector_observation_check s = Inr t \<Longrightarrow> t = s"
  by (simp add: construct_Inr_iff)

lemma observe_selector_Inr:
  "observe_selector probe (k, m) = Inr s \<Longrightarrow> so_selector_key s = k \<and> (so_result s = UNIQUE_MATCH \<longleftrightarrow> probe k m = 1)"
  by (auto simp: observe_selector_def bindE_Inr_iff construct_Inr_iff split: if_splits)

lemma collected_observations:
  assumes "mapE (\<lambda>s. case map_of sels (as_selector_key s) of None \<Rightarrow> Inl KeyError
      | Some m \<Rightarrow> observe_selector probe (as_selector_key s, m)) steps = Inr obs"
    and "map as_selector_key steps = map fst sels" and "distinct (map so_selector_key obs)"
  shows "map so_selector_key obs = map fst sels \<and>
    ((\<forall>s \<in> set obs. so_result s = UNIQUE_MATCH) \<longleftrightarrow> (\<forall>(k, m) \<in> set sels. probe k m = 1))"
proof -
  have all: "list_all2 (\<lambda>s y. \<exists>m. map_of sels (as_selector_key s) = Some m \<and>
      observe_selector probe (as_selector_key s, m) = Inr y) steps obs"
    using assms(1) unfolding mapE_Inr_iff by (rule list_all2_mono) (auto split: option.splits)
  then have "map so_selector_key obs = map as_selector_key steps"
    by (induction rule: list_all2_induct) (auto dest: observe_selector_Inr)
  then have keys: "map so_selector_key obs = map fst sels" using assms(2) by simp
  then have dist: "distinct (map fst sels)" using assms(3) by simp
  from all have "(\<forall>s \<in> set obs. so_result s = UNIQUE_MATCH) \<longleftrightarrow>
      (\<forall>k \<in> set (map as_selector_key steps). \<exists>m. map_of sels k = Some m \<and> probe k m = 1)"
    by (induction rule: list_all2_induct) (auto dest: observe_selector_Inr)
  also have "\<dots> \<longleftrightarrow> (\<forall>(k, m) \<in> set sels. probe k m = 1)"
    unfolding assms(2) set_map ball_simps using dist by (simp add: split_beta Ball_def) (metis map_of_eq_Some_iff option.inject prod.collapse)
  finally show ?thesis using keys by blast
qed

subsection \<open>Properties\<close>

text \<open>When an attestation passes. Whatever is observed, evaluation passes exactly for a live observation
  bound to the campaign of this contract set, whose selectors are all unique matches with declared
  locators, above the discovery level, on a fragment the contract already attests, with the read probe
  confirmed for the semantic levels and approval, effect, read-back and compensation for mutations.
  The evidence it yields is healthy exactly then, and the evidence store accepts the record for the
  contract set exactly when the observation names the digest of that set.\<close>
theorem attestation_passes_exact:
  assumes "evaluate_attestation_observation c o' = Inr d"
  shows "\<exists>g f. build_attestation_campaign c (ao_target_level o') (Some [ao_fragment_id o']) = Inr g \<and>
    contract_fragment c (ao_fragment_id o') = Inr f \<and>
    (adn_state d = PASSED \<longleftrightarrow>
       ao_contract_set_digest o' = contract_digest c \<and> ao_campaign_id o' = campaign_id g \<and>
       ao_fragment_version o' = uf_fragment_version f \<and>
       map so_selector_key (ao_selector_observations o') = map fst (uf_selectors f) \<and>
       ao_source o' = LIVE_UI \<and> (\<forall>s \<in> set (ao_selector_observations o'). so_result s = UNIQUE_MATCH) \<and>
       ao_target_level o' \<noteq> DISCOVERY_LEVEL \<and> \<not> list_ex as_discovery_required (cg_steps g) \<and> effectively_attested f \<and>
       (ao_target_level o' \<in> {READ_LEVEL, MUTATION_LEVEL} \<longrightarrow> ao_read_probe_ok o' = Some True) \<and>
       (ao_target_level o' = MUTATION_LEVEL \<longrightarrow> ao_approval_digest o' \<noteq> None \<and>
          ao_mutation_applied o' = Some True \<and> ao_read_back_ok o' = Some True \<and> ao_compensation_proven o' = Some True)) \<and>
    (er_lifecycle_state (adn_evidence_record d) = HEALTHY \<longleftrightarrow> adn_state d = PASSED) \<and>
    er_evidence_digest (adn_evidence_record d) = observation_digest o' \<and>
    (validate_contract_binding (adn_evidence_record d) c = None \<longleftrightarrow> ao_contract_set_digest o' = contract_digest c)"
proof -
  obtain g f where g: "build_attestation_campaign c (ao_target_level o') (Some [ao_fragment_id o']) = Inr g"
    and f: "contract_fragment c (ao_fragment_id o') = Inr f"
    and d: "attestation_decision f o' (fst (judge g f o')) (fst (snd (judge g f o'))) (snd (snd (judge g f o'))) = Inr d"
    using evaluate_Inr [OF assms] by blast
  have only: "filter (\<lambda>h. uf_fragment_id h = ao_fragment_id o') (us_fragments c) = [f]"
    using f by (simp add: contract_fragment_Inr)
  then have i: "uf_fragment_id f = ao_fragment_id o'" by (auto dest: filter_singletonD)
  have "cg_contract_set_digest g = contract_digest c \<and> (\<exists>steps. fragment_steps f = Inr steps \<and> cg_steps g = steps)"
    using g only by (auto simp: build_attestation_campaign_def bindE_Inr_iff Let_def split: if_splits)
  then have dg: "cg_contract_set_digest g = contract_digest c" and st: "\<forall>s \<in> set (cg_steps g). as_fragment_id s = uf_fragment_id f"
    using fragment_steps_Inr(2) by auto
  have "list_ex (\<lambda>s. as_fragment_id s = uf_fragment_id f \<and> as_discovery_required s) (cg_steps g) \<longleftrightarrow>
      list_ex as_discovery_required (cg_steps g)"
    using st by (auto simp: list_ex_iff)
  moreover note decision_Inr [OF d]
  moreover have "validate_contract_binding (adn_evidence_record d) c = None \<longleftrightarrow> ao_contract_set_digest o' = contract_digest c"
    using decision_Inr [OF d] only i by (simp add: validate_contract_binding_def)
  ultimately show ?thesis
    using g f judge_passes [of g f o'] by (auto simp: passes_def binding_Nil dg)
qed

text \<open>C17. What the collector can attest. Take a contract set with distinct fragments and let the collector
  observe one fragment through any probe. Evaluating the observation against the same set never finds a
  binding error, and it passes exactly at the UI level, when the fragment is attested in the contract,
  every selector declares locators and the probe counts exactly one match for each; so structural
  collection alone never attests a read or a mutation.\<close>
theorem collection_passes_exact:
  assumes "distinct_fragments c" and "f \<in> set (us_fragments c)"
    and "collect_structural_observation c (uf_fragment_id f) level probe now = Inr o'"
    and "evaluate_attestation_observation c o' = Inr d"
  shows "(adn_state d = PASSED \<longleftrightarrow> level = UI_LEVEL \<and> effectively_attested f \<and>
      (\<forall>(k, m) \<in> set (uf_selectors f). probe k m = 1 \<and> locator_plan_from_metadata k m \<noteq> Inr None)) \<and>
    er_recorded_at (adn_evidence_record d) = now \<and>
    validate_contract_binding (adn_evidence_record d) c = None"
proof -
  have only: "find (\<lambda>h. uf_fragment_id h = uf_fragment_id f) (us_fragments c) = Some f"
    using find_distinct_key [of uf_fragment_id "us_fragments c" f] assms(1,2) by (simp add: distinct_fragments_def)
  from assms(3) obtain g obs where g: "build_attestation_campaign c level (Some [uf_fragment_id f]) = Inr g"
    and obs: "mapE (\<lambda>s. case map_of (uf_selectors f) (as_selector_key s) of None \<Rightarrow> Inl KeyError
      | Some m \<Rightarrow> observe_selector probe (as_selector_key s, m)) (cg_steps g) = Inr obs"
    and dist: "distinct (map so_selector_key obs)"
    and o': "o' = \<lparr>ao_campaign_id = campaign_id g, ao_contract_set_digest = cg_contract_set_digest g,
       ao_fragment_id = uf_fragment_id f, ao_fragment_version = uf_fragment_version f,
       ao_target_level = level, ao_source = LIVE_UI, ao_observed_at = Aware now 0,
       ao_selector_observations = obs, ao_locale = None, ao_ui_surface_signal_digest = None,
       ao_read_probe_ok = None, ao_mutation_applied = None, ao_read_back_ok = None,
       ao_compensation_proven = None, ao_approval_digest = None\<rparr>"
    by (auto simp: collect_structural_observation_def bindE_Inr_iff only attestation_observation_def
        construct_Inr_iff observation_check_def checks)
  from g obtain steps where steps: "fragment_steps f = Inr steps" "cg_steps g = steps" "cg_contract_set_digest g = contract_digest c"
    using campaign_of_fragment [OF assms(1,2) refl] by auto
  note st = fragment_steps_Inr [OF steps(1)]
  note col = collected_observations [OF obs [unfolded steps(2)] st(1) dist]
  obtain g' f' where g': "build_attestation_campaign c (ao_target_level o') (Some [ao_fragment_id o']) = Inr g'"
    and f': "contract_fragment c (ao_fragment_id o') = Inr f'"
    and d: "attestation_decision f' o' (fst (judge g' f' o')) (fst (snd (judge g' f' o'))) (snd (snd (judge g' f' o'))) = Inr d"
    using evaluate_Inr [OF assms(4)] by blast
  have same: "g' = g" using g g' o' by simp
  have flt: "filter (\<lambda>h. uf_fragment_id h = uf_fragment_id f) (us_fragments c) = [f]"
    using filter_distinct_key [of uf_fragment_id "us_fragments c" f] assms(1,2) by (simp add: distinct_fragments_def)
  then have samef: "f' = f" using f' o' by (simp add: contract_fragment_Inr)
  have disc: "list_ex (\<lambda>s. as_fragment_id s = uf_fragment_id f \<and> as_discovery_required s) (cg_steps g) \<longleftrightarrow>
      \<not> (\<forall>(k, m) \<in> set (uf_selectors f). locator_plan_from_metadata k m \<noteq> Inr None)"
    using st(2,3) steps(2) by (auto simp: list_ex_iff)
  have "passes g f o' \<longleftrightarrow> level = UI_LEVEL \<and> effectively_attested f \<and>
      (\<forall>(k, m) \<in> set (uf_selectors f). probe k m = 1 \<and> locator_plan_from_metadata k m \<noteq> Inr None)"
    unfolding passes_def disc binding_Nil using col o' by (cases level) auto
  moreover have "validate_contract_binding (adn_evidence_record d) c = None"
    using decision_Inr [OF d] flt o' samef steps(3) by (simp add: validate_contract_binding_def)
  ultimately show ?thesis
    using decision_Inr [OF d] judge_passes(1) [of g f o'] o' unfolding same samef by simp
qed

definition attestable_fragment :: UIContractFragment where
  "attestable_fragment = (sample_fragment ''tasks.read'' True)\<lparr>uf_selectors := [(''tasks.list'',
     [(''status'', JStr ''ATTESTED''),
      (''locators'', JList [JObj [(''strategy'', JStr ''label''), (''value'', JStr ''Tasks'')]])])]\<rparr>"

definition attestable_contract :: UIContractSet where
  "attestable_contract = \<lparr>us_set_version = ''1'', us_legacy_version = ''1'', us_fragments = [attestable_fragment]\<rparr>"

definition sample_observation :: "AttestationCampaign \<Rightarrow> string \<Rightarrow> AttestationObservation" where
  "sample_observation g shape = \<lparr>ao_campaign_id = campaign_id g, ao_contract_set_digest = contract_digest attestable_contract,
     ao_fragment_id = ''tasks.read'', ao_fragment_version = ''1'', ao_target_level = UI_LEVEL, ao_source = LIVE_UI,
     ao_observed_at = Aware 5 0, ao_selector_observations =
       [\<lparr>so_selector_key = ''tasks.list'', so_result = UNIQUE_MATCH, so_structural_digest = Some shape\<rparr>],
     ao_locale = None, ao_ui_surface_signal_digest = None, ao_read_probe_ok = None, ao_mutation_applied = None,
     ao_read_back_ok = None, ao_compensation_proven = None, ao_approval_digest = None\<rparr>"

lemma sample_collection:
  "\<exists>o' d. collect_structural_observation attestable_contract ''tasks.read'' UI_LEVEL (\<lambda>_ _. 1) 5 = Inr o' \<and>
     evaluate_attestation_observation attestable_contract o' = Inr d"
proof -
  let ?c = attestable_contract
  have fr: "us_fragments ?c = [attestable_fragment]" "uf_fragment_id attestable_fragment = ''tasks.read''"
    "uf_fragment_version attestable_fragment = ''1''" "uf_application attestable_fragment = Some ''planner''"
    "uf_scope attestable_fragment = ''application''" "uf_surface attestable_fragment = None"
    by (simp_all add: attestable_contract_def attestable_fragment_def sample_fragment_def)
  have dist: "distinct_fragments ?c" by (simp add: distinct_fragments_def fr)
  obtain steps where steps: "fragment_steps attestable_fragment = Inr steps"
  proof -
    have "case fragment_steps attestable_fragment of Inl _ \<Rightarrow> False | Inr _ \<Rightarrow> True" by code_simp
    then show ?thesis using that by (auto split: sum.splits)
  qed
  define g where "g = \<lparr>cg_contract_set_digest = contract_digest ?c, cg_target_level = UI_LEVEL,
    cg_fragment_ids = [''tasks.read''], cg_steps = steps\<rparr>"
  have g: "build_attestation_campaign ?c UI_LEVEL (Some [''tasks.read'']) = Inr g"
    using campaign_of_fragment [OF dist _ fr(2)] steps by (simp add: fr(1) g_def)
  obtain m where m: "uf_selectors attestable_fragment = [(''tasks.list'', m)]"
    by (simp add: attestable_fragment_def)
  have keys: "map as_selector_key steps = [''tasks.list'']" using fragment_steps_Inr(1) [OF steps] m by simp
  then obtain s where s: "steps = [s]" "as_selector_key s = ''tasks.list''" by auto
  obtain shape where shape: "selector_structural_shape ''tasks.list'' m 0 1 = Inr shape"
  proof -
    have "case uf_selectors attestable_fragment of [(k, v)] \<Rightarrow> (case selector_structural_shape k v 0 1 of Inl _ \<Rightarrow> False | Inr _ \<Rightarrow> True)"
      by code_simp
    then show ?thesis using that m by (auto split: sum.splits)
  qed
  let ?o = "sample_observation g (sha256_ref shape)"
  have k: "strip ''tasks.list'' = ''tasks.list''" "strip ''tasks.read'' = ''tasks.read''" "\<not> has_space ''1''"
    "evidence_identifier ''tasks.read''" "evidence_identifier ''planner''" "strip ''1'' \<noteq> []" by code_simp+
  have "attestation_observation ?o = Inr ?o"
    by (simp add: attestation_observation_def construct_def observation_check_def first_error.simps sample_observation_def
        k campaign_id_def contract_digest_def bad_ref_def)
  then have col: "collect_structural_observation ?c ''tasks.read'' UI_LEVEL (\<lambda>_ _. 1) 5 = Inr ?o"
    by (simp add: collect_structural_observation_def g fr s m observe_selector_def shape construct_def
        selector_observation_check_def first_error.simps bad_ref_def k g_def [symmetric] sample_observation_def)
      (simp add: g_def s m observe_selector_def shape construct_def selector_observation_check_def first_error.simps bad_ref_def k)
  have cf: "contract_fragment ?c ''tasks.read'' = Inr attestable_fragment"
    by (simp add: contract_fragment_def fr)
  have "\<exists>d. attestation_decision attestable_fragment ?o st rs l = Inr d" for st rs l
    by (simp add: attestation_decision_def evidence_record_def evidence_fields_check_def fr k first_error.simps
        ALLOWED_SCOPES_def absent_def sample_observation_def contract_digest_def observation_digest_def)
  then have "\<exists>d. evaluate_attestation_observation ?c ?o = Inr d"
    using g cf by (simp add: evaluate_attestation_observation_def case_prod_beta sample_observation_def)
  with col show ?thesis by blast
qed

theorem attestation_passes_exact_witness:
  "\<exists>o' d. evaluate_attestation_observation attestable_contract o' = Inr d \<and>
     (er_lifecycle_state (adn_evidence_record d) = HEALTHY \<longleftrightarrow> adn_state d = PASSED)"
proof -
  obtain o' d where "evaluate_attestation_observation attestable_contract o' = Inr d" using sample_collection by blast
  with attestation_passes_exact [OF this] show ?thesis by blast
qed

theorem collection_passes_exact_witness:
  "\<exists>o' d. collect_structural_observation attestable_contract ''tasks.read'' UI_LEVEL (\<lambda>_ _. 1) 5 = Inr o' \<and>
     evaluate_attestation_observation attestable_contract o' = Inr d \<and> adn_state d = PASSED"
proof -
  obtain o' d where h: "collect_structural_observation attestable_contract ''tasks.read'' UI_LEVEL (\<lambda>_ _. 1) 5 = Inr o'"
    "evaluate_attestation_observation attestable_contract o' = Inr d" using sample_collection by blast
  have f: "distinct_fragments attestable_contract" "attestable_fragment \<in> set (us_fragments attestable_contract)"
    "uf_fragment_id attestable_fragment = ''tasks.read''"
    by (simp_all add: distinct_fragments_def attestable_contract_def attestable_fragment_def sample_fragment_def)
  have e: "effectively_attested attestable_fragment"
    "list_all (\<lambda>(k, m). case locator_plan_from_metadata k m of Inr None \<Rightarrow> False | _ \<Rightarrow> True) (uf_selectors attestable_fragment)"
    by code_simp+
  from collection_passes_exact [OF f(1,2), unfolded f(3), OF h] e have "adn_state d = PASSED"
    by (auto simp: list_all_iff)
  with h show ?thesis by blast
qed

end
