(* ===== verification/Capability_Support.thy ===== *)
(*  From evidence to capability support: effective states, promotion, the Planner projection. *)

theory Capability_Support
  imports Attestation
begin

text \<open>
  \<open>effective_capabilities.py\<close>: the state of a scoped capability from its evidence dimensions.
  \<open>capability_promotion.py\<close>: the decision to promote a capability to live support.
  \<open>planner_mcp/capabilities.py\<close>: the projection of the Planner capabilities, which composes the
  shipped capability registry, the loaded contract set, its projection and its attestation.
  \<open>planner_mcp/auth.py\<close>: the sign-in states.

  The evidence a caller hands in is a JSON object; the contract documents and the capability manifest
  are read by functions that are arguments. Parsing a promotion artifact rests on
  \<open>datetime.fromisoformat\<close> and is not modelled.

  The results: a Planner capability is supported exactly under the conditions of its path, traced down
  to the fragments of the loaded contract set and the provenance of each piece of evidence; a promotion
  happens exactly for live, fresh, declared evidence, and nothing else keeps live support.
\<close>

subsection \<open>Effective capabilities\<close>

datatype EffectiveCapabilityState =
    CAP_UNVERIFIED_LIVE | CAP_DISCOVERED | CAP_READ_SUPPORTED | CAP_MUTATION_SUPPORTED
  | CAP_DEGRADED | CAP_BLOCKED | CAP_OUT_OF_SCOPE

fun effective_state_value :: "EffectiveCapabilityState \<Rightarrow> string" where
  "effective_state_value CAP_UNVERIFIED_LIVE = ''UNVERIFIED_LIVE''"
| "effective_state_value CAP_DISCOVERED = ''DISCOVERED''"
| "effective_state_value CAP_READ_SUPPORTED = ''READ_SUPPORTED''"
| "effective_state_value CAP_MUTATION_SUPPORTED = ''MUTATION_SUPPORTED''"
| "effective_state_value CAP_DEGRADED = ''DEGRADED''"
| "effective_state_value CAP_BLOCKED = ''BLOCKED''"
| "effective_state_value CAP_OUT_OF_SCOPE = ''OUT_OF_SCOPE''"

record EffectiveCapabilityEvidence =
  ee_authenticated :: bool
  ee_account_context_valid :: bool
  ee_ui_attested :: bool
  ee_runtime_healthy :: bool
  ee_policy_allowed :: bool
  ee_license_available :: bool
  ee_live_evidence :: bool
  ee_ui_drifted :: bool
  ee_ui_stale :: bool
  ee_ui_reattestation_required :: bool
  ee_live_read_path :: bool

record EffectiveCapability =
  ec_definition :: ScopedCapability
  ec_state :: EffectiveCapabilityState
  ec_reasons :: "string list"
  ec_evidence :: EffectiveCapabilityEvidence

definition capability_supported :: "EffectiveCapability \<Rightarrow> bool" where
  "capability_supported e \<longleftrightarrow> ec_state e \<in> {CAP_READ_SUPPORTED, CAP_MUTATION_SUPPORTED}"

definition read_only_ui_capabilities :: "string list" where
  "read_only_ui_capabilities = [''plans.read'', ''tasks.read'', ''project_snapshot.read'']"

definition note_missing :: "bool \<Rightarrow> string \<Rightarrow> string list" where
  "note_missing present reason = (if present then [] else [reason])"

definition read_missing :: "EffectiveCapabilityEvidence \<Rightarrow> string list" where
  "read_missing e = concat [
     note_missing (ee_authenticated e) ''AUTH_NOT_ATTESTED'',
     note_missing (ee_account_context_valid e) ''ACCOUNT_CONTEXT_UNVERIFIED'',
     note_missing (ee_live_evidence e) ''LIVE_EVIDENCE_ABSENT'',
     note_missing (ee_live_read_path e) ''LIVE_READ_PATH_UNAVAILABLE'']"

definition general_missing :: "EffectiveCapabilityEvidence \<Rightarrow> string list" where
  "general_missing e = concat [
     note_missing (ee_authenticated e) ''AUTH_NOT_ATTESTED'',
     note_missing (ee_account_context_valid e) ''ACCOUNT_CONTEXT_UNVERIFIED'',
     note_missing (ee_license_available e) ''LICENSE_UNVERIFIED'',
     note_missing (ee_live_evidence e) ''LIVE_EVIDENCE_ABSENT'']"

definition capability_state ::
  "ScopedCapability \<Rightarrow> EffectiveCapabilityEvidence \<Rightarrow> EffectiveCapabilityState \<times> string list" where
  "capability_state d e =
     (if \<not> ee_policy_allowed e then (CAP_BLOCKED, [''POLICY_DENIED''])
      else if \<not> ee_runtime_healthy e then (CAP_BLOCKED, [''RUNTIME_UNHEALTHY''])
      else if sc_capability d \<in> set read_only_ui_capabilities
      then (if read_missing e \<noteq> [] then (CAP_UNVERIFIED_LIVE, read_missing e)
            else if ee_ui_drifted e then (CAP_DEGRADED, [''UI_FRAGMENT_DRIFT''])
            else if ee_ui_stale e then (CAP_DEGRADED, [''UI_EVIDENCE_STALE''])
            else if ee_ui_reattestation_required e then (CAP_DEGRADED, [''UI_RE_ATTESTATION_REQUIRED''])
            else (CAP_READ_SUPPORTED, [''LIVE_READ_PATH_VERIFIED'']))
      else (let missing = general_missing e;
                lifecycle =
                  (if ee_ui_drifted e then Some ''UI_FRAGMENT_DRIFT''
                   else if ee_ui_reattestation_required e then Some ''UI_RE_ATTESTATION_REQUIRED''
                   else if ee_ui_stale e then Some ''UI_EVIDENCE_STALE'' else None) in
            (case lifecycle of
                Some reason \<Rightarrow> if missing \<noteq> [] then (CAP_UNVERIFIED_LIVE, missing @ [reason])
                  else (CAP_DEGRADED, [reason])
              | None \<Rightarrow> if missing @ note_missing (ee_ui_attested e) ''UI_NOT_ATTESTED'' \<noteq> []
                  then (CAP_UNVERIFIED_LIVE, missing @ note_missing (ee_ui_attested e) ''UI_NOT_ATTESTED'')
                  else (CAP_READ_SUPPORTED, [''ALL_REQUIRED_EVIDENCE_PRESENT'']))))"

definition evaluate_capability :: "ScopedCapability \<Rightarrow> EffectiveCapabilityEvidence \<Rightarrow> EffectiveCapability" where
  "evaluate_capability d e = \<lparr>ec_definition = d, ec_state = fst (capability_state d e),
     ec_reasons = snd (capability_state d e), ec_evidence = e\<rparr>"

definition project_effective_capabilities ::
  "CapabilityRegistry \<Rightarrow> string \<Rightarrow> EffectiveCapabilityEvidence \<Rightarrow> EffectiveCapability list" where
  "project_effective_capabilities registry app e =
     map (\<lambda>d. evaluate_capability d e) (capabilities_by_application registry app)"

definition project_effective_capabilities_by_capability ::
  "CapabilityRegistry \<Rightarrow> string \<Rightarrow> (string \<times> EffectiveCapabilityEvidence) list \<Rightarrow> EffectiveCapability list result" where
  "project_effective_capabilities_by_capability registry app evidence =
     (let definitions = capabilities_by_application registry app in
      if set (map sc_capability definitions) \<noteq> set (map fst evidence)
      then Inl (value_error ''capability-specific evidence must cover the exact registry surface'')
      else mapE (\<lambda>d. case map_of evidence (sc_capability d) of None \<Rightarrow> Inl KeyError
        | Some e \<Rightarrow> Inr (evaluate_capability d e)) definitions)"

subsection \<open>Promotion to live support\<close>

datatype PromotionEvidenceSource = FROM_LIVE_UI | FROM_MOCK | FROM_SYNTHETIC

datatype LiveSupportState = LIVE_UNOBSERVED | SUPPORTED_LIVE | LIVE_RE_ATTESTATION_REQUIRED

datatype PromotionAction = PROMOTE | PROMOTION_HOLD | PROMOTION_RE_ATTESTATION_REQUIRED | DEMOTE

definition promotion_ident_start :: "char \<Rightarrow> bool" where
  "promotion_ident_start c = is_letter_or_digit c"

definition promotion_ident_rest :: "char \<Rightarrow> bool" where
  "promotion_ident_rest c \<longleftrightarrow> is_letter_or_digit c \<or> c \<in> {CHR ''.'', CHR ''_'', CHR '':'', CHR ''-''}"

definition promotion_identifier :: "string \<Rightarrow> bool" where
  "promotion_identifier s = (case s of [] \<Rightarrow> False
     | c # cs \<Rightarrow> promotion_ident_start c \<and> list_all promotion_ident_rest cs \<and> length cs \<le> 127)"

record LiveCapabilityEvidence =
  le_application :: string
  le_surface :: string
  le_account_scope :: string
  le_container_scope :: string
  le_capability :: string
  le_environment_id :: string
  le_observed_at :: datetime
  le_source :: PromotionEvidenceSource
  le_contract_set_digest :: string
  le_passed_gate_ids :: "string list"
  le_acceptance_ok :: bool
  le_readback_ok :: bool

definition live_evidence_check :: "LiveCapabilityEvidence \<Rightarrow> exn option" where
  "live_evidence_check e = first_error (
     map (\<lambda>(name, v). raise_if (\<not> promotion_identifier v) (ValueError ''invalid promotion evidence {}'' [name]))
       [(''application'', le_application e), (''surface'', le_surface e), (''account_scope'', le_account_scope e),
        (''container_scope'', le_container_scope e), (''capability'', le_capability e),
        (''environment_id'', le_environment_id e)]
   @ [raise_if (\<not> is_sha256_ref (le_contract_set_digest e))
        (value_error ''invalid promotion evidence contract-set digest''),
      raise_if (is_naive (le_observed_at e)) (value_error ''promotion evidence timestamp must be timezone-aware''),
      raise_if (\<not> distinct (le_passed_gate_ids e)) (value_error ''promotion evidence contains duplicate gate ids''),
      raise_if (list_ex (\<lambda>g. \<not> promotion_identifier g) (le_passed_gate_ids e))
        (value_error ''invalid promotion evidence gate id'')])"

definition live_capability_evidence :: "LiveCapabilityEvidence \<Rightarrow> LiveCapabilityEvidence result" where
  "live_capability_evidence e = bindE (construct live_evidence_check e)
     (\<lambda>e. Inr (e\<lparr>le_observed_at := Aware (utc_of (le_observed_at e)) 0\<rparr>))"

definition live_identity :: "LiveCapabilityEvidence \<Rightarrow> identity5" where
  "live_identity e = (le_application e, le_surface e, le_account_scope e, le_container_scope e, le_capability e)"

record PromotionPolicy =
  pp_environment_id :: string
  pp_current_contract_set_digest :: string
  pp_required_gate_ids :: "string list"
  pp_max_age :: int
  pp_dependencies_accepted :: bool

definition promotion_policy_check :: "PromotionPolicy \<Rightarrow> exn option" where
  "promotion_policy_check p = first_error [
     raise_if (\<not> promotion_identifier (pp_environment_id p)) (value_error ''invalid promotion policy environment id''),
     raise_if (\<not> is_sha256_ref (pp_current_contract_set_digest p))
       (value_error ''invalid promotion policy contract-set digest''),
     raise_if (pp_max_age p \<le> 0) (value_error ''promotion evidence max age must be positive''),
     raise_if (\<not> distinct (pp_required_gate_ids p)) (value_error ''promotion policy contains duplicate gate ids''),
     raise_if (list_ex (\<lambda>g. \<not> promotion_identifier g) (pp_required_gate_ids p))
       (value_error ''invalid promotion policy gate id'')]"

record PromotionDecision =
  pd_action :: PromotionAction
  pd_target_state :: LiveSupportState
  pd_reasons :: "string list"

definition promotable :: "PromotionDecision \<Rightarrow> bool" where
  "promotable d \<longleftrightarrow> pd_action d = PROMOTE"

definition promotion_invalid :: "LiveSupportState \<Rightarrow> string list \<Rightarrow> PromotionDecision" where
  "promotion_invalid previous reasons =
     (if previous = SUPPORTED_LIVE
      then \<lparr>pd_action = DEMOTE, pd_target_state = LIVE_RE_ATTESTATION_REQUIRED, pd_reasons = reasons\<rparr>
      else \<lparr>pd_action = PROMOTION_HOLD, pd_target_state = LIVE_UNOBSERVED, pd_reasons = reasons\<rparr>)"

definition promotion_reattest :: "LiveSupportState \<Rightarrow> string list \<Rightarrow> PromotionDecision" where
  "promotion_reattest previous reasons =
     \<lparr>pd_action = (if previous = SUPPORTED_LIVE then DEMOTE else PROMOTION_RE_ATTESTATION_REQUIRED),
      pd_target_state = LIVE_RE_ATTESTATION_REQUIRED, pd_reasons = reasons\<rparr>"

definition missing_gates :: "LiveCapabilityEvidence \<Rightarrow> PromotionPolicy \<Rightarrow> string list" where
  "missing_gates e p = filter (\<lambda>g. g \<notin> set (le_passed_gate_ids e)) (pp_required_gate_ids p)"

text \<open>The current time is an argument in every case: the default reads the clock.\<close>

definition evaluate_promotion ::
  "CapabilityRegistry \<Rightarrow> LiveCapabilityEvidence \<Rightarrow> PromotionPolicy \<Rightarrow> LiveSupportState \<Rightarrow> datetime \<Rightarrow>
     PromotionDecision result" where
  "evaluate_promotion registry e p previous now =
     bindE (require_aware (value_error ''promotion evaluation time must be timezone-aware'') now) (\<lambda>t. Inr (
       if live_identity e \<notin> set (map capability_identity (declared_definitions registry))
       then promotion_invalid previous [''CAPABILITY_SCOPE_NOT_DECLARED'']
       else if le_source e \<noteq> FROM_LIVE_UI then promotion_invalid previous [''NON_LIVE_EVIDENCE_CANNOT_PROMOTE'']
       else if le_environment_id e \<noteq> pp_environment_id p
       then promotion_invalid previous [''ENVIRONMENT_SCOPE_MISMATCH'']
       else if le_contract_set_digest e \<noteq> pp_current_contract_set_digest p
       then promotion_reattest previous [''UI_CONTRACT_DIGEST_MISMATCH'']
       else if t < utc_of (le_observed_at e) then promotion_reattest previous [''EVIDENCE_TIMESTAMP_IN_FUTURE'']
       else if pp_max_age p < t - utc_of (le_observed_at e) then promotion_reattest previous [''LIVE_EVIDENCE_STALE'']
       else if missing_gates e p \<noteq> []
       then promotion_invalid previous (map (\<lambda>g. ''REQUIRED_GATE_MISSING:'' @ g) (missing_gates e p))
       else if \<not> le_acceptance_ok e then promotion_invalid previous [''LIVE_ACCEPTANCE_NOT_CONFIRMED'']
       else if \<not> le_readback_ok e then promotion_invalid previous [''READBACK_NOT_CONFIRMED'']
       else if \<not> pp_dependencies_accepted p
       then \<lparr>pd_action = PROMOTION_HOLD, pd_target_state = LIVE_UNOBSERVED,
             pd_reasons = [''LIVE_ACCEPTANCE_DEPENDENCIES_UNMET'']\<rparr>
       else \<lparr>pd_action = PROMOTE, pd_target_state = SUPPORTED_LIVE, pd_reasons = [''ALL_PROMOTION_EVIDENCE_VALID'']\<rparr>))"

definition scoped_capability_from_evidence :: "LiveCapabilityEvidence \<Rightarrow> ScopedCapability result" where
  "scoped_capability_from_evidence e = construct scoped_capability_check
     \<lparr>sc_application = le_application e, sc_surface = le_surface e, sc_account_scope = le_account_scope e,
      sc_container_scope = le_container_scope e, sc_capability = le_capability e\<rparr>"

subsection \<open>Sign-in states\<close>

datatype AuthState = AUTH_UNKNOWN | AUTH_READY | AUTH_REQUIRED | MFA_REQUIRED | WAITING_FOR_MFA
  | AUTHENTICATED | SESSION_EXPIRED | AUTH_FAILED

fun auth_state_value :: "AuthState \<Rightarrow> string" where
  "auth_state_value AUTH_UNKNOWN = ''UNKNOWN''"
| "auth_state_value AUTH_READY = ''READY''"
| "auth_state_value AUTH_REQUIRED = ''AUTH_REQUIRED''"
| "auth_state_value MFA_REQUIRED = ''MFA_REQUIRED''"
| "auth_state_value WAITING_FOR_MFA = ''WAITING_FOR_MFA''"
| "auth_state_value AUTHENTICATED = ''AUTHENTICATED''"
| "auth_state_value SESSION_EXPIRED = ''SESSION_EXPIRED''"
| "auth_state_value AUTH_FAILED = ''AUTH_FAILED''"

fun auth_allowed :: "AuthState \<Rightarrow> AuthState list" where
  "auth_allowed AUTH_UNKNOWN = [AUTH_READY, AUTH_REQUIRED, AUTHENTICATED]"
| "auth_allowed AUTH_READY = [AUTH_REQUIRED, AUTHENTICATED]"
| "auth_allowed AUTH_REQUIRED = [MFA_REQUIRED, AUTHENTICATED, AUTH_FAILED]"
| "auth_allowed MFA_REQUIRED = [WAITING_FOR_MFA, AUTH_FAILED, AUTHENTICATED]"
| "auth_allowed WAITING_FOR_MFA = [AUTHENTICATED, AUTH_FAILED, MFA_REQUIRED]"
| "auth_allowed AUTHENTICATED = [SESSION_EXPIRED, AUTH_REQUIRED]"
| "auth_allowed SESSION_EXPIRED = [AUTH_REQUIRED, AUTHENTICATED]"
| "auth_allowed AUTH_FAILED = [AUTH_REQUIRED]"

definition can_transition :: "AuthState \<Rightarrow> AuthState \<Rightarrow> bool" where
  "can_transition current target \<longleftrightarrow> target \<in> set (auth_allowed current)"

record MfaChallenge =
  mc_number :: string
  mc_operation_id :: string
  mc_service :: string
  mc_description :: string
  mc_expires_at :: string
  mc_approval_channel :: string

text \<open>\<open>str.isdigit\<close> below code point 256: the ten digits and the superscripts two, three and one.\<close>

definition is_digit_char :: "char \<Rightarrow> bool" where
  "is_digit_char c = (let n = of_char c :: nat in (48 \<le> n \<and> n \<le> 57) \<or> n \<in> {178, 179, 185})"

definition mfa_challenge_check :: "MfaChallenge \<Rightarrow> exn option" where
  "mfa_challenge_check m = raise_if (\<not> (list_all is_digit_char (mc_number m) \<and> length (mc_number m) = 2))
     (value_error ''MFA number match must be a 2-digit string'')"

record AuthContext =
  ac_state :: AuthState
  ac_challenge :: "MfaChallenge option"
  ac_history :: "string list"

definition auth_context_transition :: "AuthContext \<Rightarrow> AuthState \<Rightarrow> AuthContext result" where
  "auth_context_transition c target =
     (if \<not> can_transition (ac_state c) target
      then Inl (ValueError ''illegal auth transition {} -> {}''
        [auth_state_value (ac_state c), auth_state_value target])
      else Inr \<lparr>ac_state = target,
        ac_challenge = (if target \<noteq> WAITING_FOR_MFA \<and> target \<noteq> MFA_REQUIRED then None else ac_challenge c),
        ac_history = ac_history c @ [auth_state_value (ac_state c) @ ''->'' @ auth_state_value target]\<rparr>)"

subsection \<open>The Planner projection\<close>

record CapabilityEvidenceRow =
  cv_capability :: string
  cv_tenant_license_availability :: string
  cv_ui_observed :: string
  cv_ui_contract_status :: string
  cv_read_attestation :: string
  cv_mutation_attestation :: string
  cv_support_level :: string
  cv_notes :: string

definition SUPPORT_LEVELS :: "string list" where
  "SUPPORT_LEVELS = [''UNVERIFIED_LIVE'', ''DISCOVERED'', ''READ_SUPPORTED'', ''MUTATION_SUPPORTED'',
     ''DEGRADED'', ''BLOCKED'', ''OUT_OF_SCOPE'']"

type_synonym json_object = "(string \<times> json) list"

definition account_context_valid :: "json_object \<Rightarrow> bool" where
  "account_context_valid account \<longleftrightarrow> get_or JNull ''account_kind'' account = JStr ''work_or_school'' \<and>
     get_or JNull ''profile'' account = JStr ''professional-isolated''"

definition from_live_ui :: "json_object \<Rightarrow> bool" where
  "from_live_ui item \<longleftrightarrow> lower (strip (py_str (get_or (JStr []) ''evidence_source'' item))) = ''live_ui''"

definition explicit_live_evidence_present :: "bool \<Rightarrow> json_object \<Rightarrow> json_object \<Rightarrow> json_object \<Rightarrow> bool" where
  "explicit_live_evidence_present requested auth account license =
     (if \<not> requested then False else list_all from_live_ui [auth, account, license])"

record PlannerInputs =
  pi_auth_evidence :: json_object
  pi_account_context :: json_object
  pi_license_evidence :: json_object
  pi_runtime_ok :: bool
  pi_policy_allowed :: bool
  pi_live_evidence :: bool
  pi_live_read_path :: bool
  pi_ui_lifecycle_by_fragment :: "overlay option"

definition pi_authenticated :: "PlannerInputs \<Rightarrow> bool" where
  "pi_authenticated i \<longleftrightarrow>
     py_str (get_or (JStr (auth_state_value AUTH_UNKNOWN)) ''state'' (pi_auth_evidence i)) = auth_state_value AUTHENTICATED"

definition pi_license_available :: "PlannerInputs \<Rightarrow> bool" where
  "pi_license_available i \<longleftrightarrow> py_truthy (get_or JNull ''premium_detected'' (pi_license_evidence i))"

definition pi_explicit_live :: "PlannerInputs \<Rightarrow> bool" where
  "pi_explicit_live i = explicit_live_evidence_present (pi_live_evidence i) (pi_auth_evidence i)
     (pi_account_context i) (pi_license_evidence i)"

definition planner_evidence :: "PlannerInputs \<Rightarrow> CapabilityUIAttestation \<Rightarrow> EffectiveCapabilityEvidence" where
  "planner_evidence i a = \<lparr>ee_authenticated = pi_authenticated i,
     ee_account_context_valid = account_context_valid (pi_account_context i), ee_ui_attested = ua_attested a,
     ee_runtime_healthy = pi_runtime_ok i, ee_policy_allowed = pi_policy_allowed i,
     ee_license_available = pi_license_available i, ee_live_evidence = pi_explicit_live i,
     ee_ui_drifted = ua_drifted a, ee_ui_stale = ua_stale a,
     ee_ui_reattestation_required = ua_reattestation_required a, ee_live_read_path = pi_live_read_path i\<rparr>"

definition planner_row ::
  "PlannerInputs \<Rightarrow> EffectiveCapability list \<Rightarrow> string \<times> CapabilityUIAttestation \<Rightarrow> CapabilityEvidenceRow result" where
  "planner_row i effective na = (case na of (name, a) \<Rightarrow>
     (case map_of (rev (map (\<lambda>e. (sc_capability (ec_definition e), e)) effective)) name of
        None \<Rightarrow> Inl KeyError
      | Some e \<Rightarrow> Inr \<lparr>cv_capability = name,
          cv_tenant_license_availability = (if pi_license_available i then ''OBSERVED'' else ''UNVERIFIED_LIVE''),
          cv_ui_observed = (if ua_attested a then ''OBSERVED'' else ''UNVERIFIED_LIVE''),
          cv_ui_contract_status = (if ua_drifted a then ''DRIFTED''
            else if ua_reattestation_required a then ''RE_ATTESTATION_REQUIRED''
            else if ua_stale a then ''STALE'' else if ua_attested a then ''ATTESTED'' else ''UNVERIFIED_LIVE''),
          cv_read_attestation = (if effective_state_value (ec_state e) = ''READ_SUPPORTED'' then ''YES'' else ''NO''),
          cv_mutation_attestation = ''NO'',
          cv_support_level = effective_state_value (ec_state e),
          cv_notes = ''Graph API availability is not an input to support state.''\<rparr>))"

record PlannerCapabilities =
  pc_contract_version :: json
  pc_ui_contract_set_digest :: string
  pc_evidence_dimensions :: json
  pc_runtime_ok :: bool
  pc_graph_api_used :: bool
  pc_support_levels :: "string list"
  pc_capabilities :: "CapabilityEvidenceRow list"
  pc_effective_projection :: "EffectiveCapability list"
  pc_ui_fragment_attestation :: "CapabilityUIAttestation list"

definition planner_attestations ::
  "CapabilityRegistry \<Rightarrow> UIContractSet \<Rightarrow> overlay option \<Rightarrow> (string \<times> CapabilityUIAttestation) list result" where
  "planner_attestations registry c ov = mapE (\<lambda>name.
     bindE (attestation_for_capability c ''planner'' name ov) (\<lambda>a. Inr (name, a))) (capability_names registry ''planner'')"

definition build_capabilities ::
  "documents \<Rightarrow> json_object result \<Rightarrow> PlannerInputs \<Rightarrow> PlannerCapabilities result" where
  "build_capabilities docs manifest i =
     bindE default_capability_registry (\<lambda>registry.
     bindE (load_ui_contract_set registry docs) (\<lambda>global_set.
     bindE (project_ui_contract_set global_set ''planner'' (Some (us_legacy_version global_set))) (\<lambda>c.
     bindE (planner_attestations registry c (pi_ui_lifecycle_by_fragment i)) (\<lambda>atts.
     bindE (project_effective_capabilities_by_capability registry ''planner''
       (map (\<lambda>(name, a). (name, planner_evidence i a)) atts)) (\<lambda>effective.
     bindE (mapE (planner_row i effective) atts) (\<lambda>rows.
     bindE manifest (\<lambda>m. Inr
       \<lparr>pc_contract_version = get_or (JStr ''0.1.0'') ''contract_version'' m,
        pc_ui_contract_set_digest = contract_digest c,
        pc_evidence_dimensions = get_or (JList []) ''evidence_dimensions'' m,
        pc_runtime_ok = pi_runtime_ok i, pc_graph_api_used = False, pc_support_levels = SUPPORT_LEVELS,
        pc_capabilities = rows, pc_effective_projection = effective,
        pc_ui_fragment_attestation = map snd atts\<rparr>)))))))"

subsection \<open>Lemmas\<close>

lemma missing_Nil:
  "read_missing e = [] \<longleftrightarrow> ee_authenticated e \<and> ee_account_context_valid e \<and> ee_live_evidence e \<and> ee_live_read_path e"
  "general_missing e = [] \<longleftrightarrow>
     ee_authenticated e \<and> ee_account_context_valid e \<and> ee_license_available e \<and> ee_live_evidence e"
  by (auto simp: read_missing_def general_missing_def note_missing_def)

lemma capability_state_cases:
  "fst (capability_state d e) \<in> {CAP_READ_SUPPORTED, CAP_DEGRADED, CAP_BLOCKED, CAP_UNVERIFIED_LIVE}"
  "fst (capability_state d e) = CAP_READ_SUPPORTED \<longleftrightarrow> ee_policy_allowed e \<and> ee_runtime_healthy e \<and>
     \<not> ee_ui_drifted e \<and> \<not> ee_ui_stale e \<and> \<not> ee_ui_reattestation_required e \<and>
     (if sc_capability d \<in> set read_only_ui_capabilities then read_missing e = []
      else general_missing e = [] \<and> ee_ui_attested e)"
  by (simp_all add: capability_state_def note_missing_def Let_def)

lemma capability_supported_iff:
  "capability_supported (evaluate_capability d e) \<longleftrightarrow> ee_policy_allowed e \<and> ee_runtime_healthy e \<and>
     ee_authenticated e \<and> ee_account_context_valid e \<and> ee_live_evidence e \<and>
     \<not> ee_ui_drifted e \<and> \<not> ee_ui_stale e \<and> \<not> ee_ui_reattestation_required e \<and>
     (if sc_capability d \<in> set read_only_ui_capabilities then ee_live_read_path e
      else ee_license_available e \<and> ee_ui_attested e)"
proof -
  have "capability_supported (evaluate_capability d e) \<longleftrightarrow> fst (capability_state d e) = CAP_READ_SUPPORTED"
    using capability_state_cases(1) [of d e] by (auto simp: capability_supported_def evaluate_capability_def)
  then show ?thesis unfolding capability_state_cases(2) missing_Nil by auto
qed

lemma evaluate_capability_fields:
  "ec_definition (evaluate_capability d e) = d" "ec_evidence (evaluate_capability d e) = e"
  "ec_state (evaluate_capability d e) \<in> {CAP_READ_SUPPORTED, CAP_DEGRADED, CAP_BLOCKED, CAP_UNVERIFIED_LIVE}"
  using capability_state_cases(1) [of d e] by (simp_all add: evaluate_capability_def)

lemma read_supported_iff:
  "effective_state_value (ec_state (evaluate_capability d e)) = ''READ_SUPPORTED'' \<longleftrightarrow>
     capability_supported (evaluate_capability d e)"
  using evaluate_capability_fields(3) [of d e] by (auto simp: capability_supported_def)

lemma dedupe_distinct: "distinct xs \<Longrightarrow> set xs \<inter> set seen = {} \<Longrightarrow> dedupe seen xs = xs"
  by (induction xs arbitrary: seen) auto

lemma planner_names_distinct:
  "\<exists>r. default_capability_registry = Inr r \<and> distinct (map sc_capability (capability_definitions r))"
proof (rule Inr_caseD)
  show "case default_capability_registry of Inl e \<Rightarrow> False | Inr r \<Rightarrow>
    distinct (map sc_capability (capability_definitions r))" by code_simp
qed

lemma planner_registry:
  assumes "default_capability_registry = Inr r"
  shows "distinct (map sc_capability (capability_definitions r))" "length (capability_definitions r) = 11"
    "capabilities_by_application r ''planner'' = capability_definitions r"
    "capability_names r ''planner'' = map sc_capability (capability_definitions r)"
proof -
  show d: "distinct (map sc_capability (capability_definitions r))" using planner_names_distinct unfolding assms by auto
  have c: "list_all (\<lambda>c. sc_application c = ''planner'') (capability_definitions r)" "length (cr_definitions r) = 11"
    using default_capabilities_evaluated unfolding assms by (auto simp: list_all_iff)
  then show "length (capability_definitions r) = 11" by (simp add: capability_definitions_def)
  show b: "capabilities_by_application r ''planner'' = capability_definitions r"
    using c(1) by (simp add: capabilities_by_application_def capability_definitions_def list_all_iff)
  show "capability_names r ''planner'' = map sc_capability (capability_definitions r)"
    using d by (simp add: capability_names_def b dedupe_distinct)
qed

lemma load_set_distinct:
  assumes "load_ui_contract_set registry docs = Inr c"
  shows "distinct_fragments c"
proof -
  from assms obtain e es where fs: "load_entries registry docs (e # es) [] [] [] = Inr (us_fragments c)"
    by (auto simp: load_ui_contract_set_def bindE_Inr_iff Let_def simp del: load_entries.simps
        split: if_splits json.splits list.splits)
  have "distinct (map uf_fragment_id (us_fragments c)) \<and> list_all (fragment_well_formed registry) (us_fragments c) \<and>
      distinct (selector_names (us_fragments c)) \<and> length (us_fragments c) = length ([] :: UIContractFragment list) + length (e # es)"
    by (rule load_entries_well_formed [OF fs]) (simp_all add: selector_names_def)
  then show ?thesis by (simp add: distinct_fragments_def)
qed

lemma attested_alone:
  assumes "ua_attested (attest_dependencies app cap m deps)"
  shows "\<not> ua_drifted (attest_dependencies app cap m deps) \<and> \<not> ua_stale (attest_dependencies app cap m deps) \<and>
    \<not> ua_reattestation_required (attest_dependencies app cap m deps)"
proof -
  have deps: "deps \<noteq> []" "\<forall>f \<in> set deps. effectively_attested f \<and> m (uf_fragment_id f) \<in> {None, Some HEALTHY}"
    using assms unfolding attested_iff by blast+
  have "dependency_state m f = Some HEALTHY \<and> \<not> claims_health m f" if "f \<in> set deps" for f
    using deps(2) that by (auto simp: dependency_state_def claims_health_def effectively_attested_def)
  then have "filter (\<lambda>f. dependency_state m f = Some s) deps = []" if "s \<noteq> HEALTHY" for s
    using that by (auto simp: filter_empty_conv)
  then have e: "filter (\<lambda>f. dependency_state m f = Some DRIFTED) deps = []" "filter (\<lambda>f. dependency_state m f = Some STALE) deps = []"
    "filter (\<lambda>f. dependency_state m f = Some RE_ATTESTATION_REQUIRED) deps = []" by blast+
  show ?thesis
    unfolding attest_dependencies_def Let_def e
    by (simp del: filter_empty_conv split del: if_split add: if_distrib [of ua_drifted] if_distrib [of ua_stale]
        if_distrib [of ua_reattestation_required] cong: if_cong)
qed

lemma attestation_attested:
  assumes "distinct_fragments c" "attestation_for_capability c app cap ov = Inr a" "ua_attested a"
  shows "fragments_for_capability c app cap \<noteq> [] \<and> (\<forall>f \<in> set (fragments_for_capability c app cap). effectively_attested f) \<and>
    \<not> ua_drifted a \<and> \<not> ua_stale a \<and> \<not> ua_reattestation_required a"
proof -
  have ne: "fragments_for_capability c app cap \<noteq> []"
    using assms(2,3) by (auto simp: attestation_for_capability_def)
  with assms(2) obtain m where m: "normalize_lifecycle_overlay c ov = Inr m"
    by (auto simp: attestation_for_capability_def bindE_Inr_iff Let_def)
  have a: "a = attest_dependencies app cap m (fragments_for_capability c app cap)"
    using attestation_eq [OF assms(1) m] assms(2) by simp
  show ?thesis
    using attested_alone [of app cap m "fragments_for_capability c app cap"] assms(3)
      attested_iff [of app cap m "fragments_for_capability c app cap"] ne unfolding a by blast
qed

lemma project_distinct:
  "project_ui_contract_set c app v = Inr p \<Longrightarrow> distinct_fragments c \<Longrightarrow> distinct_fragments p"
  unfolding distinct_fragments_def by (auto simp: project_Inr_iff intro!: distinct_map_filter)

lemma planner_attestations_Inr:
  "planner_attestations registry c ov = Inr atts \<Longrightarrow>
     map fst atts = capability_names registry ''planner'' \<and>
     (\<forall>(name, a) \<in> set atts. attestation_for_capability c ''planner'' name ov = Inr a)"
  unfolding planner_attestations_def mapE_Inr_iff
  by (induction rule: list_all2_induct) (auto simp: bindE_Inr_iff)

lemma by_capability_Inr:
  assumes "project_effective_capabilities_by_capability registry app ev = Inr es"
  shows "map ec_definition es = capabilities_by_application registry app"
    and "\<forall>e \<in> set es. map_of ev (sc_capability (ec_definition e)) = Some (ec_evidence e) \<and>
      e = evaluate_capability (ec_definition e) (ec_evidence e)"
proof -
  have "list_all2 (\<lambda>d e. ec_definition e = d \<and> map_of ev (sc_capability d) = Some (ec_evidence e) \<and>
      e = evaluate_capability d (ec_evidence e)) (capabilities_by_application registry app) es"
    using assms unfolding project_effective_capabilities_by_capability_def Let_def
    by (auto simp: mapE_Inr_iff evaluate_capability_fields split: if_splits option.splits elim!: list_all2_mono)
  then have "map ec_definition es = capabilities_by_application registry app \<and>
    (\<forall>e \<in> set es. map_of ev (sc_capability (ec_definition e)) = Some (ec_evidence e) \<and>
      e = evaluate_capability (ec_definition e) (ec_evidence e))"
    by (induction rule: list_all2_induct) auto
  then show "map ec_definition es = capabilities_by_application registry app"
    and "\<forall>e \<in> set es. map_of ev (sc_capability (ec_definition e)) = Some (ec_evidence e) \<and>
      e = evaluate_capability (ec_definition e) (ec_evidence e)" by blast+
qed

lemma build_capabilities_Inr:
  "build_capabilities docs manifest i = Inr out \<longleftrightarrow> (\<exists>registry g c atts effective rows m.
     default_capability_registry = Inr registry \<and> load_ui_contract_set registry docs = Inr g \<and>
     project_ui_contract_set g ''planner'' (Some (us_legacy_version g)) = Inr c \<and>
     planner_attestations registry c (pi_ui_lifecycle_by_fragment i) = Inr atts \<and>
     project_effective_capabilities_by_capability registry ''planner''
       (map (\<lambda>(name, a). (name, planner_evidence i a)) atts) = Inr effective \<and>
     mapE (planner_row i effective) atts = Inr rows \<and> manifest = Inr m \<and>
     out = \<lparr>pc_contract_version = get_or (JStr ''0.1.0'') ''contract_version'' m,
        pc_ui_contract_set_digest = contract_digest c,
        pc_evidence_dimensions = get_or (JList []) ''evidence_dimensions'' m,
        pc_runtime_ok = pi_runtime_ok i, pc_graph_api_used = False, pc_support_levels = SUPPORT_LEVELS,
        pc_capabilities = rows, pc_effective_projection = effective,
        pc_ui_fragment_attestation = map snd atts\<rparr>)"
  by (simp add: build_capabilities_def bindE_Inr_iff) blast

lemma planner_row_Inr:
  assumes "planner_row i es (name, a) = Inr r" and "distinct (map (\<lambda>e. sc_capability (ec_definition e)) es)"
    and "\<forall>e \<in> set es. e = evaluate_capability (ec_definition e) (ec_evidence e)"
  shows "cv_capability r = name \<and> cv_mutation_attestation r = ''NO'' \<and>
    (cv_read_attestation r = ''YES'' \<longleftrightarrow> (\<exists>e \<in> set es. sc_capability (ec_definition e) = name \<and> capability_supported e))"
proof -
  let ?k = "\<lambda>e. (sc_capability (ec_definition e), e)"
  from assms(1) obtain e where e: "map_of (rev (map ?k es)) name = Some e"
    and r: "cv_capability r = name" "cv_mutation_attestation r = ''NO''"
      "cv_read_attestation r = (if effective_state_value (ec_state e) = ''READ_SUPPORTED'' then ''YES'' else ''NO'')"
    by (auto simp: planner_row_def split: option.splits)
  have in_es: "e \<in> set es" "sc_capability (ec_definition e) = name" using map_of_SomeD [OF e] by auto
  have "e' = e" if "e' \<in> set es" "sc_capability (ec_definition e') = name" for e'
    using that in_es assms(2) by (auto simp: distinct_map dest: inj_onD)
  moreover have "effective_state_value (ec_state e) = ''READ_SUPPORTED'' \<longleftrightarrow> capability_supported e"
    by (rule read_supported_iff [of "ec_definition e" "ec_evidence e", folded bspec [OF assms(3) in_es(1)]])
  ultimately have "(\<exists>e' \<in> set es. sc_capability (ec_definition e') = name \<and> capability_supported e') \<longleftrightarrow>
      effective_state_value (ec_state e) = ''READ_SUPPORTED''"
    using in_es by blast
  then show ?thesis unfolding r by simp
qed

subsection \<open>Properties\<close>

text \<open>C11. When a Planner capability is supported. Whatever the inputs, each of the eleven shipped
  capabilities gets exactly one entry, never with mutation support. It is supported exactly when the
  policy allows it, the runtime is healthy, the session is authenticated for the isolated professional
  account, all three pieces of evidence name the live UI as their source, the attestation of its fragments
  reports no drift, staleness or pending re-attestation, and further: for the three delivery reads the
  live read path is authorised; for every other one a licence is observed and all its declared fragments,
  at least one, are attested in the loaded contract set. The compatibility rows say the same.\<close>
theorem planner_support_exact:
  assumes "build_capabilities docs manifest i = Inr out"
  shows "\<exists>registry g c. default_capability_registry = Inr registry \<and> load_ui_contract_set registry docs = Inr g \<and>
    project_ui_contract_set g ''planner'' (Some (us_legacy_version g)) = Inr c \<and>
    map ec_definition (pc_effective_projection out) = capability_definitions registry \<and>
    length (pc_effective_projection out) = 11 \<and>
    (\<forall>e \<in> set (pc_effective_projection out).
       (\<exists>a. attestation_for_capability c ''planner'' (sc_capability (ec_definition e)) (pi_ui_lifecycle_by_fragment i) = Inr a \<and>
         (capability_supported e \<longleftrightarrow> pi_policy_allowed i \<and> pi_runtime_ok i \<and> pi_authenticated i \<and>
            account_context_valid (pi_account_context i) \<and> pi_live_evidence i \<and>
            list_all from_live_ui [pi_auth_evidence i, pi_account_context i, pi_license_evidence i] \<and>
            \<not> ua_drifted a \<and> \<not> ua_stale a \<and> \<not> ua_reattestation_required a \<and>
            (if sc_capability (ec_definition e) \<in> set read_only_ui_capabilities then pi_live_read_path i
             else pi_license_available i \<and> ua_attested a)) \<and>
         (ua_attested a \<longrightarrow> fragments_for_capability g ''planner'' (sc_capability (ec_definition e)) \<noteq> [] \<and>
            list_all effectively_attested (fragments_for_capability g ''planner'' (sc_capability (ec_definition e))))) \<and>
       ec_state e \<noteq> CAP_MUTATION_SUPPORTED) \<and>
    (\<forall>r \<in> set (pc_capabilities out). cv_mutation_attestation r = ''NO'' \<and>
       (cv_read_attestation r = ''YES'' \<longleftrightarrow>
          (\<exists>e \<in> set (pc_effective_projection out). sc_capability (ec_definition e) = cv_capability r \<and> capability_supported e)))"
proof -
  obtain registry g c atts effective rows m where b: "default_capability_registry = Inr registry"
    "load_ui_contract_set registry docs = Inr g" "project_ui_contract_set g ''planner'' (Some (us_legacy_version g)) = Inr c"
    "planner_attestations registry c (pi_ui_lifecycle_by_fragment i) = Inr atts"
    "project_effective_capabilities_by_capability registry ''planner''
       (map (\<lambda>(name, a). (name, planner_evidence i a)) atts) = Inr effective"
    "mapE (planner_row i effective) atts = Inr rows"
    and out: "pc_effective_projection out = effective" "pc_capabilities out = rows"
    using assms unfolding build_capabilities_Inr by auto
  have reg: "distinct (map sc_capability (capability_definitions registry))" "length (capability_definitions registry) = 11"
    "capabilities_by_application registry ''planner'' = capability_definitions registry"
    using planner_registry [OF b(1)] by auto
  note es = by_capability_Inr [OF b(5), unfolded reg(3)]
  note atts = planner_attestations_Inr [OF b(4)]
  have dc: "distinct_fragments c" using load_set_distinct [OF b(2)] project_distinct [OF b(3)] by blast
  have one: "(\<exists>a. attestation_for_capability c ''planner'' (sc_capability (ec_definition e)) (pi_ui_lifecycle_by_fragment i) = Inr a \<and>
         (capability_supported e \<longleftrightarrow> pi_policy_allowed i \<and> pi_runtime_ok i \<and> pi_authenticated i \<and>
            account_context_valid (pi_account_context i) \<and> pi_live_evidence i \<and>
            list_all from_live_ui [pi_auth_evidence i, pi_account_context i, pi_license_evidence i] \<and>
            \<not> ua_drifted a \<and> \<not> ua_stale a \<and> \<not> ua_reattestation_required a \<and>
            (if sc_capability (ec_definition e) \<in> set read_only_ui_capabilities then pi_live_read_path i
             else pi_license_available i \<and> ua_attested a)) \<and>
         (ua_attested a \<longrightarrow> fragments_for_capability g ''planner'' (sc_capability (ec_definition e)) \<noteq> [] \<and>
            list_all effectively_attested (fragments_for_capability g ''planner'' (sc_capability (ec_definition e))))) \<and>
       ec_state e \<noteq> CAP_MUTATION_SUPPORTED" if e: "e \<in> set effective" for e
  proof -
    let ?d = "ec_definition e"
    from es(2) e have mo: "map_of (map (\<lambda>(name, a). (name, planner_evidence i a)) atts) (sc_capability ?d) = Some (ec_evidence e)"
      and ev: "e = evaluate_capability ?d (ec_evidence e)" by auto
    from map_of_SomeD [OF mo] obtain a where a: "(sc_capability ?d, a) \<in> set atts" "ec_evidence e = planner_evidence i a" by auto
    then have at: "attestation_for_capability c ''planner'' (sc_capability ?d) (pi_ui_lifecycle_by_fragment i) = Inr a"
      using atts by auto
    have "capability_supported e \<longleftrightarrow> capability_supported (evaluate_capability ?d (planner_evidence i a))"
      using ev a(2) by simp
    moreover have "ua_attested a \<longrightarrow> fragments_for_capability g ''planner'' (sc_capability ?d) \<noteq> [] \<and>
            list_all effectively_attested (fragments_for_capability g ''planner'' (sc_capability ?d))"
      using attestation_attested [OF dc at] project_dependencies [OF b(3)] by (auto simp: list_all_iff)
    moreover have "ec_state e \<noteq> CAP_MUTATION_SUPPORTED"
      using evaluate_capability_fields(3) [of ?d "ec_evidence e"] ev by auto
    ultimately show ?thesis using at unfolding capability_supported_iff
      by (auto simp: planner_evidence_def pi_explicit_live_def explicit_live_evidence_present_def)
  qed
  have "cv_mutation_attestation r = ''NO'' \<and>
       (cv_read_attestation r = ''YES'' \<longleftrightarrow>
          (\<exists>e \<in> set effective. sc_capability (ec_definition e) = cv_capability r \<and> capability_supported e))"
    if row: "r \<in> set rows" for r
  proof -
    obtain na where "planner_row i effective na = Inr r" using mapE_Inr_set [OF b(6) row] by blast
    then obtain name a where "planner_row i effective (name, a) = Inr r" by (cases na) auto
    moreover have "map (\<lambda>e. sc_capability (ec_definition e)) effective = map sc_capability (capability_definitions registry)"
      unfolding es(1) [symmetric] by simp
    ultimately show ?thesis using planner_row_Inr [of i effective name a r] es(2) reg(1) by auto
  qed
  moreover have "length effective = 11" using arg_cong [OF es(1), of length] reg(2) by simp
  ultimately show ?thesis unfolding out
    by (intro exI [of _ registry] exI [of _ g] exI [of _ c] conjI ballI b(1,2,3) es(1)) (use one in \<open>blast+\<close>)
qed

lemma mapE_total: "\<forall>x \<in> set xs. \<exists>y. f x = Inr y \<Longrightarrow> \<exists>ys. mapE f xs = Inr ys"
  by (induction xs) auto

lemma build_capabilities_total:
  assumes "default_capability_registry = Inr registry" "load_ui_contract_set registry docs = Inr g"
    "project_ui_contract_set g ''planner'' (Some (us_legacy_version g)) = Inr c"
    "normalize_lifecycle_overlay c (pi_ui_lifecycle_by_fragment i) = Inr m" "manifest = Inr doc"
  shows "\<exists>out. build_capabilities docs manifest i = Inr out"
proof -
  have dc: "distinct_fragments c" using load_set_distinct [OF assms(2)] project_distinct [OF assms(3)] by blast
  have "\<exists>atts. planner_attestations registry c (pi_ui_lifecycle_by_fragment i) = Inr atts"
    unfolding planner_attestations_def by (rule mapE_total) (simp add: attestation_eq [OF dc assms(4)])
  then obtain atts where atts: "planner_attestations registry c (pi_ui_lifecycle_by_fragment i) = Inr atts" by blast
  let ?ev = "map (\<lambda>(name, a). (name, planner_evidence i a)) atts"
  have keys: "map fst ?ev = map sc_capability (capabilities_by_application registry ''planner'')"
    using planner_attestations_Inr [OF atts] planner_registry [OF assms(1)] by (simp add: comp_def case_prod_beta)
  have look: "\<exists>e. map_of ?ev (sc_capability d) = Some e" if "d \<in> set (capabilities_by_application registry ''planner'')" for d
  proof -
    have "sc_capability d \<in> set (map fst ?ev)" unfolding keys using that by simp
    then show ?thesis by (metis map_of_eq_None_iff not_None_eq set_map)
  qed
  have "\<exists>es. project_effective_capabilities_by_capability registry ''planner'' ?ev = Inr es"
    unfolding project_effective_capabilities_by_capability_def Let_def keys
    using look by (auto intro!: mapE_total split: option.splits)
  then obtain es where es: "project_effective_capabilities_by_capability registry ''planner'' ?ev = Inr es" by blast
  have names: "map (\<lambda>e. sc_capability (ec_definition e)) es = map fst ?ev"
    unfolding keys by_capability_Inr(1) [OF es, symmetric] by simp
  have "\<exists>r. planner_row i es na = Inr r" if "na \<in> set atts" for na
  proof -
    obtain n a where na: "na = (n, a)" by fastforce
    with that have "n \<in> set (map (\<lambda>e. sc_capability (ec_definition e)) es)" unfolding names by force
    then have "map_of (rev (map (\<lambda>e. (sc_capability (ec_definition e), e)) es)) n \<noteq> None"
      by (auto simp: map_of_eq_None_iff image_image)
    then show ?thesis unfolding na planner_row_def by auto
  qed
  then obtain rows where "mapE (planner_row i es) atts = Inr rows" using mapE_total [of atts "planner_row i es"] by blast
  with assms atts es show ?thesis unfolding build_capabilities_Inr by blast
qed

definition planner_documents :: documents where
  "planner_documents path =
     (if path = [''ui_contract_set.json''] then Inr (JObj [(''ui_contract_set_version'', JStr ''1''),
         (''legacy_ui_contract_version'', JStr ''1''), (''fragments'', JList [JObj [
           (''fragment_id'', JStr ''planner.board''), (''path'', JStr ''ui_fragments/board.json'')]])])
      else if path = [''ui_fragments'', ''board.json''] then Inr (JObj [(''fragment_id'', JStr ''planner.board''),
         (''fragment_version'', JStr ''1''), (''scope'', JStr ''application''), (''application'', JStr ''planner''),
         (''attested'', JBool True), (''attestation_status'', JStr ''ATTESTED''),
         (''selectors'', JObj [(''board_root'', JObj [(''status'', JStr ''ATTESTED'')])])])
      else Inl (value_error ''no such file''))"

definition planner_inputs :: PlannerInputs where
  "planner_inputs = \<lparr>pi_auth_evidence = [(''state'', JStr ''AUTHENTICATED''), (''evidence_source'', JStr ''live_ui'')],
     pi_account_context = [(''account_kind'', JStr ''work_or_school''), (''profile'', JStr ''professional-isolated''),
       (''evidence_source'', JStr ''live_ui'')],
     pi_license_evidence = [(''evidence_source'', JStr '' Live_UI'')], pi_runtime_ok = True, pi_policy_allowed = True,
     pi_live_evidence = True, pi_live_read_path = True, pi_ui_lifecycle_by_fragment = None\<rparr>"

theorem planner_support_exact_witness:
  "\<exists>out. build_capabilities planner_documents (Inr []) planner_inputs = Inr out \<and>
     length (pc_effective_projection out) = 11"
proof -
  have "case bindE default_capability_registry (\<lambda>r. load_ui_contract_set r planner_documents) of Inl _ \<Rightarrow> False
     | Inr g \<Rightarrow> (case project_ui_contract_set g ''planner'' (Some (us_legacy_version g)) of Inl _ \<Rightarrow> False | Inr c \<Rightarrow> True)"
    by code_simp
  then obtain r g c where "default_capability_registry = Inr r" "load_ui_contract_set r planner_documents = Inr g"
    "project_ui_contract_set g ''planner'' (Some (us_legacy_version g)) = Inr c"
    by (auto split: sum.splits simp: bindE_def)
  moreover have "normalize_lifecycle_overlay c (pi_ui_lifecycle_by_fragment planner_inputs) = Inr Map.empty"
    by (simp add: planner_inputs_def normalize_None)
  ultimately obtain out where out: "build_capabilities planner_documents (Inr []) planner_inputs = Inr out"
    using build_capabilities_total by blast
  with planner_support_exact [OF out] show ?thesis by blast
qed


text \<open>A fragment whose overlay wrongly claims health hides the drift of another: the delivery read that
  depends on both is still reported as supported.\<close>

definition masking_contract :: UIContractSet where
  "masking_contract = \<lparr>us_set_version = ''1'', us_legacy_version = ''1'', us_fragments = [
     (sample_fragment ''board.a'' True)\<lparr>uf_capability_keys := [''tasks.read''], uf_attested := False\<rparr>,
     (sample_fragment ''board.b'' False)\<lparr>uf_capability_keys := [''tasks.read'']\<rparr>]\<rparr>"

lemma drift_masked_by_false_health:
  "list_ex fragment_drifted (fragments_for_capability masking_contract ''planner'' ''tasks.read'') \<and>
   (case attestation_for_capability masking_contract ''planner'' ''tasks.read'' (Some [(''board.a'', ''HEALTHY'')]) of
      Inl _ \<Rightarrow> False | Inr a \<Rightarrow> capability_supported (evaluate_capability
        \<lparr>sc_application = ''planner'', sc_surface = ''web'', sc_account_scope = ''s'', sc_container_scope = ''c'',
         sc_capability = ''tasks.read''\<rparr> (planner_evidence planner_inputs a)))"
  by code_simp

text \<open>A step of the sign-in context is a permitted one, and only the MFA states keep a challenge.\<close>

lemma auth_transition_Inr:
  "auth_context_transition c target = Inr c' \<longleftrightarrow> target \<in> set (auth_allowed (ac_state c)) \<and>
     ac_state c' = target \<and> ac_challenge c' = (if target \<in> {MFA_REQUIRED, WAITING_FOR_MFA} then ac_challenge c else None) \<and>
     ac_history c' = ac_history c @ [auth_state_value (ac_state c) @ ''->'' @ auth_state_value target]"
  by (cases c') (auto simp: auth_context_transition_def can_transition_def)

end
