(* ===== verification/Results.thy ===== *)
(*  Results: secret fields, bounded projections, references and provenance. *)

theory Results
  imports Policy Timestamps
begin

text \<open>
  What leaves the server. \<open>result_fields.py\<close>: fields with a declared
  sensitivity. \<open>result_projection.py\<close>: the closed reductions of a list of rows.
  \<open>result_references.py\<close>: references to retained artifacts. \<open>execution_provenance.py\<close>: the
  provenance of a result and its digest.

  A number in a row is of any type, with the text Python's \<open>format\<close> gives it as an argument; the float
  product behind \<open>duration_ms\<close> is an argument as well.

  The results: the projection of a result with secret fields does not depend on the secrets; every
  reduction is made of rows of its input, within its bound; and the provenance digest determines the
  provenance.
\<close>

subsection \<open>Secret-aware fields\<close>

datatype FieldSensitivity = STANDARD_FIELD | SECRET_FIELD

datatype FieldExposure = VALUE_EXPOSURE | REDACTED_EXPOSURE

record ResultFieldDefinition =
  fd_name :: string
  fd_sensitivity :: FieldSensitivity
  fd_exposure :: FieldExposure

definition result_field_check :: "ResultFieldDefinition \<Rightarrow> exn option" where
  "result_field_check f = first_error [
     raise_if (strip (fd_name f) = [] \<or> has_space (strip (fd_name f)))
       (value_error ''result field name must be a non-empty semantic token''),
     raise_if (fd_sensitivity f = SECRET_FIELD \<and> fd_exposure f = VALUE_EXPOSURE)
       (value_error ''secret result field cannot use VALUE exposure'')]"

definition result_schema_check :: "ResultFieldDefinition list \<Rightarrow> exn option" where
  "result_schema_check fs = raise_if (\<not> distinct (map fd_name fs))
     (value_error ''result field definitions must be unique'')"

definition redacted_value :: "json \<Rightarrow> json" where
  "redacted_value v = JObj [(''redacted'', JBool True), (''present'', JBool (v \<noteq> JNull))]"

definition project_field :: "(string \<times> json) list \<Rightarrow> ResultFieldDefinition \<Rightarrow> (string \<times> json) result" where
  "project_field values f = (case map_of values (fd_name f) of
      None \<Rightarrow> Inl KeyError
    | Some v \<Rightarrow> Inr (fd_name f, if fd_exposure f = VALUE_EXPOSURE then v else redacted_value v))"

definition project_secret_aware_fields ::
  "(string \<times> json) list \<Rightarrow> ResultFieldDefinition list \<Rightarrow> ((string \<times> json) list \<times> string list) result" where
  "project_secret_aware_fields values schema =
     (let unknown = filter (\<lambda>n. n \<notin> set (map fd_name schema)) (map fst values);
          missing = filter (\<lambda>n. n \<notin> set (map fst values)) (map fd_name schema) in
      if unknown \<noteq> [] then Inl (ValueError ''unclassified result fields: {}'' [join '','' (sort unknown)])
      else if missing \<noteq> [] then Inl (ValueError ''missing classified result fields: {}'' [join '','' (sort missing)])
      else bindE (mapE (project_field values) schema) (\<lambda>fields.
        Inr (fields, map fd_name (filter (\<lambda>f. fd_exposure f \<noteq> VALUE_EXPOSURE) schema))))"

subsection \<open>Bounded projections\<close>

datatype 'n scalar = SNone | SBool bool | SNumber 'n | SStr string

type_synonym 'n row = "(string \<times> 'n scalar) list"

datatype ProjectionKind = SELECT | COUNT | EXISTS | FIRST | LATEST | TOP_N | PAGINATION | METADATA_ONLY

record ProjectionRequest =
  pq_kind :: ProjectionKind
  pq_fields :: "string list"
  pq_sort_field :: "string option"
  pq_top_n :: int
  pq_offset :: int
  pq_limit :: int

definition MAX_PAGE_SIZE :: int where
  "MAX_PAGE_SIZE = 100"

definition MAX_TOP_N :: int where
  "MAX_TOP_N = 100"

definition projection_request_check :: "ProjectionRequest \<Rightarrow> exn option" where
  "projection_request_check q = first_error [
     raise_if (\<not> distinct (pq_fields q)) (value_error ''projection fields must be unique''),
     raise_if (list_ex (\<lambda>f. strip f = []) (pq_fields q)) (value_error ''projection fields must be non-empty''),
     raise_if (\<not> (1 \<le> pq_top_n q \<and> pq_top_n q \<le> MAX_TOP_N)) (value_error ''top_n must be between 1 and 100''),
     raise_if (pq_offset q < 0) (value_error ''offset must be non-negative''),
     raise_if (\<not> (1 \<le> pq_limit q \<and> pq_limit q \<le> MAX_PAGE_SIZE)) (value_error ''limit must be between 1 and 100''),
     raise_if (pq_kind q = SELECT \<and> pq_fields q = []) (value_error ''select projection requires fields''),
     raise_if (pq_kind q = LATEST \<and> (pq_sort_field q = None \<or> pq_sort_field q = Some []))
       (value_error ''latest projection requires sort_field'')]"

datatype 'n projected =
    Count int | Exists bool | Metadata int | Rows "'n row list" | OneRow "'n row option"

record 'n ProjectionResult =
  pj_kind :: ProjectionKind
  pj_data :: "'n projected"
  pj_input_count :: int
  pj_output_count :: int

definition select_fields :: "'n row \<Rightarrow> string list \<Rightarrow> 'n row" where
  "select_fields r fs = List.map_filter (\<lambda>f. map_option (\<lambda>v. (f, v)) (map_of r f)) fs"

fun sortable :: "('n \<Rightarrow> string) \<Rightarrow> 'n scalar \<Rightarrow> int \<times> string" where
  "sortable fmt SNone = (0, [])"
| "sortable fmt (SBool b) = (1, if b then ''1'' else ''0'')"
| "sortable fmt (SNumber n) = (2, fmt n)"
| "sortable fmt (SStr s) = (3, s)"

definition latest_row :: "('n \<Rightarrow> string) \<Rightarrow> string \<Rightarrow> 'n row list \<Rightarrow> 'n row option" where
  "latest_row fmt f rows = (case filter (\<lambda>r. map_of r f \<noteq> None) rows of
      [] \<Rightarrow> None
    | r # rs \<Rightarrow> Some (max_by (\<lambda>r. sortable fmt (the (map_of r f))) r rs))"

definition project_rows :: "('n \<Rightarrow> string) \<Rightarrow> 'n row list \<Rightarrow> ProjectionRequest \<Rightarrow> 'n ProjectionResult result" where
  "project_rows fmt rows q =
     (let n = int (length rows);
          answer = (\<lambda>data out. Inr \<lparr>pj_kind = pq_kind q, pj_data = data, pj_input_count = n, pj_output_count = out\<rparr>) in
      case pq_kind q of
        COUNT \<Rightarrow> answer (Count n) 1
      | EXISTS \<Rightarrow> answer (Exists (rows \<noteq> [])) 1
      | METADATA_ONLY \<Rightarrow> answer (Metadata n) 1
      | SELECT \<Rightarrow> answer (Rows (map (\<lambda>r. select_fields r (pq_fields q)) rows)) n
      | FIRST \<Rightarrow> (case rows of [] \<Rightarrow> answer (OneRow None) 0 | r # rs \<Rightarrow> answer (OneRow (Some r)) 1)
      | LATEST \<Rightarrow> (case pq_sort_field q of
            None \<Rightarrow> Inl (value_error ''latest projection requires sort_field'')
          | Some f \<Rightarrow> (case latest_row fmt f rows of
                None \<Rightarrow> answer (OneRow None) 0
              | Some r \<Rightarrow> answer (OneRow (Some r)) 1))
      | TOP_N \<Rightarrow> (let top = take (nat (pq_top_n q)) rows in answer (Rows top) (int (length top)))
      | PAGINATION \<Rightarrow> (let page = take (nat (pq_limit q)) (drop (nat (pq_offset q)) rows)
          in answer (Rows page) (int (length page))))"

subsection \<open>References\<close>

datatype ReferenceKind = ARTIFACT_REFERENCE | EVIDENCE_REFERENCE

fun reference_kind_value :: "ReferenceKind \<Rightarrow> string" where
  "reference_kind_value ARTIFACT_REFERENCE = ''ARTIFACT''"
| "reference_kind_value EVIDENCE_REFERENCE = ''EVIDENCE''"

record ArtifactReference =
  ar_kind :: ReferenceKind
  ar_artifact_type :: string
  ar_locator_digest :: string
  ar_content_digest :: string
  ar_media_type :: string
  ar_size_bytes :: "int option"

text \<open>The token check of these modules looks at the stripped text.\<close>

definition stripped_token :: "string \<Rightarrow> string \<Rightarrow> exn option" where
  "stripped_token field v = raise_if (strip v = [] \<or> has_space (strip v))
     (ValueError ''{} must be a non-empty semantic token'' [field])"

definition digest_check :: "string \<Rightarrow> string \<Rightarrow> exn option" where
  "digest_check field v = raise_if (\<not> is_digest v) (ValueError ''{} must be lowercase SHA-256 hex'' [field])"

definition artifact_reference_check :: "ArtifactReference \<Rightarrow> exn option" where
  "artifact_reference_check a = first_error [
     stripped_token ''artifact_type'' (ar_artifact_type a),
     digest_check ''locator_digest'' (ar_locator_digest a),
     digest_check ''content_digest'' (ar_content_digest a),
     raise_if (strip (ar_media_type a) = [] \<or> CHR ''/'' \<notin> set (strip (ar_media_type a)))
       (value_error ''media_type must be a bounded MIME type''),
     raise_if (case ar_size_bytes a of None \<Rightarrow> False | Some n \<Rightarrow> n < 0) (value_error ''size_bytes must be non-negative'')]"

definition reference_text :: "ArtifactReference \<Rightarrow> string" where
  "reference_text a = join ''|'' [reference_kind_value (ar_kind a), ar_artifact_type a, ar_locator_digest a,
     ar_content_digest a, ar_media_type a, (case ar_size_bytes a of None \<Rightarrow> [] | Some n \<Rightarrow> py_int n)]"

definition reference_id :: "ArtifactReference \<Rightarrow> string" where
  "reference_id a = sha256_text (reference_text a)"

definition reference_projection :: "ArtifactReference \<Rightarrow> (string \<times> json) list" where
  "reference_projection a = [(''reference_id'', JStr (reference_id a)), (''kind'', JStr (reference_kind_value (ar_kind a))),
     (''artifact_type'', JStr (ar_artifact_type a)), (''content_digest'', JStr (ar_content_digest a)),
     (''media_type'', JStr (ar_media_type a))]
   @ (case ar_size_bytes a of None \<Rightarrow> [] | Some n \<Rightarrow> [(''size_bytes'', JInt n)])"

definition make_artifact_reference ::
  "ReferenceKind \<Rightarrow> string \<Rightarrow> string \<Rightarrow> string \<Rightarrow> string \<Rightarrow> int option \<Rightarrow> ArtifactReference result" where
  "make_artifact_reference kind artifact_type locator content_digest media_type size_bytes =
     (if strip locator = [] then Inl (value_error ''artifact locator must not be empty'')
      else construct artifact_reference_check
        \<lparr>ar_kind = kind, ar_artifact_type = artifact_type, ar_locator_digest = sha256_text (strip locator),
         ar_content_digest = content_digest, ar_media_type = media_type, ar_size_bytes = size_bytes\<rparr>)"

definition referenced_result_check :: "ArtifactReference list \<Rightarrow> exn option" where
  "referenced_result_check refs = raise_if (\<not> distinct (map reference_id refs))
     (value_error ''result references must be unique'')"

subsection \<open>Provenance\<close>

datatype ExecutionMode = MOCK_MODE | LIVE_MODE | SIMULATION_MODE

fun execution_mode_value :: "ExecutionMode \<Rightarrow> string" where
  "execution_mode_value MOCK_MODE = ''MOCK''"
| "execution_mode_value LIVE_MODE = ''LIVE''"
| "execution_mode_value SIMULATION_MODE = ''SIMULATION''"

record ExecutionProvenance =
  ev_schema_version :: string
  ev_operation_id_digest :: string
  ev_application :: ApplicationKey
  ev_tool_name :: string
  ev_tool_version :: string
  ev_mode :: ExecutionMode
  ev_policy_decision :: Decision
  ev_security_tier :: SecurityTier
  ev_started_at :: datetime
  ev_completed_at :: datetime
  ev_state_identity_digest :: "string option"
  ev_checkpoint_digest :: "string option"
  ev_evidence_reference_ids :: "string list"

definition provenance_digest_check :: "string \<Rightarrow> string option \<Rightarrow> exn option" where
  "provenance_digest_check field v = (case v of None \<Rightarrow> None | Some d \<Rightarrow> digest_check field d)"

definition aware_check :: "string \<Rightarrow> datetime \<Rightarrow> exn option" where
  "aware_check field v = raise_if (is_naive v) (ValueError ''{} must be timezone-aware'' [field])"

definition provenance_check :: "ExecutionProvenance \<Rightarrow> exn option" where
  "provenance_check p = first_error ([
     raise_if (ev_schema_version p \<noteq> ''execution-provenance-v1'') (value_error ''unsupported execution provenance schema''),
     digest_check ''operation_id_digest'' (ev_operation_id_digest p),
     stripped_token ''tool_name'' (ev_tool_name p),
     raise_if (strip (ev_tool_version p) = []) (value_error ''tool_version must not be empty''),
     aware_check ''started_at'' (ev_started_at p),
     aware_check ''completed_at'' (ev_completed_at p),
     raise_if (utc_of (ev_completed_at p) < utc_of (ev_started_at p))
       (value_error ''completed_at must not precede started_at''),
     provenance_digest_check ''state_identity_digest'' (ev_state_identity_digest p),
     provenance_digest_check ''checkpoint_digest'' (ev_checkpoint_digest p)]
   @ map (digest_check ''evidence_reference_id'') (ev_evidence_reference_ids p)
   @ [raise_if (\<not> distinct (ev_evidence_reference_ids p)) (value_error ''evidence_reference_ids must be unique''),
      raise_if (ev_mode p = LIVE_MODE \<and> ev_evidence_reference_ids p = [])
        (value_error ''LIVE provenance requires at least one evidence reference'')])"

text \<open>\<open>datetime.isoformat()\<close> in UTC: the fraction is left out when it is zero.\<close>

definition iso_text :: "nat \<Rightarrow> string" where
  "iso_text t = take 19 (timestamp_text t) @
     (if t mod 1000000 = 0 then [] else take 7 (drop 19 (timestamp_text t))) @ ''+00:00''"

definition duration_ms :: "(int \<Rightarrow> int) \<Rightarrow> ExecutionProvenance \<Rightarrow> int" where
  "duration_ms millis p = max 0 (millis (utc_of (ev_completed_at p) - utc_of (ev_started_at p)))"

definition provenance_projection :: "(int \<Rightarrow> int) \<Rightarrow> ExecutionProvenance \<Rightarrow> json" where
  "provenance_projection millis p = JObj ([
     (''schema_version'', JStr (ev_schema_version p)),
     (''operation_id_digest'', JStr (ev_operation_id_digest p)),
     (''application'', JStr (app_value (ev_application p))),
     (''tool_name'', JStr (ev_tool_name p)),
     (''tool_version'', JStr (ev_tool_version p)),
     (''mode'', JStr (execution_mode_value (ev_mode p))),
     (''policy_decision'', JStr (decision_value (ev_policy_decision p))),
     (''security_tier'', JStr (tier_name (ev_security_tier p))),
     (''started_at'', JStr (iso_text (nat (utc_of (ev_started_at p))))),
     (''completed_at'', JStr (iso_text (nat (utc_of (ev_completed_at p))))),
     (''duration_ms'', JInt (duration_ms millis p)),
     (''evidence_reference_ids'', JList (map JStr (ev_evidence_reference_ids p)))]
   @ opt_field ''state_identity_digest'' (ev_state_identity_digest p)
   @ opt_field ''checkpoint_digest'' (ev_checkpoint_digest p))"

definition provenance_digest :: "(int \<Rightarrow> int) \<Rightarrow> ExecutionProvenance \<Rightarrow> string" where
  "provenance_digest millis p = sha256_text (dumps True (provenance_projection millis p))"

definition operation_digest :: "string \<Rightarrow> string \<Rightarrow> string result" where
  "operation_digest field v = (if strip v = [] then Inl (ValueError ''{} must not be empty'' [field])
     else Inr (sha256_text (strip v)))"

definition make_execution_provenance :: "string \<Rightarrow> (string \<Rightarrow> ExecutionProvenance) \<Rightarrow> ExecutionProvenance result" where
  "make_execution_provenance operation_id build =
     bindE (operation_digest ''operation_id'' operation_id) (\<lambda>d. construct provenance_check
       ((build d)\<lparr>ev_schema_version := ''execution-provenance-v1'', ev_operation_id_digest := d\<rparr>))"

subsection \<open>Lemmas\<close>

lemma project_field_cong:
  assumes "result_field_check f = None"
    and "fd_sensitivity f = STANDARD_FIELD \<longrightarrow> map_of v (fd_name f) = map_of w (fd_name f)"
    and "map_of v (fd_name f) = None \<longleftrightarrow> map_of w (fd_name f) = None"
    and "map_of v (fd_name f) = Some JNull \<longleftrightarrow> map_of w (fd_name f) = Some JNull"
  shows "project_field v f = project_field w f"
proof (cases "fd_sensitivity f")
  case STANDARD_FIELD
  then show ?thesis using assms(2) by (simp add: project_field_def)
next
  case SECRET_FIELD
  then have "fd_exposure f = REDACTED_EXPOSURE"
    using assms(1) by (cases "fd_exposure f") (auto simp: result_field_check_def checks)
  then show ?thesis using assms(3,4)
    by (auto simp: project_field_def redacted_value_def split: option.splits)
qed

lemma mapE_cong: "(\<And>x. x \<in> set xs \<Longrightarrow> f x = g x) \<Longrightarrow> mapE f xs = mapE g xs"
  by (induction xs) simp_all

lemma project_fields_Inr:
  "mapE (project_field v) schema = Inr outs \<Longrightarrow> list_all2 (\<lambda>f kv. fst kv = fd_name f \<and>
     (if fd_exposure f = VALUE_EXPOSURE then map_of v (fd_name f) = Some (snd kv)
      else snd kv = redacted_value JNull \<or> snd kv = redacted_value (JBool True))) schema outs"
  unfolding mapE_Inr_iff
  by (erule list_all2_mono) (auto simp: project_field_def redacted_value_def split: option.splits)

lemma map_fst_iff: "map_of v k = None \<longleftrightarrow> k \<notin> set (map fst v)"
  by (simp add: map_of_eq_None_iff)

lemma page_split: "concat (map (\<lambda>k. take n (drop (k * n) xs)) [0..<m]) = take (m * n) xs"
proof (induction m)
  case (Suc m)
  have "take (m * n) xs @ take n (drop (m * n) xs) = take (m * n + n) xs" by (simp add: take_add)
  with Suc show ?case by (simp add: add.commute)
qed simp

lemma select_fields_subset: "set (select_fields r fs) \<subseteq> set r" "set (map fst (select_fields r fs)) \<subseteq> set fs"
  by (auto simp: select_fields_def map_filter_def dest: map_of_SomeD)

lemma latest_row_Some:
  assumes "latest_row fmt f rows = Some r"
  shows "r \<in> set rows \<and> map_of r f \<noteq> None \<and>
    (\<forall>s \<in> set rows. map_of s f \<noteq> None \<longrightarrow> sortable fmt (the (map_of s f)) \<le> sortable fmt (the (map_of r f)))"
proof -
  obtain y ys where f: "filter (\<lambda>r. map_of r f \<noteq> None) rows = y # ys"
    and r: "r = max_by (\<lambda>r. sortable fmt (the (map_of r f))) y ys"
    using assms by (auto simp: latest_row_def split: list.splits)
  have "set (filter (\<lambda>r. map_of r f \<noteq> None) rows) = insert y (set ys)" unfolding f by simp
  then have all: "{r \<in> set rows. map_of r f \<noteq> None} = insert y (set ys)" by simp
  have "r \<in> insert y (set ys)" unfolding r by (rule max_by_in)
  moreover have "sortable fmt (the (map_of s f)) \<le> sortable fmt (the (map_of r f))" if "s \<in> insert y (set ys)" for s
    unfolding r using that by (rule max_by_ge)
  ultimately show ?thesis using all by blast
qed

lemma latest_row_None: "latest_row fmt f rows = None \<longleftrightarrow> (\<forall>r \<in> set rows. map_of r f = None)"
proof -
  have "latest_row fmt f rows = None \<longleftrightarrow> filter (\<lambda>r. map_of r f \<noteq> None) rows = []"
    unfolding latest_row_def by (cases "filter (\<lambda>r. map_of r f \<noteq> None) rows") auto
  then show ?thesis by (simp add: filter_empty_conv)
qed

subsection \<open>Properties\<close>

text \<open>C13. Secrets do not flow into a projection. Take a schema whose fields were all accepted and two
  results with the same keys that agree on every standard field and on which secret fields are present:
  whatever the secrets are, the projections are equal. What is projected has exactly the fields of the
  schema, in order; standard fields exposed by value keep theirs, and the list of redacted names is right.\<close>
theorem secrets_never_projected:
  assumes "list_all (\<lambda>f. result_field_check f = None) schema" and "map fst v = map fst w"
    and "\<forall>f \<in> set schema. fd_sensitivity f = STANDARD_FIELD \<longrightarrow> map_of v (fd_name f) = map_of w (fd_name f)"
    and "\<forall>f \<in> set schema. map_of v (fd_name f) = Some JNull \<longleftrightarrow> map_of w (fd_name f) = Some JNull"
  shows "project_secret_aware_fields v schema = project_secret_aware_fields w schema \<and>
    (case project_secret_aware_fields v schema of
       Inl _ \<Rightarrow> set (map fst v) \<noteq> set (map fd_name schema)
     | Inr (outs, redacted) \<Rightarrow> set (map fst v) = set (map fd_name schema) \<and>
         list_all2 (\<lambda>f kv. fst kv = fd_name f \<and> (if fd_exposure f = VALUE_EXPOSURE
           then map_of v (fd_name f) = Some (snd kv)
           else fd_name f \<in> set redacted \<and> (snd kv = redacted_value JNull \<or> snd kv = redacted_value (JBool True)))) schema outs)"
proof
  have none: "map_of v k = None \<longleftrightarrow> map_of w k = None" for k
    using assms(2) by (metis map_fst_iff)
  have "mapE (project_field v) schema = mapE (project_field w) schema"
    using assms(1,3,4) none by (intro mapE_cong project_field_cong) (auto simp: list_all_iff)
  then show "project_secret_aware_fields v schema = project_secret_aware_fields w schema"
    unfolding project_secret_aware_fields_def assms(2) Let_def by simp
  show "case project_secret_aware_fields v schema of
       Inl _ \<Rightarrow> set (map fst v) \<noteq> set (map fd_name schema)
     | Inr (outs, redacted) \<Rightarrow> set (map fst v) = set (map fd_name schema) \<and>
         list_all2 (\<lambda>f kv. fst kv = fd_name f \<and> (if fd_exposure f = VALUE_EXPOSURE
           then map_of v (fd_name f) = Some (snd kv)
           else fd_name f \<in> set redacted \<and> (snd kv = redacted_value JNull \<or> snd kv = redacted_value (JBool True)))) schema outs"
  proof (cases "set (map fst v) = set (map fd_name schema)")
    case False
    then show ?thesis by (auto simp: project_secret_aware_fields_def Let_def filter_empty_conv)
  next
    case True
    then have e: "filter (\<lambda>n. n \<notin> set (map fd_name schema)) (map fst v) = []"
      "filter (\<lambda>n. n \<notin> set (map fst v)) (map fd_name schema) = []" by (auto simp: filter_empty_conv)
    have "\<forall>f \<in> set schema. \<exists>kv. project_field v f = Inr kv"
    proof
      fix f assume "f \<in> set schema"
      then have "fd_name f \<in> set (map fst v)" unfolding True by simp
      then obtain x where "map_of v (fd_name f) = Some x" by (metis map_fst_iff not_None_eq)
      then show "\<exists>kv. project_field v f = Inr kv" by (simp add: project_field_def)
    qed
    then have "\<exists>outs. mapE (project_field v) schema = Inr outs" by (induction schema) auto
    then obtain outs where f: "mapE (project_field v) schema = Inr outs" by blast
    let ?red = "map fd_name (filter (\<lambda>f. fd_exposure f \<noteq> VALUE_EXPOSURE) schema)"
    have p: "project_secret_aware_fields v schema = Inr (outs, ?red)"
      unfolding project_secret_aware_fields_def Let_def e f by simp
    have "list_all2 (\<lambda>f kv. fst kv = fd_name f \<and> (if fd_exposure f = VALUE_EXPOSURE
           then map_of v (fd_name f) = Some (snd kv)
           else fd_name f \<in> set ?red \<and> (snd kv = redacted_value JNull \<or> snd kv = redacted_value (JBool True)))) schema outs"
      using project_fields_Inr [OF f] by (auto simp: list_all2_conv_all_nth)
    then show ?thesis unfolding p sum.case prod.case using True by blast
  qed
qed

definition sample_schema :: "ResultFieldDefinition list" where
  "sample_schema = [\<lparr>fd_name = ''title'', fd_sensitivity = STANDARD_FIELD, fd_exposure = VALUE_EXPOSURE\<rparr>,
     \<lparr>fd_name = ''token'', fd_sensitivity = SECRET_FIELD, fd_exposure = REDACTED_EXPOSURE\<rparr>]"

theorem secrets_never_projected_witness:
  "project_secret_aware_fields [(''title'', JStr ''a''), (''token'', JStr ''hunter2'')] sample_schema =
   project_secret_aware_fields [(''title'', JStr ''a''), (''token'', JStr ''other'')] sample_schema"
proof -
  have "list_all (\<lambda>f. result_field_check f = None) sample_schema" by code_simp
  from secrets_never_projected [OF this, of "[(''title'', JStr ''a''), (''token'', JStr ''hunter2'')]"
      "[(''title'', JStr ''a''), (''token'', JStr ''other'')]"] show ?thesis
    by (simp add: sample_schema_def)
qed

text \<open>A projection only reduces. For an accepted request it always answers; the input is counted; rows
  of a selection are the requested part of the input rows, in order; the top rows and a page are
  consecutive input rows, at most a hundred; the latest row is an input row with the sort field and no
  other exceeds it. Consecutive pages put together give the input back.\<close>
theorem projection_reduces:
  assumes "projection_request_check q = None"
  shows "(case project_rows fmt rows q of Inl _ \<Rightarrow> False | Inr p \<Rightarrow>
      pj_kind p = pq_kind q \<and> pj_input_count p = int (length rows) \<and>
      (case pj_data p of
         Count n \<Rightarrow> n = int (length rows) | Exists b \<Rightarrow> b \<longleftrightarrow> rows \<noteq> [] | Metadata n \<Rightarrow> n = int (length rows)
       | Rows rs \<Rightarrow> pj_output_count p = int (length rs) \<and>
           (if pq_kind q = SELECT
            then list_all2 (\<lambda>r s. set s \<subseteq> set r \<and> set (map fst s) \<subseteq> set (pq_fields q)) rows rs
            else sublist rs rows \<and> length rs \<le> 100)
       | OneRow None \<Rightarrow> pj_output_count p = 0 \<and> (if pq_kind q = FIRST then rows = []
            else \<forall>r \<in> set rows. map_of r (the (pq_sort_field q)) = None)
       | OneRow (Some r) \<Rightarrow> pj_output_count p = 1 \<and> (if pq_kind q = FIRST then r = hd rows \<and> rows \<noteq> []
            else r \<in> set rows \<and> (\<forall>s \<in> set rows. map_of s (the (pq_sort_field q)) \<noteq> None \<longrightarrow>
              sortable fmt (the (map_of s (the (pq_sort_field q)))) \<le> sortable fmt (the (map_of r (the (pq_sort_field q)))))))) \<and>
    concat (map (\<lambda>k. case project_rows fmt rows (q\<lparr>pq_kind := PAGINATION, pq_offset := int k * pq_limit q\<rparr>) of
        Inl _ \<Rightarrow> [] | Inr p \<Rightarrow> (case pj_data p of Rows rs \<Rightarrow> rs | _ \<Rightarrow> [])) [0..<length rows]) = rows"
proof
  have q: "1 \<le> pq_top_n q" "pq_top_n q \<le> 100" "1 \<le> pq_limit q" "pq_limit q \<le> 100"
    "pq_kind q = LATEST \<longrightarrow> (\<exists>f. pq_sort_field q = Some f)"
    using assms by (auto simp: projection_request_check_def checks MAX_TOP_N_def MAX_PAGE_SIZE_def)
  have sel: "list_all2 (\<lambda>r s. set s \<subseteq> set r \<and> set (map fst s) \<subseteq> set fs) rows (map (\<lambda>r. select_fields r fs) rows)" for fs
    by (simp add: list_all2_conv_all_nth select_fields_subset del: set_map)
  have sub: "sublist (take n (drop m rows)) rows" for n m
    by (metis sublist_order.order_trans sublist_drop sublist_take)
  have lim: "nat (pq_top_n q) \<le> 100" "nat (pq_limit q) \<le> 100" using q by auto
  show "case project_rows fmt rows q of Inl _ \<Rightarrow> False | Inr p \<Rightarrow>
      pj_kind p = pq_kind q \<and> pj_input_count p = int (length rows) \<and>
      (case pj_data p of
         Count n \<Rightarrow> n = int (length rows) | Exists b \<Rightarrow> b \<longleftrightarrow> rows \<noteq> [] | Metadata n \<Rightarrow> n = int (length rows)
       | Rows rs \<Rightarrow> pj_output_count p = int (length rs) \<and>
           (if pq_kind q = SELECT
            then list_all2 (\<lambda>r s. set s \<subseteq> set r \<and> set (map fst s) \<subseteq> set (pq_fields q)) rows rs
            else sublist rs rows \<and> length rs \<le> 100)
       | OneRow None \<Rightarrow> pj_output_count p = 0 \<and> (if pq_kind q = FIRST then rows = []
            else \<forall>r \<in> set rows. map_of r (the (pq_sort_field q)) = None)
       | OneRow (Some r) \<Rightarrow> pj_output_count p = 1 \<and> (if pq_kind q = FIRST then r = hd rows \<and> rows \<noteq> []
            else r \<in> set rows \<and> (\<forall>s \<in> set rows. map_of s (the (pq_sort_field q)) \<noteq> None \<longrightarrow>
              sortable fmt (the (map_of s (the (pq_sort_field q)))) \<le> sortable fmt (the (map_of r (the (pq_sort_field q)))))))"
  proof (cases "pq_kind q")
    case SELECT
    then show ?thesis using sel by (simp add: project_rows_def Let_def)
  next
    case FIRST
    then show ?thesis by (simp add: project_rows_def Let_def split: list.splits)
  next
    case LATEST
    then obtain f where f: "pq_sort_field q = Some f" using q(5) by blast
    show ?thesis
    proof (cases "latest_row fmt f rows")
      case None
      with LATEST f latest_row_None [THEN iffD1, OF None] show ?thesis by (simp add: project_rows_def Let_def)
    next
      case (Some r)
      with LATEST f latest_row_Some [OF Some] show ?thesis by (simp add: project_rows_def Let_def)
    qed
  next
    case TOP_N
    then show ?thesis using sub [of "nat (pq_top_n q)" 0] lim by (simp add: project_rows_def Let_def min.coboundedI2)
  next
    case PAGINATION
    then show ?thesis using sub [of "nat (pq_limit q)" "nat (pq_offset q)"] lim by (simp add: project_rows_def Let_def min.coboundedI2)
  qed (simp_all add: project_rows_def Let_def)
  have n: "nat (int k * pq_limit q) = k * nat (pq_limit q)" for k using q by (simp add: nat_mult_distrib)
  have "concat (map (\<lambda>k. take (nat (pq_limit q)) (drop (k * nat (pq_limit q)) rows)) [0..<length rows]) =
      take (length rows * nat (pq_limit q)) rows" by (rule page_split)
  also have "\<dots> = rows"
  proof (rule take_all)
    have "1 \<le> nat (pq_limit q)" using q(3) by linarith
    then show "length rows \<le> length rows * nat (pq_limit q)" by (cases "nat (pq_limit q)") auto
  qed
  finally show "concat (map (\<lambda>k. case project_rows fmt rows (q\<lparr>pq_kind := PAGINATION, pq_offset := int k * pq_limit q\<rparr>) of
        Inl _ \<Rightarrow> [] | Inr p \<Rightarrow> (case pj_data p of Rows rs \<Rightarrow> rs | _ \<Rightarrow> [])) [0..<length rows]) = rows"
    by (simp add: project_rows_def Let_def n)
qed

definition sample_request :: ProjectionRequest where
  "sample_request = \<lparr>pq_kind = LATEST, pq_fields = [], pq_sort_field = Some ''due'', pq_top_n = 10, pq_offset = 0, pq_limit = 50\<rparr>"

theorem projection_reduces_witness:
  "\<exists>p. project_rows id [[(''due'', SStr ''2024'')], [(''due'', SStr ''2025'')], []] sample_request = Inr p \<and>
     pj_kind p = LATEST \<and> pj_input_count p = 3"
proof -
  have "projection_request_check sample_request = None" by code_simp
  from projection_reduces [OF this, where fmt = id and rows = "[[(''due'', SStr ''2024'')], [(''due'', SStr ''2025'')], []]"]
  show ?thesis by (auto simp: sample_request_def split: sum.splits)
qed

subsection \<open>Provenance digests\<close>

lemma timestamp_split:
  "\<exists>p. length p = 19 \<and> timestamp_text t = p @ CHR ''.'' # fixed 6 (t mod 1000000) @ ''Z''"
proof -
  obtain y k where yk: "year_day (t div day_microseconds) = (y, k)" by fastforce
  obtain m d where md: "month_day (leap_year y) k = (m, d)" by fastforce
  let ?u = "t mod day_microseconds"
  have u: "?u mod 1000000 = t mod 1000000" by (simp add: day_microseconds_def mod_mod_cancel)
  let ?p = "fixed 4 y @ CHR ''-'' # fixed 2 m @ CHR ''-'' # fixed 2 d @ CHR ''T'' #
     fixed 2 (?u div 3600000000) @ CHR '':'' # fixed 2 (?u div 60000000 mod 60) @ CHR '':'' # fixed 2 (?u div 1000000 mod 60)"
  have "length ?p = 19" by simp
  moreover have "timestamp_text t = ?p @ CHR ''.'' # fixed 6 (t mod 1000000) @ ''Z''"
    by (simp add: timestamp_text_def Let_def yk md u)
  ultimately show ?thesis by blast
qed

lemma iso_split:
  assumes "length p = 19" "timestamp_text t = p @ CHR ''.'' # fixed 6 (t mod 1000000) @ ''Z''"
  shows "iso_text t = p @ (if t mod 1000000 = 0 then [] else CHR ''.'' # fixed 6 (t mod 1000000)) @ ''+00:00''"
  using assms(1) by (simp add: iso_text_def assms(2))

lemma iso_text_eq:
  assumes "s < end_of_time" "t < end_of_time"
  shows "iso_text s = iso_text t \<longleftrightarrow> s = t"
proof
  assume eq: "iso_text s = iso_text t"
  obtain p where p: "length p = 19" "timestamp_text s = p @ CHR ''.'' # fixed 6 (s mod 1000000) @ ''Z''"
    using timestamp_split [of s] by blast
  obtain q where q: "length q = 19" "timestamp_text t = q @ CHR ''.'' # fixed 6 (t mod 1000000) @ ''Z''"
    using timestamp_split [of t] by blast
  have "p = q \<and> s mod 1000000 = t mod 1000000"
    using eq unfolding iso_split [OF p] iso_split [OF q]
    by (auto simp: p(1) q(1) fixed_eq split: if_splits dest: arg_cong [of _ _ length])
  then show "s = t" using timestamp_eq [OF assms] p(2) q(2) by simp
qed simp

definition normal_provenance :: "ExecutionProvenance \<Rightarrow> ExecutionProvenance" where
  "normal_provenance p = p\<lparr>ev_started_at := Aware (utc_of (ev_started_at p)) 0,
     ev_completed_at := Aware (utc_of (ev_completed_at p)) 0\<rparr>"

definition representable :: "datetime \<Rightarrow> bool" where
  "representable d \<longleftrightarrow> 0 \<le> utc_of d \<and> utc_of d < int end_of_time"

definition normal_valid :: "ExecutionProvenance \<Rightarrow> bool" where
  "normal_valid p \<longleftrightarrow> normal_provenance p = p \<and> representable (ev_started_at p) \<and> representable (ev_completed_at p)"

lemma decision_value_inj [simp]: "decision_value a = decision_value b \<longleftrightarrow> a = b"
  by (cases a; cases b) simp_all

lemma execution_mode_value_inj [simp]: "execution_mode_value a = execution_mode_value b \<longleftrightarrow> a = b"
  by (cases a; cases b) simp_all

lemma representable_iso:
  "representable d \<Longrightarrow> representable e \<Longrightarrow> iso_text (nat (utc_of d)) = iso_text (nat (utc_of e)) \<longleftrightarrow> utc_of d = utc_of e"
  by (auto simp: representable_def iso_text_eq nat_less_iff)

lemma string_list_canon: "canon (JList (map JStr xs)) = canon (JList (map JStr ys)) \<longleftrightarrow> xs = ys"
proof -
  have "canon (JList (map JStr zs)) = JList (map JStr zs)" for zs by (induction zs) auto
  then show ?thesis by (simp add: map_injective inj_def)
qed

lemma provenance_payload_determines:
  assumes "normal_valid x" "normal_valid y"
    and "canon (provenance_projection millis x) = canon (provenance_projection millis y)"
  shows "x = y"
proof -
  note f = canon_JObj_eqD [OF assms(3) [unfolded provenance_projection_def]]
  have rep: "representable (ev_started_at x)" "representable (ev_completed_at x)" "representable (ev_started_at y)"
    "representable (ev_completed_at y)" and n: "normal_provenance x = x" "normal_provenance y = y"
    using assms(1,2) by (simp_all add: normal_valid_def)
  have "ev_schema_version x = ev_schema_version y" using f [of "''schema_version''"] by (simp add: map_of_opt_field)
  moreover have "ev_operation_id_digest x = ev_operation_id_digest y"
    using f [of "''operation_id_digest''"] by (simp add: map_of_opt_field)
  moreover have "ev_application x = ev_application y" using f [of "''application''"] by (simp add: map_of_opt_field)
  moreover have "ev_tool_name x = ev_tool_name y" using f [of "''tool_name''"] by (simp add: map_of_opt_field)
  moreover have "ev_tool_version x = ev_tool_version y" using f [of "''tool_version''"] by (simp add: map_of_opt_field)
  moreover have "ev_mode x = ev_mode y" using f [of "''mode''"] by (simp add: map_of_opt_field)
  moreover have "ev_policy_decision x = ev_policy_decision y" using f [of "''policy_decision''"] by (simp add: map_of_opt_field)
  moreover have "ev_security_tier x = ev_security_tier y" using f [of "''security_tier''"] by (simp add: map_of_opt_field)
  moreover have "utc_of (ev_started_at x) = utc_of (ev_started_at y)"
    using f [of "''started_at''"] rep by (simp add: map_of_opt_field representable_iso)
  then have "ev_started_at x = ev_started_at y" using arg_cong [OF n(1), of ev_started_at] arg_cong [OF n(2), of ev_started_at]
    by (simp add: normal_provenance_def)
  moreover have "utc_of (ev_completed_at x) = utc_of (ev_completed_at y)"
    using f [of "''completed_at''"] rep by (simp add: map_of_opt_field representable_iso)
  then have "ev_completed_at x = ev_completed_at y" using arg_cong [OF n(1), of ev_completed_at] arg_cong [OF n(2), of ev_completed_at]
    by (simp add: normal_provenance_def)
  moreover have "ev_evidence_reference_ids x = ev_evidence_reference_ids y"
    using f [of "''evidence_reference_ids''"] by (simp add: map_of_opt_field string_list_canon del: canon.simps)
  moreover have "ev_state_identity_digest x = ev_state_identity_digest y"
    using f [of "''state_identity_digest''"]
    by (cases "ev_state_identity_digest x"; cases "ev_state_identity_digest y") (simp_all add: opt_field_def map_add_def split: option.splits)
  moreover have "ev_checkpoint_digest x = ev_checkpoint_digest y"
    using f [of "''checkpoint_digest''"]
    by (cases "ev_checkpoint_digest x"; cases "ev_checkpoint_digest y") (simp_all add: opt_field_def map_add_def split: option.splits)
  ultimately show ?thesis by (intro ExecutionProvenance.equality) simp_all
qed

interpretation provenance: content_address "provenance_projection millis" True
    "\<lambda>p. sha256_text (dumps True (provenance_projection millis p))" normal_valid for millis
  by unfold_locales (simp_all add: provenance_payload_determines)

text \<open>A provenance digest stands for one provenance: two accepted provenances with representable
  instants have the same digest exactly when they agree on every field, their instants compared as moments;
  otherwise their canonical texts exhibit a SHA-256 collision. So the offsets of the instants are the only
  thing a digest does not show.\<close>
theorem provenance_digest_identifies:
  assumes "representable (ev_started_at p)" "representable (ev_completed_at p)"
    and "representable (ev_started_at q)" "representable (ev_completed_at q)"
  shows "(normal_provenance p = normal_provenance q \<longrightarrow> provenance_digest millis p = provenance_digest millis q) \<and>
    (provenance_digest millis p = provenance_digest millis q \<longrightarrow> normal_provenance p = normal_provenance q \<or>
       digest_collision (dumps True (provenance_projection millis p)) (dumps True (provenance_projection millis q)))"
proof -
  have pr: "provenance_projection millis (normal_provenance r) = provenance_projection millis r" for r
    by (simp add: provenance_projection_def normal_provenance_def duration_ms_def)
  have "normal_valid (normal_provenance p)" "normal_valid (normal_provenance q)"
    using assms by (simp_all add: normal_valid_def normal_provenance_def representable_def)
  from provenance.digest_determines [OF this, of millis]
  have "provenance_digest millis p = provenance_digest millis q \<longrightarrow> normal_provenance p = normal_provenance q \<or>
      digest_collision (dumps True (provenance_projection millis p)) (dumps True (provenance_projection millis q))"
    by (simp add: provenance_digest_def pr)
  moreover have "normal_provenance p = normal_provenance q \<longrightarrow> provenance_digest millis p = provenance_digest millis q"
    using pr [of p] pr [of q] by (auto simp: provenance_digest_def)
  ultimately show ?thesis by blast
qed

definition sample_provenance :: "int \<Rightarrow> ExecutionProvenance" where
  "sample_provenance offset = \<lparr>ev_schema_version = ''execution-provenance-v1'', ev_operation_id_digest = replicate 64 CHR ''0'',
     ev_application = PLANNER, ev_tool_name = ''planner_plans_list'', ev_tool_version = ''1'', ev_mode = MOCK_MODE,
     ev_policy_decision = ALLOW, ev_security_tier = T1, ev_started_at = Aware 5 offset, ev_completed_at = Aware 9 0,
     ev_state_identity_digest = None, ev_checkpoint_digest = None, ev_evidence_reference_ids = []\<rparr>"

theorem provenance_digest_identifies_witness:
  "provenance_digest (\<lambda>_. 0) (sample_provenance 0) = provenance_digest (\<lambda>_. 0) (sample_provenance 3600)"
proof -
  have "representable (ev_started_at (sample_provenance i))" "representable (ev_completed_at (sample_provenance i))" for i
    by (simp_all add: representable_def sample_provenance_def end_of_time_def day_microseconds_def)
  from provenance_digest_identifies [OF this this, of 0 3600 "\<lambda>_. 0"] show ?thesis
    by (simp add: normal_provenance_def sample_provenance_def)
qed

subsection \<open>Two facts about identifiers and orders\<close>

text \<open>The parts of a reference id are joined by bars and the free parts may hold bars: references to
  different contents can have one id.\<close>

lemma reference_id_ambiguous:
  fixes d e
  defines "r \<equiv> \<lparr>ar_kind = ARTIFACT_REFERENCE, ar_artifact_type = ''a'', ar_locator_digest = d, ar_content_digest = d,
      ar_media_type = e @ ''|'' @ e @ ''|text/x'', ar_size_bytes = None\<rparr>"
    and "s \<equiv> \<lparr>ar_kind = ARTIFACT_REFERENCE, ar_artifact_type = ''a|'' @ d @ ''|'' @ d, ar_locator_digest = e, ar_content_digest = e,
      ar_media_type = ''text/x'', ar_size_bytes = None\<rparr>"
  shows "reference_id r = reference_id s"
  by (simp add: r_def s_def reference_id_def reference_text_def)

lemma reference_id_ambiguous_valid:
  "artifact_reference_check \<lparr>ar_kind = ARTIFACT_REFERENCE, ar_artifact_type = ''a'', ar_locator_digest = replicate 64 CHR ''0'',
      ar_content_digest = replicate 64 CHR ''0'',
      ar_media_type = replicate 64 CHR ''1'' @ ''|'' @ replicate 64 CHR ''1'' @ ''|text/x'', ar_size_bytes = None\<rparr> = None"
  "artifact_reference_check \<lparr>ar_kind = ARTIFACT_REFERENCE,
      ar_artifact_type = ''a|'' @ replicate 64 CHR ''0'' @ ''|'' @ replicate 64 CHR ''0'',
      ar_locator_digest = replicate 64 CHR ''1'', ar_content_digest = replicate 64 CHR ''1'',
      ar_media_type = ''text/x'', ar_size_bytes = None\<rparr> = None"
  by code_simp+

text \<open>Numbers are compared as zero-padded text with a leading sign, so of two negative ones the smaller
  counts as the later.\<close>

definition padded :: "int \<Rightarrow> string" where
  "padded i = (if i < 0 then CHR ''-'' # fixed 16 (nat (- i)) else fixed 17 (nat i)) @ ''.000000000000''"

lemma latest_of_negatives:
  "latest_row padded ''due'' [[(''due'', SNumber (- 5))], [(''due'', SNumber (- 3))]] = Some [(''due'', SNumber (- 5))]"
  by code_simp

end
