(* ===== verification/Origin_Gate.thy ===== *)
(*  The bearer boundary of the origin and the aggregated metrics. *)

theory Origin_Gate
  imports Config Registries
begin

text \<open>
  \<open>origin_auth.py\<close>: loading the upstream bearer token from a file and the middleware that demands
  it. \<open>operational_outcome_metrics.py\<close> and \<open>ui_execution_metrics.py\<close>: counters by closed labels.

  The file system is a function from paths to what \<open>lstat\<close> and reading give. The bytes of a header are
  characters, as \<open>latin-1\<close> decodes them. \<open>hmac.compare_digest\<close> compares two texts exactly and raises
  \<open>TypeError\<close> when either is not ASCII. The middleware answers with what it does: forward to the
  application, answer 401, or raise. The float average of the UI metrics is not modelled.

  The results: an HTTP request reaches the application exactly when its first authorization header is the
  configured bearer, and loaded tokens are long, blank-free and from a private regular file; aggregation
  keeps every label combination once, with exactly the sums of its samples.
\<close>

subsection \<open>Loading the token\<close>

record file_info =
  fi_is_link :: bool
  fi_is_regular :: bool
  fi_mode :: nat
  fi_size :: int

type_synonym file_system = "string \<Rightarrow> (file_info \<times> string option) option"

definition MIN_TOKEN_LENGTH :: nat where
  "MIN_TOKEN_LENGTH = 32"

definition MAX_TOKEN_FILE_BYTES :: int where
  "MAX_TOKEN_FILE_BYTES = 4096"

definition origin_error :: "string \<Rightarrow> exn" where
  "origin_error msg = ConfigurationError msg [''M365_ORIGIN_AUTH_FILE'']"

text \<open>\<open>st_mode & 0o077\<close>: the six lowest bits of the mode.\<close>

definition load_origin_bearer_token :: "(string \<rightharpoonup> string) \<Rightarrow> file_system \<Rightarrow> string option result" where
  "load_origin_bearer_token environ fs =
     (let path = strip (case environ ''M365_ORIGIN_AUTH_FILE'' of None \<Rightarrow> [] | Some v \<Rightarrow> v) in
      if path = [] then Inr None
      else if take 1 path \<noteq> ''/'' then Inl (origin_error ''origin auth file must be an absolute path'')
      else (case fs path of
          None \<Rightarrow> Inl (origin_error ''origin auth file is unavailable'')
        | Some (info, content) \<Rightarrow>
            if fi_is_link info \<or> \<not> fi_is_regular info
            then Inl (origin_error ''origin auth file must be a regular non-symlink file'')
            else if fi_mode info mod 64 \<noteq> 0 then Inl (origin_error ''origin auth file permissions are too broad'')
            else if \<not> (0 < fi_size info \<and> fi_size info \<le> MAX_TOKEN_FILE_BYTES)
            then Inl (origin_error ''origin auth file size is invalid'')
            else (case content of
                None \<Rightarrow> Inl (origin_error ''origin auth file could not be read'')
              | Some text \<Rightarrow>
                  if length (strip text) < MIN_TOKEN_LENGTH \<or> has_space (strip text)
                  then Inl (origin_error ''origin bearer token does not meet the runtime contract'')
                  else Inr (Some (strip text)))))"

subsection \<open>The middleware\<close>

definition ascii_lower_char :: "char \<Rightarrow> char" where
  "ascii_lower_char c = (let n = of_char c :: nat in if 65 \<le> n \<and> n \<le> 90 then char_of (n + 32) else c)"

definition ascii_text :: "string \<Rightarrow> bool" where
  "ascii_text s \<longleftrightarrow> list_all (\<lambda>c. (of_char c :: nat) < 128) s"

definition compare_digest :: "string \<Rightarrow> string \<Rightarrow> bool result" where
  "compare_digest a b = (if \<not> ascii_text a \<or> \<not> ascii_text b then Inl TypeError else Inr (a = b))"

text \<open>\<open>value.partition(" ")\<close>: before the first blank, whether there is one, and after it.\<close>

fun partition_space :: "string \<Rightarrow> string \<times> bool \<times> string" where
  "partition_space [] = ([], False, [])"
| "partition_space (c # cs) = (if c = CHR '' '' then ([], True, cs)
     else (case partition_space cs of (a, found, b) \<Rightarrow> (c # a, found, b)))"

fun bearer_from_headers :: "(string \<times> string) list \<Rightarrow> string option" where
  "bearer_from_headers [] = None"
| "bearer_from_headers ((name, v) # rest) =
     (if map ascii_lower_char name \<noteq> ''authorization'' then bearer_from_headers rest
      else (case partition_space v of (scheme, found, credential) \<Rightarrow>
        if \<not> found \<or> lower scheme \<noteq> ''bearer'' \<or> credential = [] then None else Some credential))"

record http_scope =
  hs_type :: "string option"
  hs_headers :: "(string \<times> string) list"

datatype gate_answer = Forwarded | Unauthorized

definition origin_gate_init :: "string \<Rightarrow> string result" where
  "origin_gate_init token = (if length token < MIN_TOKEN_LENGTH
     then Inl (value_error ''origin bearer token is too short'') else Inr token)"

definition origin_gate :: "string \<Rightarrow> http_scope \<Rightarrow> gate_answer result" where
  "origin_gate token scope =
     (if hs_type scope \<noteq> Some ''http'' then Inr Forwarded
      else (case bearer_from_headers (hs_headers scope) of
          None \<Rightarrow> Inr Unauthorized
        | Some presented \<Rightarrow> bindE (compare_digest presented token)
            (\<lambda>equal. Inr (if equal then Forwarded else Unauthorized))))"

subsection \<open>Operational outcomes\<close>

datatype OperationalSignal = SIGNAL_DRIFT | SIGNAL_READ_BACK | SIGNAL_INDETERMINATE

fun signal_value :: "OperationalSignal \<Rightarrow> string" where
  "signal_value SIGNAL_DRIFT = ''DRIFT''"
| "signal_value SIGNAL_READ_BACK = ''READ_BACK''"
| "signal_value SIGNAL_INDETERMINATE = ''INDETERMINATE''"

datatype OperationalOutcome = OUTCOME_CLEAN | OUTCOME_DETECTED | OUTCOME_EFFECT_PRESENT
  | OUTCOME_EFFECT_ABSENT | OUTCOME_AMBIGUOUS | OUTCOME_RESOLVED

fun outcome_value :: "OperationalOutcome \<Rightarrow> string" where
  "outcome_value OUTCOME_CLEAN = ''CLEAN''"
| "outcome_value OUTCOME_DETECTED = ''DETECTED''"
| "outcome_value OUTCOME_EFFECT_PRESENT = ''EFFECT_PRESENT''"
| "outcome_value OUTCOME_EFFECT_ABSENT = ''EFFECT_ABSENT''"
| "outcome_value OUTCOME_AMBIGUOUS = ''AMBIGUOUS''"
| "outcome_value OUTCOME_RESOLVED = ''RESOLVED''"

type_synonym outcome_key = "ApplicationKey \<times> OperationalSignal \<times> OperationalOutcome"

record OperationalOutcomeSample =
  oo_key :: outcome_key
  oo_occurrences :: int

fun allowed_outcomes :: "OperationalSignal \<Rightarrow> OperationalOutcome list" where
  "allowed_outcomes SIGNAL_DRIFT = [OUTCOME_CLEAN, OUTCOME_DETECTED, OUTCOME_RESOLVED]"
| "allowed_outcomes SIGNAL_READ_BACK = [OUTCOME_EFFECT_PRESENT, OUTCOME_EFFECT_ABSENT, OUTCOME_AMBIGUOUS]"
| "allowed_outcomes SIGNAL_INDETERMINATE = [OUTCOME_DETECTED, OUTCOME_RESOLVED]"

definition outcome_sample_check :: "OperationalOutcomeSample \<Rightarrow> exn option" where
  "outcome_sample_check s = (case oo_key s of (app, signal, outcome) \<Rightarrow> first_error [
     raise_if (oo_occurrences s \<le> 0) (value_error ''occurrences must be positive''),
     raise_if (outcome \<notin> set (allowed_outcomes signal)) (value_error ''outcome is invalid for operational signal'')])"

definition outcome_labels :: "outcome_key \<Rightarrow> string \<times> string \<times> string" where
  "outcome_labels k = (case k of (app, signal, outcome) \<Rightarrow> (app_value app, signal_value signal, outcome_value outcome))"

definition count_outcome :: "(outcome_key \<times> int) list \<Rightarrow> OperationalOutcomeSample \<Rightarrow> (outcome_key \<times> int) list" where
  "count_outcome totals s = AList.update (oo_key s)
     ((case map_of totals (oo_key s) of None \<Rightarrow> 0 | Some n \<Rightarrow> n) + oo_occurrences s) totals"

definition aggregate_operational_outcomes ::
  "OperationalOutcomeSample list \<Rightarrow> OperationalOutcomeSample list result" where
  "aggregate_operational_outcomes samples =
     mapE (\<lambda>(k, n). construct outcome_sample_check \<lparr>oo_key = k, oo_occurrences = n\<rparr>)
       (sort_key (\<lambda>(k, n). outcome_labels k) (foldl count_outcome [] samples))"

subsection \<open>UI execution samples\<close>

datatype UIExecutionStage = STAGE_NAVIGATION | STAGE_READ | STAGE_INTERACTION | STAGE_READ_BACK

fun stage_value :: "UIExecutionStage \<Rightarrow> string" where
  "stage_value STAGE_NAVIGATION = ''NAVIGATION''"
| "stage_value STAGE_READ = ''READ''"
| "stage_value STAGE_INTERACTION = ''INTERACTION''"
| "stage_value STAGE_READ_BACK = ''READ_BACK''"

datatype UIExecutionOutcome = UI_SUCCESS | UI_BLOCKED | UI_CONTRACT_MISMATCH | UI_TIMEOUT | UI_FAILED

fun ui_outcome_value :: "UIExecutionOutcome \<Rightarrow> string" where
  "ui_outcome_value UI_SUCCESS = ''SUCCESS''"
| "ui_outcome_value UI_BLOCKED = ''BLOCKED''"
| "ui_outcome_value UI_CONTRACT_MISMATCH = ''CONTRACT_MISMATCH''"
| "ui_outcome_value UI_TIMEOUT = ''TIMEOUT''"
| "ui_outcome_value UI_FAILED = ''FAILED''"

type_synonym ui_key = "ApplicationKey \<times> UIExecutionStage \<times> UIExecutionOutcome"

record UIExecutionSample =
  ux_key :: ui_key
  ux_duration_ms :: int
  ux_interaction_count :: int
  ux_retry_count :: int
  ux_read_back_count :: int

definition ui_sample_check :: "UIExecutionSample \<Rightarrow> exn option" where
  "ui_sample_check s = first_error (map (\<lambda>(name, v). raise_if (v < 0) (ValueError ''{} must be non-negative'' [name]))
     [(''duration_ms'', ux_duration_ms s), (''interaction_count'', ux_interaction_count s),
      (''retry_count'', ux_retry_count s), (''read_back_count'', ux_read_back_count s)])"

record UIExecutionAggregate =
  ua_key :: ui_key
  ua_executions :: int
  ua_total_duration_ms :: int
  ua_total_interactions :: int
  ua_total_retries :: int
  ua_total_read_backs :: int

definition ui_labels :: "ui_key \<Rightarrow> string \<times> string \<times> string" where
  "ui_labels k = (case k of (app, stage, outcome) \<Rightarrow> (app_value app, stage_value stage, ui_outcome_value outcome))"

definition add_sample ::
  "(ui_key \<times> UIExecutionSample list) list \<Rightarrow> UIExecutionSample \<Rightarrow> (ui_key \<times> UIExecutionSample list) list" where
  "add_sample buckets s = AList.update (ux_key s)
     ((case map_of buckets (ux_key s) of None \<Rightarrow> [] | Some g \<Rightarrow> g) @ [s]) buckets"

definition aggregate_group :: "ui_key \<times> UIExecutionSample list \<Rightarrow> UIExecutionAggregate" where
  "aggregate_group kg = (case kg of (k, g) \<Rightarrow> \<lparr>ua_key = k, ua_executions = int (length g),
     ua_total_duration_ms = sum_list (map ux_duration_ms g),
     ua_total_interactions = sum_list (map ux_interaction_count g),
     ua_total_retries = sum_list (map ux_retry_count g),
     ua_total_read_backs = sum_list (map ux_read_back_count g)\<rparr>)"

definition aggregate_ui_execution_samples :: "UIExecutionSample list \<Rightarrow> UIExecutionAggregate list" where
  "aggregate_ui_execution_samples samples =
     map aggregate_group (sort_key (\<lambda>(k, g). ui_labels k) (foldl add_sample [] samples))"

subsection \<open>Lemmas\<close>

lemma load_token_Inr:
  "load_origin_bearer_token environ fs = Inr (Some token) \<longleftrightarrow> (\<exists>v info content.
     environ ''M365_ORIGIN_AUTH_FILE'' = Some v \<and> strip v \<noteq> [] \<and> take 1 (strip v) = ''/'' \<and>
     fs (strip v) = Some (info, Some content) \<and> \<not> fi_is_link info \<and> fi_is_regular info \<and> fi_mode info mod 64 = 0 \<and>
     0 < fi_size info \<and> fi_size info \<le> 4096 \<and> token = strip content \<and> 32 \<le> length token \<and> \<not> has_space token)"
  by (cases "environ ''M365_ORIGIN_AUTH_FILE''")
    (auto simp: load_origin_bearer_token_def Let_def MIN_TOKEN_LENGTH_def MAX_TOKEN_FILE_BYTES_def strip_def
      split: if_splits option.splits prod.splits)

lemma partition_space_True:
  "partition_space v = (a, True, b) \<longleftrightarrow> v = a @ CHR '' '' # b \<and> CHR '' '' \<notin> set a"
proof (induction v arbitrary: a)
  case (Cons c cs)
  obtain x f y where p: "partition_space cs = (x, f, y)" by (rule prod_cases3)
  with Cons.IH show ?case by (cases a) auto
qed simp

text \<open>The header that decides: the first one named authorization.\<close>

definition authorization_header :: "(string \<times> string) list \<Rightarrow> string option" where
  "authorization_header hs = map_option snd (find (\<lambda>(name, v). map ascii_lower_char name = ''authorization'') hs)"

lemma bearer_from_headers_Some:
  "bearer_from_headers hs = Some credential \<longleftrightarrow> credential \<noteq> [] \<and> (\<exists>scheme.
     authorization_header hs = Some (scheme @ CHR '' '' # credential) \<and> lower scheme = ''bearer'' \<and> CHR '' '' \<notin> set scheme)"
proof (induction hs)
  case (Cons h hs)
  obtain name v where h: "h = (name, v)" by fastforce
  show ?case
  proof (cases "map ascii_lower_char name = ''authorization''")
    case True
    obtain a f b where p: "partition_space v = (a, f, b)" by (rule prod_cases3)
    have l: "bearer_from_headers (h # hs) = Some credential \<longleftrightarrow> f \<and> lower a = ''bearer'' \<and> credential \<noteq> [] \<and> b = credential"
      using True p by (auto simp: h)
    have r: "(\<exists>scheme. v = scheme @ CHR '' '' # credential \<and> lower scheme = ''bearer'' \<and> CHR '' '' \<notin> set scheme) \<longleftrightarrow>
        (\<exists>scheme. partition_space v = (scheme, True, credential) \<and> lower scheme = ''bearer'')"
      unfolding partition_space_True by blast
    have au: "authorization_header (h # hs) = Some v" using True by (simp add: h authorization_header_def)
    show ?thesis unfolding l au option.inject r p by auto
  next
    case False
    with Cons.IH show ?thesis by (simp add: h authorization_header_def)
  qed
qed (simp add: authorization_header_def)

lemma filter_key_none: "k \<notin> f ` set xs \<Longrightarrow> filter (\<lambda>x. f x = k) xs = []"
  by (auto simp: filter_empty_conv)

lemma set_of_items: "(\<And>k v. (k, v) \<in> A \<longleftrightarrow> k \<in> K \<and> v = f k) \<Longrightarrow> A = {(k, f k) | k. k \<in> K}"
  by auto

lemma image_items: "(\<lambda>(k, v). g k v) ` {(k, f k) | k. k \<in> K} = {g k (f k) | k. k \<in> K}"
  by force

lemma image_items2: "h ` {(k, f k) | k. k \<in> K} = {h (k, f k) | k. k \<in> K}"
  by blast

lemma count_outcome_map:
  "map_of (count_outcome totals s) k = (if k = oo_key s
     then Some ((case map_of totals k of None \<Rightarrow> 0 | Some n \<Rightarrow> n) + oo_occurrences s) else map_of totals k)"
  by (simp add: count_outcome_def update_conv)

lemma count_outcomes:
  "map_of (foldl count_outcome totals samples) k =
     (if k \<in> set (map oo_key samples)
      then Some ((case map_of totals k of None \<Rightarrow> 0 | Some n \<Rightarrow> n) +
        sum_list (map oo_occurrences (filter (\<lambda>s. oo_key s = k) samples)))
      else map_of totals k)"
  by (induction samples arbitrary: totals) (auto simp: count_outcome_map filter_key_none split: option.splits)

lemma count_outcomes_distinct: "distinct (map fst totals) \<Longrightarrow> distinct (map fst (foldl count_outcome totals samples))"
  by (induction samples arbitrary: totals) (auto simp: count_outcome_def intro: distinct_update)

lemma add_sample_map:
  "map_of (add_sample buckets s) k = (if k = ux_key s
     then Some ((case map_of buckets k of None \<Rightarrow> [] | Some g \<Rightarrow> g) @ [s]) else map_of buckets k)"
  by (simp add: add_sample_def update_conv)

lemma add_samples:
  "map_of (foldl add_sample buckets samples) k =
     (if k \<in> set (map ux_key samples)
      then Some ((case map_of buckets k of None \<Rightarrow> [] | Some g \<Rightarrow> g) @ filter (\<lambda>s. ux_key s = k) samples)
      else map_of buckets k)"
  by (induction samples arbitrary: buckets) (auto simp: add_sample_map filter_key_none split: option.splits)

lemma add_samples_distinct: "distinct (map fst buckets) \<Longrightarrow> distinct (map fst (foldl add_sample buckets samples))"
  by (induction samples arbitrary: buckets) (auto simp: add_sample_def intro: distinct_update)

lemma signal_value_inj [simp]: "signal_value a = signal_value b \<longleftrightarrow> a = b" by (cases a; cases b) simp_all
lemma outcome_value_inj [simp]: "outcome_value a = outcome_value b \<longleftrightarrow> a = b" by (cases a; cases b) simp_all
lemma stage_value_inj [simp]: "stage_value a = stage_value b \<longleftrightarrow> a = b" by (cases a; cases b) simp_all
lemma ui_outcome_value_inj [simp]: "ui_outcome_value a = ui_outcome_value b \<longleftrightarrow> a = b" by (cases a; cases b) simp_all

lemma outcome_labels_inj: "outcome_labels a = outcome_labels b \<longleftrightarrow> a = b"
  by (cases a; cases b) (auto simp: outcome_labels_def)

lemma ui_labels_inj: "ui_labels a = ui_labels b \<longleftrightarrow> a = b"
  by (cases a; cases b) (auto simp: ui_labels_def)

text \<open>Sorting the items of a dictionary by labels that tell keys apart lists every key once.\<close>

lemma sorted_items:
  assumes "\<And>a b. label a = label b \<longleftrightarrow> a = b" "distinct (map fst items)"
  shows "sorted_wrt (<) (map (label \<circ> fst) (sort_key (label \<circ> fst) items)) \<and>
    set (sort_key (label \<circ> fst) items) = set items"
proof
  have d: "distinct (map (label \<circ> fst) items)"
    using assms by (auto simp: distinct_map inj_on_def)
  then have "distinct (map (label \<circ> fst) (sort_key (label \<circ> fst) items))" by (simp add: distinct_map)
  then show "sorted_wrt (<) (map (label \<circ> fst) (sort_key (label \<circ> fst) items))"
    by (simp add: strict_sorted_iff)
qed simp

lemma label_fst: "(\<lambda>(k, n). f k) = f \<circ> fst"
  by (simp add: fun_eq_iff)

subsection \<open>Properties\<close>

text \<open>C12. What passes the origin. For a token loaded from the configured file, the token has at least 32
  characters and no blank and comes from a private regular file; and an HTTP request reaches the
  application exactly when its first authorization header is the bearer scheme, one blank and exactly that
  token, all in ASCII. Every other HTTP request is answered 401, except that a credential or a token with
  a character outside ASCII raises; other kinds of scope pass.\<close>
theorem origin_gate_exact:
  assumes "load_origin_bearer_token environ fs = Inr (Some token)"
  shows "origin_gate_init token = Inr token \<and> 32 \<le> length token \<and> \<not> has_space token \<and>
    (\<exists>path info content. fs path = Some (info, Some content) \<and> token = strip content \<and> take 1 path = ''/'' \<and>
       \<not> fi_is_link info \<and> fi_is_regular info \<and> fi_mode info mod 64 = 0) \<and>
    (hs_type scope \<noteq> Some ''http'' \<or>
      (origin_gate token scope = Inr Forwarded \<longleftrightarrow> ascii_text token \<and>
         (\<exists>scheme. lower scheme = ''bearer'' \<and> CHR '' '' \<notin> set scheme \<and>
            authorization_header (hs_headers scope) = Some (scheme @ CHR '' '' # token)))) \<and>
    (hs_type scope = Some ''http'' \<or> origin_gate token scope = Inr Forwarded) \<and>
    (origin_gate token scope \<in> {Inr Forwarded, Inr Unauthorized, Inl TypeError}) \<and>
    (origin_gate token scope = Inl TypeError \<longleftrightarrow> hs_type scope = Some ''http'' \<and>
       (\<exists>c. bearer_from_headers (hs_headers scope) = Some c \<and> \<not> (ascii_text c \<and> ascii_text token)))"
proof -
  from assms obtain v info content where t: "fs (strip v) = Some (info, Some content)" "\<not> fi_is_link info" "fi_is_regular info"
    "fi_mode info mod 64 = 0" "take 1 (strip v) = ''/''" "token = strip content" "32 \<le> length token" "\<not> has_space token"
    unfolding load_token_Inr by (elim exE conjE) (rule that; assumption)
  then have ne: "token \<noteq> []" by auto
  have private_file: "\<exists>path info content. fs path = Some (info, Some content) \<and> token = strip content \<and> take 1 path = ''/'' \<and>
       \<not> fi_is_link info \<and> fi_is_regular info \<and> fi_mode info mod 64 = 0"
    by (intro exI [of _ "strip v"] exI [of _ info] exI [of _ content] conjI t)
  have fwd: "origin_gate token scope = Inr Forwarded \<longleftrightarrow> ascii_text token \<and> bearer_from_headers (hs_headers scope) = Some token"
    if "hs_type scope = Some ''http''"
    using that by (auto simp: origin_gate_def compare_digest_def split: option.splits if_splits)
  have other: "hs_type scope = Some ''http'' \<or> origin_gate token scope = Inr Forwarded"
    by (simp add: origin_gate_def)
  have three: "origin_gate token scope \<in> {Inr Forwarded, Inr Unauthorized, Inl TypeError}"
    by (auto simp: origin_gate_def compare_digest_def split: option.splits)
  have err: "origin_gate token scope = Inl TypeError \<longleftrightarrow> hs_type scope = Some ''http'' \<and>
       (\<exists>c. bearer_from_headers (hs_headers scope) = Some c \<and> \<not> (ascii_text c \<and> ascii_text token))"
    by (auto simp: origin_gate_def compare_digest_def split: option.splits)
  have init: "origin_gate_init token = Inr token" using t by (simp add: origin_gate_init_def MIN_TOKEN_LENGTH_def)
  have gate: "hs_type scope \<noteq> Some ''http'' \<or>
      (origin_gate token scope = Inr Forwarded \<longleftrightarrow> ascii_text token \<and>
         (\<exists>scheme. lower scheme = ''bearer'' \<and> CHR '' '' \<notin> set scheme \<and>
            authorization_header (hs_headers scope) = Some (scheme @ CHR '' '' # token)))"
    using fwd ne unfolding bearer_from_headers_Some by blast
  from init t(7,8) private_file gate other three err show ?thesis by blast
qed

definition sample_files :: file_system where
  "sample_files path = (if path = ''/run/token'' then
     Some (\<lparr>fi_is_link = False, fi_is_regular = True, fi_mode = 0x180, fi_size = 33\<rparr>, Some (replicate 32 CHR ''t'' @ [CHR 0x0A]))
     else None)"

theorem origin_gate_exact_witness:
  "load_origin_bearer_token [''M365_ORIGIN_AUTH_FILE'' \<mapsto> ''/run/token''] sample_files = Inr (Some (replicate 32 CHR ''t'')) \<and>
   origin_gate (replicate 32 CHR ''t'') \<lparr>hs_type = Some ''http'', hs_headers = [(''Authorization'', ''Bearer '' @ replicate 32 CHR ''t'')]\<rparr> =
     Inr Forwarded"
proof -
  have l: "load_origin_bearer_token [''M365_ORIGIN_AUTH_FILE'' \<mapsto> ''/run/token''] sample_files = Inr (Some (replicate 32 CHR ''t''))"
    by code_simp
  have a: "authorization_header [(''Authorization'', ''Bearer '' @ replicate 32 CHR ''t'')] = Some (''Bearer'' @ CHR '' '' # replicate 32 CHR ''t'')"
    and b: "lower ''Bearer'' = ''bearer''" "CHR '' '' \<notin> set ''Bearer''" "ascii_text (replicate 32 CHR ''t'')" by code_simp+
  have "origin_gate (replicate 32 CHR ''t'') \<lparr>hs_type = Some ''http'', hs_headers = [(''Authorization'', ''Bearer '' @ replicate 32 CHR ''t'')]\<rparr> =
     Inr Forwarded"
    using origin_gate_exact [OF l, of "\<lparr>hs_type = Some ''http'', hs_headers = [(''Authorization'', ''Bearer '' @ replicate 32 CHR ''t'')]\<rparr>"]
      a b by (metis http_scope.select_convs(1) http_scope.select_convs(2))
  with l show ?thesis by blast
qed

text \<open>Aggregated metrics are exactly the sums of their samples. Accepted outcome samples always aggregate,
  and both aggregations list each combination of labels that occurs once, in the order of the labels, with
  the totals of exactly the samples that carry it.\<close>
theorem aggregation_exact:
  assumes "list_all (\<lambda>s. outcome_sample_check s = None) samples"
  shows "(\<exists>out. aggregate_operational_outcomes samples = Inr out \<and>
      sorted_wrt (<) (map (outcome_labels \<circ> oo_key) out) \<and>
      set out = {\<lparr>oo_key = k, oo_occurrences = sum_list (map oo_occurrences (filter (\<lambda>s. oo_key s = k) samples))\<rparr> | k.
        k \<in> set (map oo_key samples)}) \<and>
    sorted_wrt (<) (map (ui_labels \<circ> ua_key) (aggregate_ui_execution_samples runs)) \<and>
    set (aggregate_ui_execution_samples runs) =
      {aggregate_group (k, filter (\<lambda>s. ux_key s = k) runs) | k. k \<in> set (map ux_key runs)}"
proof -
  let ?items = "foldl count_outcome [] samples" and ?b = "foldl add_sample [] runs"
  let ?total = "\<lambda>k. sum_list (map oo_occurrences (filter (\<lambda>s. oo_key s = k) samples))"
  have d: "distinct (map fst ?items)" by (rule count_outcomes_distinct) simp
  have items: "set ?items = {(k, ?total k) | k. k \<in> set (map oo_key samples)}"
    by (rule set_of_items, unfold map_of_eq_Some_iff [OF d, symmetric] count_outcomes) auto
  note so = sorted_items [of outcome_labels, OF outcome_labels_inj d]
  have pos: "0 < ?total k" if "k \<in> set (map oo_key samples)" for k
  proof -
    have p: "\<forall>s \<in> set samples. 0 < oo_occurrences s"
    proof
      fix s assume "s \<in> set samples"
      then have "outcome_sample_check s = None" using assms by (simp add: list_all_iff)
      then show "0 < oo_occurrences s" by (cases "oo_key s") (simp add: outcome_sample_check_def checks)
    qed
    from that obtain s where s: "s \<in> set samples" "oo_key s = k" by auto
    have "sum_list (map oo_occurrences (filter (\<lambda>s. oo_key s = k) xs)) \<ge> 0" if "set xs \<subseteq> set samples" for xs
      using that p by (induction xs) (auto intro: add_nonneg_nonneg less_imp_le)
    moreover obtain ys zs where sp: "samples = ys @ s # zs" using s(1) by (metis split_list)
    ultimately have "0 \<le> sum_list (map oo_occurrences (filter (\<lambda>s. oo_key s = k) ys))"
      "0 \<le> sum_list (map oo_occurrences (filter (\<lambda>s. oo_key s = k) zs))" by auto
    then show ?thesis using p s sp by auto
  qed
  have ok: "outcome_sample_check \<lparr>oo_key = k, oo_occurrences = ?total k\<rparr> = None" if "k \<in> set (map oo_key samples)" for k
  proof -
    from that obtain s where s: "s \<in> set samples" "oo_key s = k" by auto
    then have "outcome_sample_check s = None" using assms by (simp add: list_all_iff)
    then show ?thesis using s pos [OF that] by (cases k) (auto simp: outcome_sample_check_def checks)
  qed
  let ?s = "sort_key (outcome_labels \<circ> fst) ?items"
  have "aggregate_operational_outcomes samples = Inr (map (\<lambda>(k, n). \<lparr>oo_key = k, oo_occurrences = n\<rparr>) ?s)"
    unfolding aggregate_operational_outcomes_def label_fst mapE_Inr_iff list_all2_conv_all_nth
  proof (intro conjI allI impI)
    fix i assume "i < length ?s"
    then have "?s ! i \<in> set ?items" using so nth_mem by blast
    then obtain k where "k \<in> set (map oo_key samples)" "?s ! i = (k, ?total k)" unfolding items by blast
    with ok [of k] show "(case ?s ! i of (k, n) \<Rightarrow> construct outcome_sample_check \<lparr>oo_key = k, oo_occurrences = n\<rparr>) =
        Inr (map (\<lambda>(k, n). \<lparr>oo_key = k, oo_occurrences = n\<rparr>) ?s ! i)"
      using \<open>i < length ?s\<close> by (simp add: construct_Inr_iff)
  qed simp
  moreover have "map (outcome_labels \<circ> oo_key) (map (\<lambda>(k, n). \<lparr>oo_key = k, oo_occurrences = n\<rparr>) ?s) = map (outcome_labels \<circ> fst) ?s"
    by auto
  moreover have "set (map (\<lambda>(k, n). \<lparr>oo_key = k, oo_occurrences = n\<rparr>) ?s) =
      {\<lparr>oo_key = k, oo_occurrences = ?total k\<rparr> | k. k \<in> set (map oo_key samples)}"
    unfolding set_map conjunct2 [OF so] items image_items ..
  ultimately have outcomes: "\<exists>out. aggregate_operational_outcomes samples = Inr out \<and>
      sorted_wrt (<) (map (outcome_labels \<circ> oo_key) out) \<and>
      set out = {\<lparr>oo_key = k, oo_occurrences = ?total k\<rparr> | k. k \<in> set (map oo_key samples)}"
    using so by metis
  have db: "distinct (map fst ?b)" by (rule add_samples_distinct) simp
  have groups: "set ?b = {(k, filter (\<lambda>s. ux_key s = k) runs) | k. k \<in> set (map ux_key runs)}"
    by (rule set_of_items, unfold map_of_eq_Some_iff [OF db, symmetric] add_samples) auto
  note su = sorted_items [of ui_labels, OF ui_labels_inj db]
  have key: "ui_labels \<circ> ua_key \<circ> aggregate_group = ui_labels \<circ> fst" by (auto simp: aggregate_group_def)
  have "sorted_wrt (<) (map (ui_labels \<circ> ua_key) (aggregate_ui_execution_samples runs))"
    unfolding aggregate_ui_execution_samples_def label_fst map_map key using su by blast
  moreover have "set (aggregate_ui_execution_samples runs) =
      {aggregate_group (k, filter (\<lambda>s. ux_key s = k) runs) | k. k \<in> set (map ux_key runs)}"
    unfolding aggregate_ui_execution_samples_def label_fst set_map conjunct2 [OF su] groups by (rule image_items2)
  ultimately show ?thesis using outcomes by blast
qed

theorem aggregation_exact_witness:
  "\<exists>out. aggregate_operational_outcomes [\<lparr>oo_key = (PLANNER, SIGNAL_DRIFT, OUTCOME_CLEAN), oo_occurrences = 2\<rparr>,
      \<lparr>oo_key = (PLANNER, SIGNAL_DRIFT, OUTCOME_CLEAN), oo_occurrences = 3\<rparr>] = Inr out \<and>
     set out = {\<lparr>oo_key = (PLANNER, SIGNAL_DRIFT, OUTCOME_CLEAN), oo_occurrences = 5\<rparr>}"
proof -
  let ?xs = "[\<lparr>oo_key = (PLANNER, SIGNAL_DRIFT, OUTCOME_CLEAN), oo_occurrences = 2\<rparr>,
      \<lparr>oo_key = (PLANNER, SIGNAL_DRIFT, OUTCOME_CLEAN), oo_occurrences = 3\<rparr>]"
  have "list_all (\<lambda>s. outcome_sample_check s = None) ?xs" by code_simp
  from aggregation_exact [OF this, of "[]"] show ?thesis by auto
qed

end
