(* ===== verification/Worker_Protocol.thy ===== *)
theory Worker_Protocol
  imports Capability_Support
begin

text \<open>
  The typed boundary of the browser worker. \<open>planner_mcp/errors.py\<close>: the error taxonomy.
  \<open>m365_browser_worker/protocol.py\<close>: the closed operations and their request envelope.
  \<open>protocol_negotiation.py\<close>: the version handshake. \<open>worker_errors.py\<close>: the projection of errors.
  \<open>readiness.py\<close>, \<open>account_context.py\<close> and \<open>session_broker.py\<close>: when live work is admitted.
  \<open>executor.py\<close>: one active operation and a bounded queue for the browser profile, as a step relation
  over its two locks; \<open>asyncio.Lock\<close> is fair, so its waiters form a queue.

  The errors of the worker are values of \<open>wexn\<close>: an error of the taxonomy with its code, message and
  context, an \<open>HTTPException\<close> with status and detail, an exception of the control plane's modules,
  one of the worker's own sanitised exceptions with its reason, or any other.

  The results: a version is negotiated exactly when one is shared, and it is the greatest shared one; a
  projected error reveals nothing but its code's fixed policy and the operation; the broker grants exactly
  under its conditions; and at most one operation is ever active, in arrival order, with the queue bounded.
\<close>

subsection \<open>Errors\<close>

datatype wexn =
    Mcp string string json_object
  | Http int json
  | Raised exn
  | LocatorRuntimeError string string
  | DiscoveryError string
  | EmailEntryControlError string
  | LiveProbeError string
  | Uncaught

type_synonym 'a wresult = "wexn + 'a"

definition with_message :: "string \<Rightarrow> string \<Rightarrow> json_object \<Rightarrow> wexn" where
  "with_message code message context = Mcp code (if message = [] then code else message) context"

definition BlockerConditionalAccess :: "string \<Rightarrow> json_object \<Rightarrow> wexn" where
  "BlockerConditionalAccess = with_message ''BLOCKER_CONDITIONAL_ACCESS''"

definition UiContractUnattested :: "string \<Rightarrow> json_object \<Rightarrow> wexn" where
  "UiContractUnattested = with_message ''UI_CONTRACT_UNATTESTED''"

definition UiDrift :: "string \<Rightarrow> json_object \<Rightarrow> wexn" where
  "UiDrift = with_message ''UI_DRIFT''"

definition PolicyDenied :: "string \<Rightarrow> json_object \<Rightarrow> wexn" where
  "PolicyDenied = with_message ''POLICY_DENIED''"

definition WorkerUnavailable :: "string \<Rightarrow> json_object \<Rightarrow> wexn" where
  "WorkerUnavailable = with_message ''WORKER_UNAVAILABLE''"

definition WorkerBusy :: "string \<Rightarrow> json_object \<Rightarrow> wexn" where
  "WorkerBusy = with_message ''WORKER_BUSY''"

definition ProtocolIncompatible :: "string \<Rightarrow> json_object \<Rightarrow> wexn" where
  "ProtocolIncompatible = with_message ''PROTOCOL_INCOMPATIBLE''"

definition AuthRequired :: "string \<Rightarrow> json_object \<Rightarrow> wexn" where
  "AuthRequired = with_message ''AUTH_REQUIRED''"

fun error_to_dict :: "wexn \<Rightarrow> json_object" where
  "error_to_dict (Mcp code message context) =
     [(''error'', JStr code), (''message'', JStr message), (''context'', JObj context)]"
| "error_to_dict (Raised (ConfigurationError message names)) =
     [(''error'', JStr ''CONFIG_INVALID''), (''message'', JStr message),
      (''context'', JObj [(''names'', JList (map JStr names))])]"
| "error_to_dict e = []"

text \<open>\<open>except PlannerMcpError\<close>: the errors of the taxonomy, configuration errors among them (whose
  context is here the list of names it carries).\<close>

fun is_mcp_error :: "wexn \<Rightarrow> bool" where
  "is_mcp_error (Mcp code message context) = True"
| "is_mcp_error (Raised (ConfigurationError message names)) = True"
| "is_mcp_error e = False"

subsection \<open>Operations and envelopes\<close>

datatype WorkerOperation =
    OP_AUTH_STATUS | OP_AUTH_START | OP_AUTH_RESUME | OP_AUTH_SESSION
  | OP_ACCOUNT_CONTEXT | OP_ACCOUNT_LICENSE
  | OP_PLAN_LIST | OP_PLAN_GET | OP_TASK_LIST | OP_TASK_GET | OP_PROJECT_SNAPSHOT

fun worker_operation_value :: "WorkerOperation \<Rightarrow> string" where
  "worker_operation_value OP_AUTH_STATUS = ''auth.status''"
| "worker_operation_value OP_AUTH_START = ''auth.start''"
| "worker_operation_value OP_AUTH_RESUME = ''auth.resume''"
| "worker_operation_value OP_AUTH_SESSION = ''auth.session''"
| "worker_operation_value OP_ACCOUNT_CONTEXT = ''account.context''"
| "worker_operation_value OP_ACCOUNT_LICENSE = ''account.license''"
| "worker_operation_value OP_PLAN_LIST = ''planner.plan.list''"
| "worker_operation_value OP_PLAN_GET = ''planner.plan.get''"
| "worker_operation_value OP_TASK_LIST = ''planner.task.list''"
| "worker_operation_value OP_TASK_GET = ''planner.task.get''"
| "worker_operation_value OP_PROJECT_SNAPSHOT = ''planner.project.snapshot''"

definition worker_operations :: "WorkerOperation list" where
  "worker_operations = [OP_AUTH_STATUS, OP_AUTH_START, OP_AUTH_RESUME, OP_AUTH_SESSION, OP_ACCOUNT_CONTEXT,
     OP_ACCOUNT_LICENSE, OP_PLAN_LIST, OP_PLAN_GET, OP_TASK_LIST, OP_TASK_GET, OP_PROJECT_SNAPSHOT]"

definition worker_operation_of :: "string \<Rightarrow> WorkerOperation option" where
  "worker_operation_of s = find (\<lambda>x. worker_operation_value x = s) worker_operations"

datatype WorkerArguments = NoArguments | PlanArguments string | TaskArguments string

definition NO_ARGUMENT_OPERATIONS :: "WorkerOperation list" where
  "NO_ARGUMENT_OPERATIONS = [OP_AUTH_STATUS, OP_AUTH_START, OP_AUTH_RESUME, OP_AUTH_SESSION,
     OP_ACCOUNT_CONTEXT, OP_ACCOUNT_LICENSE, OP_PLAN_LIST]"

definition PLAN_ARGUMENT_OPERATIONS :: "WorkerOperation list" where
  "PLAN_ARGUMENT_OPERATIONS = [OP_PLAN_GET, OP_TASK_LIST, OP_PROJECT_SNAPSHOT]"

definition TASK_ARGUMENT_OPERATIONS :: "WorkerOperation list" where
  "TASK_ARGUMENT_OPERATIONS = [OP_TASK_GET]"

record WorkerRequestEnvelope =
  wr_request_id :: string
  wr_operation :: WorkerOperation
  wr_arguments :: WorkerArguments

fun is_plan_arguments :: "WorkerArguments \<Rightarrow> bool" where
  "is_plan_arguments (PlanArguments p) = True"
| "is_plan_arguments a = False"

fun is_task_arguments :: "WorkerArguments \<Rightarrow> bool" where
  "is_task_arguments (TaskArguments t) = True"
| "is_task_arguments a = False"

fun arguments_check :: "WorkerArguments \<Rightarrow> exn option" where
  "arguments_check NoArguments = None"
| "arguments_check (PlanArguments p) = raise_if (\<not> (1 \<le> length p \<and> length p \<le> 256)) (value_error ''plan_id'')"
| "arguments_check (TaskArguments t) = raise_if (\<not> (1 \<le> length t \<and> length t \<le> 256)) (value_error ''task_id'')"

definition validate_operation_arguments :: "WorkerRequestEnvelope \<Rightarrow> exn option" where
  "validate_operation_arguments r = first_error [
     raise_if (wr_operation r \<in> set NO_ARGUMENT_OPERATIONS \<and> wr_arguments r \<noteq> NoArguments)
       (value_error ''operation requires no arguments''),
     raise_if (wr_operation r \<in> set PLAN_ARGUMENT_OPERATIONS \<and> \<not> is_plan_arguments (wr_arguments r))
       (value_error ''operation requires plan arguments''),
     raise_if (wr_operation r \<in> set TASK_ARGUMENT_OPERATIONS \<and> \<not> is_task_arguments (wr_arguments r))
       (value_error ''operation requires task arguments'')]"

definition worker_request_check :: "WorkerRequestEnvelope \<Rightarrow> exn option" where
  "worker_request_check r = first_error [
     raise_if (\<not> (1 \<le> length (wr_request_id r) \<and> length (wr_request_id r) \<le> 128)) (value_error ''request_id''),
     arguments_check (wr_arguments r),
     validate_operation_arguments r]"

subsection \<open>Version negotiation\<close>

definition version_ok :: "string \<Rightarrow> bool" where
  "version_ok v \<longleftrightarrow> v \<noteq> [] \<and> length v \<le> 32 \<and>
     (let d = filter (\<lambda>c. c \<noteq> CHR ''.'') v in d \<noteq> [] \<and> list_all is_digit_char d)"

definition validate_versions :: "string list \<Rightarrow> string list result" where
  "validate_versions versions =
     (if \<not> (1 \<le> length versions \<and> length versions \<le> 8) then Inl (value_error ''supported_versions'')
      else if list_all version_ok versions then Inr (dedupe [] versions)
      else Inl (value_error ''protocol versions must be bounded numeric dotted strings''))"

record ProtocolNegotiator =
  ng_supported_versions :: "string list"
  ng_negotiated_version :: "string option"

record ProtocolNegotiationResponse =
  nr_compatible :: bool
  nr_negotiated_version :: "string option"
  nr_worker_supported_versions :: "string list"

definition new_negotiator :: ProtocolNegotiator where
  "new_negotiator = \<lparr>ng_supported_versions = [''1''], ng_negotiated_version = None\<rparr>"

definition protocol_compatible :: "ProtocolNegotiator \<Rightarrow> bool" where
  "protocol_compatible n \<longleftrightarrow> ng_negotiated_version n \<noteq> None"

definition reset_negotiator :: "ProtocolNegotiator \<Rightarrow> ProtocolNegotiator" where
  "reset_negotiator n = n\<lparr>ng_negotiated_version := None\<rparr>"

text \<open>\<open>tuple(int(part) for part in value.split("."))\<close>, which raises for a part that is not a number.\<close>

fun version_key :: "string list \<Rightarrow> int list option" where
  "version_key [] = Some []"
| "version_key (p # ps) = (case (py_parse_int p, version_key ps) of
     (Some i, Some is) \<Rightarrow> Some (i # is) | _ \<Rightarrow> None)"

text \<open>The shared versions form a set in the code; when several have one key, which of them \<open>max\<close>
  returns depends on the iteration order of the set, so the order is an argument: a permutation of the
  shared versions.\<close>

definition negotiate ::
  "(string list \<Rightarrow> string list) \<Rightarrow> ProtocolNegotiator \<Rightarrow> string list \<Rightarrow>
   (ProtocolNegotiationResponse \<times> ProtocolNegotiator) result" where
  "negotiate set_order n peer =
     (let mutual = set_order (filter (\<lambda>v. v \<in> set peer) (ng_supported_versions n)) in
      case mutual of
        [] \<Rightarrow> Inr (\<lparr>nr_compatible = False, nr_negotiated_version = None,
                     nr_worker_supported_versions = ng_supported_versions n\<rparr>, reset_negotiator n)
      | v # vs \<Rightarrow>
          (if list_all (\<lambda>w. version_key (split_on CHR ''.'' w) \<noteq> None) mutual
           then (let selected = max_by (\<lambda>w. the (version_key (split_on CHR ''.'' w))) v vs in
                 Inr (\<lparr>nr_compatible = True, nr_negotiated_version = Some selected,
                       nr_worker_supported_versions = ng_supported_versions n\<rparr>,
                      n\<lparr>ng_negotiated_version := Some selected\<rparr>))
           else Inl (value_error ''invalid literal for int() with base 10'')))"

subsection \<open>Projected errors\<close>

datatype WorkerErrorCode =
    CODE_WORKER_ERROR | CODE_WORKER_BUSY | CODE_WORKER_UNAVAILABLE | CODE_AUTH_REQUIRED
  | CODE_CONDITIONAL_ACCESS_BLOCKED | CODE_UI_CONTRACT_UNATTESTED | CODE_UI_DRIFT | CODE_POLICY_DENIED
  | CODE_APPROVAL_REQUIRED | CODE_PLAN_NOT_FOUND | CODE_TASK_NOT_FOUND | CODE_PROTOCOL_INCOMPATIBLE

fun worker_error_code_value :: "WorkerErrorCode \<Rightarrow> string" where
  "worker_error_code_value CODE_WORKER_ERROR = ''WORKER_ERROR''"
| "worker_error_code_value CODE_WORKER_BUSY = ''WORKER_BUSY''"
| "worker_error_code_value CODE_WORKER_UNAVAILABLE = ''WORKER_UNAVAILABLE''"
| "worker_error_code_value CODE_AUTH_REQUIRED = ''AUTH_REQUIRED''"
| "worker_error_code_value CODE_CONDITIONAL_ACCESS_BLOCKED = ''BLOCKER_CONDITIONAL_ACCESS''"
| "worker_error_code_value CODE_UI_CONTRACT_UNATTESTED = ''UI_CONTRACT_UNATTESTED''"
| "worker_error_code_value CODE_UI_DRIFT = ''UI_DRIFT''"
| "worker_error_code_value CODE_POLICY_DENIED = ''POLICY_DENIED''"
| "worker_error_code_value CODE_APPROVAL_REQUIRED = ''APPROVAL_REQUIRED''"
| "worker_error_code_value CODE_PLAN_NOT_FOUND = ''PLAN_NOT_FOUND''"
| "worker_error_code_value CODE_TASK_NOT_FOUND = ''TASK_NOT_FOUND''"
| "worker_error_code_value CODE_PROTOCOL_INCOMPATIBLE = ''PROTOCOL_INCOMPATIBLE''"

record ErrorPolicy =
  ep_code :: WorkerErrorCode
  ep_message :: string
  ep_status_code :: nat
  ep_retryable :: bool

definition error_policy :: "WorkerErrorCode \<Rightarrow> string \<Rightarrow> nat \<Rightarrow> bool \<Rightarrow> ErrorPolicy" where
  "error_policy code message status retryable =
     \<lparr>ep_code = code, ep_message = message, ep_status_code = status, ep_retryable = retryable\<rparr>"

definition ERROR_POLICIES :: "(string \<times> ErrorPolicy) list" where
  "ERROR_POLICIES = [
     (''WORKER_BUSY'', error_policy CODE_WORKER_BUSY ''Browser profile admission capacity is exhausted'' 503 True),
     (''WORKER_UNAVAILABLE'', error_policy CODE_WORKER_UNAVAILABLE ''Browser worker is unavailable'' 503 True),
     (''AUTH_REQUIRED'', error_policy CODE_AUTH_REQUIRED ''Authentication is required'' 401 False),
     (''BLOCKER_CONDITIONAL_ACCESS'', error_policy CODE_CONDITIONAL_ACCESS_BLOCKED
        ''Conditional Access blocks this operation'' 403 False),
     (''UI_CONTRACT_UNATTESTED'', error_policy CODE_UI_CONTRACT_UNATTESTED
        ''Required UI contract is not attested'' 503 False),
     (''UI_DRIFT'', error_policy CODE_UI_DRIFT ''UI drift blocks this capability'' 503 False),
     (''POLICY_DENIED'', error_policy CODE_POLICY_DENIED ''Policy denied this semantic capability'' 403 False),
     (''APPROVAL_REQUIRED'', error_policy CODE_APPROVAL_REQUIRED ''Approval is required'' 409 False),
     (''PLAN_NOT_FOUND'', error_policy CODE_PLAN_NOT_FOUND ''Planner plan was not found'' 404 False),
     (''TASK_NOT_FOUND'', error_policy CODE_TASK_NOT_FOUND ''Planner task was not found'' 404 False),
     (''PROTOCOL_INCOMPATIBLE'', error_policy CODE_PROTOCOL_INCOMPATIBLE
        ''Control-plane and worker protocol versions are incompatible'' 503 False)]"

definition DEFAULT_POLICY :: ErrorPolicy where
  "DEFAULT_POLICY = error_policy CODE_WORKER_ERROR ''Worker operation failed'' 500 False"

fun operation_scope :: "WorkerOperation \<Rightarrow> string option \<times> string option" where
  "operation_scope OP_PLAN_LIST = (Some ''planner'', Some ''plans.read'')"
| "operation_scope OP_PLAN_GET = (Some ''planner'', Some ''plans.read'')"
| "operation_scope OP_TASK_LIST = (Some ''planner'', Some ''tasks.read'')"
| "operation_scope OP_TASK_GET = (Some ''planner'', Some ''tasks.read'')"
| "operation_scope OP_PROJECT_SNAPSHOT = (Some ''planner'', Some ''project_snapshot.read'')"
| "operation_scope op1 = (None, None)"

fun source_code :: "wexn \<Rightarrow> string" where
  "source_code (Mcp code message context) = code"
| "source_code (Http status (JObj detail)) = (case map_of detail ''error'' of
     Some (JStr code) \<Rightarrow> code | _ \<Rightarrow> ''WORKER_ERROR'')"
| "source_code (Raised (ConfigurationError message names)) = ''CONFIG_INVALID''"
| "source_code e = ''WORKER_ERROR''"

record WorkerErrorEnvelope =
  we_request_id :: string
  we_operation :: WorkerOperation
  we_code :: WorkerErrorCode
  we_message :: string
  we_retryable :: bool
  we_application :: "string option"
  we_capability :: "string option"

definition project_worker_error ::
  "wexn \<Rightarrow> string \<Rightarrow> WorkerOperation \<Rightarrow> nat \<times> WorkerErrorEnvelope" where
  "project_worker_error e request_id op1 =
     (let policy = (case map_of ERROR_POLICIES (source_code e) of Some p \<Rightarrow> p | None \<Rightarrow> DEFAULT_POLICY);
          (application, capability) = operation_scope op1
      in (ep_status_code policy,
          \<lparr>we_request_id = request_id, we_operation = op1, we_code = ep_code policy,
           we_message = ep_message policy, we_retryable = ep_retryable policy,
           we_application = application, we_capability = capability\<rparr>))"

subsection \<open>Readiness\<close>

datatype ReadinessReason =
    BROWSER_NOT_STARTED | PROFILE_UNAVAILABLE | AUTH_NOT_AUTHENTICATED | READINESS_UNATTESTED
  | BROKER_UNAVAILABLE | PROTOCOL_NOT_NEGOTIATED | LOCK_UNAVAILABLE

fun readiness_reason_value :: "ReadinessReason \<Rightarrow> string" where
  "readiness_reason_value BROWSER_NOT_STARTED = ''BROWSER_NOT_STARTED''"
| "readiness_reason_value PROFILE_UNAVAILABLE = ''PROFILE_UNAVAILABLE''"
| "readiness_reason_value AUTH_NOT_AUTHENTICATED = ''AUTH_NOT_AUTHENTICATED''"
| "readiness_reason_value READINESS_UNATTESTED = ''UI_CONTRACT_UNATTESTED''"
| "readiness_reason_value BROKER_UNAVAILABLE = ''BROKER_UNAVAILABLE''"
| "readiness_reason_value PROTOCOL_NOT_NEGOTIATED = ''PROTOCOL_INCOMPATIBLE''"
| "readiness_reason_value LOCK_UNAVAILABLE = ''LOCK_UNAVAILABLE''"

record WorkerReadiness =
  rd_browser_started :: bool
  rd_profile_usable :: bool
  rd_auth_state :: AuthState
  rd_ui_contract_attested :: bool
  rd_broker_viable :: bool
  rd_protocol_compatible :: bool
  rd_lock_viable :: bool
  rd_reasons :: "ReadinessReason list"

definition readiness_ready :: "WorkerReadiness \<Rightarrow> bool" where
  "readiness_ready r \<longleftrightarrow> rd_reasons r = []"

definition readiness_to_dict :: "WorkerReadiness \<Rightarrow> json_object" where
  "readiness_to_dict r = [
     (''ready'', JBool (readiness_ready r)), (''target'', JStr ''live_m365''),
     (''browser_started'', JBool (rd_browser_started r)), (''profile_usable'', JBool (rd_profile_usable r)),
     (''auth_state'', JStr (auth_state_value (rd_auth_state r))),
     (''ui_contract_attested'', JBool (rd_ui_contract_attested r)),
     (''broker_viable'', JBool (rd_broker_viable r)),
     (''protocol_compatible'', JBool (rd_protocol_compatible r)),
     (''lock_viable'', JBool (rd_lock_viable r)),
     (''reasons'', JList (map (\<lambda>x. JStr (readiness_reason_value x)) (rd_reasons r)))]"

definition unless_reason :: "bool \<Rightarrow> ReadinessReason \<Rightarrow> ReadinessReason list" where
  "unless_reason ok r = (if ok then [] else [r])"

definition evaluate_worker_readiness ::
  "bool \<Rightarrow> bool \<Rightarrow> AuthState \<Rightarrow> bool \<Rightarrow> bool \<Rightarrow> bool \<Rightarrow> bool \<Rightarrow> WorkerReadiness" where
  "evaluate_worker_readiness started profile state attested broker protocol lock =
     \<lparr>rd_browser_started = started, rd_profile_usable = profile, rd_auth_state = state,
      rd_ui_contract_attested = attested, rd_broker_viable = broker, rd_protocol_compatible = protocol,
      rd_lock_viable = lock,
      rd_reasons =
        unless_reason started BROWSER_NOT_STARTED @ unless_reason profile PROFILE_UNAVAILABLE @
        unless_reason (state = AUTHENTICATED) AUTH_NOT_AUTHENTICATED @
        unless_reason attested READINESS_UNATTESTED @ unless_reason broker BROKER_UNAVAILABLE @
        unless_reason protocol PROTOCOL_NOT_NEGOTIATED @ unless_reason lock LOCK_UNAVAILABLE\<rparr>"

subsection \<open>Account context and session broker\<close>

datatype AccountContextState = VERIFIED | UNVERIFIED | AMBIGUOUS_ACCOUNT | WRONG_ACCOUNT | WRONG_TENANT

fun account_state_value :: "AccountContextState \<Rightarrow> string" where
  "account_state_value VERIFIED = ''VERIFIED''"
| "account_state_value UNVERIFIED = ''UNVERIFIED''"
| "account_state_value AMBIGUOUS_ACCOUNT = ''AMBIGUOUS''"
| "account_state_value WRONG_ACCOUNT = ''WRONG_ACCOUNT''"
| "account_state_value WRONG_TENANT = ''WRONG_TENANT''"

record AccountContext =
  acc_state :: AccountContextState
  acc_professional :: bool
  acc_expected_profile :: bool

definition account_valid :: "AccountContext \<Rightarrow> bool" where
  "account_valid a \<longleftrightarrow> acc_state a = VERIFIED \<and> acc_professional a \<and> acc_expected_profile a"

definition account_to_dict :: "AccountContext \<Rightarrow> json_object" where
  "account_to_dict a = [(''state'', JStr (account_state_value (acc_state a))),
     (''professional'', JBool (acc_professional a)), (''expected_profile'', JBool (acc_expected_profile a)),
     (''valid'', JBool (account_valid a))]"

definition unverified_account_context :: AccountContext where
  "unverified_account_context =
     \<lparr>acc_state = UNVERIFIED, acc_professional = False, acc_expected_profile = False\<rparr>"

text \<open>The two signals of the browser are arguments: the dedicated profile and the Planner Web surface.\<close>

definition live_account_context :: "bool \<Rightarrow> bool \<Rightarrow> AccountContext" where
  "live_account_context dedicated surface =
     (if \<not> dedicated then unverified_account_context
      else if surface then \<lparr>acc_state = VERIFIED, acc_professional = True, acc_expected_profile = True\<rparr>
      else unverified_account_context)"

record SessionCapabilityGrant =
  sg_application :: string
  sg_surface :: string
  sg_account_scope :: string
  sg_container_scope :: string
  sg_capability :: string
  sg_session_bound :: bool
  sg_account_context_verified :: bool
  sg_secret_material_exported :: bool

definition READ_ONLY_DELIVERY_CAPABILITIES :: "string list" where
  "READ_ONLY_DELIVERY_CAPABILITIES = [''plans.read'', ''tasks.read'', ''project_snapshot.read'']"

text \<open>What the broker asks its providers, at the moment it asks: whether the browser is started, the
  authentication state, the account context, the live read path, and the outcome of
  \<open>ensure_live_allowed\<close> for the capability.\<close>

record broker_view =
  bv_started :: bool
  bv_auth_state :: AuthState
  bv_account :: AccountContext
  bv_live_read_path :: bool
  bv_live_allowed :: "string \<Rightarrow> wexn option"

definition broker_viable :: "broker_view \<Rightarrow> bool" where
  "broker_viable b \<longleftrightarrow> bv_started b \<and> bv_auth_state b = AUTHENTICATED \<and> account_valid (bv_account b)"

definition is_read_only_delivery :: "string \<Rightarrow> bool" where
  "is_read_only_delivery c \<longleftrightarrow> c \<in> set READ_ONLY_DELIVERY_CAPABILITIES"

definition grant_of :: "ScopedCapability \<Rightarrow> SessionCapabilityGrant" where
  "grant_of d = \<lparr>sg_application = sc_application d, sg_surface = sc_surface d,
     sg_account_scope = sc_account_scope d, sg_container_scope = sc_container_scope d,
     sg_capability = sc_capability d, sg_session_bound = True, sg_account_context_verified = True,
     sg_secret_material_exported = False\<rparr>"

definition broker_authorize ::
  "CapabilityRegistry \<Rightarrow> broker_view \<Rightarrow> string \<Rightarrow> string \<Rightarrow> SessionCapabilityGrant wresult" where
  "broker_authorize registry b application capability =
     (let read_path = is_read_only_delivery capability \<and> bv_live_read_path b;
          definitions = filter (\<lambda>d. sc_capability d = capability) (capabilities_by_application registry application)
      in if \<not> bv_started b then Inl (WorkerUnavailable ''session broker requires a process-owned browser'' [])
      else if bv_auth_state b \<noteq> AUTHENTICATED
      then Inl (AuthRequired ''session broker requires an authenticated professional session'' [])
      else if \<not> account_valid (bv_account b) \<and> \<not> read_path
      then Inl (PolicyDenied ''professional account context is not verified''
             [(''account_context_state'', JStr (account_state_value (acc_state (bv_account b)))),
              (''professional'', JBool (acc_professional (bv_account b))),
              (''expected_profile'', JBool (acc_expected_profile (bv_account b)))])
      else case definitions of
        [d] \<Rightarrow> (case (if read_path then None else bv_live_allowed b capability) of
                  Some e \<Rightarrow> Inl e | None \<Rightarrow> Inr (grant_of d))
      | _ \<Rightarrow> Inl (WorkerUnavailable ''semantic capability is not uniquely registered''
               [(''application'', JStr application), (''capability'', JStr capability)]))"

definition broker_snapshot :: "broker_view \<Rightarrow> json_object" where
  "broker_snapshot b = [(''viable'', JBool (broker_viable b)), (''browser_started'', JBool (bv_started b)),
     (''auth_state'', JStr (auth_state_value (bv_auth_state b))),
     (''account_context'', JObj (account_to_dict (bv_account b))),
     (''secret_material_exported'', JBool False)]"

subsection \<open>Serialised execution\<close>

text \<open>The state of the executor: how many calls are admitted, whether an operation is active, who holds
  the operation lock and who waits for it in arrival order. A call is at one point of its code:
  outside, waiting for the lock, holding it before it is marked active, working, past its work, past
  its reset of the flag, and past its release of the lock with the admission still counted.\<close>

datatype call_phase = OUTSIDE | LOCK_WAITING | HOLDING | WORKING | WORKED | RELEASED | REJECTED | DONE

record 'p executor =
  ex_max_queue :: nat
  ex_admitted :: nat
  ex_active :: bool
  ex_holder :: "'p option"
  ex_waiters :: "'p list"
  ex_phase :: "'p \<Rightarrow> call_phase"

datatype 'p executor_event =
    ADMIT 'p | REJECT 'p | ACQUIRE 'p | ACTIVATE 'p | FINISH_WORK 'p | DEACTIVATE 'p | LEAVE 'p | CANCEL 'p

definition executor_init :: "nat \<Rightarrow> 'p executor" where
  "executor_init max_queue = \<lparr>ex_max_queue = max_queue, ex_admitted = 0, ex_active = False,
     ex_holder = None, ex_waiters = [], ex_phase = (\<lambda>_. OUTSIDE)\<rparr>"

definition executor_capacity :: "'p executor \<Rightarrow> nat" where
  "executor_capacity s = ex_max_queue s + 1"

definition set_phase :: "'p \<Rightarrow> call_phase \<Rightarrow> 'p executor \<Rightarrow> 'p executor" where
  "set_phase p ph s = s\<lparr>ex_phase := (ex_phase s)(p := ph)\<rparr>"

inductive executor_step :: "'p executor \<Rightarrow> 'p executor_event \<Rightarrow> 'p executor \<Rightarrow> bool" where
  admit: "ex_phase s p = OUTSIDE \<Longrightarrow> ex_admitted s < executor_capacity s \<Longrightarrow>
    executor_step s (ADMIT p)
      (set_phase p LOCK_WAITING (s\<lparr>ex_admitted := ex_admitted s + 1, ex_waiters := ex_waiters s @ [p]\<rparr>))"
| reject: "ex_phase s p = OUTSIDE \<Longrightarrow> \<not> ex_admitted s < executor_capacity s \<Longrightarrow>
    executor_step s (REJECT p) (set_phase p REJECTED s)"
| acquire: "ex_holder s = None \<Longrightarrow> ex_waiters s = p # ps \<Longrightarrow>
    executor_step s (ACQUIRE p)
      (set_phase p HOLDING (s\<lparr>ex_holder := Some p, ex_waiters := ps\<rparr>))"
| activate: "ex_phase s p = HOLDING \<Longrightarrow>
    executor_step s (ACTIVATE p) (set_phase p WORKING (s\<lparr>ex_active := True\<rparr>))"
| finish: "ex_phase s p = WORKING \<Longrightarrow> executor_step s (FINISH_WORK p) (set_phase p WORKED s)"
| deactivate: "ex_phase s p = WORKED \<Longrightarrow>
    executor_step s (DEACTIVATE p) (set_phase p RELEASED (s\<lparr>ex_active := False, ex_holder := None\<rparr>))"
| cancel: "ex_phase s p = LOCK_WAITING \<Longrightarrow>
    executor_step s (CANCEL p) (set_phase p RELEASED (s\<lparr>ex_waiters := filter (\<lambda>q. q \<noteq> p) (ex_waiters s)\<rparr>))"
| leave: "ex_phase s p = RELEASED \<Longrightarrow>
    executor_step s (LEAVE p) (set_phase p DONE (s\<lparr>ex_admitted := ex_admitted s - 1\<rparr>))"

inductive_cases executor_stepE: "executor_step s e s'"

inductive executor_run :: "nat \<Rightarrow> 'p executor_event list \<Rightarrow> 'p executor \<Rightarrow> bool" for n where
  start: "executor_run n [] (executor_init n)"
| more: "executor_run n es s \<Longrightarrow> executor_step s e s' \<Longrightarrow> executor_run n (es @ [e]) s'"

record executor_snapshot =
  es_active :: bool
  es_queued :: nat
  es_max_queue :: nat
  es_viable :: bool

definition executor_view :: "'p executor \<Rightarrow> executor_snapshot" where
  "executor_view s = \<lparr>es_active = ex_active s,
     es_queued = ex_admitted s - (if ex_active s then 1 else 0), es_max_queue = ex_max_queue s,
     es_viable = True\<rparr>"

subsection \<open>Negotiation selects the greatest shared version\<close>

abbreviation key_of :: "string \<Rightarrow> int list" where
  "key_of w \<equiv> the (version_key (split_on CHR ''.'' w))"

text \<open>After a handshake the worker is compatible exactly when some of its versions is shared with the
  peer, and the negotiated version is then a shared one whose numeric parts are greatest, in whatever
  order the set of shared versions is walked. The answer reports just that; a worker with the shipped
  versions never fails to answer.\<close>

theorem negotiation_exact:
  assumes "\<And>xs. set (set_order xs) = set xs"
  shows "(case negotiate set_order n peer of
      Inl e \<Rightarrow> (\<exists>v \<in> set (ng_supported_versions n) \<inter> set peer. version_key (split_on CHR ''.'' v) = None)
    | Inr (r, n') \<Rightarrow>
        nr_compatible r = protocol_compatible n' \<and> nr_negotiated_version r = ng_negotiated_version n' \<and>
        (protocol_compatible n' \<longleftrightarrow> set (ng_supported_versions n) \<inter> set peer \<noteq> {}) \<and>
        ng_negotiated_version n' \<in> insert None (Some ` {v \<in> set (ng_supported_versions n) \<inter> set peer.
            \<forall>w \<in> set (ng_supported_versions n) \<inter> set peer. key_of w \<le> key_of v})) \<and>
    (ng_supported_versions n = [''1''] \<longrightarrow> (\<exists>r. negotiate set_order n peer = Inr r))"
proof -
  let ?M = "filter (\<lambda>v. v \<in> set peer) (ng_supported_versions n)"
  have M: "set (set_order ?M) = set (ng_supported_versions n) \<inter> set peer" using assms by auto
  show ?thesis
  proof (cases "set_order ?M")
    case Nil
    then have "negotiate set_order n peer = Inr (\<lparr>nr_compatible = False, nr_negotiated_version = None,
        nr_worker_supported_versions = ng_supported_versions n\<rparr>, reset_negotiator n)"
      by (simp add: negotiate_def)
    with M Nil show ?thesis by (simp add: reset_negotiator_def protocol_compatible_def)
  next
    case (Cons v vs)
    let ?sel = "max_by key_of v vs"
    from max_by_in [of key_of v vs] have i: "?sel \<in> set (ng_supported_versions n) \<inter> set peer"
      using M Cons by auto
    have g: "key_of w \<le> key_of ?sel" if "w \<in> set (ng_supported_versions n) \<inter> set peer" for w
      using max_by_ge [of w v vs key_of] that M Cons by auto
    have one: "version_key (split_on CHR ''.'' ''1'') \<noteq> None" by code_simp
    have ok: "list_all (\<lambda>w. version_key (split_on CHR ''.'' w) \<noteq> None) (v # vs)"
      if "ng_supported_versions n = [''1'']"
    proof -
      from M Cons that have "w = ''1''" if "w \<in> set (v # vs)" for w using that by auto
      with one show ?thesis unfolding list_all_iff by metis
    qed
    have d: "negotiate set_order n peer =
        (if list_all (\<lambda>w. version_key (split_on CHR ''.'' w) \<noteq> None) (v # vs)
         then Inr (\<lparr>nr_compatible = True, nr_negotiated_version = Some ?sel,
                nr_worker_supported_versions = ng_supported_versions n\<rparr>,
              n\<lparr>ng_negotiated_version := Some ?sel\<rparr>)
         else Inl (value_error ''invalid literal for int() with base 10''))"
      unfolding negotiate_def Let_def Cons list.case by (rule refl)
    show ?thesis
    proof (cases "list_all (\<lambda>w. version_key (split_on CHR ''.'' w) \<noteq> None) (v # vs)")
      case True
      from i g show ?thesis unfolding d if_P [OF True] by (auto simp: protocol_compatible_def)
    next
      case False
      then obtain w where "w \<in> set (v # vs)" "version_key (split_on CHR ''.'' w) = None"
        by (auto simp: list_all_iff)
      with M Cons have "\<exists>v \<in> set (ng_supported_versions n) \<inter> set peer. version_key (split_on CHR ''.'' v) = None"
        by auto
      with False ok show ?thesis unfolding d if_not_P [OF False] by auto
    qed
  qed
qed

theorem negotiation_exact_witness:
  "protocol_compatible (snd (case negotiate rev new_negotiator [''2'', ''1''] of Inr q \<Rightarrow> q)) \<and>
   set [''1''] \<inter> set [''2'', ''1''] \<noteq> {}"
  using negotiation_exact [of rev new_negotiator "[''2'', ''1'']"]
  by (auto simp: new_negotiator_def)

text \<open>A projected error always fits the bounds of its envelope, and what it says depends on nothing but
  the code of the source error: no message, context or detail crosses the boundary.\<close>

lemma projected_error_bounded:
  "case project_worker_error e i x of (status, w) \<Rightarrow>
     status \<in> {401, 403, 404, 409, 500, 503} \<and> 1 \<le> length (we_message w) \<and> length (we_message w) \<le> 160 \<and>
     (case we_capability w of None \<Rightarrow> True | Some c \<Rightarrow> length c \<le> 128) \<and>
     we_request_id w = i \<and> we_operation w = x"
proof -
  have p: "list_all (\<lambda>(k, p). ep_status_code p \<in> {401, 403, 404, 409, 500, 503} \<and>
      1 \<le> length (ep_message p) \<and> length (ep_message p) \<le> 160) ((''WORKER_ERROR'', DEFAULT_POLICY) # ERROR_POLICIES)"
    by (simp add: ERROR_POLICIES_def DEFAULT_POLICY_def error_policy_def)
  have s: "case snd (operation_scope x) of None \<Rightarrow> True | Some c \<Rightarrow> length c \<le> 128" by (cases x) auto
  let ?p = "case map_of ERROR_POLICIES (source_code e) of Some p \<Rightarrow> p | None \<Rightarrow> DEFAULT_POLICY"
  have "\<exists>k. (k, ?p) \<in> set ((''WORKER_ERROR'', DEFAULT_POLICY) # ERROR_POLICIES)"
    by (cases "map_of ERROR_POLICIES (source_code e)") (auto dest: map_of_SomeD)
  with p s show ?thesis
    by (auto simp: project_worker_error_def Let_def list_all_iff split: prod.splits)
qed

lemma projected_error_closed:
  "project_worker_error (Mcp code m c) i x = project_worker_error (Mcp code m' c') i x"
  "project_worker_error (Http st (JObj [(''error'', JStr code)])) i x = project_worker_error (Mcp code m c) i x"
  by (simp_all add: project_worker_error_def)

subsection \<open>The broker\<close>

text \<open>The broker grants a capability exactly when the browser is started, the session authenticated, the
  account context verified or the capability one of the three reads over a live path, the capability
  uniquely registered for the application, and, unless it is such a read, live use is allowed; the grant
  then names that one registration and exports no secret.\<close>

theorem broker_grants_exact:
  "broker_authorize registry b application capability = Inr g \<longleftrightarrow>
     bv_started b \<and> bv_auth_state b = AUTHENTICATED \<and>
     (let read_path = capability \<in> {''plans.read'', ''tasks.read'', ''project_snapshot.read''} \<and> bv_live_read_path b in
       (account_valid (bv_account b) \<or> read_path) \<and> (read_path \<or> bv_live_allowed b capability = None)) \<and>
     (\<exists>d. filter (\<lambda>d. sc_capability d = capability) (capabilities_by_application registry application) = [d] \<and>
        g = grant_of d)"
  by (auto simp: broker_authorize_def Let_def is_read_only_delivery_def READ_ONLY_DELIVERY_CAPABILITIES_def
      split: list.splits option.splits if_splits)

subsection \<open>The executor serialises\<close>

definition busy :: "call_phase \<Rightarrow> bool" where
  "busy ph \<longleftrightarrow> ph \<in> {HOLDING, WORKING, WORKED}"

definition counted :: "call_phase \<Rightarrow> bool" where
  "counted ph \<longleftrightarrow> ph \<in> {LOCK_WAITING, HOLDING, WORKING, WORKED, RELEASED}"

lemma phase_simps [simp]:
  "busy HOLDING" "busy WORKING" "busy WORKED" "\<not> busy OUTSIDE" "\<not> busy LOCK_WAITING" "\<not> busy RELEASED"
  "\<not> busy REJECTED" "\<not> busy DONE"
  "counted LOCK_WAITING" "counted HOLDING" "counted WORKING" "counted WORKED" "counted RELEASED"
  "\<not> counted OUTSIDE" "\<not> counted REJECTED" "\<not> counted DONE"
  by (simp_all add: busy_def counted_def)

lemma busy_counted: "busy ph \<Longrightarrow> counted ph" by (cases ph) auto

definition members :: "'p executor \<Rightarrow> 'p set" where
  "members s = {p. counted (ex_phase s p)}"

fun admissions :: "'p executor_event list \<Rightarrow> 'p list" where
  "admissions [] = []"
| "admissions (ADMIT p # es) = p # admissions es"
| "admissions (e # es) = admissions es"

fun acquisitions :: "'p executor_event list \<Rightarrow> 'p list" where
  "acquisitions [] = []"
| "acquisitions (ACQUIRE p # es) = p # acquisitions es"
| "acquisitions (e # es) = acquisitions es"

fun cancellations :: "'p executor_event list \<Rightarrow> 'p list" where
  "cancellations [] = []"
| "cancellations (CANCEL p # es) = p # cancellations es"
| "cancellations (e # es) = cancellations es"

lemma events_append [simp]:
  "admissions (es @ fs) = admissions es @ admissions fs"
  "acquisitions (es @ fs) = acquisitions es @ acquisitions fs"
  "cancellations (es @ fs) = cancellations es @ cancellations fs"
proof -
  show "admissions (es @ fs) = admissions es @ admissions fs"
    by (induction es rule: admissions.induct) auto
  show "acquisitions (es @ fs) = acquisitions es @ acquisitions fs"
    by (induction es rule: acquisitions.induct) auto
  show "cancellations (es @ fs) = cancellations es @ cancellations fs"
    by (induction es rule: cancellations.induct) auto
qed

lemma set_phase_simps [simp]:
  "ex_phase (set_phase p ph s) = (ex_phase s)(p := ph)" "ex_waiters (set_phase p ph s) = ex_waiters s"
  "ex_holder (set_phase p ph s) = ex_holder s" "ex_active (set_phase p ph s) = ex_active s"
  "ex_admitted (set_phase p ph s) = ex_admitted s" "ex_max_queue (set_phase p ph s) = ex_max_queue s"
  by (simp_all add: set_phase_def)

text \<open>The invariant in two parts: the lock with its queue, and the admission count.\<close>

definition lock_ok :: "'p executor \<Rightarrow> bool" where
  "lock_ok s \<longleftrightarrow> distinct (ex_waiters s) \<and> set (ex_waiters s) = {p. ex_phase s p = LOCK_WAITING} \<and>
     (\<forall>p. ex_holder s = Some p \<longleftrightarrow> busy (ex_phase s p)) \<and>
     (ex_active s \<longleftrightarrow> (case ex_holder s of None \<Rightarrow> False | Some p \<Rightarrow> ex_phase s p \<noteq> HOLDING))"

definition count_ok :: "nat \<Rightarrow> 'p executor \<Rightarrow> bool" where
  "count_ok n s \<longleftrightarrow> ex_max_queue s = n \<and> finite (members s) \<and> ex_admitted s = card (members s) \<and>
     ex_admitted s \<le> n + 1"

lemma members_set_phase:
  "members (set_phase p ph s) = (if counted ph then insert p (members s) else members s - {p})"
  by (auto simp: members_def)

lemma members_update [simp]:
  "members (s\<lparr>ex_admitted := a\<rparr>) = members s" "members (s\<lparr>ex_waiters := w\<rparr>) = members s"
  "members (s\<lparr>ex_holder := h\<rparr>) = members s" "members (s\<lparr>ex_active := b\<rparr>) = members s"
  by (simp_all add: members_def)

lemma in_members: "p \<in> members s \<longleftrightarrow> counted (ex_phase s p)"
  by (simp add: members_def)

lemma executor_init_ok: "lock_ok (executor_init n)" "count_ok n (executor_init n)"
  by (simp_all add: lock_ok_def count_ok_def executor_init_def members_def)

lemma waiting_if_queued: "lock_ok s \<Longrightarrow> ex_waiters s = p # ps \<Longrightarrow> ex_phase s p = LOCK_WAITING"
  by (auto simp: lock_ok_def)

lemma count_ok_step: "executor_step s e s' \<Longrightarrow> lock_ok s \<Longrightarrow> count_ok n s \<Longrightarrow> count_ok n s'"
proof (induction rule: executor_step.induct)
  case (acquire s p ps)
  then have "ex_phase s p = LOCK_WAITING" by (simp add: waiting_if_queued)
  with acquire show ?case by (auto simp: count_ok_def members_set_phase in_members insert_absorb)
qed (auto simp: count_ok_def members_set_phase in_members insert_absorb executor_capacity_def
    Diff_insert_absorb)

lemma holder_iff: "lock_ok s \<Longrightarrow> busy (ex_phase s p) \<longleftrightarrow> ex_holder s = Some p"
  by (simp add: lock_ok_def)

lemma lock_ok_step: "executor_step s e s' \<Longrightarrow> lock_ok s \<Longrightarrow> lock_ok s'"
proof (induction rule: executor_step.induct)
  case (acquire s p ps)
  then have "ex_phase s p = LOCK_WAITING" by (simp add: waiting_if_queued)
  with acquire show ?case by (auto simp: lock_ok_def split: option.splits)
next
  case (activate s p)
  then have "ex_holder s = Some p" using holder_iff [of s p] by simp
  with activate show ?case by (auto simp: lock_ok_def)
next
  case (finish s p)
  then have "ex_holder s = Some p" using holder_iff [of s p] by simp
  with finish show ?case by (auto simp: lock_ok_def)
next
  case (deactivate s p)
  then have "ex_holder s = Some p" using holder_iff [of s p] by simp
  with deactivate show ?case by (auto simp: lock_ok_def)
next
  case (admit s p)
  then show ?case by (cases "ex_holder s") (auto simp: lock_ok_def)
next
  case (reject s p)
  then show ?case by (cases "ex_holder s") (auto simp: lock_ok_def)
next
  case (cancel s p)
  then show ?case by (cases "ex_holder s") (auto simp: lock_ok_def)
next
  case (leave s p)
  then show ?case by (cases "ex_holder s") (auto simp: lock_ok_def)
qed

lemma executor_run_ok: "executor_run n es s \<Longrightarrow> lock_ok s \<and> count_ok n s"
  by (induction rule: executor_run.induct)
    (auto simp: executor_init_ok intro: lock_ok_step count_ok_step)

text \<open>Calls take the lock in the order they were admitted.\<close>

definition queue_ok :: "'p executor_event list \<Rightarrow> 'p executor \<Rightarrow> bool" where
  "queue_ok es s \<longleftrightarrow> distinct (admissions es) \<and> (\<forall>p \<in> set (admissions es). ex_phase s p \<noteq> OUTSIDE) \<and>
     set (acquisitions es) \<inter> {p. ex_phase s p = OUTSIDE \<or> ex_phase s p = LOCK_WAITING} = {} \<and>
     set (cancellations es) \<inter> {p. ex_phase s p = OUTSIDE \<or> ex_phase s p = LOCK_WAITING} = {} \<and>
     acquisitions es @ ex_waiters s = filter (\<lambda>p. p \<notin> set (cancellations es)) (admissions es)"

lemma filter_id_disjoint: "set xs \<inter> A = {} \<Longrightarrow> filter (\<lambda>p. p \<notin> A) xs = xs"
  by (induction xs) auto

lemma queue_ok_step:
  "executor_step s e s' \<Longrightarrow> lock_ok s \<Longrightarrow> queue_ok es s \<Longrightarrow> queue_ok (es @ [e]) s'"
proof (induction rule: executor_step.induct)
  case (admit s p)
  then have "p \<notin> set (admissions es)" "p \<notin> set (cancellations es)" by (auto simp: queue_ok_def)
  with admit show ?case by (auto simp: queue_ok_def)
next
  case (acquire s p ps)
  then have "ex_phase s p = LOCK_WAITING" by (simp add: waiting_if_queued)
  with acquire show ?case by (auto simp: queue_ok_def)
next
  case (cancel s p)
  then have p: "p \<notin> set (acquisitions es)" by (auto simp: queue_ok_def)
  have "filter (\<lambda>q. q \<noteq> p) (acquisitions es @ ex_waiters s) =
      filter (\<lambda>q. q \<notin> set (cancellations es) \<and> q \<noteq> p) (admissions es)"
    using cancel by (simp add: queue_ok_def conj_commute)
  moreover have "filter (\<lambda>q. q \<noteq> p) (acquisitions es) = acquisitions es"
    using p by (induction "acquisitions es") (auto simp: filter_id_conv)
  ultimately show ?case using cancel by (auto simp: queue_ok_def conj_commute)
qed (auto simp: queue_ok_def)

lemma executor_run_queue: "executor_run n es s \<Longrightarrow> queue_ok es s"
proof (induction rule: executor_run.induct)
  case start
  show ?case by (simp add: queue_ok_def executor_init_def)
next
  case (more es s e s')
  then show ?case by (blast intro: queue_ok_step dest: executor_run_ok)
qed

lemma executor_progress:
  assumes "lock_ok s" "counted (ex_phase s p)"
  shows "\<exists>q s'. (\<exists>e \<in> {ACQUIRE q, ACTIVATE q, FINISH_WORK q, DEACTIVATE q, LEAVE q}. executor_step s e s')"
proof -
  have step: "\<exists>e \<in> {ACQUIRE q, ACTIVATE q, FINISH_WORK q, DEACTIVATE q, LEAVE q}. \<exists>s'. executor_step s e s'"
    if "busy (ex_phase s q)" for q
    using that by (cases "ex_phase s q") (auto intro: activate finish deactivate)
  show ?thesis
  proof (cases "ex_phase s p")
    case LOCK_WAITING
    show ?thesis
    proof (cases "ex_holder s")
      case None
      from LOCK_WAITING assms(1) have "p \<in> set (ex_waiters s)" by (simp add: lock_ok_def)
      then obtain w ws where "ex_waiters s = w # ws" by (cases "ex_waiters s") auto
      with None show ?thesis by (blast intro: acquire)
    next
      case (Some h)
      with assms(1) have "busy (ex_phase s h)" by (simp add: holder_iff)
      with step show ?thesis by blast
    qed
  next
    case RELEASED
    then show ?thesis by (blast intro: leave)
  qed (use assms step [of p] in auto)
qed

text \<open>C18. In every run of the executor, whatever the interleaving: at most one call holds the profile, and
  exactly while it works the executor is marked active; the number of admitted calls is the count and
  never exceeds the queue bound plus one; calls take the lock in the order they were admitted, apart from
  those cancelled while they waited; and as long as a call is inside, some call can take its next step.\<close>

theorem executor_serialises:
  assumes "executor_run n es s"
  shows "(\<forall>p q. busy (ex_phase s p) \<longrightarrow> busy (ex_phase s q) \<longrightarrow> p = q) \<and>
    (ex_active s \<longleftrightarrow> (\<exists>p. ex_phase s p = WORKING \<or> ex_phase s p = WORKED)) \<and>
    ex_admitted s = card {p. counted (ex_phase s p)} \<and> ex_admitted s \<le> n + 1 \<and>
    acquisitions es @ ex_waiters s = filter (\<lambda>p. p \<notin> set (cancellations es)) (admissions es) \<and>
    (\<forall>p. counted (ex_phase s p) \<longrightarrow>
       (\<exists>q s'. \<exists>e \<in> {ACQUIRE q, ACTIVATE q, FINISH_WORK q, DEACTIVATE q, LEAVE q}. executor_step s e s'))"
proof (intro conjI)
  from executor_run_ok [OF assms] have l: "lock_ok s" and c: "count_ok n s" by simp_all
  show "\<forall>p q. busy (ex_phase s p) \<longrightarrow> busy (ex_phase s q) \<longrightarrow> p = q"
    using l by (auto simp: holder_iff)
  show "ex_active s \<longleftrightarrow> (\<exists>p. ex_phase s p = WORKING \<or> ex_phase s p = WORKED)"
  proof (cases "ex_holder s")
    case None
    with l have "\<not> busy (ex_phase s p)" for p by (simp add: holder_iff)
    then have "ex_phase s p \<noteq> WORKING \<and> ex_phase s p \<noteq> WORKED" for p by (metis phase_simps(2,3))
    with l None show ?thesis by (simp add: lock_ok_def)
  next
    case (Some h)
    with l have "busy (ex_phase s h)" "\<And>p. busy (ex_phase s p) \<Longrightarrow> p = h" by (auto simp: holder_iff)
    moreover from this(1) have "ex_phase s h \<noteq> HOLDING \<longleftrightarrow> ex_phase s h = WORKING \<or> ex_phase s h = WORKED"
      by (auto simp: busy_def)
    moreover from l Some have "ex_active s \<longleftrightarrow> ex_phase s h \<noteq> HOLDING" by (simp add: lock_ok_def)
    ultimately show ?thesis by (metis phase_simps(2,3))
  qed
  show "ex_admitted s = card {p. counted (ex_phase s p)}" "ex_admitted s \<le> n + 1"
    using c by (simp_all add: count_ok_def members_def)
  show "acquisitions es @ ex_waiters s = filter (\<lambda>p. p \<notin> set (cancellations es)) (admissions es)"
    using executor_run_queue [OF assms] by (simp add: queue_ok_def)
  show "\<forall>p. counted (ex_phase s p) \<longrightarrow>
       (\<exists>q s'. \<exists>e \<in> {ACQUIRE q, ACTIVATE q, FINISH_WORK q, DEACTIVATE q, LEAVE q}. executor_step s e s')"
    using executor_progress [OF l] by blast
qed

theorem executor_serialises_witness:
  "\<exists>s. executor_run 1 [ADMIT (0::nat), ADMIT 1, REJECT 2, ACQUIRE 0, ACTIVATE 0] s \<and>
     ex_active s \<and> ex_admitted s \<le> 2 \<and> ex_waiters s = [1] \<and>
     (\<forall>p q. busy (ex_phase s p) \<longrightarrow> busy (ex_phase s q) \<longrightarrow> p = q)"
proof -
  let ?a = "executor_init 1 :: nat executor"
  let ?b = "set_phase 0 LOCK_WAITING (?a\<lparr>ex_admitted := ex_admitted ?a + 1, ex_waiters := ex_waiters ?a @ [0]\<rparr>)"
  let ?c = "set_phase 1 LOCK_WAITING (?b\<lparr>ex_admitted := ex_admitted ?b + 1, ex_waiters := ex_waiters ?b @ [1]\<rparr>)"
  let ?d = "set_phase 2 REJECTED ?c"
  let ?e = "set_phase 0 HOLDING (?d\<lparr>ex_holder := Some 0, ex_waiters := [1]\<rparr>)"
  let ?f = "set_phase 0 WORKING (?e\<lparr>ex_active := True\<rparr>)"
  have "executor_run 1 ([] @ [ADMIT 0]) ?b"
    by (rule executor_run.more [OF executor_run.start], rule admit) (simp_all add: executor_init_def executor_capacity_def)
  then have "executor_run 1 (([] @ [ADMIT 0]) @ [ADMIT 1]) ?c"
    by (rule executor_run.more, intro admit) (simp_all add: executor_init_def executor_capacity_def)
  then have "executor_run 1 ((([] @ [ADMIT 0]) @ [ADMIT 1]) @ [REJECT 2]) ?d"
    by (rule executor_run.more, intro reject) (simp_all add: executor_init_def executor_capacity_def)
  then have "executor_run 1 (((([] @ [ADMIT 0]) @ [ADMIT 1]) @ [REJECT 2]) @ [ACQUIRE 0]) ?e"
    by (rule executor_run.more, intro acquire) (simp_all add: executor_init_def)
  then have "executor_run 1 ((((([] @ [ADMIT 0]) @ [ADMIT 1]) @ [REJECT 2]) @ [ACQUIRE 0]) @ [ACTIVATE 0]) ?f"
    by (rule executor_run.more, intro activate) simp
  then have r: "executor_run 1 [ADMIT (0::nat), ADMIT 1, REJECT 2, ACQUIRE 0, ACTIVATE 0] ?f" by simp
  note all = executor_serialises [OF r]
  show ?thesis
  proof (rule exI [of _ ?f], intro conjI)
    show "executor_run 1 [ADMIT (0::nat), ADMIT 1, REJECT 2, ACQUIRE 0, ACTIVATE 0] ?f" by (rule r)
    show "ex_active ?f" by simp
    show "ex_admitted ?f \<le> 2" using all [THEN conjunct2, THEN conjunct2, THEN conjunct2, THEN conjunct1]
      by (simp only: one_add_one)
    show "ex_waiters ?f = [1]" by simp
    show "\<forall>p q. busy (ex_phase ?f p) \<longrightarrow> busy (ex_phase ?f q) \<longrightarrow> p = q"
      by (rule all [THEN conjunct1])
  qed
qed

end
