(* ===== verification/Browser_Policy.thy ===== *)
theory Browser_Policy
  imports Config Ui_Contracts
begin

text \<open>
  Where the browser worker may go. \<open>m365_browser_worker/egress.py\<close>: the closed outbound policy.
  \<open>auth_bootstrap.py\<close>: the classification of the open pages and the guard of the authentication
  bootstrap. \<open>bootstrap_navigation.py\<close>: the fixed targets, the validator of the one override, the
  loopback check and the classification of the pages sign-in may begin from.

  \<open>url_split\<close> is \<open>urllib.parse.urlsplit\<close> of CPython 3.12 (with its checks of bracketed hosts),
  on strings of code points below 256, for which its Unicode normalisation check never fails.

  The results: which requests leave the browser, that the bootstrap target is an approved Planner page
  whatever the override is, and what the page classifications accept.
\<close>

subsection \<open>Splitting a URL\<close>

record url_parts =
  up_scheme :: string
  up_netloc :: string
  up_path :: string
  up_query :: string
  up_fragment :: string

text \<open>\<open>str.partition\<close> on one character and \<open>str.rpartition\<close>'s last part.\<close>

definition before :: "char \<Rightarrow> string \<Rightarrow> string" where
  "before c s = takeWhile (\<lambda>x. x \<noteq> c) s"

definition after :: "char \<Rightarrow> string \<Rightarrow> string" where
  "after c s = drop 1 (dropWhile (\<lambda>x. x \<noteq> c) s)"

definition after_last :: "char \<Rightarrow> string \<Rightarrow> string" where
  "after_last c s = rev (takeWhile (\<lambda>x. x \<noteq> c) (rev s))"

definition url_lstrip :: "string \<Rightarrow> string" where
  "url_lstrip s = dropWhile (\<lambda>c. (of_char c :: nat) \<le> 32) s"

definition drop_unsafe :: "string \<Rightarrow> string" where
  "drop_unsafe s = filter (\<lambda>c. (of_char c :: nat) \<notin> {9, 10, 13}) s"

definition ascii_letter :: "char \<Rightarrow> bool" where
  "ascii_letter c = (let n = (of_char c :: nat) in (65 \<le> n \<and> n \<le> 90) \<or> (97 \<le> n \<and> n \<le> 122))"

definition ascii_digit :: "char \<Rightarrow> bool" where
  "ascii_digit c = (let n = (of_char c :: nat) in 48 \<le> n \<and> n \<le> 57)"

definition scheme_char :: "char \<Rightarrow> bool" where
  "scheme_char c \<longleftrightarrow> ascii_letter c \<or> ascii_digit c \<or> c \<in> set ''+-.''"

text \<open>The scheme and the rest, before the authority is looked at.\<close>

definition split_scheme :: "string \<Rightarrow> string \<times> string" where
  "split_scheme s = (if CHR '':'' \<in> set s \<and> before CHR '':'' s \<noteq> [] \<and> ascii_letter (hd s) \<and>
       list_all scheme_char (before CHR '':'' s)
     then (lower (before CHR '':'' s), after CHR '':'' s) else ([], s))"

definition hex_char :: "char \<Rightarrow> bool" where
  "hex_char c = (let n = (of_char c :: nat) in
     ascii_digit c \<or> (65 \<le> n \<and> n \<le> 70) \<or> (97 \<le> n \<and> n \<le> 102))"

text \<open>\<open>ipaddress.IPv4Address\<close> and \<open>ipaddress.IPv6Address\<close> as acceptors.\<close>

definition ipv4_octet :: "string \<Rightarrow> bool" where
  "ipv4_octet o1 \<longleftrightarrow> o1 \<noteq> [] \<and> list_all ascii_digit o1 \<and> length o1 \<le> 3 \<and>
     (o1 = ''0'' \<or> hd o1 \<noteq> CHR ''0'') \<and>
     foldl (\<lambda>a c. 10 * a + (of_char c - 48)) (0 :: int) o1 \<le> 255"

definition ipv4_address :: "string \<Rightarrow> bool" where
  "ipv4_address s \<longleftrightarrow> length (split_on CHR ''.'' s) = 4 \<and> list_all ipv4_octet (split_on CHR ''.'' s)"

definition hextet :: "string \<Rightarrow> bool" where
  "hextet h \<longleftrightarrow> h \<noteq> [] \<and> length h \<le> 4 \<and> list_all hex_char h"

definition empty_inner :: "string list \<Rightarrow> nat list" where
  "empty_inner ps = filter (\<lambda>i. ps ! i = []) [1..<length ps - 1]"

definition ipv6_parts :: "string list \<Rightarrow> bool" where
  "ipv6_parts ps \<longleftrightarrow> length ps \<le> 9 \<and> length (empty_inner ps) \<le> 1 \<and>
     (case empty_inner ps of
        [] \<Rightarrow> length ps = 8 \<and> list_all hextet ps
      | k # ks \<Rightarrow>
          (let hi = take k ps; lo = drop (k + 1) ps;
               hi' = (if hd hi = [] then tl hi else hi); lo' = (if last lo = [] then butlast lo else lo)
           in (hd hi = [] \<longrightarrow> hi' = []) \<and> (last lo = [] \<longrightarrow> lo' = []) \<and>
              length hi' + length lo' < 8 \<and> list_all hextet hi' \<and> list_all hextet lo'))"

definition ipv6_address :: "string \<Rightarrow> bool" where
  "ipv6_address s \<longleftrightarrow>
     CHR ''/'' \<notin> set s \<and> (CHR ''%'' \<in> set s \<longrightarrow> after CHR ''%'' s \<noteq> [] \<and> CHR ''%'' \<notin> set (after CHR ''%'' s)) \<and>
     (let ps = split_on CHR '':'' (before CHR ''%'' s) in 3 \<le> length ps \<and>
        (if CHR ''.'' \<in> set (last ps)
         then ipv4_address (last ps) \<and> ipv6_parts (butlast ps @ [''0'', ''0''])
         else ipv6_parts ps))"

text \<open>\<open>_check_bracketed_netloc\<close>: nothing before the bracket, only a port after it, and an IPvFuture or
  IPv6 address between.\<close>

definition ipvfuture :: "string \<Rightarrow> bool" where
  "ipvfuture s \<longleftrightarrow> (case s of [] \<Rightarrow> False | v # r \<Rightarrow> v = CHR ''v'' \<and> before CHR ''.'' r \<noteq> [] \<and>
     list_all hex_char (before CHR ''.'' r) \<and> after CHR ''.'' r \<noteq> [] \<and> CHR 0x0A \<notin> set (after CHR ''.'' r))"

definition bracketed_host_ok :: "string \<Rightarrow> bool" where
  "bracketed_host_ok h = (if h \<noteq> [] \<and> hd h = CHR ''v'' then ipvfuture h else ipv6_address h)"

definition bracketed_netloc_ok :: "string \<Rightarrow> bool" where
  "bracketed_netloc_ok netloc = (let h = after_last CHR ''@'' netloc in
     if CHR ''['' \<in> set h
     then before CHR ''['' h = [] \<and>
          (let port = after CHR '']'' (after CHR ''['' h) in port = [] \<or> hd port = CHR '':'') \<and>
          bracketed_host_ok (before CHR '']'' (after CHR ''['' h))
     else bracketed_host_ok (before CHR '':'' h))"

definition netloc_ok :: "string \<Rightarrow> bool" where
  "netloc_ok n \<longleftrightarrow> (CHR ''['' \<in> set n \<longleftrightarrow> CHR '']'' \<in> set n) \<and>
     (CHR ''['' \<in> set n \<longrightarrow> bracketed_netloc_ok n)"

definition url_split :: "string \<Rightarrow> url_parts result" where
  "url_split url =
     (let (scheme, rest) = split_scheme (drop_unsafe (url_lstrip url));
          has_netloc = (take 2 rest = ''//'');
          netloc = (if has_netloc then takeWhile (\<lambda>c. c \<notin> set ''/?#'') (drop 2 rest) else []);
          tail0 = (if has_netloc then dropWhile (\<lambda>c. c \<notin> set ''/?#'') (drop 2 rest) else rest);
          no_fragment = before CHR ''#'' tail0
      in if \<not> netloc_ok netloc then Inl (value_error ''Invalid IPv6 URL'')
         else Inr \<lparr>up_scheme = scheme, up_netloc = netloc, up_path = before CHR ''?'' no_fragment,
                   up_query = after CHR ''?'' no_fragment, up_fragment = after CHR ''#'' tail0\<rparr>)"

text \<open>The property \<open>hostname\<close>, with \<open>None\<close> as the empty string its users turn it into.\<close>

definition netloc_host :: "string \<Rightarrow> string" where
  "netloc_host netloc = (let h = after_last CHR ''@'' netloc in
     if CHR ''['' \<in> set h then before CHR '']'' (after CHR ''['' h) else before CHR '':'' h)"

definition url_hostname :: "url_parts \<Rightarrow> string" where
  "url_hostname u = (let h = netloc_host (up_netloc u) in
     lower (before CHR ''%'' h) @ dropWhile (\<lambda>c. c \<noteq> CHR ''%'') h)"

definition normal_host :: "url_parts \<Rightarrow> string" where
  "normal_host u = rstrip_char CHR ''.'' (lower (url_hostname u))"

lemma url_split_examples:
  "url_split ''https://planner.cloud.microsoft/webui/plan/x?a=1#f'' =
     Inr \<lparr>up_scheme = ''https'', up_netloc = ''planner.cloud.microsoft'', up_path = ''/webui/plan/x'',
          up_query = ''a=1'', up_fragment = ''f''\<rparr>"
  "url_split ''https://['' = Inl (value_error ''Invalid IPv6 URL'')"
  "bracketed_host_ok ''::1''" "\<not> bracketed_host_ok ''1::2::3''" "bracketed_host_ok ''::ffff:1.2.3.4''"
  by code_simp+

subsection \<open>Outbound requests\<close>

definition ALLOWED_HOST_SUFFIXES :: "string list" where
  "ALLOWED_HOST_SUFFIXES = [''cloud.microsoft'', ''microsoft.com'', ''microsoft365.com'',
     ''microsoftonline.com'', ''microsoftonline-p.com'', ''office.com'', ''office.net'', ''office365.com'',
     ''sharepoint.com'', ''live.com'', ''msauth.net'', ''msftauth.net'', ''windows.net'', ''azureedge.net'']"

definition DENIED_API_HOSTS :: "string list" where
  "DENIED_API_HOSTS = [''graph.microsoft.com'', ''api.office.com'']"

definition DENIED_API_HOST_PREFIXES :: "string list" where
  "DENIED_API_HOST_PREFIXES = [''graph.'']"

record EgressDecision =
  ed_allowed :: bool
  ed_reason :: string

definition decision :: "bool \<Rightarrow> string \<Rightarrow> EgressDecision" where
  "decision ok why = \<lparr>ed_allowed = ok, ed_reason = why\<rparr>"

definition host_matches :: "string \<Rightarrow> string \<Rightarrow> bool" where
  "host_matches hostname sfx \<longleftrightarrow> hostname = sfx \<or> suffix (CHR ''.'' # sfx) hostname"

definition under_any :: "string list \<Rightarrow> string \<Rightarrow> bool" where
  "under_any sfxs hostname = list_ex (host_matches hostname) sfxs"

definition evaluate_browser_egress :: "string \<Rightarrow> EgressDecision result" where
  "evaluate_browser_egress url = bindE (url_split url) (\<lambda>parsed.
     (let scheme = lower (up_scheme parsed) in
      if scheme \<in> {''about'', ''blob'', ''data''} then Inr (decision True ''LOCAL_BROWSER_RESOURCE'')
      else if scheme \<noteq> ''https'' then Inr (decision False ''NON_HTTPS_BLOCKED'')
      else (let hostname = normal_host parsed in
        if hostname = [] then Inr (decision False ''HOST_MISSING'')
        else if under_any ALLOWED_HOST_SUFFIXES hostname
        then (if hostname \<in> set DENIED_API_HOSTS \<or>
                 list_ex (\<lambda>p. prefix p hostname) DENIED_API_HOST_PREFIXES
              then Inr (decision False ''API_SURFACE_DENIED'')
              else Inr (decision True ''MICROSOFT_M365_ALLOWLIST''))
        else Inr (decision False ''HOST_NOT_ALLOWLISTED''))))"

text \<open>What the Playwright route handler does with one request.\<close>

datatype route_outcome = ROUTE_CONTINUE | ROUTE_ABORT

definition enforce_route_egress :: "string \<Rightarrow> route_outcome result" where
  "enforce_route_egress url = bindE (evaluate_browser_egress url) (\<lambda>d.
     Inr (if ed_allowed d then ROUTE_CONTINUE else ROUTE_ABORT))"

subsection \<open>Pages during authentication\<close>

definition AUTH_BOOTSTRAP_OPERATIONS :: "string list" where
  "AUTH_BOOTSTRAP_OPERATIONS = [''auth_status'', ''auth_start'', ''auth_resume'',
     ''auth_bootstrap_open_planner_web'']"

definition PLANNER_WEB_BOOTSTRAP_OPERATION :: string where
  "PLANNER_WEB_BOOTSTRAP_OPERATION = ''auth_bootstrap_open_planner_web''"

definition AUTH_ORIGIN_SUFFIXES :: "string list" where
  "AUTH_ORIGIN_SUFFIXES = [''login.microsoftonline.com'', ''login.live.com'', ''login.microsoft.com'',
     ''account.microsoft.com'', ''entra.microsoft.com'']"

datatype AuthOriginStatus = NO_ACTIVE_PAGE | APPROVED_AUTH_ORIGIN | NON_APPROVED_ORIGIN

definition host_of :: "string \<Rightarrow> string" where
  "host_of url = (case url_split url of Inl e \<Rightarrow> [] | Inr u \<Rightarrow> normal_host u)"

definition is_approved_auth_origin :: "string \<Rightarrow> bool" where
  "is_approved_auth_origin hostname \<longleftrightarrow> hostname \<noteq> [] \<and> under_any AUTH_ORIGIN_SUFFIXES hostname"

definition is_allowlisted_host :: "string \<Rightarrow> bool" where
  "is_allowlisted_host hostname = under_any ALLOWED_HOST_SUFFIXES hostname"

definition is_neutral_bootstrap_url :: "string \<Rightarrow> bool" where
  "is_neutral_bootstrap_url url = (let raw = lower (strip url) in
     if raw = [] then False
     else if raw = ''about:blank'' then True
     else raw = ''chrome://newtab'' \<or> prefix ''chrome://newtab/'' raw)"

fun auth_origin_loop :: "bool \<Rightarrow> string list \<Rightarrow> AuthOriginStatus" where
  "auth_origin_loop seen [] = (if seen then APPROVED_AUTH_ORIGIN else NO_ACTIVE_PAGE)"
| "auth_origin_loop seen (raw # urls) =
     (if is_neutral_bootstrap_url raw then auth_origin_loop seen urls
      else if \<not> is_allowlisted_host (host_of raw) then NON_APPROVED_ORIGIN
      else if \<not> is_approved_auth_origin (host_of raw) then NON_APPROVED_ORIGIN
      else auth_origin_loop True urls)"

definition auth_origin_status :: "string list \<Rightarrow> AuthOriginStatus" where
  "auth_origin_status page_urls =
     (if page_urls = [] then NO_ACTIVE_PAGE else auth_origin_loop False page_urls)"

subsection \<open>Fixed targets\<close>

definition PLANNER_WEB_BOOTSTRAP_URL :: string where
  "PLANNER_WEB_BOOTSTRAP_URL = ''https://planner.cloud.microsoft/''"

definition MICROSOFT_AUTH_BOOTSTRAP_URL :: string where
  "MICROSOFT_AUTH_BOOTSTRAP_URL = ''https://login.microsoftonline.com/''"

definition APPROVED_PLANNER_WEB_PATHS :: "string list" where
  "APPROVED_PLANNER_WEB_PATHS = [''/'', ''/webui/myplans/'', ''/webui/plan/'', ''/webui/premiumplan/'']"

definition LOOPBACK_PEERS :: "string list" where
  "LOOPBACK_PEERS = [''127.0.0.1'', ''::1'', ''::ffff:127.0.0.1'']"

definition is_loopback_peer :: "string option \<Rightarrow> bool" where
  "is_loopback_peer peer = (case peer of None \<Rightarrow> False
     | Some h \<Rightarrow> h \<noteq> [] \<and> lower (strip h) \<in> set LOOPBACK_PEERS)"

definition is_reusable_bootstrap_page :: "string \<Rightarrow> bool" where
  "is_reusable_bootstrap_page url = (let raw = lower (strip url) in
     if raw = [] then True
     else if raw = ''about:blank'' then True
     else raw = ''chrome://newtab'' \<or> prefix ''chrome://newtab/'' raw)"

definition validate_planner_web_bootstrap_url :: "string \<Rightarrow> EgressDecision result" where
  "validate_planner_web_bootstrap_url url = bindE (url_split url) (\<lambda>parsed.
     if lower (up_scheme parsed) \<noteq> ''https'' then Inr (decision False ''NON_HTTPS_BLOCKED'')
     else if normal_host parsed \<noteq> ''planner.cloud.microsoft'' then Inr (decision False ''HOST_NOT_PLANNER_CLOUD'')
     else (let path = (if up_path parsed = [] then ''/'' else up_path parsed) in
       if path \<noteq> ''/'' \<and> \<not> list_ex (\<lambda>p. prefix p path) (filter (\<lambda>p. p \<noteq> ''/'') APPROVED_PLANNER_WEB_PATHS)
       then Inr (decision False ''PATH_NOT_APPROVED'')
       else evaluate_browser_egress url))"

definition resolve_planner_web_bootstrap_url :: "environ \<Rightarrow> string result" where
  "resolve_planner_web_bootstrap_url env =
     (case map_of env ''PLANNER_WEB_BOOTSTRAP_URL'' of
        None \<Rightarrow> Inr PLANNER_WEB_BOOTSTRAP_URL
      | Some override \<Rightarrow>
          (if override = [] then Inr PLANNER_WEB_BOOTSTRAP_URL
           else bindE (validate_planner_web_bootstrap_url override) (\<lambda>d.
             Inr (if ed_allowed d then override else PLANNER_WEB_BOOTSTRAP_URL))))"

definition evaluate_bootstrap_target :: "environ \<Rightarrow> EgressDecision result" where
  "evaluate_bootstrap_target env = bindE (resolve_planner_web_bootstrap_url env) evaluate_browser_egress"

definition evaluate_microsoft_auth_target :: "EgressDecision result" where
  "evaluate_microsoft_auth_target = evaluate_browser_egress MICROSOFT_AUTH_BOOTSTRAP_URL"

definition is_planner_web_host :: "string \<Rightarrow> bool" where
  "is_planner_web_host hostname = (if hostname = [] then False
     else host_matches hostname (host_of PLANNER_WEB_BOOTSTRAP_URL))"

definition is_planner_web_surface_url :: "string \<Rightarrow> bool" where
  "is_planner_web_surface_url url = is_planner_web_host (host_of url)"

datatype SourceClassStatus = SOURCE_PLANNER_WEB | SOURCE_NEUTRAL | SOURCE_APPROVED_AUTH | SOURCE_NON_APPROVED

text \<open>The neutral set and prefixes of this module give the same predicate as those of the guard.\<close>

definition is_neutral_source :: "string \<Rightarrow> bool" where
  "is_neutral_source url = (let raw = lower (strip url) in
     if raw = [] then False
     else if raw \<in> {''about:blank'', ''chrome://newtab''} then True
     else list_ex (\<lambda>p. prefix p raw) [''chrome://newtab/''])"

fun source_loop :: "bool \<Rightarrow> bool \<Rightarrow> string list \<Rightarrow> SourceClassStatus" where
  "source_loop planner auth [] =
     (if planner then SOURCE_PLANNER_WEB else if auth then SOURCE_APPROVED_AUTH else SOURCE_NEUTRAL)"
| "source_loop planner auth (raw # urls) =
     (if is_neutral_source raw then source_loop planner auth urls
      else if is_planner_web_host (host_of raw) then source_loop True auth urls
      else if auth_origin_status [raw] = APPROVED_AUTH_ORIGIN then source_loop planner True urls
      else SOURCE_NON_APPROVED)"

definition classify_begin_signin_source :: "string list \<Rightarrow> SourceClassStatus" where
  "classify_begin_signin_source page_urls =
     (if page_urls = [] then SOURCE_PLANNER_WEB else source_loop False False page_urls)"

definition is_permitted_begin_signin_source :: "string list \<Rightarrow> bool" where
  "is_permitted_begin_signin_source page_urls \<longleftrightarrow> classify_begin_signin_source page_urls \<noteq> SOURCE_NON_APPROVED"

subsection \<open>What the policies accept\<close>

lemma under_any_iff: "under_any sfxs h \<longleftrightarrow> (\<exists>s \<in> set sfxs. h = s \<or> suffix (CHR ''.'' # s) h)"
  by (auto simp: under_any_def host_matches_def list_ex_iff)

lemma host_matches_trans: "host_matches h s \<Longrightarrow> host_matches s t \<Longrightarrow> host_matches h t"
proof -
  assume h: "host_matches h s" and s: "host_matches s t"
  have "suffix (CHR ''.'' # t) h" if "suffix (CHR ''.'' # s) h" "suffix (CHR ''.'' # t) s"
  proof -
    have "suffix s (CHR ''.'' # s)" by (simp add: suffix_ConsI)
    with that show ?thesis by (meson suffix_order.trans)
  qed
  with h s show "host_matches h t" by (auto simp: host_matches_def)
qed

lemma auth_origins_allowlisted: "is_approved_auth_origin h \<Longrightarrow> is_allowlisted_host h"
proof -
  assume "is_approved_auth_origin h"
  then obtain s where s: "s \<in> set AUTH_ORIGIN_SUFFIXES" "host_matches h s"
    by (auto simp: is_approved_auth_origin_def under_any_def list_ex_iff)
  have "list_all (under_any ALLOWED_HOST_SUFFIXES) AUTH_ORIGIN_SUFFIXES" by code_simp
  with s(1) obtain t where "t \<in> set ALLOWED_HOST_SUFFIXES" "host_matches s t"
    by (auto simp: list_all_iff under_any_def list_ex_iff)
  with s(2) have "host_matches h t" by (blast intro: host_matches_trans)
  with \<open>t \<in> set ALLOWED_HOST_SUFFIXES\<close> show ?thesis
    by (auto simp: is_allowlisted_host_def under_any_def list_ex_iff)
qed

lemma auth_origin_loop_iff:
  "auth_origin_loop seen urls = APPROVED_AUTH_ORIGIN \<longleftrightarrow>
     list_all (\<lambda>u. is_neutral_bootstrap_url u \<or> is_approved_auth_origin (host_of u)) urls \<and>
     (seen \<or> list_ex (\<lambda>u. \<not> is_neutral_bootstrap_url u) urls)"
  "auth_origin_loop seen urls = NON_APPROVED_ORIGIN \<longleftrightarrow>
     list_ex (\<lambda>u. \<not> is_neutral_bootstrap_url u \<and> \<not> is_approved_auth_origin (host_of u)) urls"
  by (induction urls arbitrary: seen) (auto dest: auth_origins_allowlisted)

lemma auth_origin_status_iff:
  "auth_origin_status urls = APPROVED_AUTH_ORIGIN \<longleftrightarrow>
     list_all (\<lambda>u. is_neutral_bootstrap_url u \<or> is_approved_auth_origin (host_of u)) urls \<and>
     list_ex (\<lambda>u. \<not> is_neutral_bootstrap_url u) urls"
  "auth_origin_status urls = NON_APPROVED_ORIGIN \<longleftrightarrow>
     list_ex (\<lambda>u. \<not> is_neutral_bootstrap_url u \<and> \<not> is_approved_auth_origin (host_of u)) urls"
  by (simp_all add: auth_origin_status_def auth_origin_loop_iff)

lemma neutral_source_eq: "is_neutral_source = is_neutral_bootstrap_url"
  by (auto simp: fun_eq_iff is_neutral_source_def is_neutral_bootstrap_url_def Let_def)

definition source_page_ok :: "string \<Rightarrow> bool" where
  "source_page_ok u \<longleftrightarrow> is_neutral_bootstrap_url u \<or> is_planner_web_surface_url u \<or>
     is_approved_auth_origin (host_of u)"

lemma source_loop_iff:
  "source_loop p a urls = SOURCE_NON_APPROVED \<longleftrightarrow> list_ex (\<lambda>u. \<not> source_page_ok u) urls"
proof (induction urls arbitrary: p a)
  case (Cons u urls)
  have "auth_origin_status [u] = APPROVED_AUTH_ORIGIN \<longleftrightarrow>
      \<not> is_neutral_bootstrap_url u \<and> is_approved_auth_origin (host_of u)"
    by (auto simp: auth_origin_status_iff)
  with Cons.IH show ?case
    by (auto simp: neutral_source_eq source_page_ok_def is_planner_web_surface_url_def)
qed simp

lemma permitted_source_iff:
  "is_permitted_begin_signin_source urls \<longleftrightarrow> list_all source_page_ok urls"
  by (auto simp: is_permitted_begin_signin_source_def classify_begin_signin_source_def source_loop_iff
      list_ex_iff list_all_iff)

lemma egress_Inr:
  "evaluate_browser_egress url = Inr d \<Longrightarrow> ed_allowed d \<Longrightarrow> \<exists>u. url_split url = Inr u \<and>
     (lower (up_scheme u) \<in> {''about'', ''blob'', ''data''} \<or>
      lower (up_scheme u) = ''https'' \<and> is_allowlisted_host (normal_host u) \<and>
      normal_host u \<notin> set DENIED_API_HOSTS \<and> \<not> prefix ''graph.'' (normal_host u))"
  unfolding evaluate_browser_egress_def bindE_Inr_iff
  by (auto simp: Let_def decision_def is_allowlisted_host_def DENIED_API_HOST_PREFIXES_def split: if_splits)

lemma bootstrap_url_valid: "validate_planner_web_bootstrap_url PLANNER_WEB_BOOTSTRAP_URL =
    Inr (decision True ''MICROSOFT_M365_ALLOWLIST'')"
  by code_simp

lemma planner_host: "host_of PLANNER_WEB_BOOTSTRAP_URL = ''planner.cloud.microsoft''"
  by code_simp

lemma planner_host_facts:
  "under_any ALLOWED_HOST_SUFFIXES ''planner.cloud.microsoft''"
  "''planner.cloud.microsoft'' \<notin> set DENIED_API_HOSTS"
  "\<not> list_ex (\<lambda>p. prefix p ''planner.cloud.microsoft'') DENIED_API_HOST_PREFIXES"
  "is_planner_web_host ''planner.cloud.microsoft''"
  by code_simp+

definition planner_bootstrap_page :: "url_parts \<Rightarrow> bool" where
  "planner_bootstrap_page u \<longleftrightarrow> lower (up_scheme u) = ''https'' \<and> normal_host u = ''planner.cloud.microsoft'' \<and>
     (up_path u = [] \<or> up_path u = ''/'' \<or>
      list_ex (\<lambda>p. prefix p (up_path u)) [''/webui/myplans/'', ''/webui/plan/'', ''/webui/premiumplan/''])"

lemma planner_page_egress:
  assumes "url_split url = Inr u" "lower (up_scheme u) = ''https''" "normal_host u = ''planner.cloud.microsoft''"
  shows "evaluate_browser_egress url = Inr (decision True ''MICROSOFT_M365_ALLOWLIST'')"
    and "is_planner_web_surface_url url"
  using assms planner_host_facts
  by (simp_all add: evaluate_browser_egress_def Let_def is_planner_web_surface_url_def host_of_def)

lemma approved_paths:
  "filter (\<lambda>p. p \<noteq> ''/'') APPROVED_PLANNER_WEB_PATHS = [''/webui/myplans/'', ''/webui/plan/'', ''/webui/premiumplan/'']"
  by code_simp

lemma validate_Inr:
  "validate_planner_web_bootstrap_url url = Inr d \<Longrightarrow> ed_allowed d \<Longrightarrow>
     \<exists>u. url_split url = Inr u \<and> planner_bootstrap_page u"
  unfolding validate_planner_web_bootstrap_url_def bindE_Inr_iff approved_paths planner_bootstrap_page_def
  by (auto simp: Let_def decision_def split: if_splits)

lemma validate_Inl: "validate_planner_web_bootstrap_url url = Inl e \<longleftrightarrow> url_split url = Inl e"
  by (cases "url_split url")
    (auto simp: validate_planner_web_bootstrap_url_def evaluate_browser_egress_def Let_def)

lemma planner_page_all:
  assumes "url_split url = Inr u" "planner_bootstrap_page u"
  shows "is_planner_web_surface_url url \<and> enforce_route_egress url = Inr ROUTE_CONTINUE \<and>
    evaluate_browser_egress url = Inr (decision True ''MICROSOFT_M365_ALLOWLIST'')"
  using assms planner_page_egress [of url u]
  by (simp add: planner_bootstrap_page_def enforce_route_egress_def decision_def)

lemma default_target:
  "\<exists>u. url_split PLANNER_WEB_BOOTSTRAP_URL = Inr u \<and> planner_bootstrap_page u"
  by (rule validate_Inr [OF bootstrap_url_valid]) (simp add: decision_def)

lemma resolve_Inr:
  assumes "resolve_planner_web_bootstrap_url env = Inr url"
  shows "url \<in> insert PLANNER_WEB_BOOTSTRAP_URL (set_option (map_of env ''PLANNER_WEB_BOOTSTRAP_URL''))"
    and "\<exists>u. url_split url = Inr u \<and> planner_bootstrap_page u"
proof -
  from assms consider "url = PLANNER_WEB_BOOTSTRAP_URL"
    | d where "map_of env ''PLANNER_WEB_BOOTSTRAP_URL'' = Some url"
        "validate_planner_web_bootstrap_url url = Inr d" "ed_allowed d"
    by (auto simp: resolve_planner_web_bootstrap_url_def bindE_Inr_iff split: option.splits if_splits)
  note c = this
  show "url \<in> insert PLANNER_WEB_BOOTSTRAP_URL (set_option (map_of env ''PLANNER_WEB_BOOTSTRAP_URL''))"
    using c by cases auto
  show "\<exists>u. url_split url = Inr u \<and> planner_bootstrap_page u"
    using c by cases (use default_target validate_Inr in blast)+
qed

lemma resolve_Inl:
  "resolve_planner_web_bootstrap_url env = Inl e \<Longrightarrow>
     \<exists>override. map_of env ''PLANNER_WEB_BOOTSTRAP_URL'' = Some override \<and> url_split override = Inl e"
  by (auto simp: resolve_planner_web_bootstrap_url_def bindE_def validate_Inl
      split: option.splits if_splits sum.splits)

text \<open>Whatever the environment overrides, the bootstrap navigation has a reviewed destination: if the
  target resolves, it is the default or the override, an https URL of exactly the Planner Web host with
  the root path or an approved path, its request leaves the browser, and it counts as the Planner Web
  surface. Resolution fails only when the override cannot be split into a URL. The fixed sign-in target
  is always allowed.\<close>

theorem bootstrap_target_fixed:
  "(case resolve_planner_web_bootstrap_url env of
      Inl e \<Rightarrow> \<exists>override. map_of env ''PLANNER_WEB_BOOTSTRAP_URL'' = Some override \<and> url_split override = Inl e
    | Inr url \<Rightarrow> url \<in> insert PLANNER_WEB_BOOTSTRAP_URL (set_option (map_of env ''PLANNER_WEB_BOOTSTRAP_URL'')) \<and>
        (\<exists>u. url_split url = Inr u \<and> planner_bootstrap_page u) \<and>
        is_planner_web_surface_url url \<and> enforce_route_egress url = Inr ROUTE_CONTINUE \<and>
        evaluate_bootstrap_target env = Inr (decision True ''MICROSOFT_M365_ALLOWLIST'')) \<and>
   evaluate_microsoft_auth_target = Inr (decision True ''MICROSOFT_M365_ALLOWLIST'')"
proof (rule conjI)
  show "case resolve_planner_web_bootstrap_url env of
      Inl e \<Rightarrow> \<exists>override. map_of env ''PLANNER_WEB_BOOTSTRAP_URL'' = Some override \<and> url_split override = Inl e
    | Inr url \<Rightarrow> url \<in> insert PLANNER_WEB_BOOTSTRAP_URL (set_option (map_of env ''PLANNER_WEB_BOOTSTRAP_URL'')) \<and>
        (\<exists>u. url_split url = Inr u \<and> planner_bootstrap_page u) \<and>
        is_planner_web_surface_url url \<and> enforce_route_egress url = Inr ROUTE_CONTINUE \<and>
        evaluate_bootstrap_target env = Inr (decision True ''MICROSOFT_M365_ALLOWLIST'')"
  proof (cases "resolve_planner_web_bootstrap_url env")
    case (Inl e)
    then show ?thesis using resolve_Inl by simp
  next
    case (Inr url)
    from resolve_Inr [OF Inr] planner_page_all [of url] Inr show ?thesis
      by (auto simp: evaluate_bootstrap_target_def)
  qed
  show "evaluate_microsoft_auth_target = Inr (decision True ''MICROSOFT_M365_ALLOWLIST'')" by code_simp
qed

lemma malformed_override_raises:
  "resolve_planner_web_bootstrap_url [(''PLANNER_WEB_BOOTSTRAP_URL'', ''https://['')] =
     Inl (value_error ''Invalid IPv6 URL'')"
  by code_simp

lemma graph_subdomain_allowed:
  "evaluate_browser_egress ''https://graph.microsoft.com/v1.0/me'' = Inr (decision False ''API_SURFACE_DENIED'')"
  "evaluate_browser_egress ''https://beta.graph.microsoft.com/v1.0/me'' = Inr (decision True ''MICROSOFT_M365_ALLOWLIST'')"
  by code_simp+

text \<open>The two classifications of the open pages are exact. Authentication may go on unless some page
  is neither neutral nor on an approved sign-in host; sign-in may begin unless some page is none of
  neutral, Planner Web and approved; and an approved sign-in host is always under the outbound
  allowlist.\<close>

theorem page_classification_exact:
  "(auth_origin_status urls \<noteq> NON_APPROVED_ORIGIN \<longleftrightarrow>
      list_all (\<lambda>u. is_neutral_bootstrap_url u \<or> is_approved_auth_origin (host_of u)) urls) \<and>
   (auth_origin_status urls = APPROVED_AUTH_ORIGIN \<longleftrightarrow>
      list_all (\<lambda>u. is_neutral_bootstrap_url u \<or> is_approved_auth_origin (host_of u)) urls \<and>
      list_ex (\<lambda>u. \<not> is_neutral_bootstrap_url u) urls) \<and>
   (is_permitted_begin_signin_source urls \<longleftrightarrow>
      list_all (\<lambda>u. is_neutral_bootstrap_url u \<or> is_planner_web_surface_url u \<or>
        is_approved_auth_origin (host_of u)) urls) \<and>
   Collect is_approved_auth_origin \<subseteq> Collect is_allowlisted_host"
  unfolding auth_origin_status_iff permitted_source_iff source_page_ok_def
  by (auto simp: list_ex_iff list_all_iff dest: auth_origins_allowlisted)

end
