(* ===== verification/Live_Page.thy ===== *)
theory Live_Page
  imports Worker_Protocol Browser_Policy Attestation
begin

text \<open>
  The live page as the worker sees it. \<open>locator_runtime.py\<close>: from a locator plan to one visible element.
  \<open>operator_signin.py\<close>: the closed inputs, the progression plans and the combined sign-in form.
  \<open>bootstrap_discovery.py\<close>: counting the fixed selectors. \<open>signin_surface.py\<close>: classifying the surface and
  the three resolvers, each of which may click one control of a closed label set.

  A browser is not part of the repository: it is a \<open>driver\<close>, a record of functions on a world of any
  type, which answer the calls the code makes of Playwright and may change the world in any way. An
  operation takes a session (the world, the worker's own state and the log of its calls with their
  answers) to a result and a session; an exception is a result \<open>Inl\<close>. The log is what the security
  properties speak of: every call the code makes of the browser is in it.

  The results: what each resolver can do to the page, that an ambiguous locator is never used, and that
  a surface is acted on only when it is of the one kind the resolver is for.
\<close>

subsection \<open>The browser and its log\<close>

type_synonym page = nat

datatype page_query =
    ByRole string "string option" bool
  | ByLabel string
  | ByPlaceholder string
  | ByTestId string
  | BySelector string
  | ByExactText string

datatype page_action =
    Goto page string
  | ClickOn page page_query
  | ClickFirst page page_query
  | FillIn page page_query string
  | ClosePage page

datatype lifecycle_call = START_PLAYWRIGHT | LAUNCH_CONTEXT | INSTALL_ROUTE | CLOSE_CONTEXT | STOP_PLAYWRIGHT

datatype interaction =
    SawPages "(page \<times> string) list"
  | SawUrl page string
  | Counted page page_query "nat option"
  | WaitedVisible page page_query nat bool
  | SawText page "string option"
  | Slept nat
  | OpenedPage "page option"
  | Performed page_action bool
  | Lifecycle lifecycle_call bool

text \<open>The answers: a count or a text is \<open>None\<close> and an action or a wait \<open>False\<close> when the call raised.\<close>

record 'w driver =
  dr_pages :: "'w \<Rightarrow> page list"
  dr_url :: "page \<Rightarrow> 'w \<Rightarrow> string"
  dr_count :: "page \<Rightarrow> page_query \<Rightarrow> 'w \<Rightarrow> nat option \<times> 'w"
  dr_wait_visible :: "page \<Rightarrow> page_query \<Rightarrow> nat \<Rightarrow> 'w \<Rightarrow> bool \<times> 'w"
  dr_inner_text :: "page \<Rightarrow> 'w \<Rightarrow> string option \<times> 'w"
  dr_sleep :: "nat \<Rightarrow> 'w \<Rightarrow> 'w"
  dr_new_page :: "'w \<Rightarrow> page option \<times> 'w"
  dr_perform :: "page_action \<Rightarrow> 'w \<Rightarrow> bool \<times> 'w"
  dr_lifecycle :: "lifecycle_call \<Rightarrow> 'w \<Rightarrow> bool \<times> 'w"

record 'w session =
  se_world :: 'w
  se_log :: "interaction list"
  se_context :: bool
  se_playwright :: bool
  se_surface_resolved :: bool
  se_observation :: AuthContext

type_synonym ('w, 'a) io = "'w session \<Rightarrow> 'a wresult \<times> 'w session"

definition io_return :: "'a \<Rightarrow> ('w, 'a) io" where
  "io_return x = (\<lambda>s. (Inr x, s))"

definition io_raise :: "wexn \<Rightarrow> ('w, 'a) io" where
  "io_raise e = (\<lambda>s. (Inl e, s))"

definition io_bind :: "('w, 'a) io \<Rightarrow> ('a \<Rightarrow> ('w, 'b) io) \<Rightarrow> ('w, 'b) io" where
  "io_bind m f = (\<lambda>s. case m s of (Inl e, t) \<Rightarrow> (Inl e, t) | (Inr x, t) \<Rightarrow> f x t)"

definition io_catch :: "('w, 'a) io \<Rightarrow> (wexn \<Rightarrow> ('w, 'a) io) \<Rightarrow> ('w, 'a) io" where
  "io_catch m h = (\<lambda>s. case m s of (Inl e, t) \<Rightarrow> h e t | (Inr x, t) \<Rightarrow> (Inr x, t))"

definition io_lift :: "'a wresult \<Rightarrow> ('w, 'a) io" where
  "io_lift r = (\<lambda>s. (r, s))"

definition io_unless :: "bool \<Rightarrow> wexn \<Rightarrow> ('w, unit) io" where
  "io_unless ok e = (if ok then io_return () else io_raise e)"

definition io_update :: "('w session \<Rightarrow> 'w session) \<Rightarrow> ('w, unit) io" where
  "io_update f = (\<lambda>s. (Inr (), f s))"

definition io_get :: "('w session \<Rightarrow> 'a) \<Rightarrow> ('w, 'a) io" where
  "io_get f = (\<lambda>s. (Inr (f s), s))"

definition logged :: "interaction \<Rightarrow> 'w \<Rightarrow> 'w session \<Rightarrow> 'w session" where
  "logged i w s = s\<lparr>se_world := w, se_log := se_log s @ [i]\<rparr>"

definition see_pages :: "'w driver \<Rightarrow> ('w, (page \<times> string) list) io" where
  "see_pages d = (\<lambda>s. let ps = map (\<lambda>p. (p, dr_url d p (se_world s))) (dr_pages d (se_world s))
     in (Inr ps, logged (SawPages ps) (se_world s) s))"

definition see_url :: "'w driver \<Rightarrow> page \<Rightarrow> ('w, string) io" where
  "see_url d p = (\<lambda>s. let u = dr_url d p (se_world s) in (Inr u, logged (SawUrl p u) (se_world s) s))"

definition count_of :: "'w driver \<Rightarrow> page \<Rightarrow> page_query \<Rightarrow> ('w, nat) io" where
  "count_of d p q = (\<lambda>s. case dr_count d p q (se_world s) of (r, w) \<Rightarrow>
     (case r of None \<Rightarrow> Inl Uncaught | Some n \<Rightarrow> Inr n, logged (Counted p q r) w s))"

definition wait_visible :: "'w driver \<Rightarrow> page \<Rightarrow> page_query \<Rightarrow> nat \<Rightarrow> ('w, unit) io" where
  "wait_visible d p q timeout = (\<lambda>s. case dr_wait_visible d p q timeout (se_world s) of (ok, w) \<Rightarrow>
     (if ok then Inr () else Inl Uncaught, logged (WaitedVisible p q timeout ok) w s))"

definition inner_text :: "'w driver \<Rightarrow> page \<Rightarrow> ('w, string) io" where
  "inner_text d p = (\<lambda>s. case dr_inner_text d p (se_world s) of (r, w) \<Rightarrow>
     (case r of None \<Rightarrow> Inl Uncaught | Some t \<Rightarrow> Inr t, logged (SawText p r) w s))"

definition sleep_ms :: "'w driver \<Rightarrow> nat \<Rightarrow> ('w, unit) io" where
  "sleep_ms d n = (\<lambda>s. (Inr (), logged (Slept n) (dr_sleep d n (se_world s)) s))"

definition new_page :: "'w driver \<Rightarrow> ('w, page) io" where
  "new_page d = (\<lambda>s. case dr_new_page d (se_world s) of (r, w) \<Rightarrow>
     (case r of None \<Rightarrow> Inl Uncaught | Some p \<Rightarrow> Inr p, logged (OpenedPage r) w s))"

definition perform :: "'w driver \<Rightarrow> page_action \<Rightarrow> ('w, unit) io" where
  "perform d a = (\<lambda>s. case dr_perform d a (se_world s) of (ok, w) \<Rightarrow>
     (if ok then Inr () else Inl Uncaught, logged (Performed a ok) w s))"

definition lifecycle :: "'w driver \<Rightarrow> lifecycle_call \<Rightarrow> ('w, unit) io" where
  "lifecycle d c = (\<lambda>s. case dr_lifecycle d c (se_world s) of (ok, w) \<Rightarrow>
     (if ok then Inr () else Inl Uncaught, logged (Lifecycle c ok) w s))"

subsection \<open>Resolving a locator plan\<close>

fun build_locator :: "LocatorCandidate \<Rightarrow> page_query" where
  "build_locator c = (case lc_strategy c of
     ROLE \<Rightarrow> ByRole (lc_value c) (lc_name c) False
   | LABEL \<Rightarrow> ByLabel (lc_value c)
   | PLACEHOLDER \<Rightarrow> ByPlaceholder (lc_value c)
   | TEST_ID \<Rightarrow> ByTestId (lc_value c)
   | CSS \<Rightarrow> BySelector (lc_value c))"

definition io_ok :: "('w, 'a) io \<Rightarrow> ('w, 'a option) io" where
  "io_ok m = (\<lambda>s. case m s of (Inl e, t) \<Rightarrow> (Inr None, t) | (Inr x, t) \<Rightarrow> (Inr (Some x), t))"

fun resolve_candidates ::
  "'w driver \<Rightarrow> page \<Rightarrow> string \<Rightarrow> nat \<Rightarrow> string \<Rightarrow> LocatorCandidate list \<Rightarrow> ('w, page_query) io" where
  "resolve_candidates d p key timeout last_reason [] = io_raise (LocatorRuntimeError key last_reason)"
| "resolve_candidates d p key timeout last_reason (c # cs) =
     io_bind (io_ok (wait_visible d p (build_locator c) timeout)) (\<lambda>seen.
     if seen = None then resolve_candidates d p key timeout ''no visible match within timeout'' cs
     else io_bind (io_ok (count_of d p (build_locator c))) (\<lambda>n. case n of
         None \<Rightarrow> resolve_candidates d p key timeout ''match count could not be determined'' cs
       | Some k \<Rightarrow>
           (if k = 0 then resolve_candidates d p key timeout ''candidate matched no element'' cs
            else if 1 < k then io_raise (LocatorRuntimeError key ''ambiguous match'')
            else io_return (build_locator c))))"

definition resolve_visible_locator ::
  "'w driver \<Rightarrow> page \<Rightarrow> LocatorPlan \<Rightarrow> int \<Rightarrow> ('w, page_query) io" where
  "resolve_visible_locator d p plan timeout_ms =
     (if timeout_ms < 0 then io_raise (LocatorRuntimeError (lp_selector_key plan) ''negative timeout'')
      else resolve_candidates d p (lp_selector_key plan) (nat timeout_ms) ''no candidates'' (ordered_candidates plan))"

subsection \<open>Operator input and the combined form\<close>

record OperatorSignInInput =
  si_email :: string
  si_password :: string

definition EMAIL_SELECTOR_NAME :: string where "EMAIL_SELECTOR_NAME = ''auth.login_email_input''"
definition NEXT_SELECTOR_NAME :: string where "NEXT_SELECTOR_NAME = ''auth.login_next_button''"
definition PASSWORD_SELECTOR_NAME :: string where "PASSWORD_SELECTOR_NAME = ''auth.login_password_input''"
definition SIGNIN_SELECTOR_NAME :: string where "SIGNIN_SELECTOR_NAME = ''auth.login_signin_button''"

definition COMMON_AUTH_FRAGMENT_IDS :: "string list" where
  "COMMON_AUTH_FRAGMENT_IDS = [''common.auth.email'', ''common.auth.password'']"

definition PROGRESSION_SELECTOR_KEYS :: "string list" where
  "PROGRESSION_SELECTOR_KEYS =
     [EMAIL_SELECTOR_NAME, NEXT_SELECTOR_NAME, PASSWORD_SELECTOR_NAME, SIGNIN_SELECTOR_NAME]"

definition key_list_text :: "string list \<Rightarrow> string" where
  "key_list_text ks = py_repr (JList (map JStr (sort (remdups ks))))"

text \<open>The shared check of the two closed inputs; \<open>exact\<close> is the text of the tuple of allowed fields.\<close>

definition closed_fields :: "string \<Rightarrow> string \<Rightarrow> string list \<Rightarrow> json \<Rightarrow> json_object result" where
  "closed_fields what exact allowed payload = (case payload of
     JObj m \<Rightarrow>
       (if set (map fst m) \<noteq> set allowed
        then Inl (value_error (what @ '' fields must be exactly '' @ exact @ ''; unexpected='' @
          key_list_text (filter (\<lambda>k. k \<notin> set allowed) (map fst m)) @ '' missing='' @
          key_list_text (filter (\<lambda>k. k \<notin> set (map fst m)) allowed)))
        else Inr m)
   | _ \<Rightarrow> Inl (value_error (what @ '' payload must be an object'')))"

definition validate_signin_input :: "json \<Rightarrow> OperatorSignInInput result" where
  "validate_signin_input payload =
     bindE (closed_fields ''operator sign-in'' (CHR ''('' # py_repr_str ''email'' @ '', '' @ py_repr_str ''password'' @ '')'')
       [''email'', ''password''] payload) (\<lambda>m.
     (case (map_of m ''email'', map_of m ''password'') of
        (Some (JStr e), Some (JStr p)) \<Rightarrow> Inr \<lparr>si_email = e, si_password = p\<rparr>
      | _ \<Rightarrow> Inl (value_error ''operator sign-in email and password must be strings'')))"

definition validate_email_stage_input :: "json \<Rightarrow> string result" where
  "validate_email_stage_input payload =
     bindE (closed_fields ''operator email-stage'' (CHR ''('' # py_repr_str ''email'' @ '',)'') [''email''] payload) (\<lambda>m.
     (case map_of m ''email'' of
        Some (JStr e) \<Rightarrow> Inr e
      | _ \<Rightarrow> Inl (value_error ''operator email-stage email must be a string'')))"

text \<open>The plan of a progression selector, from the first of the two fragments that declares it. The
  contract set is what loading it gives at that moment.\<close>

fun progression_plan :: "string \<Rightarrow> UIContractFragment list \<Rightarrow> LocatorPlan option result" where
  "progression_plan key [] = Inr None"
| "progression_plan key (f # fs) =
     (if uf_fragment_id f \<notin> set COMMON_AUTH_FRAGMENT_IDS then progression_plan key fs
      else case map_of (uf_selectors f) key of
        None \<Rightarrow> progression_plan key fs
      | Some metadata \<Rightarrow> locator_plan_from_metadata key metadata)"

definition common_auth_locator_plan :: "UIContractSet result \<Rightarrow> string \<Rightarrow> LocatorPlan option result" where
  "common_auth_locator_plan contract key =
     (if key \<notin> set PROGRESSION_SELECTOR_KEYS
      then Inl (ValueError ''common.auth progression selector required; got {!r}'' [key])
      else bindE contract (\<lambda>c. progression_plan key (us_fragments c)))"

definition COMBINED_FORM_EMAIL :: page_query where "COMBINED_FORM_EMAIL = BySelector ''#i0116''"
definition COMBINED_FORM_PASSWORD :: page_query where "COMBINED_FORM_PASSWORD = BySelector ''#i0118''"
definition COMBINED_FORM_SUBMIT :: page_query where "COMBINED_FORM_SUBMIT = BySelector ''#idSIButton9''"

definition detect_combined_signin_form :: "'w driver \<Rightarrow> page \<Rightarrow> ('w, bool) io" where
  "detect_combined_signin_form d p = io_catch
     (io_bind (count_of d p COMBINED_FORM_EMAIL) (\<lambda>e.
      io_bind (count_of d p COMBINED_FORM_PASSWORD) (\<lambda>w.
      io_bind (count_of d p COMBINED_FORM_SUBMIT) (\<lambda>b. io_return (e = 1 \<and> w = 1 \<and> b = 1)))))
     (\<lambda>_. io_return False)"

definition submit_combined_signin_form ::
  "'w driver \<Rightarrow> page \<Rightarrow> OperatorSignInInput \<Rightarrow> ('w, unit) io" where
  "submit_combined_signin_form d p signin =
     io_bind (perform d (FillIn p COMBINED_FORM_EMAIL (si_email signin))) (\<lambda>_.
     io_bind (perform d (FillIn p COMBINED_FORM_PASSWORD (si_password signin))) (\<lambda>_.
     perform d (ClickOn p COMBINED_FORM_SUBMIT)))"

subsection \<open>Discovery of the fixed selectors\<close>

datatype DiscoveryResultKind = DISCOVERED_NONE | DISCOVERED_UNIQUE | DISCOVERED_AMBIGUOUS

fun discovery_value :: "DiscoveryResultKind \<Rightarrow> string" where
  "discovery_value DISCOVERED_NONE = ''NO_MATCH''"
| "discovery_value DISCOVERED_UNIQUE = ''UNIQUE_MATCH''"
| "discovery_value DISCOVERED_AMBIGUOUS = ''AMBIGUOUS''"

definition EMAIL_DISCOVERY_KEYS :: "string list" where
  "EMAIL_DISCOVERY_KEYS = [''auth.login_email_input'', ''auth.login_next_button'']"

definition PASSWORD_DISCOVERY_KEYS :: "string list" where
  "PASSWORD_DISCOVERY_KEYS = [''auth.login_password_input'', ''auth.login_signin_button'']"

record KeyDiscovery =
  kd_selector_key :: string
  kd_result :: DiscoveryResultKind
  kd_structural_digest :: "string option"

definition key_discovery_dict :: "KeyDiscovery \<Rightarrow> json_object" where
  "key_discovery_dict k = [(''selector_key'', JStr (kd_selector_key k)),
     (''result'', JStr (discovery_value (kd_result k)))] @ opt_field ''structural_digest'' (kd_structural_digest k)"

fun index_of :: "'a \<Rightarrow> 'a list \<Rightarrow> int" where
  "index_of x [] = - 1"
| "index_of x (y # ys) = (if x = y then 0 else (let i = index_of x ys in if i < 0 then - 1 else i + 1))"

definition discovery_shape :: "string \<Rightarrow> metadata \<Rightarrow> LocatorCandidate \<Rightarrow> json result" where
  "discovery_shape key metadata candidate = bindE (locator_plan_from_metadata key metadata) (\<lambda>plan.
     (let ordered = (case plan of None \<Rightarrow> [] | Some p \<Rightarrow> ordered_candidates p);
          i = index_of (candidate_identity candidate) (map candidate_identity ordered)
      in Inr (JObj [
        (''selector_key'', JStr key), (''strategy'', JStr (strategy_value (lc_strategy candidate))),
        (''match_index'', JInt 0), (''match_count'', JInt 1),
        (''candidate_shape'', JObj [(''candidate_index'', JInt i), (''is_primary'', JBool (i = 0)),
          (''has_value'', JBool (lc_value candidate \<noteq> [])), (''has_name'', JBool (lc_name candidate \<noteq> None)),
          (''exact'', JBool (lc_strategy candidate = ROLE))])])))"

fun wrap :: "'a result \<Rightarrow> 'a wresult" where
  "wrap (Inl e) = Inl (Raised e)"
| "wrap (Inr x) = Inr x"

fun is_value_error :: "exn \<Rightarrow> bool" where
  "is_value_error (ValueError m xs) = True"
| "is_value_error e = False"

fun discover_candidates ::
  "'w driver \<Rightarrow> page \<Rightarrow> string \<Rightarrow> metadata \<Rightarrow> LocatorCandidate list \<Rightarrow> ('w, KeyDiscovery) io" where
  "discover_candidates d p key metadata [] =
     io_return \<lparr>kd_selector_key = key, kd_result = DISCOVERED_NONE, kd_structural_digest = None\<rparr>"
| "discover_candidates d p key metadata (c # cs) =
     io_bind (io_catch (count_of d p (build_locator c))
       (\<lambda>_. io_raise (DiscoveryError ''locator count could not be determined''))) (\<lambda>n.
     if 1 < n then io_return
         \<lparr>kd_selector_key = key, kd_result = DISCOVERED_AMBIGUOUS, kd_structural_digest = None\<rparr>
     else if n = 1 then io_bind (io_lift (wrap (discovery_shape key metadata c))) (\<lambda>shape. io_return
         \<lparr>kd_selector_key = key, kd_result = DISCOVERED_UNIQUE, kd_structural_digest = Some (sha256_ref shape)\<rparr>)
     else discover_candidates d p key metadata cs)"

definition discover_key :: "'w driver \<Rightarrow> UIContractSet result \<Rightarrow> page \<Rightarrow> string \<Rightarrow> ('w, KeyDiscovery) io" where
  "discover_key d contract p key = (case common_auth_locator_plan contract key of
     Inl e \<Rightarrow> io_raise (if is_value_error e then DiscoveryError ''invalid locator plan'' else Raised e)
   | Inr None \<Rightarrow> io_raise (DiscoveryError ''missing locator plan'')
   | Inr (Some plan) \<Rightarrow> discover_candidates d p key
       [(''locators'', JList (map (JObj \<circ> candidate_to_dict) (ordered_candidates plan)))] (ordered_candidates plan))"

subsection \<open>Sign-in surfaces\<close>

datatype SigninSurfaceKind =
    SURFACE_EMAIL_ENTRY | SURFACE_ACCOUNT_CHOOSER | SURFACE_USE_ANOTHER_ACCOUNT | SURFACE_PICK_AN_ACCOUNT
  | SURFACE_STAY_SIGNED_IN | SURFACE_CONSENT | SURFACE_METHOD_SELECTION | SURFACE_ERROR
  | SURFACE_AMBIGUOUS | SURFACE_UNKNOWN

fun surface_value :: "SigninSurfaceKind \<Rightarrow> string" where
  "surface_value SURFACE_EMAIL_ENTRY = ''EMAIL_ENTRY''"
| "surface_value SURFACE_ACCOUNT_CHOOSER = ''ACCOUNT_CHOOSER''"
| "surface_value SURFACE_USE_ANOTHER_ACCOUNT = ''USE_ANOTHER_ACCOUNT_PROMPT''"
| "surface_value SURFACE_PICK_AN_ACCOUNT = ''PICK_AN_ACCOUNT''"
| "surface_value SURFACE_STAY_SIGNED_IN = ''STAY_SIGNED_IN''"
| "surface_value SURFACE_CONSENT = ''CONSENT''"
| "surface_value SURFACE_METHOD_SELECTION = ''METHOD_SELECTION''"
| "surface_value SURFACE_ERROR = ''ERROR''"
| "surface_value SURFACE_AMBIGUOUS = ''AMBIGUOUS''"
| "surface_value SURFACE_UNKNOWN = ''UNKNOWN''"

definition SURFACE_MARKERS :: "(SigninSurfaceKind \<times> string list) list" where
  "SURFACE_MARKERS = [
     (SURFACE_ACCOUNT_CHOOSER, [''work or school'', ''personal'', ''school or work'',
        ''conta profissional'', ''conta pessoal'']),
     (SURFACE_USE_ANOTHER_ACCOUNT, [''use another account'', ''use a different account'', ''outra conta'',
        ''utilizar outra conta'', ''other user'']),
     (SURFACE_PICK_AN_ACCOUNT, [''pick an account'', ''choose an account'', ''escolher uma conta'',
        ''selecionar uma conta'']),
     (SURFACE_STAY_SIGNED_IN, [''stay signed in'', ''mantenha'', ''manter a sess'' @ [CHR 0xE3] @ ''o'', ''mantenha-me'']),
     (SURFACE_CONSENT, [''accept'', ''aceitar'', ''permissions'', ''permiss'' @ [CHR 0xF5] @ ''es'', ''consent'']),
     (SURFACE_METHOD_SELECTION, [''choose how'', ''authentication method'',
        ''m'' @ [CHR 0xE9] @ ''todo de autentica'' @ [CHR 0xE7, CHR 0xE3] @ ''o'']),
     (SURFACE_ERROR, [''something went wrong'', ''incorrect'', ''n'' @ [CHR 0xE3] @ ''o foi poss'' @ [CHR 0xED] @ ''vel'',
        ''doesn'' @ [CHR 0x27] @ ''t exist'', ''n'' @ [CHR 0xE3] @ ''o existe'', ''can'' @ [CHR 0x27] @ ''t verify'',
        ''n'' @ [CHR 0xE3] @ ''o foi poss'' @ [CHR 0xED] @ ''vel verificar''])]"

definition EMAIL_ENTRY_MARKERS :: "string list" where
  "EMAIL_ENTRY_MARKERS = [''email'', ''phone'', ''skype'', ''telem'' @ [CHR 0xF3] @ ''vel'', ''telefone'',
     ''utilizador'', ''username'']"

record EmailEntryState =
  ee_email_input_present :: bool
  ee_next_button_present :: bool
  ee_ambiguous :: bool

record SurfaceClassification =
  sf_kind :: SigninSurfaceKind
  sf_email_entry_present :: bool

record SigninSurfaceResolution =
  sr_kind :: SigninSurfaceKind
  sr_advanced :: bool
  sr_terminal_surface :: SigninSurfaceKind

definition surface :: "SigninSurfaceKind \<Rightarrow> bool \<Rightarrow> SurfaceClassification" where
  "surface k e = \<lparr>sf_kind = k, sf_email_entry_present = e\<rparr>"

definition resolution :: "SigninSurfaceKind \<Rightarrow> bool \<Rightarrow> SigninSurfaceKind \<Rightarrow> SigninSurfaceResolution" where
  "resolution k a t = \<lparr>sr_kind = k, sr_advanced = a, sr_terminal_surface = t\<rparr>"

definition detect_email_entry_state ::
  "'w driver \<Rightarrow> UIContractSet result \<Rightarrow> page \<Rightarrow> ('w, EmailEntryState) io" where
  "detect_email_entry_state d contract p =
     io_bind (io_catch
       (io_bind (discover_key d contract p ''auth.login_email_input'') (\<lambda>e.
        io_bind (discover_key d contract p ''auth.login_next_button'') (\<lambda>n. io_return (kd_result e, kd_result n))))
       (\<lambda>_. io_raise (EmailEntryControlError ''detection failed''))) (\<lambda>(e, n).
     io_return \<lparr>ee_email_input_present = (e = DISCOVERED_UNIQUE), ee_next_button_present = (n = DISCOVERED_UNIQUE),
                ee_ambiguous = (e = DISCOVERED_AMBIGUOUS \<or> n = DISCOVERED_AMBIGUOUS)\<rparr>)"

definition any_marker :: "string \<Rightarrow> string list \<Rightarrow> bool" where
  "any_marker low markers = list_ex (\<lambda>m. sublist m low) markers"

fun first_surface :: "string \<Rightarrow> (SigninSurfaceKind \<times> string list) list \<Rightarrow> SigninSurfaceKind option" where
  "first_surface low [] = None"
| "first_surface low ((k, markers) # rest) =
     (if k = SURFACE_ERROR then first_surface low rest
      else if any_marker low markers then Some k else first_surface low rest)"

definition email_pair :: "EmailEntryState \<Rightarrow> bool" where
  "email_pair e \<longleftrightarrow> ee_email_input_present e \<and> ee_next_button_present e"

definition classify_signin_surface :: "string \<Rightarrow> EmailEntryState option \<Rightarrow> SurfaceClassification" where
  "classify_signin_surface page_text email_state =
     (let low = lower page_text; entry = any_marker low EMAIL_ENTRY_MARKERS in
      if strip low = [] then surface SURFACE_UNKNOWN False
      else if any_marker low (the (map_of SURFACE_MARKERS SURFACE_ERROR)) then surface SURFACE_ERROR entry
      else if (case email_state of None \<Rightarrow> False | Some e \<Rightarrow> \<not> ee_ambiguous e \<and> email_pair e)
      then surface SURFACE_EMAIL_ENTRY True
      else case first_surface low SURFACE_MARKERS of
        Some k \<Rightarrow> surface k entry
      | None \<Rightarrow> (if entry then surface SURFACE_EMAIL_ENTRY True else surface SURFACE_AMBIGUOUS False))"

definition USE_ANOTHER_ACCOUNT_LABELS :: "string list" where
  "USE_ANOTHER_ACCOUNT_LABELS = [''Use another account'', ''Use a different account'', ''Other user'',
     ''Outra conta'', ''Utilizar outra conta'']"

definition KMSI_DECLINE_LABELS :: "string list" where
  "KMSI_DECLINE_LABELS = [''No'', ''N'' @ [CHR 0xE3] @ ''o'']"

definition AUTHENTICATOR_METHOD_LABELS :: "string list" where
  "AUTHENTICATOR_METHOD_LABELS = [
     ''Approve a request on my Authenticator app'',
     ''Aprovar uma solicita'' @ [CHR 0xE7, CHR 0xE3] @ ''o no meu aplicativo Authenticator'',
     ''Aprovar um pedido na minha aplica'' @ [CHR 0xE7, CHR 0xE3] @ ''o de Microsoft Authenticator'',
     ''Approve a request on my Microsoft Authenticator app'',
     ''Send notification'',
     ''Enviar notifica'' @ [CHR 0xE7, CHR 0xE3] @ ''o'']"

definition SIGNIN_OPTIONS_LABELS :: "string list" where
  "SIGNIN_OPTIONS_LABELS = [''Sign-in options'', ''Other ways to sign in'', ''Sign in another way'',
     ''Use a different verification option'', ''Op'' @ [CHR 0xE7, CHR 0xF5] @ ''es de in'' @ [CHR 0xED] @ ''cio de sess'' @ [CHR 0xE3] @ ''o'']"

definition FORWARDABLE_SURFACES :: "SigninSurfaceKind list" where
  "FORWARDABLE_SURFACES = [SURFACE_ACCOUNT_CHOOSER, SURFACE_USE_ANOTHER_ACCOUNT]"

text \<open>The two loops over labels and roles: click the first control whose count is accepted. An error of
  the count or of the click moves on to the next.\<close>

fun click_role :: "'w driver \<Rightarrow> page \<Rightarrow> (nat \<Rightarrow> bool) \<Rightarrow> (string \<times> string) list \<Rightarrow> ('w, bool) io" where
  "click_role d p accept [] = io_return False"
| "click_role d p accept ((label, role) # rest) =
     io_bind (io_catch
       (io_bind (count_of d p (ByRole role (Some label) False)) (\<lambda>n.
        if accept n then io_bind (perform d (ClickFirst p (ByRole role (Some label) False))) (\<lambda>_. io_return True)
        else io_return False))
       (\<lambda>_. io_return False)) (\<lambda>clicked.
     if clicked then io_return True else click_role d p accept rest)"

definition click_use_another_account :: "'w driver \<Rightarrow> page \<Rightarrow> ('w, bool) io" where
  "click_use_another_account d p =
     click_role d p (\<lambda>n. 1 \<le> n) (List.product USE_ANOTHER_ACCOUNT_LABELS [''link'', ''button''])"

definition click_kmsi_decline :: "'w driver \<Rightarrow> page \<Rightarrow> ('w, bool) io" where
  "click_kmsi_decline d p = click_role d p (\<lambda>n. n = 1) (List.product KMSI_DECLINE_LABELS [''button'', ''link''])"

text \<open>Counting a closed label set by exact text; \<open>None\<close> when a count raised.\<close>

fun count_labels ::
  "'w driver \<Rightarrow> page \<Rightarrow> nat \<Rightarrow> page_query option \<Rightarrow> string list \<Rightarrow> ('w, (nat \<times> page_query option) option) io" where
  "count_labels d p tally sole [] = io_return (Some (tally, sole))"
| "count_labels d p tally sole (label # labels) =
     io_bind (io_ok (count_of d p (ByExactText label))) (\<lambda>n. case n of
       None \<Rightarrow> io_return None
     | Some k \<Rightarrow>
         (if k = 0 then count_labels d p tally sole labels
          else count_labels d p (tally + k)
            (if tally + k = 1 \<and> k = 1 then Some (ByExactText label) else sole) labels))"

definition click_unique_label :: "'w driver \<Rightarrow> page \<Rightarrow> string list \<Rightarrow> ('w, bool) io" where
  "click_unique_label d p labels = io_bind (count_labels d p 0 None labels) (\<lambda>r. case r of
     Some (tally, Some q) \<Rightarrow>
       (if tally = 1 then io_catch (io_bind (perform d (ClickFirst p q)) (\<lambda>_. io_return True)) (\<lambda>_. io_return False)
        else io_return False)
   | _ \<Rightarrow> io_return False)"

definition click_authenticator_method :: "'w driver \<Rightarrow> page \<Rightarrow> ('w, bool) io" where
  "click_authenticator_method d p = click_unique_label d p AUTHENTICATOR_METHOD_LABELS"

definition click_signin_options :: "'w driver \<Rightarrow> page \<Rightarrow> ('w, bool) io" where
  "click_signin_options d p = click_unique_label d p SIGNIN_OPTIONS_LABELS"

subsection \<open>The resolvers\<close>

definition diagnose_with_controls ::
  "'w driver \<Rightarrow> UIContractSet result \<Rightarrow> page \<Rightarrow> ('w, string) io \<Rightarrow> ('w, SurfaceClassification) io" where
  "diagnose_with_controls d contract p read_text = io_bind read_text (\<lambda>t.
     io_bind (io_ok (detect_email_entry_state d contract p)) (\<lambda>state.
     io_return (classify_signin_surface t state)))"

definition resolve_signin_surface_to_email_entry ::
  "'w driver \<Rightarrow> UIContractSet result \<Rightarrow> page \<Rightarrow> ('w, string) io \<Rightarrow> ('w, SigninSurfaceResolution) io" where
  "resolve_signin_surface_to_email_entry d contract p read_text = io_bind read_text (\<lambda>t.
     io_bind (io_ok (detect_email_entry_state d contract p)) (\<lambda>state.
     if (case state of None \<Rightarrow> False | Some e \<Rightarrow> ee_ambiguous e)
     then io_return (resolution SURFACE_AMBIGUOUS False (sf_kind (classify_signin_surface t None)))
     else
       (let structural = (case state of None \<Rightarrow> False | Some e \<Rightarrow> email_pair e);
            kind = sf_kind (classify_signin_surface t (if structural then state else None)) in
        if kind = SURFACE_EMAIL_ENTRY then io_return (resolution kind False kind)
        else if kind \<in> set FORWARDABLE_SURFACES
        then io_bind (click_use_another_account d p) (\<lambda>clicked.
          if \<not> clicked then io_return (resolution SURFACE_AMBIGUOUS False kind)
          else io_bind read_text (\<lambda>t2.
            (let kind2 = sf_kind (classify_signin_surface t2 None) in
             io_return (resolution (if kind2 = SURFACE_EMAIL_ENTRY then kind2 else SURFACE_AMBIGUOUS) True kind2))))
        else io_return (resolution SURFACE_AMBIGUOUS False kind))))"

definition resolve_stay_signed_in_surface ::
  "'w driver \<Rightarrow> page \<Rightarrow> ('w, string) io \<Rightarrow> ('w, SigninSurfaceResolution) io" where
  "resolve_stay_signed_in_surface d p read_text = io_bind read_text (\<lambda>t.
     (let kind = sf_kind (classify_signin_surface t None) in
      if kind \<noteq> SURFACE_STAY_SIGNED_IN then io_return (resolution SURFACE_AMBIGUOUS False kind)
      else io_bind (click_kmsi_decline d p) (\<lambda>clicked.
        if \<not> clicked then io_return (resolution SURFACE_AMBIGUOUS False SURFACE_STAY_SIGNED_IN)
        else io_bind read_text (\<lambda>t2.
          (let kind2 = sf_kind (classify_signin_surface t2 None) in io_return (resolution kind2 True kind2))))))"

text \<open>The part of the method-selection resolver after a click on the Authenticator control, and the part
  that goes through the sign-in options.\<close>

definition resolved_after :: "('w, string) io \<Rightarrow> ('w, SigninSurfaceResolution) io" where
  "resolved_after read_text = io_bind read_text (\<lambda>t.
     (let kind = sf_kind (classify_signin_surface t None) in io_return (resolution kind True kind)))"

definition resolve_through_options ::
  "'w driver \<Rightarrow> page \<Rightarrow> ('w, string) io \<Rightarrow> SigninSurfaceKind \<Rightarrow> ('w, SigninSurfaceResolution) io" where
  "resolve_through_options d p read_text kind =
     io_bind (click_signin_options d p) (\<lambda>opened.
     if \<not> opened then io_return (resolution SURFACE_AMBIGUOUS False kind)
     else io_bind (sleep_ms d 1000) (\<lambda>_. io_bind read_text (\<lambda>t2.
       (let kind2 = sf_kind (classify_signin_surface t2 None) in
        if kind2 \<noteq> SURFACE_METHOD_SELECTION then io_return (resolution SURFACE_AMBIGUOUS False kind2)
        else io_bind (click_authenticator_method d p) (\<lambda>clicked.
          if \<not> clicked then io_return (resolution SURFACE_AMBIGUOUS False kind2)
          else resolved_after read_text)))))"

definition resolve_method_selection_surface ::
  "'w driver \<Rightarrow> page \<Rightarrow> ('w, string) io \<Rightarrow> ('w, SigninSurfaceResolution) io" where
  "resolve_method_selection_surface d p read_text = io_bind read_text (\<lambda>t.
     (let kind = sf_kind (classify_signin_surface t None) in
      if kind = SURFACE_METHOD_SELECTION
      then io_bind (click_authenticator_method d p) (\<lambda>clicked.
        if clicked then resolved_after read_text else resolve_through_options d p read_text kind)
      else if kind \<noteq> SURFACE_AMBIGUOUS then io_return (resolution SURFACE_AMBIGUOUS False kind)
      else resolve_through_options d p read_text kind))"

end
