(* ===== verification/Page_Effects.thy ===== *)
theory Page_Effects
  imports Live_Page
begin

text \<open>
  What an operation may do to the page. \<open>wp f m Q\<close> says of an operation started with the worker's own
  state \<open>f\<close> (the flags of the session) that it only appends to the log and that its result, what it
  appends and the flags it leaves satisfy \<open>Q\<close>, whatever the browser answers. The rules of \<open>wp_intro\<close>
  follow the code: one for each call of the browser and each way operations are put together.

  With them: resolving a locator only looks, and never returns an ambiguous one; discovery only counts;
  and each of the three resolvers clicks only controls of its closed label sets, and only on a surface
  of its kind.
\<close>

named_theorems wp_intro \<open>conditions under which an operation satisfies its specification\<close>

subsection \<open>Specifications of operations\<close>

type_synonym flags = "bool \<times> bool \<times> bool \<times> AuthContext"

definition flags_of :: "'w session \<Rightarrow> flags" where
  "flags_of s = (se_context s, se_playwright s, se_surface_resolved s, se_observation s)"

definition wp :: "flags \<Rightarrow> ('w, 'a) io \<Rightarrow> ('a wresult \<Rightarrow> interaction list \<Rightarrow> flags \<Rightarrow> bool) \<Rightarrow> bool" where
  "wp f m Q \<longleftrightarrow> (\<forall>s. flags_of s = f \<longrightarrow>
     (\<exists>l. se_log (snd (m s)) = se_log s @ l \<and> Q (fst (m s)) l (flags_of (snd (m s)))))"

lemma wpD: "wp f m Q \<Longrightarrow> flags_of s = f \<Longrightarrow> m s = (r, t) \<Longrightarrow>
    \<exists>l. se_log t = se_log s @ l \<and> Q r l (flags_of t)"
  by (force simp: wp_def)

lemma wp_conseq: "wp f m R \<Longrightarrow> (\<And>r l f'. R r l f' \<Longrightarrow> Q r l f') \<Longrightarrow> wp f m Q"
  unfolding wp_def by blast

lemma wp_conj: "wp f m Q \<Longrightarrow> wp f m R \<Longrightarrow> wp f m (\<lambda>r l f'. Q r l f' \<and> R r l f')"
  unfolding wp_def by (metis same_append_eq)

lemma wp_return [wp_intro]: "Q (Inr x) [] f \<Longrightarrow> wp f (io_return x) Q"
  by (simp add: wp_def io_return_def)

lemma wp_raise [wp_intro]: "Q (Inl e) [] f \<Longrightarrow> wp f (io_raise e) Q"
  by (simp add: wp_def io_raise_def)

lemma wp_lift [wp_intro]: "Q r [] f \<Longrightarrow> wp f (io_lift r) Q"
  by (simp add: wp_def io_lift_def)

lemma wp_unless [wp_intro]:
  "(ok \<Longrightarrow> Q (Inr ()) [] f) \<Longrightarrow> (\<not> ok \<Longrightarrow> Q (Inl e) [] f) \<Longrightarrow> wp f (io_unless ok e) Q"
  by (simp add: io_unless_def wp_return wp_raise)

lemma wp_bind [wp_intro]:
  fixes m :: "('w, 'a) io"
  assumes "wp f m (\<lambda>r l f'. case r of Inl e \<Rightarrow> Q (Inl e) l f'
     | Inr x \<Rightarrow> wp f' (g x) (\<lambda>r' l' f''. Q r' (l @ l') f''))"
  shows "wp f (io_bind m g) Q"
  unfolding wp_def
proof (intro allI impI)
  fix s :: "'w session" assume f: "flags_of s = f"
  obtain r t where m: "m s = (r, t)" by force
  from wpD [OF assms f m] obtain l where l: "se_log t = se_log s @ l" and
    c: "case r of Inl e \<Rightarrow> Q (Inl e) l (flags_of t)
      | Inr x \<Rightarrow> wp (flags_of t) (g x) (\<lambda>r' l' f''. Q r' (l @ l') f'')" by blast
  show "\<exists>l. se_log (snd (io_bind m g s)) = se_log s @ l \<and>
      Q (fst (io_bind m g s)) l (flags_of (snd (io_bind m g s)))"
  proof (cases r)
    case (Inr x)
    obtain r' t' where h: "g x t = (r', t')" by force
    from c Inr have w: "wp (flags_of t) (g x) (\<lambda>r' l' f''. Q r' (l @ l') f'')" by simp
    from wpD [OF w refl h] obtain l' where "se_log t' = se_log t @ l'" "Q r' (l @ l') (flags_of t')" by blast
    with l m h Inr show ?thesis by (auto simp: io_bind_def)
  qed (use c l m in \<open>auto simp: io_bind_def\<close>)
qed

lemma wp_catch [wp_intro]:
  fixes m :: "('w, 'a) io"
  assumes "wp f m (\<lambda>r l f'. case r of Inr x \<Rightarrow> Q (Inr x) l f'
     | Inl e \<Rightarrow> wp f' (h e) (\<lambda>r' l' f''. Q r' (l @ l') f''))"
  shows "wp f (io_catch m h) Q"
  unfolding wp_def
proof (intro allI impI)
  fix s :: "'w session" assume f: "flags_of s = f"
  obtain r t where m: "m s = (r, t)" by force
  from wpD [OF assms f m] obtain l where l: "se_log t = se_log s @ l" and
    c: "case r of Inr x \<Rightarrow> Q (Inr x) l (flags_of t)
      | Inl e \<Rightarrow> wp (flags_of t) (h e) (\<lambda>r' l' f''. Q r' (l @ l') f'')" by blast
  show "\<exists>l. se_log (snd (io_catch m h s)) = se_log s @ l \<and>
      Q (fst (io_catch m h s)) l (flags_of (snd (io_catch m h s)))"
  proof (cases r)
    case (Inl e)
    obtain r' t' where h: "h e t = (r', t')" by force
    from c Inl have w: "wp (flags_of t) (h e) (\<lambda>r' l' f''. Q r' (l @ l') f'')" by simp
    from wpD [OF w refl h] obtain l' where "se_log t' = se_log t @ l'" "Q r' (l @ l') (flags_of t')" by blast
    with l m h Inl show ?thesis by (auto simp: io_catch_def)
  qed (use c l m in \<open>auto simp: io_catch_def\<close>)
qed

lemma wp_ok [wp_intro]:
  "wp f m (\<lambda>r l f'. case r of Inl e \<Rightarrow> Q (Inr None) l f' | Inr x \<Rightarrow> Q (Inr (Some x)) l f') \<Longrightarrow> wp f (io_ok m) Q"
  unfolding wp_def io_ok_def by (fastforce split: prod.splits sum.splits)

lemma wp_if [wp_intro]: "(b \<Longrightarrow> wp f m Q) \<Longrightarrow> (\<not> b \<Longrightarrow> wp f n Q) \<Longrightarrow> wp f (if b then m else n) Q"
  by simp

lemma wp_option [wp_intro]:
  "(v = None \<Longrightarrow> wp f m Q) \<Longrightarrow> (\<And>x. v = Some x \<Longrightarrow> wp f (g x) Q) \<Longrightarrow>
     wp f (case v of None \<Rightarrow> m | Some x \<Rightarrow> g x) Q"
  by (cases v) auto

lemma flags_logged [simp]: "flags_of (logged i w s) = flags_of s" "se_log (logged i w s) = se_log s @ [i]"
  by (simp_all add: logged_def flags_of_def)

lemma wp_see_pages [wp_intro]: "(\<And>ps. Q (Inr ps) [SawPages ps] f) \<Longrightarrow> wp f (see_pages d) Q"
  by (simp add: wp_def see_pages_def Let_def)

lemma wp_see_url [wp_intro]: "(\<And>u. Q (Inr u) [SawUrl p u] f) \<Longrightarrow> wp f (see_url d p) Q"
  by (simp add: wp_def see_url_def Let_def)

lemma wp_count [wp_intro]:
  "(\<And>n. Q (Inr n) [Counted p q (Some n)] f) \<Longrightarrow> Q (Inl Uncaught) [Counted p q None] f \<Longrightarrow> wp f (count_of d p q) Q"
  by (auto simp: wp_def count_of_def split: prod.splits option.splits)

lemma wp_wait [wp_intro]:
  "Q (Inr ()) [WaitedVisible p q n True] f \<Longrightarrow> Q (Inl Uncaught) [WaitedVisible p q n False] f \<Longrightarrow>
     wp f (wait_visible d p q n) Q"
  by (auto simp: wp_def wait_visible_def split: prod.splits)

lemma wp_text [wp_intro]:
  "(\<And>t. Q (Inr t) [SawText p (Some t)] f) \<Longrightarrow> Q (Inl Uncaught) [SawText p None] f \<Longrightarrow> wp f (inner_text d p) Q"
  by (auto simp: wp_def inner_text_def split: prod.splits option.splits)

lemma wp_sleep [wp_intro]: "Q (Inr ()) [Slept n] f \<Longrightarrow> wp f (sleep_ms d n) Q"
  by (simp add: wp_def sleep_ms_def)

lemma wp_new_page [wp_intro]:
  "(\<And>p. Q (Inr p) [OpenedPage (Some p)] f) \<Longrightarrow> Q (Inl Uncaught) [OpenedPage None] f \<Longrightarrow> wp f (new_page d) Q"
  by (auto simp: wp_def new_page_def split: prod.splits option.splits)

lemma wp_perform [wp_intro]:
  "Q (Inr ()) [Performed a True] f \<Longrightarrow> Q (Inl Uncaught) [Performed a False] f \<Longrightarrow> wp f (perform d a) Q"
  by (auto simp: wp_def perform_def split: prod.splits)

lemma wp_lifecycle [wp_intro]:
  "Q (Inr ()) [Lifecycle c True] f \<Longrightarrow> Q (Inl Uncaught) [Lifecycle c False] f \<Longrightarrow> wp f (lifecycle d c) Q"
  by (auto simp: wp_def lifecycle_def split: prod.splits)

lemma wp_get_context [wp_intro]: "Q (Inr (fst f)) [] f \<Longrightarrow> wp f (io_get se_context) Q"
  by (auto simp: wp_def io_get_def flags_of_def)

lemma wp_get_resolved [wp_intro]: "Q (Inr (fst (snd (snd f)))) [] f \<Longrightarrow> wp f (io_get se_surface_resolved) Q"
  by (auto simp: wp_def io_get_def flags_of_def)

subsection \<open>Actions in a log\<close>

fun acts :: "interaction list \<Rightarrow> page_action list" where
  "acts [] = []"
| "acts (Performed a ok # l) = a # acts l"
| "acts (i # l) = acts l"

text \<open>The actions that succeeded.\<close>

fun done_acts :: "interaction list \<Rightarrow> page_action list" where
  "done_acts [] = []"
| "done_acts (Performed a True # l) = a # done_acts l"
| "done_acts (i # l) = done_acts l"

lemma acts_append [simp]: "acts (l @ m) = acts l @ acts m"
  by (induction l rule: acts.induct) auto

lemma done_acts_append [simp]: "done_acts (l @ m) = done_acts l @ done_acts m"
  by (induction l rule: done_acts.induct) auto

lemma done_acts_subset: "set (done_acts l) \<subseteq> set (acts l)"
  by (induction l rule: done_acts.induct) auto

text \<open>An operation that only looks keeps the flags and performs no action.\<close>

definition looks :: "('w, 'a) io \<Rightarrow> bool" where
  "looks m \<longleftrightarrow> (\<forall>f. wp f m (\<lambda>r l f'. f' = f \<and> acts l = []))"

lemma looks_wp: "looks m \<Longrightarrow> (\<And>r l. acts l = [] \<Longrightarrow> Q r l f) \<Longrightarrow> wp f m Q"
  unfolding looks_def by (erule allE [of _ f], erule wp_conseq) auto

lemma looks_bind: "looks m \<Longrightarrow> (\<And>x. looks (g x)) \<Longrightarrow> looks (io_bind m g)"
  unfolding looks_def
  by (intro allI wp_bind, erule allE, erule wp_conseq) (auto split: sum.splits intro: wp_conseq)

lemma looks_catch: "looks m \<Longrightarrow> (\<And>e. looks (h e)) \<Longrightarrow> looks (io_catch m h)"
  unfolding looks_def
  by (intro allI wp_catch, erule allE, erule wp_conseq) (auto split: sum.splits intro: wp_conseq)

lemma looks_ok: "looks m \<Longrightarrow> looks (io_ok m)"
  unfolding looks_def
  by (intro allI wp_ok, erule allE, erule wp_conseq) (auto split: sum.splits)

lemma looks_simps [simp]:
  "looks (io_return x)" "looks (io_raise e)" "looks (io_lift r)" "looks (io_unless b e)"
  "looks (see_pages d)" "looks (see_url d p)" "looks (count_of d p q)" "looks (wait_visible d p q n)"
  "looks (inner_text d p)" "looks (sleep_ms d n)"
  by (simp_all add: looks_def) (intro allI wp_intro; simp)+

subsection \<open>Looking\<close>

lemma looks_if [simp]: "looks m \<Longrightarrow> looks n \<Longrightarrow> looks (if b then m else n)" by simp

lemma looks_option [simp]:
  "looks m \<Longrightarrow> (\<And>x. looks (g x)) \<Longrightarrow> looks (case v of None \<Rightarrow> m | Some x \<Rightarrow> g x)"
  by (cases v) auto

lemmas looks_intro = looks_bind looks_catch looks_ok looks_option looks_if

lemma looks_get [simp]: "looks browser_started'" if "browser_started' = io_get (\<lambda>s. g (flags_of s))"
  unfolding that looks_def wp_def io_get_def by simp

text \<open>A log of counts and waits only.\<close>

fun quiet :: "interaction list \<Rightarrow> bool" where
  "quiet [] = True"
| "quiet (Counted p q n # l) = quiet l"
| "quiet (WaitedVisible p q n ok # l) = quiet l"
| "quiet (i # l) = False"

lemma quiet_append [simp]: "quiet (l @ m) = (quiet l \<and> quiet m)"
  by (induction l rule: quiet.induct) auto

lemma quiet_acts [simp]: "quiet l \<Longrightarrow> acts l = []"
  by (induction l rule: quiet.induct) auto

lemma resolve_candidates_spec:
  assumes "\<And>r l. quiet l \<Longrightarrow>
      (\<And>q. r = Inr q \<Longrightarrow> q \<in> build_locator ` set cs \<and> l \<noteq> [] \<and> last l = Counted p q (Some 1)) \<Longrightarrow>
      (\<And>e. r = Inl e \<Longrightarrow> \<exists>why. e = LocatorRuntimeError key why) \<Longrightarrow> Q r l f"
  shows "wp f (resolve_candidates d p key timeout reason cs) Q"
  using assms
proof (induction cs arbitrary: reason Q)
  case Nil
  show ?case by (simp, rule wp_raise, rule Nil) auto
next
  case (Cons c cs)
  have ih: "wp f (resolve_candidates d p key timeout why cs) (\<lambda>r l. Q r (pre @ l))" if "quiet pre" for why pre
    by (rule Cons.IH, rule Cons.prems) (use that in auto)
  have q: "Q r (pre @ [Counted p (build_locator c) (Some n)]) f"
    if "quiet pre" "r = Inr (build_locator c)" "0 < n" "\<not> Suc 0 < n" for r pre n
  proof -
    from that have "n = 1" by simp
    with that show ?thesis by (intro Cons.prems) auto
  qed
  have a: "Q r pre f" if "quiet pre" "r = Inl (LocatorRuntimeError key why)" for r pre why
    by (rule Cons.prems) (use that in auto)
  let ?c = "build_locator c"
  show ?case
    unfolding resolve_candidates.simps
    using ih [of "[WaitedVisible p ?c timeout False]"] ih [of "[WaitedVisible p ?c timeout True, Counted p ?c None]"]
      ih [of "[WaitedVisible p ?c timeout True, Counted p ?c (Some 0)]"]
      q [of "[WaitedVisible p ?c timeout True]", OF _ refl] a
    by (auto intro!: wp_intro simp del: build_locator.simps)
qed

lemma resolve_visible_spec:
  assumes "\<And>r l. quiet l \<Longrightarrow>
      (\<And>q. r = Inr q \<Longrightarrow> q \<in> build_locator ` set (lp_candidates plan) \<and> l \<noteq> [] \<and> last l = Counted p q (Some 1)) \<Longrightarrow>
      (\<And>e. r = Inl e \<Longrightarrow> \<exists>why. e = LocatorRuntimeError (lp_selector_key plan) why) \<Longrightarrow> Q r l f"
  shows "wp f (resolve_visible_locator d p plan n) Q"
  unfolding resolve_visible_locator_def
  by (auto intro!: wp_intro resolve_candidates_spec assms simp: ordered_candidates_def)

lemma looks_discover_candidates: "looks (discover_candidates d p key m cs)"
  by (induction cs) (auto intro!: looks_intro)

lemma looks_discover [simp]: "looks (discover_key d c p key)"
  by (auto simp: discover_key_def looks_discover_candidates split: sum.splits option.splits)

lemma looks_detect [simp]: "looks (detect_email_entry_state d c p)"
  unfolding detect_email_entry_state_def by (auto intro!: looks_intro)

lemma looks_combined [simp]: "looks (detect_combined_signin_form d p)"
  unfolding detect_combined_signin_form_def by (auto intro!: looks_intro)

lemma looks_count_labels [simp]: "looks (count_labels d p n sole labels)"
  by (induction labels arbitrary: n sole) (auto intro!: looks_intro)

subsection \<open>Clicking one control of a closed set\<close>

definition role_click :: "page \<Rightarrow> string \<times> string \<Rightarrow> page_action" where
  "role_click p x = ClickFirst p (ByRole (snd x) (Some (fst x)) False)"

lemma click_role_spec:
  assumes "\<And>b l. set (acts l) \<subseteq> role_click p ` set ps \<Longrightarrow>
     (if b then length (done_acts l) = 1 else done_acts l = []) \<Longrightarrow> Q (Inr b) l f"
  shows "wp f (click_role d p accept ps) Q"
  using assms
proof (induction ps arbitrary: Q)
  case Nil
  show ?case by (simp, rule wp_return, rule Nil) auto
next
  case (Cons x ps)
  obtain label role where x: "x = (label, role)" by force
  have c: "role_click p x = ClickFirst p (ByRole role (Some label) False)" by (simp add: role_click_def x)
  have ih: "wp f (click_role d p accept ps) (\<lambda>r l. Q r (pre @ l))"
    if "set (acts pre) \<subseteq> {role_click p x}" "done_acts pre = []" for pre
    by (rule Cons.IH, rule Cons.prems) (use that in \<open>auto split: if_splits\<close>)
  let ?q = "ByRole role (Some label) False"
  have "Q (Inr True) [Counted p ?q n, Performed (ClickFirst p ?q) True] f" for n
    by (rule Cons.prems) (simp_all add: c)
  then show ?case
    unfolding x click_role.simps
    using ih [of "[Counted p ?q None]"] ih [of "[Counted p ?q n, Performed (ClickFirst p ?q) False]" for n]
      ih [of "[Counted p ?q n]" for n]
    by (auto intro!: wp_intro simp: c)
qed

definition text_click :: "page \<Rightarrow> string \<Rightarrow> page_action" where
  "text_click p label = ClickFirst p (ByExactText label)"

text \<open>The sum of the counts in a log.\<close>

fun counts :: "interaction list \<Rightarrow> nat" where
  "counts [] = 0"
| "counts (Counted p q (Some n) # l) = n + counts l"
| "counts (i # l) = counts l"

lemma counts_append [simp]: "counts (l @ m) = counts l + counts m"
  by (induction l rule: counts.induct) auto

lemma count_labels_spec:
  assumes "\<And>x l. acts l = [] \<Longrightarrow>
     (\<And>m so. x = Some (m, so) \<Longrightarrow> m = n + counts l \<and> (so = sole \<or> so \<in> (Some \<circ> ByExactText) ` set labels)) \<Longrightarrow>
     Q (Inr x) l f"
  shows "wp f (count_labels d p n sole labels) Q"
  using assms
proof (induction labels arbitrary: n sole Q)
  case Nil
  show ?case by (simp, rule wp_return, rule Nil) auto
next
  case (Cons label labels)
  have ih: "wp f (count_labels d p (n + k) so labels) (\<lambda>r l. Q r (Counted p (ByExactText label) (Some k) # l))"
    if "so = sole \<or> so = Some (ByExactText label)" for k so
    by (rule Cons.IH, rule Cons.prems) (use that in \<open>auto\<close>)
  have n: "Q (Inr None) [Counted p (ByExactText label) None] f" by (rule Cons.prems) simp_all
  show ?case
    unfolding count_labels.simps
    using ih [of _ 0, simplified] ih n
    by (auto intro!: wp_intro)
qed

lemma click_unique_label_spec:
  assumes "\<And>b l. set (acts l) \<subseteq> text_click p ` set labels \<Longrightarrow>
     (if b then length (done_acts l) = 1 else done_acts l = []) \<Longrightarrow>
     (acts l \<noteq> [] \<Longrightarrow> counts l = 1) \<Longrightarrow> Q (Inr b) l f"
  shows "wp f (click_unique_label d p labels) Q"
  unfolding click_unique_label_def
proof (rule wp_bind, rule count_labels_spec)
  fix x l
  assume l: "acts l = []" and
    q: "\<And>m so. x = Some (m, so) \<Longrightarrow> m = 0 + counts l \<and> (so = None \<or> so \<in> (Some \<circ> ByExactText) ` set labels)"
  have dl: "done_acts l = []" using l done_acts_subset [of l] by auto
  have skip: "Q (Inr False) l f" by (rule assms) (simp_all add: l dl)
  have click: "Q (Inr True) (l @ [Performed (ClickFirst p (ByExactText t)) True]) f"
    "Q (Inr False) (l @ [Performed (ClickFirst p (ByExactText t)) False]) f"
    if "t \<in> set labels" "counts l = 1" for t
    by (rule assms; use that in \<open>simp add: l dl text_click_def\<close>)+
  show "case Inr x of Inl e \<Rightarrow> Q (Inl e) l f | Inr x \<Rightarrow> wp f (case x of None \<Rightarrow> io_return False
      | Some (n, None) \<Rightarrow> io_return False
      | Some (n, Some q) \<Rightarrow> if n = 1 then io_catch (io_bind (perform d (ClickFirst p q)) (\<lambda>_. io_return True)) (\<lambda>_. io_return False)
          else io_return False) (\<lambda>r' l'. Q r' (l @ l'))"
    using q skip click by (auto intro!: wp_intro split: option.splits)
qed

text \<open>What reading the page gives, and which texts a log has seen.\<close>

fun seen_texts :: "interaction list \<Rightarrow> string list" where
  "seen_texts [] = []"
| "seen_texts (SawText p (Some t) # l) = t # seen_texts l"
| "seen_texts (i # l) = seen_texts l"

lemma seen_texts_append [simp]: "seen_texts (l @ m) = seen_texts l @ seen_texts m"
  by (induction l rule: seen_texts.induct) auto

definition body_reader :: "('w, string) io \<Rightarrow> bool" where
  "body_reader m \<longleftrightarrow> (\<forall>f. wp f m (\<lambda>r l f'. f' = f \<and> acts l = [] \<and>
     (\<forall>t. r = Inr t \<longrightarrow> (\<exists>u. seen_texts l = [u] \<and> t = take 2000 u))))"

lemma body_reader_wp:
  "body_reader m \<Longrightarrow> (\<And>e l. acts l = [] \<Longrightarrow> Q (Inl e) l f) \<Longrightarrow>
     (\<And>u l. acts l = [] \<Longrightarrow> seen_texts l = [u] \<Longrightarrow> Q (Inr (take 2000 u)) l f) \<Longrightarrow> wp f m Q"
  unfolding body_reader_def
  by (erule allE [of _ f], erule wp_conseq) (metis sum.exhaust)

definition text_kind :: "string \<Rightarrow> SigninSurfaceKind" where
  "text_kind u = sf_kind (classify_signin_surface (take 2000 u) None)"

lemma no_acts_done [simp]: "acts l = [] \<Longrightarrow> done_acts l = []"
  using done_acts_subset [of l] by auto

text \<open>The three resolvers: the first text they read decides whether they act, they click only in their
  closed sets, and at most once or, through the options, twice.\<close>

definition kmsi_clicks :: "page \<Rightarrow> page_action set" where
  "kmsi_clicks p = role_click p ` set (List.product KMSI_DECLINE_LABELS [''button'', ''link''])"

definition another_account_clicks :: "page \<Rightarrow> page_action set" where
  "another_account_clicks p = role_click p ` set (List.product USE_ANOTHER_ACCOUNT_LABELS [''link'', ''button''])"

definition method_clicks :: "page \<Rightarrow> page_action set" where
  "method_clicks p = text_click p ` set (AUTHENTICATOR_METHOD_LABELS @ SIGNIN_OPTIONS_LABELS)"

lemma click_kmsi_spec:
  assumes "\<And>b l. set (acts l) \<subseteq> kmsi_clicks p \<Longrightarrow>
     (if b then length (done_acts l) = 1 else done_acts l = []) \<Longrightarrow> Q (Inr b) l f"
  shows "wp f (click_kmsi_decline d p) Q"
  unfolding click_kmsi_decline_def by (rule click_role_spec, rule assms [unfolded kmsi_clicks_def])

lemma click_another_spec:
  assumes "\<And>b l. set (acts l) \<subseteq> another_account_clicks p \<Longrightarrow>
     (if b then length (done_acts l) = 1 else done_acts l = []) \<Longrightarrow> Q (Inr b) l f"
  shows "wp f (click_use_another_account d p) Q"
  unfolding click_use_another_account_def by (rule click_role_spec, rule assms [unfolded another_account_clicks_def])

lemma click_method_spec:
  assumes "\<And>b l. set (acts l) \<subseteq> method_clicks p \<Longrightarrow>
     (if b then length (done_acts l) = 1 else done_acts l = []) \<Longrightarrow> Q (Inr b) l f"
  shows "wp f (click_authenticator_method d p) Q" "wp f (click_signin_options d p) Q"
  unfolding click_authenticator_method_def click_signin_options_def
  by (rule click_unique_label_spec, rule assms, auto simp: method_clicks_def)+

lemma kmsi_resolver_spec:
  assumes "body_reader m"
  shows "wp f (resolve_stay_signed_in_surface d p m) (\<lambda>r l f'. f' = f \<and>
     set (acts l) \<subseteq> kmsi_clicks p \<and> length (done_acts l) \<le> 1 \<and>
     (acts l \<noteq> [] \<longrightarrow> (\<exists>u us. seen_texts l = u # us \<and> text_kind u = SURFACE_STAY_SIGNED_IN)) \<and>
     (\<forall>x. r = Inr x \<longrightarrow> sr_advanced x = (done_acts l \<noteq> [])))"
  unfolding resolve_stay_signed_in_surface_def Let_def
  by (auto intro!: wp_intro body_reader_wp [OF assms] click_kmsi_spec
      simp: text_kind_def resolution_def split: if_splits)

lemma structural_kind:
  "\<not> ee_ambiguous e \<Longrightarrow> email_pair e \<Longrightarrow>
     sf_kind (classify_signin_surface t (Some e)) \<in> {SURFACE_UNKNOWN, SURFACE_ERROR, SURFACE_EMAIL_ENTRY}"
  by (simp add: classify_signin_surface_def Let_def surface_def)

lemma forwardable_structural:
  "case st of None \<Rightarrow> False | Some e \<Rightarrow> email_pair e \<Longrightarrow>
     \<not> (case st of None \<Rightarrow> False | Some e \<Rightarrow> ee_ambiguous e) \<Longrightarrow>
     sf_kind (classify_signin_surface t st) \<notin> set FORWARDABLE_SURFACES"
  by (cases st) (auto simp: FORWARDABLE_SURFACES_def dest: structural_kind [of _ t])

text \<open>A text was read that shows the email entry: on its own, or with the controls found on the page.\<close>

definition email_entry_seen :: "interaction list \<Rightarrow> bool" where
  "email_entry_seen l \<longleftrightarrow> (\<exists>u \<in> set (seen_texts l). \<exists>st.
     sf_kind (classify_signin_surface (take 2000 u) st) = SURFACE_EMAIL_ENTRY)"

lemma email_entry_seenI:
  "sf_kind (classify_signin_surface (take 2000 u) st) = SURFACE_EMAIL_ENTRY \<Longrightarrow> u \<in> set (seen_texts l) \<Longrightarrow>
     email_entry_seen l"
  by (auto simp: email_entry_seen_def)

lemma email_resolver_spec:
  assumes "body_reader m"
  shows "wp f (resolve_signin_surface_to_email_entry d c p m) (\<lambda>r l f'. f' = f \<and>
     set (acts l) \<subseteq> another_account_clicks p \<and> length (done_acts l) \<le> 1 \<and>
     (acts l \<noteq> [] \<longrightarrow> (\<exists>u us. seen_texts l = u # us \<and> text_kind u \<in> set FORWARDABLE_SURFACES)) \<and>
     (\<forall>x. r = Inr x \<longrightarrow> sr_kind x \<in> {SURFACE_EMAIL_ENTRY, SURFACE_AMBIGUOUS}) \<and>
     (\<forall>x. r = Inr x \<longrightarrow> sr_kind x = SURFACE_EMAIL_ENTRY \<longrightarrow> email_entry_seen l))"
  unfolding resolve_signin_surface_to_email_entry_def Let_def
  by (auto intro!: wp_intro body_reader_wp [OF assms] click_another_spec looks_wp [OF looks_ok [OF looks_detect]]
      simp: resolution_def text_kind_def forwardable_structural simp del: if_split_asm split: sum.splits)
    (erule email_entry_seenI, simp)+

lemma method_options_spec:
  assumes "body_reader m"
  shows "wp f (resolve_through_options d p m k) (\<lambda>r l f'. f' = f \<and>
     set (acts l) \<subseteq> method_clicks p \<and> length (done_acts l) \<le> 2 \<and>
     (\<forall>x. r = Inr x \<longrightarrow> sr_advanced x \<longrightarrow> length (done_acts l) = 2))"
  unfolding resolve_through_options_def resolved_after_def Let_def
  by (auto intro!: wp_intro body_reader_wp [OF assms] click_method_spec
      simp: resolution_def split: if_splits)

lemma method_resolver_spec:
  assumes "body_reader m"
  shows "wp f (resolve_method_selection_surface d p m) (\<lambda>r l f'. f' = f \<and>
     set (acts l) \<subseteq> method_clicks p \<and> length (done_acts l) \<le> 2 \<and>
     (acts l \<noteq> [] \<longrightarrow> (\<exists>u us. seen_texts l = u # us \<and> text_kind u \<in> {SURFACE_METHOD_SELECTION, SURFACE_AMBIGUOUS})) \<and>
     (\<forall>x. r = Inr x \<longrightarrow> sr_advanced x \<longrightarrow> done_acts l \<noteq> []))"
  unfolding resolve_method_selection_surface_def resolved_after_def Let_def
  by (auto intro!: wp_intro body_reader_wp [OF assms] click_method_spec
      wp_conseq [OF method_options_spec [OF assms]]
      simp: resolution_def text_kind_def split: if_splits)

end
