(* ===== verification/Browser_Session.thy ===== *)
theory Browser_Session
  imports Live_Page
begin

text \<open>
  \<open>m365_browser_worker/browser.py\<close>: the persistent professional browser and everything the worker may do
  with it. \<open>planner_mcp/ui_contract.py\<close>: the attestation the browser asks for.
  \<open>auth_bootstrap.py\<close>: the guard of the authentication bootstrap.

  The latch \<open>se_surface_resolved\<close> is the state the sign-in flow turns on: it is set when the email entry
  surface was resolved and cleared when sign-in begins again. The environment of the process, the two
  configuration fields, the loaded contract set and the query functions of \<open>urllib.parse\<close> (whose texts
  may leave the range of a \<open>char\<close>) are the record \<open>worker_env\<close>.

  The results: what \<open>submit_operator_signin\<close> may type and when, where the browser may navigate, and that
  stopping always releases what starting acquired.
\<close>

subsection \<open>Attestation the browser asks for\<close>

record UiContractStatus =
  cs_version :: string
  cs_contract_set_digest :: string
  cs_attested :: bool
  cs_attestation_status :: string
  cs_selector_count :: nat
  cs_unverified_selectors :: "string list"

definition load_status :: "UIContractSet result \<Rightarrow> UiContractStatus result" where
  "load_status contract = bindE contract (\<lambda>source.
     bindE (project_ui_contract_set source ''planner'' (Some (us_legacy_version source))) (\<lambda>c.
     bindE (contract_selectors c) (\<lambda>selectors.
     (let unverified = map fst (filter (\<lambda>(name, m). \<not> selector_status_is ''ATTESTED'' m) selectors);
          attested = (list_all uf_attested (us_fragments c) \<and> unverified = [])
      in Inr \<lparr>cs_version = us_legacy_version c, cs_contract_set_digest = contract_digest c,
              cs_attested = attested,
              cs_attestation_status = (if attested then ''ATTESTED'' else ''UNVERIFIED_LIVE''),
              cs_selector_count = length selectors, cs_unverified_selectors = unverified\<rparr>))))"

definition common_auth_fragments :: "UIContractSet \<Rightarrow> UIContractFragment list" where
  "common_auth_fragments c = filter (\<lambda>f. uf_fragment_id f \<in> set COMMON_AUTH_FRAGMENT_IDS) (us_fragments c)"

definition common_auth_attested :: "UIContractSet result \<Rightarrow> bool result" where
  "common_auth_attested contract = bindE contract (\<lambda>c.
     Inr (card (set (map uf_fragment_id (common_auth_fragments c))) = 2 \<and>
          length (filter effectively_attested (common_auth_fragments c)) = 2))"

definition require_attested :: "UIContractSet result \<Rightarrow> string \<Rightarrow> unit wresult" where
  "require_attested contract op1 = (case load_status contract of
     Inl e \<Rightarrow> Inl (Raised e)
   | Inr s \<Rightarrow> (if cs_attested s then Inr ()
       else Inl (UiContractUnattested (''live operation '' @ CHR 0x27 # op1 @ CHR 0x27 # '' blocked: UIContract not attested'')
         [(''ui_contract_version'', JStr (cs_version s)),
          (''ui_contract_set_digest'', JStr (cs_contract_set_digest s)),
          (''unverified_selectors'', JList (map JStr (cs_unverified_selectors s)))])))"

definition assert_no_drift :: "UIContractSet result \<Rightarrow> string \<Rightarrow> unit wresult" where
  "assert_no_drift contract observed = (case load_status contract of
     Inl e \<Rightarrow> Inl (Raised e)
   | Inr s \<Rightarrow> (if observed = cs_version s then Inr ()
       else Inl (UiDrift ''worker UIContract version differs from control plane''
         [(''expected'', JStr (cs_version s)), (''observed'', JStr observed)])))"

subsection \<open>The guard of the authentication bootstrap\<close>

text \<open>Its providers are arguments: each may look at the browser, and each may raise.\<close>

record 'w bootstrap_guard =
  bg_browser_started :: "('w, bool) io"
  bg_dedicated_profile :: "('w, bool) io"
  bg_approved_origin :: "('w, bool) io"
  bg_fully_attested :: "('w, bool) io"
  bg_strict_live_guard :: "string \<Rightarrow> ('w, unit) io"
  bg_planner_web_source :: "('w, bool) io"

definition operation_context :: "string \<Rightarrow> json_object" where
  "operation_context op1 = [(''operation'', JStr op1)]"

definition guard_bootstrap :: "'w bootstrap_guard \<Rightarrow> string \<Rightarrow> ('w, unit) io" where
  "guard_bootstrap g op1 =
     (if op1 \<notin> set AUTH_BOOTSTRAP_OPERATIONS
      then io_raise (PolicyDenied ''authentication bootstrap guard covers only auth lifecycle operations''
             (operation_context op1))
      else io_bind (bg_fully_attested g) (\<lambda>attested.
        if attested then bg_strict_live_guard g op1
        else io_bind (bg_browser_started g) (\<lambda>started.
          if \<not> started then io_raise (WorkerUnavailable
               ''authentication bootstrap requires a started live browser'' (operation_context op1))
          else io_bind (bg_dedicated_profile g) (\<lambda>dedicated.
            if \<not> dedicated then io_raise (PolicyDenied
                 ''authentication bootstrap requires the dedicated persistent professional browser profile''
                 (operation_context op1))
            else io_bind (bg_approved_origin g) (\<lambda>approved.
              if approved then io_return ()
              else io_bind (if op1 = PLANNER_WEB_BOOTSTRAP_OPERATION then bg_planner_web_source g else io_return False)
                (\<lambda>source. io_unless source (PolicyDenied
                   ''authentication bootstrap requires an approved Microsoft authentication origin''
                   (operation_context op1))))))))"

subsection \<open>State of the browser\<close>

record worker_env =
  en_environ :: environ
  en_profile_dir :: string
  en_config_mode :: string
  en_contract :: "UIContractSet result"
  en_parse_qsl :: "string \<Rightarrow> (string \<times> string) list"
  en_urlencode :: "(string \<times> string) list \<Rightarrow> string"

definition config_is_mock :: "worker_env \<Rightarrow> bool" where
  "config_is_mock e \<longleftrightarrow> lower (en_config_mode e) = ''mock''"

definition owns_context :: "'w session \<Rightarrow> bool" where
  "owns_context s \<longleftrightarrow> se_context s \<and> se_playwright s"

definition browser_started :: "('w, bool) io" where
  "browser_started = io_get owns_context"

definition is_dedicated_persistent_profile :: "worker_env \<Rightarrow> ('w, bool) io" where
  "is_dedicated_persistent_profile e =
     (if config_is_mock e then io_return False
      else io_bind (io_lift (wrap (browser_runtime_settings (en_environ e)))) (\<lambda>(expected, headless, mode).
        io_bind browser_started (\<lambda>started. io_return (started \<and> en_profile_dir e = expected))))"

definition open_pages :: "'w driver \<Rightarrow> ('w, (page \<times> string) list) io" where
  "open_pages d = io_bind (see_pages d) (\<lambda>ps. io_return (filter (\<lambda>(p, u). u \<noteq> []) ps))"

definition planner_web_surface_present :: "'w driver \<Rightarrow> ('w, bool) io" where
  "planner_web_surface_present d = io_bind browser_started (\<lambda>started.
     if \<not> started then io_return False
     else io_bind (open_pages d) (\<lambda>ps. case ps of
       [(p, u)] \<Rightarrow> io_return (is_planner_web_surface_url u)
     | _ \<Rightarrow> io_return False))"

definition auth_origin_approved :: "'w driver \<Rightarrow> ('w, bool) io" where
  "auth_origin_approved d = io_bind browser_started (\<lambda>started.
     if \<not> started then io_return False
     else io_bind (see_pages d) (\<lambda>ps. io_return (auth_origin_status (map snd ps) \<noteq> NON_APPROVED_ORIGIN)))"

definition begin_signin_source_permitted :: "'w driver \<Rightarrow> ('w, bool) io" where
  "begin_signin_source_permitted d = io_bind browser_started (\<lambda>started.
     if \<not> started then io_return False
     else io_bind (see_pages d) (\<lambda>ps. io_return (is_permitted_begin_signin_source (map snd ps))))"

definition ensure_live_allowed :: "worker_env \<Rightarrow> string \<Rightarrow> unit wresult" where
  "ensure_live_allowed e op1 = (case load_status (en_contract e) of
     Inl x \<Rightarrow> Inl (Raised x)
   | Inr s \<Rightarrow> (if cs_attested s then Inr ()
       else Inl (UiContractUnattested (''live browser operation '' @ CHR 0x27 # op1 @ CHR 0x27 # '' blocked'')
         [(''ui_contract_version'', JStr (cs_version s))])))"

text \<open>\<open>_require_single_auth_page\<close>.\<close>

definition SUBMIT :: json_object where
  "SUBMIT = operation_context ''auth_operator_submit''"

definition require_single_auth_page :: "'w driver \<Rightarrow> ('w, page) io" where
  "require_single_auth_page d = io_bind (io_get se_context) (\<lambda>context.
     if \<not> context then io_raise (WorkerUnavailable ''no browser context available for operator sign-in'' SUBMIT)
     else io_bind (open_pages d) (\<lambda>ps. case ps of
       [(p, u)] \<Rightarrow> io_return p
     | _ \<Rightarrow> io_raise (PolicyDenied ''operator sign-in requires exactly one open authentication page'' SUBMIT)))"

definition read_visible_body_bounded :: "'w driver \<Rightarrow> worker_env \<Rightarrow> nat \<Rightarrow> ('w, string) io" where
  "read_visible_body_bounded d e max_chars =
     (let observe = operation_context ''auth_observe'' in
      io_bind browser_started (\<lambda>started.
      if \<not> started then io_raise (WorkerUnavailable ''operator observation requires a started live browser'' observe)
      else io_bind (is_dedicated_persistent_profile e) (\<lambda>dedicated.
      if \<not> dedicated then io_raise (PolicyDenied
          ''operator observation requires the dedicated persistent professional browser profile'' observe)
      else io_bind (open_pages d) (\<lambda>ps. case ps of
        [(p, u)] \<Rightarrow> io_bind (auth_origin_approved d) (\<lambda>approved.
          if \<not> approved \<and> \<not> is_planner_web_surface_url u then io_raise (PolicyDenied
              ''operator observation only permits the approved Microsoft authentication origin or the fixed Planner Web surface''
              observe)
          else io_catch (io_bind (inner_text d p) (\<lambda>t. io_return (take max_chars t)))
            (\<lambda>_. io_raise (PolicyDenied ''operator observation could not read the visible page surface'' observe)))
      | _ \<Rightarrow> io_raise (PolicyDenied ''operator observation requires exactly one open authentication page'' observe)))))"

definition CONDITIONAL_ACCESS_MARKERS :: "string list" where
  "CONDITIONAL_ACCESS_MARKERS = [''your device must be managed'', ''device is not compliant'',
     ''enrol this device'', ''enroll this device'', ''company portal'']"

definition detect_conditional_access_block :: "string \<Rightarrow> bool" where
  "detect_conditional_access_block page_text = any_marker (lower page_text) CONDITIONAL_ACCESS_MARKERS"

definition guard_conditional_access :: "string \<Rightarrow> unit wresult" where
  "guard_conditional_access page_text =
     (if detect_conditional_access_block page_text
      then Inl (BlockerConditionalAccess
        ''Conditional Access requires a managed/compliant device; enrolment and bypass are forbidden by policy'' [])
      else Inr ())"

subsection \<open>Navigation\<close>

text \<open>The page a navigation reuses: the only Planner Web page, else the only neutral page; two of a kind
  are refused (\<open>Inl True\<close> for Planner Web, \<open>Inl False\<close> for neutral pages).\<close>

fun pick_pages :: "(page \<times> string) list \<Rightarrow> page option \<Rightarrow> page option \<Rightarrow> bool + (page option \<times> page option)" where
  "pick_pages [] planner neutral = Inr (planner, neutral)"
| "pick_pages ((p, u) # rest) planner neutral =
     (if is_planner_web_surface_url u
      then (if planner \<noteq> None then Inl True else pick_pages rest (Some p) neutral)
      else if is_reusable_bootstrap_page u
      then (if neutral \<noteq> None then Inl False else pick_pages rest planner (Some p))
      else pick_pages rest planner neutral)"

definition navigate_auth_bootstrap :: "'w driver \<Rightarrow> worker_env \<Rightarrow> ('w, unit) io" where
  "navigate_auth_bootstrap d e =
     (let context = operation_context ''auth_bootstrap_open_planner_web'' in
      io_bind browser_started (\<lambda>started.
      if \<not> started then io_raise (WorkerUnavailable
          ''authentication bootstrap navigation requires a started live browser'' context)
      else io_bind (io_lift (wrap (evaluate_bootstrap_target (en_environ e)))) (\<lambda>target.
      if \<not> ed_allowed target then io_raise (PolicyDenied
          ''authentication bootstrap navigation denied by closed egress policy''
          (context @ [(''reason'', JStr (ed_reason target))]))
      else io_bind (see_pages d) (\<lambda>ps. case pick_pages ps None None of
        Inl many_planner \<Rightarrow> io_raise (PolicyDenied (if many_planner
            then ''authentication bootstrap refuses an ambiguous topology with multiple Planner Web pages open''
            else ''authentication bootstrap refuses an ambiguous topology with multiple neutral pages open'') context)
      | Inr (planner, neutral) \<Rightarrow>
          io_bind (case planner of Some p \<Rightarrow> io_return p
                   | None \<Rightarrow> (case neutral of Some p \<Rightarrow> io_return p | None \<Rightarrow> new_page d)) (\<lambda>p.
          io_bind (io_lift (wrap (resolve_planner_web_bootstrap_url (en_environ e)))) (\<lambda>url.
          perform d (Goto p url)))))))"

definition BEGIN_SIGNIN :: json_object where
  "BEGIN_SIGNIN = operation_context ''auth_begin_signin''"

definition require_landed_on_approved_auth_origin :: "'w driver \<Rightarrow> page \<Rightarrow> ('w, unit) io" where
  "require_landed_on_approved_auth_origin d p = io_bind (see_url d p) (\<lambda>raw.
     io_unless (auth_origin_status [raw] = APPROVED_AUTH_ORIGIN) (PolicyDenied
       ''begin sign-in navigation did not establish an approved Microsoft authentication origin; refusing to report success''
       BEGIN_SIGNIN))"

text \<open>\<open>urlunsplit\<close> for parts with an authority.\<close>

definition url_unsplit :: "url_parts \<Rightarrow> string" where
  "url_unsplit u =
     (let path = (if up_path u \<noteq> [] \<and> hd (up_path u) \<noteq> CHR ''/'' then CHR ''/'' # up_path u else up_path u);
          with_scheme = (if up_scheme u = [] then ''//'' @ up_netloc u @ path
                         else up_scheme u @ ''://'' @ up_netloc u @ path);
          with_query = (if up_query u = [] then with_scheme else with_scheme @ ''?'' @ up_query u)
      in (if up_fragment u = [] then with_query else with_query @ ''#'' @ up_fragment u))"

definition with_login_prompt :: "worker_env \<Rightarrow> url_parts \<Rightarrow> string" where
  "with_login_prompt e u = url_unsplit (u\<lparr>up_query := en_urlencode e
     (filter (\<lambda>(k, v). lower k \<noteq> ''prompt'') (en_parse_qsl e (up_query u)) @ [(''prompt'', ''login'')])\<rparr>)"

definition maybe_force_reauth_on_landing :: "'w driver \<Rightarrow> worker_env \<Rightarrow> page \<Rightarrow> ('w, unit) io" where
  "maybe_force_reauth_on_landing d e p = io_bind (detect_combined_signin_form d p) (\<lambda>present.
     if present then io_return ()
     else io_bind (see_url d p) (\<lambda>raw. io_bind (io_lift (wrap (url_split raw))) (\<lambda>parsed.
       if up_query parsed = [] \<or> \<not> is_approved_auth_origin (normal_host parsed) then io_return ()
       else perform d (Goto p (with_login_prompt e parsed)))))"

fun popup_reaches :: "'w driver \<Rightarrow> page \<Rightarrow> nat \<Rightarrow> ('w, bool) io" where
  "popup_reaches d p 0 = io_return False"
| "popup_reaches d p (Suc n) = io_bind (see_url d p) (\<lambda>raw. io_bind (io_lift (wrap (url_split raw))) (\<lambda>parsed.
     if prefix ''https://'' raw \<and> is_approved_auth_origin (normal_host parsed) then io_return True
     else io_bind (sleep_ms d 50) (\<lambda>_. popup_reaches d p n)))"

definition popup_reaches_approved_auth_origin :: "'w driver \<Rightarrow> page \<Rightarrow> ('w, bool) io" where
  "popup_reaches_approved_auth_origin d p = popup_reaches d p 6"

fun stabilize_pages :: "'w driver \<Rightarrow> nat \<Rightarrow> page list \<Rightarrow> ('w, page list) io" where
  "stabilize_pages d 0 seen = io_return seen"
| "stabilize_pages d (Suc n) seen = io_bind (sleep_ms d 30) (\<lambda>_. io_bind (see_pages d) (\<lambda>ps.
     if set (map fst ps) = set seen then io_return seen else stabilize_pages d n (map fst ps)))"

fun close_pages :: "'w driver \<Rightarrow> page list \<Rightarrow> ('w, unit) io" where
  "close_pages d [] = io_return ()"
| "close_pages d (p # ps) = io_bind (perform d (ClosePage p)) (\<lambda>_. close_pages d ps)"

definition SIGN_IN_BUTTON :: page_query where
  "SIGN_IN_BUTTON = ByRole ''button'' (Some ''Sign In'') True"

text \<open>Begin sign-in from a Planner Web page: click its one control and find the page the flow goes on in.\<close>

definition signin_from_planner :: "'w driver \<Rightarrow> page \<Rightarrow> ('w, page) io" where
  "signin_from_planner d p = io_bind (count_of d p SIGN_IN_BUTTON) (\<lambda>n.
     if n \<noteq> 1 then io_raise (PolicyDenied ''begin sign-in requires exactly one Planner Web Sign In control'' BEGIN_SIGNIN)
     else io_bind (see_pages d) (\<lambda>before_pages.
       io_bind (perform d (ClickOn p SIGN_IN_BUTTON)) (\<lambda>_.
       io_bind (see_pages d) (\<lambda>clicked_pages.
       io_bind (stabilize_pages d 10 (map fst clicked_pages)) (\<lambda>after_pages.
       case filter (\<lambda>q. q \<notin> set (map fst before_pages)) after_pages of
         [] \<Rightarrow> io_return p
       | [popup] \<Rightarrow> io_bind (popup_reaches_approved_auth_origin d popup) (\<lambda>ok.
           if ok then io_bind (perform d (ClosePage p)) (\<lambda>_. io_return popup)
           else io_bind (perform d (ClosePage popup)) (\<lambda>_. io_raise (PolicyDenied
             ''begin sign-in popup did not reach an approved Microsoft authentication origin; refusing'' BEGIN_SIGNIN)))
       | many \<Rightarrow> io_bind (close_pages d many) (\<lambda>_. io_raise (PolicyDenied
           ''begin sign-in refused an ambiguous multi-popup topology'' BEGIN_SIGNIN)))))))"

definition SOURCE_MESSAGE :: string where
  "SOURCE_MESSAGE = ''begin sign-in requires the dedicated professional profile to be positioned on Planner Web, a neutral placeholder, or an approved Microsoft authentication origin''"

definition begin_auth_signin :: "'w driver \<Rightarrow> worker_env \<Rightarrow> ('w, unit) io" where
  "begin_auth_signin d e = io_bind browser_started (\<lambda>started.
     if \<not> started then io_raise (WorkerUnavailable ''begin sign-in requires a started live browser'' BEGIN_SIGNIN)
     else io_bind (is_dedicated_persistent_profile e) (\<lambda>dedicated.
     if \<not> dedicated then io_raise (PolicyDenied
         ''begin sign-in requires the dedicated persistent professional browser profile'' BEGIN_SIGNIN)
     else io_bind (see_pages d) (\<lambda>urls.
     if classify_begin_signin_source (map snd urls) = SOURCE_NON_APPROVED
     then io_raise (PolicyDenied SOURCE_MESSAGE BEGIN_SIGNIN)
     else io_bind (io_lift (wrap evaluate_microsoft_auth_target)) (\<lambda>target.
     if \<not> ed_allowed target then io_raise (PolicyDenied
         ''begin sign-in Microsoft auth target denied by closed egress policy''
         (BEGIN_SIGNIN @ [(''reason'', JStr (ed_reason target))]))
     else io_bind (see_pages d) (\<lambda>ps. case pick_pages ps None None of
       Inl many_planner \<Rightarrow> io_raise (PolicyDenied (if many_planner
           then ''begin sign-in refuses an ambiguous topology with multiple Planner Web pages open''
           else ''begin sign-in refuses an ambiguous topology with multiple neutral pages open'') BEGIN_SIGNIN)
     | Inr (planner, neutral) \<Rightarrow>
         io_bind (case planner of
             Some p \<Rightarrow> signin_from_planner d p
           | None \<Rightarrow> io_bind (case neutral of Some p \<Rightarrow> io_return p | None \<Rightarrow> new_page d) (\<lambda>p.
               io_bind (perform d (Goto p MICROSOFT_AUTH_BOOTSTRAP_URL)) (\<lambda>_. io_return p))) (\<lambda>final_page.
         io_bind (io_update (\<lambda>s. s\<lparr>se_surface_resolved := False\<rparr>)) (\<lambda>_.
         io_bind (require_landed_on_approved_auth_origin d final_page) (\<lambda>_.
         io_bind (maybe_force_reauth_on_landing d e final_page) (\<lambda>_.
         require_landed_on_approved_auth_origin d final_page)))))))))"

subsection \<open>Stages of the sign-in\<close>

text \<open>The chain of checks the operator stages share: \<open>what\<close> is the beginning of their messages.\<close>

definition operator_checks ::
  "'w driver \<Rightarrow> worker_env \<Rightarrow> string \<Rightarrow> string \<Rightarrow> ('w, unit) io" where
  "operator_checks d e what op1 = io_bind browser_started (\<lambda>started.
     if \<not> started then io_raise (WorkerUnavailable (what @ '' requires a started live browser'') (operation_context op1))
     else io_bind (is_dedicated_persistent_profile e) (\<lambda>dedicated.
     if \<not> dedicated then io_raise (PolicyDenied
         (what @ '' requires the dedicated persistent professional browser profile'') (operation_context op1))
     else io_bind (auth_origin_approved d) (\<lambda>approved.
       io_unless approved (PolicyDenied
         (what @ '' requires the page to be on an approved Microsoft authentication origin'') (operation_context op1)))))"

text \<open>Resolve a control and act on it; a \<open>LocatorRuntimeError\<close> becomes the stage's \<open>PolicyDenied\<close>.\<close>

definition resolve_stage ::
  "'w driver \<Rightarrow> page \<Rightarrow> LocatorPlan \<Rightarrow> string \<Rightarrow> string \<Rightarrow> ('w, page_query) io" where
  "resolve_stage d p plan message op1 = io_catch (resolve_visible_locator d p plan 5000) (\<lambda>x. case x of
     LocatorRuntimeError key reason \<Rightarrow> io_raise (PolicyDenied message
       (operation_context op1 @ [(''selector_key'', JStr key), (''reason'', JStr reason)]))
   | other \<Rightarrow> io_raise other)"

definition load_plan :: "worker_env \<Rightarrow> string \<Rightarrow> ('w, LocatorPlan option) io" where
  "load_plan e key = io_lift (wrap (common_auth_locator_plan (en_contract e) key))"

definition begin_email_stage :: "'w driver \<Rightarrow> worker_env \<Rightarrow> string \<Rightarrow> ('w, unit) io" where
  "begin_email_stage d e email = (let op1 = ''auth_begin_email_stage'' in
     io_bind (operator_checks d e ''email stage'' op1) (\<lambda>_.
     io_bind (load_plan e EMAIL_SELECTOR_NAME) (\<lambda>email_plan.
     io_bind (load_plan e NEXT_SELECTOR_NAME) (\<lambda>next_plan.
     case (email_plan, next_plan) of
       (Some ep, Some np) \<Rightarrow>
         io_bind (require_single_auth_page d) (\<lambda>p.
         io_bind (resolve_stage d p ep ''email stage could not resolve the email field'' op1) (\<lambda>email_locator.
         io_bind (perform d (FillIn p email_locator email)) (\<lambda>_.
         io_bind (resolve_stage d p np ''email stage could not resolve the next control'' op1) (\<lambda>next_locator.
         io_bind (perform d (ClickOn p next_locator)) (\<lambda>_.
         io_bind (auth_origin_approved d) (\<lambda>approved.
           io_unless approved (PolicyDenied
             ''email stage navigation escaped the approved Microsoft authentication origin'' (operation_context op1))))))))
     | _ \<Rightarrow> io_raise (PolicyDenied
         ''email stage progression selectors are incomplete; refusing to guess locators'' (operation_context op1))))))"

definition set_resolved :: "bool \<Rightarrow> ('w, unit) io" where
  "set_resolved b = io_update (\<lambda>s. s\<lparr>se_surface_resolved := b\<rparr>)"

definition read_body :: "'w driver \<Rightarrow> worker_env \<Rightarrow> ('w, string) io" where
  "read_body d e = read_visible_body_bounded d e 2000"

definition terminal_context :: "string \<Rightarrow> SigninSurfaceKind \<Rightarrow> json_object" where
  "terminal_context op1 kind = operation_context op1 @ [(''terminal_surface'', JStr (surface_value kind))]"

definition resolve_signin_surface :: "'w driver \<Rightarrow> worker_env \<Rightarrow> ('w, unit) io" where
  "resolve_signin_surface d e = (let op1 = ''auth_resolve_signin_surface'' in
     io_bind (operator_checks d e ''sign-in surface resolution'' op1) (\<lambda>_.
     io_bind (require_single_auth_page d) (\<lambda>p.
     io_bind (resolve_signin_surface_to_email_entry d (en_contract e) p (read_body d e)) (\<lambda>r.
     if sr_kind r = SURFACE_EMAIL_ENTRY then set_resolved True
     else if sr_kind r \<in> {SURFACE_ACCOUNT_CHOOSER, SURFACE_USE_ANOTHER_ACCOUNT} then set_resolved False
     else io_bind (set_resolved False) (\<lambda>_. io_raise (PolicyDenied
       ''sign-in surface is not a deterministic pre-email stage; manual operator intervention required''
       (terminal_context op1 (sr_terminal_surface r))))))))"

definition resolve_kmsi_surface :: "'w driver \<Rightarrow> worker_env \<Rightarrow> ('w, SigninSurfaceKind) io" where
  "resolve_kmsi_surface d e = (let op1 = ''auth_resolve_kmsi_surface'' in
     io_bind (operator_checks d e ''KMSI surface resolution'' op1) (\<lambda>_.
     io_bind (require_single_auth_page d) (\<lambda>p.
     io_bind (resolve_stay_signed_in_surface d p (read_body d e)) (\<lambda>r.
     if sr_advanced r then io_return (sr_terminal_surface r)
     else io_raise (PolicyDenied
       ''sign-in surface is not a deterministic KMSI stage; manual operator intervention required''
       (terminal_context op1 (sr_terminal_surface r)))))))"

definition resolve_method_surface :: "'w driver \<Rightarrow> worker_env \<Rightarrow> ('w, SigninSurfaceKind) io" where
  "resolve_method_surface d e = (let op1 = ''auth_resolve_method_selection_surface'' in
     io_bind (operator_checks d e ''METHOD_SELECTION surface resolution'' op1) (\<lambda>_.
     io_bind (require_single_auth_page d) (\<lambda>p.
     io_bind (resolve_method_selection_surface d p (read_body d e)) (\<lambda>r.
     if sr_advanced r then io_return (sr_terminal_surface r)
     else io_raise (PolicyDenied
       ''sign-in surface is not a deterministic METHOD_SELECTION stage; manual operator intervention required''
       (terminal_context op1 (sr_terminal_surface r)))))))"

definition diagnose_signin_surface :: "'w driver \<Rightarrow> worker_env \<Rightarrow> ('w, SurfaceClassification) io" where
  "diagnose_signin_surface d e =
     io_bind (operator_checks d e ''sign-in surface diagnosis'' ''auth_diagnose_signin_surface'') (\<lambda>_.
     io_bind (require_single_auth_page d) (\<lambda>_.
     io_bind (read_body d e) (\<lambda>t. io_return (classify_signin_surface t None))))"

subsection \<open>Applying the credentials\<close>

text \<open>Five samples of the two password controls; the answer is whether the streak of absences at the end
  is at least three.\<close>

fun absence_streak :: "'w driver \<Rightarrow> page \<Rightarrow> nat \<Rightarrow> nat \<Rightarrow> ('w, nat) io" where
  "absence_streak d p 0 streak = io_return streak"
| "absence_streak d p (Suc n) streak =
     io_bind (count_of d p COMBINED_FORM_PASSWORD) (\<lambda>pw.
     io_bind (count_of d p COMBINED_FORM_SUBMIT) (\<lambda>sb.
     io_bind (sleep_ms d 50) (\<lambda>_.
       absence_streak d p n (if pw \<noteq> 1 \<or> sb \<noteq> 1 then streak + 1 else 0))))"

definition password_surface_transitioned :: "'w driver \<Rightarrow> page \<Rightarrow> ('w, bool) io" where
  "password_surface_transitioned d p =
     io_catch (io_bind (absence_streak d p 5 0) (\<lambda>n. io_return (3 \<le> n))) (\<lambda>_. io_return False)"

definition submit_combined :: "'w driver \<Rightarrow> page \<Rightarrow> OperatorSignInInput \<Rightarrow> ('w, unit) io" where
  "submit_combined d p signin =
     io_bind (submit_combined_signin_form d p signin) (\<lambda>_.
     io_bind (password_surface_transitioned d p) (\<lambda>gone.
     if gone then io_return ()
     else io_bind (perform d (FillIn p COMBINED_FORM_PASSWORD (si_password signin))) (\<lambda>_.
       io_bind (perform d (ClickOn p COMBINED_FORM_SUBMIT)) (\<lambda>_.
       io_bind (password_surface_transitioned d p) (\<lambda>gone2.
         io_unless gone2 (PolicyDenied
           ''operator sign-in password-only tail did not advance the authentication surface; the sign-in form remained present after submission''
           SUBMIT))))))"

definition submit_sequential ::
  "'w driver \<Rightarrow> page \<Rightarrow> LocatorPlan \<Rightarrow> LocatorPlan \<Rightarrow> LocatorPlan \<Rightarrow> LocatorPlan \<Rightarrow> OperatorSignInInput \<Rightarrow> ('w, unit) io" where
  "submit_sequential d p email_plan next_plan password_plan signin_plan signin = (let op1 = ''auth_operator_submit'' in
     io_bind (resolve_stage d p email_plan ''operator sign-in could not resolve the email field'' op1) (\<lambda>email_locator.
     io_bind (perform d (FillIn p email_locator (si_email signin))) (\<lambda>_.
     io_bind (resolve_stage d p next_plan ''operator sign-in could not resolve the next control'' op1) (\<lambda>next_locator.
     io_bind (perform d (ClickOn p next_locator)) (\<lambda>_.
     io_bind (auth_origin_approved d) (\<lambda>approved.
     if \<not> approved then io_raise (PolicyDenied
         ''operator sign-in lost the approved Microsoft authentication origin after the next control'' SUBMIT)
     else
     io_bind (resolve_stage d p password_plan ''operator sign-in could not resolve the password field'' op1) (\<lambda>password_locator.
     io_bind (perform d (FillIn p password_locator (si_password signin))) (\<lambda>_.
     io_bind (resolve_stage d p signin_plan ''operator sign-in could not resolve the sign-in control'' op1) (\<lambda>signin_locator.
     io_bind (perform d (ClickOn p signin_locator)) (\<lambda>_.
     io_bind (password_surface_transitioned d p) (\<lambda>gone.
       io_unless gone (PolicyDenied
         ''operator sign-in click did not advance the authentication surface; the sign-in form remained present after submission''
         SUBMIT))))))))))))"

definition submit_operator_signin :: "'w driver \<Rightarrow> worker_env \<Rightarrow> OperatorSignInInput \<Rightarrow> ('w, unit) io" where
  "submit_operator_signin d e signin =
     io_bind (operator_checks d e ''operator sign-in'' ''auth_operator_submit'') (\<lambda>_.
     io_bind (io_lift (wrap (common_auth_attested (en_contract e)))) (\<lambda>attested.
     if \<not> attested then io_raise (PolicyDenied
         ''operator sign-in requires the common.auth UIContract fragments (common.auth.email and common.auth.password) to be attested before any sign-in field may be applied''
         SUBMIT)
     else io_bind (io_get se_surface_resolved) (\<lambda>resolved.
     if \<not> resolved then io_raise (PolicyDenied
         ''operator sign-in requires the pre-email sign-in surface to be resolved to EMAIL_ENTRY via resolve-signin-surface before any credential is applied''
         SUBMIT)
     else io_bind (require_single_auth_page d) (\<lambda>p.
     io_bind (detect_combined_signin_form d p) (\<lambda>combined.
     if combined then submit_combined d p signin
     else
     io_bind (load_plan e EMAIL_SELECTOR_NAME) (\<lambda>email_plan.
     io_bind (load_plan e NEXT_SELECTOR_NAME) (\<lambda>next_plan.
     io_bind (load_plan e PASSWORD_SELECTOR_NAME) (\<lambda>password_plan.
     io_bind (load_plan e SIGNIN_SELECTOR_NAME) (\<lambda>signin_plan.
     case (email_plan, next_plan, password_plan, signin_plan) of
       (Some ep, Some np, Some pp, Some sp) \<Rightarrow> submit_sequential d p ep np pp sp signin
     | _ \<Rightarrow> io_raise (PolicyDenied
         ''operator sign-in progression selectors are incomplete; refusing to guess locators'' SUBMIT))))))))))"

subsection \<open>Life cycle\<close>

definition stop_browser :: "'w driver \<Rightarrow> ('w, unit) io" where
  "stop_browser d = io_bind (io_get (\<lambda>s. (se_context s, se_playwright s))) (\<lambda>(context, playwright).
     io_bind (io_update (\<lambda>s. s\<lparr>se_context := False, se_playwright := False\<rparr>)) (\<lambda>_.
     io_bind (io_catch (io_bind (if context then lifecycle d CLOSE_CONTEXT else io_return ()) (\<lambda>_. io_return None))
        (\<lambda>x. io_return (Some x))) (\<lambda>failed.
     io_bind (if playwright then lifecycle d STOP_PLAYWRIGHT else io_return ()) (\<lambda>_.
       case failed of None \<Rightarrow> io_return () | Some x \<Rightarrow> io_raise x))))"

definition launch_browser :: "'w driver \<Rightarrow> ('w, unit) io" where
  "launch_browser d =
     io_bind (lifecycle d START_PLAYWRIGHT) (\<lambda>_.
     io_bind (io_catch (lifecycle d LAUNCH_CONTEXT)
        (\<lambda>x. io_bind (lifecycle d STOP_PLAYWRIGHT) (\<lambda>_. io_raise x))) (\<lambda>_.
     io_bind (lifecycle d INSTALL_ROUTE) (\<lambda>_.
     io_update (\<lambda>s. s\<lparr>se_context := True, se_playwright := True\<rparr>))))"

definition start_browser :: "'w driver \<Rightarrow> worker_env \<Rightarrow> ('w, unit) io" where
  "start_browser d e =
     (if config_is_mock e then io_return ()
      else io_bind browser_started (\<lambda>started.
        if started then io_return ()
        else io_bind (io_get (\<lambda>s. se_context s \<or> se_playwright s)) (\<lambda>partial.
          io_bind (if partial then stop_browser d else io_return ()) (\<lambda>_. launch_browser d))))"

definition operation_page :: "'w driver \<Rightarrow> string \<Rightarrow> (page \<Rightarrow> ('w, 'a) io) \<Rightarrow> ('w, 'a) io" where
  "operation_page d op1 body = io_bind browser_started (\<lambda>started.
     if \<not> started then io_raise (WorkerUnavailable
         ''browser context is not available for an operation-scoped page'' (operation_context op1))
     else io_bind (new_page d) (\<lambda>p.
       io_bind (io_catch (io_bind (body p) (\<lambda>x. io_return (Inr x))) (\<lambda>x. io_return (Inl x))) (\<lambda>r.
       io_bind (perform d (ClosePage p)) (\<lambda>_. io_lift r))))"

end
