(* ===== verification/Browser_Effects.thy ===== *)
theory Browser_Effects
  imports Page_Effects Browser_Session
begin

text \<open>
  What the persistent browser may do, over the calculus of \<open>Page_Effects\<close>: the checks before an operation,
  the sign-in latch, the credentials \<open>submit_operator_signin\<close> may type and where, the two kinds of
  navigation, and the life cycle.
\<close>

subsection \<open>The latch and the checks\<close>

lemma flags_resolved [simp]:
  "flags_of (s\<lparr>se_surface_resolved := b\<rparr>) = (se_context s, se_playwright s, b, se_observation s)"
  "se_log (s\<lparr>se_surface_resolved := b\<rparr>) = se_log s"
  by (simp_all add: flags_of_def)

lemma wp_set_resolved [wp_intro]:
  "Q (Inr ()) [] (fst f, fst (snd f), b, snd (snd (snd f))) \<Longrightarrow> wp f (set_resolved b) Q"
  "Q (Inr ()) [] (fst f, fst (snd f), b, snd (snd (snd f))) \<Longrightarrow> wp f (io_update (\<lambda>s. s\<lparr>se_surface_resolved := b\<rparr>)) Q"
  by (auto simp: set_resolved_def wp_def io_update_def flags_of_def)

definition owned :: "flags \<Rightarrow> bool" where
  "owned f \<longleftrightarrow> fst f \<and> fst (snd f)"

definition latch :: "flags \<Rightarrow> bool" where
  "latch f = fst (snd (snd f))"

lemma flags_simps [simp]:
  "owned (c, p, b, a) = (c \<and> p)" "latch (c, p, b, a) = b"
  "owned (flags_of s) = owns_context s" "latch (flags_of s) = se_surface_resolved s"
  by (auto simp: owned_def latch_def flags_of_def owns_context_def)

lemma wp_started [wp_intro]: "Q (Inr (owned f)) [] f \<Longrightarrow> wp f browser_started Q"
  by (auto simp: wp_def browser_started_def io_get_def owned_def flags_of_def owns_context_def)

lemma wp_get_latch [wp_intro]: "Q (Inr (latch f)) [] f \<Longrightarrow> wp f (io_get se_surface_resolved) Q"
  by (auto simp: wp_def io_get_def latch_def flags_of_def)

lemma wp_get_owner [wp_intro]: "Q (Inr (fst f)) [] f \<Longrightarrow> wp f (io_get se_context) Q"
  by (auto simp: wp_def io_get_def flags_of_def)

lemma wp_case_prod [wp_intro]: "wp f (g (fst x) (snd x)) Q \<Longrightarrow> wp f (case x of (a, b) \<Rightarrow> g a b) Q"
  by (simp add: case_prod_beta)

definition dedicated_env :: "worker_env \<Rightarrow> bool" where
  "dedicated_env e \<longleftrightarrow> \<not> config_is_mock e \<and>
     (case browser_runtime_settings (en_environ e) of Inl x \<Rightarrow> False | Inr (profile, headless, mode) \<Rightarrow> en_profile_dir e = profile)"

lemma dedicated_spec:
  assumes "\<And>r. (r = Inr True \<Longrightarrow> owned f \<and> dedicated_env e) \<Longrightarrow> Q r [] f"
  shows "wp f (is_dedicated_persistent_profile e) Q"
  unfolding is_dedicated_persistent_profile_def
  by (cases "browser_runtime_settings (en_environ e)")
    (auto intro!: wp_intro assms simp: dedicated_env_def)

lemma looks_started [simp]: "looks browser_started"
  unfolding looks_def by (auto intro!: wp_intro)

lemma looks_dedicated [simp]: "looks (is_dedicated_persistent_profile e)"
  unfolding looks_def by (intro allI dedicated_spec) simp

text \<open>Whether, since the last action that may navigate, the open pages were once seen on an approved
  origin. A guarded log fills a field only while this holds.\<close>

fun origin_known :: "bool \<Rightarrow> interaction list \<Rightarrow> bool" where
  "origin_known b [] = b"
| "origin_known b (SawPages ps # l) = origin_known (b \<or> auth_origin_status (map snd ps) \<noteq> NON_APPROVED_ORIGIN) l"
| "origin_known b (Performed (FillIn p q v) ok # l) = origin_known b l"
| "origin_known b (Performed a ok # l) = origin_known False l"
| "origin_known b (i # l) = origin_known b l"

fun fills_guarded :: "bool \<Rightarrow> interaction list \<Rightarrow> bool" where
  "fills_guarded b [] = True"
| "fills_guarded b (SawPages ps # l) = fills_guarded (b \<or> auth_origin_status (map snd ps) \<noteq> NON_APPROVED_ORIGIN) l"
| "fills_guarded b (Performed (FillIn p q v) ok # l) = (b \<and> fills_guarded b l)"
| "fills_guarded b (Performed a ok # l) = fills_guarded False l"
| "fills_guarded b (i # l) = fills_guarded b l"

lemma origin_known_append [simp]: "origin_known b (l @ m) = origin_known (origin_known b l) m"
  by (induction b l rule: origin_known.induct) auto

lemma fills_guarded_append [simp]:
  "fills_guarded b (l @ m) = (fills_guarded b l \<and> fills_guarded (origin_known b l) m)"
  by (induction b l rule: fills_guarded.induct) auto

lemma no_acts_guarded [simp]: "acts l = [] \<Longrightarrow> fills_guarded b l"
  by (induction b l rule: fills_guarded.induct) auto

lemma quiet_known [simp]: "quiet l \<Longrightarrow> origin_known b l = b"
  by (induction l rule: quiet.induct) auto

lemma approved_spec:
  assumes "Q (Inr False) [] f"
    "\<And>ps. owned f \<Longrightarrow> Q (Inr (auth_origin_status (map snd ps) \<noteq> NON_APPROVED_ORIGIN)) [SawPages ps] f"
  shows "wp f (auth_origin_approved d) Q"
  unfolding auth_origin_approved_def by (auto intro!: wp_intro assms)

lemma looks_approved [simp]: "looks (auth_origin_approved d)"
  unfolding looks_def by (intro allI approved_spec) simp_all

lemma checks_spec:
  assumes "\<And>r l. acts l = [] \<Longrightarrow>
     (\<And>c. r = Inr () \<Longrightarrow> owned f \<and> dedicated_env e \<and> origin_known c l) \<Longrightarrow> Q r l f"
  shows "wp f (operator_checks d e what op1) Q"
  unfolding operator_checks_def
  by (auto intro!: wp_intro dedicated_spec approved_spec assms split: sum.splits)

lemma looks_checks [simp]: "looks (operator_checks d e what op1)"
  unfolding looks_def by (intro allI checks_spec) simp

subsection \<open>Reading and resolving\<close>

lemma open_pages_spec:
  assumes "\<And>ps. Q (Inr (filter (\<lambda>(p, u). u \<noteq> []) ps)) [SawPages ps] f"
  shows "wp f (open_pages d) Q"
  unfolding open_pages_def by (auto intro!: wp_intro assms)

lemma looks_open_pages [simp]: "looks (open_pages d)"
  unfolding looks_def by (intro allI open_pages_spec) simp

text \<open>The only page of the last topology that has a URL.\<close>

fun last_topology :: "interaction list \<Rightarrow> (page \<times> string) list option" where
  "last_topology [] = None"
| "last_topology (SawPages ps # l) = (case last_topology l of None \<Rightarrow> Some ps | Some x \<Rightarrow> Some x)"
| "last_topology (i # l) = last_topology l"

lemma single_page_spec:
  assumes "\<And>r ps. (\<And>p. r = Inr p \<Longrightarrow> \<exists>u. filter (\<lambda>(p, u). u \<noteq> []) ps = [(p, u)]) \<Longrightarrow> Q r [SawPages ps] f"
    "\<And>x. Q (Inl x) [] f"
  shows "wp f (require_single_auth_page d) Q"
  unfolding require_single_auth_page_def
  by (auto intro!: wp_intro open_pages_spec assms split: list.splits)

lemma looks_single [simp]: "looks (require_single_auth_page d)"
  unfolding looks_def by (intro allI single_page_spec) simp_all

lemma read_body_reader: "body_reader (read_body d e)"
  unfolding body_reader_def read_body_def read_visible_body_bounded_def Let_def
  by (auto intro!: wp_intro dedicated_spec open_pages_spec approved_spec
      split: list.splits sum.splits)

lemma resolve_stage_spec:
  assumes "\<And>r l. quiet l \<Longrightarrow> (\<And>q. r = Inr q \<Longrightarrow> q \<in> build_locator ` set (lp_candidates plan)) \<Longrightarrow> Q r l f"
  shows "wp f (resolve_stage d p plan message op1) Q"
  unfolding resolve_stage_def
  by (rule wp_catch, rule resolve_visible_spec)
    (auto intro!: wp_intro assms split: sum.splits wexn.splits)

lemma looks_resolve_stage [simp]: "looks (resolve_stage d p plan message op1)"
  unfolding looks_def by (intro allI resolve_stage_spec) simp

lemma combined_spec:
  assumes "\<And>b l. quiet l \<Longrightarrow> Q (Inr b) l f"
  shows "wp f (detect_combined_signin_form d p) Q"
  unfolding detect_combined_signin_form_def by (auto intro!: wp_intro assms)

lemma absence_spec:
  assumes "\<And>r l. acts l = [] \<Longrightarrow> origin_known True l \<Longrightarrow> Q r l f"
  shows "wp f (absence_streak d p n k) Q"
  using assms
proof (induction n arbitrary: k Q)
  case (Suc n)
  have ih: "wp f (absence_streak d p n k) (\<lambda>r l. Q r (pre @ l))" if "acts pre = []" "origin_known True pre" for pre k
    by (rule Suc.IH, rule Suc.prems) (use that in simp_all)
  show ?case
    unfolding absence_streak.simps
    by (auto intro!: wp_intro Suc.prems
        ih [of "[Counted p COMBINED_FORM_PASSWORD (Some a), Counted p COMBINED_FORM_SUBMIT (Some b), Slept 50]" for a b, simplified])
qed (auto intro!: wp_intro)

lemma looks_transitioned [simp]: "looks (password_surface_transitioned d p)"
  unfolding password_surface_transitioned_def
  by (intro looks_intro) (simp_all, unfold looks_def, intro allI absence_spec, simp)

lemma transitioned_spec:
  assumes "\<And>b l. acts l = [] \<Longrightarrow> Q (Inr b) l f"
  shows "wp f (password_surface_transitioned d p) Q"
  unfolding password_surface_transitioned_def
  by (auto intro!: wp_intro absence_spec assms split: sum.splits)

subsection \<open>Credentials\<close>

text \<open>The two scripts: the combined form, whose password and submit may be repeated once, and the
  sequential flow with a located field or control for each of the four progression selectors.\<close>

definition combined_script :: "page \<Rightarrow> OperatorSignInInput \<Rightarrow> page_action list" where
  "combined_script p signin = [FillIn p COMBINED_FORM_EMAIL (si_email signin),
     FillIn p COMBINED_FORM_PASSWORD (si_password signin), ClickOn p COMBINED_FORM_SUBMIT,
     FillIn p COMBINED_FORM_PASSWORD (si_password signin), ClickOn p COMBINED_FORM_SUBMIT]"

definition plan_locator :: "worker_env \<Rightarrow> string \<Rightarrow> page_query \<Rightarrow> bool" where
  "plan_locator e key q \<longleftrightarrow> (case common_auth_locator_plan (en_contract e) key of
     Inr (Some plan) \<Rightarrow> q \<in> build_locator ` set (lp_candidates plan) | _ \<Rightarrow> False)"

fun sequential_step :: "worker_env \<Rightarrow> page \<Rightarrow> OperatorSignInInput \<Rightarrow> nat \<Rightarrow> page_action \<Rightarrow> bool" where
  "sequential_step e p signin n (FillIn p' q v) \<longleftrightarrow> p' = p \<and>
     (n = 0 \<and> v = si_email signin \<and> plan_locator e EMAIL_SELECTOR_NAME q \<or>
      n = 2 \<and> v = si_password signin \<and> plan_locator e PASSWORD_SELECTOR_NAME q)"
| "sequential_step e p signin n (ClickOn p' q) \<longleftrightarrow> p' = p \<and>
     (n = 1 \<and> plan_locator e NEXT_SELECTOR_NAME q \<or> n = 3 \<and> plan_locator e SIGNIN_SELECTOR_NAME q)"
| "sequential_step e p signin n a \<longleftrightarrow> False"

fun sequential_script :: "worker_env \<Rightarrow> page \<Rightarrow> OperatorSignInInput \<Rightarrow> nat \<Rightarrow> page_action list \<Rightarrow> bool" where
  "sequential_script e p signin n [] = True"
| "sequential_script e p signin n (a # as) = (sequential_step e p signin n a \<and> sequential_script e p signin (Suc n) as)"

lemma plan_spec:
  assumes "\<And>r. (\<And>plan q. r = Inr (Some plan) \<Longrightarrow> q \<in> build_locator ` set (lp_candidates plan) \<Longrightarrow> plan_locator e key q) \<Longrightarrow>
     Q r [] f"
  shows "wp f (load_plan e key) Q"
  unfolding load_plan_def
  by (cases "common_auth_locator_plan (en_contract e) key") (auto intro!: wp_intro assms simp: plan_locator_def)

text \<open>The log up to the first click on a control, included. In the combined form every fill up to the first
  submit is guarded; what follows repeats the password and the submit control.\<close>

fun upto_click :: "interaction list \<Rightarrow> interaction list" where
  "upto_click [] = []"
| "upto_click (Performed (ClickOn p q) ok # l) = [Performed (ClickOn p q) ok]"
| "upto_click (i # l) = i # upto_click l"

lemma upto_click_append [simp]: "acts l = [] \<Longrightarrow> upto_click (l @ m) = l @ upto_click m"
  by (induction l rule: upto_click.induct) auto

lemma submit_combined_spec:
  assumes "known"
  shows "wp f (submit_combined d p signin) (\<lambda>r l f'. f' = f \<and> prefix (acts l) (combined_script p signin) \<and>
     fills_guarded known (upto_click l))"
  unfolding submit_combined_def submit_combined_signin_form_def combined_script_def
  by (auto intro!: wp_intro transitioned_spec simp: assms split: sum.splits)

lemma submit_sequential_spec:
  assumes "known"
    "\<And>q. q \<in> build_locator ` set (lp_candidates ep) \<Longrightarrow> plan_locator e EMAIL_SELECTOR_NAME q"
    "\<And>q. q \<in> build_locator ` set (lp_candidates np) \<Longrightarrow> plan_locator e NEXT_SELECTOR_NAME q"
    "\<And>q. q \<in> build_locator ` set (lp_candidates pp) \<Longrightarrow> plan_locator e PASSWORD_SELECTOR_NAME q"
    "\<And>q. q \<in> build_locator ` set (lp_candidates sp) \<Longrightarrow> plan_locator e SIGNIN_SELECTOR_NAME q"
  shows "wp f (submit_sequential d p ep np pp sp signin) (\<lambda>r l f'. f' = f \<and>
     sequential_script e p signin 0 (acts l) \<and> fills_guarded known l)"
  unfolding submit_sequential_def Let_def
  by (auto intro!: wp_intro resolve_stage_spec approved_spec transitioned_spec simp: assms split: sum.splits)

text \<open>Of a submission that acts: the conditions under which it may, and what it does.\<close>

definition submission_allowed :: "worker_env \<Rightarrow> flags \<Rightarrow> bool" where
  "submission_allowed e f \<longleftrightarrow> owned f \<and> dedicated_env e \<and> latch f \<and> common_auth_attested (en_contract e) = Inr True"

definition submission_log :: "worker_env \<Rightarrow> OperatorSignInInput \<Rightarrow> page \<Rightarrow> interaction list \<Rightarrow> bool" where
  "submission_log e signin p l \<longleftrightarrow>
     prefix (acts l) (combined_script p signin) \<and> fills_guarded False (upto_click l) \<or>
     sequential_script e p signin 0 (acts l) \<and> fills_guarded False l"

lemma fills_guarded_mono: "fills_guarded b l \<Longrightarrow> b \<longrightarrow> c \<Longrightarrow> fills_guarded c l"
  by (induction b l arbitrary: c rule: fills_guarded.induct) auto

definition only_page :: "page \<Rightarrow> interaction list \<Rightarrow> bool" where
  "only_page p l \<longleftrightarrow> (\<exists>l1 ps l2 u. l = l1 @ SawPages ps # l2 \<and> acts l1 = [] \<and> (p, u) \<in> set ps \<and> u \<noteq> [] \<and>
     filter (\<lambda>(p, u). u \<noteq> []) ps = [(p, u)])"

lemma fills_guarded_upto: "fills_guarded b l \<Longrightarrow> fills_guarded b (upto_click l)"
  by (induction b l rule: fills_guarded.induct) auto

lemma submission_log_append:
  assumes "acts l = []" "origin_known False l"
  shows "prefix (acts m) (combined_script p signin) \<Longrightarrow> fills_guarded True (upto_click m) \<Longrightarrow> submission_log e signin p (l @ m)"
    "sequential_script e p signin 0 (acts m) \<Longrightarrow> fills_guarded True m \<Longrightarrow> submission_log e signin p (l @ m)"
  using assms by (simp_all add: submission_log_def)

lemma only_page_append:
  assumes "acts l = []" "filter (\<lambda>(p, u). u \<noteq> []) ps = [(p, u)]"
  shows "only_page p (l @ SawPages ps # m)"
proof -
  from assms(2) have "(p, u) \<in> set (filter (\<lambda>(p, u). u \<noteq> []) ps)" by simp
  then have "(p, u) \<in> set ps" "u \<noteq> []" by simp_all
  with assms show ?thesis unfolding only_page_def by blast
qed

text \<open>The part after the checks.\<close>

definition apply_credentials :: "'w driver \<Rightarrow> worker_env \<Rightarrow> OperatorSignInInput \<Rightarrow> page \<Rightarrow> ('w, unit) io" where
  "apply_credentials d e signin p =
     io_bind (detect_combined_signin_form d p) (\<lambda>combined.
     if combined then submit_combined d p signin
     else
     io_bind (load_plan e EMAIL_SELECTOR_NAME) (\<lambda>email_plan.
     io_bind (load_plan e NEXT_SELECTOR_NAME) (\<lambda>next_plan.
     io_bind (load_plan e PASSWORD_SELECTOR_NAME) (\<lambda>password_plan.
     io_bind (load_plan e SIGNIN_SELECTOR_NAME) (\<lambda>signin_plan.
     case (email_plan, next_plan, password_plan, signin_plan) of
       (Some ep, Some np, Some pp, Some sp) \<Rightarrow> submit_sequential d p ep np pp sp signin
     | _ \<Rightarrow> io_raise (PolicyDenied
         ''operator sign-in progression selectors are incomplete; refusing to guess locators'' SUBMIT))))))"

lemma result_cases:
  "(\<And>e. r = Inl e \<Longrightarrow> P e) \<Longrightarrow> (\<And>x. r = Inr x \<Longrightarrow> R x) \<Longrightarrow> case r of Inl e \<Rightarrow> P e | Inr x \<Rightarrow> R x"
  by (cases r) auto

lemma apply_spec:
  "wp f (apply_credentials d e signin p) (\<lambda>r l f'. f' = f \<and>
     (prefix (acts l) (combined_script p signin) \<and> fills_guarded True (upto_click l) \<or>
      sequential_script e p signin 0 (acts l) \<and> fills_guarded True l))"
  unfolding apply_credentials_def
  by (auto intro!: wp_intro result_cases combined_spec plan_spec wp_conseq [OF submit_combined_spec [of True]]
      wp_conseq [OF submit_sequential_spec [of True _ e]] simp del: build_locator.simps split: option.splits)

lemma wrap_Inr: "wrap r = Inr x \<longleftrightarrow> r = Inr x"
  by (cases r) auto

lemma submission_log_intro:
  assumes "acts l = []" "\<forall>c. origin_known c l" "filter (\<lambda>(p, u). u \<noteq> []) ps = [(p, u)]"
  shows "prefix (acts m) (combined_script p signin) \<Longrightarrow> fills_guarded True (upto_click m) \<Longrightarrow>
      \<exists>p. submission_log e signin p (l @ SawPages ps # m) \<and> only_page p (l @ SawPages ps # m)"
    "sequential_script e p signin 0 (acts m) \<Longrightarrow> fills_guarded True m \<Longrightarrow>
      \<exists>p. submission_log e signin p (l @ SawPages ps # m) \<and> only_page p (l @ SawPages ps # m)"
  using assms only_page_append [OF assms(1,3), of m]
  by (auto simp: submission_log_def intro!: exI [of _ p])

lemma submit_spec:
  "wp f (submit_operator_signin d e signin) (\<lambda>r l f'. f' = f \<and>
     (acts l = [] \<or> submission_allowed e f \<and> (\<exists>p. submission_log e signin p l \<and> only_page p l)))"
  unfolding submit_operator_signin_def apply_credentials_def [symmetric]
  by (auto intro!: wp_intro result_cases checks_spec single_page_spec wp_conseq [OF apply_spec])
    (simp_all add: submission_allowed_def wrap_Inr submission_log_intro)

subsection \<open>The resolvers of the browser\<close>

text \<open>A stage: the checks, the only page, then a body on it.\<close>

lemma stage_spec:
  assumes "\<And>p. wp f (body p) (R p)"
    and "\<And>x l. acts l = [] \<Longrightarrow> Q (Inl x) l f"
    and "\<And>p r l m f'. owned f \<Longrightarrow> dedicated_env e \<Longrightarrow> acts l = [] \<Longrightarrow> only_page p (l @ m) \<Longrightarrow> R p r m f' \<Longrightarrow> Q r (l @ m) f'"
  shows "wp f (io_bind (operator_checks d e what op1) (\<lambda>_. io_bind (require_single_auth_page d) body)) Q"
proof (rule wp_bind, rule checks_spec, rule result_cases)
  fix r l and x :: unit
  assume l: "acts l = []" and r: "\<And>c. r = Inr () \<Longrightarrow> owned f \<and> dedicated_env e \<and> origin_known c l" and x: "r = Inr x"
  from r x have o: "owned f" "dedicated_env e" by auto
  show "wp f (io_bind (require_single_auth_page d) body) (\<lambda>r' l'. Q r' (l @ l'))"
  proof (rule wp_bind, rule single_page_spec, rule result_cases)
    fix r :: "page wresult" and ps :: "(page \<times> string) list" and p assume p: "\<And>p. r = Inr p \<Longrightarrow> \<exists>u. filter (\<lambda>(p, u). u \<noteq> []) ps = [(p, u)]" "r = Inr p"
    then obtain u where "filter (\<lambda>(p, u). u \<noteq> []) ps = [(p, u)]" by blast
    then have one: "only_page p (l @ SawPages ps # m)" for m by (rule only_page_append [OF l])
    show "wp f (body p) (\<lambda>r' l'. Q r' (l @ [SawPages ps] @ l'))"
      by (rule wp_conseq [OF assms(1)]) (use assms(3) [OF o, of "l @ [SawPages ps]" p] one l in simp)
  qed (use assms(2) l in \<open>simp_all\<close>)
qed (use assms(2) in simp)

lemma resolve_signin_spec:
  "wp f (resolve_signin_surface d e) (\<lambda>r l f'.
     fst f' = fst f \<and> fst (snd f') = fst (snd f) \<and> snd (snd (snd f')) = snd (snd (snd f)) \<and>
     (\<exists>p. set (acts l) \<subseteq> another_account_clicks p) \<and> length (done_acts l) \<le> 1 \<and>
     (acts l = [] \<or> owned f \<and> dedicated_env e \<and>
        (\<exists>u \<in> set (seen_texts l). text_kind u \<in> set FORWARDABLE_SURFACES)) \<and>
     (latch f' \<longrightarrow> r \<noteq> Inr () \<and> f' = f \<or> r = Inr () \<and> owned f \<and> dedicated_env e \<and> email_entry_seen l))"
  unfolding resolve_signin_surface_def Let_def
proof (rule stage_spec)
  fix p
  show "wp f (io_bind (resolve_signin_surface_to_email_entry d (en_contract e) p (read_body d e)) (\<lambda>r.
     if sr_kind r = SURFACE_EMAIL_ENTRY then set_resolved True
     else if sr_kind r \<in> {SURFACE_ACCOUNT_CHOOSER, SURFACE_USE_ANOTHER_ACCOUNT} then set_resolved False
     else io_bind (set_resolved False) (\<lambda>_. io_raise (PolicyDenied
       ''sign-in surface is not a deterministic pre-email stage; manual operator intervention required''
       (terminal_context ''auth_resolve_signin_surface'' (sr_terminal_surface r))))))
    (\<lambda>r l f'. fst f' = fst f \<and> fst (snd f') = fst (snd f) \<and> snd (snd (snd f')) = snd (snd (snd f)) \<and>
     set (acts l) \<subseteq> another_account_clicks p \<and> length (done_acts l) \<le> 1 \<and>
     (acts l = [] \<or> (\<exists>u \<in> set (seen_texts l). text_kind u \<in> set FORWARDABLE_SURFACES)) \<and>
     (latch f' \<longrightarrow> r \<noteq> Inr () \<and> f' = f \<or> r = Inr () \<and> email_entry_seen l))"
    by (auto intro!: wp_intro result_cases wp_conseq [OF email_resolver_spec [OF read_body_reader]] simp: latch_def)
next
  fix p r l m f'
  assume "acts l = []"
  then show "owned f \<Longrightarrow> dedicated_env e \<Longrightarrow> fst f' = fst f \<and> fst (snd f') = fst (snd f) \<and> snd (snd (snd f')) = snd (snd (snd f)) \<and>
     set (acts m) \<subseteq> another_account_clicks p \<and> length (done_acts m) \<le> 1 \<and>
     (acts m = [] \<or> (\<exists>u \<in> set (seen_texts m). text_kind u \<in> set FORWARDABLE_SURFACES)) \<and>
     (latch f' \<longrightarrow> r \<noteq> Inr () \<and> f' = f \<or> r = Inr () \<and> email_entry_seen m) \<Longrightarrow>
     fst f' = fst f \<and> fst (snd f') = fst (snd f) \<and> snd (snd (snd f')) = snd (snd (snd f)) \<and>
     (\<exists>p. set (acts (l @ m)) \<subseteq> another_account_clicks p) \<and> length (done_acts (l @ m)) \<le> 1 \<and>
     (acts (l @ m) = [] \<or> owned f \<and> dedicated_env e \<and>
        (\<exists>u \<in> set (seen_texts (l @ m)). text_kind u \<in> set FORWARDABLE_SURFACES)) \<and>
     (latch f' \<longrightarrow> r \<noteq> Inr () \<and> f' = f \<or> r = Inr () \<and> owned f \<and> dedicated_env e \<and> email_entry_seen (l @ m))"
    by (auto simp: email_entry_seen_def)
qed auto

lemma resolve_kmsi_spec:
  "wp f (resolve_kmsi_surface d e) (\<lambda>r l f'. f' = f \<and>
     (\<exists>p. set (acts l) \<subseteq> kmsi_clicks p) \<and> length (done_acts l) \<le> 1 \<and>
     (acts l = [] \<or> owned f \<and> dedicated_env e \<and>
        (\<exists>u \<in> set (seen_texts l). text_kind u = SURFACE_STAY_SIGNED_IN)) \<and>
     (\<forall>k. r = Inr k \<longrightarrow> length (done_acts l) = 1))"
  unfolding resolve_kmsi_surface_def Let_def
  by (rule stage_spec [where R = "\<lambda>p r l f'. f' = f \<and> set (acts l) \<subseteq> kmsi_clicks p \<and> length (done_acts l) \<le> 1 \<and>
     (acts l = [] \<or> (\<exists>u \<in> set (seen_texts l). text_kind u = SURFACE_STAY_SIGNED_IN)) \<and>
     (\<forall>k. r = Inr k \<longrightarrow> length (done_acts l) = 1)"])
    (auto intro!: wp_intro result_cases wp_conseq [OF kmsi_resolver_spec [OF read_body_reader]] simp: le_Suc_eq)

lemma resolve_method_spec:
  "wp f (resolve_method_surface d e) (\<lambda>r l f'. f' = f \<and>
     (\<exists>p. set (acts l) \<subseteq> method_clicks p) \<and> length (done_acts l) \<le> 2 \<and>
     (acts l = [] \<or> owned f \<and> dedicated_env e \<and>
        (\<exists>u \<in> set (seen_texts l). text_kind u \<in> {SURFACE_METHOD_SELECTION, SURFACE_AMBIGUOUS})) \<and>
     (\<forall>k. r = Inr k \<longrightarrow> done_acts l \<noteq> []))"
  unfolding resolve_method_surface_def Let_def
  by (rule stage_spec [where R = "\<lambda>p r l f'. f' = f \<and> set (acts l) \<subseteq> method_clicks p \<and> length (done_acts l) \<le> 2 \<and>
     (acts l = [] \<or> (\<exists>u \<in> set (seen_texts l). text_kind u \<in> {SURFACE_METHOD_SELECTION, SURFACE_AMBIGUOUS})) \<and>
     (\<forall>k. r = Inr k \<longrightarrow> done_acts l \<noteq> [])"])
    (auto intro!: wp_intro result_cases wp_conseq [OF method_resolver_spec [OF read_body_reader]])

lemma diagnose_spec:
  "wp f (diagnose_signin_surface d e) (\<lambda>r l f'. f' = f \<and> acts l = [])"
  unfolding diagnose_signin_surface_def Let_def
  by (rule stage_spec [where R = "\<lambda>p r l f'. f' = f \<and> acts l = []"])
    (auto intro!: wp_intro body_reader_wp [OF read_body_reader])

subsection \<open>The email stage\<close>

definition email_script :: "worker_env \<Rightarrow> page \<Rightarrow> string \<Rightarrow> page_action list \<Rightarrow> bool" where
  "email_script e p email as = sequential_script e p \<lparr>si_email = email, si_password = []\<rparr> 0 (take 2 as)"

definition apply_email :: "'w driver \<Rightarrow> page \<Rightarrow> LocatorPlan \<Rightarrow> LocatorPlan \<Rightarrow> string \<Rightarrow> ('w, unit) io" where
  "apply_email d p ep np email = (let op1 = ''auth_begin_email_stage'' in
         io_bind (resolve_stage d p ep ''email stage could not resolve the email field'' op1) (\<lambda>email_locator.
         io_bind (perform d (FillIn p email_locator email)) (\<lambda>_.
         io_bind (resolve_stage d p np ''email stage could not resolve the next control'' op1) (\<lambda>next_locator.
         io_bind (perform d (ClickOn p next_locator)) (\<lambda>_.
         io_bind (auth_origin_approved d) (\<lambda>approved.
           io_unless approved (PolicyDenied
             ''email stage navigation escaped the approved Microsoft authentication origin'' (operation_context op1))))))))"

lemma apply_email_spec:
  assumes "\<And>q. q \<in> build_locator ` set (lp_candidates ep) \<Longrightarrow> plan_locator e EMAIL_SELECTOR_NAME q"
    "\<And>q. q \<in> build_locator ` set (lp_candidates np) \<Longrightarrow> plan_locator e NEXT_SELECTOR_NAME q"
  shows "wp f (apply_email d p ep np email) (\<lambda>r l f'. f' = f \<and> length (acts l) \<le> 2 \<and> fills_guarded True l \<and>
     email_script e p email (acts l))"
  unfolding apply_email_def Let_def
  by (auto intro!: wp_intro resolve_stage_spec approved_spec simp: assms email_script_def split: sum.splits)

lemma email_stage_intro:
  assumes "acts l = []" "\<forall>c. origin_known c l" "filter (\<lambda>(p, u). u \<noteq> []) ps = [(p, u)]" "email_script e p email (acts m)"
  shows "\<exists>p. email_script e p email (acts m) \<and> only_page p (l @ SawPages ps # m)"
  using assms only_page_append [OF assms(1,3), of m] by blast

lemma email_stage_spec:
  "wp f (begin_email_stage d e email) (\<lambda>r l f'. f' = f \<and> length (acts l) \<le> 2 \<and> fills_guarded False l \<and>
     (acts l = [] \<or> owned f \<and> dedicated_env e \<and> (\<exists>p. email_script e p email (acts l) \<and> only_page p l)))"
  unfolding begin_email_stage_def Let_def apply_email_def [unfolded Let_def, symmetric]
  by (auto intro!: wp_intro result_cases checks_spec plan_spec single_page_spec wp_conseq [OF apply_email_spec]
      intro: email_stage_intro simp del: build_locator.simps split: option.splits)

subsection \<open>Navigation\<close>

lemma flags_owner [simp]:
  "flags_of (s\<lparr>se_context := c, se_playwright := p\<rparr>) = (c, p, se_surface_resolved s, se_observation s)"
  "se_log (s\<lparr>se_context := c, se_playwright := p\<rparr>) = se_log s"
  by (simp_all add: flags_of_def)

lemma wp_set_owner [wp_intro]:
  "Q (Inr ()) [] (c, p, snd (snd f)) \<Longrightarrow> wp f (io_update (\<lambda>s. s\<lparr>se_context := c, se_playwright := p\<rparr>)) Q"
  by (auto simp: wp_def io_update_def flags_of_def)

lemma wp_get_both [wp_intro]:
  "Q (Inr (fst f, fst (snd f))) [] f \<Longrightarrow> wp f (io_get (\<lambda>s. (se_context s, se_playwright s))) Q"
  by (auto simp: wp_def io_get_def flags_of_def)

lemma wp_get_partial [wp_intro]:
  "Q (Inr (fst f \<or> fst (snd f))) [] f \<Longrightarrow> wp f (io_get (\<lambda>s. se_context s \<or> se_playwright s)) Q"
  by (auto simp: wp_def io_get_def flags_of_def)

lemma navigate_spec:
  "wp f (navigate_auth_bootstrap d e) (\<lambda>r l f'. f' = f \<and>
     (acts l = [] \<or> owned f \<and> (\<exists>p url. acts l = [Goto p url] \<and>
        resolve_planner_web_bootstrap_url (en_environ e) = Inr url)))"
  unfolding navigate_auth_bootstrap_def Let_def
  by (auto intro!: wp_intro result_cases split: sum.splits option.splits simp: wrap_Inr)

lemma stop_spec:
  "wp f (stop_browser d) (\<lambda>r l f'. f' = (False, False, snd (snd f)) \<and> acts l = [] \<and>
     (\<exists>a b. l = (if fst f then [Lifecycle CLOSE_CONTEXT a] else []) @ (if fst (snd f) then [Lifecycle STOP_PLAYWRIGHT b] else [])))"
  unfolding stop_browser_def
  by (auto intro!: wp_intro split: sum.splits option.splits simp: ex_bool_eq)

definition launch_outcome :: "unit wresult \<Rightarrow> interaction list \<Rightarrow> flags \<Rightarrow> flags \<Rightarrow> bool" where
  "launch_outcome r l f f' \<longleftrightarrow>
     (if r = Inr () then l = [Lifecycle START_PLAYWRIGHT True, Lifecycle LAUNCH_CONTEXT True, Lifecycle INSTALL_ROUTE True] \<and>
        f' = (True, True, snd (snd f))
      else f' = f \<and> (l = [Lifecycle START_PLAYWRIGHT False] \<or>
        (\<exists>ok. l = [Lifecycle START_PLAYWRIGHT True, Lifecycle LAUNCH_CONTEXT False, Lifecycle STOP_PLAYWRIGHT ok]) \<or>
        l = [Lifecycle START_PLAYWRIGHT True, Lifecycle LAUNCH_CONTEXT True, Lifecycle INSTALL_ROUTE False]))"

lemma launch_spec: "wp f (launch_browser d) (\<lambda>r l f'. launch_outcome r l f f')"
  unfolding launch_browser_def launch_outcome_def
  by (auto intro!: wp_intro split: sum.splits simp: ex_bool_eq)

subsection \<open>Beginning to sign in\<close>

text \<open>What it may do to the pages: click the one control of Planner Web, close pages, and go to the fixed
  sign-in URL or, from a landing on an approved origin, to the same URL with a login prompt.\<close>

definition begin_act :: "worker_env \<Rightarrow> page_action \<Rightarrow> bool" where
  "begin_act e a \<longleftrightarrow> (case a of
     ClickOn p q \<Rightarrow> q = SIGN_IN_BUTTON
   | ClosePage p \<Rightarrow> True
   | Goto p url \<Rightarrow> url = MICROSOFT_AUTH_BOOTSTRAP_URL \<or>
       (\<exists>u. url = with_login_prompt e u \<and> is_approved_auth_origin (normal_host u))
   | _ \<Rightarrow> False)"

lemma begin_act_simps [simp]:
  "begin_act e (ClickOn p q) \<longleftrightarrow> q = SIGN_IN_BUTTON" "begin_act e (ClosePage p)"
  "begin_act e (Goto p MICROSOFT_AUTH_BOOTSTRAP_URL)"
  "is_approved_auth_origin (normal_host u) \<Longrightarrow> begin_act e (Goto p (with_login_prompt e u))"
  by (auto simp: begin_act_def)

lemma looks_popup [simp]: "looks (popup_reaches_approved_auth_origin d p)"
proof -
  have "looks (popup_reaches d p n)" for n by (induction n) (auto intro!: looks_intro)
  then show ?thesis by (simp add: popup_reaches_approved_auth_origin_def)
qed

lemma looks_stabilize [simp]: "looks (stabilize_pages d n ps)"
  by (induction n arbitrary: ps) (auto intro!: looks_intro)

definition begins :: "worker_env \<Rightarrow> interaction list \<Rightarrow> bool" where
  "begins e l \<longleftrightarrow> list_all (begin_act e) (acts l)"

lemma begins_append [simp]: "begins e (l @ m) = (begins e l \<and> begins e m)"
  by (simp add: begins_def)

lemma begins_looks [simp]: "acts l = [] \<Longrightarrow> begins e l"
  by (simp add: begins_def)

lemma begins_act [simp]: "begins e (Performed a ok # l) = (begin_act e a \<and> begins e l)"
  by (simp add: begins_def)

lemma begins_seen [simp]:
  "begins e (SawPages ps # l) = begins e l" "begins e (SawUrl p u # l) = begins e l"
  "begins e (Counted p q n # l) = begins e l" "begins e (OpenedPage r # l) = begins e l"
  by (simp_all add: begins_def)

lemma close_spec:
  assumes "\<And>r l. begins e l \<Longrightarrow> Q r l f"
  shows "wp f (close_pages d ps) Q"
  using assms
proof (induction ps arbitrary: Q)
  case (Cons p ps)
  have "wp f (close_pages d ps) (\<lambda>r l. Q r (Performed (ClosePage p) True # l))"
    by (rule Cons.IH, rule Cons.prems) simp
  then show ?case by (auto intro!: wp_intro Cons.prems)
qed (auto intro!: wp_intro)

lemma planner_signin_spec:
  assumes "\<And>r l. begins e l \<Longrightarrow> Q r l f"
  shows "wp f (signin_from_planner d p) Q"
  unfolding signin_from_planner_def
  by (auto intro!: wp_intro result_cases assms close_spec [where e = e] looks_wp [OF looks_stabilize] looks_wp [OF looks_popup]
      split: list.splits)

lemma reauth_spec:
  assumes "\<And>r l. begins e l \<Longrightarrow> Q r l f"
  shows "wp f (maybe_force_reauth_on_landing d e p) Q"
  unfolding maybe_force_reauth_on_landing_def
  by (auto intro!: wp_intro result_cases assms combined_spec)

text \<open>The last thing it does, when it succeeds, is to see the final page on an approved origin.\<close>

definition landed :: "interaction list \<Rightarrow> bool" where
  "landed l \<longleftrightarrow> (\<exists>m p u. l = m @ [SawUrl p u] \<and> auth_origin_status [u] = APPROVED_AUTH_ORIGIN)"

lemma landed_append [simp]: "landed m \<Longrightarrow> landed (l @ m)"
  by (auto simp: landed_def)

lemma landed_Cons [simp]: "landed m \<Longrightarrow> landed (i # m)"
  using landed_append [of m "[i]"] by simp

lemma landed_single [simp]: "auth_origin_status [u] = APPROVED_AUTH_ORIGIN \<Longrightarrow> landed [SawUrl p u]"
  by (auto simp: landed_def)

lemma landing_spec:
  assumes "\<And>r l. begins e l \<Longrightarrow> (r = Inr () \<Longrightarrow> landed l) \<Longrightarrow> Q r l f"
  shows "wp f (require_landed_on_approved_auth_origin d p) Q"
  unfolding require_landed_on_approved_auth_origin_def
  by (auto intro!: wp_intro assms)

text \<open>The part after the final page is known.\<close>

definition finish_begin :: "'w driver \<Rightarrow> worker_env \<Rightarrow> page \<Rightarrow> ('w, unit) io" where
  "finish_begin d e final_page = io_bind (io_update (\<lambda>s. s\<lparr>se_surface_resolved := False\<rparr>)) (\<lambda>_.
         io_bind (require_landed_on_approved_auth_origin d final_page) (\<lambda>_.
         io_bind (maybe_force_reauth_on_landing d e final_page) (\<lambda>_.
         require_landed_on_approved_auth_origin d final_page)))"

definition unresolved :: "flags \<Rightarrow> flags" where
  "unresolved f = (fst f, fst (snd f), False, snd (snd (snd f)))"

lemma finish_spec:
  "wp f (finish_begin d e p) (\<lambda>r l f'. f' = unresolved f \<and> begins e l \<and> (r = Inr () \<longrightarrow> landed l))"
  unfolding finish_begin_def unresolved_def
  by (auto intro!: wp_intro result_cases landing_spec [where e = e] reauth_spec [where e = e])

lemma begin_spec:
  "wp f (begin_auth_signin d e) (\<lambda>r l f'.
     (acts l = [] \<or> owned f \<and> dedicated_env e) \<and> begins e l \<and>
     (f' = f \<or> f' = unresolved f) \<and> (r = Inr () \<longrightarrow> f' = unresolved f \<and> landed l))"
  unfolding begin_auth_signin_def finish_begin_def [symmetric]
  by (auto intro!: wp_intro result_cases dedicated_spec planner_signin_spec [where e = e] wp_conseq [OF finish_spec]
      split: option.splits sum.splits)

subsection \<open>Life cycle\<close>

text \<open>Whether a Playwright process runs, from the calls that succeeded; and the two ways in which the worker
  loses sight of one: the routing could not be installed after the launch, or stopping it failed.\<close>

fun process_runs :: "bool \<Rightarrow> interaction list \<Rightarrow> bool" where
  "process_runs b [] = b"
| "process_runs b (Lifecycle START_PLAYWRIGHT True # l) = process_runs True l"
| "process_runs b (Lifecycle STOP_PLAYWRIGHT True # l) = process_runs False l"
| "process_runs b (i # l) = process_runs b l"

definition process_lost :: "interaction list \<Rightarrow> bool" where
  "process_lost l \<longleftrightarrow> Lifecycle INSTALL_ROUTE False \<in> set l \<or> Lifecycle STOP_PLAYWRIGHT False \<in> set l"

lemma process_runs_append [simp]: "process_runs b (l @ m) = process_runs (process_runs b l) m"
  by (induction b l rule: process_runs.induct) auto

definition tracked :: "interaction list \<Rightarrow> flags \<Rightarrow> flags \<Rightarrow> bool" where
  "tracked l f f' \<longleftrightarrow> process_lost l \<or> process_runs (fst (snd f)) l = fst (snd f')"

lemma stop_tracked: "wp f (stop_browser d) (\<lambda>r l f'. f' = (False, False, snd (snd f)) \<and> acts l = [] \<and> tracked l f f')"
  by (rule wp_conseq [OF stop_spec]) (auto simp: tracked_def process_lost_def split: if_splits)

lemma launch_tracked:
  "\<not> fst (snd f) \<Longrightarrow> wp f (launch_browser d) (\<lambda>r l f'. (r = Inr () \<longrightarrow> owned f') \<and> acts l = [] \<and> tracked l f f' \<and>
     snd (snd f') = snd (snd f))"
  by (rule wp_conseq [OF launch_spec])
    (auto simp: tracked_def process_lost_def launch_outcome_def owned_def split: if_splits)

lemma tracked_trans: "tracked l f g \<Longrightarrow> tracked m g h \<Longrightarrow> tracked (l @ m) f h"
  by (auto simp: tracked_def process_lost_def)

lemma tracked_Nil [simp]: "tracked [] f f"
  by (simp add: tracked_def)

lemma start_spec:
  "wp f (start_browser d e) (\<lambda>r l f'. (r = Inr () \<longrightarrow> config_is_mock e \<or> owned f') \<and> acts l = [] \<and> tracked l f f' \<and>
     snd (snd f') = snd (snd f))"
  unfolding start_browser_def
  by (auto intro!: wp_intro wp_conseq [OF stop_tracked] wp_conseq [OF launch_tracked] split: sum.splits simp: owned_def)
    (erule (1) tracked_trans)+

subsection \<open>Sequences of operations\<close>

datatype browser_op =
    Start_browser | Stop_browser | Navigate_bootstrap | Begin_signin | Begin_email string
  | Resolve_signin | Resolve_kmsi | Resolve_method | Diagnose | Submit_signin OperatorSignInInput

definition io_void :: "('w, 'a) io \<Rightarrow> ('w, unit) io" where
  "io_void m = io_bind m (\<lambda>_. io_return ())"

fun run_op :: "'w driver \<Rightarrow> worker_env \<Rightarrow> browser_op \<Rightarrow> ('w, unit) io" where
  "run_op d e Start_browser = start_browser d e"
| "run_op d e Stop_browser = stop_browser d"
| "run_op d e Navigate_bootstrap = navigate_auth_bootstrap d e"
| "run_op d e Begin_signin = begin_auth_signin d e"
| "run_op d e (Begin_email email) = begin_email_stage d e email"
| "run_op d e Resolve_signin = resolve_signin_surface d e"
| "run_op d e Resolve_kmsi = io_void (resolve_kmsi_surface d e)"
| "run_op d e Resolve_method = io_void (resolve_method_surface d e)"
| "run_op d e Diagnose = io_void (diagnose_signin_surface d e)"
| "run_op d e (Submit_signin signin) = submit_operator_signin d e signin"

text \<open>What a sequence did: each operation with its success and its own part of the log.\<close>

type_synonym happened = "browser_op \<times> bool \<times> interaction list"

fun run_ops :: "'w driver \<Rightarrow> worker_env \<Rightarrow> browser_op list \<Rightarrow> 'w session \<Rightarrow> happened list \<times> 'w session" where
  "run_ops d e [] s = ([], s)"
| "run_ops d e (op1 # ops) s = (case run_op d e op1 s of (r, t) \<Rightarrow>
     (case run_ops d e ops t of (h, u) \<Rightarrow> ((op1, r = Inr (), drop (length (se_log s)) (se_log t)) # h, u)))"

definition fresh_session :: "'w \<Rightarrow> AuthContext \<Rightarrow> 'w session" where
  "fresh_session w observation = \<lparr>se_world = w, se_log = [], se_context = False, se_playwright = False,
     se_surface_resolved = False, se_observation = observation\<rparr>"

text \<open>Whether the history allows the latch to be set: the surface was resolved, with the email entry seen,
  and sign-in has not begun again since.\<close>

fun latch_after :: "bool \<Rightarrow> happened \<Rightarrow> bool" where
  "latch_after b (Resolve_signin, ok, l) = (if ok then email_entry_seen l else b)"
| "latch_after b (Begin_signin, ok, l) = (b \<and> \<not> ok)"
| "latch_after b (op1, ok, l) = b"

fun is_submit :: "browser_op \<Rightarrow> bool" where
  "is_submit (Submit_signin signin) = True"
| "is_submit op1 = False"

fun filled :: "interaction list \<Rightarrow> bool" where
  "filled [] = False"
| "filled (Performed (FillIn p q v) ok # l) = True"
| "filled (i # l) = filled l"

text \<open>Every operation that types into the page is allowed to: a submission only while the history allows
  the latch, an email stage always, and nothing else.\<close>

fun typing_allowed :: "bool \<Rightarrow> happened list \<Rightarrow> bool" where
  "typing_allowed b [] = True"
| "typing_allowed b ((op1, ok, l) # h) =
     ((filled l \<longrightarrow> (is_submit op1 \<and> b) \<or> (\<exists>email. op1 = Begin_email email)) \<and>
      typing_allowed (latch_after b (op1, ok, l)) h)"

lemma filled_iff: "filled l \<longleftrightarrow> (\<exists>p q v. FillIn p q v \<in> set (acts l))"
  by (induction l rule: filled.induct) auto

lemma clicks_only:
  "FillIn p q v \<notin> another_account_clicks p'" "FillIn p q v \<notin> kmsi_clicks p'" "FillIn p q v \<notin> method_clicks p'"
  "\<not> begin_act e (FillIn p q v)"
  by (auto simp: another_account_clicks_def kmsi_clicks_def method_clicks_def role_click_def text_click_def begin_act_def)

lemma not_filled:
  "acts l = [] \<Longrightarrow> \<not> filled l"
  "set (acts l) \<subseteq> another_account_clicks p \<Longrightarrow> \<not> filled l"
  "set (acts l) \<subseteq> kmsi_clicks p \<Longrightarrow> \<not> filled l"
  "set (acts l) \<subseteq> method_clicks p \<Longrightarrow> \<not> filled l"
  "begins e l \<Longrightarrow> \<not> filled l"
  using clicks_only by (auto simp: filled_iff begins_def list_all_iff)

lemma void_wp:
  "wp f m Q \<Longrightarrow> (\<And>x l f'. Q (Inl x) l f' \<Longrightarrow> R (Inl x) l f') \<Longrightarrow> (\<And>x l f'. Q (Inr x) l f' \<Longrightarrow> R (Inr ()) l f') \<Longrightarrow>
     wp f (io_void m) R"
  unfolding io_void_def by (rule wp_bind, erule wp_conseq, rule result_cases) (simp_all add: wp_return)

definition op_allowed :: "browser_op \<Rightarrow> unit wresult \<Rightarrow> interaction list \<Rightarrow> flags \<Rightarrow> flags \<Rightarrow> bool" where
  "op_allowed op1 r l f f' \<longleftrightarrow>
     (filled l \<longrightarrow> is_submit op1 \<and> latch f \<or> (\<exists>email. op1 = Begin_email email)) \<and>
     (latch f' \<longrightarrow> latch_after (latch f) (op1, r = Inr (), l))"

lemma op_spec: "wp f (run_op d e op1) (\<lambda>r l f'. op_allowed op1 r l f f')"
proof (cases op1)
  case Start_browser
  then show ?thesis by (auto intro!: wp_conseq [OF start_spec] simp: op_allowed_def not_filled latch_def)
next
  case Stop_browser
  then show ?thesis by (auto intro!: wp_conseq [OF stop_tracked] simp: op_allowed_def not_filled latch_def)
next
  case Navigate_bootstrap
  then show ?thesis by (auto intro!: wp_conseq [OF navigate_spec] simp: op_allowed_def filled_iff)
next
  case Begin_signin
  then show ?thesis by (auto intro!: wp_conseq [OF begin_spec] simp: op_allowed_def not_filled latch_def unresolved_def)
next
  case (Begin_email email)
  then show ?thesis by (auto intro!: wp_conseq [OF email_stage_spec] simp: op_allowed_def)
next
  case Resolve_signin
  then show ?thesis by (auto intro!: wp_conseq [OF resolve_signin_spec] simp: op_allowed_def dest: not_filled)
next
  case Resolve_kmsi
  then show ?thesis by (auto intro!: void_wp [OF resolve_kmsi_spec] simp: op_allowed_def dest: not_filled)
next
  case Resolve_method
  then show ?thesis by (auto intro!: void_wp [OF resolve_method_spec] simp: op_allowed_def dest: not_filled)
next
  case Diagnose
  then show ?thesis by (auto intro!: void_wp [OF diagnose_spec] simp: op_allowed_def not_filled)
next
  case (Submit_signin signin)
  then show ?thesis
    by (auto intro!: wp_conseq [OF submit_spec] simp: op_allowed_def not_filled submission_allowed_def)
qed

lemma latch_after_mono: "b \<longrightarrow> c \<Longrightarrow> latch_after b (op1, ok, l) \<longrightarrow> latch_after c (op1, ok, l)"
  by (cases op1) auto

lemma run_ops_typing:
  "(se_surface_resolved s \<longrightarrow> b) \<Longrightarrow> typing_allowed b (fst (run_ops d e ops s))"
proof (induction ops arbitrary: s b)
  case (Cons op1 ops)
  obtain r t where m: "run_op d e op1 s = (r, t)" by force
  from wpD [OF op_spec refl m] obtain l where l: "se_log t = se_log s @ l"
    and a: "op_allowed op1 r l (flags_of s) (flags_of t)" by blast
  from a Cons.prems have "se_surface_resolved t \<longrightarrow> latch_after b (op1, r = Inr (), l)"
    using latch_after_mono [of "se_surface_resolved s" b] by (auto simp: op_allowed_def)
  from Cons.IH [OF this] a l m Cons.prems show ?case
    by (auto simp: op_allowed_def split: prod.splits)
qed simp

subsection \<open>What the browser promises\<close>

lemma wp_run: "wp (flags_of s) m Q \<Longrightarrow>
    \<exists>l. se_log (snd (m s)) = se_log s @ l \<and> Q (fst (m s)) l (flags_of (snd (m s)))"
  by (auto simp: wp_def)




text \<open>C20. Beginning to sign in acts only when the worker owns its dedicated browser; all it can do is click
  the one sign-in control of Planner Web, close pages, and go to the fixed sign-in URL or to a landing URL
  on an approved host with a login prompt. It reports success only after the final page was seen on an
  approved origin, and then the latch is clear; a failure leaves the latch as it was or clears it.\<close>

theorem begin_signin_bounded:
  "\<exists>l. se_log (snd (begin_auth_signin d e s)) = se_log s @ l \<and>
     (acts l = [] \<or> owns_context s \<and> dedicated_env e) \<and> list_all (begin_act e) (acts l) \<and>
     flags_of (snd (begin_auth_signin d e s)) \<in> {flags_of s, unresolved (flags_of s)} \<and>
     (case fst (begin_auth_signin d e s) of
        Inl x \<Rightarrow> True
      | Inr x \<Rightarrow> landed l \<and> \<not> se_surface_resolved (snd (begin_auth_signin d e s)))"
proof -
  from wp_run [OF begin_spec [of "flags_of s" d e]] obtain l where
    "se_log (snd (begin_auth_signin d e s)) = se_log s @ l" "acts l = [] \<or> owns_context s \<and> dedicated_env e"
    "begins e l"
    "flags_of (snd (begin_auth_signin d e s)) = flags_of s \<or> flags_of (snd (begin_auth_signin d e s)) = unresolved (flags_of s)"
    and r: "fst (begin_auth_signin d e s) = Inr () \<longrightarrow>
      flags_of (snd (begin_auth_signin d e s)) = unresolved (flags_of s) \<and> landed l"
    unfolding flags_simps by blast
  moreover have "\<not> se_surface_resolved t" if "flags_of t = unresolved g" for t :: "'a session" and g
    using that by (simp add: flags_of_def unresolved_def)
  ultimately show ?thesis
    by (intro exI [of _ l] conjI result_cases) (auto simp: begins_def)
qed

text \<open>C21. Starting and stopping never touch a page. A successful start leaves the worker owning a context, or
  in mock mode nothing at all; stopping gives up everything even when closing fails. The worker's record of
  its Playwright process is true after both, except that the process is lost from sight when the request
  routing cannot be installed after a launch or when stopping the process itself fails.\<close>

theorem playwright_tracked:
  "(\<exists>l. se_log (snd (start_browser d e s)) = se_log s @ l \<and> acts l = [] \<and>
      (case fst (start_browser d e s) of
         Inl x \<Rightarrow> True | Inr x \<Rightarrow> config_is_mock e \<or> owns_context (snd (start_browser d e s))) \<and>
      (process_lost l \<or> process_runs (se_playwright s) l = se_playwright (snd (start_browser d e s)))) \<and>
   (\<exists>l. se_log (snd (stop_browser d s)) = se_log s @ l \<and> acts l = [] \<and>
      \<not> se_context (snd (stop_browser d s)) \<and> \<not> se_playwright (snd (stop_browser d s)) \<and>
      (process_lost l \<or> process_runs (se_playwright s) l = False))"
proof (rule conjI)
  show "\<exists>l. se_log (snd (start_browser d e s)) = se_log s @ l \<and> acts l = [] \<and>
      (case fst (start_browser d e s) of
         Inl x \<Rightarrow> True | Inr x \<Rightarrow> config_is_mock e \<or> owns_context (snd (start_browser d e s))) \<and>
      (process_lost l \<or> process_runs (se_playwright s) l = se_playwright (snd (start_browser d e s)))"
    using wp_run [OF start_spec [of "flags_of s" d e]] unfolding tracked_def
    by (elim exE conjE) (rule exI, intro conjI result_cases, auto simp: flags_of_def owns_context_def owned_def)
  show "\<exists>l. se_log (snd (stop_browser d s)) = se_log s @ l \<and> acts l = [] \<and>
      \<not> se_context (snd (stop_browser d s)) \<and> \<not> se_playwright (snd (stop_browser d s)) \<and>
      (process_lost l \<or> process_runs (se_playwright s) l = False)"
    using wp_run [OF stop_tracked [of "flags_of s" d]] unfolding tracked_def
    by (elim exE conjE) (rule exI, intro conjI, auto simp: flags_of_def)
qed

end
