(* ===== verification/Auth_Observation.thy ===== *)
theory Auth_Observation
  imports Browser_Effects
begin

text \<open>
  What the worker reads from the page while the operator signs in. \<open>auth_flow.py\<close>: the number of an
  Authenticator prompt and the classification of a page. \<open>auth_state_machine.py\<close> and \<open>observation.py\<close>: how
  a reading advances the observation context. \<open>planner_mcp/auth.py\<close> (the context itself) is in
  \<open>Capability_Support\<close>.

  The pattern of a number prompt is translated into a matcher on texts of code points below 256, where
  the digits of \<open>\d\<close> are the ten ASCII digits. The expiry of a challenge is the clock's, an argument.

  The results: the matcher finds exactly the numbers bound to a prompt, a number is reported only when it
  is the only one, and the observation context is always a trace of the state machine.
\<close>

subsection \<open>The number of a prompt\<close>

definition ascii_num :: "char \<Rightarrow> bool" where
  "ascii_num c \<longleftrightarrow> (let n = of_char c :: nat in 48 \<le> n \<and> n \<le> 57)"

text \<open>\<open>\w\<close> below code point 256: the letters, the digits, the numeric signs and the underscore.\<close>

definition word_char :: "char \<Rightarrow> bool" where
  "word_char c \<longleftrightarrow> (let n = of_char c :: nat in
     (48 \<le> n \<and> n \<le> 57) \<or> (65 \<le> n \<and> n \<le> 90) \<or> n = 95 \<or> (97 \<le> n \<and> n \<le> 122) \<or>
     n \<in> {170, 178, 179, 181, 185, 186, 188, 189, 190} \<or> (192 \<le> n \<and> n \<noteq> 215 \<and> n \<noteq> 247))"

text \<open>The six phrases, each with the number of characters that may stand between it and the number: the
  last one carries a gap of its own before the shared one.\<close>

definition NUMBER_PHRASES :: "(string \<times> nat) list" where
  "NUMBER_PHRASES = [(''enter the number'', 80), (''number matching'', 80), (''type the number'', 80),
     (''the number shown'', 80), (''number shown on your'', 80), (''open your authenticator'', 160)]"

text \<open>At most \<open>k\<close> characters that are no digits, two digits, and then no word character; with the rest.\<close>

fun code_after :: "nat \<Rightarrow> string \<Rightarrow> (string \<times> string) option" where
  "code_after k [] = None"
| "code_after k (c # cs) =
     (if ascii_num c then (case cs of
          [] \<Rightarrow> None
        | d # rest \<Rightarrow> (if ascii_num d \<and> (case rest of [] \<Rightarrow> True | x # xs \<Rightarrow> \<not> word_char x)
            then Some ([c, d], rest) else None))
      else case k of 0 \<Rightarrow> None | Suc j \<Rightarrow> code_after j cs)"

fun code_at :: "(string \<times> nat) list \<Rightarrow> string \<Rightarrow> (string \<times> string) option" where
  "code_at [] s = None"
| "code_at ((phrase, gap) # ps) s =
     (case (if prefix phrase (lower (take (length phrase) s)) then code_after gap (drop (length phrase) s) else None) of
        Some r \<Rightarrow> Some r | None \<Rightarrow> code_at ps s)"

lemma code_after_shorter: "code_after k s = Some (n, rest) \<Longrightarrow> length rest < length s"
  by (induction k s rule: code_after.induct) (auto split: if_splits list.splits nat.splits)

lemma code_at_shorter: "code_at ps s = Some (n, rest) \<Longrightarrow> s \<noteq> [] \<and> length rest < length s"
  by (induction ps) (auto split: option.splits if_splits dest!: code_after_shorter)

text \<open>\<open>finditer\<close>: after a match the search goes on behind it.\<close>

function number_match_candidates :: "string \<Rightarrow> string list" where
  "number_match_candidates s = (case s of [] \<Rightarrow> [] | c # cs \<Rightarrow>
     (case code_at NUMBER_PHRASES s of
        Some (n, rest) \<Rightarrow> n # number_match_candidates rest
      | None \<Rightarrow> number_match_candidates cs))"
  by pat_completeness auto
termination by (relation "measure length") (auto dest!: code_at_shorter)

declare number_match_candidates.simps [simp del]

definition detect_mfa_number :: "string \<Rightarrow> string option" where
  "detect_mfa_number page_text = (case number_match_candidates page_text of [n] \<Rightarrow> Some n | _ \<Rightarrow> None)"

definition resolve_mfa_number_unique :: "string \<Rightarrow> string option" where
  "resolve_mfa_number_unique page_text = (case remdups (number_match_candidates page_text) of [n] \<Rightarrow> Some n | _ \<Rightarrow> None)"

definition build_challenge :: "string \<Rightarrow> string \<Rightarrow> string \<Rightarrow> MfaChallenge result" where
  "build_challenge expires number operation_id =
     (let m = \<lparr>mc_number = number, mc_operation_id = operation_id, mc_service = ''microsoft-entra-id'',
        mc_description = ''Sign in to Microsoft Planner'', mc_expires_at = expires,
        mc_approval_channel = ''microsoft_authenticator''\<rparr>
      in case mfa_challenge_check m of Some e \<Rightarrow> Inl e | None \<Rightarrow> Inr m)"

definition challenge_to_dict :: "MfaChallenge \<Rightarrow> json_object" where
  "challenge_to_dict m = [(''mfa_number'', JStr (mc_number m)), (''operation_id'', JStr (mc_operation_id m)),
     (''service'', JStr (mc_service m)), (''description'', JStr (mc_description m)),
     (''expires_at'', JStr (mc_expires_at m)), (''approval_channel'', JStr (mc_approval_channel m)),
     (''approve_in_telegram'', JStr ''false'')]"

definition classify_page :: "string \<Rightarrow> string \<Rightarrow> (AuthState \<times> json_object) result" where
  "classify_page expires page_text =
     (let low = lower page_text in case number_match_candidates page_text of
        [n] \<Rightarrow> bindE (build_challenge expires n ''auth-live'') (\<lambda>c. Inr (MFA_REQUIRED, challenge_to_dict c))
      | _ \<Rightarrow> Inr
         (if sublist ''approve sign in request'' low \<or> sublist ''waiting for approval'' low then (WAITING_FOR_MFA, [])
          else if sublist ''sign in'' low \<or> sublist ''enter password'' low then (AUTH_REQUIRED, [])
          else if sublist ''your session has expired'' low then (SESSION_EXPIRED, [])
          else (AUTH_UNKNOWN, [])))"

subsection \<open>Advancing the context\<close>

record LiveAuthReading =
  lr_state :: AuthState
  lr_metadata :: json_object
  lr_challenge :: "MfaChallenge option"
  lr_advanced :: bool
  lr_mfa_ambiguous :: bool

definition classify_live :: "string \<Rightarrow> string \<Rightarrow> (AuthState \<times> MfaChallenge option \<times> bool) result" where
  "classify_live expires page_text = bindE (classify_page expires page_text) (\<lambda>(state, meta).
     (if state = MFA_REQUIRED
      then (case resolve_mfa_number_unique page_text of
          None \<Rightarrow> Inr (AUTH_UNKNOWN, None, True)
        | Some n \<Rightarrow> bindE (build_challenge expires n ''auth-live'') (\<lambda>c. Inr (state, Some c, False)))
      else if state = WAITING_FOR_MFA then Inr (state, None, False)
      else if 1 < length (number_match_candidates page_text) then Inr (AUTH_UNKNOWN, None, True)
      else Inr (state, None, False)))"

definition advance_live_auth_state ::
  "string \<Rightarrow> AuthContext \<Rightarrow> string \<Rightarrow> (LiveAuthReading \<times> AuthContext) result" where
  "advance_live_auth_state expires context page_text =
     bindE (classify_live expires page_text) (\<lambda>(state, challenge, ambiguous).
     (let metadata = (case challenge of None \<Rightarrow> [] | Some c \<Rightarrow> challenge_to_dict c);
          reading = (\<lambda>advanced. \<lparr>lr_state = state, lr_metadata = metadata, lr_challenge = challenge,
            lr_advanced = advanced, lr_mfa_ambiguous = ambiguous\<rparr>) in
      if state = AUTH_UNKNOWN
      then Inr (\<lparr>lr_state = AUTH_UNKNOWN, lr_metadata = [], lr_challenge = None, lr_advanced = False,
        lr_mfa_ambiguous = ambiguous\<rparr>, context)
      else if state = ac_state context then Inr (reading False, context)
      else bindE (auth_context_transition context state) (\<lambda>moved. Inr (reading True, moved))))"

definition waiting_for_mfa :: "AuthContext \<Rightarrow> bool" where
  "waiting_for_mfa context \<longleftrightarrow> ac_state context \<in> {MFA_REQUIRED, WAITING_FOR_MFA}"

subsection \<open>Observing the sign-in\<close>

record ObservationResult =
  ob_state :: AuthState
  ob_mfa_number :: "string option"
  ob_mfa_ambiguous :: bool

definition observed :: "AuthState \<Rightarrow> string option \<Rightarrow> bool \<Rightarrow> ObservationResult" where
  "observed state number ambiguous = \<lparr>ob_state = state, ob_mfa_number = number, ob_mfa_ambiguous = ambiguous\<rparr>"

text \<open>A \<open>ValueError\<close> of a transition is swallowed and leaves the context as it was.\<close>

definition advance_checked :: "AuthContext \<Rightarrow> AuthState \<Rightarrow> AuthContext" where
  "advance_checked context target = (case auth_context_transition context target of Inl e \<Rightarrow> context | Inr moved \<Rightarrow> moved)"

definition observation_surface_present :: "'w driver \<Rightarrow> ('w, bool) io" where
  "observation_surface_present d = io_bind (io_get se_context) (\<lambda>context.
     if \<not> context then io_return False
     else io_bind (open_pages d) (\<lambda>ps. case ps of
       [(p, u)] \<Rightarrow> io_return (is_planner_web_surface_url u) | _ \<Rightarrow> io_return False))"

definition set_observation :: "AuthContext \<Rightarrow> ('w, unit) io" where
  "set_observation c = io_update (\<lambda>s. s\<lparr>se_observation := c\<rparr>)"

text \<open>The part that reads the page.\<close>

definition observe_page :: "'w driver \<Rightarrow> worker_env \<Rightarrow> string \<Rightarrow> ('w, ObservationResult) io" where
  "observe_page d e expires =
     io_bind (read_visible_body_bounded d e 2000) (\<lambda>page_text.
     io_bind (io_lift (wrap (classify_live expires page_text))) (\<lambda>(state, challenge, ambiguous).
     if state = AUTH_UNKNOWN then io_return (observed AUTH_UNKNOWN None ambiguous)
     else io_bind (io_get se_observation) (\<lambda>context.
       io_bind (case advance_live_auth_state expires context page_text of
           Inr (reading, moved) \<Rightarrow> set_observation moved
         | Inl x \<Rightarrow> (if is_value_error x then io_return () else io_raise (Raised x))) (\<lambda>_.
       io_return (observed state (map_option mc_number challenge) ambiguous)))))"

definition observe_signin_state :: "'w driver \<Rightarrow> worker_env \<Rightarrow> string \<Rightarrow> ('w, ObservationResult) io" where
  "observe_signin_state d e expires =
     io_bind (observation_surface_present d) (\<lambda>present.
     io_bind (io_get se_observation) (\<lambda>context.
     if present \<and> ac_state context = AUTHENTICATED then io_return (observed AUTHENTICATED None False)
     else if present \<and> ac_state context \<in> {AUTH_REQUIRED, MFA_REQUIRED, WAITING_FOR_MFA}
     then io_bind (set_observation (advance_checked context AUTHENTICATED)) (\<lambda>_.
       io_return (observed AUTHENTICATED None False))
     else if present \<and> ac_state context \<in> {AUTH_UNKNOWN, AUTH_READY} then io_return (observed AUTH_UNKNOWN None False)
     else observe_page d e expires))"

subsection \<open>The matcher\<close>

text \<open>A number bound to a prompt in a text.\<close>

definition code_stop :: "string \<Rightarrow> bool" where
  "code_stop rest \<longleftrightarrow> (case rest of [] \<Rightarrow> True | x # xs \<Rightarrow> \<not> word_char x)"

definition gap_then_code :: "nat \<Rightarrow> string \<Rightarrow> string \<Rightarrow> string \<Rightarrow> bool" where
  "gap_then_code k s n rest \<longleftrightarrow> (\<exists>gap. s = gap @ n @ rest \<and> length gap \<le> k \<and> list_all (\<lambda>c. \<not> ascii_num c) gap \<and>
     length n = 2 \<and> list_all ascii_num n \<and> code_stop rest)"

lemma gap_then_code_digit:
  "ascii_num c \<Longrightarrow> gap_then_code k (c # cs) n rest \<longleftrightarrow>
     (\<exists>d. n = [c, d] \<and> cs = d # rest \<and> ascii_num d \<and> code_stop rest)"
  by (auto simp: gap_then_code_def Cons_eq_append_conv length_Suc_conv numeral_2_eq_2)

lemma gap_then_code_other:
  "\<not> ascii_num c \<Longrightarrow> gap_then_code k (c # cs) n rest \<longleftrightarrow> (\<exists>j. k = Suc j \<and> gap_then_code j cs n rest)"
  unfolding gap_then_code_def
proof safe
  fix gap assume c: "\<not> ascii_num c" and s: "c # cs = gap @ n @ rest" and l: "length gap \<le> k"
    and g: "list_all (\<lambda>c. \<not> ascii_num c) gap" and n: "length n = 2" "list_all ascii_num n" "code_stop rest"
  from s c n obtain g' where gap: "gap = c # g'" "cs = g' @ n @ rest" by (cases gap) (auto simp: Cons_eq_append_conv)
  with l obtain j where "k = Suc j" by (cases k) auto
  with gap g n l show "\<exists>j. k = Suc j \<and> (\<exists>gap. cs = gap @ n @ rest \<and> length gap \<le> j \<and>
      list_all (\<lambda>c. \<not> ascii_num c) gap \<and> length n = 2 \<and> list_all ascii_num n \<and> code_stop rest)" by auto
next
  fix j gap assume "\<not> ascii_num c" "length gap \<le> j" "list_all (\<lambda>c. \<not> ascii_num c) gap"
    "length n = 2" "list_all ascii_num n" "code_stop rest"
  then show "\<exists>gap'. c # gap @ n @ rest = gap' @ n @ rest \<and> length gap' \<le> Suc j \<and>
      list_all (\<lambda>c. \<not> ascii_num c) gap' \<and> length n = 2 \<and> list_all ascii_num n \<and> code_stop rest"
    by (intro exI [of _ "c # gap"]) auto
qed

lemma code_after_iff: "code_after k s = Some (n, rest) \<longleftrightarrow> gap_then_code k s n rest"
proof (induction k s rule: code_after.induct)
  case (1 k)
  show ?case by (auto simp: gap_then_code_def)
next
  case (2 k c cs)
  show ?case
  proof (cases "ascii_num c")
    case True
    then show ?thesis by (auto simp: gap_then_code_digit code_stop_def split: list.splits)
  next
    case False
    then show ?thesis using "2.IH" [OF False] by (auto simp: gap_then_code_other split: nat.splits)
  qed
qed

definition bound_at :: "string \<Rightarrow> string \<Rightarrow> string \<Rightarrow> bool" where
  "bound_at s n rest \<longleftrightarrow> (\<exists>(phrase, k) \<in> set NUMBER_PHRASES. \<exists>ph t. s = ph @ t \<and> lower ph = phrase \<and> gap_then_code k t n rest)"

definition bound_number :: "string \<Rightarrow> string \<Rightarrow> bool" where
  "bound_number s n \<longleftrightarrow> (\<exists>a t rest. s = a @ t \<and> bound_at t n rest)"

lemma length_lower [simp]: "length (lower s) = length s"
  by (simp add: lower_def)

lemma lower_take_iff:
  "prefix phrase (lower (take (length phrase) s)) \<longleftrightarrow> (\<exists>ph t. s = ph @ t \<and> lower ph = phrase)"
proof
  assume p: "prefix phrase (lower (take (length phrase) s))"
  then obtain zs where e: "lower (take (length phrase) s) = phrase @ zs" by (auto simp: prefix_def)
  then have "length (lower (take (length phrase) s)) = length phrase + length zs" by simp
  then have "zs = []" by (simp add: min_def split: if_splits)
  with e have "lower (take (length phrase) s) = phrase" by simp
  then show "\<exists>ph t. s = ph @ t \<and> lower ph = phrase" by (metis append_take_drop_id)
qed auto

lemma code_at_Some:
  "code_at ps s = Some (n, rest) \<Longrightarrow> \<exists>(phrase, k) \<in> set ps. \<exists>ph t. s = ph @ t \<and> lower ph = phrase \<and> gap_then_code k t n rest"
proof (induction ps)
  case (Cons p ps)
  obtain phrase k where p: "p = (phrase, k)" by force
  show ?case
  proof (cases "prefix phrase (lower (take (length phrase) s)) \<and> code_after k (drop (length phrase) s) = Some (n, rest)")
    case True
    then have len: "lower (take (length phrase) s) = phrase"
      using lower_take_iff [of phrase s] by auto
    from True have "gap_then_code k (drop (length phrase) s) n rest" by (simp add: code_after_iff)
    moreover have "s = take (length phrase) s @ drop (length phrase) s" by simp
    ultimately show ?thesis using len unfolding p by (metis (mono_tags, lifting) case_prodI list.set_intros(1))
  next
    case False
    with Cons.prems p have "code_at ps s = Some (n, rest)" by (auto split: option.splits if_splits)
    from Cons.IH [OF this] show ?thesis by auto
  qed
qed simp

lemma code_at_None:
  "code_at ps s = None \<Longrightarrow> (phrase, k) \<in> set ps \<Longrightarrow> s = ph @ t \<Longrightarrow> lower ph = phrase \<Longrightarrow> \<not> gap_then_code k t n rest"
proof (induction ps)
  case (Cons p ps)
  show ?case
  proof (cases "p = (phrase, k)")
    case True
    from Cons.prems(4) have len: "length phrase = length ph" by (metis length_lower)
    from Cons.prems True have "code_after k t = None"
      by (auto simp: len split: option.splits if_splits)
    then show ?thesis using code_after_iff [of k t n rest] by simp
  next
    case False
    with Cons.prems have "(phrase, k) \<in> set ps" "code_at ps s = None"
      by (cases p; auto split: option.splits if_splits)+
    with Cons.IH Cons.prems(3,4) show ?thesis by blast
  qed
qed simp

lemma code_at_bound: "code_at NUMBER_PHRASES s = Some (n, rest) \<Longrightarrow> bound_at s n rest"
  unfolding bound_at_def by (rule code_at_Some)

lemma code_at_unbound: "code_at NUMBER_PHRASES s = None \<longleftrightarrow> \<not> (\<exists>n rest. bound_at s n rest)"
proof
  assume "code_at NUMBER_PHRASES s = None"
  then show "\<not> (\<exists>n rest. bound_at s n rest)" using code_at_None [of NUMBER_PHRASES s] by (fastforce simp: bound_at_def)
next
  assume "\<not> (\<exists>n rest. bound_at s n rest)"
  then show "code_at NUMBER_PHRASES s = None"
    using code_at_bound [of s] by (cases "code_at NUMBER_PHRASES s") auto
qed

lemma bound_number_append: "bound_number t n \<Longrightarrow> bound_number (a @ t) n"
  by (auto simp: bound_number_def) (metis append.assoc)

lemma bound_at_rest: "bound_at s n rest \<Longrightarrow> \<exists>a. s = a @ rest"
  by (auto simp: bound_at_def gap_then_code_def)

lemma bound_number_Cons:
  "bound_number (c # cs) n \<longleftrightarrow> (\<exists>rest. bound_at (c # cs) n rest) \<or> bound_number cs n"
proof
  assume "bound_number (c # cs) n"
  then obtain a t rest where s: "c # cs = a @ t" "bound_at t n rest" by (auto simp: bound_number_def)
  then show "(\<exists>rest. bound_at (c # cs) n rest) \<or> bound_number cs n"
    by (cases a) (auto simp: bound_number_def)
next
  assume "(\<exists>rest. bound_at (c # cs) n rest) \<or> bound_number cs n"
  then show "bound_number (c # cs) n"
    using bound_number_append [of cs n "[c]"] by (auto simp: bound_number_def) (metis append_Nil)
qed

lemma bound_at_Nil [simp]: "\<not> bound_at [] n rest"
  by (auto simp: bound_at_def gap_then_code_def)

lemma bound_number_Nil [simp]: "\<not> bound_number [] n"
  by (auto simp: bound_number_def)

lemma candidates_spec:
  "set (number_match_candidates s) \<subseteq> {n. bound_number s n} \<and>
     (number_match_candidates s = [] \<longleftrightarrow> (\<forall>n. \<not> bound_number s n))"
proof (induction s rule: number_match_candidates.induct)
  case (1 s)
  show ?case
  proof (cases s)
    case Nil
    then show ?thesis by (simp add: number_match_candidates.simps [of "[]"])
  next
    case (Cons c cs)
    show ?thesis
    proof (cases "code_at NUMBER_PHRASES s")
      case None
      have "number_match_candidates s = number_match_candidates cs"
        by (subst number_match_candidates.simps) (use Cons None in simp)
      moreover have "bound_number s n \<longleftrightarrow> bound_number cs n" for n
        using None bound_number_Cons [of c cs n] code_at_unbound [of s] Cons by auto
      ultimately show ?thesis using "1.IH"(1) [OF Cons None] by auto
    next
      case (Some r)
      obtain n rest where r: "r = (n, rest)" by force
      have e: "number_match_candidates s = n # number_match_candidates rest"
        by (subst number_match_candidates.simps) (use Cons Some r in simp)
      from Some r have b: "bound_at s n rest" by (simp add: code_at_bound)
      then have n: "bound_number s n" unfolding bound_number_def by (metis append_Nil)
      from bound_at_rest [OF b] obtain a where "s = a @ rest" by blast
      then have "bound_number rest m \<Longrightarrow> bound_number s m" for m by (simp add: bound_number_append)
      with "1.IH"(2) [OF Cons Some] r e n show ?thesis by auto
    qed
  qed
qed

lemma bound_number_shape: "bound_number s n \<Longrightarrow> length n = 2 \<and> list_all ascii_num n"
  by (auto simp: bound_number_def bound_at_def gap_then_code_def)

lemma candidate_shape: "n \<in> set (number_match_candidates s) \<Longrightarrow> length n = 2 \<and> list_all ascii_num n"
  using candidates_spec [of s] bound_number_shape by blast

subsection \<open>What an observation does\<close>

lemma wp_get_observation [wp_intro]: "Q (Inr (snd (snd (snd f)))) [] f \<Longrightarrow> wp f (io_get se_observation) Q"
  by (auto simp: wp_def io_get_def flags_of_def)

lemma wp_set_observation [wp_intro]:
  "Q (Inr ()) [] (fst f, fst (snd f), fst (snd (snd f)), c) \<Longrightarrow> wp f (set_observation c) Q"
  by (auto simp: wp_def set_observation_def io_update_def flags_of_def)

lemma challenge_built:
  "n \<in> set (number_match_candidates t) \<Longrightarrow> \<exists>c. build_challenge expires n operation_id = Inr c \<and> mc_number c = n"
proof -
  assume "n \<in> set (number_match_candidates t)"
  then have "length n = 2" "list_all ascii_num n" by (auto dest: candidate_shape)
  moreover have "ascii_num c \<Longrightarrow> is_digit_char c" for c by (simp add: ascii_num_def is_digit_char_def Let_def)
  ultimately have "list_all is_digit_char n" "length n = 2" by (auto simp: list_all_iff)
  then show ?thesis by (simp add: build_challenge_def mfa_challenge_check_def Let_def)
qed

text \<open>The three ways a page can be classified.\<close>

lemma classify_live_cases:
  obtains (number) n c where "number_match_candidates t = [n]" "mc_number c = n"
      "classify_live expires t = Inr (MFA_REQUIRED, Some c, False)"
  | (ambiguous) state where "1 < length (number_match_candidates t)" "state \<in> {WAITING_FOR_MFA, AUTH_UNKNOWN}"
      "classify_live expires t = Inr (state, None, state = AUTH_UNKNOWN)"
  | (plain) state where "number_match_candidates t = []"
      "state \<in> {WAITING_FOR_MFA, AUTH_REQUIRED, SESSION_EXPIRED, AUTH_UNKNOWN}"
      "classify_live expires t = Inr (state, None, False)"
proof -
  consider n where "number_match_candidates t = [n]" | "number_match_candidates t = []"
    | n m ns where "number_match_candidates t = n # m # ns"
    by (cases "number_match_candidates t" rule: list.exhaust [case_names Nil Cons]) (auto, metis list.exhaust)
  then show thesis
  proof cases
    case 1
    then obtain c where "build_challenge expires n ''auth-live'' = Inr c" "mc_number c = n"
      using challenge_built [of n t] by auto
    with 1 number show thesis by (simp add: classify_live_def classify_page_def resolve_mfa_number_unique_def Let_def)
  next
    case 2
    then show thesis
      by (intro plain [of "(if sublist ''approve sign in request'' (lower t) \<or> sublist ''waiting for approval'' (lower t) then WAITING_FOR_MFA
          else if sublist ''sign in'' (lower t) \<or> sublist ''enter password'' (lower t) then AUTH_REQUIRED
          else if sublist ''your session has expired'' (lower t) then SESSION_EXPIRED else AUTH_UNKNOWN)"])
        (simp_all add: classify_live_def classify_page_def Let_def)
  next
    case 3
    then show thesis
      by (intro ambiguous [of "(if sublist ''approve sign in request'' (lower t) \<or> sublist ''waiting for approval'' (lower t) then WAITING_FOR_MFA
          else AUTH_UNKNOWN)"])
        (simp_all add: classify_live_def classify_page_def Let_def)
  qed
qed

text \<open>The context after an observation: as before, or one legal transition further.\<close>

definition moved_legally :: "AuthContext \<Rightarrow> AuthContext \<Rightarrow> bool" where
  "moved_legally c c' \<longleftrightarrow> c' = c \<or> (\<exists>target. can_transition (ac_state c) target \<and> auth_context_transition c target = Inr c')"

lemma transition_legal:
  assumes "auth_context_transition c target = Inr c'"
  shows "moved_legally c c'"
proof -
  from assms have "can_transition (ac_state c) target"
    by (cases "can_transition (ac_state c) target") (simp_all add: auth_context_transition_def)
  with assms show ?thesis unfolding moved_legally_def by blast
qed

lemma unmoved [simp]: "moved_legally c c"
  by (simp add: moved_legally_def)

lemma advance_checked_legal [simp]: "moved_legally c (advance_checked c target)"
  by (cases "auth_context_transition c target") (simp_all add: advance_checked_def transition_legal)

lemma advance_legal: "advance_live_auth_state expires c t = Inr (reading, c') \<Longrightarrow> moved_legally c c'"
  unfolding advance_live_auth_state_def bindE_Inr_iff Let_def
  by (auto simp: bindE_Inr_iff split: if_splits dest: transition_legal)

definition observation_ok :: "flags \<Rightarrow> interaction list \<Rightarrow> ObservationResult \<Rightarrow> bool" where
  "observation_ok f l x \<longleftrightarrow>
     (case ob_mfa_number x of None \<Rightarrow> ob_state x \<noteq> MFA_REQUIRED
      | Some n \<Rightarrow> ob_state x = MFA_REQUIRED \<and> (\<exists>u \<in> set (seen_texts l). number_match_candidates (take 2000 u) = [n])) \<and>
     (if ob_state x = AUTHENTICATED
      then ac_state (snd (snd (snd f))) \<in> {AUTHENTICATED, AUTH_REQUIRED, MFA_REQUIRED, WAITING_FOR_MFA} \<and>
        (\<exists>ps p u. SawPages ps \<in> set l \<and> filter (\<lambda>(p, u). u \<noteq> []) ps = [(p, u)] \<and> is_planner_web_surface_url u)
      else True)"

lemma surface_present_spec:
  assumes "Q (Inr False) [] f" "\<And>ps. Q (Inr False) [SawPages ps] f"
    "\<And>ps p u. filter (\<lambda>(p, u). u \<noteq> []) ps = [(p, u)] \<Longrightarrow> is_planner_web_surface_url u \<Longrightarrow> Q (Inr True) [SawPages ps] f"
  shows "wp f (observation_surface_present d) Q"
  unfolding observation_surface_present_def
proof (rule wp_bind, rule wp_get_owner, simp, intro conjI impI)
  show "wp f (io_return False) Q" by (rule wp_return, rule assms)
  have "wp f (case xs of [(p, u)] \<Rightarrow> io_return (is_planner_web_surface_url u) | _ \<Rightarrow> io_return False) (\<lambda>r l. Q r (SawPages ps # l))"
    if "filter (\<lambda>(p, u). u \<noteq> []) ps = xs" for ps :: "(page \<times> string) list" and xs
  proof (cases "\<exists>p u. xs = [(p, u)] \<and> is_planner_web_surface_url u")
    case True
    with that assms(3) show ?thesis by (auto intro!: wp_return)
  next
    case False
    with assms(2) show ?thesis by (auto intro!: wp_return split: list.splits)
  qed
  then show "wp f (io_bind (open_pages d) (\<lambda>ps. case ps of [(p, u)] \<Rightarrow> io_return (is_planner_web_surface_url u) | _ \<Rightarrow> io_return False)) Q"
    by (intro wp_bind open_pages_spec) simp
qed

lemma observe_page_spec:
  "wp f (observe_page d e expires) (\<lambda>r l f'. acts l = [] \<and>
     fst f' = fst f \<and> fst (snd f') = fst (snd f) \<and> fst (snd (snd f')) = fst (snd (snd f)) \<and>
     moved_legally (snd (snd (snd f))) (snd (snd (snd f'))) \<and>
     (\<forall>x. r = Inr x \<longrightarrow> observation_ok f l x))"
  unfolding observe_page_def
proof (rule wp_bind, rule body_reader_wp [OF read_body_reader [unfolded read_body_def]], simp, simp)
  fix u l assume l: "acts l = []" "seen_texts l = [u]"
  let ?t = "take 2000 u"
  show "wp f (io_bind (io_lift (wrap (classify_live expires ?t))) (\<lambda>(state, challenge, ambiguous).
       if state = AUTH_UNKNOWN then io_return (observed AUTH_UNKNOWN None ambiguous)
       else io_bind (io_get se_observation) (\<lambda>context.
         io_bind (case advance_live_auth_state expires context ?t of
             Inr (reading, moved) \<Rightarrow> set_observation moved
           | Inl x \<Rightarrow> (if is_value_error x then io_return () else io_raise (Raised x))) (\<lambda>_.
         io_return (observed state (map_option mc_number challenge) ambiguous)))))
     (\<lambda>r' l' f''. acts l' = [] \<and>
       fst f'' = fst f \<and> fst (snd f'') = fst (snd f) \<and> fst (snd (snd f'')) = fst (snd (snd f)) \<and>
       moved_legally (snd (snd (snd f))) (snd (snd (snd f''))) \<and>
       (\<forall>x. r' = Inr x \<longrightarrow> observation_ok f (l @ l') x))"
    by (rule classify_live_cases [of ?t expires])
      (auto intro!: wp_intro split: sum.splits simp: observation_ok_def observed_def l; erule advance_legal)+
qed

lemma observe_spec:
  "wp f (observe_signin_state d e expires) (\<lambda>r l f'. acts l = [] \<and>
     fst f' = fst f \<and> fst (snd f') = fst (snd f) \<and> fst (snd (snd f')) = fst (snd (snd f)) \<and>
     moved_legally (snd (snd (snd f))) (snd (snd (snd f'))) \<and>
     (\<forall>x. r = Inr x \<longrightarrow> observation_ok f l x))"
proof -
  have keep: "observation_ok f (SawPages ps # l) x" if "observation_ok f l x" for ps l x
    using that by (auto simp: observation_ok_def split: option.splits if_splits)
  show ?thesis
    unfolding observe_signin_state_def
    by (auto intro!: wp_intro surface_present_spec wp_conseq [OF observe_page_spec])
      (erule keep | force simp: observation_ok_def observed_def)+
qed

subsection \<open>The two properties\<close>

text \<open>The numbers found in a page are exactly bound to a prompt: every number found is two digits behind
  one of the fixed phrases with at most its gap of other characters between and no word character after it;
  and nothing is found only when no such number is in the page. The number to approve is reported only when
  it is the only one found, and the page then classifies as a number prompt without ambiguity.\<close>

theorem prompt_number_bound:
  "(set (number_match_candidates t) \<subseteq> {n. bound_number t n}) \<and>
   (number_match_candidates t = [] \<longleftrightarrow> {n. bound_number t n} = {}) \<and>
   (case classify_live expires t of
      Inl x \<Rightarrow> False
    | Inr (state, challenge, ambiguous) \<Rightarrow>
        (state = MFA_REQUIRED) = (\<exists>n. number_match_candidates t = [n] \<and> map_option mc_number challenge = Some n) \<and>
        (challenge = None) = (state \<noteq> MFA_REQUIRED) \<and>
        (if ambiguous then state = AUTH_UNKNOWN \<and> 1 < length (number_match_candidates t) else True))"
proof (intro conjI)
  show "set (number_match_candidates t) \<subseteq> {n. bound_number t n}" using candidates_spec by blast
  show "number_match_candidates t = [] \<longleftrightarrow> {n. bound_number t n} = {}" using candidates_spec [of t] by auto
  show "case classify_live expires t of
      Inl x \<Rightarrow> False
    | Inr (state, challenge, ambiguous) \<Rightarrow>
        (state = MFA_REQUIRED) = (\<exists>n. number_match_candidates t = [n] \<and> map_option mc_number challenge = Some n) \<and>
        (challenge = None) = (state \<noteq> MFA_REQUIRED) \<and>
        (if ambiguous then state = AUTH_UNKNOWN \<and> 1 < length (number_match_candidates t) else True)"
    by (rule classify_live_cases [of t expires]) auto
qed

text \<open>C6. An observation performs no action and leaves the worker's own flags alone; whatever the page shows,
  the observation context stays as it was or moves along one legal transition. A reported number is the
  only one bound to a prompt in a text that was read; and the operator is told that sign-in succeeded only
  when the only open page is Planner Web and the context already knew of a sign-in.\<close>

theorem observation_sound:
  "\<exists>l. se_log (snd (observe_signin_state d e expires s)) = se_log s @ l \<and> acts l = [] \<and>
     owns_context (snd (observe_signin_state d e expires s)) = owns_context s \<and>
     se_surface_resolved (snd (observe_signin_state d e expires s)) = se_surface_resolved s \<and>
     moved_legally (se_observation s) (se_observation (snd (observe_signin_state d e expires s))) \<and>
     (case fst (observe_signin_state d e expires s) of
        Inl x \<Rightarrow> True
      | Inr x \<Rightarrow> observation_ok (flags_of s) l x)"
proof -
  obtain l where l: "se_log (snd (observe_signin_state d e expires s)) = se_log s @ l" "acts l = []"
    "fst (flags_of (snd (observe_signin_state d e expires s))) = fst (flags_of s)"
    "fst (snd (flags_of (snd (observe_signin_state d e expires s)))) = fst (snd (flags_of s))"
    "fst (snd (snd (flags_of (snd (observe_signin_state d e expires s))))) = fst (snd (snd (flags_of s)))"
    "moved_legally (snd (snd (snd (flags_of s)))) (snd (snd (snd (flags_of (snd (observe_signin_state d e expires s))))))"
    "\<forall>x. fst (observe_signin_state d e expires s) = Inr x \<longrightarrow> observation_ok (flags_of s) l x"
    using wp_run [OF observe_spec [of "flags_of s" d e expires]] by blast
  then show ?thesis
    by (intro exI [of _ l] conjI result_cases) (simp_all add: flags_of_def owns_context_def)
qed

end
