(* ===== verification/Planner_Reads.thy ===== *)
theory Planner_Reads
  imports Browser_Effects
begin

text \<open>
  The Planner operations of the worker. \<open>mock_data.py\<close>: the data of mock mode. \<open>apps/planner/live_read.py\<close>:
  plans and tasks derived from the texts a Planner page shows. \<open>apps/planner/adapter.py\<close>: the five read
  operations and their dispatch.

  Reading a page is one script evaluated in it; what it answers, the titles of the links and of the rows, is
  an argument. Titles are texts of code points below 256, where canonical decomposition takes the accent
  off the accented letters and nothing else.

  The results: plans are listed without duplicates, in order and each findable by its identifier; and an
  identifier a task listing hands out is in general not found again.
\<close>

subsection \<open>Mock data\<close>

definition mock_plan :: "string \<Rightarrow> string \<Rightarrow> string \<Rightarrow> string list \<Rightarrow> json_object" where
  "mock_plan pid source title buckets = [(''id'', JStr pid), (''external_id'', JStr pid), (''source_id'', JStr source),
     (''title'', JStr title), (''premium'', JBool True), (''buckets'', JList (map JStr buckets))]"

definition PLANS :: "json_object list" where
  "PLANS = [mock_plan ''plan-alpha'' ''mock:plan:1'' ''Alpha Programme'' [''Backlog'', ''In Progress'', ''Done''],
     mock_plan ''plan-beta'' ''mock:plan:2'' ''Beta Rollout'' [''Todo'', ''Doing'']]"

definition mock_task :: "string \<Rightarrow> string \<Rightarrow> string \<Rightarrow> string \<Rightarrow> string \<Rightarrow> int \<Rightarrow> string list \<Rightarrow> json_object" where
  "mock_task tid pid source title bucket percent deps = [(''id'', JStr tid), (''plan_id'', JStr pid),
     (''external_id'', JStr tid), (''source_id'', JStr source), (''title'', JStr title), (''bucket'', JStr bucket),
     (''percent_complete'', JInt percent), (''dependencies'', JList (map JStr deps))]"

definition TASKS :: "json_object list" where
  "TASKS = [
     mock_task ''task-1'' ''plan-alpha'' ''mock:task:1'' ''Define UIContract attestation procedure'' ''In Progress'' 50 [],
     mock_task ''task-2'' ''plan-alpha'' ''mock:task:2'' ''Draft threat model'' ''Backlog'' 0 [''task-1''],
     mock_task ''task-3'' ''plan-beta'' ''mock:task:3'' ''Pilot tenant readiness'' ''Doing'' 20 []]"

definition ACCOUNT_CONTEXT :: json_object where
  "ACCOUNT_CONTEXT = [(''tenant_display'', JStr ''mock-tenant''), (''account_kind'', JStr ''work_or_school''),
     (''user_identifier'', JStr ''[REDACTED]''), (''profile'', JStr ''professional-isolated''),
     (''device_enrolment'', JStr ''none'')]"

definition LICENSE :: json_object where
  "LICENSE = [(''premium_detected'', JBool True), (''evidence'', JStr ''mock-ui-license-banner''),
     (''graph_api_used'', JBool False)]"

definition mock_find :: "string \<Rightarrow> string \<Rightarrow> json_object list \<Rightarrow> json_object option" where
  "mock_find key v rows = find (\<lambda>r. map_of r key = Some (JStr v)) rows"

definition mock_plan_of :: "string \<Rightarrow> json_object option" where
  "mock_plan_of plan_id = mock_find ''id'' plan_id PLANS"

definition mock_tasks_for :: "string \<Rightarrow> json_object list" where
  "mock_tasks_for plan_id = filter (\<lambda>r. map_of r ''plan_id'' = Some (JStr plan_id)) TASKS"

definition mock_task_of :: "string \<Rightarrow> json_object option" where
  "mock_task_of task_id = mock_find ''id'' task_id TASKS"

subsection \<open>Reading a page\<close>

record board =
  bo_anchor_titles :: "string list"
  bo_row_titles :: "string list"

text \<open>\<open>unicodedata.normalize("NFD")\<close> without the combining marks, below code point 256.\<close>

definition base_letter :: "char \<Rightarrow> char" where
  "base_letter c = (let n = of_char c :: nat in
     if 192 \<le> n \<and> n \<le> 197 then CHR ''A'' else if n = 199 then CHR ''C''
     else if 200 \<le> n \<and> n \<le> 203 then CHR ''E'' else if 204 \<le> n \<and> n \<le> 207 then CHR ''I''
     else if n = 209 then CHR ''N'' else if 210 \<le> n \<and> n \<le> 214 then CHR ''O''
     else if 217 \<le> n \<and> n \<le> 220 then CHR ''U'' else if n = 221 then CHR ''Y''
     else if 224 \<le> n \<and> n \<le> 229 then CHR ''a'' else if n = 231 then CHR ''c''
     else if 232 \<le> n \<and> n \<le> 235 then CHR ''e'' else if 236 \<le> n \<and> n \<le> 239 then CHR ''i''
     else if n = 241 then CHR ''n'' else if 242 \<le> n \<and> n \<le> 246 then CHR ''o''
     else if 249 \<le> n \<and> n \<le> 252 then CHR ''u'' else if n = 253 \<or> n = 255 then CHR ''y'' else c)"

definition slug_char :: "char \<Rightarrow> bool" where
  "slug_char c \<longleftrightarrow> (let n = of_char c :: nat in (97 \<le> n \<and> n \<le> 122) \<or> (48 \<le> n \<and> n \<le> 57))"

text \<open>\<open>re.sub("[^a-z0-9]+", "-", ...)\<close>: the flag says whether the run has its dash already.\<close>

fun dash_runs :: "bool \<Rightarrow> string \<Rightarrow> string" where
  "dash_runs dashed [] = []"
| "dash_runs dashed (c # cs) =
     (if slug_char c then c # dash_runs False cs else (if dashed then [] else ''-'') @ dash_runs True cs)"

definition strip_dashes :: "string \<Rightarrow> string" where
  "strip_dashes s = rev (dropWhile (\<lambda>c. c = CHR ''-'') (rev (dropWhile (\<lambda>c. c = CHR ''-'') s)))"

definition slug :: "string \<Rightarrow> string" where
  "slug v = (let cleaned = strip_dashes (dash_runs False (lower (map base_letter v))) in
     if cleaned = [] then ''untitled'' else cleaned)"

definition CHROME_TITLES :: "string list" where
  "CHROME_TITLES = [''sign in'', ''iniciar sess'' @ [CHR 0xE3] @ ''o'', ''iniciar sessao'', ''new plan'', ''novo plano'',
     ''add'', ''adicionar'', ''more'', ''mais'', ''menu'', ''get planner for android'', ''get planner for ios'',
     ''a simple, visual way to organize teamwork'']"

definition is_plan_like :: "string \<Rightarrow> bool" where
  "is_plan_like title = (let t = strip title in
     if t = [] \<or> 120 < length t then False
     else if lower t \<in> set CHROME_TITLES then False
     else \<not> sublist ''get planner for'' (lower t))"

text \<open>The titles kept, in the order of their first occurrence up to case.\<close>

fun plan_titles :: "string list \<Rightarrow> string list \<Rightarrow> string list" where
  "plan_titles seen [] = []"
| "plan_titles seen (title # titles) = (let t = strip title in
     if t = [] \<or> \<not> is_plan_like t then plan_titles seen titles
     else if lower t \<in> set seen then plan_titles seen titles
     else t # plan_titles (lower t # seen) titles)"

record live_plan =
  pl_id :: string
  pl_title :: string

record live_task =
  tk_id :: string
  tk_title :: string
  tk_plan_id :: string

definition live_plan_dict :: "live_plan \<Rightarrow> json" where
  "live_plan_dict p = JObj [(''id'', JStr (pl_id p)), (''title'', JStr (pl_title p)), (''source'', JStr ''live_ui''),
     (''read_only'', JBool True)]"

definition live_task_dict :: "live_task \<Rightarrow> json" where
  "live_task_dict t = JObj [(''id'', JStr (tk_id t)), (''title'', JStr (tk_title t)), (''plan_id'', JStr (tk_plan_id t)),
     (''source'', JStr ''live_ui''), (''read_only'', JBool True)]"

definition plans_of :: "board \<Rightarrow> live_plan list" where
  "plans_of b = map (\<lambda>t. \<lparr>pl_id = slug t, pl_title = t\<rparr>)
     (sort_key lower (plan_titles [] (bo_anchor_titles b @ bo_row_titles b)))"

definition plan_matches :: "string \<Rightarrow> live_plan \<Rightarrow> bool" where
  "plan_matches pid p \<longleftrightarrow> pl_id p = pid \<or> sublist pid (lower (pl_title p)) \<or> sublist pid (pl_id p)"

definition plan_of :: "board \<Rightarrow> string \<Rightarrow> live_plan option" where
  "plan_of b plan_id = find (plan_matches (lower (strip plan_id))) (plans_of b)"

fun number_tasks :: "string \<Rightarrow> nat \<Rightarrow> string list \<Rightarrow> live_task list" where
  "number_tasks plan_slug n [] = []"
| "number_tasks plan_slug n (t # ts) =
     \<lparr>tk_id = plan_slug @ ''::'' @ decimal (n + 1), tk_title = t, tk_plan_id = plan_slug\<rparr> # number_tasks plan_slug (n + 1) ts"

definition plan_slug_of :: "string option \<Rightarrow> string" where
  "plan_slug_of plan_id = (case plan_id of None \<Rightarrow> ''plan'' | Some p \<Rightarrow> if p = [] then ''plan'' else slug p)"

definition tasks_of :: "board \<Rightarrow> string option \<Rightarrow> live_task list" where
  "tasks_of b plan_id = number_tasks (plan_slug_of plan_id) 0 (filter (\<lambda>t. t \<noteq> [] \<and> length t \<le> 200) (bo_row_titles b))"

definition task_matches :: "string \<Rightarrow> live_task \<Rightarrow> bool" where
  "task_matches tid t \<longleftrightarrow> tk_id t = tid \<or> sublist tid (tk_id t) \<or> sublist tid (lower (tk_title t))"

subsection \<open>Extraction\<close>

text \<open>Every function reads the page itself; \<open>read_page\<close> is that reading.\<close>

definition extract_plans :: "('w, board) io \<Rightarrow> ('w, live_plan list) io" where
  "extract_plans read_page = io_bind read_page (\<lambda>b. io_return (plans_of b))"

definition extract_plan :: "('w, board) io \<Rightarrow> string \<Rightarrow> ('w, live_plan option) io" where
  "extract_plan read_page plan_id = io_bind (extract_plans read_page) (\<lambda>plans.
     io_return (find (plan_matches (lower (strip plan_id))) plans))"

definition extract_tasks :: "('w, board) io \<Rightarrow> string option \<Rightarrow> ('w, live_task list) io" where
  "extract_tasks read_page plan_id = io_bind read_page (\<lambda>b. io_return (tasks_of b plan_id))"

definition extract_task :: "('w, board) io \<Rightarrow> string \<Rightarrow> ('w, live_task option) io" where
  "extract_task read_page task_id = (let tid = lower (strip task_id) in
     io_bind (extract_tasks read_page None) (\<lambda>tasks.
     case find (task_matches tid) tasks of
       Some t \<Rightarrow> io_return (Some t)
     | None \<Rightarrow> io_bind (extract_tasks read_page None) (\<lambda>again. io_return (find (task_matches tid) again))))"

definition extract_snapshot :: "('w, board) io \<Rightarrow> string \<Rightarrow> ('w, json_object) io" where
  "extract_snapshot read_page plan_id = io_bind (extract_plans read_page) (\<lambda>plans.
     io_bind (if plan_id \<noteq> [] then extract_plan read_page plan_id
              else io_return (case plans of [] \<Rightarrow> None | p # ps \<Rightarrow> Some p)) (\<lambda>plan.
     io_bind (extract_tasks read_page (Some (case plan of Some p \<Rightarrow> pl_id p
         | None \<Rightarrow> (if plan_id = [] then ''plan'' else plan_id)))) (\<lambda>tasks.
     io_return [(''plan'', case plan of None \<Rightarrow> JNull | Some p \<Rightarrow> live_plan_dict p),
       (''tasks'', JList (map live_task_dict tasks)),
       (''counts'', JObj [(''plans'', JInt (int (length plans))), (''tasks'', JInt (int (length tasks)))]),
       (''read_only'', JBool True), (''source'', JStr ''live_ui'')])))"

subsection \<open>The adapter\<close>

text \<open>What the adapter is built with: the mode, the guard of the broker, the reader of the live page (which
  the worker always gives) and the script's reading of a page.\<close>

record 'w adapter =
  ad_is_mock :: bool
  ad_capability_guard :: "string \<Rightarrow> ('w, unit) io"
  ad_live_reader :: "('w, page option) io option"
  ad_read_page :: "page \<Rightarrow> ('w, board) io"

definition PLANNER_OPERATIONS :: "WorkerOperation list" where
  "PLANNER_OPERATIONS = [OP_PLAN_LIST, OP_PLAN_GET, OP_TASK_LIST, OP_TASK_GET, OP_PROJECT_SNAPSHOT]"

definition adapter_owns :: "WorkerOperation \<Rightarrow> bool" where
  "adapter_owns op1 \<longleftrightarrow> op1 \<in> set PLANNER_OPERATIONS"

definition http_error :: "int \<Rightarrow> string \<Rightarrow> wexn" where
  "http_error status code = Http status (JObj [(''error'', JStr code)])"

definition live_page :: "'w adapter \<Rightarrow> ('w, page) io" where
  "live_page a = (case ad_live_reader a of
     None \<Rightarrow> io_raise (http_error 503 ''LIVE_READ_PATH_UNAVAILABLE'')
   | Some reader \<Rightarrow> io_bind reader (\<lambda>p. case p of
       None \<Rightarrow> io_raise (http_error 503 ''NO_LIVE_PLANNER_PAGE'') | Some q \<Rightarrow> io_return q))"

text \<open>The common course of a live operation: the guard, the page, then the reading.\<close>

definition live_operation :: "'w adapter \<Rightarrow> string \<Rightarrow> (('w, board) io \<Rightarrow> ('w, 'a) io) \<Rightarrow> ('w, 'a) io" where
  "live_operation a capability body = io_bind (ad_capability_guard a capability) (\<lambda>_.
     io_bind (live_page a) (\<lambda>p. body (ad_read_page a p)))"

definition live_fields :: json_object where
  "live_fields = [(''source'', JStr ''live_ui''), (''read_only'', JBool True)]"

definition adapter_plan_list :: "'w adapter \<Rightarrow> ('w, json_object) io" where
  "adapter_plan_list a =
     (if ad_is_mock a then io_return [(''plans'', JList (map JObj PLANS))]
      else live_operation a ''plans.read'' (\<lambda>read_page. io_bind (extract_plans read_page) (\<lambda>plans.
        io_return ((''plans'', JList (map live_plan_dict plans)) # live_fields))))"

definition found_or_404 :: "string \<Rightarrow> string \<Rightarrow> json option \<Rightarrow> json_object \<Rightarrow> ('w, json_object) io" where
  "found_or_404 code key found extra = (case found of
     None \<Rightarrow> io_raise (http_error 404 code) | Some j \<Rightarrow> io_return ((key, j) # extra))"

definition adapter_plan_get :: "'w adapter \<Rightarrow> string \<Rightarrow> ('w, json_object) io" where
  "adapter_plan_get a plan_id =
     (if ad_is_mock a then found_or_404 ''PLAN_NOT_FOUND'' ''plan'' (map_option JObj (mock_plan_of plan_id)) []
      else live_operation a ''plans.read'' (\<lambda>read_page. io_bind (extract_plan read_page plan_id) (\<lambda>plan.
        found_or_404 ''PLAN_NOT_FOUND'' ''plan'' (map_option live_plan_dict plan) live_fields)))"

definition adapter_task_list :: "'w adapter \<Rightarrow> string \<Rightarrow> ('w, json_object) io" where
  "adapter_task_list a plan_id =
     (if ad_is_mock a then io_return [(''plan_id'', JStr plan_id), (''tasks'', JList (map JObj (mock_tasks_for plan_id)))]
      else live_operation a ''tasks.read'' (\<lambda>read_page. io_bind (extract_tasks read_page (Some plan_id)) (\<lambda>tasks.
        io_return ([(''plan_id'', JStr plan_id), (''tasks'', JList (map live_task_dict tasks))] @ live_fields))))"

definition adapter_task_get :: "'w adapter \<Rightarrow> string \<Rightarrow> ('w, json_object) io" where
  "adapter_task_get a task_id =
     (if ad_is_mock a then found_or_404 ''TASK_NOT_FOUND'' ''task'' (map_option JObj (mock_task_of task_id)) []
      else live_operation a ''tasks.read'' (\<lambda>read_page. io_bind (extract_task read_page task_id) (\<lambda>task.
        found_or_404 ''TASK_NOT_FOUND'' ''task'' (map_option live_task_dict task) live_fields)))"

definition adapter_project_snapshot :: "'w adapter \<Rightarrow> string \<Rightarrow> ('w, json_object) io" where
  "adapter_project_snapshot a plan_id =
     (if ad_is_mock a then (let tasks = mock_tasks_for plan_id in
        case mock_plan_of plan_id of
          None \<Rightarrow> io_raise (http_error 404 ''PLAN_NOT_FOUND'')
        | Some plan \<Rightarrow> io_return [(''plan'', JObj plan), (''tasks'', JList (map JObj tasks)),
            (''buckets'', get_or (JList []) ''buckets'' plan),
            (''counts'', JObj [(''tasks'', JInt (int (length tasks)))]), (''read_only'', JBool True)])
      else live_operation a ''project_snapshot.read'' (\<lambda>read_page. extract_snapshot read_page plan_id))"

definition unsupported :: "string \<Rightarrow> wexn" where
  "unsupported detail = Http 422 (JStr detail)"

definition adapter_dispatch :: "'w adapter \<Rightarrow> WorkerRequestEnvelope \<Rightarrow> ('w, json_object) io" where
  "adapter_dispatch a r = (case wr_operation r of
     OP_PLAN_LIST \<Rightarrow> adapter_plan_list a
   | OP_PLAN_GET \<Rightarrow> (case wr_arguments r of PlanArguments p \<Rightarrow> adapter_plan_get a p
       | _ \<Rightarrow> io_raise (unsupported ''plan arguments required''))
   | OP_TASK_LIST \<Rightarrow> (case wr_arguments r of PlanArguments p \<Rightarrow> adapter_task_list a p
       | _ \<Rightarrow> io_raise (unsupported ''plan arguments required''))
   | OP_TASK_GET \<Rightarrow> (case wr_arguments r of TaskArguments t \<Rightarrow> adapter_task_get a t
       | _ \<Rightarrow> io_raise (unsupported ''task arguments required''))
   | OP_PROJECT_SNAPSHOT \<Rightarrow> (case wr_arguments r of PlanArguments p \<Rightarrow> adapter_project_snapshot a p
       | _ \<Rightarrow> io_raise (unsupported ''plan arguments required''))
   | _ \<Rightarrow> io_raise (unsupported ''unsupported Planner worker operation''))"

subsection \<open>Listing and finding\<close>

lemma plan_titles_distinct:
  "distinct (map lower (plan_titles seen ts)) \<and> lower ` set (plan_titles seen ts) \<inter> set seen = {}"
proof (induction ts arbitrary: seen)
  case (Cons t ts)
  from Cons [of seen] Cons [of "lower (strip t) # seen"] show ?case by (auto simp: Let_def)
qed simp

lemma plan_titles_kept:
  "lower ` set (plan_titles seen ts) = lower ` {t \<in> strip ` set ts. is_plan_like t \<and> t \<noteq> []} - set seen"
  by (induction ts arbitrary: seen) (auto simp: Let_def)

lemma plan_titles_like: "t \<in> set (plan_titles seen ts) \<Longrightarrow> is_plan_like t \<and> t \<noteq> [] \<and> t \<in> strip ` set ts"
  by (induction ts arbitrary: seen) (auto simp: Let_def split: if_splits)

lemma slug_char_dash [simp]: "\<not> slug_char (CHR ''-'')"
  by (simp add: slug_char_def)

lemma dash_runs_chars: "c \<in> set (dash_runs b s) \<Longrightarrow> slug_char c \<or> c = CHR ''-''"
  by (induction b s rule: dash_runs.induct) (auto split: if_splits)

lemma slug_chars: "c \<in> set (slug v) \<Longrightarrow> slug_char c \<or> c = CHR ''-''"
proof -
  assume c: "c \<in> set (slug v)"
  have u: "\<forall>c \<in> set ''untitled''. slug_char c" by (simp add: slug_char_def)
  have "set (strip_dashes s) \<subseteq> set s" for s
    by (auto simp: strip_dashes_def dest!: set_dropWhileD)
  with c u show ?thesis using dash_runs_chars
    by (auto simp: slug_def Let_def split: if_splits) blast
qed

lemma slug_lower_strip: "lower (strip (slug v)) = slug v"
proof -
  have "\<not> is_space c \<and> lower_char c = c" if "c \<in> set (slug v)" for c
    using slug_chars [OF that] by (auto simp: slug_char_def is_space_def lower_char_def Let_def)
  then have "\<not> has_space (slug v)" "lower (slug v) = slug v"
    by (auto simp: has_space_def list_ex_iff lower_def intro: map_idI)
  then show ?thesis by (simp add: strip_no_space)
qed

lemma find_None_set: "find P xs = None \<longleftrightarrow> (\<forall>x \<in> set xs. \<not> P x)"
  by (induction xs) auto

text \<open>A live plan listing holds one plan for every plan-like title of the page, up to case, with no two
  titles equal up to case and in the order of the titles up to case; its identifier is the slug of its
  title. Asking for a listed identifier always finds a plan, one whose identifier or title contains it.\<close>

theorem plan_listing_exact:
  "distinct (map (\<lambda>p. lower (pl_title p)) (plans_of b)) \<and>
   sorted (map (\<lambda>p. lower (pl_title p)) (plans_of b)) \<and>
   lower ` pl_title ` set (plans_of b) =
     lower ` {t \<in> strip ` set (bo_anchor_titles b @ bo_row_titles b). is_plan_like t \<and> t \<noteq> []} \<and>
   list_all (\<lambda>p. pl_id p = slug (pl_title p) \<and>
     (case plan_of b (pl_id p) of None \<Rightarrow> False
      | Some q \<Rightarrow> q \<in> set (plans_of b) \<and> plan_matches (pl_id p) q)) (plans_of b)"
proof (intro conjI)
  let ?ts = "plan_titles [] (bo_anchor_titles b @ bo_row_titles b)"
  let ?ps = "plans_of b"
  have titles: "map pl_title ?ps = sort_key lower ?ts" by (simp add: plans_of_def o_def)
  have lowers: "map (\<lambda>p. lower (pl_title p)) ?ps = map lower (sort_key lower ?ts)"
    unfolding titles [symmetric] by simp
  have "distinct (map lower ?ts)" using plan_titles_distinct by blast
  then have "distinct ?ts \<and> inj_on lower (set ?ts)" by (simp add: distinct_map)
  then show "distinct (map (\<lambda>p. lower (pl_title p)) ?ps)" unfolding lowers by (simp add: distinct_map)
  show "sorted (map (\<lambda>p. lower (pl_title p)) ?ps)" unfolding lowers by (rule sorted_sort_key)
  have "pl_title ` set ?ps = set ?ts" using arg_cong [OF titles, of set] by simp
  then show "lower ` pl_title ` set ?ps = lower ` {t \<in> strip ` set (bo_anchor_titles b @ bo_row_titles b). is_plan_like t \<and> t \<noteq> []}"
    using plan_titles_kept [of "[]" "bo_anchor_titles b @ bo_row_titles b"] by simp
  have ids: "pl_id p = slug (pl_title p)" if "p \<in> set ?ps" for p using that by (auto simp: plans_of_def)
  have "case plan_of b (pl_id p) of None \<Rightarrow> False | Some q \<Rightarrow> q \<in> set ?ps \<and> plan_matches (pl_id p) q"
    if p: "p \<in> set ?ps" for p
  proof -
    have i: "lower (strip (pl_id p)) = pl_id p" using ids [OF p] by (simp add: slug_lower_strip)
    have "plan_matches (pl_id p) p" by (simp add: plan_matches_def)
    with p have "find (plan_matches (pl_id p)) ?ps \<noteq> None" unfolding find_None_set by blast
    then show ?thesis using i by (auto simp: plan_of_def find_Some_iff split: option.splits)
  qed
  with ids show "list_all (\<lambda>p. pl_id p = slug (pl_title p) \<and>
     (case plan_of b (pl_id p) of None \<Rightarrow> False | Some q \<Rightarrow> q \<in> set ?ps \<and> plan_matches (pl_id p) q)) ?ps"
    by (auto simp: list_all_iff)
qed

text \<open>An exact identifier is not preferred: with two plans on the page, asking for the identifier of one
  gives the other. And the identifier of a listed task is not found.\<close>

lemma exact_plan_not_preferred:
  "plan_of \<lparr>bo_anchor_titles = [''Roadmap'', ''A roadmap''], bo_row_titles = []\<rparr> ''roadmap'' =
     Some \<lparr>pl_id = ''a-roadmap'', pl_title = ''A roadmap''\<rparr>"
  by code_simp

lemma listed_task_not_found:
  "map tk_id (tasks_of \<lparr>bo_anchor_titles = [], bo_row_titles = [''Draft'']\<rparr> (Some ''Alpha'')) = [''alpha::1''] \<and>
   find (task_matches ''alpha::1'') (tasks_of \<lparr>bo_anchor_titles = [], bo_row_titles = [''Draft'']\<rparr> None) = None"
  by code_simp

end
