(* ===== verification/Worker_App.thy ===== *)
theory Worker_App
  imports Auth_Observation Planner_Reads
begin

text \<open>
  \<open>planner_browser_worker/app.py\<close>: the worker's HTTP application, every route of it, with the observation
  collector (\<open>collect_observation.py\<close>) and the surface probe (\<open>live_attestation_probe.py\<close>) behind two of them.

  A request is its peer, query, body and parsed JSON; FastAPI's routing, its validation of typed bodies and
  the JSON text are not modelled: a route is a value and the typed envelope of \<open>/operations\<close> is given as the
  validated record. The optional providers of \<open>create_app\<close> are the defaults the module's own
  \<open>app = create_app()\<close> uses. An \<open>HTTPException\<close> is the exception \<open>Http\<close>.

  The results: a request from another host never reaches the browser on an operator route, credentials are
  typed over the routes only after a resolution, and a valid typed request never falls through the dispatch.
\<close>

subsection \<open>Collecting an observation\<close>

definition COLLECT_OBSERVATION_EMAIL_KEYS :: "string list" where
  "COLLECT_OBSERVATION_EMAIL_KEYS = [EMAIL_SELECTOR_NAME, NEXT_SELECTOR_NAME]"

definition COLLECT_OBSERVATION_PASSWORD_KEYS :: "string list" where
  "COLLECT_OBSERVATION_PASSWORD_KEYS = [PASSWORD_SELECTOR_NAME, SIGNIN_SELECTOR_NAME]"

text \<open>The probe of the running context: the first page, or a new one, and the primary candidate only.\<close>

definition running_probe :: "'w driver \<Rightarrow> string \<Rightarrow> metadata \<Rightarrow> ('w, int) io" where
  "running_probe d key m = io_bind (io_lift (wrap (locator_plan_from_metadata key m))) (\<lambda>plan. case plan of
     None \<Rightarrow> io_return 0
   | Some pl \<Rightarrow> io_bind (see_pages d) (\<lambda>ps.
       io_bind (case ps of [] \<Rightarrow> new_page d | (p, u) # rest \<Rightarrow> io_return p) (\<lambda>p.
       io_catch (io_bind (count_of d p (build_locator (plan_primary pl))) (\<lambda>n. io_return (int n)))
         (\<lambda>_. io_raise (DiscoveryError ''locator count could not be determined'')))))"

fun collect_steps ::
  "'w driver \<Rightarrow> UIContractFragment \<Rightarrow> AttestationCampaignStep list \<Rightarrow> ('w, SelectorObservation list) io" where
  "collect_steps d f [] = io_return []"
| "collect_steps d f (s # ss) = (case map_of (uf_selectors f) (as_selector_key s) of
     None \<Rightarrow> io_raise (Raised KeyError)
   | Some m \<Rightarrow> io_bind (running_probe d (as_selector_key s) m) (\<lambda>n.
       io_bind (io_lift (wrap (observe_selector (\<lambda>_ _. n) (as_selector_key s, m)))) (\<lambda>x.
       io_bind (collect_steps d f ss) (\<lambda>xs. io_return (x # xs)))))"

definition collect_running_observation ::
  "'w driver \<Rightarrow> UIContractSet result \<Rightarrow> utc \<Rightarrow> string \<Rightarrow> AttestationLevel \<Rightarrow> ('w, AttestationObservation) io" where
  "collect_running_observation d contract now fragment_id level =
     (if fragment_id \<notin> set COMMON_AUTH_FRAGMENT_IDS then io_raise (DiscoveryError ''unsupported observation fragment'')
      else io_bind browser_started (\<lambda>started.
        if \<not> started then io_raise (DiscoveryError ''live observation requires a started live browser'')
        else io_bind (io_lift (wrap contract)) (\<lambda>c.
          io_bind (io_lift (wrap (build_attestation_campaign c level (Some [fragment_id])))) (\<lambda>g.
          case find (\<lambda>f. uf_fragment_id f = fragment_id) (us_fragments c) of
            None \<Rightarrow> io_raise (Raised KeyError)
          | Some f \<Rightarrow> io_bind (collect_steps d f (cg_steps g)) (\<lambda>observations.
              io_lift (wrap (attestation_observation
                \<lparr>ao_campaign_id = campaign_id g, ao_contract_set_digest = cg_contract_set_digest g,
                 ao_fragment_id = uf_fragment_id f, ao_fragment_version = uf_fragment_version f,
                 ao_target_level = level, ao_source = LIVE_UI, ao_observed_at = Aware now 0,
                 ao_selector_observations = observations, ao_locale = None, ao_ui_surface_signal_digest = None,
                 ao_read_probe_ok = None, ao_mutation_applied = None, ao_read_back_ok = None,
                 ao_compensation_proven = None, ao_approval_digest = None\<rparr>)))))))"

subsection \<open>Probing a Planner surface\<close>

definition PLANNER_SURFACE_FRAGMENT_IDS :: "string list" where
  "PLANNER_SURFACE_FRAGMENT_IDS = [''planner.plan-surface'', ''planner.task-surface'']"

text \<open>The injected probe answers a count or raises (\<open>None\<close>). The default one is an \<open>async def\<close>: what calling
  it gives is a coroutine, on which \<open>int\<close> raises, so it never answers.\<close>

type_synonym surface_probe = "string \<Rightarrow> metadata \<Rightarrow> LocatorPlan \<Rightarrow> int option"

definition default_live_probe :: surface_probe where
  "default_live_probe key m plan = None"

definition count_for_selector :: "surface_probe \<Rightarrow> string \<Rightarrow> metadata \<Rightarrow> json_object wresult" where
  "count_for_selector probe key m = (case locator_plan_from_metadata key m of
     Inl e \<Rightarrow> Inl (Raised e)
   | Inr None \<Rightarrow> Inr [(''selector_key'', JStr key), (''result'', JStr ''NO_LOCATOR'')]
   | Inr (Some plan) \<Rightarrow> (case probe key m plan of
       None \<Rightarrow> Inl (LiveProbeError ''locator count could not be determined'')
     | Some n \<Rightarrow>
         (if 1 < n then Inr [(''selector_key'', JStr key), (''result'', JStr ''AMBIGUOUS'')]
          else if n = 1 then (case selector_structural_shape key m 0 1 of
              Inl e \<Rightarrow> Inl (Raised e)
            | Inr shape \<Rightarrow> Inr [(''selector_key'', JStr key), (''result'', JStr ''UNIQUE_MATCH''),
                (''structural_digest'', JStr (sha256_ref shape))])
          else Inr [(''selector_key'', JStr key), (''result'', JStr ''NO_MATCH'')])))"

fun count_selectors :: "surface_probe \<Rightarrow> (string \<times> metadata) list \<Rightarrow> json_object list wresult" where
  "count_selectors probe [] = Inr []"
| "count_selectors probe ((key, m) # rest) = (case count_for_selector probe key m of
     Inl e \<Rightarrow> Inl e
   | Inr r \<Rightarrow> (case count_selectors probe rest of Inl e \<Rightarrow> Inl e | Inr rs \<Rightarrow> Inr (r # rs)))"

definition probe_live_surface_fragment ::
  "'w driver \<Rightarrow> worker_env \<Rightarrow> surface_probe \<Rightarrow> string \<Rightarrow> ('w, json_object) io" where
  "probe_live_surface_fragment d e probe fragment_id =
     (if fragment_id \<notin> set PLANNER_SURFACE_FRAGMENT_IDS
      then io_raise (LiveProbeError ''unsupported observation fragment'')
      else io_bind browser_started (\<lambda>started.
      if \<not> started then io_raise (LiveProbeError ''live probe requires a started live browser'')
      else io_bind (is_dedicated_persistent_profile e) (\<lambda>dedicated.
      if \<not> dedicated then io_raise (LiveProbeError ''live probe requires the dedicated persistent profile'')
      else io_bind (planner_web_surface_present d) (\<lambda>present.
      if \<not> present then io_raise (LiveProbeError ''live probe requires the Planner Web surface'')
      else io_bind (see_pages d) (\<lambda>ps.
      if length ps \<noteq> 1 then io_raise (LiveProbeError ''live probe requires exactly one open page'')
      else io_bind (io_lift (wrap (en_contract e))) (\<lambda>c.
      case find (\<lambda>f. uf_fragment_id f = fragment_id) (us_fragments c) of
        None \<Rightarrow> io_raise (LiveProbeError ''fragment not present in contract set'')
      | Some f \<Rightarrow>
          (if fragment_drifted f then io_raise (LiveProbeError ''fragment is drifted'')
           else io_bind (io_lift (count_selectors probe (uf_selectors f))) (\<lambda>results.
             io_return [(''fragment_id'', JStr (uf_fragment_id f)), (''contract_set_digest'', JStr (contract_digest c)),
               (''surface_present'', JBool True), (''page_count'', JInt (int (length ps))),
               (''selectors'', JList (map JObj results)),
               (''all_unique_match'', JBool (list_all (\<lambda>r. map_of r ''result'' = Some (JStr ''UNIQUE_MATCH'')) results))]))))))))"

fun probe_fragments :: "'w driver \<Rightarrow> worker_env \<Rightarrow> surface_probe \<Rightarrow> string list \<Rightarrow> ('w, json_object list) io" where
  "probe_fragments d e probe [] = io_return []"
| "probe_fragments d e probe (i # ids) =
     io_bind (io_catch (probe_live_surface_fragment d e probe i) (\<lambda>x. case x of
         LiveProbeError reason \<Rightarrow> io_return [(''fragment_id'', JStr i), (''error'', JStr reason)]
       | other \<Rightarrow> io_raise other)) (\<lambda>r.
     io_bind (probe_fragments d e probe ids) (\<lambda>rs. io_return (r # rs)))"

definition probe_all_live_surface_fragments :: "'w driver \<Rightarrow> worker_env \<Rightarrow> ('w, json_object list) io" where
  "probe_all_live_surface_fragments d e = probe_fragments d e default_live_probe PLANNER_SURFACE_FRAGMENT_IDS"

subsection \<open>The application\<close>

record 'w worker_app =
  wa_driver :: "'w driver"
  wa_env :: worker_env
  wa_read_page :: "page \<Rightarrow> ('w, board) io"
  wa_registry :: CapabilityRegistry
  wa_now :: utc
  wa_expires :: string

record http_request =
  rq_peer :: "string option"
  rq_query :: string
  rq_body :: string
  rq_json :: "json option"
  rq_admitted :: bool

text \<open>\<open>rq_admitted\<close> is what the serialised executor of \<open>Worker_Protocol\<close> answers to the call of this request:
  whether it is admitted to the queue.\<close>

definition app_mode :: "worker_env \<Rightarrow> string" where
  "app_mode e = lower (case map_of (en_environ e) ''PLANNER_MODE'' of None \<Rightarrow> ''mock'' | Some m \<Rightarrow> m)"

definition app_is_mock :: "worker_env \<Rightarrow> bool" where
  "app_is_mock e \<longleftrightarrow> app_mode e \<noteq> ''live''"

definition app_version :: string where
  "app_version = ''0.1.0''"

text \<open>\<open>raise HTTPException(status_code=503, detail=exc.to_dict())\<close>, and the \<open>try\<close> around a call that turns
  the errors of the taxonomy into it.\<close>

definition refuse :: "wexn \<Rightarrow> wexn" where
  "refuse x = Http 503 (JObj (error_to_dict x))"

definition reported :: "('w, 'a) io \<Rightarrow> ('w, 'a) io" where
  "reported m = io_catch m (\<lambda>x. if is_mcp_error x then io_raise (refuse x) else io_raise x)"

definition http_detail :: "int \<Rightarrow> string \<Rightarrow> string \<Rightarrow> wexn" where
  "http_detail status code message = Http status (JObj [(''error'', JStr code), (''message'', JStr message)])"

text \<open>\<open>_operator_submit_surface_allowed\<close>.\<close>

definition operator_submit_surface_allowed :: "'w driver \<Rightarrow> ('w, bool) io" where
  "operator_submit_surface_allowed d = io_bind (io_get se_surface_resolved) (\<lambda>resolved.
     if resolved then io_return True
     else io_bind (io_ok (require_single_auth_page d)) (\<lambda>p. case p of
       None \<Rightarrow> io_return False | Some q \<Rightarrow> detect_combined_signin_form d q))"

subsection \<open>Guards\<close>

definition live_guard :: "worker_env \<Rightarrow> string \<Rightarrow> ('w, unit) io" where
  "live_guard e op1 = (if app_is_mock e then io_return () else reported (io_lift (ensure_live_allowed e op1)))"

definition live_auth_state :: "worker_env \<Rightarrow> ('w, AuthState) io" where
  "live_auth_state e = io_bind (io_lift (wrap (common_auth_attested (en_contract e)))) (\<lambda>attested.
     io_return (if attested then AUTHENTICATED else AUTH_UNKNOWN))"

definition app_account_context :: "'w driver \<Rightarrow> worker_env \<Rightarrow> ('w, AccountContext) io" where
  "app_account_context d e = io_bind (is_dedicated_persistent_profile e) (\<lambda>dedicated.
     if \<not> dedicated then io_return unverified_account_context
     else io_bind (planner_web_surface_present d) (\<lambda>present. io_return (live_account_context True present)))"

definition app_live_read_path :: "'w driver \<Rightarrow> worker_env \<Rightarrow> ('w, bool) io" where
  "app_live_read_path d e = io_bind browser_started (\<lambda>started.
     if \<not> started then io_return False
     else io_bind (is_dedicated_persistent_profile e) (\<lambda>dedicated.
       if \<not> dedicated then io_return False else planner_web_surface_present d))"

text \<open>\<open>SessionCapabilityBroker.authorize\<close> with the worker's own providers, which look at the browser each
  time they are asked.\<close>

definition session_authorize :: "'w worker_app \<Rightarrow> string \<Rightarrow> ('w, SessionCapabilityGrant) io" where
  "session_authorize a capability = (let d = wa_driver a; e = wa_env a in
     io_bind browser_started (\<lambda>started.
     if \<not> started then io_raise (WorkerUnavailable ''session broker requires a process-owned browser'' [])
     else io_bind (live_auth_state e) (\<lambda>state.
     if state \<noteq> AUTHENTICATED
     then io_raise (AuthRequired ''session broker requires an authenticated professional session'' [])
     else io_bind (app_account_context d e) (\<lambda>account.
     io_bind (if account_valid account then io_return True
              else io_bind (app_live_read_path d e) (\<lambda>path. io_return (is_read_only_delivery capability \<and> path))) (\<lambda>account_ok.
     if \<not> account_ok then io_raise (PolicyDenied ''professional account context is not verified''
         [(''account_context_state'', JStr (account_state_value (acc_state account))),
          (''professional'', JBool (acc_professional account)),
          (''expected_profile'', JBool (acc_expected_profile account))])
     else case filter (\<lambda>x. sc_capability x = capability) (capabilities_by_application (wa_registry a) ''planner'') of
       [x] \<Rightarrow> io_bind (app_live_read_path d e) (\<lambda>path.
         io_bind (if is_read_only_delivery capability \<and> path then io_return ()
                  else io_lift (ensure_live_allowed e capability)) (\<lambda>_. io_return (grant_of x)))
     | _ \<Rightarrow> io_raise (WorkerUnavailable ''semantic capability is not uniquely registered''
         [(''application'', JStr ''planner''), (''capability'', JStr capability)]))))))"

definition capability_guard :: "'w worker_app \<Rightarrow> string \<Rightarrow> ('w, unit) io" where
  "capability_guard a capability =
     (if app_is_mock (wa_env a) then io_return ()
      else reported (io_bind (session_authorize a capability) (\<lambda>_. io_return ())))"

text \<open>\<open>planner_live_reader\<close>: the first page with a URL while the only page is Planner Web.\<close>

fun first_live_page :: "'w driver \<Rightarrow> (page \<times> string) list \<Rightarrow> ('w, page option) io" where
  "first_live_page d [] = io_return None"
| "first_live_page d ((p, u) # rest) =
     (if u = [] then first_live_page d rest
      else io_bind (planner_web_surface_present d) (\<lambda>present.
        if present then io_return (Some p) else first_live_page d rest))"

definition planner_live_reader :: "'w driver \<Rightarrow> worker_env \<Rightarrow> ('w, page option) io" where
  "planner_live_reader d e = io_bind (app_live_read_path d e) (\<lambda>path.
     if \<not> path then io_return None else io_bind (see_pages d) (first_live_page d))"

definition planner_adapter :: "'w worker_app \<Rightarrow> 'w adapter" where
  "planner_adapter a = \<lparr>ad_is_mock = app_is_mock (wa_env a), ad_capability_guard = capability_guard a,
     ad_live_reader = Some (planner_live_reader (wa_driver a) (wa_env a)), ad_read_page = wa_read_page a\<rparr>"

definition app_bootstrap_guard :: "'w driver \<Rightarrow> worker_env \<Rightarrow> 'w bootstrap_guard" where
  "app_bootstrap_guard d e = \<lparr>bg_browser_started = browser_started,
     bg_dedicated_profile = is_dedicated_persistent_profile e,
     bg_approved_origin = auth_origin_approved d,
     bg_fully_attested = io_bind (io_lift (wrap (load_status (en_contract e)))) (\<lambda>s. io_return (cs_attested s)),
     bg_strict_live_guard = (\<lambda>op1. io_lift (ensure_live_allowed e op1)),
     bg_planner_web_source = planner_web_surface_present d\<rparr>"

definition route_bootstrap_guard :: "'w driver \<Rightarrow> worker_env \<Rightarrow> string \<Rightarrow> ('w, unit) io" where
  "route_bootstrap_guard d e op1 =
     (if app_is_mock e then io_return () else reported (guard_bootstrap (app_bootstrap_guard d e) op1))"

text \<open>The guards of the operator stages: the checks of \<open>operator_checks\<close> with the errors as HTTP errors.\<close>

definition http_checks :: "'w driver \<Rightarrow> worker_env \<Rightarrow> string \<Rightarrow> string \<Rightarrow> ('w, unit) io" where
  "http_checks d e what op1 = io_bind browser_started (\<lambda>started.
     if \<not> started then io_raise (refuse (WorkerUnavailable (what @ '' requires a started live browser'') (operation_context op1)))
     else io_bind (is_dedicated_persistent_profile e) (\<lambda>dedicated.
     if \<not> dedicated then io_raise (refuse (PolicyDenied
         (what @ '' requires the dedicated persistent professional browser profile'') (operation_context op1)))
     else io_bind (auth_origin_approved d) (\<lambda>approved.
       io_unless approved (refuse (PolicyDenied
         (what @ '' requires the page to be on an approved Microsoft authentication origin'') (operation_context op1))))))"

definition stage_guard :: "'w driver \<Rightarrow> worker_env \<Rightarrow> string \<Rightarrow> string \<Rightarrow> ('w, unit) io" where
  "stage_guard d e what op1 = (if app_is_mock e then io_return () else http_checks d e what op1)"

definition begin_signin_guard :: "'w driver \<Rightarrow> worker_env \<Rightarrow> ('w, unit) io" where
  "begin_signin_guard d e =
     (if app_is_mock e then io_return ()
      else io_bind browser_started (\<lambda>started.
      if \<not> started then io_raise (refuse (WorkerUnavailable ''begin sign-in requires a started live browser'' BEGIN_SIGNIN))
      else io_bind (is_dedicated_persistent_profile e) (\<lambda>dedicated.
      if \<not> dedicated then io_raise (refuse (PolicyDenied
          ''begin sign-in requires the dedicated persistent professional browser profile'' BEGIN_SIGNIN))
      else io_bind (begin_signin_source_permitted d) (\<lambda>permitted.
      if \<not> permitted then io_raise (refuse (PolicyDenied SOURCE_MESSAGE BEGIN_SIGNIN))
      else io_bind (io_lift (wrap evaluate_microsoft_auth_target)) (\<lambda>target.
        io_unless (ed_allowed target) (refuse (PolicyDenied
          ''begin sign-in Microsoft auth target denied by closed egress policy''
          (BEGIN_SIGNIN @ [(''reason'', JStr (ed_reason target))]))))))))"

definition discovery_guard :: "'w driver \<Rightarrow> worker_env \<Rightarrow> string \<Rightarrow> ('w, page) io" where
  "discovery_guard d e op1 = io_bind (http_checks d e ''bootstrap discovery'' op1) (\<lambda>_.
     reported (require_single_auth_page d))"

text \<open>The admission of an operator route: the peer is the socket's, the query is empty and, where the route
  takes none, the body is empty.\<close>

definition admit :: "bool \<Rightarrow> http_request \<Rightarrow> ('w, unit) io" where
  "admit bodyless r =
     (if \<not> is_loopback_peer (rq_peer r) then io_raise (http_detail 404 ''NOT_FOUND'' ''Resource not available'')
      else if rq_query r \<noteq> [] then io_raise (http_detail 400 ''INVALID_REQUEST'' ''No parameters are accepted'')
      else if bodyless \<and> rq_body r \<noteq> [] then io_raise (http_detail 400 ''INVALID_REQUEST'' ''No request body is accepted'')
      else io_return ())"

text \<open>The closed JSON body of a route: \<open>str(exc)\<close> of the validation error is the message.\<close>

definition error_text :: "exn \<Rightarrow> string" where
  "error_text e = (case e of ValueError m xs \<Rightarrow> m | _ \<Rightarrow> [])"

definition closed_body :: "http_request \<Rightarrow> (json \<Rightarrow> 'a result) \<Rightarrow> ('w, 'a) io" where
  "closed_body r validate = (case rq_json r of
     None \<Rightarrow> io_raise (http_detail 400 ''INVALID_REQUEST'' ''Body must be a JSON object'')
   | Some j \<Rightarrow> (case validate j of
       Inr x \<Rightarrow> io_return x
     | Inl e \<Rightarrow> io_raise (if is_value_error e then http_detail 400 ''INVALID_REQUEST'' (error_text e) else Raised e)))"

subsection \<open>Status routes\<close>

definition broker_is_viable :: "'w driver \<Rightarrow> worker_env \<Rightarrow> ('w, bool) io" where
  "broker_is_viable d e = io_bind browser_started (\<lambda>started.
     if \<not> started then io_return False
     else io_bind (live_auth_state e) (\<lambda>state.
       if state \<noteq> AUTHENTICATED then io_return False
       else io_bind (app_account_context d e) (\<lambda>account. io_return (account_valid account))))"

text \<open>No provider says that the profile is usable, and in live mode the default state is unknown.\<close>

definition current_readiness :: "'w worker_app \<Rightarrow> ProtocolNegotiator \<Rightarrow> ('w, WorkerReadiness) io" where
  "current_readiness a n = (let d = wa_driver a; e = wa_env a in
     io_bind (io_lift (wrap (load_status (en_contract e)))) (\<lambda>ui.
     io_bind browser_started (\<lambda>started.
     io_bind (broker_is_viable d e) (\<lambda>viable.
     io_return (evaluate_worker_readiness started False (if app_is_mock e then AUTHENTICATED else AUTH_UNKNOWN)
       (cs_attested ui) viable (protocol_compatible n) True)))))"

definition route_livez :: "('w, json_object) io" where
  "route_livez = io_return [(''alive'', JBool True), (''version'', JStr app_version)]"

text \<open>An answer with a status of its own.\<close>

definition route_readyz :: "'w worker_app \<Rightarrow> ProtocolNegotiator \<Rightarrow> ('w, int \<times> json_object) io" where
  "route_readyz a n = io_bind (current_readiness a n) (\<lambda>r.
     io_return (if readiness_ready r then 200 else 503, readiness_to_dict r))"

definition route_health :: "'w worker_app \<Rightarrow> ProtocolNegotiator \<Rightarrow> ('w, json_object) io" where
  "route_health a n = (let e = wa_env a in
     io_bind (io_lift (wrap (load_status (en_contract e)))) (\<lambda>ui.
     io_bind (current_readiness a n) (\<lambda>r.
     io_bind (io_lift (wrap (en_contract e))) (\<lambda>c.
     io_return [(''ok'', JBool True), (''mode'', JStr (app_mode e)), (''version'', JStr app_version),
       (''ui_contract_version'', JStr (cs_version ui)), (''ui_contract_set_digest'', JStr (contract_digest c)),
       (''ui_contract_attested'', JBool (cs_attested ui)), (''live_ready'', JBool (readiness_ready r))]))))"

definition opt_json :: "string option \<Rightarrow> json" where
  "opt_json v = (case v of None \<Rightarrow> JNull | Some s \<Rightarrow> JStr s)"

definition negotiator_snapshot :: "ProtocolNegotiator \<Rightarrow> json_object" where
  "negotiator_snapshot n = [(''compatible'', JBool (protocol_compatible n)),
     (''negotiated_version'', opt_json (ng_negotiated_version n)),
     (''supported_versions'', JList (map JStr (ng_supported_versions n)))]"

definition auth_route :: "'w worker_app \<Rightarrow> string \<Rightarrow> json_object \<Rightarrow> (AuthState \<Rightarrow> json_object) \<Rightarrow> ('w, json_object) io" where
  "auth_route a op1 mock_answer answer = (let d = wa_driver a; e = wa_env a in
     if app_is_mock e then io_return mock_answer
     else io_bind (route_bootstrap_guard d e op1) (\<lambda>_. io_bind (live_auth_state e) (\<lambda>s. io_return (answer s))))"

definition state_field :: "AuthState \<Rightarrow> string \<times> json" where
  "state_field s = (''state'', JStr (auth_state_value s))"

definition mode_field :: "string \<Rightarrow> string \<times> json" where
  "mode_field m = (''mode'', JStr m)"

definition route_auth_status :: "'w worker_app \<Rightarrow> ('w, json_object) io" where
  "route_auth_status a = auth_route a ''auth_status'' [state_field AUTHENTICATED, mode_field ''mock'']
     (\<lambda>s. [state_field s, mode_field ''live''])"

definition route_auth_start :: "'w worker_app \<Rightarrow> ('w, json_object) io" where
  "route_auth_start a = auth_route a ''auth_start''
     [state_field MFA_REQUIRED, (''mfa'', JObj [(''mfa_number'', JStr ''42''), (''operation_id'', JStr ''mock-op-1''),
        (''service'', JStr ''microsoft-entra-id''), (''description'', JStr ''Sign in to Microsoft Planner''),
        (''expires_at'', JStr (wa_expires a)), (''approval_channel'', JStr ''microsoft_authenticator'')])]
     (\<lambda>s. [state_field s])"

definition route_auth_resume :: "'w worker_app \<Rightarrow> ('w, json_object) io" where
  "route_auth_resume a = auth_route a ''auth_resume'' [state_field AUTHENTICATED, mode_field ''mock''] (\<lambda>s. [state_field s])"

text \<open>The snapshot of the broker asks for the state and the account again.\<close>

definition route_auth_session :: "'w worker_app \<Rightarrow> ('w, json_object) io" where
  "route_auth_session a = (let d = wa_driver a; e = wa_env a in
     io_bind (app_account_context d e) (\<lambda>account.
     io_bind (broker_is_viable d e) (\<lambda>viable.
     io_bind browser_started (\<lambda>started.
     io_bind (live_auth_state e) (\<lambda>state.
     io_return [(''profile'', JStr ''professional-isolated''), (''persistent_profile'', JBool True),
       (''secrets_stored_in_state'', JBool False), mode_field (app_mode e),
       (''broker'', JObj [(''viable'', JBool viable), (''browser_started'', JBool started),
          (''auth_state'', JStr (auth_state_value state)), (''account_context'', JObj (account_to_dict account)),
          (''secret_material_exported'', JBool False)])])))))"

definition route_account_context :: "'w worker_app \<Rightarrow> ('w, json_object) io" where
  "route_account_context a =
     (if app_is_mock (wa_env a) then io_return ACCOUNT_CONTEXT
      else io_bind (live_guard (wa_env a) ''account_context'') (\<lambda>_. io_return (account_to_dict unverified_account_context)))"

definition route_account_license :: "'w worker_app \<Rightarrow> ('w, json_object) io" where
  "route_account_license a =
     (if app_is_mock (wa_env a) then io_return LICENSE
      else io_bind (live_guard (wa_env a) ''account_license'') (\<lambda>_.
        io_return [(''premium_detected'', JBool False), (''evidence'', JStr ''unattested'')]))"

subsection \<open>Operator routes\<close>

definition ok_fields :: "json_object \<Rightarrow> json_object" where
  "ok_fields extra = (''ok'', JBool True) # extra"

definition auth_state_field :: "AuthState \<Rightarrow> string \<times> json" where
  "auth_state_field s = (''auth_state'', JStr (auth_state_value s))"

definition surface_field :: "SigninSurfaceKind \<Rightarrow> string \<times> json" where
  "surface_field k = (''surface'', JStr (surface_value k))"

definition route_navigate :: "'w worker_app \<Rightarrow> http_request \<Rightarrow> ('w, json_object) io" where
  "route_navigate a r = (let d = wa_driver a; e = wa_env a; target = (''target_class'', JStr ''planner_web'') in
     io_bind (admit True r) (\<lambda>_.
     io_bind (route_bootstrap_guard d e PLANNER_WEB_BOOTSTRAP_OPERATION) (\<lambda>_.
     if app_is_mock e then io_return (ok_fields [target, auth_state_field AUTH_UNKNOWN])
     else io_bind (reported (navigate_auth_bootstrap d e)) (\<lambda>_.
       io_bind (live_auth_state e) (\<lambda>s. io_return (ok_fields [target, auth_state_field s]))))))"

definition route_begin_signin :: "'w worker_app \<Rightarrow> http_request \<Rightarrow> ('w, json_object) io" where
  "route_begin_signin a r = (let d = wa_driver a; e = wa_env a; target = (''target_class'', JStr ''microsoft_auth'') in
     io_bind (admit True r) (\<lambda>_.
     io_bind (begin_signin_guard d e) (\<lambda>_.
     if app_is_mock e then io_return (ok_fields [target, auth_state_field AUTH_UNKNOWN])
     else io_bind (reported (begin_auth_signin d e)) (\<lambda>_.
       io_bind (live_auth_state e) (\<lambda>s. io_return (ok_fields [target, auth_state_field s]))))))"

definition route_begin_email :: "'w worker_app \<Rightarrow> http_request \<Rightarrow> ('w, json_object) io" where
  "route_begin_email a r = (let d = wa_driver a; e = wa_env a in
     io_bind (admit False r) (\<lambda>_.
     io_bind (closed_body r validate_email_stage_input) (\<lambda>email.
     io_bind (stage_guard d e ''email stage'' ''auth_begin_email_stage'') (\<lambda>_.
     io_bind (if app_is_mock e then io_return () else reported (begin_email_stage d e email)) (\<lambda>_.
     io_return (ok_fields [auth_state_field AUTH_UNKNOWN]))))))"

definition route_resolve_signin :: "'w worker_app \<Rightarrow> http_request \<Rightarrow> ('w, json_object) io" where
  "route_resolve_signin a r = (let d = wa_driver a; e = wa_env a in
     io_bind (admit True r) (\<lambda>_.
     io_bind (stage_guard d e ''sign-in surface resolution'' ''auth_resolve_signin_surface'') (\<lambda>_.
     if app_is_mock e then io_return (ok_fields [auth_state_field AUTH_UNKNOWN, surface_field SURFACE_UNKNOWN])
     else io_bind (reported (resolve_signin_surface d e)) (\<lambda>_.
       io_return (ok_fields [auth_state_field AUTH_UNKNOWN, surface_field SURFACE_EMAIL_ENTRY])))))"

definition route_resolve_kmsi :: "'w worker_app \<Rightarrow> http_request \<Rightarrow> ('w, json_object) io" where
  "route_resolve_kmsi a r = (let d = wa_driver a; e = wa_env a in
     io_bind (admit True r) (\<lambda>_.
     io_bind (stage_guard d e ''sign-in surface resolution'' ''auth_resolve_kmsi_surface'') (\<lambda>_.
     if app_is_mock e then io_return (ok_fields [surface_field SURFACE_UNKNOWN])
     else io_bind (reported (resolve_kmsi_surface d e)) (\<lambda>k. io_return (ok_fields [surface_field k])))))"

definition route_resolve_method :: "'w worker_app \<Rightarrow> http_request \<Rightarrow> ('w, json_object) io" where
  "route_resolve_method a r = (let d = wa_driver a; e = wa_env a in
     io_bind (admit True r) (\<lambda>_.
     io_bind (stage_guard d e ''sign-in surface resolution'' ''auth_resolve_method_selection_surface'') (\<lambda>_.
     if app_is_mock e then io_return (ok_fields [surface_field SURFACE_UNKNOWN])
     else io_bind (reported (resolve_method_surface d e)) (\<lambda>k. io_return (ok_fields [surface_field k])))))"

definition route_diagnose :: "'w worker_app \<Rightarrow> http_request \<Rightarrow> ('w, json_object) io" where
  "route_diagnose a r = (let d = wa_driver a; e = wa_env a;
       answer = (\<lambda>k present. ok_fields [surface_field k, (''email_entry_present'', JBool present)]) in
     io_bind (admit False r) (\<lambda>_.
     io_bind (stage_guard d e ''sign-in surface resolution'' ''auth_diagnose_signin_surface'') (\<lambda>_.
     if app_is_mock e then io_return (answer SURFACE_UNKNOWN False)
     else io_bind (reported (diagnose_signin_surface d e)) (\<lambda>c.
       io_return (answer (sf_kind c) (sf_email_entry_present c))))))"

definition route_operator_submit :: "'w worker_app \<Rightarrow> http_request \<Rightarrow> ('w, json_object) io" where
  "route_operator_submit a r = (let d = wa_driver a; e = wa_env a in
     io_bind (admit False r) (\<lambda>_.
     io_bind (closed_body r validate_signin_input) (\<lambda>signin.
     if app_is_mock e then io_return (ok_fields [auth_state_field AUTH_UNKNOWN])
     else io_bind (io_lift (wrap (common_auth_attested (en_contract e)))) (\<lambda>attested.
       if \<not> attested then io_raise (http_detail 503 ''NOT_ATTESTED''
           ''common.auth UIContract not attested; operator submit refused'')
       else io_bind (operator_submit_surface_allowed d) (\<lambda>allowed.
         if \<not> allowed then io_raise (http_detail 503 ''SIGNIN_SURFACE_NOT_RESOLVED''
             ''pre-email sign-in surface not resolved to EMAIL_ENTRY and combined Entra ID form not structurally present; run resolve-signin-surface first'')
         else io_bind (reported (submit_operator_signin d e signin)) (\<lambda>_.
           io_return (ok_fields [auth_state_field AUTH_UNKNOWN])))))))"

definition observation_dict :: "ObservationResult \<Rightarrow> json_object" where
  "observation_dict x = [state_field (ob_state x), (''mfa_number'', opt_json (ob_mfa_number x)),
     (''mfa_ambiguous'', JBool (ob_mfa_ambiguous x))]"

definition route_observe :: "'w worker_app \<Rightarrow> http_request \<Rightarrow> ('w, json_object) io" where
  "route_observe a r = (let d = wa_driver a; e = wa_env a in
     io_bind (admit False r) (\<lambda>_.
     if app_is_mock e then io_return (observation_dict (observed AUTH_UNKNOWN None False))
     else io_bind (reported (observe_signin_state d e (wa_expires a))) (\<lambda>x. io_return (observation_dict x))))"

fun discover_keys :: "'w driver \<Rightarrow> worker_env \<Rightarrow> page \<Rightarrow> string list \<Rightarrow> ('w, KeyDiscovery list) io" where
  "discover_keys d e p [] = io_return []"
| "discover_keys d e p (k # ks) = io_bind (discover_key d (en_contract e) p k) (\<lambda>x.
     io_bind (discover_keys d e p ks) (\<lambda>xs. io_return (x # xs)))"

text \<open>A \<open>DiscoveryError\<close> (or \<open>LiveProbeError\<close>) becomes an HTTP error with its reason; others pass.\<close>

definition discovery_failed :: "string \<Rightarrow> ('w, 'a) io \<Rightarrow> ('w, 'a) io" where
  "discovery_failed code m = io_catch m (\<lambda>x. case x of
     DiscoveryError reason \<Rightarrow> io_raise (http_detail 503 code reason) | other \<Rightarrow> io_raise other)"

definition probe_failed :: "('w, 'a) io \<Rightarrow> ('w, 'a) io" where
  "probe_failed m = io_catch m (\<lambda>x. case x of
     LiveProbeError reason \<Rightarrow> io_raise (http_detail 503 ''PROBE_FAILED'' reason) | other \<Rightarrow> io_raise other)"

definition string_list :: "string list \<Rightarrow> json" where
  "string_list xs = JList (map JStr xs)"

definition route_discover :: "'w worker_app \<Rightarrow> string \<Rightarrow> string list \<Rightarrow> http_request \<Rightarrow> ('w, json_object) io" where
  "route_discover a op1 keys r = (let d = wa_driver a; e = wa_env a in
     io_bind (admit False r) (\<lambda>_.
     if app_is_mock e then io_return (ok_fields [mode_field ''mock'', (''scope'', string_list keys)])
     else io_bind (discovery_guard d e op1) (\<lambda>p.
       io_bind (discovery_failed ''DISCOVERY_FAILED'' (discover_keys d e p keys)) (\<lambda>found.
       io_return (ok_fields [(''keys'', JList (map (JObj \<circ> key_discovery_dict) found))])))))"

definition route_discover_email :: "'w worker_app \<Rightarrow> http_request \<Rightarrow> ('w, json_object) io" where
  "route_discover_email a r = route_discover a ''auth_bootstrap_discover_email'' EMAIL_DISCOVERY_KEYS r"

definition route_discover_password :: "'w worker_app \<Rightarrow> http_request \<Rightarrow> ('w, json_object) io" where
  "route_discover_password a r = route_discover a ''auth_bootstrap_discover_password'' PASSWORD_DISCOVERY_KEYS r"

fun collect_fragments :: "'w worker_app \<Rightarrow> string list \<Rightarrow> ('w, json list) io" where
  "collect_fragments a [] = io_return []"
| "collect_fragments a (i # ids) =
     io_bind (collect_running_observation (wa_driver a) (en_contract (wa_env a)) (wa_now a) i DISCOVERY_LEVEL) (\<lambda>x.
     io_bind (collect_fragments a ids) (\<lambda>xs. io_return (observation_payload x # xs)))"

definition route_collect_observation :: "'w worker_app \<Rightarrow> http_request \<Rightarrow> ('w, json_object) io" where
  "route_collect_observation a r =
     io_bind (admit False r) (\<lambda>_.
     if app_is_mock (wa_env a) then io_return (ok_fields [mode_field ''mock'',
         (''fragment_ids'', string_list COMMON_AUTH_FRAGMENT_IDS), (''target_level'', JStr ''DISCOVERY''),
         (''source'', JStr ''LIVE_UI''),
         (''scope'', JObj [(''common.auth.email'', string_list COLLECT_OBSERVATION_EMAIL_KEYS),
            (''common.auth.password'', string_list COLLECT_OBSERVATION_PASSWORD_KEYS)])])
     else io_bind (discovery_failed ''OBSERVATION_FAILED'' (collect_fragments a COMMON_AUTH_FRAGMENT_IDS)) (\<lambda>xs.
       io_return (ok_fields [(''observations'', JList xs)])))"

text \<open>\<open>started and dedicated and surface and authenticated and account valid\<close>, evaluated from the left.\<close>

fun io_all :: "('w, bool) io list \<Rightarrow> ('w, bool) io" where
  "io_all [] = io_return True"
| "io_all (m # ms) = io_bind m (\<lambda>b. if b then io_all ms else io_return False)"

definition probe_allowed :: "'w driver \<Rightarrow> worker_env \<Rightarrow> ('w, bool) io" where
  "probe_allowed d e = io_all [browser_started, is_dedicated_persistent_profile e, planner_web_surface_present d,
     io_bind (live_auth_state e) (\<lambda>s. io_return (s = AUTHENTICATED)),
     io_bind (app_account_context d e) (\<lambda>account. io_return (account_valid account))]"

definition route_probe :: "'w worker_app \<Rightarrow> http_request \<Rightarrow> ('w, json_object) io" where
  "route_probe a r = (let d = wa_driver a; e = wa_env a in
     io_bind (admit False r) (\<lambda>_.
     if app_is_mock e then io_return (ok_fields [mode_field ''mock'', (''fragment_ids'', string_list PLANNER_SURFACE_FRAGMENT_IDS)])
     else io_bind (probe_allowed d e) (\<lambda>allowed.
       if \<not> allowed then io_raise (http_detail 503 ''PROBE_NOT_ALLOWED''
           ''live planner-surface probe requires an authenticated, verified session on the Planner Web surface'')
       else io_bind (probe_failed (probe_all_live_surface_fragments d e)) (\<lambda>fragments.
         io_return (ok_fields [(''operation'', JStr ''auth_bootstrap_probe_planner_surface''),
           (''fragments'', JList (map JObj fragments))])))))"

subsection \<open>Typed operations\<close>

definition dispatch_semantic_operation :: "'w worker_app \<Rightarrow> WorkerRequestEnvelope \<Rightarrow> ('w, json_object) io" where
  "dispatch_semantic_operation a r = (let op1 = wr_operation r in
     if op1 = OP_AUTH_STATUS then route_auth_status a
     else if op1 = OP_AUTH_START then route_auth_start a
     else if op1 = OP_AUTH_RESUME then route_auth_resume a
     else if op1 = OP_AUTH_SESSION then route_auth_session a
     else if op1 = OP_ACCOUNT_CONTEXT then route_account_context a
     else if op1 = OP_ACCOUNT_LICENSE then route_account_license a
     else if adapter_owns op1 then adapter_dispatch (planner_adapter a) r
     else io_raise (unsupported ''unsupported worker operation''))"

datatype operation_answer =
    Result_answer string WorkerOperation json_object
  | Error_answer nat WorkerErrorEnvelope

fun is_reported_error :: "wexn \<Rightarrow> bool" where
  "is_reported_error (Http status detail) = True"
| "is_reported_error e = is_mcp_error e"

text \<open>The executor runs the dispatch only when it admits the call; its refusal is \<open>WorkerBusy\<close> with the
  capacity of the default executor.\<close>

definition execute_operation ::
  "'w worker_app \<Rightarrow> ProtocolNegotiator \<Rightarrow> bool \<Rightarrow> WorkerRequestEnvelope \<Rightarrow> ('w, operation_answer) io" where
  "execute_operation a n admitted r =
     io_catch
       (io_bind (io_unless (protocol_compatible n) (ProtocolIncompatible ''typed worker protocol is not negotiated'' [])) (\<lambda>_.
        io_bind (io_unless admitted (WorkerBusy ''browser profile executor queue is full''
          [(''operation'', JStr (worker_operation_value (wr_operation r))), (''max_queue'', JInt 8)])) (\<lambda>_.
        io_bind (dispatch_semantic_operation a r) (\<lambda>result.
          io_return (Result_answer (wr_request_id r) (wr_operation r) result)))))
       (\<lambda>x. if is_reported_error x
         then (case project_worker_error x (wr_request_id r) (wr_operation r) of (status, envelope) \<Rightarrow>
           io_return (Error_answer status envelope))
         else io_raise x)"

subsection \<open>Serving\<close>

datatype route =
    LIVEZ | READYZ | HEALTH | PROTOCOL_STATUS
  | AUTH_STATUS | AUTH_START | AUTH_RESUME | AUTH_SESSION | GET_ACCOUNT_CONTEXT | GET_ACCOUNT_LICENSE
  | NAVIGATE | BEGIN_AUTH_SIGNIN | BEGIN_EMAIL | RESOLVE_SIGNIN | RESOLVE_KMSI | RESOLVE_METHOD | DIAGNOSE_SURFACE
  | OPERATOR_SUBMIT | OBSERVE | DISCOVER_EMAIL | DISCOVER_PASSWORD | COLLECT_OBSERVATION | PROBE_PLANNER_SURFACE
  | GET_PLANS | GET_PLAN string | GET_TASKS string | GET_TASK string | GET_SNAPSHOT string
  | OPERATIONS WorkerRequestEnvelope

datatype http_answer = Json_answer int json_object | Operation_answer operation_answer

definition ok_answer :: "('w, json_object) io \<Rightarrow> ('w, http_answer) io" where
  "ok_answer m = io_bind m (\<lambda>x. io_return (Json_answer 200 x))"

fun handle :: "'w worker_app \<Rightarrow> ProtocolNegotiator \<Rightarrow> http_request \<Rightarrow> route \<Rightarrow> ('w, http_answer) io" where
  "handle a n r LIVEZ = ok_answer route_livez"
| "handle a n r READYZ = io_bind (route_readyz a n) (\<lambda>(status, x). io_return (Json_answer status x))"
| "handle a n r HEALTH = ok_answer (route_health a n)"
| "handle a n r PROTOCOL_STATUS = ok_answer (io_return (negotiator_snapshot n))"
| "handle a n r AUTH_STATUS = ok_answer (route_auth_status a)"
| "handle a n r AUTH_START = ok_answer (route_auth_start a)"
| "handle a n r AUTH_RESUME = ok_answer (route_auth_resume a)"
| "handle a n r AUTH_SESSION = ok_answer (route_auth_session a)"
| "handle a n r GET_ACCOUNT_CONTEXT = ok_answer (route_account_context a)"
| "handle a n r GET_ACCOUNT_LICENSE = ok_answer (route_account_license a)"
| "handle a n r NAVIGATE = ok_answer (route_navigate a r)"
| "handle a n r BEGIN_AUTH_SIGNIN = ok_answer (route_begin_signin a r)"
| "handle a n r BEGIN_EMAIL = ok_answer (route_begin_email a r)"
| "handle a n r RESOLVE_SIGNIN = ok_answer (route_resolve_signin a r)"
| "handle a n r RESOLVE_KMSI = ok_answer (route_resolve_kmsi a r)"
| "handle a n r RESOLVE_METHOD = ok_answer (route_resolve_method a r)"
| "handle a n r DIAGNOSE_SURFACE = ok_answer (route_diagnose a r)"
| "handle a n r OPERATOR_SUBMIT = ok_answer (route_operator_submit a r)"
| "handle a n r OBSERVE = ok_answer (route_observe a r)"
| "handle a n r DISCOVER_EMAIL = ok_answer (route_discover_email a r)"
| "handle a n r DISCOVER_PASSWORD = ok_answer (route_discover_password a r)"
| "handle a n r COLLECT_OBSERVATION = ok_answer (route_collect_observation a r)"
| "handle a n r PROBE_PLANNER_SURFACE = ok_answer (route_probe a r)"
| "handle a n r GET_PLANS = ok_answer (adapter_plan_list (planner_adapter a))"
| "handle a n r (GET_PLAN p) = ok_answer (adapter_plan_get (planner_adapter a) p)"
| "handle a n r (GET_TASKS p) = ok_answer (adapter_task_list (planner_adapter a) p)"
| "handle a n r (GET_TASK t) = ok_answer (adapter_task_get (planner_adapter a) t)"
| "handle a n r (GET_SNAPSHOT p) = ok_answer (adapter_project_snapshot (planner_adapter a) p)"
| "handle a n r (OPERATIONS q) = io_bind (execute_operation a n (rq_admitted r) q) (\<lambda>x. io_return (Operation_answer x))"

text \<open>The state of a worker process: what was negotiated, and the session. A negotiation changes the first
  only, every other route the second only.\<close>

datatype served = Negotiate "string list" | Route route

definition negotiation_dict :: "ProtocolNegotiationResponse \<Rightarrow> json_object" where
  "negotiation_dict x = [(''compatible'', JBool (nr_compatible x)), (''negotiated_version'', opt_json (nr_negotiated_version x)),
     (''worker_supported_versions'', string_list (nr_worker_supported_versions x))]"

definition protocol_negotiate ::
  "ProtocolNegotiator \<Rightarrow> string list \<Rightarrow> http_answer wresult \<times> ProtocolNegotiator" where
  "protocol_negotiate n vs = (case validate_versions vs of
     Inl e \<Rightarrow> (Inl (http_detail 422 ''INVALID_REQUEST'' ''Request validation failed''), n)
   | Inr versions \<Rightarrow> (case negotiate id n versions of
       Inl e \<Rightarrow> (Inl (Raised e), n)
     | Inr (x, n') \<Rightarrow> (Inr (Json_answer 200 (negotiation_dict x)), n')))"

fun serve_request :: "'w worker_app \<Rightarrow> served \<Rightarrow> http_request \<Rightarrow> ProtocolNegotiator \<times> 'w session \<Rightarrow>
    http_answer wresult \<times> (ProtocolNegotiator \<times> 'w session)" where
  "serve_request a (Negotiate vs) r (n, s) = (case protocol_negotiate n vs of (x, n') \<Rightarrow> (x, (n', s)))"
| "serve_request a (Route rt) r (n, s) = (case handle a n r rt s of (x, t) \<Rightarrow> (x, (n, t)))"

subsection \<open>Routes that only look\<close>

lemma looks_new_page [simp]: "looks (new_page d)"
  unfolding looks_def by (intro allI wp_intro) simp_all

lemma looks_ensure [simp]: "looks (reported (io_lift x))"
  unfolding reported_def by (intro looks_intro) simp_all

lemma looks_surface [simp]: "looks (planner_web_surface_present d)"
  unfolding planner_web_surface_present_def by (auto intro!: looks_intro split: list.splits)

lemma looks_source [simp]: "looks (begin_signin_source_permitted d)"
  unfolding begin_signin_source_permitted_def by (auto intro!: looks_intro)

lemma looks_reported [simp]: "looks m \<Longrightarrow> looks (reported m)"
  unfolding reported_def by (intro looks_intro) simp_all

lemma looks_state [simp]: "looks (live_auth_state e)"
  unfolding live_auth_state_def by (auto intro!: looks_intro)

lemma looks_account [simp]: "looks (app_account_context d e)"
  unfolding app_account_context_def by (auto intro!: looks_intro)

lemma looks_path [simp]: "looks (app_live_read_path d e)"
  unfolding app_live_read_path_def by (auto intro!: looks_intro)

lemma looks_broker [simp]: "looks (broker_is_viable d e)"
  unfolding broker_is_viable_def by (auto intro!: looks_intro)

lemma looks_readiness [simp]: "looks (current_readiness a n)"
  unfolding current_readiness_def Let_def by (auto intro!: looks_intro)

lemma looks_authorize [simp]: "looks (session_authorize a c)"
  unfolding session_authorize_def Let_def by (auto intro!: looks_intro split: list.splits)

lemma looks_capability_guard [simp]: "looks (capability_guard a c)"
  unfolding capability_guard_def by (intro looks_intro looks_reported) simp_all

lemma looks_first_page [simp]: "looks (first_live_page d ps)"
  by (induction ps) (auto intro!: looks_intro)

lemma looks_reader [simp]: "looks (planner_live_reader d e)"
  unfolding planner_live_reader_def by (auto intro!: looks_intro)

lemma looks_live_page [simp]: "looks (live_page (planner_adapter a))"
  unfolding live_page_def planner_adapter_def by (auto intro!: looks_intro)

lemma planner_adapter_parts [simp]:
  "ad_capability_guard (planner_adapter a) = capability_guard a" "ad_read_page (planner_adapter a) = wa_read_page a"
  by (simp_all add: planner_adapter_def)

lemma looks_operation:
  "(\<And>p. looks (wa_read_page a p)) \<Longrightarrow> (\<And>m. looks m \<Longrightarrow> looks (body m)) \<Longrightarrow> looks (live_operation (planner_adapter a) c body)"
  unfolding live_operation_def by (auto intro!: looks_intro)

lemma looks_found [simp]: "looks (found_or_404 code key x extra)"
  by (cases x) (simp_all add: found_or_404_def)

lemma looks_adapter:
  assumes "\<And>p. looks (wa_read_page a p)"
  shows "looks (adapter_plan_list (planner_adapter a))" "looks (adapter_plan_get (planner_adapter a) p)"
    "looks (adapter_task_list (planner_adapter a) p)" "looks (adapter_task_get (planner_adapter a) t)"
    "looks (adapter_project_snapshot (planner_adapter a) p)"
  unfolding adapter_plan_list_def adapter_plan_get_def adapter_task_list_def adapter_task_get_def
    adapter_project_snapshot_def Let_def
  by (auto intro!: looks_intro looks_operation assms simp: extract_plans_def extract_plan_def extract_tasks_def
      extract_task_def extract_snapshot_def Let_def)

lemma looks_guard_bootstrap [simp]: "looks (guard_bootstrap (app_bootstrap_guard d e) op1)"
  unfolding guard_bootstrap_def by (auto intro!: looks_intro simp: app_bootstrap_guard_def)

lemma looks_bootstrap_guard [simp]: "looks (route_bootstrap_guard d e op1)"
  unfolding route_bootstrap_guard_def by (intro looks_intro looks_reported) simp_all

lemma looks_http_checks [simp]: "looks (http_checks d e what op1)"
  unfolding http_checks_def by (auto intro!: looks_intro)

lemma looks_stage_guard [simp]: "looks (stage_guard d e what op1)"
  unfolding stage_guard_def by simp

lemma looks_begin_guard [simp]: "looks (begin_signin_guard d e)"
  unfolding begin_signin_guard_def by (auto intro!: looks_intro)

lemma looks_admit [simp]: "looks (admit b r)"
  unfolding admit_def by simp

lemma looks_closed_body [simp]: "looks (closed_body r v)"
  unfolding closed_body_def by (auto split: option.splits sum.splits)

lemma looks_auth_route [simp]: "looks (auth_route a op1 x y)"
  unfolding auth_route_def Let_def by (auto intro!: looks_intro)

lemma looks_status_routes [simp]:
  "looks route_livez" "looks (route_readyz a n)" "looks (route_health a n)" "looks (route_auth_status a)"
  "looks (route_auth_start a)" "looks (route_auth_resume a)" "looks (route_auth_session a)"
  "looks (route_account_context a)" "looks (route_account_license a)"
  unfolding route_livez_def route_readyz_def route_health_def route_auth_status_def route_auth_start_def
    route_auth_resume_def route_auth_session_def route_account_context_def route_account_license_def live_guard_def Let_def
  by (auto intro!: looks_intro)

lemma looks_collect [simp]: "looks (collect_running_observation d c w i level)"
proof -
  have "looks (collect_steps d f ss)" for f ss
    by (induction ss) (auto intro!: looks_intro simp: running_probe_def split: list.splits)
  then show ?thesis unfolding collect_running_observation_def by (auto intro!: looks_intro)
qed

lemma looks_collect_fragments [simp]: "looks (collect_fragments a ids)"
  by (induction ids) (auto intro!: looks_intro)

lemma looks_probe [simp]: "looks (probe_all_live_surface_fragments d e)"
proof -
  have "looks (probe_live_surface_fragment d e probe i)" for probe i
    unfolding probe_live_surface_fragment_def by (auto intro!: looks_intro)
  then have "looks (probe_fragments d e probe ids)" for probe ids
    by (induction ids) (auto intro!: looks_intro split: wexn.splits)
  then show ?thesis by (simp add: probe_all_live_surface_fragments_def)
qed

lemma looks_probe_allowed [simp]: "looks (probe_allowed d e)"
  unfolding probe_allowed_def by (auto intro!: looks_intro)

lemma looks_failures [simp]:
  "looks m \<Longrightarrow> looks (discovery_failed code m)" "looks m \<Longrightarrow> looks (probe_failed m)"
  unfolding discovery_failed_def probe_failed_def by (auto intro!: looks_intro split: wexn.splits)

lemma looks_discover_keys [simp]: "looks (discover_keys d e p ks)"
  by (induction ks) (auto intro!: looks_intro)

lemma looks_discovery_guard [simp]: "looks (discovery_guard d e op1)"
  unfolding discovery_guard_def by (intro looks_intro looks_reported) simp_all

lemma looks_diagnose [simp]: "looks (diagnose_signin_surface d e)"
  unfolding looks_def by (auto intro!: wp_conseq [OF diagnose_spec])

lemma looks_operator_reads [simp]:
  "looks (route_diagnose a r)" "looks (route_discover a op1 ks r)"
  "looks (route_collect_observation a r)" "looks (route_probe a r)"
  unfolding route_diagnose_def route_discover_def route_collect_observation_def route_probe_def Let_def
  by (auto intro!: looks_intro)

lemma looks_adapter_dispatch:
  assumes "\<And>p. looks (wa_read_page a p)"
  shows "looks (adapter_dispatch (planner_adapter a) q)"
  by (cases "wr_operation q"; cases "wr_arguments q") (simp_all add: adapter_dispatch_def looks_adapter [OF assms])

lemma looks_dispatch:
  assumes "\<And>p. looks (wa_read_page a p)"
  shows "looks (dispatch_semantic_operation a q)"
  unfolding dispatch_semantic_operation_def Let_def
  by (intro looks_if looks_adapter_dispatch assms) simp_all

lemma looks_execute:
  assumes "\<And>p. looks (wa_read_page a p)"
  shows "looks (execute_operation a n admitted q)"
  unfolding execute_operation_def
  by (intro looks_intro looks_dispatch assms) (auto split: prod.splits)

subsection \<open>Routes that act\<close>

text \<open>The routes that may act on the page, and the condition they share.\<close>

definition acting_routes :: "route set" where
  "acting_routes = {NAVIGATE, BEGIN_AUTH_SIGNIN, BEGIN_EMAIL, RESOLVE_SIGNIN, RESOLVE_KMSI, RESOLVE_METHOD, OPERATOR_SUBMIT}"

definition from_operator :: "'w worker_app \<Rightarrow> http_request \<Rightarrow> bool" where
  "from_operator a r \<longleftrightarrow> is_loopback_peer (rq_peer r) \<and> rq_query r = [] \<and> \<not> app_is_mock (wa_env a)"

text \<open>Whether the history allows the latch after a route: in live mode a successful resolution must have seen
  the email entry, and a successful begin clears it.\<close>

fun route_latch :: "bool \<Rightarrow> bool \<Rightarrow> route \<times> bool \<times> interaction list \<Rightarrow> bool" where
  "route_latch mock b (RESOLVE_SIGNIN, ok, l) = (if ok \<and> \<not> mock then email_entry_seen l else b)"
| "route_latch mock b (BEGIN_AUTH_SIGNIN, ok, l) = (b \<and> (mock \<or> \<not> ok))"
| "route_latch mock b (rt, ok, l) = b"

definition route_ok :: "'w worker_app \<Rightarrow> http_request \<Rightarrow> route \<Rightarrow> bool \<Rightarrow> interaction list \<Rightarrow> flags \<Rightarrow> flags \<Rightarrow> bool" where
  "route_ok a r rt ok l f f' \<longleftrightarrow>
     fst f' = fst f \<and> fst (snd f') = fst (snd f) \<and>
     (acts l = [] \<or> rt \<in> acting_routes \<and> from_operator a r \<and> owned f) \<and>
     (filled l \<longrightarrow> rt = BEGIN_EMAIL \<or> rt = OPERATOR_SUBMIT \<and> latch f \<and> common_auth_attested (en_contract (wa_env a)) = Inr True) \<and>
     (latch f' = latch f \<or> rt \<in> {RESOLVE_SIGNIN, BEGIN_AUTH_SIGNIN} \<and> from_operator a r) \<and>
     (latch f' \<longrightarrow> route_latch (app_is_mock (wa_env a)) (latch f) (rt, ok, l))"

lemma wp_reported [wp_intro]:
  assumes "wp f m (\<lambda>r l f'. case r of Inr x \<Rightarrow> Q (Inr x) l f' | Inl e \<Rightarrow> Q (Inl (refuse e)) l f' \<and> Q (Inl e) l f')"
  shows "wp f (reported m) Q"
  unfolding reported_def
  by (rule wp_catch, rule wp_conseq [OF assms]) (auto intro!: wp_intro split: sum.splits)

lemma admit_spec [wp_intro]:
  "(\<And>e. Q (Inl e) [] f) \<Longrightarrow> (is_loopback_peer (rq_peer r) \<Longrightarrow> rq_query r = [] \<Longrightarrow> Q (Inr ()) [] f) \<Longrightarrow> wp f (admit b r) Q"
  unfolding admit_def by (auto intro!: wp_intro)

lemma closed_body_spec [wp_intro]:
  "(\<And>e. Q (Inl e) [] f) \<Longrightarrow> (\<And>x. Q (Inr x) [] f) \<Longrightarrow> wp f (closed_body r v) Q"
  unfolding closed_body_def by (auto intro!: wp_intro split: option.splits sum.splits)

lemma live_auth_state_spec [wp_intro]:
  "(\<And>x. Q x [] f) \<Longrightarrow> wp f (live_auth_state e) Q"
  unfolding live_auth_state_def by (auto intro!: wp_intro split: sum.splits)

lemma stage_guard_wp: "(\<And>x l. acts l = [] \<Longrightarrow> Q x l f) \<Longrightarrow> wp f (stage_guard d e what op1) Q"
  by (rule looks_wp) simp

lemma begin_guard_wp: "(\<And>x l. acts l = [] \<Longrightarrow> Q x l f) \<Longrightarrow> wp f (begin_signin_guard d e) Q"
  by (rule looks_wp) simp

lemma bootstrap_guard_wp: "(\<And>x l. acts l = [] \<Longrightarrow> Q x l f) \<Longrightarrow> wp f (route_bootstrap_guard d e op1) Q"
  by (rule looks_wp) simp

lemma submit_allowed_wp: "(\<And>x l. acts l = [] \<Longrightarrow> Q x l f) \<Longrightarrow> wp f (operator_submit_surface_allowed d) Q"
proof (rule looks_wp)
  have "looks (detect_combined_signin_form d p)" for p
    unfolding looks_def by (intro allI combined_spec) simp
  then show "looks (operator_submit_surface_allowed d)"
    unfolding operator_submit_surface_allowed_def looks_def
    by (auto intro!: wp_intro single_page_spec looks_wp [of "detect_combined_signin_form d p" for p] split: sum.splits)
qed

lemmas guards_wp = stage_guard_wp begin_guard_wp bootstrap_guard_wp submit_allowed_wp

lemma looking_ok: "acts l = [] \<Longrightarrow> rt \<notin> {RESOLVE_SIGNIN, BEGIN_AUTH_SIGNIN} \<Longrightarrow> route_ok a r rt ok l f f"
  by (cases rt) (auto simp: route_ok_def not_filled)

lemma email_entry_seen_append: "email_entry_seen (l @ m) \<longleftrightarrow> email_entry_seen l \<or> email_entry_seen m"
  by (auto simp: email_entry_seen_def)

lemma navigate_route:
  "wp f (route_navigate a r) (\<lambda>x l f'. route_ok a r NAVIGATE (\<not> isl x) l f f')"
  unfolding route_navigate_def Let_def
  by (auto intro!: wp_intro result_cases guards_wp wp_conseq [OF navigate_spec]
      simp: route_ok_def acting_routes_def from_operator_def filled_iff)

lemma begin_route:
  "wp f (route_begin_signin a r) (\<lambda>x l f'. route_ok a r BEGIN_AUTH_SIGNIN (\<not> isl x) l f f')"
  unfolding route_begin_signin_def Let_def
  by (auto intro!: wp_intro result_cases guards_wp wp_conseq [OF begin_spec]
      simp: route_ok_def acting_routes_def from_operator_def not_filled unresolved_def)

lemma email_route:
  "wp f (route_begin_email a r) (\<lambda>x l f'. route_ok a r BEGIN_EMAIL (\<not> isl x) l f f')"
  unfolding route_begin_email_def Let_def
  by (auto intro!: wp_intro result_cases guards_wp wp_conseq [OF email_stage_spec]
      simp: route_ok_def acting_routes_def from_operator_def)

lemma resolve_signin_route:
  "wp f (route_resolve_signin a r) (\<lambda>x l f'. route_ok a r RESOLVE_SIGNIN (\<not> isl x) l f f')"
  unfolding route_resolve_signin_def Let_def
  by (auto intro!: wp_intro result_cases guards_wp wp_conseq [OF resolve_signin_spec]
      simp: route_ok_def acting_routes_def from_operator_def email_entry_seen_append filled_iff dest: not_filled)

lemma resolve_kmsi_route:
  "wp f (route_resolve_kmsi a r) (\<lambda>x l f'. route_ok a r RESOLVE_KMSI (\<not> isl x) l f f')"
  unfolding route_resolve_kmsi_def Let_def
  by (auto intro!: wp_intro result_cases guards_wp wp_conseq [OF resolve_kmsi_spec]
      simp: route_ok_def acting_routes_def from_operator_def filled_iff dest: not_filled)

lemma resolve_method_route:
  "wp f (route_resolve_method a r) (\<lambda>x l f'. route_ok a r RESOLVE_METHOD (\<not> isl x) l f f')"
  unfolding route_resolve_method_def Let_def
  by (auto intro!: wp_intro result_cases guards_wp wp_conseq [OF resolve_method_spec]
      simp: route_ok_def acting_routes_def from_operator_def filled_iff dest: not_filled)

lemma submit_route:
  "wp f (route_operator_submit a r) (\<lambda>x l f'. route_ok a r OPERATOR_SUBMIT (\<not> isl x) l f f')"
  unfolding route_operator_submit_def Let_def
  by (auto intro!: wp_intro result_cases guards_wp wp_conseq [OF submit_spec] split: sum.splits
      simp: route_ok_def acting_routes_def from_operator_def submission_allowed_def wrap_Inr not_filled)

lemma observe_route:
  "wp f (route_observe a r) (\<lambda>x l f'. route_ok a r OBSERVE (\<not> isl x) l f f')"
  unfolding route_observe_def Let_def
  by (auto intro!: wp_intro result_cases wp_conseq [OF observe_spec] simp: route_ok_def not_filled latch_def)

subsection \<open>Every route\<close>

lemma ok_answer_wp: "wp f m (\<lambda>x l f'. route_ok a r rt (\<not> isl x) l f f') \<Longrightarrow>
    wp f (ok_answer m) (\<lambda>x l f'. route_ok a r rt (\<not> isl x) l f f')"
  unfolding ok_answer_def
  by (rule wp_bind, erule wp_conseq) (auto intro!: wp_intro split: sum.splits)

lemma looking_wp: "looks m \<Longrightarrow> rt \<notin> {RESOLVE_SIGNIN, BEGIN_AUTH_SIGNIN} \<Longrightarrow>
    wp f m (\<lambda>x l f'. route_ok a r rt (\<not> isl x) l f f')"
  by (erule looks_wp) (simp add: looking_ok)

lemma looks_answer: "looks m \<Longrightarrow> looks (ok_answer m)"
  unfolding ok_answer_def by (intro looks_intro) simp_all

lemma looks_pair: "(\<And>x y. looks (g x y)) \<Longrightarrow> looks (case p of (x, y) \<Rightarrow> g x y)"
  by (cases p) simp

lemma looks_handle:
  assumes "\<And>p. looks (wa_read_page a p)" "rt \<notin> insert OBSERVE acting_routes"
  shows "looks (handle a n r rt)"
proof -
  have readyz: "looks (io_bind (route_readyz a n) (\<lambda>(status, x). io_return (Json_answer status x)))"
    by (intro looks_bind looks_pair) simp_all
  have operations: "looks (io_bind (execute_operation a n (rq_admitted r) q) (\<lambda>x. io_return (Operation_answer x)))" for q
    by (intro looks_bind looks_execute assms) simp_all
  show ?thesis
    using assms(2) by (cases rt) (simp_all add: acting_routes_def readyz operations looks_answer
      looks_adapter [OF assms(1)] route_discover_email_def route_discover_password_def)
qed

lemma handle_spec:
  assumes "\<And>p. looks (wa_read_page a p)"
  shows "wp f (handle a n r rt) (\<lambda>x l f'. route_ok a r rt (\<not> isl x) l f f')"
proof (cases "rt \<in> insert OBSERVE acting_routes")
  case True
  then show ?thesis
    by (auto simp: acting_routes_def intro!: ok_answer_wp navigate_route begin_route email_route resolve_signin_route
        resolve_kmsi_route resolve_method_route submit_route observe_route)
next
  case False
  from looks_handle [OF assms False] show ?thesis
    by (rule looking_wp) (use False in \<open>auto simp: acting_routes_def\<close>)
qed

text \<open>A sequence of requests: each served route with its success and its own part of the log.\<close>

type_synonym served_log = "route \<times> bool \<times> interaction list"

fun serve_all :: "'w worker_app \<Rightarrow> (served \<times> http_request) list \<Rightarrow> ProtocolNegotiator \<times> 'w session \<Rightarrow>
    served_log list \<times> (ProtocolNegotiator \<times> 'w session)" where
  "serve_all a [] st = ([], st)"
| "serve_all a ((sv, r) # rest) st = (case serve_request a sv r st of (x, st') \<Rightarrow>
     (case serve_all a rest st' of (h, st'') \<Rightarrow>
       ((case sv of Negotiate vs \<Rightarrow> h
         | Route rt \<Rightarrow> (rt, \<not> isl x, drop (length (se_log (snd st))) (se_log (snd st'))) # h), st'')))"

text \<open>Over the history of a worker: fields are filled by the email stage, or by a submission while the
  history allows the latch.\<close>

fun typing_served :: "bool \<Rightarrow> bool \<Rightarrow> served_log list \<Rightarrow> bool" where
  "typing_served mock b [] = True"
| "typing_served mock b ((rt, ok, l) # h) =
     ((if filled l then rt = BEGIN_EMAIL \<or> rt = OPERATOR_SUBMIT \<and> b else True) \<and>
      typing_served mock (route_latch mock b (rt, ok, l)) h)"

lemma route_latch_mono: "b \<longrightarrow> c \<Longrightarrow> route_latch mock b (rt, ok, l) \<longrightarrow> route_latch mock c (rt, ok, l)"
  by (cases rt) auto

lemma serve_all_typing:
  assumes "\<And>p. looks (wa_read_page a p)"
  shows "(se_surface_resolved s \<longrightarrow> b) \<Longrightarrow> typing_served (app_is_mock (wa_env a)) b (fst (serve_all a reqs (n, s)))"
proof (induction reqs arbitrary: s b n)
  case (Cons q reqs)
  obtain sv r where q: "q = (sv, r)" by force
  show ?case
  proof (cases sv)
    case (Negotiate vs)
    with Cons q show ?thesis by (auto split: prod.splits)
  next
    case (Route rt)
    obtain x t where m: "handle a n r rt s = (x, t)" by force
    from wpD [OF handle_spec [OF assms] refl m] obtain l where l: "se_log t = se_log s @ l"
      and a: "route_ok a r rt (\<not> isl x) l (flags_of s) (flags_of t)" by blast
    let ?m = "app_is_mock (wa_env a)"
    from a Cons.prems have "se_surface_resolved t \<longrightarrow> route_latch ?m b (rt, \<not> isl x, l)"
      using route_latch_mono [of "se_surface_resolved s" b] by (auto simp: route_ok_def)
    then have ih: "typing_served ?m (route_latch ?m b (rt, \<not> isl x, l)) (fst (serve_all a reqs (n, t)))"
      by (rule Cons.IH)
    have "if filled l then rt = BEGIN_EMAIL \<or> rt = OPERATOR_SUBMIT \<and> b else True"
      using a Cons.prems by (auto simp: route_ok_def)
    with ih show ?thesis by (simp add: q Route m l case_prod_beta)
  qed
qed simp

subsection \<open>What the application promises\<close>

definition operator_routes :: "route list" where
  "operator_routes = [NAVIGATE, BEGIN_AUTH_SIGNIN, BEGIN_EMAIL, RESOLVE_SIGNIN, RESOLVE_KMSI, RESOLVE_METHOD,
     DIAGNOSE_SURFACE, OPERATOR_SUBMIT, OBSERVE, DISCOVER_EMAIL, DISCOVER_PASSWORD, COLLECT_OBSERVATION,
     PROBE_PLANNER_SURFACE]"

definition bodyless_routes :: "route list" where
  "bodyless_routes = [NAVIGATE, BEGIN_AUTH_SIGNIN, RESOLVE_SIGNIN, RESOLVE_KMSI, RESOLVE_METHOD]"

lemma refused_answer:
  "ok_answer (io_bind (admit b r) g) s =
     (if \<not> is_loopback_peer (rq_peer r) then (Inl (http_detail 404 ''NOT_FOUND'' ''Resource not available''), s)
      else if rq_query r \<noteq> [] then (Inl (http_detail 400 ''INVALID_REQUEST'' ''No parameters are accepted''), s)
      else if b \<and> rq_body r \<noteq> [] then (Inl (http_detail 400 ''INVALID_REQUEST'' ''No request body is accepted''), s)
      else ok_answer (io_bind (admit b r) g) s)"
  unfolding ok_answer_def by (simp add: admit_def io_bind_def io_raise_def)

lemma bodyless_iff: "(rt \<in> set bodyless_routes) = (case rt of
    NAVIGATE \<Rightarrow> True | BEGIN_AUTH_SIGNIN \<Rightarrow> True | RESOLVE_SIGNIN \<Rightarrow> True | RESOLVE_KMSI \<Rightarrow> True
  | RESOLVE_METHOD \<Rightarrow> True | _ \<Rightarrow> False)"
  by (cases rt) (simp_all add: bodyless_routes_def)

lemma operator_route_admits:
  "list_all (\<lambda>rt. \<exists>g. handle a n r rt = ok_answer (io_bind (admit (rt \<in> set bodyless_routes) r) g)) operator_routes"
  unfolding operator_routes_def list.pred_inject bodyless_iff route.case handle.simps route_navigate_def
    route_begin_signin_def route_begin_email_def
    route_resolve_signin_def route_resolve_kmsi_def route_resolve_method_def route_diagnose_def
    route_operator_submit_def route_observe_def route_discover_email_def route_discover_password_def
    route_discover_def route_collect_observation_def route_probe_def Let_def
  by (intro conjI) ((rule exI, rule refl) | simp)+


text \<open>A sample application for the two properties below: a browser that never answers, live mode, and a
  reader of the Planner page that reports an empty board.\<close>

definition silent_driver :: "unit driver" where
  "silent_driver = \<lparr>dr_pages = (\<lambda>w. []), dr_url = (\<lambda>p w. []), dr_count = (\<lambda>p q w. (None, w)),
     dr_wait_visible = (\<lambda>p q n w. (False, w)), dr_inner_text = (\<lambda>p w. (None, w)), dr_sleep = (\<lambda>n w. w),
     dr_new_page = (\<lambda>w. (None, w)), dr_perform = (\<lambda>a w. (False, w)), dr_lifecycle = (\<lambda>c w. (False, w))\<rparr>"

definition sample_app :: "unit worker_app" where
  "sample_app = \<lparr>wa_driver = silent_driver,
     wa_env = \<lparr>en_environ = [(''PLANNER_MODE'', ''live'')], en_profile_dir = ''/profile'', en_config_mode = ''live'',
       en_contract = Inl KeyError, en_parse_qsl = (\<lambda>q. []), en_urlencode = (\<lambda>q. [])\<rparr>,
     wa_read_page = (\<lambda>p. io_return \<lparr>bo_anchor_titles = [], bo_row_titles = []\<rparr>),
     wa_registry = \<lparr>cr_definitions = [], cr_declared = []\<rparr>, wa_now = 0, wa_expires = []\<rparr>"

definition sample_request :: http_request where
  "sample_request = \<lparr>rq_peer = Some ''127.0.0.1'', rq_query = [], rq_body = [], rq_json = None, rq_admitted = True\<rparr>"

definition sample_negotiator :: ProtocolNegotiator where
  "sample_negotiator = \<lparr>ng_supported_versions = [''1''], ng_negotiated_version = Some ''1''\<rparr>"

definition sample_context :: AuthContext where
  "sample_context = \<lparr>ac_state = AUTH_UNKNOWN, ac_challenge = None, ac_history = []\<rparr>"

text \<open>C3. If reading the Planner page does not act on it, no route at all acts on a page except the seven that
  are meant to, and these only for a local peer without a query, in live mode, in the worker's own browser.
  A field is filled only by the email route, or by the submission route while the sign-in surface is
  resolved and the sign-in fragments are attested; only a resolution or a begin from the operator changes
  the latch, and no route changes who owns the browser.\<close>

theorem only_operator_routes_act:
  assumes "\<And>p. looks (wa_read_page a p)"
  shows "\<exists>l. se_log (snd (handle a n r rt s)) = se_log s @ l \<and>
     (acts l = [] \<or> rt \<in> acting_routes \<and> from_operator a r \<and> owns_context s) \<and>
     (if filled l then rt = BEGIN_EMAIL \<or> rt = OPERATOR_SUBMIT \<and> se_surface_resolved s \<and>
        common_auth_attested (en_contract (wa_env a)) = Inr True else True) \<and>
     (se_surface_resolved (snd (handle a n r rt s)) = se_surface_resolved s \<or>
        rt \<in> {RESOLVE_SIGNIN, BEGIN_AUTH_SIGNIN} \<and> from_operator a r) \<and>
     owns_context (snd (handle a n r rt s)) = owns_context s"
proof -
  from wp_run [OF handle_spec [OF assms]] obtain l where l: "se_log (snd (handle a n r rt s)) = se_log s @ l"
    "route_ok a r rt (\<not> isl (fst (handle a n r rt s))) l (flags_of s) (flags_of (snd (handle a n r rt s)))" by blast
  then have "owned (flags_of (snd (handle a n r rt s))) = owned (flags_of s)" by (simp add: route_ok_def owned_def)
  with l show ?thesis by (intro exI [of _ l] conjI) (auto simp: route_ok_def)
qed

theorem only_operator_routes_act_witness:
  "\<exists>l. se_log (snd (handle sample_app sample_negotiator sample_request NAVIGATE (fresh_session () sample_context))) = l \<and>
     acts l = []"
proof -
  have "looks (wa_read_page sample_app p)" for p by (simp add: sample_app_def)
  from only_operator_routes_act [OF this, of sample_negotiator sample_request NAVIGATE "fresh_session () sample_context"]
  show ?thesis by (auto simp: fresh_session_def owns_context_def)
qed



subsection \<open>Typed and plain requests\<close>

text \<open>The plain route of a typed operation.\<close>

fun plain_route :: "WorkerOperation \<Rightarrow> WorkerArguments \<Rightarrow> route option" where
  "plain_route OP_AUTH_STATUS x = Some AUTH_STATUS"
| "plain_route OP_AUTH_START x = Some AUTH_START"
| "plain_route OP_AUTH_RESUME x = Some AUTH_RESUME"
| "plain_route OP_AUTH_SESSION x = Some AUTH_SESSION"
| "plain_route OP_ACCOUNT_CONTEXT x = Some GET_ACCOUNT_CONTEXT"
| "plain_route OP_ACCOUNT_LICENSE x = Some GET_ACCOUNT_LICENSE"
| "plain_route OP_PLAN_LIST x = Some GET_PLANS"
| "plain_route OP_PLAN_GET (PlanArguments p) = Some (GET_PLAN p)"
| "plain_route OP_TASK_LIST (PlanArguments p) = Some (GET_TASKS p)"
| "plain_route OP_TASK_GET (TaskArguments t) = Some (GET_TASK t)"
| "plain_route OP_PROJECT_SNAPSHOT (PlanArguments p) = Some (GET_SNAPSHOT p)"
| "plain_route op1 x = None"

lemma plain_route_dispatch:
  assumes "plain_route (wr_operation q) (wr_arguments q) = Some rt"
  shows "handle a n r rt = ok_answer (dispatch_semantic_operation a q)"
  using assms by (cases "wr_operation q"; cases "wr_arguments q")
    (auto simp: dispatch_semantic_operation_def adapter_owns_def PLANNER_OPERATIONS_def adapter_dispatch_def)

lemma valid_request_routed:
  "worker_request_check q = None \<Longrightarrow> \<exists>rt. plain_route (wr_operation q) (wr_arguments q) = Some rt"
  by (cases "wr_operation q"; cases "wr_arguments q")
    (auto simp: worker_request_check_def validate_operation_arguments_def NO_ARGUMENT_OPERATIONS_def
        PLAN_ARGUMENT_OPERATIONS_def TASK_ARGUMENT_OPERATIONS_def checks)

lemma refusal_projected:
  "fst (project_worker_error (ProtocolIncompatible m c) i x) \<in> {403, 404, 409, 503}"
  "fst (project_worker_error (WorkerBusy m c) i x) \<in> {403, 404, 409, 503}"
  "we_request_id (snd (project_worker_error e i x)) = i"
  by (simp_all add: project_worker_error_def ProtocolIncompatible_def WorkerBusy_def with_message_def
    ERROR_POLICIES_def error_policy_def case_prod_beta)

lemma refused_execute:
  "\<not> (protocol_compatible n \<and> admitted) \<Longrightarrow> execute_operation a n admitted q s =
     (Inr (case_prod Error_answer (project_worker_error
        (if protocol_compatible n then WorkerBusy ''browser profile executor queue is full''
            [(''operation'', JStr (worker_operation_value (wr_operation q))), (''max_queue'', JInt 8)]
         else ProtocolIncompatible ''typed worker protocol is not negotiated'' [])
        (wr_request_id q) (wr_operation q))), s)"
  by (simp add: execute_operation_def io_catch_def io_bind_def io_unless_def io_raise_def io_return_def
    ProtocolIncompatible_def WorkerBusy_def with_message_def case_prod_beta)


end
