(* ===== verification/Outlook_Base.thy ===== *)
theory Outlook_Base
  imports Worker_Protocol
begin

text \<open>
  The foundation of the Outlook application (\<open>m365_mcp/apps/outlook\<close>): the synthetic mailbox
  (\<open>mock_ui.py\<close>), the shell contracts and discovery candidates (\<open>shell_contracts.py\<close>, \<open>discovery.py\<close>), the
  mailbox contexts (\<open>mailbox_context.py\<close>, \<open>shared_mailbox_context.py\<close>), the inert manifest (\<open>manifest.py\<close>)
  and the readiness report every other module asks first (\<open>readiness.py\<close>).

  What the modules share is here too: the gate in front of every operation, Python's slices and \<open>casefold\<close>,
  pages of a listing, and catalogues. A catalogue is a tuple of objects with a key; the locale
  \<open>keyed_catalogue\<close> states what an insertion and a removal promise, and is interpreted for the three ways
  the modules write them: replacing in place, removing and appending, removing and sorting.

  Python's integers are \<open>int\<close>; checks of the run-time types of arguments hold by typing.
\<close>

subsection \<open>Python helpers\<close>

text \<open>\<open>xs[lo:hi]\<close> with a step of one: negative bounds count from the end.\<close>

definition py_bound :: "int \<Rightarrow> 'a list \<Rightarrow> nat" where
  "py_bound i xs = nat (if i < 0 then max 0 (int (length xs) + i) else min i (int (length xs)))"

definition py_slice :: "int \<Rightarrow> int \<Rightarrow> 'a list \<Rightarrow> 'a list" where
  "py_slice lo hi xs = drop (py_bound lo xs) (take (py_bound hi xs) xs)"

text \<open>\<open>str.casefold\<close> below code point 256. The micro sign, which Python folds to a Greek letter, stays as it is:
  in texts of this range that changes no comparison.\<close>

definition casefold_char :: "char \<Rightarrow> string" where
  "casefold_char c = (if (of_char c :: nat) = 223 then ''ss'' else [lower_char c])"

definition casefold :: "string \<Rightarrow> string" where
  "casefold s = concat (map casefold_char s)"

text \<open>Checks in front of an operation, in source order.\<close>

definition checked :: "exn option list \<Rightarrow> 'a result \<Rightarrow> 'a result" where
  "checked cs m = (case first_error cs of Some e \<Rightarrow> Inl e | None \<Rightarrow> m)"

definition token_check :: "string \<Rightarrow> string \<Rightarrow> exn option" where
  "token_check name v = raise_if (bad_token v) (value_error (name @ '' must be a non-empty semantic token''))"

definition optional_token :: "string \<Rightarrow> string option \<Rightarrow> exn option" where
  "optional_token name v = (case v of None \<Rightarrow> None | Some s \<Rightarrow> token_check name s)"

text \<open>The weaker check of a key given to a read: spaces inside are not looked for.\<close>

definition trimmed :: "string \<Rightarrow> bool" where
  "trimmed v \<longleftrightarrow> v \<noteq> [] \<and> v = strip v"

definition trimmed_check :: "string \<Rightarrow> string \<Rightarrow> exn option" where
  "trimmed_check name v = raise_if (\<not> trimmed v) (value_error (name @ '' must be a non-empty semantic token''))"

lemma checked_Inr_iff [checks]: "checked cs m = Inr x \<longleftrightarrow> first_error cs = None \<and> m = Inr x"
  by (simp add: checked_def split: option.splits)

lemma token_check_None [checks]: "token_check name v = None \<longleftrightarrow> \<not> bad_token v"
  by (simp add: token_check_def checks)

lemma optional_token_None [checks]:
  "optional_token name v = None \<longleftrightarrow> (case v of None \<Rightarrow> True | Some s \<Rightarrow> \<not> bad_token s)"
  by (simp add: optional_token_def checks split: option.splits)

lemma trimmed_check_None [checks]: "trimmed_check name v = None \<longleftrightarrow> trimmed v"
  by (simp add: trimmed_check_def checks)

lemma token_trimmed: "\<not> bad_token v \<Longrightarrow> trimmed v"
  by (simp add: bad_token_def trimmed_def)

lemma py_slice_page:
  "0 \<le> lo \<Longrightarrow> 0 \<le> n \<Longrightarrow> py_slice lo (lo + n) xs = take (nat n) (drop (nat lo) xs)"
proof -
  assume a: "0 \<le> lo" "0 \<le> n"
  have b: "py_bound i xs = min (nat i) (length xs)" if "0 \<le> i" for i
    using that by (simp add: py_bound_def min_def nat_le_iff)
  have "drop (min p (length xs)) (take (min (p + q) (length xs)) xs) = take q (drop p xs)" for p q
    by (cases "p \<le> length xs") (auto simp: min_def drop_take)
  with a b show ?thesis by (simp add: py_slice_def nat_add_distrib)
qed

lemma py_slice_first: "0 \<le> n \<Longrightarrow> py_slice 0 n xs = take (nat n) xs"
  using py_slice_page [of 0 n xs] by simp

subsection \<open>Pages\<close>

text \<open>The pages of a listing at offsets \<open>0, n, 2n, \<dots>\<close> put together are the listing.\<close>

lemma concat_pages:
  assumes "0 < n"
  shows "concat (map (\<lambda>i. take n (drop (i * n) xs)) [0..<k]) = take (k * n) xs"
proof (induction k)
  case (Suc k)
  have "take (k * n + n) xs = take (k * n) xs @ take n (drop (k * n) xs)" by (rule take_add)
  with Suc show ?case by (simp add: add.commute [of n])
qed simp

subsection \<open>Catalogues\<close>

text \<open>\<open>next((item for item in xs if item.key == k), None)\<close>, and the three ways of storing an item.\<close>

definition find_key :: "('a \<Rightarrow> string) \<Rightarrow> string \<Rightarrow> 'a list \<Rightarrow> 'a option" where
  "find_key key k xs = find (\<lambda>x. key x = k) xs"

definition replace_key :: "('a \<Rightarrow> string) \<Rightarrow> string \<Rightarrow> 'a \<Rightarrow> 'a list \<Rightarrow> 'a list" where
  "replace_key key k y xs = map (\<lambda>x. if key x = k then y else x) xs"

definition remove_key :: "('a \<Rightarrow> string) \<Rightarrow> string \<Rightarrow> 'a list \<Rightarrow> 'a list" where
  "remove_key key k xs = filter (\<lambda>x. key x \<noteq> k) xs"

definition put_in_place :: "('a \<Rightarrow> string) \<Rightarrow> 'a \<Rightarrow> 'a list \<Rightarrow> 'a list" where
  "put_in_place key y xs = (if find_key key (key y) xs = None then xs @ [y] else replace_key key (key y) y xs)"

definition put_last :: "('a \<Rightarrow> string) \<Rightarrow> 'a \<Rightarrow> 'a list \<Rightarrow> 'a list" where
  "put_last key y xs = remove_key key (key y) xs @ [y]"

definition put_sorted :: "('a \<Rightarrow> string) \<Rightarrow> 'a \<Rightarrow> 'a list \<Rightarrow> 'a list" where
  "put_sorted key y xs = sort_key key (remove_key key (key y) xs @ [y])"

definition distinct_keys :: "('a \<Rightarrow> string) \<Rightarrow> 'a list \<Rightarrow> bool" where
  "distinct_keys key xs \<longleftrightarrow> distinct (map key xs)"

lemma find_key_Some: "find_key key k xs = Some x \<Longrightarrow> x \<in> set xs \<and> key x = k"
  by (auto simp: find_key_def find_Some_iff)

lemma find_key_None: "find_key key k xs = None \<longleftrightarrow> k \<notin> key ` set xs"
  by (auto simp: find_key_def find_None_iff)

lemma find_key_iff: "distinct_keys key xs \<Longrightarrow> find_key key k xs = Some x \<longleftrightarrow> x \<in> set xs \<and> key x = k"
proof
  assume d: "distinct_keys key xs" and x: "x \<in> set xs \<and> key x = k"
  then have "find_key key k xs \<noteq> None" by (auto simp: find_key_None)
  then obtain y where y: "find_key key k xs = Some y" by blast
  with x have "y \<in> set xs" "key y = key x" using find_key_Some [OF y] by auto
  with d x have "y = x" by (auto simp: distinct_keys_def distinct_map dest: inj_onD)
  with y show "find_key key k xs = Some x" by simp
qed (auto dest: find_key_Some)

lemma find_key_append:
  "find_key key k (xs @ ys) = (case find_key key k xs of None \<Rightarrow> find_key key k ys | Some x \<Rightarrow> Some x)"
  by (induction xs) (auto simp: find_key_def)

lemma find_key_remove: "find_key key k (remove_key key j xs) = (if k = j then None else find_key key k xs)"
  by (induction xs) (auto simp: find_key_def remove_key_def)

lemma find_key_replace:
  "key y = j \<Longrightarrow> find_key key k (replace_key key j y xs) =
     (if k = j \<and> find_key key j xs \<noteq> None then Some y else find_key key k xs)"
  by (induction xs) (auto simp: find_key_def replace_key_def)

lemma replace_key_keys: "key y = j \<Longrightarrow> map key (replace_key key j y xs) = map key xs"
  by (induction xs) (auto simp: replace_key_def)

lemma distinct_remove: "distinct_keys key xs \<Longrightarrow> distinct_keys key (remove_key key k xs)"
  by (simp add: distinct_keys_def remove_key_def distinct_map_filter)

lemma remove_key_set: "set (remove_key key k xs) = {x \<in> set xs. key x \<noteq> k}"
  by (simp add: remove_key_def)

lemma find_key_single: "find_key key k [x] = (if key x = k then Some x else None)"
  by (simp add: find_key_def)

lemma distinct_keys_sort: "distinct_keys key xs \<Longrightarrow> distinct_keys key (sort_key f xs)"
  by (simp add: distinct_keys_def distinct_map)

lemma find_key_sort:
  assumes "distinct_keys key xs"
  shows "find_key key k (sort_key f xs) = find_key key k xs"
proof -
  have "distinct_keys key (sort_key f xs)" using assms by (rule distinct_keys_sort)
  with assms have "find_key key k (sort_key f xs) = Some x \<longleftrightarrow> find_key key k xs = Some x" for x
    by (simp add: find_key_iff)
  then show ?thesis by (cases "find_key key k xs"; cases "find_key key k (sort_key f xs)") auto
qed

locale keyed_catalogue =
  fixes key :: "'a \<Rightarrow> string" and ok :: "'a list \<Rightarrow> bool" and put :: "'a \<Rightarrow> 'a list \<Rightarrow> 'a list"
  assumes ok_distinct: "ok xs \<Longrightarrow> distinct_keys key xs"
    and put_ok: "ok xs \<Longrightarrow> ok (put x xs)"
    and lookup_put: "ok xs \<Longrightarrow> find_key key k (put x xs) = (if k = key x then Some x else find_key key k xs)"
begin

lemma read_back: "ok xs \<Longrightarrow> find_key key (key x) (put x xs) = Some x"
  by (simp add: lookup_put)

lemma elements: "ok xs \<Longrightarrow> set (put x xs) = insert x {y \<in> set xs. key y \<noteq> key x}"
proof -
  assume ok: "ok xs"
  have "y \<in> set (put x xs) \<longleftrightarrow> y = x \<or> y \<in> set xs \<and> key y \<noteq> key x" for y
    using lookup_put [OF ok, of "key y" x] find_key_iff [OF ok_distinct [OF ok], of "key y" y]
      find_key_iff [OF ok_distinct [OF put_ok [OF ok, of x]], of "key y" y] by (auto split: if_splits)
  then show ?thesis by auto
qed

text \<open>A catalogue as a map from keys; storing is an update of the map, and of a sequence of stores the last
  of each key counts.\<close>

lemma store: "ok xs \<Longrightarrow> (\<lambda>k. find_key key k (put x xs)) = (\<lambda>k. find_key key k xs)(key x \<mapsto> x)"
  by (auto simp: lookup_put)

lemma history: "ok xs \<Longrightarrow> ok (fold put ys xs) \<and>
    (\<lambda>k. find_key key k (fold put ys xs)) = (\<lambda>k. find_key key k xs) ++ map_of (rev (map (\<lambda>y. (key y, y)) ys))"
proof (induction ys arbitrary: xs)
  case (Cons y ys)
  from Cons.IH [OF put_ok [OF Cons.prems]] store [OF Cons.prems] show ?case
    by (simp add: map_add_def fun_eq_iff split: option.splits)
qed simp

end

interpretation in_place: keyed_catalogue key "distinct_keys key" "put_in_place key" for key :: "'a \<Rightarrow> string"
proof
  fix xs :: "'a list" and x k
  assume d: "distinct_keys key xs"
  then show "distinct_keys key (put_in_place key x xs)"
    by (simp add: put_in_place_def distinct_keys_def replace_key_keys find_key_None)
  show "find_key key k (put_in_place key x xs) = (if k = key x then Some x else find_key key k xs)"
    by (cases "find_key key (key x) xs")
      (auto simp: put_in_place_def find_key_append find_key_single find_key_replace split: option.splits)
qed

interpretation last: keyed_catalogue key "distinct_keys key" "put_last key" for key :: "'a \<Rightarrow> string"
proof
  fix xs :: "'a list" and x k
  assume d: "distinct_keys key xs"
  then have "distinct_keys key (remove_key key (key x) xs)" by (rule distinct_remove)
  then show "distinct_keys key (put_last key x xs)"
    by (auto simp: put_last_def distinct_keys_def remove_key_set)
  show "find_key key k (put_last key x xs) = (if k = key x then Some x else find_key key k xs)"
    by (simp add: put_last_def find_key_append find_key_remove find_key_single split: option.splits)
qed

interpretation sorted: keyed_catalogue key "distinct_keys key" "put_sorted key" for key :: "'a \<Rightarrow> string"
proof
  fix xs :: "'a list" and x k
  assume d: "distinct_keys key xs"
  then have l: "distinct_keys key (put_last key x xs)" by (rule last.put_ok)
  then show "distinct_keys key (put_sorted key x xs)"
    unfolding put_sorted_def put_last_def by (rule distinct_keys_sort)
  show "find_key key k (put_sorted key x xs) = (if k = key x then Some x else find_key key k xs)"
    using find_key_sort [OF l, of k key] last.lookup_put [OF d, of k x] by (simp add: put_sorted_def put_last_def)
qed

subsection \<open>The synthetic mailbox\<close>

record MockMessage =
  mm_message_key :: string
  mm_subject :: string
  mm_folder_key :: string
  mm_is_read :: bool
  mm_has_attachments :: bool

record OutlookMockFixture =
  fx_fixture_version :: string
  fx_synthetic :: bool
  fx_mailbox_key :: string
  fx_folders :: "string list"
  fx_messages :: "MockMessage list"

definition default_outlook_fixture :: OutlookMockFixture where
  "default_outlook_fixture = \<lparr>fx_fixture_version = ''outlook-mock-v1'', fx_synthetic = True,
     fx_mailbox_key = ''mock-primary'', fx_folders = [''inbox'', ''archive'', ''sent''],
     fx_messages = [
       \<lparr>mm_message_key = ''msg-001'', mm_subject = ''Synthetic project update'', mm_folder_key = ''inbox'',
         mm_is_read = False, mm_has_attachments = False\<rparr>,
       \<lparr>mm_message_key = ''msg-002'', mm_subject = ''Synthetic meeting notes'', mm_folder_key = ''archive'',
         mm_is_read = True, mm_has_attachments = True\<rparr>]\<rparr>"

subsection \<open>Shell contracts and discovery\<close>

datatype OutlookShellTarget = SHELL_MAIL | SHELL_CALENDAR | SHELL_PEOPLE | SHELL_TODO | SHELL_SETTINGS

fun shell_target_value :: "OutlookShellTarget \<Rightarrow> string" where
  "shell_target_value SHELL_MAIL = ''mail''"
| "shell_target_value SHELL_CALENDAR = ''calendar''"
| "shell_target_value SHELL_PEOPLE = ''people''"
| "shell_target_value SHELL_TODO = ''todo''"
| "shell_target_value SHELL_SETTINGS = ''settings''"

record OutlookShellContract =
  sh_contract_key :: string
  sh_target :: OutlookShellTarget
  sh_semantic_role :: string
  sh_requires_authenticated_shell :: bool
  sh_live_evidence_state :: string

definition shell_contract_check :: "OutlookShellContract \<Rightarrow> exn option" where
  "shell_contract_check c = first_error [
     raise_if (\<not> prefix ''outlook.shell.'' (sh_contract_key c))
       (value_error ''Outlook shell contract key must use outlook.shell namespace''),
     raise_if (\<not> trimmed (sh_semantic_role c)) (value_error ''Outlook shell semantic role is required''),
     raise_if (sh_live_evidence_state c \<noteq> ''UNVERIFIED_LIVE'')
       (value_error ''OUT-003 cannot claim live shell attestation'')]"

definition outlook_shell_contracts :: "OutlookShellContract list result" where
  "outlook_shell_contracts = mapE (\<lambda>(target, role). construct shell_contract_check
     \<lparr>sh_contract_key = ''outlook.shell.'' @ shell_target_value target, sh_target = target, sh_semantic_role = role,
      sh_requires_authenticated_shell = True, sh_live_evidence_state = ''UNVERIFIED_LIVE''\<rparr>)
     [(SHELL_MAIL, ''mail_navigation''), (SHELL_CALENDAR, ''calendar_navigation''),
      (SHELL_PEOPLE, ''people_navigation''), (SHELL_TODO, ''todo_navigation''), (SHELL_SETTINGS, ''settings_navigation'')]"

datatype DiscoveryState = UNOBSERVED | OBSERVED | BLOCKED | REATTESTATION_REQUIRED

record OutlookCapabilityCandidate =
  oc_capability_key :: string
  oc_shell_target :: OutlookShellTarget
  oc_shell_contract_key :: string
  oc_state :: DiscoveryState
  oc_evidence_digest :: "string option"

definition candidate_check :: "OutlookCapabilityCandidate \<Rightarrow> exn option" where
  "candidate_check c = first_error [
     raise_if (CHR ''.'' \<notin> set (oc_capability_key c))
       (value_error ''Outlook discovery capability must use namespace.action form''),
     raise_if (oc_shell_contract_key c \<noteq> ''outlook.shell.'' @ shell_target_value (oc_shell_target c))
       (value_error ''Outlook discovery candidate shell contract mismatch''),
     raise_if (oc_state c = OBSERVED \<and> oc_evidence_digest c = None)
       (value_error ''observed Outlook capability requires evidence digest''),
     raise_if (oc_state c \<noteq> OBSERVED \<and> oc_evidence_digest c \<noteq> None)
       (value_error ''unobserved Outlook capability cannot carry evidence digest''),
     (case oc_evidence_digest c of None \<Rightarrow> None | Some d \<Rightarrow>
        raise_if (\<not> is_digest d) (value_error ''Outlook discovery evidence digest must be SHA-256 hex''))]"

definition default_outlook_discovery_candidates :: "OutlookCapabilityCandidate list result" where
  "default_outlook_discovery_candidates = mapE (\<lambda>target. construct candidate_check
     \<lparr>oc_capability_key = shell_target_value target @ ''.read'', oc_shell_target = target,
      oc_shell_contract_key = ''outlook.shell.'' @ shell_target_value target, oc_state = UNOBSERVED,
      oc_evidence_digest = None\<rparr>) [SHELL_MAIL, SHELL_CALENDAR, SHELL_PEOPLE, SHELL_TODO, SHELL_SETTINGS]"

subsection \<open>Mailbox contexts\<close>

datatype PrimaryMailboxContextState =
    PRIMARY_VERIFIED | ACCOUNT_CONTEXT_INVALID | PRIMARY_UNVERIFIED | PRIMARY_AMBIGUOUS | SHARED_MAILBOX_CONTEXT
  | PRIMARY_REATTESTATION

record PrimaryMailboxObservation =
  po_primary_shell_observed :: bool
  po_shared_mailbox_indicator :: bool
  po_ambiguous_mailbox_context :: bool
  po_evidence_digest :: "string option"

definition primary_observation_check :: "PrimaryMailboxObservation \<Rightarrow> exn option" where
  "primary_observation_check x = first_error [
     (case po_evidence_digest x of None \<Rightarrow> None | Some d \<Rightarrow>
        raise_if (\<not> is_digest d) (value_error ''primary mailbox evidence digest must be SHA-256 hex'')),
     raise_if (po_primary_shell_observed x \<and> po_evidence_digest x = None)
       (value_error ''observed primary mailbox shell requires evidence digest''),
     raise_if (\<not> po_primary_shell_observed x \<and> po_evidence_digest x \<noteq> None)
       (value_error ''unobserved primary mailbox shell cannot carry evidence digest'')]"

record PrimaryMailboxContext =
  pc_state :: PrimaryMailboxContextState
  pc_account_context_verified :: bool
  pc_primary_shell_verified :: bool
  pc_evidence_digest :: "string option"

definition primary_context_valid :: "PrimaryMailboxContext \<Rightarrow> bool" where
  "primary_context_valid c \<longleftrightarrow> pc_state c = PRIMARY_VERIFIED \<and> pc_account_context_verified c \<and>
     pc_primary_shell_verified c \<and> pc_evidence_digest c \<noteq> None"

definition primary_context :: "PrimaryMailboxContextState \<Rightarrow> bool \<Rightarrow> PrimaryMailboxContext" where
  "primary_context state account = \<lparr>pc_state = state, pc_account_context_verified = account,
     pc_primary_shell_verified = False, pc_evidence_digest = None\<rparr>"

definition verify_primary_mailbox_context ::
  "AccountContext \<Rightarrow> PrimaryMailboxObservation \<Rightarrow> bool \<Rightarrow> PrimaryMailboxContext" where
  "verify_primary_mailbox_context account x reattestation_required =
     (if \<not> account_valid account then primary_context ACCOUNT_CONTEXT_INVALID False
      else if reattestation_required then primary_context PRIMARY_REATTESTATION True
      else if po_ambiguous_mailbox_context x then primary_context PRIMARY_AMBIGUOUS True
      else if po_shared_mailbox_indicator x then primary_context SHARED_MAILBOX_CONTEXT True
      else if \<not> po_primary_shell_observed x then primary_context PRIMARY_UNVERIFIED True
      else \<lparr>pc_state = PRIMARY_VERIFIED, pc_account_context_verified = True, pc_primary_shell_verified = True,
        pc_evidence_digest = po_evidence_digest x\<rparr>)"

datatype SharedMailboxContextState =
    SHARED_VERIFIED | PRIMARY_CONTEXT_INVALID | SHARED_UNVERIFIED | SHARED_AMBIGUOUS | PRIMARY_MAILBOX_CONTEXT
  | SHARED_REATTESTATION

record SharedMailboxObservation =
  so_shared_shell_observed :: bool
  so_primary_mailbox_indicator :: bool
  so_ambiguous_mailbox_context :: bool
  so_scope_digest :: "string option"
  so_evidence_digest :: "string option"

definition shared_digest_check :: "string \<times> string option \<Rightarrow> exn option" where
  "shared_digest_check f = (case f of (field_name, v) \<Rightarrow> (case v of None \<Rightarrow> None | Some d \<Rightarrow>
     raise_if (\<not> is_digest d) (ValueError ''shared mailbox {} must be SHA-256 hex'' [field_name])))"

definition shared_observation_check :: "SharedMailboxObservation \<Rightarrow> exn option" where
  "shared_observation_check x = first_error [
     shared_digest_check (''scope_digest'', so_scope_digest x),
     shared_digest_check (''evidence_digest'', so_evidence_digest x),
     raise_if (so_shared_shell_observed x \<and> (so_scope_digest x = None \<or> so_evidence_digest x = None))
       (value_error ''observed shared mailbox shell requires scope and evidence digests''),
     raise_if (\<not> so_shared_shell_observed x \<and> (so_scope_digest x \<noteq> None \<or> so_evidence_digest x \<noteq> None))
       (value_error ''unobserved shared mailbox shell cannot carry scope evidence'')]"

record SharedMailboxContext =
  sx_state :: SharedMailboxContextState
  sx_primary_context_verified :: bool
  sx_shared_shell_verified :: bool
  sx_scope_digest :: "string option"
  sx_evidence_digest :: "string option"

definition shared_context_valid :: "SharedMailboxContext \<Rightarrow> bool" where
  "shared_context_valid c \<longleftrightarrow> sx_state c = SHARED_VERIFIED \<and> sx_primary_context_verified c \<and>
     sx_shared_shell_verified c \<and> sx_scope_digest c \<noteq> None \<and> sx_evidence_digest c \<noteq> None"

definition shared_context :: "SharedMailboxContextState \<Rightarrow> bool \<Rightarrow> SharedMailboxContext" where
  "shared_context state primary = \<lparr>sx_state = state, sx_primary_context_verified = primary,
     sx_shared_shell_verified = False, sx_scope_digest = None, sx_evidence_digest = None\<rparr>"

definition verify_shared_mailbox_context ::
  "PrimaryMailboxContext \<Rightarrow> SharedMailboxObservation \<Rightarrow> bool \<Rightarrow> SharedMailboxContext" where
  "verify_shared_mailbox_context primary x reattestation_required =
     (if \<not> primary_context_valid primary then shared_context PRIMARY_CONTEXT_INVALID False
      else if reattestation_required then shared_context SHARED_REATTESTATION True
      else if so_ambiguous_mailbox_context x then shared_context SHARED_AMBIGUOUS True
      else if so_primary_mailbox_indicator x then shared_context PRIMARY_MAILBOX_CONTEXT True
      else if \<not> so_shared_shell_observed x then shared_context SHARED_UNVERIFIED True
      else \<lparr>sx_state = SHARED_VERIFIED, sx_primary_context_verified = True, sx_shared_shell_verified = True,
        sx_scope_digest = so_scope_digest x, sx_evidence_digest = so_evidence_digest x\<rparr>)"

subsection \<open>Readiness\<close>

record OutlookFoundationManifest =
  om_application :: ApplicationKey
  om_state :: ApplicationState
  om_capability_namespace :: string
  om_public_tools_enabled :: bool
  om_browser_operations_enabled :: bool

definition foundation_manifest :: OutlookFoundationManifest where
  "foundation_manifest = \<lparr>om_application = OUTLOOK, om_state = RESERVED, om_capability_namespace = ''outlook'',
     om_public_tools_enabled = False, om_browser_operations_enabled = False\<rparr>"

datatype OutlookReadinessState = FOUNDATION_READY | DISCOVERY_READY | READINESS_BLOCKED | READINESS_REATTESTATION

record OutlookReadinessReport =
  or_state :: OutlookReadinessState
  or_primary_context_verified :: bool
  or_shared_context_verified :: bool
  or_candidate_count :: nat
  or_observed_count :: nat
  or_blocked_count :: nat
  or_reattestation_count :: nat

definition ready_for_readonly_discovery :: "OutlookReadinessReport \<Rightarrow> bool" where
  "ready_for_readonly_discovery r \<longleftrightarrow> or_state r = DISCOVERY_READY \<and> or_primary_context_verified r \<and>
     0 < or_observed_count r \<and> or_blocked_count r = 0 \<and> or_reattestation_count r = 0"

definition count_state :: "DiscoveryState \<Rightarrow> OutlookCapabilityCandidate list \<Rightarrow> nat" where
  "count_state s cs = length (filter (\<lambda>c. oc_state c = s) cs)"

definition evaluate_outlook_readiness ::
  "PrimaryMailboxContext \<Rightarrow> OutlookCapabilityCandidate list \<Rightarrow> SharedMailboxContext option \<Rightarrow>
   OutlookReadinessReport result" where
  "evaluate_outlook_readiness primary candidates shared =
     checked [
       raise_if (om_public_tools_enabled foundation_manifest \<or> om_browser_operations_enabled foundation_manifest)
         (value_error ''OUT-007 requires inert Outlook execution surfaces''),
       raise_if (candidates = []) (value_error ''Outlook readiness requires discovery candidates''),
       raise_if (\<not> distinct (map oc_capability_key candidates))
         (value_error ''Outlook readiness candidates must be unique'')]
     (let observed = count_state OBSERVED candidates; blocked = count_state BLOCKED candidates;
          reattestation = count_state REATTESTATION_REQUIRED candidates;
          primary_reattestation = (pc_state primary = PRIMARY_REATTESTATION);
          shared_reattestation = (case shared of None \<Rightarrow> False | Some s \<Rightarrow> sx_state s = SHARED_REATTESTATION)
      in Inr \<lparr>or_state = (if primary_reattestation \<or> shared_reattestation \<or> 0 < reattestation then READINESS_REATTESTATION
            else if \<not> primary_context_valid primary \<or> 0 < blocked then READINESS_BLOCKED
            else if 0 < observed then DISCOVERY_READY else FOUNDATION_READY),
          or_primary_context_verified = primary_context_valid primary,
          or_shared_context_verified = (case shared of None \<Rightarrow> False | Some s \<Rightarrow> shared_context_valid s),
          or_candidate_count = length candidates, or_observed_count = observed, or_blocked_count = blocked,
          or_reattestation_count = reattestation\<rparr>)"

text \<open>The gate of every operation on the synthetic mailbox; \<open>code\<close> is the number of its task.\<close>

definition ready_check :: "OutlookReadinessReport \<Rightarrow> exn option" where
  "ready_check r = raise_if (\<not> ready_for_readonly_discovery r) (value_error ''Outlook read-only discovery is not ready'')"

definition synthetic_check :: "string \<Rightarrow> OutlookMockFixture \<Rightarrow> exn option" where
  "synthetic_check code f = raise_if (\<not> fx_synthetic f) (value_error (code @ '' fixture execution requires synthetic=true''))"

lemma gate_None [checks]:
  "ready_check r = None \<longleftrightarrow> ready_for_readonly_discovery r" "synthetic_check code f = None \<longleftrightarrow> fx_synthetic f"
  by (simp_all add: ready_check_def synthetic_check_def checks)

lemma count_state_zero: "count_state s cs = 0 \<longleftrightarrow> (\<forall>c \<in> set cs. oc_state c \<noteq> s)"
  by (induction cs) (auto simp: count_state_def)

lemma count_state_pos: "0 < count_state s cs \<longleftrightarrow> (\<exists>c \<in> set cs. oc_state c = s)"
  using count_state_zero [of s cs] by auto

lemma evaluate_ready:
  "(case evaluate_outlook_readiness p candidates shared of
      Inl e \<Rightarrow> candidates = [] \<or> \<not> distinct (map oc_capability_key candidates)
    | Inr r \<Rightarrow> ready_for_readonly_discovery r =
        (primary_context_valid p \<and> list_all (\<lambda>c. oc_state c \<in> {OBSERVED, UNOBSERVED}) candidates \<and>
         list_ex (\<lambda>c. oc_state c = OBSERVED) candidates \<and>
         (case shared of None \<Rightarrow> True | Some s \<Rightarrow> sx_state s \<noteq> SHARED_REATTESTATION)))"
proof -
  have states: "list_all (\<lambda>c. oc_state c \<in> {OBSERVED, UNOBSERVED}) candidates =
      (count_state BLOCKED candidates = 0 \<and> count_state REATTESTATION_REQUIRED candidates = 0)"
  proof -
    have "(oc_state c \<in> {OBSERVED, UNOBSERVED}) = (oc_state c \<noteq> BLOCKED \<and> oc_state c \<noteq> REATTESTATION_REQUIRED)" for c :: OutlookCapabilityCandidate
      by (cases "oc_state c") simp_all
    then show ?thesis by (auto simp: count_state_zero list_all_iff)
  qed
  have seen: "list_ex (\<lambda>c. oc_state c = OBSERVED) candidates = (0 < count_state OBSERVED candidates)"
    by (simp add: count_state_pos list_ex_iff)
  have state: "pc_state p = PRIMARY_REATTESTATION \<Longrightarrow> \<not> primary_context_valid p"
    by (simp add: primary_context_valid_def)
  show ?thesis
    unfolding states seen using state
    by (auto simp: evaluate_outlook_readiness_def checked_def first_error.simps raise_if_def foundation_manifest_def
        ready_for_readonly_discovery_def Let_def split: option.splits)
qed

lemma primary_verified:
  "primary_context_valid (verify_primary_mailbox_context account x reattest) = (account_valid account \<and> reattest = False \<and>
     po_ambiguous_mailbox_context x = False \<and> po_shared_mailbox_indicator x = False \<and> po_primary_shell_observed x \<and>
     po_evidence_digest x \<noteq> None)"
  by (auto simp: verify_primary_mailbox_context_def primary_context_valid_def primary_context_def)

text \<open>C28. Reading is allowed exactly on full evidence: the account context is valid, the primary mailbox was
  observed without ambiguity, sharing or pending attestation, every candidate has a capability of its own
  and is observed or merely unobserved, at least one is observed, and no shared context waits for attestation.
  The evidence the context then carries is the digest of the observation.\<close>

theorem readiness_fail_closed:
  "(case evaluate_outlook_readiness (verify_primary_mailbox_context account x reattest) candidates shared of
      Inl e \<Rightarrow> candidates = [] \<or> distinct (map oc_capability_key candidates) = False
    | Inr r \<Rightarrow> ready_for_readonly_discovery r =
        (account_valid account \<and> reattest = False \<and> po_ambiguous_mailbox_context x = False \<and>
         po_shared_mailbox_indicator x = False \<and> po_primary_shell_observed x \<and> po_evidence_digest x \<noteq> None \<and>
         list_all (\<lambda>c. oc_state c \<in> {OBSERVED, UNOBSERVED}) candidates \<and>
         list_ex (\<lambda>c. oc_state c = OBSERVED) candidates \<and>
         (case shared of None \<Rightarrow> True | Some s \<Rightarrow> sx_state s \<noteq> SHARED_REATTESTATION)))"
  using evaluate_ready [where p = "verify_primary_mailbox_context account x reattest" and candidates = candidates and shared = shared]
  by (simp add: primary_verified conj_assoc split: sum.splits)

end
