(* ===== verification/Outlook_Calendar.thy ===== *)
theory Outlook_Calendar
  imports Outlook_Base
begin

text \<open>
  The calendar reads of the Outlook application: the calendar catalogue (\<open>calendar_list.py\<close>) and events with
  their projection, listing and search (\<open>calendar_events.py\<close>).

  The results: events end where their duration says, and a search returns a page of the sorted matches.
  Error messages are given as the code renders them.
\<close>

subsection \<open>Calendars\<close>

datatype CalendarKind = CAL_PRIMARY | CAL_SECONDARY | CAL_GROUP | CAL_BIRTHDAY
datatype CalendarColorToken = CAL_BLUE | CAL_GREEN | CAL_ORANGE | CAL_PURPLE

record SyntheticCalendar =
  sc_calendar_key :: string
  sc_display_name :: string
  sc_kind :: CalendarKind
  sc_color_token :: CalendarColorToken
  sc_is_default_view :: bool
  sc_can_read :: bool

definition calendar_check :: "SyntheticCalendar \<Rightarrow> exn option" where
  "calendar_check c = first_error [
     token_check ''calendar_key'' (sc_calendar_key c),
     raise_if (\<not> trimmed (sc_display_name c)) (value_error ''display_name must be non-empty''),
     raise_if (sc_is_default_view c \<and> \<not> sc_can_read c) (value_error ''a default-view calendar must be readable'')]"

record CalendarNode =
  cn_calendar :: SyntheticCalendar
  cn_synthetic :: bool

record CalendarListResult =
  cl_calendars :: "CalendarNode list"
  cl_calendar_count :: nat
  cl_readable_count :: nat
  cl_default_calendar_key :: string
  cl_synthetic :: bool

definition default_synthetic_calendars :: "SyntheticCalendar list" where
  "default_synthetic_calendars = [
     \<lparr>sc_calendar_key = ''cal-primary'', sc_display_name = ''Synthetic Calendar'', sc_kind = CAL_PRIMARY,
      sc_color_token = CAL_BLUE, sc_is_default_view = True, sc_can_read = True\<rparr>,
     \<lparr>sc_calendar_key = ''cal-team'', sc_display_name = ''Synthetic Team Calendar'', sc_kind = CAL_GROUP,
      sc_color_token = CAL_GREEN, sc_is_default_view = False, sc_can_read = True\<rparr>]"

definition calendar_catalog_checks :: "SyntheticCalendar list \<Rightarrow> exn option list" where
  "calendar_catalog_checks cs = [
     raise_if (cs = []) (value_error ''calendar catalog must not be empty''),
     raise_if (100 < length cs) (value_error ''calendar catalog exceeds bounded size''),
     raise_if (\<not> distinct_keys sc_calendar_key cs)
       (value_error ''calendar catalog keys must be unique per calendar_key''),
     raise_if (length (filter (\<lambda>c. sc_kind c = CAL_PRIMARY) cs) \<noteq> 1)
       (value_error ''calendar catalog requires exactly one PRIMARY calendar''),
     raise_if (length (filter sc_is_default_view cs) \<noteq> 1)
       (value_error ''calendar catalog requires exactly one default-view calendar'')]"

definition project_calendar :: "SyntheticCalendar \<Rightarrow> CalendarNode" where
  "project_calendar c = \<lparr>cn_calendar = c, cn_synthetic = True\<rparr>"

definition calendars_or_default :: "SyntheticCalendar list option \<Rightarrow> SyntheticCalendar list" where
  "calendars_or_default cs = (case cs of None \<Rightarrow> default_synthetic_calendars | Some xs \<Rightarrow> xs)"

definition list_fixture_calendars ::
  "OutlookMockFixture \<Rightarrow> OutlookReadinessReport \<Rightarrow> SyntheticCalendar list option \<Rightarrow> CalendarListResult result" where
  "list_fixture_calendars f r calendars = (let catalog = calendars_or_default calendars in
     checked ([synthetic_check ''OUT-020'' f, ready_check r] @ calendar_catalog_checks catalog)
     (let nodes = map project_calendar catalog in
      case find (\<lambda>n. sc_is_default_view (cn_calendar n)) nodes of
        None \<Rightarrow> Inl (RuntimeError ''StopIteration'' [])
      | Some d \<Rightarrow> Inr \<lparr>cl_calendars = nodes, cl_calendar_count = length nodes,
          cl_readable_count = length (filter (\<lambda>n. sc_can_read (cn_calendar n)) nodes),
          cl_default_calendar_key = sc_calendar_key (cn_calendar d), cl_synthetic = True\<rparr>))"

definition read_fixture_calendar ::
  "OutlookMockFixture \<Rightarrow> string \<Rightarrow> OutlookReadinessReport \<Rightarrow> SyntheticCalendar list option \<Rightarrow> CalendarNode result" where
  "read_fixture_calendar f calendar_key r calendars = (let catalog = calendars_or_default calendars in
     checked ([trimmed_check ''calendar_key'' calendar_key, synthetic_check ''OUT-020'' f, ready_check r]
       @ calendar_catalog_checks catalog)
     (case find_key sc_calendar_key calendar_key catalog of
        None \<Rightarrow> Inl (value_error ''synthetic calendar_key not found'')
      | Some c \<Rightarrow> Inr (project_calendar c)))"

subsection \<open>Events\<close>

definition MIN_DAY_OFFSET :: int where "MIN_DAY_OFFSET = -3650"
definition MAX_DAY_OFFSET :: int where "MAX_DAY_OFFSET = 3650"
definition MINUTES_PER_DAY :: int where "MINUTES_PER_DAY = 1440"
definition MAX_DURATION_MINUTES :: int where "MAX_DURATION_MINUTES = 60 * 24 * 30"
definition MAX_PAGE_SIZE :: int where "MAX_PAGE_SIZE = 100"

datatype EventShowAs = SHOW_FREE | SHOW_TENTATIVE | SHOW_BUSY | SHOW_OUT_OF_OFFICE
datatype EventSensitivity = SENSITIVITY_NORMAL | SENSITIVITY_PRIVATE

record SyntheticEvent =
  ev_event_key :: string
  ev_calendar_key :: string
  ev_subject :: string
  ev_start_day_offset :: int
  ev_start_minute_of_day :: int
  ev_duration_minutes :: int
  ev_is_all_day :: bool
  ev_is_cancelled :: bool
  ev_is_recurring_instance :: bool
  ev_show_as :: EventShowAs
  ev_sensitivity :: EventSensitivity

definition event_check :: "SyntheticEvent \<Rightarrow> exn option" where
  "event_check e = first_error [
     token_check ''event_key'' (ev_event_key e),
     token_check ''calendar_key'' (ev_calendar_key e),
     raise_if (\<not> trimmed (ev_subject e)) (value_error ''subject must be non-empty''),
     raise_if (\<not> (MIN_DAY_OFFSET \<le> ev_start_day_offset e \<and> ev_start_day_offset e \<le> MAX_DAY_OFFSET))
       (value_error ''start_day_offset exceeds the bounded day-offset window''),
     raise_if (\<not> (0 \<le> ev_start_minute_of_day e \<and> ev_start_minute_of_day e < MINUTES_PER_DAY))
       (value_error ''start_minute_of_day must fall inside a single day''),
     raise_if (\<not> (1 \<le> ev_duration_minutes e \<and> ev_duration_minutes e \<le> MAX_DURATION_MINUTES))
       (value_error ''duration_minutes exceeds the bounded duration window''),
     raise_if (ev_is_all_day e \<and> ev_start_minute_of_day e \<noteq> 0)
       (value_error ''an all-day event must start at minute zero''),
     raise_if (ev_is_all_day e \<and> ev_duration_minutes e mod MINUTES_PER_DAY \<noteq> 0)
       (value_error ''an all-day event must span whole days'')]"

text \<open>A projection is the event with its derived end.\<close>

record EventProjection =
  ep_event :: SyntheticEvent
  ep_end_day_offset :: int
  ep_end_minute_of_day :: int
  ep_synthetic :: bool

definition project_event :: "SyntheticEvent \<Rightarrow> EventProjection" where
  "project_event e = (let absolute_end = ev_start_minute_of_day e + ev_duration_minutes e in
     \<lparr>ep_event = e, ep_end_day_offset = ev_start_day_offset e + absolute_end div MINUTES_PER_DAY,
      ep_end_minute_of_day = absolute_end mod MINUTES_PER_DAY, ep_synthetic = True\<rparr>)"

record EventSearchRequest =
  es_query :: "string option"
  es_calendar_key :: "string option"
  es_show_as :: "EventShowAs option"
  es_include_cancelled :: bool
  es_from_day_offset :: "int option"
  es_to_day_offset :: "int option"
  es_offset :: int
  es_limit :: int

definition query_checks :: "string option \<Rightarrow> exn option list" where
  "query_checks q = (case q of None \<Rightarrow> [] | Some s \<Rightarrow>
     [raise_if (strip s = []) (value_error ''query must not be empty when supplied''),
      raise_if (200 < length (strip s)) (value_error ''query must be at most 200 characters'')])"

definition day_window_check :: "string \<Rightarrow> int option \<Rightarrow> exn option" where
  "day_window_check name v = (case v of None \<Rightarrow> None | Some d \<Rightarrow>
     raise_if (\<not> (MIN_DAY_OFFSET \<le> d \<and> d \<le> MAX_DAY_OFFSET))
       (value_error (name @ '' exceeds the bounded day-offset window'')))"

definition page_checks :: "int \<Rightarrow> int \<Rightarrow> exn option list" where
  "page_checks offset limit = [
     raise_if (offset < 0) (value_error ''offset must be non-negative''),
     raise_if (\<not> (1 \<le> limit \<and> limit \<le> MAX_PAGE_SIZE)) (value_error ''limit must be between 1 and 100'')]"

definition search_request_check :: "EventSearchRequest \<Rightarrow> exn option" where
  "search_request_check q = first_error (query_checks (es_query q) @
     [optional_token ''calendar_key'' (es_calendar_key q),
      day_window_check ''from_day_offset'' (es_from_day_offset q),
      day_window_check ''to_day_offset'' (es_to_day_offset q),
      raise_if (case (es_from_day_offset q, es_to_day_offset q) of (Some a, Some b) \<Rightarrow> b < a | _ \<Rightarrow> False)
        (value_error ''from_day_offset must not exceed to_day_offset'')]
     @ page_checks (es_offset q) (es_limit q))"

record EventSearchResult =
  er_items :: "EventProjection list"
  er_offset :: int
  er_limit :: int
  er_total_matching :: nat
  er_has_more :: bool
  er_synthetic :: bool

definition default_synthetic_events :: "SyntheticEvent list" where
  "default_synthetic_events = [
     \<lparr>ev_event_key = ''evt-001'', ev_calendar_key = ''cal-primary'', ev_subject = ''Synthetic planning session'',
      ev_start_day_offset = 0, ev_start_minute_of_day = 540, ev_duration_minutes = 60, ev_is_all_day = False,
      ev_is_cancelled = False, ev_is_recurring_instance = False, ev_show_as = SHOW_BUSY,
      ev_sensitivity = SENSITIVITY_NORMAL\<rparr>,
     \<lparr>ev_event_key = ''evt-002'', ev_calendar_key = ''cal-primary'', ev_subject = ''Synthetic focus block'',
      ev_start_day_offset = 1, ev_start_minute_of_day = 0, ev_duration_minutes = MINUTES_PER_DAY, ev_is_all_day = True,
      ev_is_cancelled = False, ev_is_recurring_instance = False, ev_show_as = SHOW_OUT_OF_OFFICE,
      ev_sensitivity = SENSITIVITY_NORMAL\<rparr>,
     \<lparr>ev_event_key = ''evt-003'', ev_calendar_key = ''cal-team'', ev_subject = ''Synthetic team sync'',
      ev_start_day_offset = 2, ev_start_minute_of_day = 600, ev_duration_minutes = 30, ev_is_all_day = False,
      ev_is_cancelled = False, ev_is_recurring_instance = True, ev_show_as = SHOW_TENTATIVE,
      ev_sensitivity = SENSITIVITY_NORMAL\<rparr>,
     \<lparr>ev_event_key = ''evt-004'', ev_calendar_key = ''cal-team'', ev_subject = ''Synthetic cancelled review'',
      ev_start_day_offset = 3, ev_start_minute_of_day = 660, ev_duration_minutes = 45, ev_is_all_day = False,
      ev_is_cancelled = True, ev_is_recurring_instance = False, ev_show_as = SHOW_FREE,
      ev_sensitivity = SENSITIVITY_NORMAL\<rparr>]"

definition event_catalog_checks :: "SyntheticEvent list \<Rightarrow> SyntheticCalendar list \<Rightarrow> exn option list" where
  "event_catalog_checks es cs = [
     raise_if (500 < length es) (value_error ''event catalog exceeds bounded size''),
     raise_if (\<not> distinct_keys ev_event_key es) (value_error ''event catalog keys must be unique per event_key''),
     raise_if (list_ex (\<lambda>e. ev_calendar_key e \<notin> sc_calendar_key ` set cs) es)
       (value_error ''event references unknown synthetic calendar_key'')]"

definition events_or_default :: "SyntheticEvent list option \<Rightarrow> SyntheticEvent list" where
  "events_or_default es = (case es of None \<Rightarrow> default_synthetic_events | Some xs \<Rightarrow> xs)"

definition prepare_events ::
  "OutlookMockFixture \<Rightarrow> OutlookReadinessReport \<Rightarrow> SyntheticEvent list option \<Rightarrow> SyntheticCalendar list option \<Rightarrow>
   SyntheticEvent list result" where
  "prepare_events f r events calendars = (let cs = calendars_or_default calendars; es = events_or_default events in
     checked [synthetic_check ''OUT-021'' f, ready_check r]
     (bindE (list_fixture_calendars f r (Some cs)) (\<lambda>_.
        checked (event_catalog_checks es cs) (Inr es))))"

definition event_matches :: "EventSearchRequest \<Rightarrow> SyntheticEvent \<Rightarrow> bool" where
  "event_matches q e \<longleftrightarrow>
     (case es_query q of None \<Rightarrow> True | Some s \<Rightarrow> sublist (casefold (strip s)) (casefold (ev_subject e))) \<and>
     (case es_calendar_key q of None \<Rightarrow> True | Some k \<Rightarrow> ev_calendar_key e = k) \<and>
     (case es_show_as q of None \<Rightarrow> True | Some s \<Rightarrow> ev_show_as e = s) \<and>
     (es_include_cancelled q \<or> \<not> ev_is_cancelled e) \<and>
     (case es_from_day_offset q of None \<Rightarrow> True | Some d \<Rightarrow> d \<le> ev_start_day_offset e) \<and>
     (case es_to_day_offset q of None \<Rightarrow> True | Some d \<Rightarrow> ev_start_day_offset e \<le> d)"

definition event_order :: "SyntheticEvent \<Rightarrow> int \<times> int \<times> string" where
  "event_order e = (ev_start_day_offset e, ev_start_minute_of_day e, ev_event_key e)"

definition search_fixture_events ::
  "OutlookMockFixture \<Rightarrow> EventSearchRequest \<Rightarrow> OutlookReadinessReport \<Rightarrow> SyntheticEvent list option \<Rightarrow>
   SyntheticCalendar list option \<Rightarrow> EventSearchResult result" where
  "search_fixture_events f q r events calendars =
     bindE (prepare_events f r events calendars) (\<lambda>catalog.
     checked [(case es_calendar_key q of None \<Rightarrow> None | Some k \<Rightarrow>
         raise_if (k \<notin> sc_calendar_key ` set (calendars_or_default calendars))
           (value_error ''unknown synthetic calendar_key''))]
     (let ordered = sort_key event_order (filter (event_matches q) catalog);
          page = py_slice (es_offset q) (es_offset q + es_limit q) ordered
      in Inr \<lparr>er_items = map project_event page, er_offset = es_offset q, er_limit = es_limit q,
          er_total_matching = length ordered,
          er_has_more = es_offset q + int (length page) < int (length ordered), er_synthetic = True\<rparr>))"

definition listing_request :: "string option \<Rightarrow> EventSearchRequest" where
  "listing_request calendar_key = \<lparr>es_query = None, es_calendar_key = calendar_key, es_show_as = None,
     es_include_cancelled = False, es_from_day_offset = None, es_to_day_offset = None, es_offset = 0,
     es_limit = MAX_PAGE_SIZE\<rparr>"

definition list_fixture_events ::
  "OutlookMockFixture \<Rightarrow> OutlookReadinessReport \<Rightarrow> string option \<Rightarrow> SyntheticEvent list option \<Rightarrow>
   SyntheticCalendar list option \<Rightarrow> EventSearchResult result" where
  "list_fixture_events f r calendar_key events calendars =
     bindE (construct search_request_check (listing_request calendar_key)) (\<lambda>q.
       search_fixture_events f q r events calendars)"

definition get_fixture_event ::
  "OutlookMockFixture \<Rightarrow> string \<Rightarrow> OutlookReadinessReport \<Rightarrow> SyntheticEvent list option \<Rightarrow>
   SyntheticCalendar list option \<Rightarrow> EventProjection result" where
  "get_fixture_event f event_key r events calendars =
     checked [trimmed_check ''event_key'' event_key]
     (bindE (prepare_events f r events calendars) (\<lambda>catalog.
        case find_key ev_event_key event_key catalog of
          None \<Rightarrow> Inl (value_error ''synthetic event_key not found'')
        | Some e \<Rightarrow> Inr (project_event e)))"

text \<open>Minutes since the start of day zero.\<close>

definition absolute :: "int \<Rightarrow> int \<Rightarrow> int" where
  "absolute day_offset minute_of_day = day_offset * MINUTES_PER_DAY + minute_of_day"

subsection \<open>Ends of events\<close>

lemma event_check_None: "event_check e = None \<longleftrightarrow>
    \<not> bad_token (ev_event_key e) \<and> \<not> bad_token (ev_calendar_key e) \<and> trimmed (ev_subject e) \<and>
    -3650 \<le> ev_start_day_offset e \<and> ev_start_day_offset e \<le> 3650 \<and>
    0 \<le> ev_start_minute_of_day e \<and> ev_start_minute_of_day e < 1440 \<and>
    1 \<le> ev_duration_minutes e \<and> ev_duration_minutes e \<le> 43200 \<and>
    (ev_is_all_day e \<longrightarrow> ev_start_minute_of_day e = 0 \<and> ev_duration_minutes e mod 1440 = 0)"
  by (auto simp: event_check_def checks first_error.simps(1) MIN_DAY_OFFSET_def MAX_DAY_OFFSET_def MINUTES_PER_DAY_def
      MAX_DURATION_MINUTES_def)

definition event_start :: "SyntheticEvent \<Rightarrow> int" where
  "event_start e = absolute (ev_start_day_offset e) (ev_start_minute_of_day e)"

lemma project_end: "absolute (ep_end_day_offset (project_event e)) (ep_end_minute_of_day (project_event e)) =
    event_start e + ev_duration_minutes e"
  using div_mult_mod_eq [of "ev_start_minute_of_day e + ev_duration_minutes e" 1440]
  by (simp add: project_event_def Let_def absolute_def event_start_def MINUTES_PER_DAY_def algebra_simps)

text \<open>C31. The derived end of a valid event lies inside a day, exactly the duration after its start, at most
  thirty days after the last start the window allows; an all-day event ends at minute zero.\<close>

theorem event_end_bounds:
  "case event_check e of
     Some x \<Rightarrow> True
   | None \<Rightarrow> (let p = project_event e in
       0 \<le> ep_end_minute_of_day p \<and> ep_end_minute_of_day p < MINUTES_PER_DAY \<and>
       absolute (ep_end_day_offset p) (ep_end_minute_of_day p) = event_start e + ev_duration_minutes e \<and>
       ev_start_day_offset e \<le> ep_end_day_offset p \<and> ep_end_day_offset p \<le> ev_start_day_offset e + 30 \<and>
       (if ev_is_all_day e then ep_end_minute_of_day p = 0 \<and> ev_start_day_offset e < ep_end_day_offset p else True))"
proof (cases "event_check e")
  case None
  let ?d = "ev_start_minute_of_day e + ev_duration_minutes e"
  from None have b: "0 \<le> ev_start_minute_of_day e" "ev_start_minute_of_day e < 1440" "1 \<le> ev_duration_minutes e"
    "ev_duration_minutes e \<le> 43200" by (simp_all add: event_check_None)
  then have "0 \<le> ?d div 1440" "?d div 1440 \<le> 30" by simp_all
  moreover have "?d mod 1440 = 0 \<and> 1 \<le> ?d div 1440" if "ev_is_all_day e"
    using that None by (auto simp: event_check_None)
  ultimately show ?thesis
    using None project_end [of e] by (auto simp: Let_def project_event_def MINUTES_PER_DAY_def)
qed simp

subsection \<open>Searching\<close>

definition event_catalog_ok :: "OutlookMockFixture \<Rightarrow> OutlookReadinessReport \<Rightarrow> SyntheticEvent list option \<Rightarrow>
    SyntheticCalendar list option \<Rightarrow> bool" where
  "event_catalog_ok f r events calendars \<longleftrightarrow> fx_synthetic f \<and> ready_for_readonly_discovery r \<and>
     first_error (calendar_catalog_checks (calendars_or_default calendars)) = None \<and>
     first_error (event_catalog_checks (events_or_default events) (calendars_or_default calendars)) = None"

lemma calendar_listed:
  "(\<exists>x. list_fixture_calendars f r calendars = Inr x) \<longleftrightarrow>
     fx_synthetic f \<and> ready_for_readonly_discovery r \<and> first_error (calendar_catalog_checks (calendars_or_default calendars)) = None"
proof -
  let ?cs = "calendars_or_default calendars"
  have found: "find (\<lambda>n. sc_is_default_view (cn_calendar n)) (map project_calendar ?cs) \<noteq> None"
    if "first_error (calendar_catalog_checks ?cs) = None"
  proof -
    from that have "length (filter sc_is_default_view ?cs) = 1" by (simp add: calendar_catalog_checks_def checks)
    then obtain c where "c \<in> set (filter sc_is_default_view ?cs)"
      by (metis length_0_conv list.set_intros(1) neq_Nil_conv zero_neq_one)
    then show ?thesis by (auto simp: find_None_iff project_calendar_def)
  qed
  show ?thesis
  proof (cases "first_error (calendar_catalog_checks ?cs)")
    case None
    with found show ?thesis
      by (auto simp: list_fixture_calendars_def Let_def checked_Inr_iff first_error_append first_error_Cons_None
          gate_None first_error.simps(1))
  next
    case (Some e)
    then show ?thesis
      by (auto simp: list_fixture_calendars_def Let_def checked_Inr_iff first_error_append first_error_Cons_None)
  qed
qed

lemma prepare_exact:
  "prepare_events f r events calendars = Inr es \<longleftrightarrow>
     event_catalog_ok f r events calendars \<and> es = events_or_default events"
proof -
  have "calendars_or_default (Some (calendars_or_default calendars)) = calendars_or_default calendars"
    by (simp add: calendars_or_default_def)
  then show ?thesis
    using calendar_listed [of f r "Some (calendars_or_default calendars)"]
    by (auto simp: prepare_events_def Let_def checks bindE_Inr_iff event_catalog_ok_def first_error.simps(1))
qed

definition matching_events :: "EventSearchRequest \<Rightarrow> SyntheticEvent list \<Rightarrow> SyntheticEvent list" where
  "matching_events q es = sort_key event_order (filter (event_matches q) es)"

definition known_calendar :: "EventSearchRequest \<Rightarrow> SyntheticCalendar list option \<Rightarrow> bool" where
  "known_calendar q calendars \<longleftrightarrow>
     (case es_calendar_key q of None \<Rightarrow> True | Some k \<Rightarrow> k \<in> sc_calendar_key ` set (calendars_or_default calendars))"

lemma search_request_page: "search_request_check q = None \<Longrightarrow> 0 \<le> es_offset q \<and> 1 \<le> es_limit q \<and> es_limit q \<le> 100"
  by (simp add: search_request_check_def page_checks_def checks MAX_PAGE_SIZE_def)

lemma search_exact:
  assumes "search_request_check q = None"
  shows "search_fixture_events f q r events calendars = Inr x \<longleftrightarrow>
     event_catalog_ok f r events calendars \<and> known_calendar q calendars \<and>
     (let ordered = matching_events q (events_or_default events);
          page = take (nat (es_limit q)) (drop (nat (es_offset q)) ordered) in
      x = \<lparr>er_items = map project_event page, er_offset = es_offset q, er_limit = es_limit q,
          er_total_matching = length ordered, er_has_more = (nat (es_offset q) + length page < length ordered),
          er_synthetic = True\<rparr>)"
proof -
  from search_request_page [OF assms] have b: "0 \<le> es_offset q" "0 \<le> es_limit q" by simp_all
  then have "(es_offset q + int n < int m) = (nat (es_offset q) + n < m)" for n m by linarith
  then show ?thesis
    unfolding search_fixture_events_def bindE_Inr_iff prepare_exact Let_def py_slice_page [OF b]
    by (auto simp: checked_Inr_iff checks first_error.simps(1) known_calendar_def matching_events_def split: option.splits)
qed

lemma distinct_order: "distinct_keys ev_event_key es \<Longrightarrow> distinct (map event_order es)"
  by (auto simp: distinct_keys_def distinct_map inj_on_def event_order_def)

lemma matching_sorted:
  assumes "distinct_keys ev_event_key es"
  shows "sorted_wrt (<) (map event_order (matching_events q es))"
    "set (matching_events q es) = {e \<in> set es. event_matches q e}"
proof -
  have "distinct (map event_order (matching_events q es))"
    using distinct_order [OF assms] by (simp add: matching_events_def distinct_map inj_on_def)
  moreover have "sorted (map event_order (matching_events q es))" by (simp add: matching_events_def)
  ultimately show "sorted_wrt (<) (map event_order (matching_events q es))" by (simp add: strict_sorted_iff)
qed (simp add: matching_events_def)

text \<open>A valid search succeeds exactly when the mailbox is synthetic and ready, both catalogues are valid and
  the calendar asked for exists. It answers with the requested page of the matching events, which are exactly
  those of the catalogue that satisfy every given condition, strictly ordered by start and key; and the
  pages of one request, taken at successive offsets, give every matching event once.\<close>

theorem event_search_exact:
  "case search_request_check q of
     Some e \<Rightarrow> True
   | None \<Rightarrow> (let ordered = matching_events q (events_or_default events) in
       (case search_fixture_events f q r events calendars of
          Inl e \<Rightarrow> (event_catalog_ok f r events calendars \<and> known_calendar q calendars) = False
        | Inr x \<Rightarrow> event_catalog_ok f r events calendars \<and> known_calendar q calendars \<and>
            map ep_event (er_items x) = take (nat (es_limit q)) (drop (nat (es_offset q)) ordered) \<and>
            er_total_matching x = length ordered \<and>
            er_has_more x = (nat (es_offset q) + length (er_items x) < length ordered) \<and>
            sorted_wrt (<) (map event_order ordered) \<and>
            set ordered = {e \<in> set (events_or_default events). event_matches q e} \<and>
            concat (map (\<lambda>i. take (nat (es_limit q)) (drop (i * nat (es_limit q)) ordered)) [0..<length ordered]) = ordered))"
proof (cases "search_request_check q")
  case None
  let ?o = "matching_events q (events_or_default events)" and ?n = "nat (es_limit q)"
  from search_request_page [OF None] have n: "0 < ?n" by simp
  then have pages: "concat (map (\<lambda>i. take ?n (drop (i * ?n) ?o)) [0..<length ?o]) = ?o"
    using concat_pages [OF n, of ?o "length ?o"] n by (simp add: Suc_le_eq)
  have projected: "map ep_event (map project_event es) = es" for es
    by (induction es) (simp_all add: project_event_def Let_def)
  show ?thesis
  proof (cases "search_fixture_events f q r events calendars")
    case (Inl e)
    then have "search_fixture_events f q r events calendars \<noteq> Inr x" for x by simp
    with None Inl search_exact [OF None, of f r events calendars] show ?thesis by (auto simp: Let_def)
  next
    case (Inr x)
    from Inr search_exact [OF None, of f r events calendars x]
    have x: "event_catalog_ok f r events calendars" "known_calendar q calendars"
      "er_items x = map project_event (take ?n (drop (nat (es_offset q)) ?o))" "er_total_matching x = length ?o"
      "er_has_more x = (nat (es_offset q) + length (er_items x) < length ?o)"
      by (simp_all add: Let_def)
    from x(1) have d: "distinct_keys ev_event_key (events_or_default events)"
      by (simp add: event_catalog_ok_def event_catalog_checks_def checks)
    from None Inr x projected pages matching_sorted [OF d, of q] show ?thesis by (simp add: Let_def)
  qed
qed simp

end
