(* ===== verification/Outlook_Scheduling.thy ===== *)
theory Outlook_Scheduling
  imports Outlook_Calendar
begin

text \<open>
  What the calendar reads are used for: free/busy slots (\<open>availability_reads.py\<close>), the scheduling grid of
  several participants (\<open>scheduling_assistant.py\<close>) and the search for common slots
  (\<open>common_slot_search.py\<close>). Each composes the one before it, and asks its gates again.

  The results: the slots cut the window without gap or overlap; what a free slot, a feasible column and a
  common slot mean for the events of the catalogue, against a reference search over the columns of the
  window; and that a catalogue of more than a hundred events is read only in part.
\<close>

subsection \<open>Availability\<close>

datatype AvailabilityState = AVAIL_FREE | AVAIL_TENTATIVE | AVAIL_BUSY | AVAIL_OUT_OF_OFFICE

fun state_rank :: "AvailabilityState \<Rightarrow> nat" where
  "state_rank AVAIL_FREE = 0"
| "state_rank AVAIL_TENTATIVE = 1"
| "state_rank AVAIL_BUSY = 2"
| "state_rank AVAIL_OUT_OF_OFFICE = 3"

fun show_as_state :: "EventShowAs \<Rightarrow> AvailabilityState" where
  "show_as_state SHOW_FREE = AVAIL_FREE"
| "show_as_state SHOW_TENTATIVE = AVAIL_TENTATIVE"
| "show_as_state SHOW_BUSY = AVAIL_BUSY"
| "show_as_state SHOW_OUT_OF_OFFICE = AVAIL_OUT_OF_OFFICE"

record AvailabilityWindow =
  aw_from_day_offset :: int
  aw_to_day_offset :: int
  aw_day_start_minute :: int
  aw_day_end_minute :: int
  aw_slot_minutes :: int

definition window_check :: "AvailabilityWindow \<Rightarrow> exn option" where
  "window_check w = first_error [
     day_window_check ''from_day_offset'' (Some (aw_from_day_offset w)),
     day_window_check ''to_day_offset'' (Some (aw_to_day_offset w)),
     raise_if (aw_to_day_offset w < aw_from_day_offset w)
       (value_error ''from_day_offset must not exceed to_day_offset''),
     raise_if (31 < aw_to_day_offset w - aw_from_day_offset w + 1)
       (value_error ''availability window exceeds the bounded day count''),
     raise_if (\<not> (0 \<le> aw_day_start_minute w \<and> aw_day_start_minute w < MINUTES_PER_DAY))
       (value_error ''day_start_minute must fall inside a single day''),
     raise_if (\<not> (0 < aw_day_end_minute w \<and> aw_day_end_minute w \<le> MINUTES_PER_DAY))
       (value_error ''day_end_minute must fall inside a single day''),
     raise_if (aw_day_end_minute w \<le> aw_day_start_minute w)
       (value_error ''day_start_minute must precede day_end_minute''),
     raise_if (aw_slot_minutes w < 5) (value_error ''slot_minutes must be at least 5''),
     raise_if (aw_day_end_minute w - aw_day_start_minute w < aw_slot_minutes w)
       (value_error ''slot_minutes must not exceed the daily window span''),
     raise_if ((aw_day_end_minute w - aw_day_start_minute w) mod aw_slot_minutes w \<noteq> 0)
       (value_error ''daily window span must be a whole multiple of slot_minutes'')]"

record AvailabilitySlot =
  as_day_offset :: int
  as_start_minute_of_day :: int
  as_end_minute_of_day :: int
  as_state :: AvailabilityState
  as_overlapping_event_count :: nat
  as_synthetic :: bool

record AvailabilityResult =
  av_slots :: "AvailabilitySlot list"
  av_calendar_key :: "string option"
  av_slot_count :: nat
  av_free_slot_count :: nat
  av_busy_slot_count :: nat
  av_synthetic :: bool

type_synonym busy_interval = "int \<times> int \<times> AvailabilityState"

definition interval_of :: "EventProjection \<Rightarrow> busy_interval" where
  "interval_of p = (let e = ep_event p in
     (absolute (ev_start_day_offset e) (ev_start_minute_of_day e),
      absolute (ep_end_day_offset p) (ep_end_minute_of_day p), show_as_state (ev_show_as e)))"

text \<open>The \<open>while\<close> loop over the minutes of a day. A window has positive slots.\<close>

function slot_starts :: "int \<Rightarrow> int \<Rightarrow> int \<Rightarrow> int list" where
  "slot_starts minute day_end step =
     (if minute < day_end \<and> 0 < step then minute # slot_starts (minute + step) day_end step else [])"
  by pat_completeness auto
termination
  by (relation "measure (\<lambda>(minute, day_end, step). nat (day_end - minute))") auto

declare slot_starts.simps [simp del]

definition strongest_state :: "AvailabilityState list \<Rightarrow> AvailabilityState" where
  "strongest_state ss = (case ss of [] \<Rightarrow> AVAIL_FREE | s # rest \<Rightarrow> max_by state_rank s rest)"

definition availability_slot :: "busy_interval list \<Rightarrow> int \<Rightarrow> int \<Rightarrow> int \<Rightarrow> AvailabilitySlot" where
  "availability_slot intervals step day minute = (let slot_start = absolute day minute; slot_end = slot_start + step;
       overlapping = map (\<lambda>(a, b, s). s) (filter (\<lambda>(a, b, s). a < slot_end \<and> slot_start < b) intervals) in
     \<lparr>as_day_offset = day, as_start_minute_of_day = minute, as_end_minute_of_day = minute + step,
      as_state = strongest_state (filter (\<lambda>s. s \<noteq> AVAIL_FREE) overlapping),
      as_overlapping_event_count = length overlapping, as_synthetic = True\<rparr>)"

definition availability_slots :: "busy_interval list \<Rightarrow> AvailabilityWindow \<Rightarrow> AvailabilitySlot list" where
  "availability_slots intervals w = concat (map (\<lambda>day. map (availability_slot intervals (aw_slot_minutes w) day)
     (slot_starts (aw_day_start_minute w) (aw_day_end_minute w) (aw_slot_minutes w)))
     [aw_from_day_offset w..aw_to_day_offset w])"

definition read_fixture_availability ::
  "OutlookMockFixture \<Rightarrow> AvailabilityWindow \<Rightarrow> OutlookReadinessReport \<Rightarrow> string option \<Rightarrow> SyntheticEvent list option \<Rightarrow>
   SyntheticCalendar list option \<Rightarrow> AvailabilityResult result" where
  "read_fixture_availability f w r calendar_key events calendars =
     bindE (list_fixture_events f r calendar_key events calendars) (\<lambda>listing.
     let slots = availability_slots (map interval_of (er_items listing)) w in
     Inr \<lparr>av_slots = slots, av_calendar_key = calendar_key, av_slot_count = length slots,
       av_free_slot_count = length (filter (\<lambda>s. as_state s = AVAIL_FREE) slots),
       av_busy_slot_count = length (filter (\<lambda>s. as_state s \<noteq> AVAIL_FREE) slots), av_synthetic = True\<rparr>)"

subsection \<open>The scheduling grid\<close>

datatype ParticipantRole = ORGANIZER | REQUIRED | OPTIONAL
datatype SlotFeasibility = ALL_FREE | REQUIRED_FREE | CONFLICTED

record SyntheticParticipant =
  sp_participant_key :: string
  sp_role :: ParticipantRole
  sp_calendar_key :: "string option"

definition participant_check :: "SyntheticParticipant \<Rightarrow> exn option" where
  "participant_check p = first_error [
     token_check ''participant_key'' (sp_participant_key p),
     optional_token ''calendar_key'' (sp_calendar_key p),
     raise_if (CHR ''@'' \<in> set (sp_participant_key p))
       (value_error ''participant_key must not encode an address identity'')]"

record ParticipantGridRow =
  gr_participant_key :: string
  gr_role :: ParticipantRole
  gr_calendar_key :: "string option"
  gr_states :: "AvailabilityState list"
  gr_busy_slot_count :: nat
  gr_synthetic :: bool

record SchedulingSlot =
  ss_day_offset :: int
  ss_start_minute_of_day :: int
  ss_end_minute_of_day :: int
  ss_feasibility :: SlotFeasibility
  ss_free_participant_count :: nat
  ss_conflicted_participant_count :: nat
  ss_synthetic :: bool

record SchedulingGrid =
  sg_rows :: "ParticipantGridRow list"
  sg_slots :: "SchedulingSlot list"
  sg_participant_count :: nat
  sg_slot_count :: nat
  sg_all_free_slot_count :: nat
  sg_required_free_slot_count :: nat
  sg_synthetic :: bool

definition default_synthetic_participants :: "SyntheticParticipant list" where
  "default_synthetic_participants = [
     \<lparr>sp_participant_key = ''participant-organizer'', sp_role = ORGANIZER, sp_calendar_key = Some ''cal-primary''\<rparr>,
     \<lparr>sp_participant_key = ''participant-required'', sp_role = REQUIRED, sp_calendar_key = Some ''cal-team''\<rparr>]"

definition participant_catalog_checks :: "SyntheticParticipant list \<Rightarrow> exn option list" where
  "participant_catalog_checks ps = [
     raise_if (ps = []) (value_error ''participant catalog must not be empty''),
     raise_if (50 < length ps) (value_error ''participant catalog exceeds bounded size''),
     raise_if (\<not> distinct_keys sp_participant_key ps)
       (value_error ''participant catalog keys must be unique per participant_key''),
     raise_if (length (filter (\<lambda>p. sp_role p = ORGANIZER) ps) \<noteq> 1)
       (value_error ''participant catalog requires exactly one ORGANIZER'')]"

definition participants_or_default :: "SyntheticParticipant list option \<Rightarrow> SyntheticParticipant list" where
  "participants_or_default ps = (case ps of None \<Rightarrow> default_synthetic_participants | Some xs \<Rightarrow> xs)"

definition grid_row :: "SyntheticParticipant \<Rightarrow> AvailabilityResult \<Rightarrow> ParticipantGridRow" where
  "grid_row p a = \<lparr>gr_participant_key = sp_participant_key p, gr_role = sp_role p,
     gr_calendar_key = sp_calendar_key p, gr_states = map as_state (av_slots a),
     gr_busy_slot_count = av_busy_slot_count a, gr_synthetic = True\<rparr>"

definition slot_column :: "AvailabilitySlot \<Rightarrow> int \<times> int \<times> int" where
  "slot_column s = (as_day_offset s, as_start_minute_of_day s, as_end_minute_of_day s)"

text \<open>The columns are those of the first participant with any slot.\<close>

fun first_columns :: "AvailabilityResult list \<Rightarrow> (int \<times> int \<times> int) list" where
  "first_columns [] = []"
| "first_columns (a # as) = (if av_slots a = [] then first_columns as else map slot_column (av_slots a))"

definition feasibility_of :: "(ParticipantRole \<times> AvailabilityState) list \<Rightarrow> SlotFeasibility" where
  "feasibility_of column = (let conflicted = filter (\<lambda>(role, s). s \<noteq> AVAIL_FREE) column in
     if conflicted = [] then ALL_FREE
     else if filter (\<lambda>(role, s). role \<noteq> OPTIONAL) conflicted = [] then REQUIRED_FREE else CONFLICTED)"

definition scheduling_slot :: "ParticipantGridRow list \<Rightarrow> nat \<Rightarrow> int \<times> int \<times> int \<Rightarrow> SchedulingSlot" where
  "scheduling_slot rows index c = (case c of (day, a, b) \<Rightarrow>
     (let column = map (\<lambda>row. (gr_role row, gr_states row ! index)) rows in
     \<lparr>ss_day_offset = day, ss_start_minute_of_day = a, ss_end_minute_of_day = b,
      ss_feasibility = feasibility_of column,
      ss_free_participant_count = length (filter (\<lambda>(role, s). s = AVAIL_FREE) column),
      ss_conflicted_participant_count = length (filter (\<lambda>(role, s). s \<noteq> AVAIL_FREE) column), ss_synthetic = True\<rparr>))"

definition read_fixture_scheduling_grid ::
  "OutlookMockFixture \<Rightarrow> AvailabilityWindow \<Rightarrow> OutlookReadinessReport \<Rightarrow> SyntheticParticipant list option \<Rightarrow>
   SyntheticEvent list option \<Rightarrow> SyntheticCalendar list option \<Rightarrow> SchedulingGrid result" where
  "read_fixture_scheduling_grid f w r participants events calendars = (let catalog = participants_or_default participants in
     checked (participant_catalog_checks catalog)
     (bindE (mapE (\<lambda>p. read_fixture_availability f w r (sp_calendar_key p) events calendars) catalog) (\<lambda>availability.
      let rows = map2 grid_row catalog availability; columns = first_columns availability;
          slots = map (\<lambda>(i, c). scheduling_slot rows i c) (enumerate 0 columns) in
      Inr \<lparr>sg_rows = rows, sg_slots = slots, sg_participant_count = length rows, sg_slot_count = length slots,
        sg_all_free_slot_count = length (filter (\<lambda>s. ss_feasibility s = ALL_FREE) slots),
        sg_required_free_slot_count = length (filter (\<lambda>s. ss_feasibility s \<in> {ALL_FREE, REQUIRED_FREE}) slots),
        sg_synthetic = True\<rparr>)))"

subsection \<open>Common slots\<close>

datatype CommonSlotRequirement = REQUIRE_ALL_FREE | REQUIRE_REQUIRED_FREE

record CommonSlotRequest =
  cs_requirement :: CommonSlotRequirement
  cs_max_results :: int

definition common_slot_request_check :: "CommonSlotRequest \<Rightarrow> exn option" where
  "common_slot_request_check q = raise_if (cs_max_results q \<le> 0 \<or> 50 < cs_max_results q)
     (value_error ''max_results must be a bounded positive count'')"

record CommonSlotResult =
  cr_candidates :: "SchedulingSlot list"
  cr_evaluated_slot_count :: nat
  cr_matching_slot_count :: nat
  cr_requirement :: CommonSlotRequirement
  cr_has_more :: bool
  cr_synthetic :: bool

fun slot_matches :: "SlotFeasibility \<Rightarrow> CommonSlotRequirement \<Rightarrow> bool" where
  "slot_matches x REQUIRE_ALL_FREE = (x = ALL_FREE)"
| "slot_matches x REQUIRE_REQUIRED_FREE = (x \<in> {ALL_FREE, REQUIRED_FREE})"

text \<open>A candidate has the fields of its grid slot, marked synthetic.\<close>

definition candidate_from_grid_slot :: "SchedulingSlot \<Rightarrow> SchedulingSlot" where
  "candidate_from_grid_slot s = s\<lparr>ss_synthetic := True\<rparr>"

definition find_fixture_common_slots ::
  "OutlookMockFixture \<Rightarrow> AvailabilityWindow \<Rightarrow> CommonSlotRequest \<Rightarrow> OutlookReadinessReport \<Rightarrow>
   SyntheticParticipant list option \<Rightarrow> SyntheticEvent list option \<Rightarrow> SyntheticCalendar list option \<Rightarrow> CommonSlotResult result" where
  "find_fixture_common_slots f w q r participants events calendars =
     bindE (read_fixture_scheduling_grid f w r participants events calendars) (\<lambda>grid.
     let matching = map candidate_from_grid_slot (filter (\<lambda>s. slot_matches (ss_feasibility s) (cs_requirement q)) (sg_slots grid));
         ordered = sort_key (\<lambda>s. (ss_day_offset s, ss_start_minute_of_day s)) matching;
         selected = py_slice 0 (cs_max_results q) ordered in
     Inr \<lparr>cr_candidates = selected, cr_evaluated_slot_count = sg_slot_count grid,
       cr_matching_slot_count = length ordered, cr_requirement = cs_requirement q,
       cr_has_more = (length selected < length ordered), cr_synthetic = True\<rparr>)"

subsection \<open>Free and busy\<close>

lemma window_check_None: "window_check w = None \<longleftrightarrow>
    -3650 \<le> aw_from_day_offset w \<and> aw_to_day_offset w \<le> 3650 \<and> aw_from_day_offset w \<le> aw_to_day_offset w \<and>
    aw_to_day_offset w - aw_from_day_offset w + 1 \<le> 31 \<and> 0 \<le> aw_day_start_minute w \<and>
    aw_day_end_minute w \<le> 1440 \<and> aw_day_start_minute w < aw_day_end_minute w \<and> 5 \<le> aw_slot_minutes w \<and>
    aw_slot_minutes w \<le> aw_day_end_minute w - aw_day_start_minute w \<and>
    (aw_day_end_minute w - aw_day_start_minute w) mod aw_slot_minutes w = 0"
  by (auto simp: window_check_def day_window_check_def checks first_error.simps(1) MIN_DAY_OFFSET_def MAX_DAY_OFFSET_def
      MINUTES_PER_DAY_def)

lemma slot_starts_exact: "0 < step \<Longrightarrow> slot_starts m (m + int n * step) step = map (\<lambda>i. m + int i * step) [0..<n]"
proof (induction n arbitrary: m)
  case 0
  then show ?case by (simp add: slot_starts.simps)
next
  case (Suc n)
  have "slot_starts m (m + int (Suc n) * step) step = m # slot_starts (m + step) (m + step + int n * step) step"
    using Suc.prems by (subst slot_starts.simps) (simp add: algebra_simps add_pos_nonneg)
  also have "\<dots> = m # map (\<lambda>i. m + step + int i * step) [0..<n]" using Suc by simp
  also have "\<dots> = map (\<lambda>i. m + int i * step) [0..<Suc n]"
    unfolding upt_conv_Cons [OF zero_less_Suc] map_Suc_upt [symmetric] by (simp add: algebra_simps)
  finally show ?case .
qed

definition slots_per_day :: "AvailabilityWindow \<Rightarrow> nat" where
  "slots_per_day w = nat ((aw_day_end_minute w - aw_day_start_minute w) div aw_slot_minutes w)"

text \<open>The start of the \<open>i\<close>-th slot of a day.\<close>

definition nth_start :: "AvailabilityWindow \<Rightarrow> nat \<Rightarrow> int" where
  "nth_start w i = aw_day_start_minute w + int i * aw_slot_minutes w"

lemma window_starts:
  assumes "window_check w = None"
  shows "slot_starts (aw_day_start_minute w) (aw_day_end_minute w) (aw_slot_minutes w) =
     map (nth_start w) [0..<slots_per_day w]" "nth_start w (slots_per_day w) = aw_day_end_minute w" "0 < slots_per_day w"
proof -
  let ?s = "aw_slot_minutes w" and ?span = "aw_day_end_minute w - aw_day_start_minute w"
  from assms have s: "0 < ?s" "?s \<le> ?span" "?span mod ?s = 0" by (simp_all add: window_check_None)
  then have "0 < ?span div ?s" by (simp add: pos_imp_zdiv_pos_iff)
  moreover from s have "?span div ?s * ?s = ?span" by (simp add: minus_mod_eq_div_mult [symmetric])
  ultimately show e: "nth_start w (slots_per_day w) = aw_day_end_minute w" "0 < slots_per_day w"
    by (simp_all add: nth_start_def slots_per_day_def)
  have "slot_starts (aw_day_start_minute w) (nth_start w (slots_per_day w)) ?s = map (nth_start w) [0..<slots_per_day w]"
    unfolding nth_start_def by (rule slot_starts_exact [OF s(1)])
  then show "slot_starts (aw_day_start_minute w) (aw_day_end_minute w) ?s = map (nth_start w) [0..<slots_per_day w]"
    by (simp add: e)
qed

text \<open>An event blocks an interval when it is not shown as free and overlaps it.\<close>

definition event_blocks :: "int \<Rightarrow> int \<Rightarrow> SyntheticEvent \<Rightarrow> bool" where
  "event_blocks a b e \<longleftrightarrow> ev_show_as e \<noteq> SHOW_FREE \<and> event_start e < b \<and> a < event_start e + ev_duration_minutes e"

lemma show_as_free: "show_as_state s = AVAIL_FREE \<longleftrightarrow> s = SHOW_FREE"
  by (cases s) simp_all

lemma interval_of_event: "interval_of (project_event e) =
    (event_start e, event_start e + ev_duration_minutes e, show_as_state (ev_show_as e))"
  using project_end [of e] by (simp add: interval_of_def event_start_def project_event_def Let_def)

text \<open>The strongest state: free when there is none, else one of them with the greatest rank.\<close>

lemma strongest_exact: "strongest_state ss \<in> insert AVAIL_FREE (set ss) \<and> (\<forall>s \<in> set ss. state_rank s \<le> state_rank (strongest_state ss))"
proof (cases ss)
  case (Cons s rest)
  with max_by_in [of state_rank s rest] max_by_ge [of _ s rest state_rank] show ?thesis
    by (auto simp: strongest_state_def)
qed (simp add: strongest_state_def)

lemma rank_zero: "state_rank s = 0 \<longleftrightarrow> s = AVAIL_FREE"
  by (cases s) simp_all

lemma none_stronger:
  assumes "\<forall>t \<in> set ss. state_rank t \<le> state_rank AVAIL_FREE" "AVAIL_FREE \<notin> set ss"
  shows "ss = []"
  using assms by (cases ss) (auto simp: rank_zero)

lemma slot_state:
  assumes "s = availability_slot (map (interval_of \<circ> project_event) es) step day minute"
  shows "as_state s = AVAIL_FREE \<longleftrightarrow> \<not> list_ex (event_blocks (absolute day minute) (absolute day minute + step)) es"
    "list_all (\<lambda>e. if event_blocks (absolute day minute) (absolute day minute + step) e
       then state_rank (show_as_state (ev_show_as e)) \<le> state_rank (as_state s) else True) es"
proof -
  let ?a = "absolute day minute" and ?b = "absolute day minute + step"
  let ?hit = "filter (\<lambda>(a, b, s). a < ?b \<and> ?a < b) (map (interval_of \<circ> project_event) es)"
  let ?ss = "filter (\<lambda>s. s \<noteq> AVAIL_FREE) (map (\<lambda>(a, b, s). s) ?hit)"
  have st: "as_state s = strongest_state ?ss" using assms by (simp add: availability_slot_def Let_def)
  have set: "set ?ss = (\<lambda>e. show_as_state (ev_show_as e)) ` {e \<in> set es. event_blocks ?a ?b e}"
    by (auto simp: interval_of_event event_blocks_def show_as_free image_iff)
  from strongest_exact [of ?ss] have mem: "as_state s \<in> insert AVAIL_FREE (set ?ss)"
    and ge: "\<forall>t \<in> set ?ss. state_rank t \<le> state_rank (as_state s)" by (simp_all add: st)
  show "list_all (\<lambda>e. if event_blocks ?a ?b e then state_rank (show_as_state (ev_show_as e)) \<le> state_rank (as_state s) else True) es"
    using ge unfolding set by (auto simp: list_all_iff)
  have free: "AVAIL_FREE \<notin> set ?ss" by simp
  show "as_state s = AVAIL_FREE \<longleftrightarrow> \<not> list_ex (event_blocks ?a ?b) es"
  proof
    assume "as_state s = AVAIL_FREE"
    with ge have "\<forall>t \<in> set ?ss. state_rank t \<le> state_rank AVAIL_FREE" by simp
    from none_stronger [OF this free] have "set ?ss = {}" by simp
    then show "\<not> list_ex (event_blocks ?a ?b) es" unfolding set by (auto simp: list_ex_iff)
  next
    assume "\<not> list_ex (event_blocks ?a ?b) es"
    then have none: "set ?ss = {}" unfolding set by (auto simp: list_ex_iff)
    from mem [unfolded none] show "as_state s = AVAIL_FREE" by simp
  qed
qed

text \<open>The events a calendar read looks at: the first page of the listing.\<close>

definition considered_events :: "string option \<Rightarrow> SyntheticEvent list option \<Rightarrow> SyntheticEvent list" where
  "considered_events k events = take 100 (matching_events (listing_request k) (events_or_default events))"

definition calendar_readable :: "OutlookMockFixture \<Rightarrow> OutlookReadinessReport \<Rightarrow> string option \<Rightarrow> SyntheticEvent list option \<Rightarrow>
    SyntheticCalendar list option \<Rightarrow> bool" where
  "calendar_readable f r k events calendars \<longleftrightarrow> event_catalog_ok f r events calendars \<and>
     known_calendar (listing_request k) calendars \<and> (case k of None \<Rightarrow> True | Some s \<Rightarrow> \<not> bad_token s)"

lemma listing_check: "search_request_check (listing_request k) = None \<longleftrightarrow> (case k of None \<Rightarrow> True | Some s \<Rightarrow> \<not> bad_token s)"
  by (simp add: search_request_check_def listing_request_def query_checks_def page_checks_def day_window_check_def
      checks first_error.simps(1) MAX_PAGE_SIZE_def)

lemma availability_read:
  "read_fixture_availability f w r k events calendars = Inr x \<longleftrightarrow> calendar_readable f r k events calendars \<and>
     (let slots = availability_slots (map (interval_of \<circ> project_event) (considered_events k events)) w in
      x = \<lparr>av_slots = slots, av_calendar_key = k, av_slot_count = length slots,
       av_free_slot_count = length (filter (\<lambda>s. as_state s = AVAIL_FREE) slots),
       av_busy_slot_count = length (filter (\<lambda>s. as_state s \<noteq> AVAIL_FREE) slots), av_synthetic = True\<rparr>)"
proof (cases "search_request_check (listing_request k)")
  case None
  have page: "nat (es_limit (listing_request k)) = 100" "nat (es_offset (listing_request k)) = 0"
    by (simp_all add: listing_request_def MAX_PAGE_SIZE_def)
  have "list_fixture_events f r k events calendars = search_fixture_events f (listing_request k) r events calendars"
    by (simp add: list_fixture_events_def construct_def None)
  then show ?thesis
    using None listing_check [of k]
    by (auto simp: read_fixture_availability_def bindE_Inr_iff search_exact [OF None] Let_def page calendar_readable_def
        considered_events_def)
next
  case (Some e)
  then show ?thesis using listing_check [of k]
    by (auto simp: read_fixture_availability_def list_fixture_events_def construct_def bindE_Inr_iff calendar_readable_def)
qed

lemma availability_keys:
  assumes "window_check w = None"
  shows "map slot_column (availability_slots intervals w) =
     concat (map (\<lambda>day. map (\<lambda>i. (day, nth_start w i, nth_start w (Suc i))) [0..<slots_per_day w])
       [aw_from_day_offset w..aw_to_day_offset w])"
proof -
  have next_start: "nth_start w i + aw_slot_minutes w = nth_start w (Suc i)" for i
    by (simp add: nth_start_def algebra_simps)
  show ?thesis
    by (simp add: availability_slots_def map_concat comp_def window_starts(1) [OF assms] slot_column_def
        availability_slot_def Let_def next_start)
qed

definition day_count :: "AvailabilityWindow \<Rightarrow> nat" where
  "day_count w = nat (aw_to_day_offset w - aw_from_day_offset w + 1)"

lemma availability_length:
  assumes "window_check w = None"
  shows "length (availability_slots intervals w) = day_count w * slots_per_day w"
proof -
  have "length (availability_slots intervals w) = length (map slot_column (availability_slots intervals w))" by simp
  also have "\<dots> = day_count w * slots_per_day w"
    unfolding availability_keys [OF assms]
    by (simp add: length_concat comp_def sum_list_triv day_count_def)
  finally show ?thesis .
qed

lemma availability_states:
  "list_all (\<lambda>s. (as_state s = AVAIL_FREE) = (\<not> list_ex (event_blocks (absolute (as_day_offset s) (as_start_minute_of_day s))
       (absolute (as_day_offset s) (as_end_minute_of_day s))) es))
     (availability_slots (map (interval_of \<circ> project_event) es) w)"
proof -
  have "(as_state s = AVAIL_FREE) = (\<not> list_ex (event_blocks (absolute (as_day_offset s) (as_start_minute_of_day s))
       (absolute (as_day_offset s) (as_end_minute_of_day s))) es)"
    if "s = availability_slot (map (interval_of \<circ> project_event) es) (aw_slot_minutes w) day m" for s day m
  proof -
    have "as_day_offset s = day" "as_start_minute_of_day s = m"
      "absolute day (as_end_minute_of_day s) = absolute day m + aw_slot_minutes w"
      by (simp_all add: that availability_slot_def Let_def absolute_def)
    with slot_state(1) [OF that] show ?thesis by simp
  qed
  then show ?thesis by (auto simp: list_all_iff availability_slots_def)
qed

lemma filter_parts: "length (filter P xs) + length (filter (\<lambda>x. \<not> P x) xs) = length xs"
  by (rule sum_length_filter_compl)

text \<open>C29. For a valid window the read succeeds exactly when the mailbox is ready, the catalogues are valid and
  the calendar exists. Its slots cut every day of the window, from its first to its last minute, without gap
  or overlap; every slot is counted as free or busy; and a slot is free exactly when none of the first hundred
  events of the listing, other than those shown as free, overlaps it. With at most a hundred events in the
  listing this speaks about every event that is not cancelled.\<close>

theorem availability_exact:
  "case window_check w of
     Some e \<Rightarrow> True
   | None \<Rightarrow> (case read_fixture_availability f w r k events calendars of
       Inl e \<Rightarrow> calendar_readable f r k events calendars = False
     | Inr x \<Rightarrow> calendar_readable f r k events calendars \<and>
        map slot_column (av_slots x) =
          concat (map (\<lambda>day. map (\<lambda>i. (day, nth_start w i, nth_start w (Suc i))) [0..<slots_per_day w])
            [aw_from_day_offset w..aw_to_day_offset w]) \<and>
        nth_start w 0 = aw_day_start_minute w \<and> nth_start w (slots_per_day w) = aw_day_end_minute w \<and>
        0 < slots_per_day w \<and> length (av_slots x) = day_count w * slots_per_day w \<and>
        av_slot_count x = length (av_slots x) \<and> av_free_slot_count x + av_busy_slot_count x = av_slot_count x \<and>
        list_all (\<lambda>s. (as_state s = AVAIL_FREE) =
          (\<not> list_ex (event_blocks (absolute (as_day_offset s) (as_start_minute_of_day s))
             (absolute (as_day_offset s) (as_end_minute_of_day s))) (considered_events k events))) (av_slots x) \<and>
        (if length (matching_events (listing_request k) (events_or_default events)) \<le> 100
         then set (considered_events k events) = {e \<in> set (events_or_default events).
           \<not> ev_is_cancelled e \<and> (case k of None \<Rightarrow> True | Some c \<Rightarrow> ev_calendar_key e = c)} else True))"
proof (cases "window_check w")
  case None
  show ?thesis
  proof (cases "read_fixture_availability f w r k events calendars")
    case (Inl e)
    with availability_read [of f w r k events calendars] have "\<not> calendar_readable f r k events calendars"
      unfolding Let_def by auto
    with None Inl show ?thesis by simp
  next
    case (Inr x)
    let ?slots = "availability_slots (map (interval_of \<circ> project_event) (considered_events k events)) w"
    from Inr have x: "calendar_readable f r k events calendars" "av_slots x = ?slots" "av_slot_count x = length ?slots"
      "av_free_slot_count x + av_busy_slot_count x = length ?slots"
      by (simp_all add: availability_read Let_def filter_parts)
    have all: "length (matching_events (listing_request k) (events_or_default events)) \<le> 100 \<Longrightarrow>
        set (considered_events k events) = {e \<in> set (events_or_default events).
           \<not> ev_is_cancelled e \<and> (case k of None \<Rightarrow> True | Some c \<Rightarrow> ev_calendar_key e = c)}"
      by (auto simp: considered_events_def matching_events_def event_matches_def listing_request_def split: option.splits)
    have "nth_start w 0 = aw_day_start_minute w" by (simp add: nth_start_def)
    with None Inr x all availability_keys [OF None] availability_length [OF None] window_starts [OF None]
      availability_states [of "considered_events k events" w] show ?thesis by simp
  qed
qed simp

subsection \<open>Beyond the first page\<close>

text \<open>A hundred and one events of an hour, one a day, in the order of the listing.\<close>

definition daily_event :: "nat \<Rightarrow> SyntheticEvent" where
  "daily_event i = \<lparr>ev_event_key = replicate (Suc i) (CHR ''e''), ev_calendar_key = ''cal-primary'', ev_subject = ''Synthetic'',
     ev_start_day_offset = int i, ev_start_minute_of_day = 540, ev_duration_minutes = 60, ev_is_all_day = False,
     ev_is_cancelled = False, ev_is_recurring_instance = False, ev_show_as = SHOW_BUSY,
     ev_sensitivity = SENSITIVITY_NORMAL\<rparr>"

definition last_day_window :: AvailabilityWindow where
  "last_day_window = \<lparr>aw_from_day_offset = 100, aw_to_day_offset = 100, aw_day_start_minute = 0,
     aw_day_end_minute = 1440, aw_slot_minutes = 1440\<rparr>"

lemma daily_matching: "matching_events (listing_request None) (map daily_event [0..<n]) = map daily_event [0..<n]"
proof -
  have all: "filter (event_matches (listing_request None)) (map daily_event [0..<n]) = map daily_event [0..<n]"
    by (simp add: filter_id_conv event_matches_def listing_request_def daily_event_def)
  have "sorted (map event_order (map daily_event [0..<n]))"
    by (auto simp: sorted_iff_nth_mono_less event_order_def daily_event_def)
  then show ?thesis unfolding matching_events_def all by (rule sort_key_id_if_sorted)
qed

lemma slot_report:
  assumes "calendar_readable f r None events None" "considered_events None events = es"
    "as_state (availability_slot (map (interval_of \<circ> project_event) es) 1440 100 0) = s"
  shows "case read_fixture_availability f last_day_window r None events None of
       Inl e \<Rightarrow> False
     | Inr x \<Rightarrow> map (\<lambda>s. (slot_column s, as_state s)) (av_slots x) = [((100, 0, 1440), s)]"
proof -
  have days: "slot_starts 0 1440 1440 = [0]" by (simp add: slot_starts.simps)
  have slots: "map (\<lambda>s. (slot_column s, as_state s)) (availability_slots xs last_day_window) =
      [((100, 0, 1440), as_state (availability_slot xs 1440 100 0))]" for xs
    by (simp add: availability_slots_def last_day_window_def days slot_column_def availability_slot_def Let_def)
  let ?r = "read_fixture_availability f last_day_window r None events None"
  from assms(1) availability_read [of f last_day_window r None events None] obtain x where x: "?r = Inr x"
    unfolding Let_def by blast
  with assms availability_read [of f last_day_window r None events None x] slots show ?thesis by (simp add: Let_def)
qed

text \<open>C30. The free/busy read looks at the first hundred events only. With a valid catalogue of a hundred and one
  events, the last of which lies on the hundredth day, that day is reported as one free slot although the event
  overlaps it; the same read of a catalogue of that event alone reports the day as busy.\<close>

theorem availability_misses_later_events:
  "if fx_synthetic f \<and> ready_for_readonly_discovery r
   then (case read_fixture_availability f last_day_window r None (Some (map daily_event [0..<101])) None of
       Inl e \<Rightarrow> False
     | Inr x \<Rightarrow> map (\<lambda>s. (slot_column s, as_state s)) (av_slots x) = [((100, 0, 1440), AVAIL_FREE)]) \<and>
     (case read_fixture_availability f last_day_window r None (Some [daily_event 100]) None of
       Inl e \<Rightarrow> False
     | Inr x \<Rightarrow> map (\<lambda>s. (slot_column s, as_state s)) (av_slots x) = [((100, 0, 1440), AVAIL_BUSY)]) \<and>
     event_blocks (absolute 100 0) (absolute 100 1440) (daily_event 100) \<and>
     window_check last_day_window = None \<and> list_all (\<lambda>i. event_check (daily_event i) = None) [0..<101]
   else True"
proof (cases "fx_synthetic f \<and> ready_for_readonly_discovery r")
  case True
  have w: "window_check last_day_window = None" by (simp add: window_check_None last_day_window_def)
  have cal: "first_error (calendar_catalog_checks (calendars_or_default None)) = None"
    by (simp add: calendar_catalog_checks_def calendars_or_default_def default_synthetic_calendars_def checks
        first_error.simps(1) distinct_keys_def)
  have "inj_on (ev_event_key \<circ> daily_event) (set [0..<101])" by (auto simp: inj_on_def daily_event_def)
  then have "distinct_keys ev_event_key (map daily_event [0..<101])"
    unfolding distinct_keys_def map_map distinct_map by simp
  then have cat: "first_error (event_catalog_checks (map daily_event [0..<101]) (calendars_or_default None)) = None"
    by (simp add: event_catalog_checks_def checks first_error.simps(1) calendars_or_default_def
        default_synthetic_calendars_def daily_event_def list_ex_iff del: upt_Suc)
  have one: "first_error (event_catalog_checks [daily_event 100] (calendars_or_default None)) = None"
    by (simp add: event_catalog_checks_def checks first_error.simps(1) calendars_or_default_def
        default_synthetic_calendars_def daily_event_def distinct_keys_def)
  have ok: "calendar_readable f r None (Some es) None"
    if "first_error (event_catalog_checks es (calendars_or_default None)) = None" for es
    using True cal that by (simp add: calendar_readable_def event_catalog_ok_def events_or_default_def known_calendar_def listing_request_def)
  have many: "considered_events None (Some (map daily_event [0..<101])) = map daily_event [0..<100]"
    by (simp add: considered_events_def events_or_default_def daily_matching take_map take_upt del: upt_Suc)
  have single: "considered_events None (Some [daily_event 100]) = [daily_event 100]"
    by (simp add: considered_events_def events_or_default_def matching_events_def event_matches_def listing_request_def daily_event_def)
  have free: "as_state (availability_slot (map (interval_of \<circ> project_event) (map daily_event [0..<100])) 1440 100 0) = AVAIL_FREE"
    unfolding slot_state(1) [OF refl]
    by (auto simp: list_ex_iff event_blocks_def event_start_def daily_event_def absolute_def MINUTES_PER_DAY_def)
  have busy: "as_state (availability_slot (map (interval_of \<circ> project_event) [daily_event 100]) 1440 100 0) = AVAIL_BUSY"
    by (simp add: availability_slot_def Let_def interval_of_event strongest_state_def daily_event_def absolute_def
        event_start_def MINUTES_PER_DAY_def)
  have texts: "\<not> bad_token ''cal-primary''" "trimmed ''Synthetic''" "\<not> is_space (CHR ''e'')" by code_simp+
  then have key: "\<not> bad_token (replicate (Suc i) (CHR ''e''))" for i
    using strip_no_space [of "replicate (Suc i) (CHR ''e'')"] by (simp add: bad_token_def has_space_def list_ex_iff)
  have valid: "event_check (daily_event i) = None" if "i < 101" for i
    using that texts key [of i] by (simp add: event_check_None daily_event_def)
  have blocks: "event_blocks (absolute 100 0) (absolute 100 1440) (daily_event 100)"
    by (simp add: event_blocks_def event_start_def daily_event_def absolute_def MINUTES_PER_DAY_def)
  have "list_all (\<lambda>i. event_check (daily_event i) = None) [0..<101]" using valid by (simp add: list_all_iff)
  moreover have "case read_fixture_availability f last_day_window r None (Some (map daily_event [0..<101])) None of
       Inl e \<Rightarrow> False
     | Inr x \<Rightarrow> map (\<lambda>s. (slot_column s, as_state s)) (av_slots x) = [((100, 0, 1440), AVAIL_FREE)]"
    by (rule slot_report [OF ok [OF cat] many free])
  moreover have "case read_fixture_availability f last_day_window r None (Some [daily_event 100]) None of
       Inl e \<Rightarrow> False
     | Inr x \<Rightarrow> map (\<lambda>s. (slot_column s, as_state s)) (av_slots x) = [((100, 0, 1440), AVAIL_BUSY)]"
    by (rule slot_report [OF ok [OF one] single busy])
  ultimately show ?thesis using w blocks by simp
next
  case False
  then show ?thesis by (simp only: if_False)
qed

subsection \<open>Scheduling\<close>

text \<open>The columns of a window, and those in which nobody who counts is blocked: the reference the grid and the
  search for common slots are compared with.\<close>

definition window_columns :: "AvailabilityWindow \<Rightarrow> (int \<times> int \<times> int) list" where
  "window_columns w = concat (map (\<lambda>day. map (\<lambda>i. (day, nth_start w i, nth_start w (Suc i))) [0..<slots_per_day w])
       [aw_from_day_offset w..aw_to_day_offset w])"

definition unblocked :: "SyntheticEvent list option \<Rightarrow> int \<times> int \<times> int \<Rightarrow> SyntheticParticipant \<Rightarrow> bool" where
  "unblocked events c p = (case c of (day, a, b) \<Rightarrow>
     \<not> list_ex (event_blocks (absolute day a) (absolute day b)) (considered_events (sp_calendar_key p) events))"

fun counts :: "CommonSlotRequirement \<Rightarrow> SyntheticParticipant \<Rightarrow> bool" where
  "counts REQUIRE_ALL_FREE p = True"
| "counts REQUIRE_REQUIRED_FREE p = (sp_role p \<noteq> OPTIONAL)"

definition common_columns :: "CommonSlotRequirement \<Rightarrow> SyntheticParticipant list \<Rightarrow> SyntheticEvent list option \<Rightarrow>
    AvailabilityWindow \<Rightarrow> (int \<times> int \<times> int) list" where
  "common_columns req ps events w = filter (\<lambda>c. list_all (unblocked events c) (filter (counts req) ps)) (window_columns w)"

text \<open>The state of a participant in a column, and the slot of a column.\<close>

definition state_in :: "SyntheticEvent list option \<Rightarrow> AvailabilityWindow \<Rightarrow> int \<times> int \<times> int \<Rightarrow> SyntheticParticipant \<Rightarrow> AvailabilityState" where
  "state_in events w c p = (case c of (day, a, b) \<Rightarrow> as_state (availability_slot
     (map (interval_of \<circ> project_event) (considered_events (sp_calendar_key p) events)) (aw_slot_minutes w) day a))"

definition column_slot :: "SyntheticParticipant list \<Rightarrow> SyntheticEvent list option \<Rightarrow> AvailabilityWindow \<Rightarrow> int \<times> int \<times> int \<Rightarrow> SchedulingSlot" where
  "column_slot ps events w c = (let column = map (\<lambda>p. (sp_role p, state_in events w c p)) ps in
     \<lparr>ss_day_offset = fst c, ss_start_minute_of_day = fst (snd c), ss_end_minute_of_day = snd (snd c),
      ss_feasibility = feasibility_of column,
      ss_free_participant_count = length (filter (\<lambda>(role, s). s = AVAIL_FREE) column),
      ss_conflicted_participant_count = length (filter (\<lambda>(role, s). s \<noteq> AVAIL_FREE) column), ss_synthetic = True\<rparr>)"

lemma state_unblocked:
  assumes "c \<in> set (window_columns w)"
  shows "state_in events w c p = AVAIL_FREE \<longleftrightarrow> unblocked events c p"
proof -
  obtain day a b where c: "c = (day, a, b)" by (cases c)
  with assms have "absolute day b = absolute day a + aw_slot_minutes w"
    by (auto simp: window_columns_def nth_start_def absolute_def algebra_simps)
  then show ?thesis using slot_state(1) [OF refl] by (simp add: c state_in_def unblocked_def)
qed

lemma feasible: "slot_matches (feasibility_of (map (\<lambda>p. (sp_role p, g p)) ps)) req \<longleftrightarrow>
    list_all (\<lambda>p. g p = AVAIL_FREE) (filter (counts req) ps)"
  by (cases req) (auto simp: feasibility_of_def Let_def filter_empty_conv list_all_iff)

lemma window_columns_sorted: "sorted (map (\<lambda>c. (fst c, fst (snd c))) (window_columns w))" if "window_check w = None"
proof -
  from that have step: "0 < aw_slot_minutes w" by (simp add: window_check_None)
  then have day: "sorted (map (\<lambda>i. (d, nth_start w i)) [0..<n])" for d :: int and n
    by (auto simp: sorted_iff_nth_mono_less nth_start_def)
  have "sorted (concat (map (\<lambda>d. map (\<lambda>i. (d, nth_start w i)) [0..<slots_per_day w]) ds))"
    if "sorted_wrt (<) ds" for ds :: "int list"
    using that by (induction ds) (auto simp: sorted_append day)
  then show ?thesis by (simp add: window_columns_def map_concat comp_def)
qed

lemma participant_slots:
  assumes "window_check w = None"
  shows "availability_slots intervals w = map (\<lambda>(day, a, b). availability_slot intervals (aw_slot_minutes w) day a) (window_columns w)"
  by (simp add: availability_slots_def window_columns_def map_concat comp_def window_starts(1) [OF assms])

lemma window_columns_some: "window_check w = None \<Longrightarrow> window_columns w \<noteq> []"
  using availability_length [of w "[]"] window_starts(3) [of w]
  by (auto simp: participant_slots day_count_def window_check_None)

definition grid_ready :: "OutlookMockFixture \<Rightarrow> OutlookReadinessReport \<Rightarrow> SyntheticParticipant list option \<Rightarrow>
    SyntheticEvent list option \<Rightarrow> SyntheticCalendar list option \<Rightarrow> bool" where
  "grid_ready f r participants events calendars \<longleftrightarrow>
     first_error (participant_catalog_checks (participants_or_default participants)) = None \<and>
     list_all (\<lambda>p. calendar_readable f r (sp_calendar_key p) events calendars) (participants_or_default participants)"

definition availability_of :: "AvailabilityWindow \<Rightarrow> SyntheticEvent list option \<Rightarrow> SyntheticParticipant \<Rightarrow> AvailabilityResult" where
  "availability_of w events p = (let slots = availability_slots (map (interval_of \<circ> project_event)
       (considered_events (sp_calendar_key p) events)) w in
     \<lparr>av_slots = slots, av_calendar_key = sp_calendar_key p, av_slot_count = length slots,
       av_free_slot_count = length (filter (\<lambda>s. as_state s = AVAIL_FREE) slots),
       av_busy_slot_count = length (filter (\<lambda>s. as_state s \<noteq> AVAIL_FREE) slots), av_synthetic = True\<rparr>)"

lemma list_all2_map: "list_all2 (\<lambda>x y. P x \<and> y = g x) xs ys \<longleftrightarrow> list_all P xs \<and> ys = map g xs"
  by (induction xs arbitrary: ys) (auto simp: list_all2_Cons1)

lemma availabilities:
  "mapE (\<lambda>p. read_fixture_availability f w r (sp_calendar_key p) events calendars) ps = Inr as \<longleftrightarrow>
     list_all (\<lambda>p. calendar_readable f r (sp_calendar_key p) events calendars) ps \<and> as = map (availability_of w events) ps"
  unfolding mapE_Inr_iff list_all2_map [symmetric] by (simp add: availability_read availability_of_def Let_def)

lemma columns_of_first:
  assumes w: "window_check w = None" and ps: "ps \<noteq> []"
  shows "first_columns (map (availability_of w events) ps) = window_columns w"
proof -
  obtain p rest where p: "ps = p # rest" using ps by (cases ps) auto
  have "map slot_column (av_slots (availability_of w events p)) = window_columns w"
    using availability_keys [OF w] by (simp add: availability_of_def Let_def window_columns_def)
  moreover from this have "av_slots (availability_of w events p) \<noteq> []" using window_columns_some [OF w] by auto
  ultimately show ?thesis by (simp add: p)
qed

lemma row_states:
  assumes "window_check w = None"
  shows "gr_states (grid_row p (availability_of w events p)) = map (\<lambda>c. state_in events w c p) (window_columns w)"
  by (simp add: grid_row_def availability_of_def Let_def participant_slots [OF assms] state_in_def comp_def split_beta)

lemma grid_slot:
  assumes w: "window_check w = None" and i: "i < length (window_columns w)"
  shows "scheduling_slot (map2 grid_row ps (map (availability_of w events) ps)) i (window_columns w ! i) =
     column_slot ps events w (window_columns w ! i)"
proof -
  have "map2 grid_row ps (map (availability_of w events) ps) = map (\<lambda>p. grid_row p (availability_of w events p)) ps"
    by (induction ps) simp_all
  then have "map (\<lambda>row. (gr_role row, gr_states row ! i)) (map2 grid_row ps (map (availability_of w events) ps)) =
      map (\<lambda>p. (sp_role p, state_in events w (window_columns w ! i) p)) ps"
    using i by (simp add: row_states [OF w]) (simp add: grid_row_def)
  then show ?thesis by (simp add: scheduling_slot_def column_slot_def Let_def split_beta)
qed

lemma grid_slots:
  assumes "window_check w = None"
  shows "map (\<lambda>(i, c). scheduling_slot (map2 grid_row ps (map (availability_of w events) ps)) i c) (enumerate 0 (window_columns w)) =
     map (column_slot ps events w) (window_columns w)"
  by (rule nth_equalityI) (simp_all add: nth_enumerate_eq grid_slot [OF assms])

lemma grid_exact:
  assumes w: "window_check w = None"
  shows "grid_ready f r participants events calendars \<Longrightarrow>
      \<exists>g. read_fixture_scheduling_grid f w r participants events calendars = Inr g"
    "read_fixture_scheduling_grid f w r participants events calendars = Inr g \<Longrightarrow>
      grid_ready f r participants events calendars \<and> sg_slot_count g = length (window_columns w) \<and>
      sg_slots g = map (column_slot (participants_or_default participants) events w) (window_columns w) \<and>
      map gr_states (sg_rows g) = map (\<lambda>p. map (\<lambda>c. state_in events w c p) (window_columns w)) (participants_or_default participants)"
proof -
  let ?ps = "participants_or_default participants"
  show "\<exists>g. read_fixture_scheduling_grid f w r participants events calendars = Inr g"
    if "grid_ready f r participants events calendars"
    using that by (simp add: read_fixture_scheduling_grid_def Let_def checks bindE_Inr_iff availabilities grid_ready_def)
  assume g: "read_fixture_scheduling_grid f w r participants events calendars = Inr g"
  then have ok: "grid_ready f r participants events calendars"
    by (auto simp: read_fixture_scheduling_grid_def Let_def checks bindE_Inr_iff availabilities grid_ready_def)
  then have "?ps \<noteq> []" by (auto simp: grid_ready_def participant_catalog_checks_def checks)
  note cols = columns_of_first [OF w this, of events]
  have rows: "map gr_states (map2 grid_row ps (map (availability_of w events) ps)) =
      map (\<lambda>p. map (\<lambda>c. state_in events w c p) (window_columns w)) ps" for ps
    by (induction ps) (simp_all add: row_states [OF w])
  from g ok cols rows [of ?ps] show "grid_ready f r participants events calendars \<and> sg_slot_count g = length (window_columns w) \<and>
      sg_slots g = map (column_slot ?ps events w) (window_columns w) \<and>
      map gr_states (sg_rows g) = map (\<lambda>p. map (\<lambda>c. state_in events w c p) (window_columns w)) ?ps"
    by (auto simp: read_fixture_scheduling_grid_def Let_def checks bindE_Inr_iff availabilities grid_slots [OF w])
qed

text \<open>The slot of a column is feasible for a requirement exactly when everybody who counts is unblocked.\<close>

lemma column_feasible:
  assumes "c \<in> set (window_columns w)"
  shows "slot_matches (ss_feasibility (column_slot ps events w c)) req \<longleftrightarrow> list_all (unblocked events c) (filter (counts req) ps)"
  by (simp add: column_slot_def Let_def feasible state_unblocked [OF assms])

definition slot_place :: "SchedulingSlot \<Rightarrow> int \<times> int \<times> int" where
  "slot_place s = (ss_day_offset s, ss_start_minute_of_day s, ss_end_minute_of_day s)"

lemma common_exact:
  fixes req :: CommonSlotRequirement
  assumes w: "window_check w = None" and g: "sg_slots g = map (column_slot ps events w) (window_columns w)"
  defines "matching \<equiv> map candidate_from_grid_slot (filter (\<lambda>s. slot_matches (ss_feasibility s) req) (sg_slots g))"
  shows "sort_key (\<lambda>s. (ss_day_offset s, ss_start_minute_of_day s)) matching = matching"
    "map slot_place matching = common_columns req ps events w"
proof -
  have keep: "filter (\<lambda>c. slot_matches (ss_feasibility (column_slot ps events w c)) req) (window_columns w) =
      common_columns req ps events w"
    unfolding common_columns_def by (rule filter_cong [OF refl column_feasible])
  have same: "candidate_from_grid_slot (column_slot ps events w c) = column_slot ps events w c" for c
    by (simp add: candidate_from_grid_slot_def column_slot_def Let_def)
  have m: "matching = map (column_slot ps events w) (common_columns req ps events w)"
    by (simp add: matching_def g filter_map comp_def keep same)
  then show "map slot_place matching = common_columns req ps events w"
    by (simp add: comp_def slot_place_def column_slot_def Let_def)
  have "sorted (map (\<lambda>c. (fst c, fst (snd c))) (common_columns req ps events w))"
    unfolding common_columns_def by (rule sorted_filter [OF window_columns_sorted [OF w]])
  then have "sorted (map (\<lambda>s. (ss_day_offset s, ss_start_minute_of_day s)) matching)"
    by (simp add: m comp_def column_slot_def Let_def)
  then show "sort_key (\<lambda>s. (ss_day_offset s, ss_start_minute_of_day s)) matching = matching" by (rule sort_key_id_if_sorted)
qed

text \<open>C22. The search for common slots, through the grid, the free/busy reads and the event search, against its
  reference: for a valid window and request it succeeds exactly when the participants are valid and every one
  of their calendars can be read; the candidates are the first of the columns of the window in which no
  considered event of a participant who counts overlaps - everybody, or everybody but the optional ones - in
  the order of their start; and the counts and the mark that there are more speak about all those columns.\<close>

theorem common_slots_exact:
  "case (window_check w, common_slot_request_check q) of
     (None, None) \<Rightarrow> (let ps = participants_or_default participants; n = nat (cs_max_results q);
         reference = common_columns (cs_requirement q) ps events w in
       case find_fixture_common_slots f w q r participants events calendars of
         Inl e \<Rightarrow> grid_ready f r participants events calendars = False
       | Inr x \<Rightarrow> grid_ready f r participants events calendars \<and> map slot_place (cr_candidates x) = take n reference \<and>
           cr_matching_slot_count x = length reference \<and> cr_evaluated_slot_count x = length (window_columns w) \<and>
           cr_has_more x = (n < length reference) \<and> length (cr_candidates x) \<le> 50 \<and>
           list_all (\<lambda>s. slot_matches (ss_feasibility s) (cs_requirement q)) (cr_candidates x))
   | _ \<Rightarrow> True"
proof (cases "window_check w = None \<and> common_slot_request_check q = None")
  case True
  then have w: "window_check w = None" and q: "0 < cs_max_results q" "cs_max_results q \<le> 50"
    by (simp_all add: common_slot_request_check_def checks)
  let ?ps = "participants_or_default participants"
  show ?thesis
  proof (cases "read_fixture_scheduling_grid f w r participants events calendars")
    case (Inl e)
    with grid_exact(1) [OF w, of f r participants events calendars] have "\<not> grid_ready f r participants events calendars" by auto
    with True Inl show ?thesis by (simp add: find_fixture_common_slots_def bindE_def)
  next
    case (Inr g)
    note g = grid_exact(2) [OF w Inr]
    let ?m = "map candidate_from_grid_slot (filter (\<lambda>s. slot_matches (ss_feasibility s) (cs_requirement q)) (sg_slots g))"
    from g have slots: "sg_slots g = map (column_slot ?ps events w) (window_columns w)" by simp
    note m = common_exact [OF w slots, of "cs_requirement q"]
    have len: "length ?m = length (common_columns (cs_requirement q) ?ps events w)"
      using arg_cong [OF m(2), of length] by simp
    have "list_all (\<lambda>s. slot_matches (ss_feasibility s) (cs_requirement q)) ?m"
      by (auto simp: list_all_iff candidate_from_grid_slot_def)
    then have sound: "list_all (\<lambda>s. slot_matches (ss_feasibility s) (cs_requirement q)) (take (nat (cs_max_results q)) ?m)"
      unfolding list_all_iff using set_take_subset by fast
    have x: "find_fixture_common_slots f w q r participants events calendars = Inr \<lparr>
       cr_candidates = take (nat (cs_max_results q)) ?m, cr_evaluated_slot_count = sg_slot_count g,
       cr_matching_slot_count = length ?m, cr_requirement = cs_requirement q,
       cr_has_more = (length (take (nat (cs_max_results q)) ?m) < length ?m), cr_synthetic = True\<rparr>"
      using q by (simp add: find_fixture_common_slots_def Inr bindE_def Let_def m(1) py_slice_first del: length_map length_take)
    have "map slot_place (take (nat (cs_max_results q)) ?m) = take (nat (cs_max_results q)) (common_columns (cs_requirement q) ?ps events w)"
      by (simp only: take_map [symmetric] m(2))
    moreover have "(min a b < a) = (b < a)" for a b :: nat by auto
    ultimately show ?thesis using True x g len sound q(2) by (simp add: Let_def)
  qed
next
  case False
  then show ?thesis by (auto split: option.splits)
qed

end
