(* ===== verification/Outlook_Mail.thy ===== *)
theory Outlook_Mail
  imports Outlook_Calendar
begin

text \<open>
  The mail reads of the Outlook application: the messages of a folder (\<open>message_list.py\<close>), one message
  (\<open>message_get.py\<close>), search (\<open>mail_search.py\<close>), conversations (\<open>conversation_reads.py\<close>) and the folder
  tree (\<open>folder_reads.py\<close>).

  The results: listing a folder is searching it; the depth of a folder is the length of its chain of parents,
  computed by a loop that always ends; a listing that succeeds is a forest of bounded depth; and the
  navigation, whose loop has no bound of its own, ends on every listing. That loop is a partial function, so
  that not returning is a value.
\<close>

subsection \<open>Listing, getting and searching\<close>

text \<open>The check of a key that a request object makes in two steps.\<close>

definition key_checks :: "string \<Rightarrow> string \<Rightarrow> exn option list" where
  "key_checks name v = [
     trimmed_check name v,
     raise_if (has_space v) (value_error (name @ '' must not contain whitespace''))]"

lemma key_checks_None [checks]: "first_error (key_checks name v) = None \<longleftrightarrow> \<not> bad_token v"
  using strip_no_space [of v] by (auto simp: key_checks_def checks bad_token_def trimmed_def first_error.simps(1))

record MessageListRequest =
  ml_folder_key :: string
  ml_offset :: int
  ml_limit :: int

definition message_list_check :: "MessageListRequest \<Rightarrow> exn option" where
  "message_list_check q = first_error (key_checks ''folder_key'' (ml_folder_key q) @ page_checks (ml_offset q) (ml_limit q))"

text \<open>An item has the fields of its message. The results of listing and searching share a record; only the
  listing carries the key of the folder.\<close>

record MailPage =
  mp_items :: "MockMessage list"
  mp_folder_key :: "string option"
  mp_offset :: int
  mp_limit :: int
  mp_total_matching :: nat
  mp_has_more :: bool
  mp_synthetic :: bool

definition mail_page :: "string option \<Rightarrow> int \<Rightarrow> int \<Rightarrow> MockMessage list \<Rightarrow> MailPage" where
  "mail_page folder offset limit matching = (let page = py_slice offset (offset + limit) matching in
     \<lparr>mp_items = page, mp_folder_key = folder, mp_offset = offset, mp_limit = limit,
      mp_total_matching = length matching, mp_has_more = (offset + int (length page) < int (length matching)),
      mp_synthetic = True\<rparr>)"

definition list_fixture_messages :: "OutlookMockFixture \<Rightarrow> MessageListRequest \<Rightarrow> OutlookReadinessReport \<Rightarrow> MailPage result" where
  "list_fixture_messages f q r =
     checked [synthetic_check ''OUT-010'' f, ready_check r,
       raise_if (ml_folder_key q \<notin> set (fx_folders f)) (value_error ''unknown synthetic folder_key'')]
     (Inr (mail_page (Some (ml_folder_key q)) (ml_offset q) (ml_limit q)
       (filter (\<lambda>m. mm_folder_key m = ml_folder_key q) (fx_messages f))))"

definition message_get_check :: "string \<Rightarrow> exn option" where
  "message_get_check key = first_error (key_checks ''message_key'' key)"

record MessageGetResult =
  mg_message :: MockMessage
  mg_synthetic :: bool

definition get_fixture_message :: "OutlookMockFixture \<Rightarrow> string \<Rightarrow> OutlookReadinessReport \<Rightarrow> MessageGetResult result" where
  "get_fixture_message f key r =
     checked [synthetic_check ''OUT-011'' f, ready_check r]
     (case find_key mm_message_key key (fx_messages f) of
        None \<Rightarrow> Inl (value_error ''synthetic message_key not found'')
      | Some m \<Rightarrow> Inr \<lparr>mg_message = m, mg_synthetic = True\<rparr>)"

record MailSearchRequest =
  ms_query :: "string option"
  ms_folder_key :: "string option"
  ms_is_read :: "bool option"
  ms_has_attachments :: "bool option"
  ms_offset :: int
  ms_limit :: int

definition mail_search_check :: "MailSearchRequest \<Rightarrow> exn option" where
  "mail_search_check q = first_error (query_checks (ms_query q) @
     (case ms_folder_key q of None \<Rightarrow> [] | Some k \<Rightarrow> key_checks ''folder_key'' k) @ page_checks (ms_offset q) (ms_limit q))"

definition mail_matches :: "MailSearchRequest \<Rightarrow> MockMessage \<Rightarrow> bool" where
  "mail_matches q m \<longleftrightarrow>
     (case ms_query q of None \<Rightarrow> True | Some s \<Rightarrow> sublist (casefold (strip s)) (casefold (mm_subject m))) \<and>
     (case ms_folder_key q of None \<Rightarrow> True | Some k \<Rightarrow> mm_folder_key m = k) \<and>
     (case ms_is_read q of None \<Rightarrow> True | Some b \<Rightarrow> mm_is_read m = b) \<and>
     (case ms_has_attachments q of None \<Rightarrow> True | Some b \<Rightarrow> mm_has_attachments m = b)"

definition search_fixture_messages :: "OutlookMockFixture \<Rightarrow> MailSearchRequest \<Rightarrow> OutlookReadinessReport \<Rightarrow> MailPage result" where
  "search_fixture_messages f q r =
     checked [synthetic_check ''OUT-012'' f, ready_check r,
       (case ms_folder_key q of None \<Rightarrow> None | Some k \<Rightarrow>
          raise_if (k \<notin> set (fx_folders f)) (value_error ''unknown synthetic folder_key''))]
     (Inr (mail_page None (ms_offset q) (ms_limit q) (filter (mail_matches q) (fx_messages f))))"

subsection \<open>Conversations\<close>

record SyntheticConversation =
  co_conversation_key :: string
  co_message_keys :: "string list"

definition conversation_check :: "SyntheticConversation \<Rightarrow> exn option" where
  "conversation_check c = first_error (key_checks ''conversation_key'' (co_conversation_key c) @
     [raise_if (co_message_keys c = [] \<or> \<not> distinct (co_message_keys c))
       (value_error ''conversation message_keys must be non-empty and unique'')])"

record ConversationReadResult =
  cv_conversation_key :: string
  cv_messages :: "MockMessage list"
  cv_message_count :: nat
  cv_synthetic :: bool

definition default_synthetic_conversations :: "SyntheticConversation list" where
  "default_synthetic_conversations = [
     \<lparr>co_conversation_key = ''thread-project-update'', co_message_keys = [''msg-001'']\<rparr>,
     \<lparr>co_conversation_key = ''thread-meeting-notes'', co_message_keys = [''msg-002'']\<rparr>]"

text \<open>The dictionary \<open>{m.message_key: m for m in \<dots>}\<close>: the last message of a key counts.\<close>

definition by_last :: "('a \<Rightarrow> string) \<Rightarrow> 'a list \<Rightarrow> string \<Rightarrow> 'a option" where
  "by_last key xs k = find_key key k (rev xs)"

text \<open>An empty tuple of conversations is replaced by the default, as an absent one.\<close>

definition read_fixture_conversation ::
  "OutlookMockFixture \<Rightarrow> string \<Rightarrow> OutlookReadinessReport \<Rightarrow> SyntheticConversation list option \<Rightarrow> ConversationReadResult result" where
  "read_fixture_conversation f conversation_key r conversations = (let
       catalog = (case conversations of None \<Rightarrow> default_synthetic_conversations
         | Some cs \<Rightarrow> (if cs = [] then default_synthetic_conversations else cs));
       by_key = by_last mm_message_key (fx_messages f) in
     checked [synthetic_check ''OUT-013'' f, ready_check r, trimmed_check ''conversation_key'' conversation_key,
       raise_if (\<not> distinct_keys co_conversation_key catalog) (value_error ''conversation catalog keys must be unique'')]
     (case find_key co_conversation_key conversation_key catalog of
        None \<Rightarrow> Inl (value_error ''synthetic conversation_key not found'')
      | Some c \<Rightarrow> checked [raise_if (list_ex (\<lambda>k. by_key k = None) (co_message_keys c))
            (value_error ''conversation references unknown synthetic message_key'')]
          (let messages = map (\<lambda>k. the (by_key k)) (co_message_keys c) in
           Inr \<lparr>cv_conversation_key = co_conversation_key c, cv_messages = messages,
             cv_message_count = length messages, cv_synthetic = True\<rparr>)))"

subsection \<open>Folders\<close>

definition MAX_FOLDER_DEPTH :: nat where "MAX_FOLDER_DEPTH = 8"
definition MAX_FOLDERS :: nat where "MAX_FOLDERS = 200"

record SyntheticFolder =
  sf_folder_key :: string
  sf_display_name :: string
  sf_parent_key :: "string option"

definition folder_check :: "SyntheticFolder \<Rightarrow> exn option" where
  "folder_check x = first_error [
     token_check ''folder_key'' (sf_folder_key x),
     optional_token ''parent_key'' (sf_parent_key x),
     raise_if (\<not> trimmed (sf_display_name x)) (value_error ''display_name must be non-empty''),
     raise_if (sf_parent_key x = Some (sf_folder_key x)) (value_error ''folder_key must not be its own parent_key'')]"

record FolderNode =
  fn_folder_key :: string
  fn_display_name :: string
  fn_parent_key :: "string option"
  fn_depth :: nat
  fn_child_count :: nat
  fn_message_count :: nat
  fn_unread_count :: nat

record FolderListResult =
  fl_folders :: "FolderNode list"
  fl_folder_count :: nat
  fl_max_depth :: nat
  fl_synthetic :: bool

record FolderNavigationResult =
  nv_folder :: FolderNode
  nv_ancestor_keys :: "string list"
  nv_child_keys :: "string list"
  nv_synthetic :: bool

definition default_synthetic_folders :: "SyntheticFolder list" where
  "default_synthetic_folders = [
     \<lparr>sf_folder_key = ''inbox'', sf_display_name = ''Inbox'', sf_parent_key = None\<rparr>,
     \<lparr>sf_folder_key = ''archive'', sf_display_name = ''Archive'', sf_parent_key = None\<rparr>,
     \<lparr>sf_folder_key = ''sent'', sf_display_name = ''Sent'', sf_parent_key = None\<rparr>]"

definition folder_catalog_checks :: "OutlookMockFixture \<Rightarrow> SyntheticFolder list \<Rightarrow> exn option list" where
  "folder_catalog_checks f catalog = [
     raise_if (catalog = []) (value_error ''folder catalog must not be empty''),
     raise_if (MAX_FOLDERS < length catalog) (value_error ''folder catalog exceeds bounded size''),
     raise_if (\<not> distinct_keys sf_folder_key catalog) (value_error ''folder catalog keys must be unique''),
     raise_if (sf_folder_key ` set catalog \<noteq> set (fx_folders f))
       (value_error ''folder catalog does not match synthetic fixture folders''),
     raise_if (list_ex (\<lambda>x. case sf_parent_key x of None \<Rightarrow> False | Some p \<Rightarrow> p \<notin> sf_folder_key ` set catalog) catalog)
       (value_error ''folder catalog references unknown parent_key'')]"

text \<open>The parents as a dictionary, \<open>None\<close> for a key it does not have.\<close>

definition parents_of :: "SyntheticFolder list \<Rightarrow> string \<Rightarrow> string option option" where
  "parents_of catalog k = map_option sf_parent_key (by_last sf_folder_key catalog k)"

text \<open>The loop of \<open>_depth_of\<close>. Its bound on the depth is what makes it end.\<close>

function depth_loop :: "(string \<Rightarrow> string option option) \<Rightarrow> string set \<Rightarrow> nat \<Rightarrow> string option \<Rightarrow> nat result" where
  "depth_loop parents seen depth current = (case current of
     None \<Rightarrow> Inr depth
   | Some c \<Rightarrow>
       if MAX_FOLDER_DEPTH < Suc depth then Inl (value_error ''folder hierarchy exceeds bounded depth'')
       else if c \<in> seen then Inl (value_error ''folder hierarchy must not contain a cycle'')
       else (case parents c of None \<Rightarrow> Inl KeyError | Some p \<Rightarrow> depth_loop parents (insert c seen) (Suc depth) p))"
  by pat_completeness auto
termination
  by (relation "measure (\<lambda>(parents, seen, depth, current). MAX_FOLDER_DEPTH - depth)") auto

declare depth_loop.simps [simp del]

definition depth_of :: "string \<Rightarrow> (string \<Rightarrow> string option option) \<Rightarrow> nat result" where
  "depth_of folder_key parents = (case parents folder_key of None \<Rightarrow> Inl KeyError
     | Some p \<Rightarrow> depth_loop parents {folder_key} 0 p)"

definition folder_node :: "OutlookMockFixture \<Rightarrow> SyntheticFolder list \<Rightarrow> SyntheticFolder \<Rightarrow> FolderNode result" where
  "folder_node f catalog x = (let messages = filter (\<lambda>m. mm_folder_key m = sf_folder_key x) (fx_messages f) in
     bindE (depth_of (sf_folder_key x) (parents_of catalog)) (\<lambda>depth.
     Inr \<lparr>fn_folder_key = sf_folder_key x, fn_display_name = sf_display_name x, fn_parent_key = sf_parent_key x,
       fn_depth = depth, fn_child_count = length (filter (\<lambda>y. sf_parent_key y = Some (sf_folder_key x)) catalog),
       fn_message_count = length messages, fn_unread_count = length (filter (\<lambda>m. \<not> mm_is_read m) messages)\<rparr>))"

definition list_fixture_folders ::
  "OutlookMockFixture \<Rightarrow> OutlookReadinessReport \<Rightarrow> SyntheticFolder list option \<Rightarrow> FolderListResult result" where
  "list_fixture_folders f r folders = (let
       catalog = (case folders of None \<Rightarrow> default_synthetic_folders | Some xs \<Rightarrow> xs) in
     checked ([synthetic_check ''OUT-016'' f, ready_check r] @ folder_catalog_checks f catalog)
     (bindE (mapE (folder_node f catalog) catalog) (\<lambda>nodes.
        Inr \<lparr>fl_folders = nodes, fl_folder_count = length nodes, fl_max_depth = foldr (max \<circ> fn_depth) nodes 0,
          fl_synthetic = True\<rparr>)))"

text \<open>The loop of the navigation follows the parents of the listed nodes; it has no bound.\<close>

partial_function (option) ancestors_loop :: "FolderNode list \<Rightarrow> string option \<Rightarrow> string list result option" where
  "ancestors_loop nodes current = (case current of
     None \<Rightarrow> Some (Inr [])
   | Some c \<Rightarrow> (case by_last fn_folder_key nodes c of
        None \<Rightarrow> Some (Inl KeyError)
      | Some n \<Rightarrow> Option.bind (ancestors_loop nodes (fn_parent_key n)) (\<lambda>rest. Some (bindE rest (\<lambda>ks. Inr (c # ks))))))"

definition navigate_fixture_folder ::
  "OutlookMockFixture \<Rightarrow> string \<Rightarrow> OutlookReadinessReport \<Rightarrow> SyntheticFolder list option \<Rightarrow> FolderNavigationResult result option" where
  "navigate_fixture_folder f folder_key r folders = (case trimmed_check ''folder_key'' folder_key of
     Some e \<Rightarrow> Some (Inl e)
   | None \<Rightarrow> (case list_fixture_folders f r folders of
       Inl e \<Rightarrow> Some (Inl e)
     | Inr listing \<Rightarrow> (case by_last fn_folder_key (fl_folders listing) folder_key of
         None \<Rightarrow> Some (Inl (value_error ''unknown synthetic folder_key''))
       | Some node \<Rightarrow> Option.bind (ancestors_loop (fl_folders listing) (fn_parent_key node)) (\<lambda>ancestors.
           Some (bindE ancestors (\<lambda>keys. Inr \<lparr>nv_folder = node, nv_ancestor_keys = keys,
             nv_child_keys = sort (map fn_folder_key (filter (\<lambda>n. fn_parent_key n = Some folder_key) (fl_folders listing))),
             nv_synthetic = True\<rparr>))))))"

subsection \<open>Chains of parents\<close>

text \<open>The reference for depth and ancestors: the chain of parents, with at most \<open>n\<close> steps.\<close>

fun path_up :: "(string \<Rightarrow> string option option) \<Rightarrow> nat \<Rightarrow> string option \<Rightarrow> string list option" where
  "path_up P n None = Some []"
| "path_up P 0 (Some c) = None"
| "path_up P (Suc n) (Some c) = (case P c of None \<Rightarrow> None | Some p \<Rightarrow> map_option ((#) c) (path_up P n p))"

fun parent_path :: "(string \<Rightarrow> string option option) \<Rightarrow> string option \<Rightarrow> string list \<Rightarrow> bool" where
  "parent_path P current [] = (current = None)"
| "parent_path P current (k # ks) = (current = Some k \<and> (case P k of None \<Rightarrow> False | Some p \<Rightarrow> parent_path P p ks))"

lemma path_up_iff: "path_up P n current = Some ks \<longleftrightarrow> parent_path P current ks \<and> length ks \<le> n"
proof (induction P n current arbitrary: ks rule: path_up.induct)
  case (1 P n)
  then show ?case by (cases ks) auto
next
  case (2 P c)
  then show ?case by (cases ks) auto
next
  case (3 P n c)
  then show ?case by (cases ks) (auto split: option.splits)
qed

lemma parent_path_unique: "parent_path P current ks \<Longrightarrow> parent_path P current js \<Longrightarrow> ks = js"
  by (induction P current ks arbitrary: js rule: parent_path.induct) (case_tac js; auto split: option.splits)+

lemma parent_path_suffix: "parent_path P current (as @ k # ks) \<Longrightarrow> parent_path P (Some k) (k # ks)"
proof (induction as arbitrary: current)
  case (Cons a as)
  from Cons.prems obtain p where "parent_path P p (as @ k # ks)" by (auto split: option.splits)
  then show ?case by (rule Cons.IH)
qed auto

text \<open>A chain that ends repeats nothing.\<close>

lemma parent_path_distinct: "parent_path P current ks \<Longrightarrow> distinct ks"
proof (induction ks arbitrary: current)
  case (Cons k ks)
  have "k \<notin> set ks"
  proof
    assume "k \<in> set ks"
    then obtain as bs where ks: "ks = as @ k # bs" by (auto simp: in_set_conv_decomp)
    from Cons.prems have k: "parent_path P (Some k) (k # ks)" by simp
    from k have "parent_path P (Some k) ((k # as) @ k # bs)" by (simp add: ks)
    then have "parent_path P (Some k) (k # bs)" by (rule parent_path_suffix)
    with k have "k # ks = k # bs" by (rule parent_path_unique)
    then show False by (simp add: ks)
  qed
  with Cons show ?case by (auto split: option.splits)
qed simp

lemma depth_loop_sound:
  "depth_loop P seen d current = Inr n \<Longrightarrow> d \<le> MAX_FOLDER_DEPTH \<Longrightarrow>
     \<exists>ks. parent_path P current ks \<and> n = d + length ks \<and> n \<le> MAX_FOLDER_DEPTH"
proof (induction P seen d current rule: depth_loop.induct)
  case (1 P seen d current)
  show ?case
  proof (cases current)
    case None
    with 1 show ?thesis by (auto simp: depth_loop.simps)
  next
    case (Some c)
    with 1(2) have b: "\<not> MAX_FOLDER_DEPTH < Suc d" "c \<notin> seen"
      by (auto simp: depth_loop.simps [of P seen d "Some c"] split: if_splits)
    with 1(2) Some obtain p where p: "P c = Some p" "depth_loop P (insert c seen) (Suc d) p = Inr n"
      by (auto simp: depth_loop.simps [of P seen d "Some c"] split: option.splits)
    from 1(1) [OF Some b p] b obtain ks where "parent_path P p ks" "n = Suc d + length ks" "n \<le> MAX_FOLDER_DEPTH" by auto
    with Some p show ?thesis by (intro exI [of _ "c # ks"]) simp
  qed
qed

lemma depth_loop_complete:
  "parent_path P current ks \<Longrightarrow> d + length ks \<le> MAX_FOLDER_DEPTH \<Longrightarrow> set ks \<inter> seen = {} \<Longrightarrow>
     depth_loop P seen d current = Inr (d + length ks)"
proof (induction ks arbitrary: current d seen)
  case Nil
  then show ?case by (simp add: depth_loop.simps)
next
  case (Cons k ks)
  from Cons.prems obtain p where p: "current = Some k" "P k = Some p" "parent_path P p ks" by (auto split: option.splits)
  from parent_path_distinct [OF Cons.prems(1)] Cons.prems have "set ks \<inter> insert k seen = {}" by auto
  with Cons.IH [OF p(3), of "Suc d"] Cons.prems p show ?case by (simp add: depth_loop.simps [of P seen d "Some k"])
qed

lemma depth_of_exact:
  "depth_of k P = Inr n \<longleftrightarrow> (case P k of None \<Rightarrow> False | Some p \<Rightarrow> map_option length (path_up P MAX_FOLDER_DEPTH p) = Some n)"
proof (cases "P k")
  case (Some p)
  show ?thesis
  proof
    assume "depth_of k P = Inr n"
    with Some have "depth_loop P {k} 0 p = Inr n" by (simp add: depth_of_def)
    from depth_loop_sound [OF this] obtain ks where "parent_path P p ks" "n = length ks" "n \<le> MAX_FOLDER_DEPTH" by auto
    then have "path_up P MAX_FOLDER_DEPTH p = Some ks" by (simp add: path_up_iff)
    with Some \<open>n = length ks\<close> show "case P k of None \<Rightarrow> False | Some p \<Rightarrow> map_option length (path_up P MAX_FOLDER_DEPTH p) = Some n" by simp
  next
    assume "case P k of None \<Rightarrow> False | Some p \<Rightarrow> map_option length (path_up P MAX_FOLDER_DEPTH p) = Some n"
    with Some obtain ks where ks: "parent_path P p ks" "length ks \<le> MAX_FOLDER_DEPTH" "n = length ks" by (auto simp: path_up_iff)
    with Some have "parent_path P (Some k) (k # ks)" by simp
    then have "set ks \<inter> {k} = {}" using parent_path_distinct by fastforce
    from depth_loop_complete [OF ks(1) _ this, of 0] ks Some show "depth_of k P = Inr n" by (simp add: depth_of_def)
  qed
qed (simp add: depth_of_def)

lemma find_key_map_of: "map_option g (find_key key k xs) = map_of (map (\<lambda>x. (key x, g x)) xs) k"
  by (induction xs) (simp_all add: find_key_def)

lemma by_last_map_of: "map_option g (by_last key xs k) = map_of (rev (map (\<lambda>x. (key x, g x)) xs)) k"
  by (simp add: by_last_def find_key_map_of rev_map)

lemma ancestors_loop_exact:
  "parent_path P current ks \<Longrightarrow> (\<And>k. map_option fn_parent_key (by_last fn_folder_key nodes k) = P k) \<Longrightarrow>
     ancestors_loop nodes current = Some (Inr ks)"
proof (induction ks arbitrary: current)
  case Nil
  then show ?case by (simp add: ancestors_loop.simps)
next
  case (Cons k ks)
  from Cons.prems(1) obtain p where p: "current = Some k" "P k = Some p" "parent_path P p ks" by (auto split: option.splits)
  with Cons.prems(2) [of k] obtain n where n: "by_last fn_folder_key nodes k = Some n" "fn_parent_key n = p" by auto
  from Cons.IH [OF p(3) Cons.prems(2)] show ?case by (simp add: ancestors_loop.simps [of nodes "Some k"] p(1) n)
qed

subsection \<open>The folder tree\<close>

definition folders_or_default :: "SyntheticFolder list option \<Rightarrow> SyntheticFolder list" where
  "folders_or_default folders = (case folders of None \<Rightarrow> default_synthetic_folders | Some xs \<Rightarrow> xs)"

definition folders_ok :: "OutlookMockFixture \<Rightarrow> OutlookReadinessReport \<Rightarrow> SyntheticFolder list \<Rightarrow> bool" where
  "folders_ok f r catalog \<longleftrightarrow> fx_synthetic f \<and> ready_for_readonly_discovery r \<and>
     first_error (folder_catalog_checks f catalog) = None \<and>
     list_all (\<lambda>x. path_up (parents_of catalog) MAX_FOLDER_DEPTH (sf_parent_key x) \<noteq> None) catalog"

definition node_of :: "OutlookMockFixture \<Rightarrow> SyntheticFolder list \<Rightarrow> SyntheticFolder \<Rightarrow> FolderNode" where
  "node_of f catalog x = (let messages = filter (\<lambda>m. mm_folder_key m = sf_folder_key x) (fx_messages f) in
     \<lparr>fn_folder_key = sf_folder_key x, fn_display_name = sf_display_name x, fn_parent_key = sf_parent_key x,
       fn_depth = length (the (path_up (parents_of catalog) MAX_FOLDER_DEPTH (sf_parent_key x))),
       fn_child_count = length (filter (\<lambda>y. sf_parent_key y = Some (sf_folder_key x)) catalog),
       fn_message_count = length messages, fn_unread_count = length (filter (\<lambda>m. \<not> mm_is_read m) messages)\<rparr>)"

lemma parents_of_distinct:
  assumes "distinct_keys sf_folder_key catalog" "x \<in> set catalog"
  shows "parents_of catalog (sf_folder_key x) = Some (sf_parent_key x)"
proof -
  have "distinct_keys sf_folder_key (rev catalog)" using assms(1) by (simp add: distinct_keys_def rev_map [symmetric])
  with assms(2) have "by_last sf_folder_key catalog (sf_folder_key x) = Some x" by (simp add: by_last_def find_key_iff)
  then show ?thesis by (simp add: parents_of_def)
qed

lemma folder_nodes:
  assumes "distinct_keys sf_folder_key catalog" "set xs \<subseteq> set catalog"
  shows "mapE (folder_node f catalog) xs = Inr nodes \<longleftrightarrow>
     list_all (\<lambda>x. path_up (parents_of catalog) MAX_FOLDER_DEPTH (sf_parent_key x) \<noteq> None) xs \<and> nodes = map (node_of f catalog) xs"
  using assms(2)
proof (induction xs arbitrary: nodes)
  case (Cons x xs)
  have p: "parents_of catalog (sf_folder_key x) = Some (sf_parent_key x)"
    using assms(1) Cons.prems by (auto intro: parents_of_distinct)
  have "folder_node f catalog x = Inr n \<longleftrightarrow>
      path_up (parents_of catalog) MAX_FOLDER_DEPTH (sf_parent_key x) \<noteq> None \<and> n = node_of f catalog x" for n
    by (auto simp: folder_node_def node_of_def Let_def bindE_Inr_iff depth_of_exact p)
  with Cons show ?case by (auto simp: bindE_Inr_iff)
qed auto

lemma folder_listing:
  assumes "catalog = folders_or_default folders"
  shows "list_fixture_folders f r folders = Inr x \<longleftrightarrow> folders_ok f r catalog \<and>
     x = \<lparr>fl_folders = map (node_of f catalog) catalog, fl_folder_count = length catalog,
       fl_max_depth = foldr (max \<circ> fn_depth) (map (node_of f catalog) catalog) 0, fl_synthetic = True\<rparr>"
proof (cases "first_error (folder_catalog_checks f catalog)")
  case None
  then have d: "distinct_keys sf_folder_key catalog" by (simp add: folder_catalog_checks_def checks)
  show ?thesis
    using None unfolding list_fixture_folders_def folders_or_default_def [symmetric] assms [symmetric] Let_def
    by (auto simp: checks bindE_Inr_iff folder_nodes [OF d subset_refl] folders_ok_def)
next
  case (Some e)
  then show ?thesis
    unfolding list_fixture_folders_def folders_or_default_def [symmetric] assms [symmetric] Let_def
    by (auto simp: checks folders_ok_def)
qed

lemma node_fields [simp]:
  "fn_folder_key (node_of f catalog x) = sf_folder_key x" "fn_parent_key (node_of f catalog x) = sf_parent_key x"
  by (simp_all add: node_of_def Let_def)

lemma by_last_nodes:
  "map_option fn_parent_key (by_last fn_folder_key (map (node_of f catalog) catalog) k) = parents_of catalog k"
  unfolding parents_of_def by_last_map_of by (simp add: comp_def)

lemma by_last_Some: "by_last key xs k = Some x \<Longrightarrow> x \<in> set xs \<and> key x = k"
  using find_key_Some [of key k "rev xs" x] by (simp add: by_last_def)

lemma by_last_None: "by_last key xs k = None \<longleftrightarrow> k \<notin> key ` set xs"
  by (simp add: by_last_def find_key_None)

text \<open>The position of a node: its chain of parents, and the keys of its children.\<close>

lemma node_position:
  assumes ok: "folders_ok f r catalog" and x: "x \<in> set catalog"
  defines "n \<equiv> node_of f catalog x"
  shows "\<exists>ks. path_up (parents_of catalog) MAX_FOLDER_DEPTH (fn_parent_key n) = Some ks \<and>
      ancestors_loop (map (node_of f catalog) catalog) (fn_parent_key n) = Some (Inr ks) \<and>
      length ks = fn_depth n \<and> distinct (sf_folder_key x # ks)"
    "set (map fn_folder_key (filter (\<lambda>m. fn_parent_key m = Some (sf_folder_key x)) (map (node_of f catalog) catalog))) =
      {c. parents_of catalog c = Some (Some (sf_folder_key x))}"
    "length (filter (\<lambda>m. fn_parent_key m = Some (sf_folder_key x)) (map (node_of f catalog) catalog)) = fn_child_count n"
proof -
  from ok have d: "distinct_keys sf_folder_key catalog" by (simp add: folders_ok_def folder_catalog_checks_def checks)
  have n: "fn_parent_key n = sf_parent_key x" by (simp add: n_def node_of_def Let_def)
  from ok x obtain ks where ks: "path_up (parents_of catalog) MAX_FOLDER_DEPTH (sf_parent_key x) = Some ks"
    by (auto simp: folders_ok_def list_all_iff)
  then have path: "parent_path (parents_of catalog) (sf_parent_key x) ks" by (simp add: path_up_iff)
  then have "parent_path (parents_of catalog) (Some (sf_folder_key x)) (sf_folder_key x # ks)"
    by (simp add: parents_of_distinct [OF d x])
  then have "distinct (sf_folder_key x # ks)" by (rule parent_path_distinct)
  moreover have "length ks = fn_depth n" by (simp add: n_def node_of_def Let_def ks)
  moreover have "ancestors_loop (map (node_of f catalog) catalog) (sf_parent_key x) = Some (Inr ks)"
    by (rule ancestors_loop_exact [OF path by_last_nodes])
  ultimately show "\<exists>ks. path_up (parents_of catalog) MAX_FOLDER_DEPTH (fn_parent_key n) = Some ks \<and>
      ancestors_loop (map (node_of f catalog) catalog) (fn_parent_key n) = Some (Inr ks) \<and>
      length ks = fn_depth n \<and> distinct (sf_folder_key x # ks)"
    using ks n by auto
  have "parents_of catalog c = Some (Some k) \<longleftrightarrow> (\<exists>y \<in> set catalog. sf_folder_key y = c \<and> sf_parent_key y = Some k)" for c k
    using parents_of_distinct [OF d] by (auto simp: parents_of_def dest: by_last_Some) metis
  then show "set (map fn_folder_key (filter (\<lambda>m. fn_parent_key m = Some (sf_folder_key x)) (map (node_of f catalog) catalog))) =
      {c. parents_of catalog c = Some (Some (sf_folder_key x))}"
    by (auto simp: image_iff filter_map comp_def)
  show "length (filter (\<lambda>m. fn_parent_key m = Some (sf_folder_key x)) (map (node_of f catalog) catalog)) = fn_child_count n"
    by (simp add: n_def node_of_def Let_def filter_map comp_def)
qed

text \<open>C27. Navigation always returns, although the loop over the ancestors has no bound of its own. It succeeds
  exactly when the mailbox is ready, the catalogue is valid, every folder has a finite chain of at most eight
  parents, and the key is that of a folder. The answer then holds this chain, as long as the depth of the folder
  says and without a repetition, and the sorted keys of exactly the folders whose parent it is.\<close>

theorem folder_navigation_exact:
  "(let catalog = folders_or_default folders in
    case navigate_fixture_folder f k r folders of
      None \<Rightarrow> False
    | Some (Inl e) \<Rightarrow> (trimmed k \<and> folders_ok f r catalog \<and> k \<in> sf_folder_key ` set catalog) = False
    | Some (Inr v) \<Rightarrow> trimmed k \<and> folders_ok f r catalog \<and> fn_folder_key (nv_folder v) = k \<and>
        path_up (parents_of catalog) MAX_FOLDER_DEPTH (fn_parent_key (nv_folder v)) = Some (nv_ancestor_keys v) \<and>
        length (nv_ancestor_keys v) = fn_depth (nv_folder v) \<and> distinct (k # nv_ancestor_keys v) \<and>
        sorted (nv_child_keys v) \<and> set (nv_child_keys v) = {c. parents_of catalog c = Some (Some k)} \<and>
        length (nv_child_keys v) = fn_child_count (nv_folder v))"
proof -
  define catalog where "catalog = folders_or_default folders"
  note listing = folder_listing [OF catalog_def, of f r]
  let ?nodes = "map (node_of f catalog) catalog"
  show ?thesis
  proof (cases "trimmed k \<and> folders_ok f r catalog")
    case False
    then have "trimmed_check ''folder_key'' k \<noteq> None \<or> (\<exists>e. list_fixture_folders f r folders = Inl e)"
      using listing by (cases "list_fixture_folders f r folders") (auto simp: checks)
    then have "\<exists>e. navigate_fixture_folder f k r folders = Some (Inl e)"
      by (cases "trimmed_check ''folder_key'' k") (auto simp: navigate_fixture_folder_def)
    with False show ?thesis by (auto simp: catalog_def [symmetric] Let_def)
  next
    case True
    then obtain x where x: "list_fixture_folders f r folders = Inr x" "fl_folders x = ?nodes" using listing by auto
    have t: "trimmed_check ''folder_key'' k = None" using True by (simp add: checks)
    have keys: "fn_folder_key ` set ?nodes = sf_folder_key ` set catalog" by (auto simp: node_of_def Let_def image_iff)
    show ?thesis
    proof (cases "by_last fn_folder_key ?nodes k")
      case None
      then have "k \<notin> sf_folder_key ` set catalog" by (simp only: by_last_None keys) simp
      moreover have "navigate_fixture_folder f k r folders = Some (Inl (value_error ''unknown synthetic folder_key''))"
        by (simp add: navigate_fixture_folder_def t x None)
      ultimately show ?thesis by (simp add: catalog_def [symmetric] Let_def)
    next
      case (Some n)
      then obtain y where y: "y \<in> set catalog" "n = node_of f catalog y" "sf_folder_key y = k"
        using by_last_Some [OF Some] by (auto simp: node_of_def Let_def)
      have n: "fn_folder_key n = k" using by_last_Some [OF Some] by simp
      note pos = node_position [OF conjunct2 [OF True] y(1), folded y(2), unfolded y(3)]
      from pos(1) obtain ks where ks: "path_up (parents_of catalog) MAX_FOLDER_DEPTH (fn_parent_key n) = Some ks"
        "ancestors_loop ?nodes (fn_parent_key n) = Some (Inr ks)" "length ks = fn_depth n" "distinct (k # ks)" by auto
      have v: "navigate_fixture_folder f k r folders = Some (Inr \<lparr>nv_folder = n, nv_ancestor_keys = ks,
          nv_child_keys = sort (map fn_folder_key (filter (\<lambda>n. fn_parent_key n = Some k) ?nodes)), nv_synthetic = True\<rparr>)"
        by (simp only: navigate_fixture_folder_def t x(1) option.case sum.case x(2) Some ks(2) bind.bind_lunit bindE_simps)
      show ?thesis
        unfolding Let_def catalog_def [symmetric] v option.case sum.case using True n ks pos(2,3)
        by (simp only: FolderNavigationResult.simps sorted_sort set_sort length_sort length_map)
    qed
  qed
qed

subsection \<open>Mail pages\<close>

lemma mail_page_exact:
  assumes "0 \<le> offset" "0 \<le> limit"
  shows "mp_items (mail_page folder offset limit matching) = take (nat limit) (drop (nat offset) matching)"
    "mp_has_more (mail_page folder offset limit matching) =
      (nat offset + length (mp_items (mail_page folder offset limit matching)) < length matching)"
  using assms by (simp_all add: mail_page_def Let_def py_slice_page) linarith

definition folder_search :: "MessageListRequest \<Rightarrow> MailSearchRequest" where
  "folder_search q = \<lparr>ms_query = None, ms_folder_key = Some (ml_folder_key q), ms_is_read = None,
     ms_has_attachments = None, ms_offset = ml_offset q, ms_limit = ml_limit q\<rparr>"

text \<open>A valid search of the mail succeeds exactly when the mailbox is ready and the folder asked for is one
  of its folders. It answers with the requested page of the messages that satisfy every given condition, in the
  order of the mailbox, and the pages of one request put together are all of them. Listing a folder is the
  search for that folder: the requests are valid together, they fail together, and the pages are the same.\<close>

theorem mail_search_exact:
  "(case mail_search_check q of
      Some e \<Rightarrow> True
    | None \<Rightarrow> (let matching = filter (mail_matches q) (fx_messages f); n = nat (ms_limit q) in
        case search_fixture_messages f q r of
          Inl e \<Rightarrow> (fx_synthetic f \<and> ready_for_readonly_discovery r \<and>
            (case ms_folder_key q of None \<Rightarrow> True | Some k \<Rightarrow> k \<in> set (fx_folders f))) = False
        | Inr p \<Rightarrow> fx_synthetic f \<and> ready_for_readonly_discovery r \<and>
            (case ms_folder_key q of None \<Rightarrow> True | Some k \<Rightarrow> k \<in> set (fx_folders f)) \<and>
            mp_items p = take n (drop (nat (ms_offset q)) matching) \<and> mp_total_matching p = length matching \<and>
            mp_has_more p = (nat (ms_offset q) + length (mp_items p) < length matching) \<and>
            concat (map (\<lambda>i. take n (drop (i * n) matching)) [0..<length matching]) = matching)) \<and>
   mail_search_check (folder_search l) = message_list_check l \<and>
   (case (list_fixture_messages f l r, search_fixture_messages f (folder_search l) r) of
      (Inl e, Inl e') \<Rightarrow> True
    | (Inr p, Inr p') \<Rightarrow> p = p'\<lparr>mp_folder_key := Some (ml_folder_key l)\<rparr>
    | _ \<Rightarrow> False)"
proof (intro conjI)
  show "mail_search_check (folder_search l) = message_list_check l"
    by (simp add: mail_search_check_def message_list_check_def folder_search_def query_checks_def)
  have "mail_matches (folder_search l) = (\<lambda>m. mm_folder_key m = ml_folder_key l)"
    by (auto simp: mail_matches_def folder_search_def)
  then show "case (list_fixture_messages f l r, search_fixture_messages f (folder_search l) r) of
      (Inl e, Inl e') \<Rightarrow> True
    | (Inr p, Inr p') \<Rightarrow> p = p'\<lparr>mp_folder_key := Some (ml_folder_key l)\<rparr>
    | _ \<Rightarrow> False"
    by (auto simp: list_fixture_messages_def search_fixture_messages_def folder_search_def checked_def first_error.simps
        raise_if_def synthetic_check_def ready_check_def mail_page_def Let_def)
  let ?m = "filter (mail_matches q) (fx_messages f)" and ?n = "nat (ms_limit q)"
  show "case mail_search_check q of
      Some e \<Rightarrow> True
    | None \<Rightarrow> (let matching = ?m; n = ?n in
        case search_fixture_messages f q r of
          Inl e \<Rightarrow> (fx_synthetic f \<and> ready_for_readonly_discovery r \<and>
            (case ms_folder_key q of None \<Rightarrow> True | Some k \<Rightarrow> k \<in> set (fx_folders f))) = False
        | Inr p \<Rightarrow> fx_synthetic f \<and> ready_for_readonly_discovery r \<and>
            (case ms_folder_key q of None \<Rightarrow> True | Some k \<Rightarrow> k \<in> set (fx_folders f)) \<and>
            mp_items p = take n (drop (nat (ms_offset q)) matching) \<and> mp_total_matching p = length matching \<and>
            mp_has_more p = (nat (ms_offset q) + length (mp_items p) < length matching) \<and>
            concat (map (\<lambda>i. take n (drop (i * n) matching)) [0..<length matching]) = matching)"
  proof (cases "mail_search_check q")
    case None
    then have b: "0 \<le> ms_offset q" "1 \<le> ms_limit q" by (simp_all add: mail_search_check_def page_checks_def checks)
    then have n: "0 < ?n" "0 \<le> ms_limit q" by simp_all
    then have pages: "concat (map (\<lambda>i. take ?n (drop (i * ?n) ?m)) [0..<length ?m]) = ?m"
      using concat_pages [OF n(1), of ?m "length ?m"] by (simp add: Suc_le_eq)
    note page = mail_page_exact [OF b(1) n(2), of None ?m]
    have total: "mp_total_matching (mail_page None (ms_offset q) (ms_limit q) ?m) = length ?m"
      by (simp add: mail_page_def Let_def)
    show ?thesis
    proof (cases "search_fixture_messages f q r")
      case (Inl e)
      then have "first_error [synthetic_check ''OUT-012'' f, ready_check r,
         (case ms_folder_key q of None \<Rightarrow> None | Some k \<Rightarrow>
            raise_if (k \<notin> set (fx_folders f)) (value_error ''unknown synthetic folder_key''))] \<noteq> None"
        by (auto simp: search_fixture_messages_def checked_def split: option.splits)
      with None Inl show ?thesis by (auto simp: checks first_error.simps(1) Let_def split: option.splits)
    next
      case (Inr p)
      then have p: "p = mail_page None (ms_offset q) (ms_limit q) ?m" "fx_synthetic f" "ready_for_readonly_discovery r"
        "case ms_folder_key q of None \<Rightarrow> True | Some k \<Rightarrow> k \<in> set (fx_folders f)"
        by (auto simp: search_fixture_messages_def checks split: option.splits)
      with None Inr page total pages show ?thesis by (simp add: Let_def)
    qed
  qed simp
qed

end
