(* ===== verification/Outlook_Messages.thy ===== *)
theory Outlook_Messages
  imports Outlook_Mail
begin

text \<open>
  Mutations of single messages of the synthetic mailbox: read and unread (\<open>mark_read_mutations.py\<close>), archive and
  restore (\<open>archive_mutations.py\<close>), move (\<open>message_move_mutations.py\<close>) and the focused inbox
  (\<open>focused_mutations.py\<close>). Every operation returns the new fixture or the new markers with a result that was
  read back, and raises \<open>RuntimeError\<close> when the read-back does not show the request.

  The results: the read-back never fails; a history of requests, refused ones included, does to folder and
  read state of the messages what an abstract machine over one message at a time does; everything else about
  the messages stays.
\<close>

subsection \<open>Machines over keys\<close>

text \<open>Requests against a store of independent entries. The caller keeps its store when a request raises; the
  abstract machine changes the entry of one key, or refuses.\<close>

definition run_step :: "('op \<Rightarrow> 'st \<Rightarrow> 'st result) \<Rightarrow> 'op \<Rightarrow> 'st \<Rightarrow> 'st" where
  "run_step apply_op op s = (case apply_op op s of Inl e \<Rightarrow> s | Inr s' \<Rightarrow> s')"

definition spec_step :: "('op \<Rightarrow> string) \<Rightarrow> ('op \<Rightarrow> 'v \<Rightarrow> 'v option) \<Rightarrow> 'op \<Rightarrow> (string \<Rightarrow> 'v) \<Rightarrow> string \<Rightarrow> 'v" where
  "spec_step key spec op look = (case spec op (look (key op)) of None \<Rightarrow> look | Some v \<Rightarrow> look(key op := v))"

definition is_value_error :: "exn \<Rightarrow> bool" where
  "is_value_error e = (case e of ValueError n a \<Rightarrow> True | _ \<Rightarrow> False)"

lemma is_value_error_simps [simp]: "is_value_error (ValueError n a)" "is_value_error (value_error n)"
    "\<not> is_value_error (RuntimeError n a)"
  by (simp_all add: is_value_error_def value_error_def)

locale keyed_machine =
  fixes ok :: "'st \<Rightarrow> bool" and look :: "'st \<Rightarrow> string \<Rightarrow> 'v" and apply_op :: "'op \<Rightarrow> 'st \<Rightarrow> 'st result"
    and key :: "'op \<Rightarrow> string" and spec :: "'op \<Rightarrow> 'v \<Rightarrow> 'v option"
  assumes accepted: "ok s \<Longrightarrow> apply_op op s = Inr s' \<Longrightarrow>
      ok s' \<and> (\<exists>v. spec op (look s (key op)) = Some v \<and> look s' = (look s)(key op := v))"
    and refused: "ok s \<Longrightarrow> apply_op op s = Inl e \<Longrightarrow> spec op (look s (key op)) = None \<and> is_value_error e"
begin

lemma step: "ok s \<Longrightarrow> ok (run_step apply_op op s) \<and> look (run_step apply_op op s) = spec_step key spec op (look s)"
  using accepted [of s op] refused [of s op] by (cases "apply_op op s") (auto simp: run_step_def spec_step_def)

lemma run: "ok s \<Longrightarrow> ok (fold (run_step apply_op) ops s) \<and>
    look (fold (run_step apply_op) ops s) = fold (spec_step key spec) ops (look s)"
  by (induction ops arbitrary: s) (simp_all add: step)

lemma succeeds_iff: "ok s \<Longrightarrow> (\<exists>s'. apply_op op s = Inr s') \<longleftrightarrow> spec op (look s (key op)) \<noteq> None"
  using accepted [of s op] refused [of s op] by (cases "apply_op op s") auto

lemma never_unproved: "ok s \<Longrightarrow> apply_op op s \<noteq> Inl (RuntimeError n a)"
  using refused [of s op "RuntimeError n a"] by auto

end

subsection \<open>Read and unread\<close>

text \<open>\<open>replace(fixture, messages=\<dots>)\<close> with one message exchanged.\<close>

definition replace_message :: "OutlookMockFixture \<Rightarrow> string \<Rightarrow> MockMessage \<Rightarrow> OutlookMockFixture" where
  "replace_message f key m = f\<lparr>fx_messages := replace_key mm_message_key key m (fx_messages f)\<rparr>"

record MessageReadMutationRequest =
  mr_message_key :: string
  mr_is_read :: bool

definition read_mutation_check :: "MessageReadMutationRequest \<Rightarrow> exn option" where
  "read_mutation_check q = token_check ''message_key'' (mr_message_key q)"

record MessageReadMutationResult =
  rr_message_key :: string
  rr_requested_is_read :: bool
  rr_previous_is_read :: bool
  rr_read_back_is_read :: bool
  rr_changed :: bool
  rr_verified :: bool
  rr_synthetic :: bool

definition stop_iteration :: exn where "stop_iteration = RuntimeError ''StopIteration'' []"

definition apply_fixture_message_read_state ::
  "OutlookMockFixture \<Rightarrow> MessageReadMutationRequest \<Rightarrow> OutlookReadinessReport \<Rightarrow>
   (OutlookMockFixture \<times> MessageReadMutationResult) result" where
  "apply_fixture_message_read_state f q r =
     checked [synthetic_check ''OUT-030'' f, ready_check r]
     (case find_key mm_message_key (mr_message_key q) (fx_messages f) of
        None \<Rightarrow> Inl (value_error ''synthetic message_key not found'')
      | Some current \<Rightarrow>
          (let f' = replace_message f (mr_message_key q) (current\<lparr>mm_is_read := mr_is_read q\<rparr>) in
           case find_key mm_message_key (mr_message_key q) (fx_messages f') of
             None \<Rightarrow> Inl stop_iteration
           | Some read_back \<Rightarrow>
               checked [raise_if (mm_is_read read_back \<noteq> mr_is_read q)
                 (RuntimeError ''synthetic read-back did not prove requested read state'' [])]
               (Inr (f', \<lparr>rr_message_key = mr_message_key q, rr_requested_is_read = mr_is_read q,
                 rr_previous_is_read = mm_is_read current, rr_read_back_is_read = mm_is_read read_back,
                 rr_changed = (mm_is_read current \<noteq> mr_is_read q), rr_verified = True, rr_synthetic = True\<rparr>))))"

subsection \<open>Archive and restore\<close>

definition ARCHIVE_FOLDER :: string where "ARCHIVE_FOLDER = ''archive''"

datatype ArchiveMutationAction = DO_ARCHIVE | DO_RESTORE

record ArchiveMutationRequest =
  aq_action :: ArchiveMutationAction
  aq_message_key :: string
  aq_restore_folder_key :: "string option"

definition archive_request_check :: "ArchiveMutationRequest \<Rightarrow> exn option" where
  "archive_request_check q = first_error [
     token_check ''message_key'' (aq_message_key q),
     optional_token ''restore_folder_key'' (aq_restore_folder_key q),
     raise_if (aq_action q = DO_ARCHIVE \<and> aq_restore_folder_key q \<noteq> None)
       (value_error ''archive must not provide restore_folder_key''),
     raise_if (aq_action q = DO_RESTORE \<and> aq_restore_folder_key q = None)
       (value_error ''restore requires explicit restore_folder_key''),
     raise_if (aq_action q = DO_RESTORE \<and> aq_restore_folder_key q = Some ARCHIVE_FOLDER)
       (value_error ''restore target must not be archive'')]"

text \<open>The results of archiving and of moving have the same fields but for the first.\<close>

record FolderChangeResult =
  fc_message_key :: string
  fc_previous_folder_key :: string
  fc_read_back_folder_key :: string
  fc_changed :: bool
  fc_verified :: bool
  fc_synthetic :: bool

record ArchiveMutationResult = FolderChangeResult +
  ar_action :: ArchiveMutationAction

record MessageMoveResult = FolderChangeResult +
  mo_requested_folder_key :: string

text \<open>Replacing the folder of a message, with the read-back that the two operations share.\<close>

definition change_folder :: "OutlookMockFixture \<Rightarrow> string \<Rightarrow> MockMessage \<Rightarrow> string \<Rightarrow> exn \<Rightarrow>
    (OutlookMockFixture \<times> FolderChangeResult) result" where
  "change_folder f key current target unproved = (let
       f' = replace_message f key (current\<lparr>mm_folder_key := target\<rparr>) in
     case find_key mm_message_key key (fx_messages f') of
       None \<Rightarrow> Inl stop_iteration
     | Some read_back \<Rightarrow> checked [raise_if (mm_folder_key read_back \<noteq> target) unproved]
         (Inr (f', \<lparr>fc_message_key = key, fc_previous_folder_key = mm_folder_key current,
           fc_read_back_folder_key = mm_folder_key read_back, fc_changed = (mm_folder_key current \<noteq> target),
           fc_verified = True, fc_synthetic = True\<rparr>)))"

definition archive_target :: "ArchiveMutationRequest \<Rightarrow> MockMessage \<Rightarrow> string result" where
  "archive_target q current = (case aq_action q of
     DO_ARCHIVE \<Rightarrow> Inr ARCHIVE_FOLDER
   | DO_RESTORE \<Rightarrow> (case aq_restore_folder_key q of
       None \<Rightarrow> Inl (RuntimeError ''validated restore target unexpectedly absent'' [])
     | Some target \<Rightarrow> checked [raise_if (mm_folder_key current \<noteq> ARCHIVE_FOLDER \<and> mm_folder_key current \<noteq> target)
         (value_error ''restore requires message to be archived'')] (Inr target)))"

definition apply_fixture_archive_mutation ::
  "OutlookMockFixture \<Rightarrow> ArchiveMutationRequest \<Rightarrow> OutlookReadinessReport \<Rightarrow>
   (OutlookMockFixture \<times> ArchiveMutationResult) result" where
  "apply_fixture_archive_mutation f q r =
     checked [synthetic_check ''OUT-037'' f, ready_check r]
     (case find_key mm_message_key (aq_message_key q) (fx_messages f) of
        None \<Rightarrow> Inl (value_error ''synthetic message_key not found'')
      | Some current \<Rightarrow> bindE (archive_target q current) (\<lambda>target.
          checked [raise_if (target \<notin> set (fx_folders f)) (value_error ''target folder does not exist in synthetic fixture'')]
          (bindE (change_folder f (aq_message_key q) current target
             (RuntimeError ''synthetic read-back did not prove requested archive state'' [])) (\<lambda>(f', c).
           Inr (f', FolderChangeResult.extend c (ArchiveMutationResult.fields (aq_action q)))))))"

subsection \<open>Moving\<close>

record MessageMoveRequest =
  mv_message_key :: string
  mv_target_folder_key :: string

definition move_request_check :: "MessageMoveRequest \<Rightarrow> exn option" where
  "move_request_check q = first_error [
     token_check ''message_key'' (mv_message_key q), token_check ''target_folder_key'' (mv_target_folder_key q)]"

definition apply_fixture_message_move ::
  "OutlookMockFixture \<Rightarrow> MessageMoveRequest \<Rightarrow> OutlookReadinessReport \<Rightarrow>
   (OutlookMockFixture \<times> MessageMoveResult) result" where
  "apply_fixture_message_move f q r =
     checked [synthetic_check ''OUT-038'' f, ready_check r,
       raise_if (mv_target_folder_key q \<notin> set (fx_folders f)) (value_error ''target folder does not exist in synthetic fixture'')]
     (case find_key mm_message_key (mv_message_key q) (fx_messages f) of
        None \<Rightarrow> Inl (value_error ''synthetic message_key not found'')
      | Some current \<Rightarrow> bindE (change_folder f (mv_message_key q) current (mv_target_folder_key q)
             (RuntimeError ''synthetic read-back did not prove requested message move'' [])) (\<lambda>(f', c).
           Inr (f', FolderChangeResult.extend c (MessageMoveResult.fields (mv_target_folder_key q)))))"

subsection \<open>The focused inbox\<close>

datatype FocusedInboxClass = CLASS_FOCUSED | CLASS_OTHER
datatype FocusedMutationAction = MOVE_TO_FOCUSED | MOVE_TO_OTHER

fun target_class :: "FocusedMutationAction \<Rightarrow> FocusedInboxClass" where
  "target_class MOVE_TO_FOCUSED = CLASS_FOCUSED"
| "target_class MOVE_TO_OTHER = CLASS_OTHER"

record FocusedInboxMarker =
  fm_message_key :: string
  fm_classification :: FocusedInboxClass

definition focused_marker_check :: "FocusedInboxMarker \<Rightarrow> exn option" where
  "focused_marker_check m = token_check ''message_key'' (fm_message_key m)"

record FocusedMutationRequest =
  fq_action :: FocusedMutationAction
  fq_message_key :: string

definition focused_request_check :: "FocusedMutationRequest \<Rightarrow> exn option" where
  "focused_request_check q = token_check ''message_key'' (fq_message_key q)"

record FocusedMutationResult =
  fs_action :: FocusedMutationAction
  fs_message_key :: string
  fs_previous_class :: "FocusedInboxClass option"
  fs_read_back_class :: FocusedInboxClass
  fs_changed :: bool
  fs_verified :: bool
  fs_synthetic :: bool

text \<open>The loop over the markers, which raises on the first that is a duplicate or unknown.\<close>

fun focused_marker_loop :: "string set \<Rightarrow> string set \<Rightarrow> FocusedInboxMarker list \<Rightarrow> exn option" where
  "focused_marker_loop known seen [] = None"
| "focused_marker_loop known seen (m # ms) =
     (if fm_message_key m \<in> seen then Some (value_error ''duplicate Focused/Other marker'')
      else if fm_message_key m \<notin> known then Some (value_error ''Focused/Other marker references unknown message'')
      else focused_marker_loop known (insert (fm_message_key m) seen) ms)"

definition apply_fixture_focused_mutation ::
  "OutlookMockFixture \<Rightarrow> FocusedMutationRequest \<Rightarrow> OutlookReadinessReport \<Rightarrow> FocusedInboxMarker list \<Rightarrow>
   (FocusedInboxMarker list \<times> FocusedMutationResult) result" where
  "apply_fixture_focused_mutation f q r markers =
     checked [synthetic_check ''OUT-040'' f, ready_check r]
     (case find_key mm_message_key (fq_message_key q) (fx_messages f) of
        None \<Rightarrow> Inl (value_error ''synthetic message_key not found'')
      | Some message \<Rightarrow>
          checked [
            raise_if (mm_folder_key message \<noteq> ''inbox'') (value_error ''Focused/Other movement requires an Inbox message''),
            focused_marker_loop (mm_message_key ` set (fx_messages f)) {} markers]
          (let current = by_last fm_message_key markers (fq_message_key q);
               target = target_class (fq_action q) in
           bindE (construct focused_marker_check \<lparr>fm_message_key = fq_message_key q, fm_classification = target\<rparr>) (\<lambda>replacement.
           let updated = (case current of None \<Rightarrow> markers @ [replacement]
                 | Some _ \<Rightarrow> replace_key fm_message_key (fq_message_key q) replacement markers) in
           case find_key fm_message_key (fq_message_key q) updated of
             None \<Rightarrow> Inl stop_iteration
           | Some read_back \<Rightarrow>
               checked [raise_if (fm_classification read_back \<noteq> target)
                 (RuntimeError ''synthetic read-back did not prove Focused/Other state'' [])]
               (Inr (updated, \<lparr>fs_action = fq_action q, fs_message_key = fq_message_key q,
                 fs_previous_class = map_option fm_classification current, fs_read_back_class = fm_classification read_back,
                 fs_changed = (map_option fm_classification current \<noteq> Some target), fs_verified = True, fs_synthetic = True\<rparr>)))))"

lemma focused_marker_loop_None:
  "focused_marker_loop known seen ms = None \<longleftrightarrow>
     distinct_keys fm_message_key ms \<and> fm_message_key ` set ms \<subseteq> known \<and> fm_message_key ` set ms \<inter> seen = {}"
  by (induction known seen ms rule: focused_marker_loop.induct) (auto simp: distinct_keys_def)

lemma put_in_place_cases:
  "put_in_place key y xs = (case by_last key xs (key y) of None \<Rightarrow> xs @ [y] | Some _ \<Rightarrow> replace_key key (key y) y xs)"
  using by_last_None [of key xs "key y"] find_key_None [of key "key y" xs]
  by (auto simp: put_in_place_def split: option.splits)

text \<open>A movement stores its marker; the catalogue law gives the read-back.\<close>

lemma focused_exact:
  assumes "focused_request_check q = None"
  shows "apply_fixture_focused_mutation f q r markers = Inr (updated, x) \<longleftrightarrow>
     fx_synthetic f \<and> ready_for_readonly_discovery r \<and>
     (case find_key mm_message_key (fq_message_key q) (fx_messages f) of None \<Rightarrow> False | Some m \<Rightarrow> mm_folder_key m = ''inbox'') \<and>
     distinct_keys fm_message_key markers \<and> fm_message_key ` set markers \<subseteq> mm_message_key ` set (fx_messages f) \<and>
     (let target = target_class (fq_action q); previous = map_option fm_classification (by_last fm_message_key markers (fq_message_key q)) in
      updated = put_in_place fm_message_key \<lparr>fm_message_key = fq_message_key q, fm_classification = target\<rparr> markers \<and>
      x = \<lparr>fs_action = fq_action q, fs_message_key = fq_message_key q, fs_previous_class = previous,
        fs_read_back_class = target, fs_changed = (previous \<noteq> Some target), fs_verified = True, fs_synthetic = True\<rparr>)"
proof (cases "find_key mm_message_key (fq_message_key q) (fx_messages f)")
  case (Some message)
  let ?m = "\<lparr>fm_message_key = fq_message_key q, fm_classification = target_class (fq_action q)\<rparr>"
  have valid: "focused_marker_check ?m = None"
    using assms by (simp add: focused_marker_check_def focused_request_check_def)
  have put: "(case by_last fm_message_key markers (fq_message_key q) of None \<Rightarrow> markers @ [?m]
      | Some _ \<Rightarrow> replace_key fm_message_key (fq_message_key q) ?m markers) = put_in_place fm_message_key ?m markers"
    by (simp add: put_in_place_cases split: option.split)
  show ?thesis
  proof (cases "distinct_keys fm_message_key markers")
    case True
    from in_place.read_back [OF True, of ?m]
    have stored: "find_key fm_message_key (fq_message_key q) (put_in_place fm_message_key ?m markers) = Some ?m" by simp
    show ?thesis
      by (auto simp: apply_fixture_focused_mutation_def Some Let_def construct_def valid put stored checks first_error.simps(1)
          focused_marker_loop_None)
  next
    case False
    then show ?thesis
      by (auto simp: apply_fixture_focused_mutation_def Some Let_def checks first_error.simps(1) focused_marker_loop_None)
  qed
qed (simp add: apply_fixture_focused_mutation_def checks)

subsection \<open>Histories of requests\<close>

datatype mailbox_op =
    OpRead MessageReadMutationRequest
  | OpArchive ArchiveMutationRequest
  | OpMove MessageMoveRequest

definition apply_op :: "OutlookReadinessReport \<Rightarrow> mailbox_op \<Rightarrow> OutlookMockFixture \<Rightarrow> OutlookMockFixture result" where
  "apply_op r op f = (case op of
     OpRead q \<Rightarrow> bindE (construct read_mutation_check q) (\<lambda>q. map_sum id fst (apply_fixture_message_read_state f q r))
   | OpArchive q \<Rightarrow> bindE (construct archive_request_check q) (\<lambda>q. map_sum id fst (apply_fixture_archive_mutation f q r))
   | OpMove q \<Rightarrow> bindE (construct move_request_check q) (\<lambda>q. map_sum id fst (apply_fixture_message_move f q r)))"

text \<open>The abstract machine: folder and read state of one message, and what a request makes of them, \<open>None\<close>
  when it refuses.\<close>

type_synonym message_status = "string \<times> bool"

fun op_key :: "mailbox_op \<Rightarrow> string" where
  "op_key (OpRead q) = mr_message_key q"
| "op_key (OpArchive q) = aq_message_key q"
| "op_key (OpMove q) = mv_message_key q"

fun new_status :: "string set \<Rightarrow> mailbox_op \<Rightarrow> message_status \<Rightarrow> message_status option" where
  "new_status folders (OpRead q) (d, b) = (if bad_token (mr_message_key q) then None else Some (d, mr_is_read q))"
| "new_status folders (OpArchive q) (d, b) =
     (if archive_request_check q \<noteq> None then None
      else (case aq_restore_folder_key q of
        None \<Rightarrow> (if ARCHIVE_FOLDER \<in> folders then Some (ARCHIVE_FOLDER, b) else None)
      | Some target \<Rightarrow> (if d \<in> {ARCHIVE_FOLDER, target} \<and> target \<in> folders then Some (target, b) else None)))"
| "new_status folders (OpMove q) (d, b) =
     (if bad_token (mv_message_key q) \<or> bad_token (mv_target_folder_key q) \<or> mv_target_folder_key q \<notin> folders then None
      else Some (mv_target_folder_key q, b))"

definition status_spec :: "string set \<Rightarrow> mailbox_op \<Rightarrow> message_status option \<Rightarrow> message_status option option" where
  "status_spec folders op s = (case s of None \<Rightarrow> None | Some st \<Rightarrow> map_option Some (new_status folders op st))"

definition status_of :: "OutlookMockFixture \<Rightarrow> string \<Rightarrow> message_status option" where
  "status_of f k = map_option (\<lambda>m. (mm_folder_key m, mm_is_read m)) (find_key mm_message_key k (fx_messages f))"

text \<open>What no request changes of a message.\<close>

definition fixed_fields :: "MockMessage \<Rightarrow> string \<times> string \<times> bool" where
  "fixed_fields m = (mm_message_key m, mm_subject m, mm_has_attachments m)"

definition same_mailbox :: "OutlookMockFixture \<Rightarrow> OutlookMockFixture \<Rightarrow> bool" where
  "same_mailbox f f' \<longleftrightarrow> fx_synthetic f' = fx_synthetic f \<and> fx_folders f' = fx_folders f \<and>
     fx_mailbox_key f' = fx_mailbox_key f \<and> map mm_message_key (fx_messages f') = map mm_message_key (fx_messages f) \<and>
     (if distinct_keys mm_message_key (fx_messages f)
      then map fixed_fields (fx_messages f') = map fixed_fields (fx_messages f) else True)"

lemma replaced:
  assumes "find_key mm_message_key k (fx_messages f) = Some m" "fixed_fields m' = fixed_fields m"
  shows "find_key mm_message_key k (fx_messages (replace_message f k m')) = Some m'"
    "status_of (replace_message f k m') = (status_of f)(k \<mapsto> (mm_folder_key m', mm_is_read m'))"
    "same_mailbox f (replace_message f k m')"
proof -
  from find_key_Some [OF assms(1)] have m: "m \<in> set (fx_messages f)" "mm_message_key m = k" by simp_all
  with assms(2) have k: "mm_message_key m' = k" by (simp add: fixed_fields_def)
  show "find_key mm_message_key k (fx_messages (replace_message f k m')) = Some m'"
    "status_of (replace_message f k m') = (status_of f)(k \<mapsto> (mm_folder_key m', mm_is_read m'))"
    using assms(1) by (auto simp: replace_message_def status_of_def find_key_replace [where key = mm_message_key, OF k])
  have "map fixed_fields (replace_key mm_message_key k m' (fx_messages f)) = map fixed_fields (fx_messages f)"
    if "distinct_keys mm_message_key (fx_messages f)"
  proof -
    have "fixed_fields m' = fixed_fields x" if "x \<in> set (fx_messages f)" "mm_message_key x = k" for x
      using that m assms \<open>distinct_keys mm_message_key (fx_messages f)\<close>
      by (auto simp: distinct_keys_def distinct_map dest: inj_onD)
    then show ?thesis by (auto simp: replace_key_def)
  qed
  then show "same_mailbox f (replace_message f k m')"
    by (simp add: same_mailbox_def replace_message_def replace_key_keys [where key = mm_message_key, OF k])
qed

text \<open>A change of a folder does not fail.\<close>

lemma change_folder_exact:
  assumes "find_key mm_message_key k (fx_messages f) = Some m"
  shows "change_folder f k m target e = Inr (replace_message f k (m\<lparr>mm_folder_key := target\<rparr>),
     \<lparr>fc_message_key = k, fc_previous_folder_key = mm_folder_key m, fc_read_back_folder_key = target,
      fc_changed = (mm_folder_key m \<noteq> target), fc_verified = True, fc_synthetic = True\<rparr>)"
proof -
  have "fixed_fields (m\<lparr>mm_folder_key := target\<rparr>) = fixed_fields m" by (simp add: fixed_fields_def)
  from replaced(1) [OF assms this] show ?thesis
    by (simp add: change_folder_def Let_def checked_def first_error.simps)
qed

text \<open>One request, on a mailbox that is ready: refused with a \<open>ValueError\<close>, or exactly the new status.\<close>

definition op_outcome :: "OutlookMockFixture \<Rightarrow> mailbox_op \<Rightarrow> OutlookMockFixture result \<Rightarrow> bool" where
  "op_outcome f op outcome \<longleftrightarrow> (case find_key mm_message_key (op_key op) (fx_messages f) of
      None \<Rightarrow> (case outcome of Inl (ValueError n a) \<Rightarrow> True | _ \<Rightarrow> False)
    | Some m \<Rightarrow> (case new_status (set (fx_folders f)) op (mm_folder_key m, mm_is_read m) of
        None \<Rightarrow> (case outcome of Inl (ValueError n a) \<Rightarrow> True | _ \<Rightarrow> False)
      | Some (d, b) \<Rightarrow> outcome = Inr (replace_message f (op_key op) (m\<lparr>mm_folder_key := d, mm_is_read := b\<rparr>))))"

lemma token_check_cases: "token_check name v = (if bad_token v then Some (value_error (name @ '' must be a non-empty semantic token'')) else None)"
  by (simp add: token_check_def raise_if_def)

lemma read_outcome:
  assumes "fx_synthetic f" "ready_for_readonly_discovery r"
  shows "op_outcome f (OpRead q) (apply_op r (OpRead q) f)"
proof (cases "find_key mm_message_key (mr_message_key q) (fx_messages f)")
  case None
  with assms show ?thesis
    by (simp add: op_outcome_def apply_op_def apply_fixture_message_read_state_def construct_def read_mutation_check_def
        token_check_cases checked_def first_error.simps synthetic_check_def ready_check_def value_error_def)
next
  case (Some m)
  have "fixed_fields (m\<lparr>mm_is_read := mr_is_read q\<rparr>) = fixed_fields m" by (simp add: fixed_fields_def)
  note stored = replaced(1) [OF Some this]
  have "m\<lparr>mm_folder_key := mm_folder_key m, mm_is_read := b\<rparr> = m\<lparr>mm_is_read := b\<rparr>" for b by simp
  with Some assms show ?thesis
    by (simp add: op_outcome_def apply_op_def apply_fixture_message_read_state_def construct_def read_mutation_check_def
        token_check_cases checked_def first_error.simps synthetic_check_def ready_check_def value_error_def Let_def stored)
qed

lemma move_outcome:
  assumes "fx_synthetic f" "ready_for_readonly_discovery r"
  shows "op_outcome f (OpMove q) (apply_op r (OpMove q) f)"
proof (cases "find_key mm_message_key (mv_message_key q) (fx_messages f)")
  case None
  with assms show ?thesis
    by (simp add: op_outcome_def apply_op_def apply_fixture_message_move_def construct_def move_request_check_def
        token_check_cases checked_def first_error.simps synthetic_check_def ready_check_def value_error_def raise_if_def)
next
  case (Some m)
  have "m\<lparr>mm_folder_key := d, mm_is_read := mm_is_read m\<rparr> = m\<lparr>mm_folder_key := d\<rparr>" for d by simp
  with Some assms show ?thesis
    by (simp add: op_outcome_def apply_op_def apply_fixture_message_move_def construct_def move_request_check_def
        token_check_cases checked_def first_error.simps synthetic_check_def ready_check_def value_error_def raise_if_def
        change_folder_exact)
qed

lemma archive_check_value_error: "archive_request_check q = Some e \<Longrightarrow> \<exists>n a. e = ValueError n a"
  by (auto simp: archive_request_check_def first_error.simps token_check_cases optional_token_def raise_if_def value_error_def
      split: if_splits option.splits)

lemma unready_outcome:
  assumes "\<not> (fx_synthetic f \<and> ready_for_readonly_discovery r)"
  shows "\<exists>n a. apply_op r op f = Inl (ValueError n a)"
proof -
  have gate: "\<exists>n a. first_error (synthetic_check code f # ready_check r # cs) = Some (ValueError n a)" for code cs
    using assms by (auto simp: first_error.simps synthetic_check_def ready_check_def raise_if_def value_error_def)
  show ?thesis
  proof (cases op)
    case (OpRead q)
    then show ?thesis using gate [of "''OUT-030''" "[]"]
      by (auto simp: apply_op_def construct_def read_mutation_check_def token_check_cases value_error_def
          apply_fixture_message_read_state_def checked_def)
  next
    case (OpArchive q)
    then show ?thesis using gate [of "''OUT-037''" "[]"]
      by (auto simp: apply_op_def construct_def apply_fixture_archive_mutation_def checked_def
          dest: archive_check_value_error split: option.splits)
  next
    case (OpMove q)
    obtain n a where g: "first_error [synthetic_check ''OUT-038'' f, ready_check r,
       raise_if (mv_target_folder_key q \<notin> set (fx_folders f)) (value_error ''target folder does not exist in synthetic fixture'')] =
       Some (ValueError n a)" using gate by blast
    show ?thesis
    proof (cases "move_request_check q")
      case None
      with g OpMove show ?thesis by (simp add: apply_op_def construct_def apply_fixture_message_move_def checked_def)
    next
      case (Some e)
      then have "\<exists>n a. e = ValueError n a"
        by (auto simp: move_request_check_def first_error.simps token_check_cases value_error_def split: if_splits)
      with Some OpMove show ?thesis by (auto simp: apply_op_def construct_def)
    qed
  qed
qed

lemma archive_outcome:
  assumes "fx_synthetic f" "ready_for_readonly_discovery r"
  shows "op_outcome f (OpArchive q) (apply_op r (OpArchive q) f)"
proof (cases "archive_request_check q")
  case (Some e)
  then have "\<exists>n a. e = ValueError n a" by (rule archive_check_value_error)
  with Some show ?thesis
    by (auto simp: op_outcome_def apply_op_def construct_def split: option.splits)
next
  case valid: None
  show ?thesis
  proof (cases "find_key mm_message_key (aq_message_key q) (fx_messages f)")
    case None
    with assms valid show ?thesis
      by (simp add: op_outcome_def apply_op_def apply_fixture_archive_mutation_def construct_def checked_def
          first_error.simps synthetic_check_def ready_check_def value_error_def)
  next
    case (Some m)
    have same: "m\<lparr>mm_folder_key := d, mm_is_read := mm_is_read m\<rparr> = m\<lparr>mm_folder_key := d\<rparr>" for d by simp
    have answer: "apply_op r (OpArchive q) f = map_sum id fst (bindE (archive_target q m) (\<lambda>target.
          checked [raise_if (target \<notin> set (fx_folders f)) (value_error ''target folder does not exist in synthetic fixture'')]
          (bindE (change_folder f (aq_message_key q) m target
             (RuntimeError ''synthetic read-back did not prove requested archive state'' [])) (\<lambda>(f', c).
           Inr (f', FolderChangeResult.extend c (ArchiveMutationResult.fields (aq_action q)))))))"
      using assms valid Some
      by (simp add: apply_op_def apply_fixture_archive_mutation_def construct_def checked_def [of "[_, _]"] first_error.simps
          synthetic_check_def ready_check_def)
    show ?thesis
    proof (cases "aq_action q")
      case DO_ARCHIVE
      with valid have "aq_restore_folder_key q = None" by (simp add: archive_request_check_def checks)
      with DO_ARCHIVE Some valid same show ?thesis
        unfolding op_outcome_def answer
        by (simp add: archive_target_def checked_def first_error.simps raise_if_def value_error_def change_folder_exact)
    next
      case DO_RESTORE
      with valid obtain target where t: "aq_restore_folder_key q = Some target"
        by (auto simp: archive_request_check_def checks)
      with DO_RESTORE Some valid same show ?thesis
        unfolding op_outcome_def answer
        by (simp add: archive_target_def checked_def first_error.simps raise_if_def value_error_def change_folder_exact)
    qed
  qed
qed

lemma outcome:
  assumes "fx_synthetic f" "ready_for_readonly_discovery r"
  shows "op_outcome f op (apply_op r op f)"
  by (cases op) (simp_all add: assms read_outcome move_outcome archive_outcome)

lemma same_mailbox_trans: "same_mailbox f g \<Longrightarrow> same_mailbox g h \<Longrightarrow> same_mailbox f h"
  by (auto simp: same_mailbox_def distinct_keys_def split: if_splits)

text \<open>A ready mailbox with the folders, keys and fixed fields of the one the history started from.\<close>

definition mailbox_like :: "OutlookMockFixture \<Rightarrow> OutlookReadinessReport \<Rightarrow> OutlookMockFixture \<Rightarrow> bool" where
  "mailbox_like f\<^sub>0 r f \<longleftrightarrow> fx_synthetic f\<^sub>0 \<and> ready_for_readonly_discovery r \<and> same_mailbox f\<^sub>0 f"

interpretation mailbox: keyed_machine "mailbox_like f\<^sub>0 r" status_of "apply_op r" op_key "status_spec (set (fx_folders f\<^sub>0))"
  for f\<^sub>0 r
proof
  fix f op f' e
  assume like: "mailbox_like f\<^sub>0 r f"
  then have f: "fx_synthetic f" "ready_for_readonly_discovery r" "fx_folders f = fx_folders f\<^sub>0" "same_mailbox f\<^sub>0 f"
    by (simp_all add: mailbox_like_def same_mailbox_def)
  note out = outcome [OF f(1,2), of op, unfolded op_outcome_def f(3)]
  show "status_spec (set (fx_folders f\<^sub>0)) op (status_of f (op_key op)) = None \<and> is_value_error e"
    if "apply_op r op f = Inl e"
    using out that by (auto simp: status_spec_def status_of_def is_value_error_def split: option.splits exn.splits)
  show "mailbox_like f\<^sub>0 r f' \<and> (\<exists>v. status_spec (set (fx_folders f\<^sub>0)) op (status_of f (op_key op)) = Some v \<and>
      status_of f' = (status_of f)(op_key op := v))"
    if "apply_op r op f = Inr f'"
  proof (cases "find_key mm_message_key (op_key op) (fx_messages f)")
    case None
    with out that show ?thesis by simp
  next
    case (Some m)
    with out that obtain d b where new: "new_status (set (fx_folders f\<^sub>0)) op (mm_folder_key m, mm_is_read m) = Some (d, b)"
      "f' = replace_message f (op_key op) (m\<lparr>mm_folder_key := d, mm_is_read := b\<rparr>)"
      by (auto split: option.splits)
    have "fixed_fields (m\<lparr>mm_folder_key := d, mm_is_read := b\<rparr>) = fixed_fields m" by (simp add: fixed_fields_def)
    note rep = replaced(2,3) [OF Some this]
    from same_mailbox_trans [OF f(4) rep(2)] like have "mailbox_like f\<^sub>0 r f'" by (simp add: mailbox_like_def new)
    moreover have "status_spec (set (fx_folders f\<^sub>0)) op (status_of f (op_key op)) = Some (Some (d, b))"
      by (simp add: status_spec_def status_of_def Some new)
    ultimately show ?thesis using rep(1) by (simp add: new)
  qed
qed

text \<open>C23. On a mailbox that is not synthetic or not ready, no request changes anything. On any other, a history
  of read, archive, restore and move requests, in any order and with refused ones among them, changes folder
  and read state of the messages exactly as the abstract machine does, one message at a time, and changes
  nothing else: the folders, the keys in their order, and, when the keys are distinct, subjects and
  attachments. No request ends in the error of a failed read-back.\<close>

theorem mailbox_history_refines:
  "(if fx_synthetic f \<and> ready_for_readonly_discovery r
    then status_of (fold (run_step (apply_op r)) ops f) =
        fold (spec_step op_key (status_spec (set (fx_folders f)))) ops (status_of f) \<and>
      same_mailbox f (fold (run_step (apply_op r)) ops f)
    else fold (run_step (apply_op r)) ops f = f) \<and>
   (case apply_op r op f of Inl (RuntimeError n a) \<Rightarrow> False | _ \<Rightarrow> True)"
proof (cases "fx_synthetic f \<and> ready_for_readonly_discovery r")
  case True
  then have like: "mailbox_like f r f" by (simp add: mailbox_like_def same_mailbox_def)
  with mailbox.run [OF like, of ops] mailbox.never_unproved [OF like, of op] True show ?thesis
    by (auto simp: mailbox_like_def split: sum.splits exn.splits)
next
  case False
  have "run_step (apply_op r) op f = f" for op using unready_outcome [OF False, of op] by (auto simp: run_step_def)
  then have "fold (run_step (apply_op r)) ops f = f" by (induction ops) simp_all
  with False unready_outcome [OF False, of op] show ?thesis by auto
qed

end
