(* ===== verification/Outlook_Markers.thy ===== *)
theory Outlook_Markers
  imports Outlook_Messages
begin

text \<open>
  Pinned and snoozed messages, kept as markers beside the messages: \<open>pin_snooze_reads.py\<close>,
  \<open>pin_mutations.py\<close> and \<open>snooze_mutations.py\<close>. A mutation takes and returns the tuple of markers and
  verifies itself through the read.

  The results: every history of requests refines a machine over the presentation of one message at a time; no
  message is ever pinned and snoozed; and the read-backs never fail.
\<close>

subsection \<open>Pinned and snoozed\<close>

datatype SnoozeState = NOT_SNOOZED | SNOOZED

record PinSnoozeMarker =
  pk_message_key :: string
  pk_is_pinned :: bool
  pk_snooze_state :: SnoozeState
  pk_snooze_until_day_offset :: "int option"

definition pin_marker_check :: "PinSnoozeMarker \<Rightarrow> exn option" where
  "pin_marker_check m = first_error [
     token_check ''message_key'' (pk_message_key m),
     (case pk_snooze_state m of
        SNOOZED \<Rightarrow> raise_if (pk_snooze_until_day_offset m = None)
          (value_error ''a snoozed message requires snooze_until_day_offset'')
      | NOT_SNOOZED \<Rightarrow> raise_if (pk_snooze_until_day_offset m \<noteq> None)
          (value_error ''snooze_until_day_offset is only valid for a snoozed message'')),
     day_window_check ''snooze_until_day_offset'' (pk_snooze_until_day_offset m),
     raise_if (pk_is_pinned m \<and> pk_snooze_state m = SNOOZED)
       (value_error ''a message must not be pinned and snoozed simultaneously'')]"

record PinSnoozeReadState =
  ps_marker :: PinSnoozeMarker
  ps_is_snooze_elapsed :: bool
  ps_is_hidden_from_default_list :: bool
  ps_synthetic :: bool

record PinSnoozeListResult =
  pl_items :: "PinSnoozeReadState list"
  pl_pinned_count :: nat
  pl_snoozed_count :: nat
  pl_hidden_count :: nat
  pl_reference_day_offset :: int
  pl_synthetic :: bool

definition plain_marker :: "string \<Rightarrow> PinSnoozeMarker" where
  "plain_marker key = \<lparr>pk_message_key = key, pk_is_pinned = False, pk_snooze_state = NOT_SNOOZED,
     pk_snooze_until_day_offset = None\<rparr>"

definition default_synthetic_pin_snooze_markers :: "PinSnoozeMarker list" where
  "default_synthetic_pin_snooze_markers = [
     (plain_marker ''msg-001'')\<lparr>pk_is_pinned := True\<rparr>,
     (plain_marker ''msg-002'')\<lparr>pk_snooze_state := SNOOZED, pk_snooze_until_day_offset := Some 3\<rparr>]"

definition known_messages :: "OutlookMockFixture \<Rightarrow> string set" where
  "known_messages f = mm_message_key ` set (fx_messages f)"

definition pin_catalog_checks :: "OutlookMockFixture \<Rightarrow> PinSnoozeMarker list \<Rightarrow> exn option list" where
  "pin_catalog_checks f ms = [
     raise_if (\<not> distinct_keys pk_message_key ms) (value_error ''pin/snooze markers must be unique per message_key''),
     raise_if (list_ex (\<lambda>m. pk_message_key m \<notin> known_messages f) ms)
       (value_error ''pin/snooze marker references unknown synthetic message_key'')]"

definition project_marker :: "int \<Rightarrow> PinSnoozeMarker \<Rightarrow> PinSnoozeReadState" where
  "project_marker reference m = (let snoozed = (pk_snooze_state m = SNOOZED);
       elapsed = (snoozed \<and> (case pk_snooze_until_day_offset m of None \<Rightarrow> False | Some d \<Rightarrow> d \<le> reference)) in
     \<lparr>ps_marker = m, ps_is_snooze_elapsed = elapsed, ps_is_hidden_from_default_list = (snoozed \<and> \<not> elapsed),
      ps_synthetic = True\<rparr>)"

definition reference_check :: "int \<Rightarrow> exn option" where
  "reference_check d = day_window_check ''reference_day_offset'' (Some d)"

definition message_known_check :: "OutlookMockFixture \<Rightarrow> string \<Rightarrow> exn option" where
  "message_known_check f key = raise_if (key \<notin> known_messages f) (value_error ''synthetic message_key not found'')"

definition pin_markers_or_default :: "PinSnoozeMarker list option \<Rightarrow> PinSnoozeMarker list" where
  "pin_markers_or_default markers = (case markers of None \<Rightarrow> default_synthetic_pin_snooze_markers | Some ms \<Rightarrow> ms)"

definition read_fixture_pin_snooze_state ::
  "OutlookMockFixture \<Rightarrow> string \<Rightarrow> OutlookReadinessReport \<Rightarrow> PinSnoozeMarker list option \<Rightarrow> int \<Rightarrow> PinSnoozeReadState result" where
  "read_fixture_pin_snooze_state f key r markers reference = (let catalog = pin_markers_or_default markers in
     checked ([trimmed_check ''message_key'' key, synthetic_check ''OUT-019'' f, ready_check r, reference_check reference,
       message_known_check f key] @ pin_catalog_checks f catalog)
     (bindE (case find_key pk_message_key key catalog of
        None \<Rightarrow> construct pin_marker_check (plain_marker key)
      | Some m \<Rightarrow> Inr m) (\<lambda>m. Inr (project_marker reference m))))"

definition list_fixture_pin_snooze_state ::
  "OutlookMockFixture \<Rightarrow> OutlookReadinessReport \<Rightarrow> PinSnoozeMarker list option \<Rightarrow> int \<Rightarrow> PinSnoozeListResult result" where
  "list_fixture_pin_snooze_state f r markers reference = (let catalog = pin_markers_or_default markers in
     checked ([synthetic_check ''OUT-019'' f, ready_check r, reference_check reference] @ pin_catalog_checks f catalog)
     (bindE (mapE (\<lambda>message.
         bindE (construct pin_marker_check (plain_marker (mm_message_key message))) (\<lambda>plain.
         Inr (project_marker reference (case by_last pk_message_key catalog (mm_message_key message) of
           None \<Rightarrow> plain | Some m \<Rightarrow> m)))) (fx_messages f)) (\<lambda>items.
      Inr \<lparr>pl_items = items, pl_pinned_count = length (filter (pk_is_pinned \<circ> ps_marker) items),
        pl_snoozed_count = length (filter (\<lambda>i. pk_snooze_state (ps_marker i) = SNOOZED) items),
        pl_hidden_count = length (filter ps_is_hidden_from_default_list items),
        pl_reference_day_offset = reference, pl_synthetic = True\<rparr>)))"

datatype PinMutationAction = DO_PIN | DO_UNPIN

record PinMutationRequest =
  pq_action :: PinMutationAction
  pq_message_key :: string

definition pin_request_check :: "PinMutationRequest \<Rightarrow> exn option" where
  "pin_request_check q = token_check ''message_key'' (pq_message_key q)"

record PinMutationResult =
  pr_action :: PinMutationAction
  pr_message_key :: string
  pr_previous_is_pinned :: bool
  pr_read_back_is_pinned :: bool
  pr_changed :: bool
  pr_verified :: bool
  pr_synthetic :: bool

definition apply_fixture_pin_mutation ::
  "OutlookMockFixture \<Rightarrow> PinMutationRequest \<Rightarrow> OutlookReadinessReport \<Rightarrow> PinSnoozeMarker list \<Rightarrow>
   (PinSnoozeMarker list \<times> PinMutationResult) result" where
  "apply_fixture_pin_mutation f q r markers = (let key = pq_message_key q; current = find_key pk_message_key key markers in
     checked [synthetic_check ''OUT-035'' f, ready_check r, message_known_check f key]
     (bindE (case pq_action q of
        DO_PIN \<Rightarrow>
          checked [raise_if (case current of None \<Rightarrow> False | Some m \<Rightarrow> pk_snooze_state m = SNOOZED)
            (value_error ''snoozed message must be unsnoozed before pinning'')]
          (bindE (construct pin_marker_check ((plain_marker key)\<lparr>pk_is_pinned := True\<rparr>)) (\<lambda>replacement.
           Inr (put_last pk_message_key replacement markers, current \<noteq> Some replacement)))
      | DO_UNPIN \<Rightarrow> Inr (case current of
          None \<Rightarrow> (markers, False)
        | Some m \<Rightarrow> if pk_snooze_state m = SNOOZED then (markers, False)
            else (remove_key pk_message_key key markers, pk_is_pinned m))) (\<lambda>(updated, changed).
      bindE (read_fixture_pin_snooze_state f key r (Some updated) 0) (\<lambda>read_back.
      checked [raise_if (pk_is_pinned (ps_marker read_back) \<noteq> (pq_action q = DO_PIN))
        (RuntimeError ''synthetic pin read-back did not prove requested state'' [])]
      (Inr (updated, \<lparr>pr_action = pq_action q, pr_message_key = key,
         pr_previous_is_pinned = (case current of None \<Rightarrow> False | Some m \<Rightarrow> pk_is_pinned m),
         pr_read_back_is_pinned = pk_is_pinned (ps_marker read_back), pr_changed = changed, pr_verified = True,
         pr_synthetic = True\<rparr>))))))"

datatype SnoozeMutationAction = DO_SNOOZE | DO_UNSNOOZE

record SnoozeMutationRequest =
  zq_action :: SnoozeMutationAction
  zq_message_key :: string
  zq_snooze_until_day_offset :: "int option"

definition snooze_request_check :: "SnoozeMutationRequest \<Rightarrow> exn option" where
  "snooze_request_check q = first_error [
     token_check ''message_key'' (zq_message_key q),
     (case zq_action q of
        DO_SNOOZE \<Rightarrow> (case zq_snooze_until_day_offset q of
            None \<Rightarrow> Some (value_error ''snooze requires snooze_until_day_offset'')
          | Some d \<Rightarrow> raise_if (\<not> (MIN_DAY_OFFSET \<le> d \<and> d \<le> MAX_DAY_OFFSET))
              (value_error ''snooze_until_day_offset exceeds bounded window''))
      | DO_UNSNOOZE \<Rightarrow> raise_if (zq_snooze_until_day_offset q \<noteq> None)
          (value_error ''unsnooze must not carry snooze_until_day_offset''))]"

record SnoozeMutationResult =
  zr_action :: SnoozeMutationAction
  zr_message_key :: string
  zr_previous_state :: SnoozeState
  zr_read_back_state :: SnoozeState
  zr_read_back_until_day_offset :: "int option"
  zr_changed :: bool
  zr_verified :: bool
  zr_synthetic :: bool

definition apply_fixture_snooze_mutation ::
  "OutlookMockFixture \<Rightarrow> SnoozeMutationRequest \<Rightarrow> OutlookReadinessReport \<Rightarrow> PinSnoozeMarker list \<Rightarrow>
   (PinSnoozeMarker list \<times> SnoozeMutationResult) result" where
  "apply_fixture_snooze_mutation f q r markers = (let key = zq_message_key q; current = find_key pk_message_key key markers in
     checked [synthetic_check ''OUT-036'' f, ready_check r, message_known_check f key]
     (bindE (case zq_action q of
        DO_SNOOZE \<Rightarrow>
          checked [raise_if (case current of None \<Rightarrow> False | Some m \<Rightarrow> pk_is_pinned m)
            (value_error ''pinned message must be unpinned before snoozing'')]
          (bindE (construct pin_marker_check ((plain_marker key)\<lparr>pk_snooze_state := SNOOZED,
             pk_snooze_until_day_offset := zq_snooze_until_day_offset q\<rparr>)) (\<lambda>replacement.
           Inr (put_last pk_message_key replacement markers, current \<noteq> Some replacement)))
      | DO_UNSNOOZE \<Rightarrow> Inr (case current of
          None \<Rightarrow> (markers, False)
        | Some m \<Rightarrow> if pk_snooze_state m = NOT_SNOOZED then (markers, False)
            else (remove_key pk_message_key key markers, True))) (\<lambda>(updated, changed).
      bindE (read_fixture_pin_snooze_state f key r (Some updated) 0) (\<lambda>read_back.
      let m = ps_marker read_back;
          expected = (if zq_action q = DO_SNOOZE then (SNOOZED, zq_snooze_until_day_offset q) else (NOT_SNOOZED, None)) in
      checked [raise_if ((pk_snooze_state m, pk_snooze_until_day_offset m) \<noteq> expected)
        (RuntimeError ''synthetic snooze read-back did not prove requested state'' [])]
      (Inr (updated, \<lparr>zr_action = zq_action q, zr_message_key = key,
         zr_previous_state = (case current of None \<Rightarrow> NOT_SNOOZED | Some m \<Rightarrow> pk_snooze_state m),
         zr_read_back_state = pk_snooze_state m, zr_read_back_until_day_offset = pk_snooze_until_day_offset m,
         zr_changed = changed, zr_verified = True, zr_synthetic = True\<rparr>))))))"

subsection \<open>Presentation of a message\<close>

datatype presentation = SHOWN_PLAIN | SHOWN_PINNED | HIDDEN_UNTIL int

datatype marker_op = OpPin PinMutationRequest | OpSnooze SnoozeMutationRequest

fun marker_op_key :: "marker_op \<Rightarrow> string" where
  "marker_op_key (OpPin q) = pq_message_key q"
| "marker_op_key (OpSnooze q) = zq_message_key q"

definition apply_marker_op :: "OutlookMockFixture \<Rightarrow> OutlookReadinessReport \<Rightarrow> marker_op \<Rightarrow> PinSnoozeMarker list \<Rightarrow> PinSnoozeMarker list result" where
  "apply_marker_op f r op ms = (case op of
     OpPin q \<Rightarrow> bindE (construct pin_request_check q) (\<lambda>q. map_sum id fst (apply_fixture_pin_mutation f q r ms))
   | OpSnooze q \<Rightarrow> bindE (construct snooze_request_check q) (\<lambda>q. map_sum id fst (apply_fixture_snooze_mutation f q r ms)))"

text \<open>The abstract machine: what a valid request makes of the presentation, \<open>None\<close> when it refuses.\<close>

fun new_presentation :: "marker_op \<Rightarrow> presentation \<Rightarrow> presentation option" where
  "new_presentation (OpPin q) p = (if bad_token (pq_message_key q) then None else
     (case pq_action q of
        DO_PIN \<Rightarrow> (case p of HIDDEN_UNTIL d \<Rightarrow> None | _ \<Rightarrow> Some SHOWN_PINNED)
      | DO_UNPIN \<Rightarrow> Some (if p = SHOWN_PINNED then SHOWN_PLAIN else p)))"
| "new_presentation (OpSnooze q) p = (if snooze_request_check q \<noteq> None then None else
     (case zq_snooze_until_day_offset q of
        Some d \<Rightarrow> (if p = SHOWN_PINNED then None else Some (HIDDEN_UNTIL d))
      | None \<Rightarrow> Some (case p of HIDDEN_UNTIL d \<Rightarrow> SHOWN_PLAIN | _ \<Rightarrow> p)))"

definition presentation_of :: "PinSnoozeMarker option \<Rightarrow> presentation" where
  "presentation_of m = (case m of None \<Rightarrow> SHOWN_PLAIN | Some m \<Rightarrow>
     if pk_is_pinned m then SHOWN_PINNED
     else (case pk_snooze_until_day_offset m of None \<Rightarrow> SHOWN_PLAIN | Some d \<Rightarrow> HIDDEN_UNTIL d))"

text \<open>The presentation of every message of the mailbox, \<open>None\<close> for a key that is not a message.\<close>

definition shown :: "OutlookMockFixture \<Rightarrow> PinSnoozeMarker list \<Rightarrow> string \<Rightarrow> presentation option" where
  "shown f ms k = (if k \<in> known_messages f then Some (presentation_of (find_key pk_message_key k ms)) else None)"

definition presentation_spec :: "marker_op \<Rightarrow> presentation option \<Rightarrow> presentation option option" where
  "presentation_spec op s = (case s of None \<Rightarrow> None | Some p \<Rightarrow> map_option Some (new_presentation op p))"

definition markers_ok :: "OutlookMockFixture \<Rightarrow> OutlookReadinessReport \<Rightarrow> PinSnoozeMarker list \<Rightarrow> bool" where
  "markers_ok f r ms \<longleftrightarrow> fx_synthetic f \<and> ready_for_readonly_discovery r \<and> distinct_keys pk_message_key ms \<and>
     list_all (\<lambda>m. pk_message_key m \<in> known_messages f \<and> pin_marker_check m = None) ms"

lemma pin_marker_check_None: "pin_marker_check m = None \<longleftrightarrow> \<not> bad_token (pk_message_key m) \<and>
    (pk_snooze_state m = SNOOZED \<longleftrightarrow> pk_snooze_until_day_offset m \<noteq> None) \<and>
    (case pk_snooze_until_day_offset m of None \<Rightarrow> True | Some d \<Rightarrow> MIN_DAY_OFFSET \<le> d \<and> d \<le> MAX_DAY_OFFSET) \<and>
    \<not> (pk_is_pinned m \<and> pk_snooze_state m = SNOOZED)"
  by (cases "pk_snooze_state m") (auto simp: pin_marker_check_def checks first_error.simps(1) day_window_check_def split: option.splits)

lemma snooze_request_None: "snooze_request_check q = None \<longleftrightarrow> \<not> bad_token (zq_message_key q) \<and>
    (case zq_snooze_until_day_offset q of None \<Rightarrow> zq_action q = DO_UNSNOOZE
     | Some d \<Rightarrow> zq_action q = DO_SNOOZE \<and> MIN_DAY_OFFSET \<le> d \<and> d \<le> MAX_DAY_OFFSET)"
  by (cases "zq_action q") (auto simp: snooze_request_check_def checks first_error.simps(1) split: option.splits)

lemma markers_ok_remove: "markers_ok f r ms \<Longrightarrow> markers_ok f r (remove_key pk_message_key k ms)"
  by (auto simp: markers_ok_def distinct_remove list_all_iff remove_key_set)

lemma markers_ok_put:
  assumes "markers_ok f r ms" "pin_marker_check m = None" "pk_message_key m \<in> known_messages f"
  shows "markers_ok f r (put_last pk_message_key m ms)"
proof -
  from assms(1) have d: "distinct_keys pk_message_key ms" by (simp add: markers_ok_def)
  from assms last.put_ok [OF d, of m] last.elements [OF d, of m] show ?thesis
    by (auto simp: markers_ok_def list_all_iff)
qed

lemma shown_remove: "shown f (remove_key pk_message_key k ms) =
    (if k \<in> known_messages f then (shown f ms)(k \<mapsto> SHOWN_PLAIN) else shown f ms)"
  by (auto simp: shown_def find_key_remove presentation_of_def fun_eq_iff)

lemma shown_put:
  assumes "markers_ok f r ms" "pk_message_key m \<in> known_messages f"
  shows "shown f (put_last pk_message_key m ms) = (shown f ms)(pk_message_key m \<mapsto> presentation_of (Some m))"
proof -
  from assms(1) have d: "distinct_keys pk_message_key ms" by (simp add: markers_ok_def)
  show ?thesis using assms(2) by (auto simp: shown_def fun_eq_iff last.lookup_put [OF d])
qed

text \<open>The read of a valid catalogue answers for every message.\<close>

lemma read_marker:
  assumes "markers_ok f r ms" "\<not> bad_token k" "k \<in> known_messages f"
  shows "read_fixture_pin_snooze_state f k r (Some ms) 0 =
     Inr (project_marker 0 (case find_key pk_message_key k ms of None \<Rightarrow> plain_marker k | Some m \<Rightarrow> m))"
proof -
  have plain: "pin_marker_check (plain_marker k) = None" using assms(2) by (simp add: pin_marker_check_None plain_marker_def)
  have "first_error ([trimmed_check ''message_key'' k, synthetic_check ''OUT-019'' f, ready_check r, reference_check 0,
       message_known_check f k] @ pin_catalog_checks f ms) = None"
    using assms token_trimmed [OF assms(2)]
    by (auto simp: checks first_error.simps(1) reference_check_def day_window_check_def MIN_DAY_OFFSET_def MAX_DAY_OFFSET_def
        message_known_check_def pin_catalog_checks_def markers_ok_def list_all_iff list_ex_iff)
  then show ?thesis
    by (simp add: read_fixture_pin_snooze_state_def pin_markers_or_default_def checked_def construct_def plain
        split: option.split)
qed

definition marker_outcome :: "OutlookMockFixture \<Rightarrow> OutlookReadinessReport \<Rightarrow> marker_op \<Rightarrow> PinSnoozeMarker list \<Rightarrow>
    PinSnoozeMarker list result \<Rightarrow> bool" where
  "marker_outcome f r op ms outcome \<longleftrightarrow> (case presentation_spec op (shown f ms (marker_op_key op)) of
     None \<Rightarrow> (case outcome of Inl e \<Rightarrow> is_value_error e | Inr ms' \<Rightarrow> False)
   | Some v \<Rightarrow> (case outcome of Inl e \<Rightarrow> False
       | Inr ms' \<Rightarrow> markers_ok f r ms' \<and> shown f ms' = (shown f ms)(marker_op_key op := v)))"

lemma pin_outcome:
  assumes ok: "markers_ok f r ms"
  shows "marker_outcome f r (OpPin q) ms (apply_marker_op f r (OpPin q) ms)"
proof -
  let ?k = "pq_message_key q" and ?cur = "find_key pk_message_key (pq_message_key q) ms"
  from ok have gate: "fx_synthetic f" "ready_for_readonly_discovery r" by (simp_all add: markers_ok_def)
  show ?thesis
  proof (cases "\<not> bad_token ?k \<and> ?k \<in> known_messages f")
    case False
    with gate show ?thesis
      by (auto simp: marker_outcome_def presentation_spec_def shown_def apply_marker_op_def construct_def pin_request_check_def
          token_check_cases apply_fixture_pin_mutation_def Let_def checked_def first_error.simps synthetic_check_def ready_check_def
          message_known_check_def raise_if_def split: option.splits)
  next
    case True
    let ?new = "(plain_marker ?k)\<lparr>pk_is_pinned := True\<rparr>"
    have new: "pin_marker_check ?new = None" "pk_message_key ?new = ?k" "presentation_of (Some ?new) = SHOWN_PINNED"
      using True by (simp_all add: pin_marker_check_None plain_marker_def presentation_of_def)
    have put: "markers_ok f r (put_last pk_message_key ?new ms)"
      "find_key pk_message_key ?k (put_last pk_message_key ?new ms) = Some ?new"
      "shown f (put_last pk_message_key ?new ms) = (shown f ms)(?k \<mapsto> SHOWN_PINNED)"
      using markers_ok_put [OF ok new(1)] shown_put [OF ok, of ?new] True last.read_back [of pk_message_key ms ?new] ok new
      by (simp_all add: markers_ok_def)
    have gone: "find_key pk_message_key ?k (remove_key pk_message_key ?k ms) = None" by (simp add: find_key_remove)
    have valid: "pin_marker_check m = None" if "?cur = Some m" for m
      using ok find_key_Some [OF that] by (simp add: markers_ok_def list_all_iff)
    have read: "\<And>ms'. markers_ok f r ms' \<Longrightarrow> read_fixture_pin_snooze_state f ?k r (Some ms') 0 =
        Inr (project_marker 0 (case find_key pk_message_key ?k ms' of None \<Rightarrow> plain_marker ?k | Some m \<Rightarrow> m))"
      using read_marker True by blast
    have known: "shown f ms ?k = Some (presentation_of ?cur)" using True by (simp add: shown_def)
    note answer = marker_outcome_def presentation_spec_def apply_marker_op_def construct_def pin_request_check_def
      token_check_cases apply_fixture_pin_mutation_def Let_def checked_def first_error.simps synthetic_check_def ready_check_def
      message_known_check_def raise_if_def project_marker_def
    show ?thesis
    proof (cases "pq_action q")
      case DO_PIN
      show ?thesis
      proof (cases "presentation_of ?cur")
        case (HIDDEN_UNTIL d)
        then obtain m where m: "?cur = Some m" "pk_snooze_until_day_offset m = Some d" "\<not> pk_is_pinned m"
          by (auto simp: presentation_of_def split: option.splits if_splits)
        with valid have "pk_snooze_state m = SNOOZED" by (simp add: pin_marker_check_None)
        with DO_PIN HIDDEN_UNTIL True gate m known show ?thesis by (simp add: answer)
      next
        case SHOWN_PLAIN
        then have "(case ?cur of None \<Rightarrow> False | Some m \<Rightarrow> pk_snooze_state m = SNOOZED) = False"
          using valid by (auto simp: presentation_of_def pin_marker_check_None split: option.splits if_splits)
        with DO_PIN SHOWN_PLAIN True gate known new put read [OF put(1)] show ?thesis by (simp add: answer)
      next
        case SHOWN_PINNED
        then have "(case ?cur of None \<Rightarrow> False | Some m \<Rightarrow> pk_snooze_state m = SNOOZED) = False"
          using valid by (auto simp: presentation_of_def pin_marker_check_None split: option.splits if_splits)
        with DO_PIN SHOWN_PINNED True gate known new put read [OF put(1)] show ?thesis by (simp add: answer)
      qed
    next
      case DO_UNPIN
      have removed: "markers_ok f r (remove_key pk_message_key ?k ms)"
        "shown f (remove_key pk_message_key ?k ms) = (shown f ms)(?k \<mapsto> SHOWN_PLAIN)"
        using ok True by (simp_all add: markers_ok_remove shown_remove)
      show ?thesis
      proof (cases ?cur)
        case None
        then have "(shown f ms)(?k \<mapsto> SHOWN_PLAIN) = shown f ms" using known by (auto simp: presentation_of_def)
        with None DO_UNPIN True gate known ok read [OF ok] show ?thesis
          by (simp add: answer presentation_of_def plain_marker_def)
      next
        case (Some m)
        show ?thesis
        proof (cases "pk_snooze_state m = SNOOZED")
          case snoozed: True
          with valid [OF Some] obtain d where d: "pk_snooze_until_day_offset m = Some d" "\<not> pk_is_pinned m"
            by (auto simp: pin_marker_check_None)
          with Some have p: "presentation_of ?cur = HIDDEN_UNTIL d" by (simp add: presentation_of_def)
          then have "(shown f ms)(?k \<mapsto> HIDDEN_UNTIL d) = shown f ms" using known by auto
          with Some snoozed DO_UNPIN True gate known ok read [OF ok] d p show ?thesis by (simp add: answer)
        next
          case False
          with valid [OF Some] have "pk_snooze_until_day_offset m = None" by (auto simp: pin_marker_check_None)
          then have p: "presentation_of (Some m) = (if pk_is_pinned m then SHOWN_PINNED else SHOWN_PLAIN)"
            by (simp add: presentation_of_def)
          with Some False DO_UNPIN True gate known removed gone read [OF removed(1)] show ?thesis
            by (simp add: answer plain_marker_def)
        qed
      qed
    qed
  qed
qed

lemma snooze_outcome:
  assumes ok: "markers_ok f r ms"
  shows "marker_outcome f r (OpSnooze q) ms (apply_marker_op f r (OpSnooze q) ms)"
proof -
  let ?k = "zq_message_key q" and ?cur = "find_key pk_message_key (zq_message_key q) ms"
  from ok have gate: "fx_synthetic f" "ready_for_readonly_discovery r" by (simp_all add: markers_ok_def)
  note answer = marker_outcome_def presentation_spec_def apply_marker_op_def construct_def
    apply_fixture_snooze_mutation_def Let_def checked_def first_error.simps synthetic_check_def ready_check_def
    message_known_check_def raise_if_def project_marker_def
  show ?thesis
  proof (cases "snooze_request_check q")
    case (Some e)
    then have "is_value_error e"
      by (auto simp: snooze_request_check_def first_error.simps token_check_cases raise_if_def
          split: SnoozeMutationAction.splits option.splits if_splits)
    with Some show ?thesis by (simp add: answer shown_def)
  next
    case None
    show ?thesis
    proof (cases "?k \<in> known_messages f")
      case False
      with None gate show ?thesis by (simp add: answer shown_def)
    next
      case True
      from None have tok: "\<not> bad_token ?k" by (simp add: snooze_request_None)
      have known: "shown f ms ?k = Some (presentation_of ?cur)" using True by (simp add: shown_def)
      have valid: "pin_marker_check m = None" if "?cur = Some m" for m
        using ok find_key_Some [OF that] by (simp add: markers_ok_def list_all_iff)
      have read: "\<And>ms'. markers_ok f r ms' \<Longrightarrow> read_fixture_pin_snooze_state f ?k r (Some ms') 0 =
          Inr (project_marker 0 (case find_key pk_message_key ?k ms' of None \<Rightarrow> plain_marker ?k | Some m \<Rightarrow> m))"
        using read_marker tok True by blast
      show ?thesis
      proof (cases "zq_snooze_until_day_offset q")
        case (Some d)
        with None have b: "zq_action q = DO_SNOOZE" "MIN_DAY_OFFSET \<le> d" "d \<le> MAX_DAY_OFFSET" by (simp_all add: snooze_request_None)
        let ?new = "(plain_marker ?k)\<lparr>pk_snooze_state := SNOOZED, pk_snooze_until_day_offset := Some d\<rparr>"
        have new: "pin_marker_check ?new = None" "pk_message_key ?new = ?k" "presentation_of (Some ?new) = HIDDEN_UNTIL d"
          using tok b by (simp_all add: pin_marker_check_None plain_marker_def presentation_of_def)
        have put: "markers_ok f r (put_last pk_message_key ?new ms)"
          "find_key pk_message_key ?k (put_last pk_message_key ?new ms) = Some ?new"
          "shown f (put_last pk_message_key ?new ms) = (shown f ms)(?k \<mapsto> HIDDEN_UNTIL d)"
          using markers_ok_put [OF ok new(1)] shown_put [OF ok, of ?new] True last.read_back [of pk_message_key ms ?new] ok new
          by (simp_all add: markers_ok_def)
        have pinned: "(case ?cur of None \<Rightarrow> False | Some m \<Rightarrow> pk_is_pinned m) = (presentation_of ?cur = SHOWN_PINNED)"
          by (simp add: presentation_of_def split: option.split)
        show ?thesis
        proof (cases "presentation_of ?cur = SHOWN_PINNED")
          case pin: True
          with None Some b True gate known pinned show ?thesis by (simp add: answer)
        next
          case False
          with None Some b True gate known pinned new put read [OF put(1)] show ?thesis by (simp add: answer)
        qed
      next
        case until: None
        with None have act: "zq_action q = DO_UNSNOOZE" by (simp add: snooze_request_None)
        have removed: "markers_ok f r (remove_key pk_message_key ?k ms)"
          "shown f (remove_key pk_message_key ?k ms) = (shown f ms)(?k \<mapsto> SHOWN_PLAIN)"
          "find_key pk_message_key ?k (remove_key pk_message_key ?k ms) = None"
          using ok True by (simp_all add: markers_ok_remove shown_remove find_key_remove)
        show ?thesis
        proof (cases ?cur)
          case cur: None
          then have "(shown f ms)(?k \<mapsto> SHOWN_PLAIN) = shown f ms" using known by (auto simp: presentation_of_def)
          with cur None until act True gate known ok read [OF ok] show ?thesis
            by (simp add: answer presentation_of_def plain_marker_def)
        next
          case cur: (Some m)
          show ?thesis
          proof (cases "pk_snooze_state m")
            case SNOOZED
            with valid [OF cur] obtain d where d: "pk_snooze_until_day_offset m = Some d" "\<not> pk_is_pinned m"
              by (auto simp: pin_marker_check_None)
            then have p: "presentation_of (Some m) = HIDDEN_UNTIL d" by (simp add: presentation_of_def)
            with SNOOZED cur None until act True gate known removed read [OF removed(1)] show ?thesis
              by (simp add: answer plain_marker_def)
          next
            case NOT_SNOOZED
            with valid [OF cur] have d: "pk_snooze_until_day_offset m = None" by (auto simp: pin_marker_check_None)
            then have p: "presentation_of (Some m) = (if pk_is_pinned m then SHOWN_PINNED else SHOWN_PLAIN)"
              by (simp add: presentation_of_def)
            have "(shown f ms)(?k \<mapsto> presentation_of (Some m)) = shown f ms" using known cur by auto
            with NOT_SNOOZED p cur None until act True gate known ok d read [OF ok] show ?thesis
              by (cases "pk_is_pinned m") (simp_all add: answer)
          qed
        qed
      qed
    qed
  qed
qed

interpretation markers: keyed_machine "markers_ok f r" "shown f" "apply_marker_op f r" marker_op_key presentation_spec for f r
proof
  fix ms op ms' e
  assume ok: "markers_ok f r ms"
  then have out: "marker_outcome f r op ms (apply_marker_op f r op ms)" by (cases op) (simp_all add: pin_outcome snooze_outcome)
  show "markers_ok f r ms' \<and> (\<exists>v. presentation_spec op (shown f ms (marker_op_key op)) = Some v \<and>
      shown f ms' = (shown f ms)(marker_op_key op := v))" if "apply_marker_op f r op ms = Inr ms'"
    using out that by (auto simp: marker_outcome_def split: option.splits)
  show "presentation_spec op (shown f ms (marker_op_key op)) = None \<and> is_value_error e" if "apply_marker_op f r op ms = Inl e"
    using out that by (auto simp: marker_outcome_def split: option.splits)
qed

text \<open>C25. Pinning and snoozing refine a machine over one message at a time, with three states: shown, pinned,
  and hidden until a day. From valid markers of a ready mailbox, any history of requests leaves valid markers,
  among them none that is pinned and snoozed, whose presentation is the one of the machine; a request succeeds
  exactly when the machine does not refuse it; and no read-back fails.\<close>

theorem presentation_history_refines:
  "if markers_ok f r ms
   then markers_ok f r (fold (run_step (apply_marker_op f r)) ops ms) \<and>
     shown f (fold (run_step (apply_marker_op f r)) ops ms) = fold (spec_step marker_op_key presentation_spec) ops (shown f ms) \<and>
     list_all (\<lambda>m. (pk_is_pinned m \<and> pk_snooze_state m = SNOOZED) = False) (fold (run_step (apply_marker_op f r)) ops ms) \<and>
     (case apply_marker_op f r op ms of
        Inl e \<Rightarrow> presentation_spec op (shown f ms (marker_op_key op)) = None \<and> is_value_error e
      | Inr ms' \<Rightarrow> (presentation_spec op (shown f ms (marker_op_key op)) = None) = False)
   else True"
proof (cases "markers_ok f r ms")
  case True
  note run = markers.run [OF True, of ops]
  then have "list_all (\<lambda>m. (pk_is_pinned m \<and> pk_snooze_state m = SNOOZED) = False) (fold (run_step (apply_marker_op f r)) ops ms)"
    by (auto simp: markers_ok_def list_all_iff pin_marker_check_None)
  with True run markers.accepted [OF True, of op] markers.refused [OF True, of op] show ?thesis
    by (auto split: sum.splits)
next
  case False
  then show ?thesis by (simp only: if_False)
qed

end
