(* ===== verification/Outlook_Follow_Up.thy ===== *)
theory Outlook_Follow_Up
  imports Outlook_Markers
begin

text \<open>
  Follow-up flags of the messages: their reads (\<open>follow_up_reads.py\<close>), flagging, unflagging and completing
  (\<open>flag_mutations.py\<close>) and their schedule (\<open>follow_up_schedule_mutations.py\<close>).

  The results: every history of requests refines a machine over the follow-up of one message at a time, a
  completed follow-up is never flagged again without being removed first, the read-backs never fail; and
  flagging a flagged message loses its reminder.
\<close>

subsection \<open>Follow-up flags\<close>

datatype FollowUpState = NOT_FLAGGED | FLAGGED | COMPLETED

record FollowUpFlag =
  ff_message_key :: string
  ff_state :: FollowUpState
  ff_start_day_offset :: "int option"
  ff_due_day_offset :: "int option"
  ff_reminder_day_offset :: "int option"
  ff_completed_day_offset :: "int option"

text \<open>\<open>b < a\<close> where both are given.\<close>

definition precedes :: "int option \<Rightarrow> int option \<Rightarrow> bool" where
  "precedes b a = (case (b, a) of (Some y, Some x) \<Rightarrow> y < x | _ \<Rightarrow> False)"

definition flag_check :: "FollowUpFlag \<Rightarrow> exn option" where
  "flag_check x = first_error [
     token_check ''message_key'' (ff_message_key x),
     day_window_check ''start_day_offset'' (ff_start_day_offset x),
     day_window_check ''due_day_offset'' (ff_due_day_offset x),
     day_window_check ''reminder_day_offset'' (ff_reminder_day_offset x),
     day_window_check ''completed_day_offset'' (ff_completed_day_offset x),
     raise_if (ff_state x = NOT_FLAGGED \<and> (ff_start_day_offset x \<noteq> None \<or> ff_due_day_offset x \<noteq> None \<or>
         ff_reminder_day_offset x \<noteq> None \<or> ff_completed_day_offset x \<noteq> None))
       (value_error ''an unflagged message must not carry follow-up scheduling''),
     raise_if (ff_state x = COMPLETED \<and> ff_completed_day_offset x = None)
       (value_error ''a completed follow-up requires completed_day_offset''),
     raise_if (ff_state x \<noteq> COMPLETED \<and> ff_completed_day_offset x \<noteq> None)
       (value_error ''completed_day_offset is only valid for a completed follow-up''),
     raise_if (ff_state x = COMPLETED \<and> ff_reminder_day_offset x \<noteq> None)
       (value_error ''a completed follow-up must not retain a reminder''),
     raise_if (precedes (ff_due_day_offset x) (ff_start_day_offset x))
       (value_error ''due_day_offset must not precede start_day_offset''),
     raise_if (precedes (ff_reminder_day_offset x) (ff_start_day_offset x))
       (value_error ''reminder_day_offset must not precede start_day_offset''),
     raise_if (precedes (ff_due_day_offset x) (ff_reminder_day_offset x))
       (value_error ''reminder_day_offset must not follow due_day_offset'')]"

record FollowUpReadState =
  fr_flag :: FollowUpFlag
  fr_is_flagged :: bool
  fr_is_completed :: bool
  fr_synthetic :: bool

record FollowUpListResult =
  fu_items :: "FollowUpReadState list"
  fu_flagged_count :: nat
  fu_completed_count :: nat
  fu_overdue_count :: nat
  fu_synthetic :: bool

definition plain_flag :: "string \<Rightarrow> FollowUpState \<Rightarrow> FollowUpFlag" where
  "plain_flag key state = \<lparr>ff_message_key = key, ff_state = state, ff_start_day_offset = None, ff_due_day_offset = None,
     ff_reminder_day_offset = None, ff_completed_day_offset = None\<rparr>"

definition default_synthetic_follow_up_flags :: "FollowUpFlag list" where
  "default_synthetic_follow_up_flags = [
     (plain_flag ''msg-001'' FLAGGED)\<lparr>ff_start_day_offset := Some 0, ff_due_day_offset := Some 2\<rparr>,
     (plain_flag ''msg-002'' COMPLETED)\<lparr>ff_start_day_offset := Some (-5), ff_due_day_offset := Some (-1),
       ff_completed_day_offset := Some (-1)\<rparr>]"

definition flag_catalog_checks :: "OutlookMockFixture \<Rightarrow> FollowUpFlag list \<Rightarrow> exn option list" where
  "flag_catalog_checks f xs = [
     raise_if (\<not> distinct_keys ff_message_key xs) (value_error ''follow-up flags must be unique per message_key''),
     raise_if (list_ex (\<lambda>x. ff_message_key x \<notin> known_messages f) xs)
       (value_error ''follow-up flag references unknown synthetic message_key'')]"

definition project_flag :: "FollowUpFlag \<Rightarrow> FollowUpReadState" where
  "project_flag x = \<lparr>fr_flag = x, fr_is_flagged = (ff_state x = FLAGGED), fr_is_completed = (ff_state x = COMPLETED),
     fr_synthetic = True\<rparr>"

definition flags_or_default :: "FollowUpFlag list option \<Rightarrow> FollowUpFlag list" where
  "flags_or_default flags = (case flags of None \<Rightarrow> default_synthetic_follow_up_flags | Some xs \<Rightarrow> xs)"

definition read_fixture_follow_up_state ::
  "OutlookMockFixture \<Rightarrow> string \<Rightarrow> OutlookReadinessReport \<Rightarrow> FollowUpFlag list option \<Rightarrow> FollowUpReadState result" where
  "read_fixture_follow_up_state f key r flags = (let catalog = flags_or_default flags in
     checked ([trimmed_check ''message_key'' key, synthetic_check ''OUT-018'' f, ready_check r,
       message_known_check f key] @ flag_catalog_checks f catalog)
     (bindE (case find_key ff_message_key key catalog of
        None \<Rightarrow> construct flag_check (plain_flag key NOT_FLAGGED)
      | Some x \<Rightarrow> Inr x) (\<lambda>x. Inr (project_flag x))))"

definition list_fixture_follow_up_state ::
  "OutlookMockFixture \<Rightarrow> OutlookReadinessReport \<Rightarrow> FollowUpFlag list option \<Rightarrow> int \<Rightarrow> FollowUpListResult result" where
  "list_fixture_follow_up_state f r flags reference = (let catalog = flags_or_default flags in
     checked ([synthetic_check ''OUT-018'' f, ready_check r, reference_check reference] @ flag_catalog_checks f catalog)
     (bindE (mapE (\<lambda>message.
         bindE (construct flag_check (plain_flag (mm_message_key message) NOT_FLAGGED)) (\<lambda>plain.
         Inr (project_flag (case by_last ff_message_key catalog (mm_message_key message) of
           None \<Rightarrow> plain | Some x \<Rightarrow> x)))) (fx_messages f)) (\<lambda>items.
      Inr \<lparr>fu_items = items, fu_flagged_count = length (filter fr_is_flagged items),
        fu_completed_count = length (filter fr_is_completed items),
        fu_overdue_count = length (filter (\<lambda>i. fr_is_flagged i \<and> precedes (ff_due_day_offset (fr_flag i)) (Some reference)) items),
        fu_synthetic = True\<rparr>)))"

datatype FlagMutationAction = DO_FLAG | DO_UNFLAG | DO_COMPLETE

record FlagMutationRequest =
  gq_action :: FlagMutationAction
  gq_message_key :: string
  gq_completed_day_offset :: "int option"

definition flag_request_check :: "FlagMutationRequest \<Rightarrow> exn option" where
  "flag_request_check q = first_error [
     token_check ''message_key'' (gq_message_key q),
     (if gq_action q = DO_COMPLETE then (case gq_completed_day_offset q of
          None \<Rightarrow> Some (value_error ''complete requires completed_day_offset'')
        | Some d \<Rightarrow> raise_if (\<not> (MIN_DAY_OFFSET \<le> d \<and> d \<le> MAX_DAY_OFFSET))
            (value_error ''completed_day_offset exceeds bounded window''))
      else raise_if (gq_completed_day_offset q \<noteq> None) (value_error ''completed_day_offset is only valid for complete''))]"

record FlagMutationResult =
  gr_action :: FlagMutationAction
  gr_message_key :: string
  gr_previous_state :: FollowUpState
  gr_read_back_state :: FollowUpState
  gr_changed :: bool
  gr_verified :: bool
  gr_synthetic :: bool

fun expected_state :: "FlagMutationAction \<Rightarrow> FollowUpState" where
  "expected_state DO_FLAG = FLAGGED"
| "expected_state DO_UNFLAG = NOT_FLAGGED"
| "expected_state DO_COMPLETE = COMPLETED"

text \<open>The flags after a request, and whether it changed them.\<close>

definition flag_update :: "FlagMutationRequest \<Rightarrow> FollowUpFlag list \<Rightarrow> (FollowUpFlag list \<times> bool) result" where
  "flag_update q flags = (let key = gq_message_key q; current = find_key ff_message_key key flags in
     case gq_action q of
       DO_FLAG \<Rightarrow>
         checked [raise_if (case current of None \<Rightarrow> False | Some x \<Rightarrow> ff_state x = COMPLETED)
           (value_error ''completed follow-up must not be silently re-flagged'')]
         (bindE (construct flag_check ((plain_flag key FLAGGED)\<lparr>
             ff_start_day_offset := Option.bind current ff_start_day_offset,
             ff_due_day_offset := Option.bind current ff_due_day_offset\<rparr>)) (\<lambda>replacement.
          Inr (put_last ff_message_key replacement flags, current \<noteq> Some replacement)))
     | DO_UNFLAG \<Rightarrow> Inr (remove_key ff_message_key key flags, current \<noteq> None)
     | DO_COMPLETE \<Rightarrow> (case current of
         None \<Rightarrow> Inl (value_error ''only an existing flagged follow-up can be completed'')
       | Some x \<Rightarrow>
           if ff_state x = NOT_FLAGGED then Inl (value_error ''only an existing flagged follow-up can be completed'')
           else if ff_state x = COMPLETED then
             checked [raise_if (ff_completed_day_offset x \<noteq> gq_completed_day_offset q)
               (value_error ''completed follow-up cannot change completion day'')] (Inr (flags, False))
           else bindE (construct flag_check ((plain_flag (ff_message_key x) COMPLETED)\<lparr>
               ff_start_day_offset := ff_start_day_offset x, ff_due_day_offset := ff_due_day_offset x,
               ff_completed_day_offset := gq_completed_day_offset q\<rparr>)) (\<lambda>replacement.
             Inr (replace_key ff_message_key key replacement flags, True))))"

definition apply_fixture_flag_mutation ::
  "OutlookMockFixture \<Rightarrow> FlagMutationRequest \<Rightarrow> OutlookReadinessReport \<Rightarrow> FollowUpFlag list \<Rightarrow>
   (FollowUpFlag list \<times> FlagMutationResult) result" where
  "apply_fixture_flag_mutation f q r flags = (let key = gq_message_key q in
     checked [synthetic_check ''OUT-033'' f, ready_check r, message_known_check f key]
     (bindE (flag_update q flags) (\<lambda>(updated, changed).
      bindE (read_fixture_follow_up_state f key r (Some updated)) (\<lambda>read_back.
      checked [raise_if (ff_state (fr_flag read_back) \<noteq> expected_state (gq_action q))
        (RuntimeError ''synthetic follow-up read-back did not prove requested state'' [])]
      (Inr (updated, \<lparr>gr_action = gq_action q, gr_message_key = key,
         gr_previous_state = (case find_key ff_message_key key flags of None \<Rightarrow> NOT_FLAGGED | Some x \<Rightarrow> ff_state x),
         gr_read_back_state = ff_state (fr_flag read_back), gr_changed = changed, gr_verified = True,
         gr_synthetic = True\<rparr>))))))"

record FollowUpScheduleMutationRequest =
  hq_message_key :: string
  hq_due_day_offset :: int
  hq_start_day_offset :: "int option"
  hq_reminder_day_offset :: "int option"

definition schedule_window_check :: "string \<Rightarrow> int option \<Rightarrow> exn option" where
  "schedule_window_check name v = (case v of None \<Rightarrow> None | Some d \<Rightarrow>
     raise_if (\<not> (MIN_DAY_OFFSET \<le> d \<and> d \<le> MAX_DAY_OFFSET)) (value_error (name @ '' exceeds bounded day-offset window'')))"

definition schedule_request_check :: "FollowUpScheduleMutationRequest \<Rightarrow> exn option" where
  "schedule_request_check q = first_error [
     token_check ''message_key'' (hq_message_key q),
     schedule_window_check ''due_day_offset'' (Some (hq_due_day_offset q)),
     schedule_window_check ''start_day_offset'' (hq_start_day_offset q),
     schedule_window_check ''reminder_day_offset'' (hq_reminder_day_offset q),
     raise_if (precedes (Some (hq_due_day_offset q)) (hq_start_day_offset q))
       (value_error ''due_day_offset must not precede start_day_offset''),
     raise_if (precedes (hq_reminder_day_offset q) (hq_start_day_offset q))
       (value_error ''reminder_day_offset must not precede start_day_offset''),
     raise_if (precedes (Some (hq_due_day_offset q)) (hq_reminder_day_offset q))
       (value_error ''reminder_day_offset must not follow due_day_offset'')]"

record FollowUpScheduleMutationResult =
  hr_message_key :: string
  hr_changed :: bool
  hr_read_back_start_day_offset :: "int option"
  hr_read_back_due_day_offset :: "int option"
  hr_read_back_reminder_day_offset :: "int option"
  hr_verified :: bool
  hr_synthetic :: bool

definition apply_fixture_follow_up_schedule ::
  "OutlookMockFixture \<Rightarrow> FollowUpScheduleMutationRequest \<Rightarrow> OutlookReadinessReport \<Rightarrow> FollowUpFlag list \<Rightarrow>
   (FollowUpFlag list \<times> FollowUpScheduleMutationResult) result" where
  "apply_fixture_follow_up_schedule f q r flags = (let key = hq_message_key q in
     checked [synthetic_check ''OUT-034'' f, ready_check r, message_known_check f key]
     (case find_key ff_message_key key flags of
        None \<Rightarrow> Inl (value_error ''follow-up schedule requires an existing flagged message'')
      | Some current \<Rightarrow>
          checked [raise_if (ff_state current \<noteq> FLAGGED)
            (value_error ''follow-up schedule requires an existing flagged message'')]
          (bindE (construct flag_check ((plain_flag (ff_message_key current) FLAGGED)\<lparr>
             ff_start_day_offset := (case hq_start_day_offset q of None \<Rightarrow> ff_start_day_offset current | Some d \<Rightarrow> Some d),
             ff_due_day_offset := Some (hq_due_day_offset q),
             ff_reminder_day_offset := hq_reminder_day_offset q\<rparr>)) (\<lambda>replacement.
           let updated = replace_key ff_message_key key replacement flags in
           bindE (read_fixture_follow_up_state f key r (Some updated)) (\<lambda>read_back.
           let x = fr_flag read_back in
           checked [raise_if (\<not> (ff_start_day_offset x = ff_start_day_offset replacement \<and>
               ff_due_day_offset x = ff_due_day_offset replacement \<and>
               ff_reminder_day_offset x = ff_reminder_day_offset replacement))
             (RuntimeError ''synthetic follow-up schedule read-back did not match'' [])]
           (Inr (updated, \<lparr>hr_message_key = key, hr_changed = (current \<noteq> replacement),
              hr_read_back_start_day_offset = ff_start_day_offset x, hr_read_back_due_day_offset = ff_due_day_offset x,
              hr_read_back_reminder_day_offset = ff_reminder_day_offset x, hr_verified = True, hr_synthetic = True\<rparr>)))))))"

subsection \<open>Follow-up of a message\<close>

text \<open>The abstract machine: a message is not flagged, flagged with start, due day and reminder, or completed.\<close>

datatype follow_up =
    UNFLAGGED
  | OPEN "int option" "int option" "int option"
  | DONE "int option" "int option" "int option"

datatype flag_op = OpFlag FlagMutationRequest | OpSchedule FollowUpScheduleMutationRequest

fun flag_op_key :: "flag_op \<Rightarrow> string" where
  "flag_op_key (OpFlag q) = gq_message_key q"
| "flag_op_key (OpSchedule q) = hq_message_key q"

definition apply_flag_op :: "OutlookMockFixture \<Rightarrow> OutlookReadinessReport \<Rightarrow> flag_op \<Rightarrow> FollowUpFlag list \<Rightarrow> FollowUpFlag list result" where
  "apply_flag_op f r op xs = (case op of
     OpFlag q \<Rightarrow> bindE (construct flag_request_check q) (\<lambda>q. map_sum id fst (apply_fixture_flag_mutation f q r xs))
   | OpSchedule q \<Rightarrow> bindE (construct schedule_request_check q) (\<lambda>q. map_sum id fst (apply_fixture_follow_up_schedule f q r xs)))"

fun flagged :: "FlagMutationRequest \<Rightarrow> follow_up \<Rightarrow> follow_up option" where
  "flagged q UNFLAGGED = (case gq_action q of
     DO_FLAG \<Rightarrow> Some (OPEN None None None) | DO_UNFLAG \<Rightarrow> Some UNFLAGGED | DO_COMPLETE \<Rightarrow> None)"
| "flagged q (OPEN start due reminder) = (case gq_action q of
     DO_FLAG \<Rightarrow> Some (OPEN start due None) | DO_UNFLAG \<Rightarrow> Some UNFLAGGED
   | DO_COMPLETE \<Rightarrow> Some (DONE start due (gq_completed_day_offset q)))"
| "flagged q (DONE start due day) = (case gq_action q of
     DO_FLAG \<Rightarrow> None | DO_UNFLAG \<Rightarrow> Some UNFLAGGED
   | DO_COMPLETE \<Rightarrow> if day = gq_completed_day_offset q then Some (DONE start due day) else None)"

fun scheduled :: "FollowUpScheduleMutationRequest \<Rightarrow> follow_up \<Rightarrow> follow_up option" where
  "scheduled q (OPEN start due reminder) =
     (let start' = (case hq_start_day_offset q of None \<Rightarrow> start | Some d \<Rightarrow> Some d) in
      if precedes (Some (hq_due_day_offset q)) start' \<or> precedes (hq_reminder_day_offset q) start' then None
      else Some (OPEN start' (Some (hq_due_day_offset q)) (hq_reminder_day_offset q)))"
| "scheduled q _ = None"

fun new_follow_up :: "flag_op \<Rightarrow> follow_up \<Rightarrow> follow_up option" where
  "new_follow_up (OpFlag q) s = (if flag_request_check q \<noteq> None then None else flagged q s)"
| "new_follow_up (OpSchedule q) s = (if schedule_request_check q \<noteq> None then None else scheduled q s)"

definition follow_up_of :: "FollowUpFlag option \<Rightarrow> follow_up" where
  "follow_up_of x = (case x of None \<Rightarrow> UNFLAGGED | Some x \<Rightarrow> (case ff_state x of
     NOT_FLAGGED \<Rightarrow> UNFLAGGED
   | FLAGGED \<Rightarrow> OPEN (ff_start_day_offset x) (ff_due_day_offset x) (ff_reminder_day_offset x)
   | COMPLETED \<Rightarrow> DONE (ff_start_day_offset x) (ff_due_day_offset x) (ff_completed_day_offset x)))"

definition followed :: "OutlookMockFixture \<Rightarrow> FollowUpFlag list \<Rightarrow> string \<Rightarrow> follow_up option" where
  "followed f xs k = (if k \<in> known_messages f then Some (follow_up_of (find_key ff_message_key k xs)) else None)"

definition follow_up_spec :: "flag_op \<Rightarrow> follow_up option \<Rightarrow> follow_up option option" where
  "follow_up_spec op s = (case s of None \<Rightarrow> None | Some p \<Rightarrow> map_option Some (new_follow_up op p))"

definition flags_ok :: "OutlookMockFixture \<Rightarrow> OutlookReadinessReport \<Rightarrow> FollowUpFlag list \<Rightarrow> bool" where
  "flags_ok f r xs \<longleftrightarrow> fx_synthetic f \<and> ready_for_readonly_discovery r \<and> distinct_keys ff_message_key xs \<and>
     list_all (\<lambda>x. ff_message_key x \<in> known_messages f \<and> flag_check x = None) xs"

definition in_window :: "int option \<Rightarrow> bool" where
  "in_window v \<longleftrightarrow> (case v of None \<Rightarrow> True | Some d \<Rightarrow> MIN_DAY_OFFSET \<le> d \<and> d \<le> MAX_DAY_OFFSET)"

lemma day_window_None: "day_window_check name v = None \<longleftrightarrow> in_window v" "schedule_window_check name v = None \<longleftrightarrow> in_window v"
  by (auto simp: day_window_check_def schedule_window_check_def in_window_def checks split: option.splits)

lemma in_window_simps [simp]: "in_window None" "in_window (Some d) \<longleftrightarrow> MIN_DAY_OFFSET \<le> d \<and> d \<le> MAX_DAY_OFFSET"
  by (simp_all add: in_window_def)

lemma precedes_None [simp]: "\<not> precedes None a" "\<not> precedes b None"
  by (simp_all add: precedes_def split: option.split)

lemma flag_check_value_error: "flag_check x = Some e \<Longrightarrow> is_value_error e"
  by (auto simp: flag_check_def first_error.simps token_check_cases day_window_check_def raise_if_def split: option.splits if_splits)

lemma flag_check_None: "flag_check x = None \<longleftrightarrow> \<not> bad_token (ff_message_key x) \<and>
    in_window (ff_start_day_offset x) \<and> in_window (ff_due_day_offset x) \<and> in_window (ff_reminder_day_offset x) \<and>
    in_window (ff_completed_day_offset x) \<and>
    (ff_state x = NOT_FLAGGED \<longrightarrow> ff_start_day_offset x = None \<and> ff_due_day_offset x = None \<and> ff_reminder_day_offset x = None) \<and>
    (ff_state x = COMPLETED \<longleftrightarrow> ff_completed_day_offset x \<noteq> None) \<and>
    (ff_state x = COMPLETED \<longrightarrow> ff_reminder_day_offset x = None) \<and>
    \<not> precedes (ff_due_day_offset x) (ff_start_day_offset x) \<and> \<not> precedes (ff_reminder_day_offset x) (ff_start_day_offset x) \<and>
    \<not> precedes (ff_due_day_offset x) (ff_reminder_day_offset x)"
  by (cases "ff_state x") (auto simp: flag_check_def checks first_error.simps(1) day_window_None)

lemma flags_ok_store:
  assumes "flags_ok f r xs" "flag_check x = None" "ff_message_key x = k" "k \<in> known_messages f"
  shows "flags_ok f r (put_last ff_message_key x xs)"
    "followed f (put_last ff_message_key x xs) = (followed f xs)(k \<mapsto> follow_up_of (Some x))"
    "find_key ff_message_key k (put_last ff_message_key x xs) = Some x"
    "flags_ok f r (put_in_place ff_message_key x xs)"
    "followed f (put_in_place ff_message_key x xs) = (followed f xs)(k \<mapsto> follow_up_of (Some x))"
    "find_key ff_message_key k (put_in_place ff_message_key x xs) = Some x"
proof -
  from assms(1) have d: "distinct_keys ff_message_key xs" by (simp add: flags_ok_def)
  from assms last.put_ok [OF d, of x] last.elements [OF d, of x] show "flags_ok f r (put_last ff_message_key x xs)"
    by (auto simp: flags_ok_def list_all_iff)
  from assms in_place.put_ok [OF d, of x] in_place.elements [OF d, of x] show "flags_ok f r (put_in_place ff_message_key x xs)"
    by (auto simp: flags_ok_def list_all_iff)
  show "followed f (put_last ff_message_key x xs) = (followed f xs)(k \<mapsto> follow_up_of (Some x))"
    "followed f (put_in_place ff_message_key x xs) = (followed f xs)(k \<mapsto> follow_up_of (Some x))"
    using assms(3,4) by (auto simp: followed_def fun_eq_iff last.lookup_put [OF d] in_place.lookup_put [OF d])
  show "find_key ff_message_key k (put_last ff_message_key x xs) = Some x"
    "find_key ff_message_key k (put_in_place ff_message_key x xs) = Some x"
    using assms(3) by (auto simp: last.lookup_put [OF d] in_place.lookup_put [OF d])
qed

lemma flags_ok_remove:
  assumes "flags_ok f r xs" "k \<in> known_messages f"
  shows "flags_ok f r (remove_key ff_message_key k xs)"
    "followed f (remove_key ff_message_key k xs) = (followed f xs)(k \<mapsto> UNFLAGGED)"
    "find_key ff_message_key k (remove_key ff_message_key k xs) = None"
  using assms by (auto simp: flags_ok_def distinct_remove list_all_iff remove_key_set followed_def find_key_remove
      follow_up_of_def fun_eq_iff)

lemma replace_is_put: "find_key key k xs = Some x \<Longrightarrow> key y = k \<Longrightarrow> replace_key key k y xs = put_in_place key y xs"
  by (simp add: put_in_place_def)

lemma read_flag:
  assumes "flags_ok f r xs" "\<not> bad_token k" "k \<in> known_messages f"
  shows "read_fixture_follow_up_state f k r (Some xs) =
     Inr (project_flag (case find_key ff_message_key k xs of None \<Rightarrow> plain_flag k NOT_FLAGGED | Some x \<Rightarrow> x))"
proof -
  have plain: "flag_check (plain_flag k NOT_FLAGGED) = None" using assms(2) by (simp add: flag_check_None plain_flag_def)
  have "first_error ([trimmed_check ''message_key'' k, synthetic_check ''OUT-018'' f, ready_check r,
       message_known_check f k] @ flag_catalog_checks f xs) = None"
    using assms token_trimmed [OF assms(2)]
    by (auto simp: checks first_error.simps(1) message_known_check_def flag_catalog_checks_def flags_ok_def list_all_iff list_ex_iff)
  then show ?thesis
    by (simp add: read_fixture_follow_up_state_def flags_or_default_def checked_def construct_def plain split: option.split)
qed

text \<open>What a request on valid flags has to come to.\<close>

definition flag_outcome :: "OutlookMockFixture \<Rightarrow> OutlookReadinessReport \<Rightarrow> flag_op \<Rightarrow> FollowUpFlag list \<Rightarrow>
    FollowUpFlag list result \<Rightarrow> bool" where
  "flag_outcome f r op xs outcome \<longleftrightarrow> (case follow_up_spec op (followed f xs (flag_op_key op)) of
     None \<Rightarrow> (case outcome of Inl e \<Rightarrow> is_value_error e | Inr ys \<Rightarrow> False)
   | Some v \<Rightarrow> (case outcome of Inl e \<Rightarrow> False
       | Inr ys \<Rightarrow> flags_ok f r ys \<and> followed f ys = (followed f xs)(flag_op_key op := v)))"

lemma flag_request_None: "flag_request_check q = None \<longleftrightarrow> \<not> bad_token (gq_message_key q) \<and>
    in_window (gq_completed_day_offset q) \<and> (gq_action q = DO_COMPLETE \<longleftrightarrow> gq_completed_day_offset q \<noteq> None)"
  by (auto simp: flag_request_check_def checks first_error.simps(1) split: option.splits)

lemma schedule_request_None: "schedule_request_check q = None \<longleftrightarrow> \<not> bad_token (hq_message_key q) \<and>
    in_window (Some (hq_due_day_offset q)) \<and> in_window (hq_start_day_offset q) \<and> in_window (hq_reminder_day_offset q) \<and>
    \<not> precedes (Some (hq_due_day_offset q)) (hq_start_day_offset q) \<and>
    \<not> precedes (hq_reminder_day_offset q) (hq_start_day_offset q) \<and>
    \<not> precedes (Some (hq_due_day_offset q)) (hq_reminder_day_offset q)"
  by (simp add: schedule_request_check_def checks first_error.simps(1) day_window_None)

text \<open>The update in front of the read-back, against the machine.\<close>

lemma flag_update_exact:
  assumes ok: "flags_ok f r xs" and q: "flag_request_check q = None" and k: "gq_message_key q \<in> known_messages f"
  shows "case flagged q (follow_up_of (find_key ff_message_key (gq_message_key q) xs)) of
      None \<Rightarrow> (case flag_update q xs of Inl e \<Rightarrow> is_value_error e | Inr y \<Rightarrow> False)
    | Some s \<Rightarrow> (case flag_update q xs of Inl e \<Rightarrow> False | Inr (ys, c) \<Rightarrow> flags_ok f r ys \<and>
        followed f ys = (followed f xs)(gq_message_key q \<mapsto> s) \<and>
        (case find_key ff_message_key (gq_message_key q) ys of None \<Rightarrow> NOT_FLAGGED | Some x \<Rightarrow> ff_state x) = expected_state (gq_action q))"
proof -
  let ?k = "gq_message_key q" and ?cur = "find_key ff_message_key (gq_message_key q) xs"
  from q have tok: "\<not> bad_token ?k" by (simp add: flag_request_None)
  have valid: "flag_check x = None" "ff_message_key x = ?k" if "?cur = Some x" for x
    using ok find_key_Some [OF that] by (simp_all add: flags_ok_def list_all_iff)
  note removed = flags_ok_remove [OF ok k]
  note answer = flag_update_def Let_def checked_def first_error.simps raise_if_def construct_def
  have new_check: "flag_check ((plain_flag ?k FLAGGED)\<lparr>ff_start_day_offset := Option.bind ?cur ff_start_day_offset,
      ff_due_day_offset := Option.bind ?cur ff_due_day_offset\<rparr>) = None"
    using valid(1) tok by (cases ?cur) (auto simp: flag_check_None plain_flag_def)
  let ?new = "(plain_flag ?k FLAGGED)\<lparr>ff_start_day_offset := Option.bind ?cur ff_start_day_offset,
      ff_due_day_offset := Option.bind ?cur ff_due_day_offset\<rparr>"
  have "ff_message_key ?new = ?k" by (simp add: plain_flag_def)
  note stored = flags_ok_store [OF ok new_check this k]
  have st: "follow_up_of (Some ?new) = OPEN (Option.bind ?cur ff_start_day_offset) (Option.bind ?cur ff_due_day_offset) None"
    "ff_state ?new = FLAGGED" by (simp_all add: follow_up_of_def plain_flag_def)
  show ?thesis
  proof (cases "gq_action q")
    case DO_FLAG
    show ?thesis
    proof (cases ?cur)
      case None
      with DO_FLAG stored st new_check show ?thesis by (simp add: answer follow_up_of_def)
    next
      case (Some x)
      show ?thesis
      proof (cases "ff_state x")
        case NOT_FLAGGED
        with valid(1) [OF Some] have "ff_start_day_offset x = None" "ff_due_day_offset x = None" by (simp_all add: flag_check_None)
        with NOT_FLAGGED Some DO_FLAG stored st new_check show ?thesis by (simp add: answer follow_up_of_def)
      next
        case FLAGGED
        with Some DO_FLAG stored st new_check show ?thesis by (simp add: answer follow_up_of_def)
      next
        case COMPLETED
        with Some DO_FLAG show ?thesis by (simp add: answer follow_up_of_def)
      qed
    qed
  next
    case DO_UNFLAG
    have "flagged q s = Some UNFLAGGED" for s using DO_UNFLAG by (cases s) simp_all
    with DO_UNFLAG removed show ?thesis by (simp add: answer)
  next
    case DO_COMPLETE
    show ?thesis
    proof (cases ?cur)
      case None
      with DO_COMPLETE show ?thesis by (simp add: answer follow_up_of_def)
    next
      case (Some x)
      show ?thesis
      proof (cases "ff_state x")
        case NOT_FLAGGED
        with Some DO_COMPLETE show ?thesis by (simp add: answer follow_up_of_def)
      next
        case COMPLETED
        have "followed f xs ?k = Some (follow_up_of ?cur)" using k by (simp add: followed_def)
        then have "(followed f xs)(?k \<mapsto> follow_up_of ?cur) = followed f xs" by auto
        with COMPLETED Some DO_COMPLETE ok show ?thesis
          by (cases "ff_completed_day_offset x = gq_completed_day_offset q") (simp_all add: answer follow_up_of_def)
      next
        case FLAGGED
        let ?done = "(plain_flag (ff_message_key x) COMPLETED)\<lparr>ff_start_day_offset := ff_start_day_offset x,
            ff_due_day_offset := ff_due_day_offset x, ff_completed_day_offset := gq_completed_day_offset q\<rparr>"
        have complete: "flag_check ?done = None" "ff_message_key ?done = ?k" "ff_state ?done = COMPLETED"
          "follow_up_of (Some ?done) = DONE (ff_start_day_offset x) (ff_due_day_offset x) (gq_completed_day_offset q)"
          using valid [OF Some] q DO_COMPLETE by (simp_all add: flag_check_None flag_request_None plain_flag_def follow_up_of_def)
        have rep: "replace_key ff_message_key ?k ?done xs = put_in_place ff_message_key ?done xs"
          by (rule replace_is_put [OF Some complete(2)])
        from FLAGGED Some DO_COMPLETE complete flags_ok_store(4-6) [OF ok complete(1,2) k] show ?thesis
          by (simp add: answer follow_up_of_def rep)
      qed
    qed
  qed
qed

lemma flag_op_outcome:
  assumes ok: "flags_ok f r xs"
  shows "flag_outcome f r (OpFlag q) xs (apply_flag_op f r (OpFlag q) xs)"
proof -
  let ?k = "gq_message_key q"
  from ok have gate: "fx_synthetic f" "ready_for_readonly_discovery r" by (simp_all add: flags_ok_def)
  note answer = flag_outcome_def follow_up_spec_def apply_flag_op_def construct_def apply_fixture_flag_mutation_def Let_def
    checked_def first_error.simps synthetic_check_def ready_check_def message_known_check_def raise_if_def
  show ?thesis
  proof (cases "flag_request_check q")
    case (Some e)
    then have "is_value_error e"
      by (auto simp: flag_request_check_def first_error.simps token_check_cases raise_if_def split: option.splits if_splits)
    with Some show ?thesis by (simp add: answer followed_def)
  next
    case valid: None
    show ?thesis
    proof (cases "?k \<in> known_messages f")
      case False
      with valid gate show ?thesis by (simp add: answer followed_def)
    next
      case k: True
      then have known: "followed f xs ?k = Some (follow_up_of (find_key ff_message_key ?k xs))" by (simp add: followed_def)
      from valid have tok: "\<not> bad_token ?k" by (simp add: flag_request_None)
      note update = flag_update_exact [OF ok valid k]
      show ?thesis
      proof (cases "flagged q (follow_up_of (find_key ff_message_key ?k xs))")
        case None
        with update obtain e where e: "flag_update q xs = Inl e" "is_value_error e" by (auto split: sum.splits)
        with None valid k gate known show ?thesis by (simp add: answer)
      next
        case (Some s)
        with update obtain ys c where u: "flag_update q xs = Inr (ys, c)" "flags_ok f r ys"
          "followed f ys = (followed f xs)(?k \<mapsto> s)"
          "(case find_key ff_message_key ?k ys of None \<Rightarrow> NOT_FLAGGED | Some x \<Rightarrow> ff_state x) = expected_state (gq_action q)"
          by (auto split: sum.splits)
        have "ff_state (case find_key ff_message_key ?k ys of None \<Rightarrow> plain_flag ?k NOT_FLAGGED | Some x \<Rightarrow> x) = expected_state (gq_action q)"
          using u(4) by (simp add: plain_flag_def split: option.splits)
        with Some u(1-3) valid k gate known read_flag [OF u(2) tok k] show ?thesis
          by (simp add: answer project_flag_def)
      qed
    qed
  qed
qed

lemma schedule_op_outcome:
  assumes ok: "flags_ok f r xs"
  shows "flag_outcome f r (OpSchedule q) xs (apply_flag_op f r (OpSchedule q) xs)"
proof -
  let ?k = "hq_message_key q" and ?cur = "find_key ff_message_key (hq_message_key q) xs"
  from ok have gate: "fx_synthetic f" "ready_for_readonly_discovery r" by (simp_all add: flags_ok_def)
  note answer = flag_outcome_def follow_up_spec_def apply_flag_op_def construct_def apply_fixture_follow_up_schedule_def Let_def
    checked_def first_error.simps synthetic_check_def ready_check_def message_known_check_def raise_if_def
  show ?thesis
  proof (cases "schedule_request_check q")
    case (Some e)
    then have "is_value_error e"
      by (auto simp: schedule_request_check_def schedule_window_check_def first_error.simps token_check_cases raise_if_def
          split: option.splits if_splits)
    with Some show ?thesis by (simp add: answer followed_def)
  next
    case valid: None
    show ?thesis
    proof (cases "?k \<in> known_messages f")
      case False
      with valid gate show ?thesis by (simp add: answer followed_def)
    next
      case k: True
      then have known: "followed f xs ?k = Some (follow_up_of ?cur)" by (simp add: followed_def)
      from valid have tok: "\<not> bad_token ?k" by (simp add: schedule_request_None)
      show ?thesis
      proof (cases "\<exists>x. ?cur = Some x \<and> ff_state x = FLAGGED")
        case False
        then have "scheduled q (follow_up_of ?cur) = None"
          by (auto simp: follow_up_of_def split: option.split FollowUpState.split)
        with False valid k gate known show ?thesis by (auto simp: answer split: option.split)
      next
        case True
        then obtain x where x: "?cur = Some x" "ff_state x = FLAGGED" by blast
        then have cur: "flag_check x = None" "ff_message_key x = ?k"
          using ok find_key_Some [OF x(1)] by (simp_all add: flags_ok_def list_all_iff)
        let ?start = "case hq_start_day_offset q of None \<Rightarrow> ff_start_day_offset x | Some d \<Rightarrow> Some d"
        let ?new = "(plain_flag ?k FLAGGED)\<lparr>ff_start_day_offset := ?start,
            ff_due_day_offset := Some (hq_due_day_offset q), ff_reminder_day_offset := hq_reminder_day_offset q\<rparr>"
        have start: "in_window ?start" using cur valid
          by (cases "hq_start_day_offset q") (simp_all add: flag_check_None schedule_request_None)
        have new: "flag_check ?new = None \<longleftrightarrow>
            \<not> (precedes (Some (hq_due_day_offset q)) ?start \<or> precedes (hq_reminder_day_offset q) ?start)"
          using valid tok start by (simp add: flag_check_None schedule_request_None plain_flag_def)
        have fields: "ff_message_key ?new = ?k" "follow_up_of (Some ?new) = OPEN ?start (Some (hq_due_day_offset q)) (hq_reminder_day_offset q)"
          by (simp_all add: plain_flag_def follow_up_of_def)
        have current: "follow_up_of ?cur = OPEN (ff_start_day_offset x) (ff_due_day_offset x) (ff_reminder_day_offset x)"
          by (simp add: follow_up_of_def x)
        have rep: "replace_key ff_message_key ?k ?new xs = put_in_place ff_message_key ?new xs"
          by (rule replace_is_put [OF x(1) fields(1)])
        show ?thesis
        proof (cases "flag_check ?new")
          case (Some e)
          with new have "scheduled q (follow_up_of ?cur) = None" by (simp add: current)
          with Some x cur(2) valid k gate known flag_check_value_error [OF Some] show ?thesis by (simp add: answer)
        next
          case None
          note stored = flags_ok_store(4-6) [OF ok None fields(1) k]
          from None new have "scheduled q (follow_up_of ?cur) = Some (OPEN ?start (Some (hq_due_day_offset q)) (hq_reminder_day_offset q))"
            by (simp add: current)
          with None x cur(2) valid k gate known stored fields(2) read_flag [OF stored(1) tok k] show ?thesis
            by (simp add: answer rep project_flag_def)
        qed
      qed
    qed
  qed
qed

interpretation follow_ups: keyed_machine "flags_ok f r" "followed f" "apply_flag_op f r" flag_op_key follow_up_spec for f r
proof
  fix xs op ys e
  assume ok: "flags_ok f r xs"
  then have out: "flag_outcome f r op xs (apply_flag_op f r op xs)" by (cases op) (simp_all add: flag_op_outcome schedule_op_outcome)
  show "flags_ok f r ys \<and> (\<exists>v. follow_up_spec op (followed f xs (flag_op_key op)) = Some v \<and>
      followed f ys = (followed f xs)(flag_op_key op := v))" if "apply_flag_op f r op xs = Inr ys"
    using out that by (auto simp: flag_outcome_def split: option.splits)
  show "follow_up_spec op (followed f xs (flag_op_key op)) = None \<and> is_value_error e" if "apply_flag_op f r op xs = Inl e"
    using out that by (auto simp: flag_outcome_def split: option.splits)
qed

text \<open>C24. Flagging, unflagging, completing and scheduling refine a machine over the follow-up of one message at a
  time. From valid flags of a ready mailbox, any history of requests leaves valid flags whose follow-ups are
  those of the machine; a request succeeds exactly when the machine does not refuse it; and no read-back fails.
  In the machine a completed follow-up is only ever removed or confirmed for the same day.\<close>

theorem follow_up_history_refines:
  "if flags_ok f r xs
   then flags_ok f r (fold (run_step (apply_flag_op f r)) ops xs) \<and>
     followed f (fold (run_step (apply_flag_op f r)) ops xs) = fold (spec_step flag_op_key follow_up_spec) ops (followed f xs) \<and>
     (case apply_flag_op f r op xs of
        Inl e \<Rightarrow> follow_up_spec op (followed f xs (flag_op_key op)) = None \<and> is_value_error e
      | Inr ys \<Rightarrow> (follow_up_spec op (followed f xs (flag_op_key op)) = None) = False) \<and>
     new_follow_up op (DONE start due day) \<in> {None, Some UNFLAGGED, Some (DONE start due day)}
   else True"
proof (cases "flags_ok f r xs")
  case True
  have "flagged q (DONE start due day) \<in> {None, Some UNFLAGGED, Some (DONE start due day)}" for q
    by (cases "gq_action q") simp_all
  then have "new_follow_up op (DONE start due day) \<in> {None, Some UNFLAGGED, Some (DONE start due day)}" by (cases op) simp_all
  with True follow_ups.run [OF True, of ops] follow_ups.accepted [OF True, of op] follow_ups.refused [OF True, of op] show ?thesis
    by (simp split: sum.splits) blast
next
  case False
  then show ?thesis by (simp only: if_False)
qed

text \<open>Flagging a message that is flagged already is accepted and takes its reminder away.\<close>

lemma flag_again_drops_reminder:
  assumes "flags_ok f r xs" "flag_request_check q = None" "gq_action q = DO_FLAG"
    and "followed f xs (gq_message_key q) = Some (OPEN start due (Some reminder))"
  shows "\<exists>ys. apply_flag_op f r (OpFlag q) xs = Inr ys \<and> followed f ys (gq_message_key q) = Some (OPEN start due None)"
proof -
  have spec: "follow_up_spec (OpFlag q) (followed f xs (gq_message_key q)) = Some (Some (OPEN start due None))"
    using assms(2-4) by (simp add: follow_up_spec_def)
  show ?thesis
    using flag_op_outcome [OF assms(1), of q] spec by (auto simp: flag_outcome_def split: sum.splits)
qed

end
