(* ===== verification/Outlook_Categories.thy ===== *)
theory Outlook_Categories
  imports Outlook_Messages
begin

text \<open>
  Categories: their vocabulary and the assignments to messages (\<open>category_reads.py\<close>), their life cycle
  (\<open>category_mutations.py\<close>) and batches of assignments (\<open>category_assignment_mutations.py\<close>).

  The results: a batch has the effect of its last operation on every pair of a message and a category, all or
  nothing; and the life cycle keeps the vocabulary valid, so that no assignment ever loses its category.
\<close>

subsection \<open>Vocabulary and assignments\<close>

datatype CategoryColorToken = CAT_NEUTRAL | CAT_RED | CAT_ORANGE | CAT_YELLOW | CAT_GREEN | CAT_BLUE | CAT_PURPLE

record SyntheticCategory =
  ct_category_key :: string
  ct_display_name :: string
  ct_color_token :: CategoryColorToken

definition category_check :: "SyntheticCategory \<Rightarrow> exn option" where
  "category_check c = first_error [
     token_check ''category_key'' (ct_category_key c),
     raise_if (\<not> trimmed (ct_display_name c)) (value_error ''display_name must be non-empty'')]"

record CategoryAssignment =
  ca_message_key :: string
  ca_category_key :: string

definition assignment_check :: "CategoryAssignment \<Rightarrow> exn option" where
  "assignment_check a = first_error [
     token_check ''message_key'' (ca_message_key a), token_check ''category_key'' (ca_category_key a)]"

record CategoryUsage =
  cu_category :: SyntheticCategory
  cu_assigned_message_count :: nat

record CategoryListResult =
  cx_categories :: "CategoryUsage list"
  cx_category_count :: nat
  cx_assigned_message_count :: nat
  cx_synthetic :: bool

record MessageCategoryState =
  mc_message_key :: string
  mc_category_keys :: "string list"
  mc_category_count :: nat
  mc_synthetic :: bool

definition default_synthetic_categories :: "SyntheticCategory list" where
  "default_synthetic_categories = [
     \<lparr>ct_category_key = ''cat-project'', ct_display_name = ''Synthetic Project'', ct_color_token = CAT_BLUE\<rparr>,
     \<lparr>ct_category_key = ''cat-followup'', ct_display_name = ''Synthetic Follow Up'', ct_color_token = CAT_YELLOW\<rparr>]"

definition default_synthetic_category_assignments :: "CategoryAssignment list" where
  "default_synthetic_category_assignments = [
     \<lparr>ca_message_key = ''msg-001'', ca_category_key = ''cat-project''\<rparr>,
     \<lparr>ca_message_key = ''msg-002'', ca_category_key = ''cat-followup''\<rparr>]"

definition pair_of :: "CategoryAssignment \<Rightarrow> string \<times> string" where
  "pair_of a = (ca_message_key a, ca_category_key a)"

text \<open>The loop over the assignments with its counters; \<open>seen\<close> are the messages of the assignments before.\<close>

fun assignment_loop :: "string set \<Rightarrow> string set \<Rightarrow> string list \<Rightarrow> CategoryAssignment list \<Rightarrow> exn option" where
  "assignment_loop categories messages seen [] = None"
| "assignment_loop categories messages seen (a # rest) =
     (if ca_category_key a \<notin> categories then Some (value_error ''category assignment references unknown category_key'')
      else if ca_message_key a \<notin> messages then Some (value_error ''category assignment references unknown synthetic message_key'')
      else if 25 < Suc (length (filter (\<lambda>k. k = ca_message_key a) seen))
        then Some (value_error ''message exceeds bounded category assignment count'')
      else assignment_loop categories messages (ca_message_key a # seen) rest)"

definition category_catalog_checks :: "OutlookMockFixture \<Rightarrow> SyntheticCategory list \<Rightarrow> CategoryAssignment list \<Rightarrow> exn option list" where
  "category_catalog_checks f categories links = [
     raise_if (100 < length categories) (value_error ''category catalog exceeds bounded size''),
     raise_if (\<not> distinct_keys ct_category_key categories) (value_error ''category catalog keys must be unique''),
     raise_if (\<not> distinct (map pair_of links)) (value_error ''category assignments must be unique''),
     assignment_loop (ct_category_key ` set categories) (mm_message_key ` set (fx_messages f)) [] links]"

definition categories_or_default :: "SyntheticCategory list option \<Rightarrow> SyntheticCategory list" where
  "categories_or_default cs = (case cs of None \<Rightarrow> default_synthetic_categories | Some xs \<Rightarrow> xs)"

definition assignments_or_default :: "CategoryAssignment list option \<Rightarrow> CategoryAssignment list" where
  "assignments_or_default as = (case as of None \<Rightarrow> default_synthetic_category_assignments | Some xs \<Rightarrow> xs)"

definition list_fixture_categories ::
  "OutlookMockFixture \<Rightarrow> OutlookReadinessReport \<Rightarrow> SyntheticCategory list option \<Rightarrow> CategoryAssignment list option \<Rightarrow>
   CategoryListResult result" where
  "list_fixture_categories f r categories assignments = (let
       catalog = categories_or_default categories; links = assignments_or_default assignments in
     checked ([synthetic_check ''OUT-017'' f, ready_check r] @ category_catalog_checks f catalog links)
     (let usage = map (\<lambda>c. \<lparr>cu_category = c,
          cu_assigned_message_count = length (filter (\<lambda>a. ca_category_key a = ct_category_key c) links)\<rparr>) catalog in
      Inr \<lparr>cx_categories = usage, cx_category_count = length usage,
        cx_assigned_message_count = card (ca_message_key ` set links), cx_synthetic = True\<rparr>))"

definition read_fixture_message_categories ::
  "OutlookMockFixture \<Rightarrow> string \<Rightarrow> OutlookReadinessReport \<Rightarrow> SyntheticCategory list option \<Rightarrow> CategoryAssignment list option \<Rightarrow>
   MessageCategoryState result" where
  "read_fixture_message_categories f key r categories assignments = (let
       catalog = categories_or_default categories; links = assignments_or_default assignments in
     checked ([trimmed_check ''message_key'' key, synthetic_check ''OUT-017'' f, ready_check r,
       raise_if (key \<notin> mm_message_key ` set (fx_messages f)) (value_error ''synthetic message_key not found'')]
       @ category_catalog_checks f catalog links)
     (let selected = sort (map ca_category_key (filter (\<lambda>a. ca_message_key a = key) links)) in
      Inr \<lparr>mc_message_key = key, mc_category_keys = selected, mc_category_count = length selected, mc_synthetic = True\<rparr>))"

subsection \<open>Life cycle\<close>

datatype CategoryMutationAction = DO_CREATE | DO_UPDATE | DO_DELETE

record CategoryMutationRequest =
  cm_action :: CategoryMutationAction
  cm_category_key :: string
  cm_display_name :: "string option"
  cm_color_token :: "CategoryColorToken option"

definition category_request_check :: "CategoryMutationRequest \<Rightarrow> exn option" where
  "category_request_check q = first_error (token_check ''category_key'' (cm_category_key q) #
     (if cm_action q = DO_DELETE then
        [raise_if (cm_display_name q \<noteq> None \<or> cm_color_token q \<noteq> None)
          (value_error ''delete must not carry category replacement fields'')]
      else [
        (case cm_display_name q of None \<Rightarrow> None | Some n \<Rightarrow>
           raise_if (\<not> trimmed n) (value_error ''display_name must be non-empty and trimmed'')),
        raise_if (cm_action q = DO_CREATE \<and> cm_display_name q = None) (value_error ''create requires display_name'')]))"

record CategoryMutationResult =
  ck_action :: CategoryMutationAction
  ck_category_key :: string
  ck_changed :: bool
  ck_exists_after :: bool
  ck_read_back_name :: "string option"
  ck_read_back_color :: "CategoryColorToken option"
  ck_verified :: bool
  ck_synthetic :: bool

text \<open>\<open>a or b\<close> on an optional text; an empty text counts as absent.\<close>

definition or_text :: "string option \<Rightarrow> string \<Rightarrow> string" where
  "or_text a b = (case a of None \<Rightarrow> b | Some s \<Rightarrow> if s = [] then b else s)"

definition category_update :: "CategoryMutationRequest \<Rightarrow> SyntheticCategory list \<Rightarrow> CategoryAssignment list \<Rightarrow>
    (SyntheticCategory list \<times> bool) result" where
  "category_update q categories links = (let key = cm_category_key q; current = find_key ct_category_key key categories in
     case cm_action q of
       DO_CREATE \<Rightarrow> bindE (construct category_check \<lparr>ct_category_key = key, ct_display_name = or_text (cm_display_name q) [],
           ct_color_token = case_option CAT_NEUTRAL id (cm_color_token q)\<rparr>) (\<lambda>requested.
         (case current of
            None \<Rightarrow> Inr (categories @ [requested], True)
          | Some c \<Rightarrow> if c = requested then Inr (categories, False)
              else Inl (value_error ''category_key already exists with different definition'')))
     | DO_UPDATE \<Rightarrow> (case current of
         None \<Rightarrow> Inl (value_error ''synthetic category_key not found'')
       | Some c \<Rightarrow> bindE (construct category_check \<lparr>ct_category_key = ct_category_key c,
            ct_display_name = or_text (cm_display_name q) (ct_display_name c),
            ct_color_token = case_option (ct_color_token c) id (cm_color_token q)\<rparr>) (\<lambda>replacement.
          Inr (replace_key ct_category_key key replacement categories, replacement \<noteq> c)))
     | DO_DELETE \<Rightarrow> checked [raise_if (list_ex (\<lambda>a. ca_category_key a = key) links)
           (value_error ''category delete blocked while synthetic assignments exist'')]
         (Inr (remove_key ct_category_key key categories, current \<noteq> None)))"

definition apply_fixture_category_mutation ::
  "OutlookMockFixture \<Rightarrow> CategoryMutationRequest \<Rightarrow> OutlookReadinessReport \<Rightarrow> SyntheticCategory list \<Rightarrow> CategoryAssignment list \<Rightarrow>
   (SyntheticCategory list \<times> CategoryMutationResult) result" where
  "apply_fixture_category_mutation f q r categories links =
     checked [synthetic_check ''OUT-031'' f, ready_check r]
     (bindE (category_update q categories links) (\<lambda>(updated, changed).
      bindE (list_fixture_categories f r (Some updated) (Some links)) (\<lambda>read_back.
      let projected = find_key ct_category_key (cm_category_key q) (map cu_category (cx_categories read_back)) in
      checked [raise_if (if cm_action q = DO_DELETE then projected \<noteq> None else projected = None)
        (RuntimeError ''synthetic category read-back did not prove requested state'' [])]
      (Inr (updated, \<lparr>ck_action = cm_action q, ck_category_key = cm_category_key q, ck_changed = changed,
         ck_exists_after = (projected \<noteq> None), ck_read_back_name = map_option ct_display_name projected,
         ck_read_back_color = map_option ct_color_token projected, ck_verified = True, ck_synthetic = True\<rparr>)))))"

subsection \<open>Batches of assignments\<close>

datatype CategoryAssignmentAction = DO_APPLY | DO_REMOVE

record CategoryAssignmentMutation =
  cb_action :: CategoryAssignmentAction
  cb_message_key :: string
  cb_category_key :: string

definition assignment_mutation_check :: "CategoryAssignmentMutation \<Rightarrow> exn option" where
  "assignment_mutation_check x = first_error [
     token_check ''message_key'' (cb_message_key x), token_check ''category_key'' (cb_category_key x)]"

record CategoryAssignmentBatchRequest =
  bq_items :: "CategoryAssignmentMutation list"
  bq_dry_run_digest :: "string option"

definition assignment_batch_check :: "CategoryAssignmentBatchRequest \<Rightarrow> exn option" where
  "assignment_batch_check q = first_error [
     raise_if (bq_items q = [] \<or> 50 < length (bq_items q))
       (value_error ''category assignment batch must be non-empty and bounded''),
     raise_if (\<not> distinct (bq_items q)) (value_error ''category assignment batch must not contain duplicate operations''),
     raise_if (10 < length (bq_items q) \<and> bq_dry_run_digest q = None)
       (value_error ''large category assignment batch requires dry_run_digest''),
     (case bq_dry_run_digest q of None \<Rightarrow> None | Some d \<Rightarrow>
        raise_if (\<not> is_digest d) (value_error ''dry_run_digest must be lowercase SHA-256 hex''))]"

record CategoryAssignmentBatchResult =
  br_changed_count :: nat
  br_affected_message_keys :: "string list"
  br_verified :: bool
  br_synthetic :: bool

fun reference_loop :: "string set \<Rightarrow> string set \<Rightarrow> CategoryAssignmentMutation list \<Rightarrow> exn option" where
  "reference_loop messages categories [] = None"
| "reference_loop messages categories (x # xs) =
     (if cb_message_key x \<notin> messages then Some (value_error ''category mutation references unknown synthetic message_key'')
      else if cb_category_key x \<notin> categories then Some (value_error ''category mutation references unknown synthetic category_key'')
      else reference_loop messages categories xs)"

definition batch_pair :: "CategoryAssignmentMutation \<Rightarrow> string \<times> string" where
  "batch_pair x = (cb_message_key x, cb_category_key x)"

definition batch_step :: "CategoryAssignmentMutation \<Rightarrow> (string \<times> string) set \<Rightarrow> (string \<times> string) set" where
  "batch_step x pairs = (case cb_action x of DO_APPLY \<Rightarrow> insert (batch_pair x) pairs | DO_REMOVE \<Rightarrow> pairs - {batch_pair x})"

definition apply_fixture_category_assignments ::
  "OutlookMockFixture \<Rightarrow> CategoryAssignmentBatchRequest \<Rightarrow> OutlookReadinessReport \<Rightarrow> SyntheticCategory list \<Rightarrow>
   CategoryAssignment list \<Rightarrow> (CategoryAssignment list \<times> CategoryAssignmentBatchResult) result" where
  "apply_fixture_category_assignments f q r categories links =
     checked [synthetic_check ''OUT-032'' f, ready_check r,
       reference_loop (mm_message_key ` set (fx_messages f)) (ct_category_key ` set categories) (bq_items q)]
     (let before = set (map pair_of links); pairs = fold batch_step (bq_items q) before in
      bindE (mapE (\<lambda>(m, c). construct assignment_check \<lparr>ca_message_key = m, ca_category_key = c\<rparr>) (sorted_list_of_set pairs)) (\<lambda>updated.
      let affected = sorted_list_of_set (set (map cb_message_key (bq_items q))) in
      bindE (mapE (\<lambda>key. bindE (read_fixture_message_categories f key r (Some categories) (Some updated)) (\<lambda>state.
          checked [raise_if (mc_category_keys state \<noteq> sort (map snd (filter (\<lambda>(m, c). m = key) (sorted_list_of_set pairs))))
            (RuntimeError ''synthetic category read-back did not match applied batch'' [])] (Inr ()))) affected) (\<lambda>_.
      Inr (updated, \<lparr>br_changed_count = card ((before - pairs) \<union> (pairs - before)), br_affected_message_keys = affected,
        br_verified = True, br_synthetic = True\<rparr>))))"

subsection \<open>What a valid vocabulary is\<close>

lemma assignment_loop_None:
  "assignment_loop categories messages seen links = None \<longleftrightarrow>
     (\<forall>a \<in> set links. ca_category_key a \<in> categories \<and> ca_message_key a \<in> messages \<and>
       length (filter (\<lambda>k. k = ca_message_key a) seen) + length (filter (\<lambda>b. ca_message_key b = ca_message_key a) links) \<le> 25)"
proof (induction links arbitrary: seen)
  case (Cons a links)
  let ?seen = "\<lambda>k. length (filter (\<lambda>j. j = k) seen)" and ?rest = "\<lambda>k. length (filter (\<lambda>b. ca_message_key b = k) links)"
  let ?known = "\<lambda>b. ca_category_key b \<in> categories \<and> ca_message_key b \<in> messages"
  let ?k = "ca_message_key a"
  have "assignment_loop categories messages seen (a # links) = None \<longleftrightarrow>
      ?known a \<and> Suc (?seen ?k) \<le> 25 \<and> assignment_loop categories messages (?k # seen) links = None"
    by auto
  also have "assignment_loop categories messages (?k # seen) links = None \<longleftrightarrow>
      (\<forall>b \<in> set links. ?known b \<and> ?seen (ca_message_key b) + length (filter (\<lambda>c. ca_message_key c = ca_message_key b) (a # links)) \<le> 25)"
    unfolding Cons.IH [of "?k # seen"] by (intro ball_cong refl) simp
  also have "?known a \<and> Suc (?seen ?k) \<le> 25 \<and> (\<forall>b \<in> set links. ?known b \<and>
        ?seen (ca_message_key b) + length (filter (\<lambda>c. ca_message_key c = ca_message_key b) (a # links)) \<le> 25) \<longleftrightarrow>
      (\<forall>b \<in> set (a # links). ?known b \<and>
        ?seen (ca_message_key b) + length (filter (\<lambda>c. ca_message_key c = ca_message_key b) (a # links)) \<le> 25)"
  proof (cases "\<exists>b \<in> set links. ca_message_key b = ?k")
    case True
    then obtain b where "b \<in> set links" "ca_message_key b = ?k" by blast
    then show ?thesis by (simp only: set_simps ball_simps) fastforce
  next
    case False
    then have "?rest ?k = 0" by (simp add: filter_empty_conv)
    then show ?thesis by simp
  qed
  finally show ?case by (simp only: conj_assoc)
qed simp

definition vocabulary_ok :: "OutlookMockFixture \<Rightarrow> SyntheticCategory list \<Rightarrow> (string \<times> string) set \<Rightarrow> bool" where
  "vocabulary_ok f categories pairs \<longleftrightarrow> length categories \<le> 100 \<and> distinct_keys ct_category_key categories \<and>
     (\<forall>p \<in> pairs. snd p \<in> ct_category_key ` set categories \<and> fst p \<in> mm_message_key ` set (fx_messages f) \<and>
       card {c. (fst p, c) \<in> pairs} \<le> 25)"

lemma catalog_checks_None:
  "first_error (category_catalog_checks f categories links) = None \<longleftrightarrow>
     distinct (map pair_of links) \<and> vocabulary_ok f categories (pair_of ` set links)"
proof -
  have count: "length (filter (\<lambda>b. ca_message_key b = k) links) = card {c. (k, c) \<in> pair_of ` set links}"
    if d: "distinct (map pair_of links)" for k
  proof -
    let ?sel = "filter (\<lambda>b. ca_message_key b = k) links"
    have "distinct (map pair_of ?sel)" using d by (simp add: distinct_map_filter)
    then have "distinct (map ca_category_key ?sel)"
      by (auto simp: distinct_map inj_on_def pair_of_def)
    then have "length ?sel = card (set (map ca_category_key ?sel))" by (metis distinct_card length_map)
    also have "set (map ca_category_key ?sel) = {c. (k, c) \<in> pair_of ` set links}" by (auto simp: pair_of_def image_iff)
    finally show ?thesis .
  qed
  have "first_error (category_catalog_checks f categories links) = None \<longleftrightarrow> length categories \<le> 100 \<and>
      distinct_keys ct_category_key categories \<and> distinct (map pair_of links) \<and>
      (\<forall>a \<in> set links. ca_category_key a \<in> ct_category_key ` set categories \<and>
        ca_message_key a \<in> mm_message_key ` set (fx_messages f) \<and>
        length (filter (\<lambda>b. ca_message_key b = ca_message_key a) links) \<le> 25)"
    by (simp add: category_catalog_checks_def checks first_error.simps(1) assignment_loop_None not_less)
  then show ?thesis
    unfolding vocabulary_ok_def ball_simps(9)
    by (cases "distinct (map pair_of links)") (simp_all add: count pair_of_def [of _] cong: conj_cong)
qed

subsection \<open>The effect of a batch\<close>

text \<open>The last operation on a pair decides; a pair that is not mentioned stays as it was.\<close>

definition batch_result :: "CategoryAssignmentMutation list \<Rightarrow> (string \<times> string) set \<Rightarrow> (string \<times> string) set" where
  "batch_result items before = {p. case find (\<lambda>x. batch_pair x = p) (rev items) of None \<Rightarrow> p \<in> before | Some x \<Rightarrow> cb_action x = DO_APPLY}"

lemma fold_batch: "fold batch_step items before = batch_result items before"
proof (induction items rule: rev_induct)
  case (snoc x items)
  then show ?case
    by (cases "cb_action x") (auto simp: batch_result_def batch_step_def)
qed (simp add: batch_result_def)

lemma reference_loop_None:
  "reference_loop messages categories items = None \<longleftrightarrow>
     (\<forall>x \<in> set items. cb_message_key x \<in> messages \<and> cb_category_key x \<in> categories)"
  by (induction messages categories items rule: reference_loop.induct) auto

lemma reference_loop_value_error: "reference_loop messages categories items = Some e \<Longrightarrow> is_value_error e"
  by (induction messages categories items rule: reference_loop.induct) (auto split: if_splits)

lemma assignment_loop_value_error: "assignment_loop categories messages seen links = Some e \<Longrightarrow> is_value_error e"
  by (induction categories messages seen links rule: assignment_loop.induct) (auto split: if_splits)

lemma catalog_checks_value_error: "first_error (category_catalog_checks f categories links) = Some e \<Longrightarrow> is_value_error e"
  by (auto simp: category_catalog_checks_def first_error.simps raise_if_def dest: assignment_loop_value_error
      split: if_splits option.splits)

definition assignment_of :: "string \<times> string \<Rightarrow> CategoryAssignment" where
  "assignment_of p = \<lparr>ca_message_key = fst p, ca_category_key = snd p\<rparr>"

lemma pair_of_assignment [simp]: "pair_of (assignment_of p) = p"
  by (simp add: pair_of_def assignment_of_def)

text \<open>The read of one message from a tuple of assignments made of a set of pairs.\<close>

lemma category_read:
  assumes "fx_synthetic f" "ready_for_readonly_discovery r" "finite pairs" "trimmed key"
    "key \<in> mm_message_key ` set (fx_messages f)"
  defines "links \<equiv> map assignment_of (sorted_list_of_set pairs)"
  shows "(case read_fixture_message_categories f key r (Some categories) (Some links) of
       Inl e \<Rightarrow> is_value_error e \<and> \<not> vocabulary_ok f categories pairs
     | Inr state \<Rightarrow> vocabulary_ok f categories pairs \<and>
         mc_category_keys state = sort (map snd (filter (\<lambda>(m, c). m = key) (sorted_list_of_set pairs))))"
proof -
  have links: "distinct (map pair_of links)" "pair_of ` set links = pairs"
    using assms(3) by (simp_all add: links_def comp_def image_image)
  have sel: "sort (map ca_category_key (filter (\<lambda>a. ca_message_key a = key) links)) =
      sort (map snd (filter (\<lambda>(m, c). m = key) (sorted_list_of_set pairs)))"
    by (simp add: links_def filter_map comp_def assignment_of_def case_prod_unfold)
  have gate: "first_error ([trimmed_check ''message_key'' key, synthetic_check ''OUT-017'' f, ready_check r,
       raise_if (key \<notin> mm_message_key ` set (fx_messages f)) (value_error ''synthetic message_key not found'')] @ cs) = first_error cs" for cs
    using assms(1,2,4,5) by (simp add: first_error.simps(2) trimmed_check_def synthetic_check_def ready_check_def raise_if_def)
  show ?thesis
  proof (cases "first_error (category_catalog_checks f categories links)")
    case None
    then show ?thesis
      using catalog_checks_None [of f categories links] links sel
      by (simp add: read_fixture_message_categories_def categories_or_default_def assignments_or_default_def checked_def gate Let_def
          del: append.simps)
  next
    case (Some e)
    then show ?thesis
      using catalog_checks_None [of f categories links] links catalog_checks_value_error [OF Some]
      by (simp add: read_fixture_message_categories_def categories_or_default_def assignments_or_default_def checked_def gate Let_def
          del: append.simps)
  qed
qed

definition batch_ok :: "OutlookMockFixture \<Rightarrow> OutlookReadinessReport \<Rightarrow> SyntheticCategory list \<Rightarrow>
    CategoryAssignmentMutation list \<Rightarrow> (string \<times> string) set \<Rightarrow> bool" where
  "batch_ok f r categories items pairs \<longleftrightarrow> fx_synthetic f \<and> ready_for_readonly_discovery r \<and>
     list_all (\<lambda>x. cb_message_key x \<in> mm_message_key ` set (fx_messages f) \<and>
       cb_category_key x \<in> ct_category_key ` set categories) items \<and>
     vocabulary_ok f categories pairs"

lemma mapE_all: "(\<And>x. x \<in> set xs \<Longrightarrow> f x = Inr (g x)) \<Longrightarrow> mapE f xs = Inr (map g xs)"
  by (induction xs) simp_all

lemma mapE_first: "xs \<noteq> [] \<Longrightarrow> (\<And>x. x \<in> set xs \<Longrightarrow> \<exists>e. f x = Inl e \<and> P e) \<Longrightarrow> \<exists>e. mapE f xs = Inl e \<and> P e"
proof -
  assume "xs \<noteq> []" and all: "\<And>x. x \<in> set xs \<Longrightarrow> \<exists>e. f x = Inl e \<and> P e"
  then obtain x rest where xs: "xs = x # rest" by (cases xs) auto
  with all [of x] obtain e where "f x = Inl e" "P e" by auto
  then show ?thesis by (simp add: xs)
qed

lemma chosen_by_find: "find P xs = Some x \<Longrightarrow> x \<in> set xs \<and> P x"
  by (induction xs) (auto split: if_splits)

lemma batch_pairs:
  assumes "list_all (\<lambda>a. assignment_check a = None) links" "list_all (\<lambda>x. assignment_mutation_check x = None) items"
  defines "pairs \<equiv> batch_result items (set (map pair_of links))"
  shows "finite pairs" "p \<in> pairs \<Longrightarrow> assignment_check (assignment_of p) = None"
proof -
  have sub: "pairs \<subseteq> pair_of ` set links \<union> batch_pair ` set items"
  proof
    fix p assume p: "p \<in> pairs"
    show "p \<in> pair_of ` set links \<union> batch_pair ` set items"
    proof (cases "find (\<lambda>x. batch_pair x = p) (rev items)")
      case None
      with p show ?thesis by (simp add: pairs_def batch_result_def)
    next
      case (Some x)
      from chosen_by_find [OF this] show ?thesis by auto
    qed
  qed
  then show "finite pairs" by (rule finite_subset) simp
  assume "p \<in> pairs"
  with sub consider a where "a \<in> set links" "p = pair_of a" | x where "x \<in> set items" "p = batch_pair x" by auto
  then show "assignment_check (assignment_of p) = None"
    using assms(1,2)
    by cases (auto simp: list_all_iff assignment_check_def assignment_mutation_check_def checks first_error.simps(1)
        assignment_of_def pair_of_def batch_pair_def)
qed

text \<open>C26. A batch of assignments takes effect as a whole or not at all. It is accepted exactly when the mailbox is
  ready, it refers to known messages and categories, and the result is valid: known keys, a valid vocabulary and
  at most twenty-five categories of a message. The result holds exactly the pairs whose last operation in the
  batch adds them, or which the batch does not mention and were there before; it is strictly ordered; and the
  number of changes is that of the pairs gained or lost.\<close>

theorem category_batch_exact:
  "case assignment_batch_check q of
     Some e \<Rightarrow> True
   | None \<Rightarrow> if list_all (\<lambda>a. assignment_check a = None) links \<and> list_all (\<lambda>x. assignment_mutation_check x = None) (bq_items q)
       then (let before = set (map pair_of links); pairs = batch_result (bq_items q) before in
         case apply_fixture_category_assignments f q r categories links of
           Inl e \<Rightarrow> is_value_error e \<and> batch_ok f r categories (bq_items q) pairs = False
         | Inr (updated, x) \<Rightarrow> batch_ok f r categories (bq_items q) pairs \<and> set (map pair_of updated) = pairs \<and>
             sorted_wrt (<) (map pair_of updated) \<and> br_changed_count x = card ((before - pairs) \<union> (pairs - before)) \<and>
             set (br_affected_message_keys x) = cb_message_key ` set (bq_items q))
       else True"
proof (cases "assignment_batch_check q = None \<and> list_all (\<lambda>a. assignment_check a = None) links \<and>
    list_all (\<lambda>x. assignment_mutation_check x = None) (bq_items q)")
  case False
  then show ?thesis by (auto split: option.split)
next
  case True
  let ?items = "bq_items q" and ?before = "set (map pair_of links)"
  define pairs where "pairs = batch_result ?items ?before"
  have pd: "batch_result ?items (pair_of ` set links) = pairs" by (simp add: pairs_def)
  note pairs = batch_pairs [of links ?items, folded pairs_def]
  let ?links = "map assignment_of (sorted_list_of_set pairs)" and ?keys = "sorted_list_of_set (set (map cb_message_key ?items))"
  let ?check = "\<lambda>key. bindE (read_fixture_message_categories f key r (Some categories) (Some ?links)) (\<lambda>state.
      checked [raise_if (mc_category_keys state \<noteq> sort (map snd (filter (\<lambda>(m, c). m = key) (sorted_list_of_set pairs))))
        (RuntimeError ''synthetic category read-back did not match applied batch'' [])] (Inr ()))"
  from True have items: "?items \<noteq> []" "\<And>x. x \<in> set ?items \<Longrightarrow> trimmed (cb_message_key x)"
    by (auto simp: assignment_batch_check_def checks list_all_iff assignment_mutation_check_def intro: token_trimmed)
  have made: "mapE (\<lambda>(m, c). construct assignment_check \<lparr>ca_message_key = m, ca_category_key = c\<rparr>) (sorted_list_of_set pairs) = Inr ?links"
  proof (rule mapE_all)
    fix p assume "p \<in> set (sorted_list_of_set pairs)"
    with pairs True have "assignment_check (assignment_of p) = None" by simp
    then show "(case p of (m, c) \<Rightarrow> construct assignment_check \<lparr>ca_message_key = m, ca_category_key = c\<rparr>) = Inr (assignment_of p)"
      by (simp add: construct_def assignment_of_def split_beta)
  qed
  have links: "set (map pair_of ?links) = pairs" "sorted_wrt (<) (map pair_of ?links)"
    using pairs(1) True by (simp_all add: comp_def image_image)
  have keys: "set ?keys = cb_message_key ` set ?items" "?keys \<noteq> []"
    using items(1) by (simp_all add: sorted_list_of_set_eq_Nil_iff)
  let ?refs = "reference_loop (mm_message_key ` set (fx_messages f)) (ct_category_key ` set categories) ?items"
  have answer: "apply_fixture_category_assignments f q r categories links =
      checked [synthetic_check ''OUT-032'' f, ready_check r, ?refs]
      (bindE (mapE ?check ?keys) (\<lambda>_. Inr (?links, \<lparr>br_changed_count = card ((?before - pairs) \<union> (pairs - ?before)),
        br_affected_message_keys = ?keys, br_verified = True, br_synthetic = True\<rparr>)))"
    unfolding apply_fixture_category_assignments_def Let_def fold_batch pairs_def [symmetric] made bindE_simps ..
  show ?thesis
  proof (cases "fx_synthetic f \<and> ready_for_readonly_discovery r \<and> ?refs = None")
    case False
    have "\<exists>e. first_error [synthetic_check ''OUT-032'' f, ready_check r, ?refs] = Some e \<and> is_value_error e"
    proof (cases "fx_synthetic f \<and> ready_for_readonly_discovery r")
      case True
      with False obtain e where "?refs = Some e" by auto
      with True reference_loop_value_error [OF this] show ?thesis
        by (simp add: first_error.simps synthetic_check_def ready_check_def)
    next
      case False
      then show ?thesis
        by (cases "fx_synthetic f") (simp_all add: first_error.simps synthetic_check_def ready_check_def)
    qed
    then obtain e where "first_error [synthetic_check ''OUT-032'' f, ready_check r, ?refs] = Some e" "is_value_error e" by blast
    moreover have "\<not> batch_ok f r categories ?items pairs"
      using False by (auto simp: batch_ok_def reference_loop_None list_all_iff)
    ultimately show ?thesis using True by (simp add: answer checked_def pd Let_def)
  next
    case gate: True
    then have gates: "first_error [synthetic_check ''OUT-032'' f, ready_check r, ?refs] = None"
      by (simp add: checks first_error.simps(1))
    have known: "list_all (\<lambda>x. cb_message_key x \<in> mm_message_key ` set (fx_messages f) \<and>
       cb_category_key x \<in> ct_category_key ` set categories) ?items"
      using gate by (auto simp: reference_loop_None list_all_iff)
    have read: "case read_fixture_message_categories f key r (Some categories) (Some ?links) of
       Inl e \<Rightarrow> is_value_error e \<and> \<not> vocabulary_ok f categories pairs
     | Inr state \<Rightarrow> vocabulary_ok f categories pairs \<and>
         mc_category_keys state = sort (map snd (filter (\<lambda>(m, c). m = key) (sorted_list_of_set pairs)))"
      if "key \<in> set ?keys" for key
      using that gate known items pairs(1) True unfolding keys(1)
      by (intro category_read) (auto simp: list_all_iff)
    show ?thesis
    proof (cases "vocabulary_ok f categories pairs")
      case ok: True
      have "mapE ?check ?keys = Inr (map (\<lambda>_. ()) ?keys)"
      proof (rule mapE_all)
        fix key assume "key \<in> set ?keys"
        from read [OF this] ok show "?check key = Inr ()" by (auto simp: checked_def first_error.simps split: sum.splits)
      qed
      with True gate gates known ok links keys(1) show ?thesis
        by (simp add: answer checked_def pd Let_def batch_ok_def del: map_map)
    next
      case bad: False
      have "\<exists>e. mapE ?check ?keys = Inl e \<and> is_value_error e"
      proof (rule mapE_first [OF keys(2)])
        fix key assume "key \<in> set ?keys"
        from read [OF this] bad show "\<exists>e. ?check key = Inl e \<and> is_value_error e" by (auto split: sum.splits)
      qed
      with True gates bad show ?thesis
        by (auto simp: answer checked_def pd Let_def batch_ok_def)
    qed
  qed
qed

subsection \<open>The life cycle keeps the vocabulary valid\<close>

definition categories_ok :: "OutlookMockFixture \<Rightarrow> OutlookReadinessReport \<Rightarrow> CategoryAssignment list \<Rightarrow> SyntheticCategory list \<Rightarrow> bool" where
  "categories_ok f r links categories \<longleftrightarrow> fx_synthetic f \<and> ready_for_readonly_discovery r \<and> distinct (map pair_of links) \<and>
     vocabulary_ok f categories (set (map pair_of links)) \<and> list_all (\<lambda>c. category_check c = None) categories"

definition apply_category_op :: "OutlookMockFixture \<Rightarrow> OutlookReadinessReport \<Rightarrow> CategoryAssignment list \<Rightarrow> CategoryMutationRequest \<Rightarrow>
    SyntheticCategory list \<Rightarrow> SyntheticCategory list result" where
  "apply_category_op f r links q categories = bindE (construct category_request_check q) (\<lambda>q.
     map_sum id fst (apply_fixture_category_mutation f q r categories links))"

text \<open>The category a key stands for, and what an accepted request makes of it.\<close>

definition vocabulary :: "SyntheticCategory list \<Rightarrow> string \<Rightarrow> SyntheticCategory option" where
  "vocabulary categories k = find_key ct_category_key k categories"

definition requested_category :: "CategoryMutationRequest \<Rightarrow> SyntheticCategory option \<Rightarrow> SyntheticCategory option" where
  "requested_category q current = (case cm_action q of
     DO_DELETE \<Rightarrow> None
   | DO_CREATE \<Rightarrow> Some \<lparr>ct_category_key = cm_category_key q, ct_display_name = the (cm_display_name q),
       ct_color_token = case_option CAT_NEUTRAL id (cm_color_token q)\<rparr>
   | DO_UPDATE \<Rightarrow> map_option (\<lambda>c. \<lparr>ct_category_key = cm_category_key q,
       ct_display_name = case_option (ct_display_name c) id (cm_display_name q),
       ct_color_token = case_option (ct_color_token c) id (cm_color_token q)\<rparr>) current)"

lemma category_check_value_error: "category_check c = Some e \<Longrightarrow> is_value_error e"
  by (auto simp: category_check_def first_error.simps token_check_cases raise_if_def split: if_splits)

lemma category_request_value_error: "category_request_check q = Some e \<Longrightarrow> is_value_error e"
  by (auto simp: category_request_check_def first_error.simps token_check_cases raise_if_def split: if_splits option.splits)

lemma or_text_trimmed: "cm_display_name q = Some n \<Longrightarrow> trimmed n \<Longrightarrow> or_text (cm_display_name q) d = n"
  by (simp add: or_text_def trimmed_def)

text \<open>The update alone: what is stored, and that no assigned category is deleted.\<close>

lemma category_update_exact:
  assumes ok: "categories_ok f r links categories" and q: "category_request_check q = None"
    and u: "category_update q categories links = Inr (updated, changed)"
  shows "distinct_keys ct_category_key updated \<and> list_all (\<lambda>c. category_check c = None) updated \<and>
     vocabulary updated = (vocabulary categories)(cm_category_key q := requested_category q (vocabulary categories (cm_category_key q))) \<and>
     (cm_action q = DO_DELETE \<longrightarrow> cm_category_key q \<notin> ca_category_key ` set links) \<and>
     (cm_action q \<noteq> DO_DELETE \<longrightarrow> requested_category q (vocabulary categories (cm_category_key q)) \<noteq> None)"
proof -
  let ?k = "cm_category_key q" and ?cur = "find_key ct_category_key (cm_category_key q) categories"
  from ok have d: "distinct_keys ct_category_key categories" and all: "list_all (\<lambda>c. category_check c = None) categories"
    by (simp_all add: categories_ok_def vocabulary_ok_def)
  have put: "distinct_keys ct_category_key (put_in_place ct_category_key c categories)"
    "vocabulary (put_in_place ct_category_key c categories) = (vocabulary categories)(ct_category_key c \<mapsto> c)"
    "category_check c = None \<Longrightarrow> list_all (\<lambda>c. category_check c = None) (put_in_place ct_category_key c categories)" for c
    using in_place.put_ok [OF d] in_place.lookup_put [OF d] all
    by (auto simp: vocabulary_def fun_eq_iff list_all_iff in_place.elements [OF d])
  show ?thesis
  proof (cases "cm_action q")
    case DO_DELETE
    with u have links: "?k \<notin> ca_category_key ` set links" and up: "updated = remove_key ct_category_key ?k categories"
      by (auto simp: category_update_def Let_def checks first_error.simps(1) list_ex_iff)
    have "vocabulary updated = (vocabulary categories)(?k := None)"
      by (auto simp: up vocabulary_def find_key_remove fun_eq_iff)
    with DO_DELETE links distinct_remove [OF d] all show ?thesis
      by (auto simp: up requested_category_def list_all_iff remove_key_set)
  next
    case DO_CREATE
    with q obtain n where n: "cm_display_name q = Some n" "trimmed n"
      by (auto simp: category_request_check_def checks split: option.splits)
    let ?c = "\<lparr>ct_category_key = ?k, ct_display_name = n, ct_color_token = case_option CAT_NEUTRAL id (cm_color_token q)\<rparr>"
    from DO_CREATE u or_text_trimmed [OF n] have c: "category_check ?c = None"
      and up: "updated = (case ?cur of None \<Rightarrow> categories @ [?c] | Some _ \<Rightarrow> categories)" "\<forall>c. ?cur = Some c \<longrightarrow> c = ?c"
      by (auto simp: category_update_def Let_def construct_def bindE_def split: option.splits if_splits)
    show ?thesis
    proof (cases ?cur)
      case None
      then have "updated = put_in_place ct_category_key ?c categories" by (simp add: up put_in_place_def)
      with put [of ?c] c DO_CREATE n show ?thesis by (simp add: requested_category_def)
    next
      case (Some c)
      with up have "updated = categories" "vocabulary categories ?k = Some ?c" by (simp_all add: vocabulary_def)
      moreover from this have "vocabulary categories = (vocabulary categories)(?k \<mapsto> ?c)" by auto
      ultimately show ?thesis using d all DO_CREATE n by (simp add: requested_category_def)
    qed
  next
    case DO_UPDATE
    with u obtain c where c: "?cur = Some c" by (auto simp: category_update_def Let_def split: option.splits)
    let ?c = "\<lparr>ct_category_key = ct_category_key c, ct_display_name = or_text (cm_display_name q) (ct_display_name c),
        ct_color_token = case_option (ct_color_token c) id (cm_color_token q)\<rparr>"
    from c have key: "ct_category_key c = ?k" using find_key_Some by metis
    from DO_UPDATE u c have up: "category_check ?c = None" "updated = replace_key ct_category_key ?k ?c categories"
      by (auto simp: category_update_def Let_def construct_def bindE_def split: option.splits)
    have "updated = put_in_place ct_category_key ?c categories" using c key by (simp add: up put_in_place_def)
    moreover have "or_text (cm_display_name q) (ct_display_name c) = case_option (ct_display_name c) id (cm_display_name q)"
      using q DO_UPDATE by (auto simp: or_text_def category_request_check_def checks trimmed_def split: option.splits)
    ultimately show ?thesis
      using put [of ?c] up(1) key c DO_UPDATE by (simp add: requested_category_def vocabulary_def)
  qed
qed

lemma category_update_value_error: "category_update q categories links = Inl e \<Longrightarrow> is_value_error e"
  by (auto simp: category_update_def Let_def construct_def bindE_def checked_def first_error.simps raise_if_def
      dest: category_check_value_error split: CategoryMutationAction.splits option.splits if_splits sum.splits)

lemma category_step:
  assumes ok: "categories_ok f r links categories" and q: "category_request_check q = None"
  shows "case apply_fixture_category_mutation f q r categories links of
      Inl e \<Rightarrow> is_value_error e
    | Inr (updated, x) \<Rightarrow> categories_ok f r links updated \<and>
        vocabulary updated = (vocabulary categories)(cm_category_key q := requested_category q (vocabulary categories (cm_category_key q))) \<and>
        ck_read_back_name x = map_option ct_display_name (requested_category q (vocabulary categories (cm_category_key q))) \<and>
        (if cm_action q = DO_DELETE then cm_category_key q \<notin> ca_category_key ` set links else True)"
proof -
  let ?k = "cm_category_key q"
  from ok have gate: "fx_synthetic f" "ready_for_readonly_discovery r" by (simp_all add: categories_ok_def)
  then have gates: "checked [synthetic_check code f, ready_check r] m = m" for code and m :: "'z result"
    by (simp add: checked_def first_error.simps synthetic_check_def ready_check_def)
  show ?thesis
  proof (cases "category_update q categories links")
    case (Inl e)
    then show ?thesis using category_update_value_error by (simp add: apply_fixture_category_mutation_def gates)
  next
    case (Inr y)
    obtain updated changed where y: "y = (updated, changed)" by (cases y)
    note up = category_update_exact [OF ok q Inr [unfolded y]]
    let ?want = "requested_category q (vocabulary categories ?k)"
    have found: "find_key ct_category_key ?k updated = ?want" using up by (simp add: vocabulary_def [of updated, symmetric])
    show ?thesis
    proof (cases "first_error (category_catalog_checks f updated links)")
      case (Some e)
      then have "list_fixture_categories f r (Some updated) (Some links) = Inl e"
        using gate by (simp add: list_fixture_categories_def categories_or_default_def assignments_or_default_def Let_def
            checked_def first_error.simps(2) synthetic_check_def ready_check_def)
      then show ?thesis
        using catalog_checks_value_error [OF Some] by (simp add: apply_fixture_category_mutation_def gates Inr y)
    next
      case None
      then obtain read_back where rb: "list_fixture_categories f r (Some updated) (Some links) = Inr read_back"
        "map cu_category (cx_categories read_back) = updated"
        using gate by (simp add: list_fixture_categories_def categories_or_default_def assignments_or_default_def Let_def
            checked_def first_error.simps(2) synthetic_check_def ready_check_def comp_def)
      from None have "vocabulary_ok f updated (set (map pair_of links))" by (simp add: catalog_checks_None)
      with ok up have "categories_ok f r links updated" by (simp add: categories_ok_def)
      moreover have proved: "(if cm_action q = DO_DELETE then ?want \<noteq> None else ?want = None) = False"
        using up by (simp add: requested_category_def)
      have "apply_fixture_category_mutation f q r categories links = Inr (updated, \<lparr>ck_action = cm_action q,
          ck_category_key = ?k, ck_changed = changed, ck_exists_after = (?want \<noteq> None),
          ck_read_back_name = map_option ct_display_name ?want, ck_read_back_color = map_option ct_color_token ?want,
          ck_verified = True, ck_synthetic = True\<rparr>)"
        unfolding apply_fixture_category_mutation_def gates Inr y bindE_simps prod.case rb Let_def found proved
        by (simp add: checked_def first_error.simps)
      ultimately show ?thesis using up by simp
    qed
  qed
qed

text \<open>C39. From a valid vocabulary every history of requests leads to a valid vocabulary: keys stay distinct and at most
  a hundred, and every assignment keeps its category. An accepted request makes of its key exactly the category it
  asks for and touches no other key, with a read-back of that name; a category is never deleted while it is
  assigned; and every refusal is a \<open>ValueError\<close>.\<close>

theorem category_lifecycle_safe:
  "if categories_ok f r links categories
   then categories_ok f r links (fold (run_step (apply_category_op f r links)) ops categories) \<and>
     (case category_request_check q of Some e \<Rightarrow> True | None \<Rightarrow>
       (case apply_fixture_category_mutation f q r categories links of
          Inl e \<Rightarrow> is_value_error e
        | Inr (updated, x) \<Rightarrow> categories_ok f r links updated \<and>
            vocabulary updated = (vocabulary categories)(cm_category_key q := requested_category q (vocabulary categories (cm_category_key q))) \<and>
            ck_read_back_name x = map_option ct_display_name (requested_category q (vocabulary categories (cm_category_key q))) \<and>
            (if cm_action q = DO_DELETE then cm_category_key q \<notin> ca_category_key ` set links else True)))
   else True"
proof (cases "categories_ok f r links categories")
  case True
  have run: "categories_ok f r links (fold (run_step (apply_category_op f r links)) ops categories)"
    using True
  proof (induction ops arbitrary: categories)
    case (Cons op ops)
    have "categories_ok f r links (run_step (apply_category_op f r links) op categories)"
    proof (cases "category_request_check op")
      case None
      with category_step [OF Cons.prems None] Cons.prems show ?thesis
        by (auto simp: run_step_def apply_category_op_def construct_def split: sum.splits)
    next
      case (Some e)
      with Cons.prems show ?thesis by (simp add: run_step_def apply_category_op_def construct_def)
    qed
    with Cons.IH show ?case by simp
  qed simp
  show ?thesis
  proof (cases "category_request_check q")
    case None
    with True run category_step [OF True None] show ?thesis by simp
  next
    case (Some e)
    with True run show ?thesis by simp
  qed
next
  case False
  then show ?thesis by (simp only: if_False)
qed

end
