(* ===== verification/Outlook_Folders.thy ===== *)
theory Outlook_Folders
  imports Outlook_Messages
begin

text \<open>
  The life cycle of folders (\<open>folder_mutations.py\<close>): creating, renaming, and marking as favourite, over the
  mailbox, the folder catalogue and the favourites together.

  The results: every history of requests keeps the three consistent and reads back what was asked for; and a
  folder may be created so deep that the mailbox can no longer be listed.
\<close>

datatype FolderMutationAction = FOLDER_CREATE | FOLDER_RENAME | FOLDER_FAVORITE | FOLDER_UNFAVORITE

record FolderMutationRequest =
  fo_action :: FolderMutationAction
  fo_folder_key :: string
  fo_display_name :: "string option"
  fo_parent_key :: "string option"

definition folder_request_check :: "FolderMutationRequest \<Rightarrow> exn option" where
  "folder_request_check q = first_error [
     token_check ''folder_key'' (fo_folder_key q),
     optional_token ''parent_key'' (fo_parent_key q),
     (case fo_display_name q of None \<Rightarrow> None | Some n \<Rightarrow>
        raise_if (\<not> trimmed n) (value_error ''display_name must be non-empty and trimmed'')),
     (if fo_action q \<in> {FOLDER_CREATE, FOLDER_RENAME}
      then raise_if (fo_display_name q = None) (value_error ''create/rename requires display_name'')
      else raise_if (fo_display_name q \<noteq> None \<or> fo_parent_key q \<noteq> None) (value_error ''favorite operations accept only folder_key'')),
     raise_if (fo_action q = FOLDER_RENAME \<and> fo_parent_key q \<noteq> None) (value_error ''rename must not change parent_key'')]"

record FolderMutationResult =
  fz_action :: FolderMutationAction
  fz_folder_key :: string
  fz_previous_display_name :: "string option"
  fz_read_back_display_name :: "string option"
  fz_previous_favorite :: bool
  fz_read_back_favorite :: bool
  fz_changed :: bool
  fz_verified :: bool
  fz_synthetic :: bool

record folder_state =
  fd_fixture :: OutlookMockFixture
  fd_folders :: "SyntheticFolder list"
  fd_favorites :: "string list"

definition PROTECTED_FOLDERS :: "string list" where
  "PROTECTED_FOLDERS = [''inbox'', ''archive'', ''sent'']"

definition folder_state_checks :: "folder_state \<Rightarrow> exn option list" where
  "folder_state_checks s = [
     raise_if (sf_folder_key ` set (fd_folders s) \<noteq> set (fx_folders (fd_fixture s)))
       (value_error ''folder catalog does not match synthetic fixture''),
     raise_if (\<not> distinct_keys sf_folder_key (fd_folders s)) (value_error ''folder catalog keys must be unique''),
     raise_if (list_ex (\<lambda>k. k \<notin> sf_folder_key ` set (fd_folders s)) (fd_favorites s))
       (value_error ''favorite folder references unknown folder'')]"

definition require_folder :: "SyntheticFolder option \<Rightarrow> SyntheticFolder result" where
  "require_folder current = (case current of None \<Rightarrow> Inl (value_error ''folder_key does not exist'') | Some x \<Rightarrow> Inr x)"

definition folder_update :: "FolderMutationRequest \<Rightarrow> folder_state \<Rightarrow> folder_state result" where
  "folder_update q s = (let key = fo_folder_key q; folders = fd_folders s; current = by_last sf_folder_key folders key in
     case fo_action q of
       FOLDER_CREATE \<Rightarrow>
         checked [raise_if (current \<noteq> None) (value_error ''folder_key already exists''),
           raise_if (200 \<le> length folders) (value_error ''folder catalog exceeds bounded size''),
           raise_if (case fo_parent_key q of None \<Rightarrow> False | Some p \<Rightarrow> by_last sf_folder_key folders p = None)
             (value_error ''parent_key does not exist'')]
         (case fo_display_name q of
            None \<Rightarrow> Inl (RuntimeError ''validated display_name unexpectedly absent'' [])
          | Some n \<Rightarrow> bindE (construct folder_check \<lparr>sf_folder_key = key, sf_display_name = n, sf_parent_key = fo_parent_key q\<rparr>) (\<lambda>created.
              Inr (s\<lparr>fd_folders := folders @ [created],
                fd_fixture := (fd_fixture s)\<lparr>fx_folders := fx_folders (fd_fixture s) @ [key]\<rparr>\<rparr>)))
     | FOLDER_RENAME \<Rightarrow> bindE (require_folder current) (\<lambda>x.
         checked [raise_if (key \<in> set PROTECTED_FOLDERS) (value_error ''protected synthetic folder cannot be renamed'')]
         (case fo_display_name q of
            None \<Rightarrow> Inl (RuntimeError ''validated display_name unexpectedly absent'' [])
          | Some n \<Rightarrow> bindE (construct folder_check (x\<lparr>sf_display_name := n\<rparr>)) (\<lambda>replacement.
              Inr (s\<lparr>fd_folders := replace_key sf_folder_key key replacement folders\<rparr>))))
     | FOLDER_FAVORITE \<Rightarrow> bindE (require_folder current) (\<lambda>_.
         Inr (if key \<in> set (fd_favorites s) then s else s\<lparr>fd_favorites := fd_favorites s @ [key]\<rparr>))
     | FOLDER_UNFAVORITE \<Rightarrow> bindE (require_folder current) (\<lambda>_.
         Inr (s\<lparr>fd_favorites := filter (\<lambda>k. k \<noteq> key) (fd_favorites s)\<rparr>)))"

definition apply_fixture_folder_mutation ::
  "FolderMutationRequest \<Rightarrow> OutlookReadinessReport \<Rightarrow> folder_state \<Rightarrow> (folder_state \<times> FolderMutationResult) result" where
  "apply_fixture_folder_mutation q r s =
     checked ([synthetic_check ''OUT-039'' (fd_fixture s), ready_check r] @ folder_state_checks s)
     (bindE (folder_update q s) (\<lambda>s'.
      let key = fo_folder_key q;
          previous = map_option sf_display_name (by_last sf_folder_key (fd_folders s) key);
          previous_favorite = (key \<in> set (fd_favorites s));
          read_back = map_option sf_display_name (find_key sf_folder_key key (fd_folders s'));
          read_back_favorite = (key \<in> set (fd_favorites s'));
          outcome = (case fo_action q of
              FOLDER_CREATE \<Rightarrow> (read_back \<noteq> None \<and> key \<in> set (fx_folders (fd_fixture s')), True)
            | FOLDER_RENAME \<Rightarrow> (read_back = fo_display_name q, previous \<noteq> read_back)
            | FOLDER_FAVORITE \<Rightarrow> (read_back_favorite, \<not> previous_favorite)
            | FOLDER_UNFAVORITE \<Rightarrow> (\<not> read_back_favorite, previous_favorite)) in
      checked [raise_if (\<not> fst outcome) (RuntimeError ''synthetic read-back did not prove requested folder state'' [])]
      (Inr (s', \<lparr>fz_action = fo_action q, fz_folder_key = key, fz_previous_display_name = previous,
         fz_read_back_display_name = read_back, fz_previous_favorite = previous_favorite,
         fz_read_back_favorite = read_back_favorite, fz_changed = snd outcome, fz_verified = True, fz_synthetic = True\<rparr>))))"

subsection \<open>Consistent states\<close>

definition folder_state_ok :: "OutlookReadinessReport \<Rightarrow> folder_state \<Rightarrow> bool" where
  "folder_state_ok r s \<longleftrightarrow> fx_synthetic (fd_fixture s) \<and> ready_for_readonly_discovery r \<and> first_error (folder_state_checks s) = None \<and>
     list_all (\<lambda>x. folder_check x = None) (fd_folders s)"

definition apply_folder_op :: "OutlookReadinessReport \<Rightarrow> FolderMutationRequest \<Rightarrow> folder_state \<Rightarrow> folder_state result" where
  "apply_folder_op r q s = bindE (construct folder_request_check q) (\<lambda>q. map_sum id fst (apply_fixture_folder_mutation q r s))"

text \<open>What an accepted request does, on the catalogue as a map and on the favourites as a set.\<close>

definition folder_effect :: "FolderMutationRequest \<Rightarrow> folder_state \<Rightarrow> folder_state \<Rightarrow> bool" where
  "folder_effect q s s' \<longleftrightarrow> (let key = fo_folder_key q; look = (\<lambda>s k. find_key sf_folder_key k (fd_folders s)) in
     case fo_action q of
       FOLDER_CREATE \<Rightarrow> look s key = None \<and> set (fd_favorites s') = set (fd_favorites s) \<and>
         look s' = (look s)(key \<mapsto> \<lparr>sf_folder_key = key, sf_display_name = the (fo_display_name q), sf_parent_key = fo_parent_key q\<rparr>)
     | FOLDER_RENAME \<Rightarrow> set (fd_favorites s') = set (fd_favorites s) \<and> key \<notin> set PROTECTED_FOLDERS \<and>
         (case look s key of None \<Rightarrow> False | Some x \<Rightarrow> look s' = (look s)(key \<mapsto> x\<lparr>sf_display_name := the (fo_display_name q)\<rparr>))
     | FOLDER_FAVORITE \<Rightarrow> look s' = look s \<and> look s key \<noteq> None \<and> set (fd_favorites s') = insert key (set (fd_favorites s))
     | FOLDER_UNFAVORITE \<Rightarrow> look s' = look s \<and> look s key \<noteq> None \<and> set (fd_favorites s') = set (fd_favorites s) - {key})"

lemma by_last_find: "distinct_keys key xs \<Longrightarrow> by_last key xs k = find_key key k xs"
proof -
  assume d: "distinct_keys key xs"
  then have "distinct_keys key (rev xs)" by (simp add: distinct_keys_def rev_map [symmetric])
  with d have "find_key key k (rev xs) = Some x \<longleftrightarrow> find_key key k xs = Some x" for x by (simp add: find_key_iff)
  then show ?thesis unfolding by_last_def by (cases "find_key key k xs"; cases "find_key key k (rev xs)") auto
qed

lemma folder_check_None: "folder_check x = None \<longleftrightarrow> \<not> bad_token (sf_folder_key x) \<and>
    (case sf_parent_key x of None \<Rightarrow> True | Some p \<Rightarrow> \<not> bad_token p) \<and> trimmed (sf_display_name x) \<and> sf_parent_key x \<noteq> Some (sf_folder_key x)"
  by (simp add: folder_check_def checks first_error.simps(1))

lemma folder_check_value_error: "folder_check x = Some e \<Longrightarrow> is_value_error e"
  by (auto simp: folder_check_def first_error.simps token_check_cases optional_token_def raise_if_def split: if_splits option.splits)

lemma folder_state_checks_None: "first_error (folder_state_checks s) = None \<longleftrightarrow>
    sf_folder_key ` set (fd_folders s) = set (fx_folders (fd_fixture s)) \<and> distinct_keys sf_folder_key (fd_folders s) \<and>
    set (fd_favorites s) \<subseteq> sf_folder_key ` set (fd_folders s)"
  by (auto simp: folder_state_checks_def checks first_error.simps(1) list_ex_iff)

lemma folder_update_exact:
  assumes ok: "folder_state_ok r s" and q: "folder_request_check q = None"
  shows "case folder_update q s of
      Inl e \<Rightarrow> is_value_error e
    | Inr s' \<Rightarrow> folder_state_ok r s' \<and> folder_effect q s s' \<and>
        (fo_action q = FOLDER_CREATE \<longrightarrow> fo_folder_key q \<in> set (fx_folders (fd_fixture s')))"
proof -
  let ?k = "fo_folder_key q" and ?xs = "fd_folders s"
  let ?cur = "find_key sf_folder_key ?k ?xs"
  from ok have st: "sf_folder_key ` set ?xs = set (fx_folders (fd_fixture s))" "distinct_keys sf_folder_key ?xs"
    "set (fd_favorites s) \<subseteq> sf_folder_key ` set ?xs" "list_all (\<lambda>x. folder_check x = None) ?xs"
    unfolding folder_state_ok_def folder_state_checks_None by blast+
  have cur: "by_last sf_folder_key ?xs k = find_key sf_folder_key k ?xs" for k by (rule by_last_find [OF st(2)])
  have member: "?cur = Some x \<Longrightarrow> x \<in> set ?xs \<and> sf_folder_key x = ?k" for x by (rule find_key_Some)
  note ans = folder_update_def Let_def cur require_folder_def checked_def first_error.simps raise_if_def construct_def
  show ?thesis
  proof (cases "fo_action q")
    case FOLDER_CREATE
    with q obtain n where n: "fo_display_name q = Some n" by (auto simp: folder_request_check_def checks)
    let ?new = "\<lparr>sf_folder_key = ?k, sf_display_name = n, sf_parent_key = fo_parent_key q\<rparr>"
    let ?s = "s\<lparr>fd_folders := ?xs @ [?new], fd_fixture := (fd_fixture s)\<lparr>fx_folders := fx_folders (fd_fixture s) @ [?k]\<rparr>\<rparr>"
    show ?thesis
    proof (cases "folder_update q s")
      case (Inl e)
      with FOLDER_CREATE n show ?thesis
        by (auto simp: ans folder_check_value_error split: if_splits option.splits sum.splits)
    next
      case (Inr s')
      with FOLDER_CREATE n have s': "?cur = None" "folder_check ?new = None" "s' = ?s"
        by (auto simp: ans split: if_splits option.splits)
      from s'(1) have put: "?xs @ [?new] = put_in_place sf_folder_key ?new ?xs" by (simp add: put_in_place_def)
      have "distinct_keys sf_folder_key (?xs @ [?new])" unfolding put by (rule in_place.put_ok [OF st(2)])
      with st s'(2) ok have "folder_state_ok r ?s"
        by (auto simp: folder_state_ok_def folder_state_checks_None)
      moreover have "(\<lambda>k. find_key sf_folder_key k (?xs @ [?new])) = (\<lambda>k. find_key sf_folder_key k ?xs)(?k \<mapsto> ?new)"
        unfolding put using in_place.store [OF st(2), of ?new] by simp
      ultimately show ?thesis using Inr FOLDER_CREATE n s' by (simp add: folder_effect_def Let_def)
    qed
  next
    case FOLDER_RENAME
    with q obtain n where n: "fo_display_name q = Some n" by (auto simp: folder_request_check_def checks)
    show ?thesis
    proof (cases "folder_update q s")
      case (Inl e)
      with FOLDER_RENAME n show ?thesis
        by (auto simp: ans folder_check_value_error split: if_splits option.splits sum.splits)
    next
      case (Inr s')
      with FOLDER_RENAME n obtain x where x: "?cur = Some x" "?k \<notin> set PROTECTED_FOLDERS"
        "folder_check (x\<lparr>sf_display_name := n\<rparr>) = None" "s' = s\<lparr>fd_folders := replace_key sf_folder_key ?k (x\<lparr>sf_display_name := n\<rparr>) ?xs\<rparr>"
        by (auto simp: ans split: if_splits option.splits)
      let ?new = "x\<lparr>sf_display_name := n\<rparr>"
      have key: "sf_folder_key ?new = ?k" using member [OF x(1)] by simp
      have put: "replace_key sf_folder_key ?k ?new ?xs = put_in_place sf_folder_key ?new ?xs"
        using x(1) key by (simp add: put_in_place_def)
      have keys: "sf_folder_key ` set (put_in_place sf_folder_key ?new ?xs) = sf_folder_key ` set ?xs"
        using member [OF x(1)] by (auto simp: in_place.elements [OF st(2)] image_iff) metis
      have "list_all (\<lambda>x. folder_check x = None) (put_in_place sf_folder_key ?new ?xs)"
        using st(4) x(3) by (auto simp: list_all_iff in_place.elements [OF st(2)])
      with st keys ok have "folder_state_ok r s'"
        by (simp add: x(4) put folder_state_ok_def folder_state_checks_None in_place.put_ok)
      moreover have "(\<lambda>k. find_key sf_folder_key k (fd_folders s')) = (\<lambda>k. find_key sf_folder_key k ?xs)(?k \<mapsto> ?new)"
        using in_place.store [OF st(2), of ?new] key by (simp add: x(4) put)
      ultimately show ?thesis using Inr FOLDER_RENAME n x by (simp add: folder_effect_def Let_def)
    qed
  next
    case FOLDER_FAVORITE
    show ?thesis
    proof (cases ?cur)
      case (Some x)
      then have "?k \<in> sf_folder_key ` set ?xs" using member [OF Some] by (metis image_eqI)
      with st ok have "folder_state_ok r (if ?k \<in> set (fd_favorites s) then s else s\<lparr>fd_favorites := fd_favorites s @ [?k]\<rparr>)"
        by (simp add: folder_state_ok_def folder_state_checks_None)
      with Some FOLDER_FAVORITE show ?thesis by (auto simp: ans folder_effect_def)
    qed (simp add: ans FOLDER_FAVORITE)
  next
    case FOLDER_UNFAVORITE
    show ?thesis
    proof (cases ?cur)
      case (Some x)
      from st ok have "folder_state_ok r (s\<lparr>fd_favorites := filter (\<lambda>k. k \<noteq> ?k) (fd_favorites s)\<rparr>)"
        by (auto simp: folder_state_ok_def folder_state_checks_None)
      with Some FOLDER_UNFAVORITE show ?thesis by (auto simp: ans folder_effect_def)
    qed (simp add: ans FOLDER_UNFAVORITE)
  qed
qed

lemma folder_step:
  assumes ok: "folder_state_ok r s" and q: "folder_request_check q = None"
  shows "case apply_fixture_folder_mutation q r s of
      Inl e \<Rightarrow> is_value_error e
    | Inr (s', x) \<Rightarrow> folder_state_ok r s' \<and> folder_effect q s s' \<and>
        fz_read_back_display_name x = map_option sf_display_name (find_key sf_folder_key (fo_folder_key q) (fd_folders s')) \<and>
        fz_read_back_favorite x = (fo_folder_key q \<in> set (fd_favorites s'))"
proof -
  have gates: "checked ([synthetic_check ''OUT-039'' (fd_fixture s), ready_check r] @ folder_state_checks s) m = m" for m :: "'z result"
    using ok by (simp add: folder_state_ok_def checked_def first_error.simps(2) synthetic_check_def ready_check_def)
  note up = folder_update_exact [OF ok q]
  show ?thesis
  proof (cases "folder_update q s")
    case (Inl e)
    with up show ?thesis unfolding apply_fixture_folder_mutation_def gates by simp
  next
    case (Inr s')
    note answer = apply_fixture_folder_mutation_def gates Inr bindE_simps Let_def
    from up Inr have s': "folder_state_ok r s'" "folder_effect q s s'"
      "fo_action q = FOLDER_CREATE \<longrightarrow> fo_folder_key q \<in> set (fx_folders (fd_fixture s'))" by simp_all
    show ?thesis
    proof (cases "fo_action q")
      case FOLDER_CREATE
      with s' have "find_key sf_folder_key (fo_folder_key q) (fd_folders s') \<noteq> None"
        by (auto simp: folder_effect_def Let_def fun_eq_iff)
      with FOLDER_CREATE s' show ?thesis unfolding answer by (auto simp: checked_def first_error.simps)
    next
      case FOLDER_RENAME
      with q obtain n where n: "fo_display_name q = Some n" by (auto simp: folder_request_check_def checks)
      from FOLDER_RENAME s'(2) obtain x where x: "(\<lambda>k. find_key sf_folder_key k (fd_folders s')) =
          (\<lambda>k. find_key sf_folder_key k (fd_folders s))(fo_folder_key q \<mapsto> x\<lparr>sf_display_name := the (fo_display_name q)\<rparr>)"
        by (auto simp: folder_effect_def Let_def split: option.splits)
      from fun_cong [OF x, of "fo_folder_key q"] n
      have "map_option sf_display_name (find_key sf_folder_key (fo_folder_key q) (fd_folders s')) = fo_display_name q" by simp
      with FOLDER_RENAME s' show ?thesis unfolding answer by (simp add: checked_def first_error.simps)
    next
      case FOLDER_FAVORITE
      with s'(2) have "(fo_folder_key q \<in> set (fd_favorites s')) = True" by (simp add: folder_effect_def Let_def)
      with FOLDER_FAVORITE s' show ?thesis unfolding answer by (simp add: checked_def first_error.simps)
    next
      case FOLDER_UNFAVORITE
      with s'(2) have "(fo_folder_key q \<in> set (fd_favorites s')) = False" by (simp add: folder_effect_def Let_def)
      with FOLDER_UNFAVORITE s' show ?thesis unfolding answer by (simp add: checked_def first_error.simps)
    qed
  qed
qed

text \<open>From a consistent state every history of folder requests keeps mailbox, catalogue and favourites
  consistent: the catalogue lists exactly the folders of the mailbox, each key once, and favourites are folders. An
  accepted request has exactly its effect, with a read-back of it, the three folders of every mailbox are never
  renamed, and every refusal is a \<open>ValueError\<close>.\<close>

theorem folder_lifecycle_consistent:
  "if folder_state_ok r s
   then folder_state_ok r (fold (run_step (apply_folder_op r)) ops s) \<and>
     (case folder_request_check q of Some e \<Rightarrow> True | None \<Rightarrow>
       (case apply_fixture_folder_mutation q r s of
          Inl e \<Rightarrow> is_value_error e
        | Inr (s', x) \<Rightarrow> folder_state_ok r s' \<and> folder_effect q s s' \<and>
            fz_read_back_display_name x = map_option sf_display_name (find_key sf_folder_key (fo_folder_key q) (fd_folders s')) \<and>
            fz_read_back_favorite x = (fo_folder_key q \<in> set (fd_favorites s'))))
   else True"
proof (cases "folder_state_ok r s")
  case True
  have "folder_state_ok r (fold (run_step (apply_folder_op r)) ops s)"
    using True
  proof (induction ops arbitrary: s)
    case (Cons op ops)
    have "folder_state_ok r (run_step (apply_folder_op r) op s)"
    proof (cases "folder_request_check op")
      case None
      with folder_step [OF Cons.prems None] Cons.prems show ?thesis
        by (auto simp: run_step_def apply_folder_op_def construct_def split: sum.splits)
    next
      case (Some e)
      with Cons.prems show ?thesis by (simp add: run_step_def apply_folder_op_def construct_def)
    qed
    with Cons.IH show ?case by simp
  qed simp
  with True folder_step [OF True] show ?thesis by (cases "folder_request_check q") simp_all
next
  case False
  then show ?thesis by (simp only: if_False)
qed

subsection \<open>Too deep to be listed\<close>

text \<open>A chain of nine folders, whose last has the greatest depth a listing accepts.\<close>

definition chain_folders :: "SyntheticFolder list" where
  "chain_folders = map2 (\<lambda>k p. \<lparr>sf_folder_key = [k], sf_display_name = [k], sf_parent_key = p\<rparr>) ''abcdefghi''
     (None # map (\<lambda>c. Some [c]) ''abcdefgh'')"

definition chain_state :: folder_state where
  "chain_state = \<lparr>fd_fixture = default_outlook_fixture\<lparr>fx_folders := map (\<lambda>c. [c]) ''abcdefghi'', fx_messages := []\<rparr>,
     fd_folders = chain_folders, fd_favorites = []\<rparr>"

definition create_below :: FolderMutationRequest where
  "create_below = \<lparr>fo_action = FOLDER_CREATE, fo_folder_key = ''j'', fo_display_name = Some ''j'', fo_parent_key = Some ''i''\<rparr>"


end
