(* ===== verification/Spec2Isabelle.thy ===== *)
(*  The m365-ui-mcp control plane: root of the verification library. *)

theory Spec2Isabelle
  imports Config Approval Idempotency Lifecycle Typed_Locks Scheduling Runbooks Execution_Modes Capability_Support Results Origin_Gate Browser_Effects Worker_App Outlook_Scheduling Outlook_Follow_Up Outlook_Categories Outlook_Folders
begin

text \<open>
  A verification development for the deterministic core of m365-ui-mcp, a server that exposes
  Microsoft 365 web applications (Planner, Outlook) as semantic tools under a fail-closed policy. The
  program is Python; all paths below are under \<open>src/src/\<close>.

  \<^bold>\<open>Parts of the program and how they interact.\<close> The control plane (\<open>m365_mcp\<close>) starts from an
  environment (\<open>config.py\<close>), builds closed registries of applications, tools, capabilities and
  compensations, and answers a tool call only after its policy has allowed it. A capability is supported
  only while the user interface it depends on is attested: contract fragments describe selectors
  (\<open>ui_contract_store.py\<close>), observations of them become evidence records in an append-only store
  (\<open>attestation.py\<close>, \<open>capability_evidence.py\<close>), freshness overlays age (\<open>evidence_freshness.py\<close>), and
  the effective state is the projection of all that (\<open>effective_capabilities.py\<close>,
  \<open>planner_mcp/capabilities.py\<close>). Multi-step plans are bound to an approval digest, consumed once from
  an approval table, executed under typed locks in one global order, recorded by idempotency
  reservations and checkpoint chains, and ordered by the batch and DAG planners. Results leave through
  projections that drop secret fields, with a provenance digest, behind a bearer gate.

  \<^bold>\<open>Theories, in the order they build on each other.\<close>
  \<^item> \<open>M365_Prelude\<close>: exceptions as values (\<open>exn + 'a\<close>), the check lists of a dataclass
    \<open>__post_init__\<close> (\<open>first_error\<close>, \<open>construct\<close>), Python string helpers, insertion-ordered
    dictionaries, stable sorting and maxima, UTF-8.
  \<^item> \<open>Sha256\<close>, \<open>Canonical_Json\<close>, \<open>Timestamps\<close>: the parts of Python's standard library that the
    digests and stored texts rest on, written out. \<open>Canonical_Json.content_address\<close> is the locale of
    every digest: an injective payload gives a digest that identifies its object, or an explicit
    SHA-256 collision. It is interpreted for approvals, reservations, checkpoints, identities, locks,
    evidence, runbooks and provenance.
  \<^item> \<open>Config\<close> (\<open>config.py\<close>), \<open>Registries\<close> (\<open>application_registry.py\<close>, \<open>tool_registry.py\<close>,
    \<open>tool_profiles.py\<close>, \<open>security_tiers.py\<close>, \<open>capability_registry.py\<close>, \<open>compensation_registry.py\<close> and
    the shipped Planner and Outlook definitions), \<open>Policy\<close> (\<open>policy_scope.py\<close>, \<open>policy.py\<close>,
    \<open>plan_policy.py\<close>, \<open>policy_simulation.py\<close>, \<open>xapp_node_governance.py\<close>).
  \<^item> \<open>Approval\<close> (\<open>approval_digest.py\<close>, \<open>approval_store.py\<close>): digests, the table, and consumption cut
    at its database calls as an interleaving step relation; the locale \<open>single_use\<close> carries the
    serialisation argument and is interpreted on the sequential and on the interleaved store.
  \<^item> \<open>State_Identity\<close>, \<open>Idempotency\<close>, \<open>Typed_Locks\<close> (locale \<open>ordered_acquisition\<close>: no deadlock under a
    strict global order), \<open>Lifecycle\<close> (locale \<open>closed_lifecycle\<close>: chains of checkpoints are traces of
    the closed life cycle; also resume planning and dead letters).
  \<^item> \<open>Scheduling\<close> (batches, DAG waves, cancellation and deadlines; the locale \<open>round_scheduler\<close> is
    interpreted for bounded and unbounded waves), \<open>Runbooks\<close> (registry, canonical form, promotion, typed
    bindings, packaged runbooks), \<open>Execution_Modes\<close> (budgets, escalation, direct execution).
  \<^item> \<open>Ui_Contracts\<close>, \<open>Evidence\<close>, \<open>Attestation\<close>, \<open>Capability_Support\<close>: from contract documents to the
    effective capabilities, as above.
  \<^item> \<open>Results\<close> (secret fields, projections, references, provenance) and \<open>Origin_Gate\<close> (the bearer
    middleware and the metric aggregations).
  \<^item> The browser worker (\<open>m365_browser_worker\<close>, \<open>planner_browser_worker\<close>). \<open>Browser_Policy\<close>: host and origin
    policies, the fixed navigation targets and the bootstrap guard, over a translation of \<open>urlsplit\<close>.
    \<open>Worker_Protocol\<close>: typed requests, negotiation, the closed error projection, readiness, grants, and the
    serialised executor as a step relation. \<open>Live_Page\<close> and \<open>Browser_Session\<close>: locators, surface
    classification, resolvers and every method of \<open>PersistentBrowser\<close>, as operations on an arbitrary browser
    that log what they see and do. \<open>Page_Effects\<close> is the calculus for them (\<open>wp f m Q\<close>: from the flags \<open>f\<close>,
    result, log and flags satisfy \<open>Q\<close>), \<open>Browser_Effects\<close> what they promise. \<open>Auth_Observation\<close>: the matcher
    of prompt numbers and the observed sign-in state. \<open>Planner_Reads\<close>: plans and tasks read from the page.
    \<open>Worker_App\<close>: every HTTP route with its guards, composed from all of these, and histories of requests.
  \<^item> The Outlook application (\<open>m365_mcp/apps/outlook\<close>), which works on a synthetic mailbox. \<open>Outlook_Base\<close>: the
    mailbox, its contexts, discovery and the readiness gate, and the locale \<open>keyed_catalogue\<close> of catalogues that
    are stored into by key. \<open>Outlook_Calendar\<close> and \<open>Outlook_Scheduling\<close>: calendars, events and their search,
    free/busy slots, the scheduling grid and common slots, against a reference search over the window.
    \<open>Outlook_Mail\<close>: mail reads and the folder tree. \<open>Outlook_Messages\<close> (read state, archive, move, focused
    inbox) states the locale \<open>keyed_machine\<close>, a store that refines a machine over one entry at a time; it is
    interpreted for the mailbox, for pins and snoozes (\<open>Outlook_Markers\<close>) and for follow-up flags
    (\<open>Outlook_Follow_Up\<close>). \<open>Outlook_Categories\<close>, \<open>Outlook_Folders\<close>: categories, their assignments in batches, and
    the life cycles of categories and folders.

  \<^bold>\<open>Correspondence.\<close> A dataclass is a record with the source's fields under a two-letter prefix; its
  \<open>__post_init__\<close> is the list of its checks in source order, so the exception of a rejected object is
  the one the code raises. An enumeration is a datatype with a \<open>_value\<close> function giving the source's
  text. Methods and functions keep their names. Mutable state (the approval table, the evidence table,
  browser and sign-in state) is passed explicitly; concurrent actors are step relations.

  \<^bold>\<open>Lemma groups.\<close> Each component has lemmas that say exactly which inputs construct
  (\<open>_Inr_iff\<close>, \<open>_check_None\<close>), that its digest payload determines it, what every operation returns, and
  which invariant it keeps; the properties are the theorems after a numbered text block, and each one
  that has a hypothesis is followed by a witness that applies it to concrete values.

  \<^bold>\<open>Bounds.\<close> No definition uses fuel: loops are structural recursions, or functions with a termination
  proof (the scheduling rounds shrink the pending set, the cancellation fixpoint grows within the nodes); the loop
  over the ancestors of a folder, which has no bound in the code, is a partial function and proved to return.
  Python's integers are \<open>int\<close> or \<open>nat\<close>; SHA-256 works on 32-bit words.

  \<^bold>\<open>Parameters.\<close> What the code calls but the repository does not hold is an argument: the parser of
  \<open>pydantic_settings\<close>, \<open>urlsplit\<close>, the reader of JSON documents below a directory, the file system of the
  token loader, the clock, random tokens, Python's number formatting and the float product of
  \<open>duration_ms\<close>, and the browser: a \<open>driver\<close> whose answers are arbitrary functions of its own world, so that
  every theorem about the worker holds whatever the pages show. The script that reads a Planner page is a
  parameter too; the two properties over all routes rest on its only looking.

  \<^bold>\<open>Not modelled.\<close> Parsing of dates (\<open>datetime.fromisoformat\<close>), floating-point averages and ratios,
  \<open>snapshot\<close> and \<open>to_projection\<close> views that only copy fields, database and file opening, the FastMCP
  and FastAPI wiring, process start-up, logging, repository scripts, and the modules the manifest lists as not modelled.
\<close>

end
